(* ===== verification/Prelude.thy ===== *)
theory Prelude
  imports Main "HOL-Library.AList" "HOL-Library.Multiset"
    "HOL-Library.Char_ord" "HOL-Library.List_Lexorder" "HOL-Library.Product_Lexorder"
begin

text \<open>
  The shared vocabulary of the development.

  \<^item> \<open>exn\<close> is what a call can throw: a Redis command error, an error reply raised by a Lua script,
    a JavaScript exception, or one of the coded errors of \<open>src/src/mcp-server/errors.ts\<close>.
  \<^item> \<open>('s, 'a) comp\<close> is a computation over a state \<open>'s\<close> that may throw. State changes made before a
    throw stay, as they do in Redis scripts and in JavaScript. The same type serves for Lua scripts
    (\<open>'s\<close> is the Redis database) and for TypeScript methods (\<open>'s\<close> is the world of theory Redis).
  \<^item> decimal notation of integers, which Redis counters are stored in.
\<close>

named_theorems run_simps "symbolic execution of computations"
named_theorems key_simps "injectivity and disjointness of the key builders"
named_theorems view_simps "reading the database after a write"

section \<open>Computations that may throw\<close>

datatype gpt_code = SESSION_UNAVAILABLE | AGENT_NOT_REGISTERED

datatype exn =
    WrongType                        \<comment> \<open>Redis WRONGTYPE\<close>
  | NotAnInteger                     \<comment> \<open>Redis: value is not an integer or out of range\<close>
  | ErrorReply string                \<comment> \<open>\<open>redis.error_reply\<close> or an error raised inside a script\<close>
  | JsError string                   \<comment> \<open>a JavaScript \<open>Error\<close> or \<open>TypeError\<close>\<close>
  | GptQueueError gpt_code

type_synonym ('s, 'a) comp = "'s \<Rightarrow> (exn + 'a) \<times> 's"

definition ret :: "'a \<Rightarrow> ('s, 'a) comp" where
  "ret a = (\<lambda>s. (Inr a, s))"

definition throw :: "exn \<Rightarrow> ('s, 'a) comp" where
  "throw e = (\<lambda>s. (Inl e, s))"

definition bindM :: "('s, 'a) comp \<Rightarrow> ('a \<Rightarrow> ('s, 'b) comp) \<Rightarrow> ('s, 'b) comp" where
  "bindM m f = (\<lambda>s. case m s of (Inl e, s') \<Rightarrow> (Inl e, s') | (Inr a, s') \<Rightarrow> f a s')"

definition thenM :: "('s, 'a) comp \<Rightarrow> ('s, 'b) comp \<Rightarrow> ('s, 'b) comp" where
  "thenM m k = bindM m (\<lambda>_. k)"

text \<open>\<open>try { m } catch (e) { h(e) }\<close>\<close>

definition catchM :: "('s, 'a) comp \<Rightarrow> (exn \<Rightarrow> ('s, 'a) comp) \<Rightarrow> ('s, 'a) comp" where
  "catchM m h = (\<lambda>s. case m s of (Inl e, s') \<Rightarrow> h e s' | (Inr a, s') \<Rightarrow> (Inr a, s'))"

definition modifyM :: "('s \<Rightarrow> 's) \<Rightarrow> ('s, unit) comp" where
  "modifyM f = (\<lambda>s. (Inr (), f s))"

definition getM :: "('s \<Rightarrow> 'a) \<Rightarrow> ('s, 'a) comp" where
  "getM f = (\<lambda>s. (Inr (f s), s))"

text \<open>\<open>for (const x of xs) acc = body(acc, x)\<close>\<close>

primrec foldM :: "('b \<Rightarrow> 'a \<Rightarrow> ('s, 'b) comp) \<Rightarrow> 'b \<Rightarrow> 'a list \<Rightarrow> ('s, 'b) comp" where
  "foldM f b [] = ret b"
| "foldM f b (x # xs) = bindM (f b x) (\<lambda>b'. foldM f b' xs)"

definition forM :: "'a list \<Rightarrow> ('a \<Rightarrow> ('s, unit) comp) \<Rightarrow> ('s, unit) comp" where
  "forM xs f = foldM (\<lambda>_ x. f x) () xs"

lemma ret_run [run_simps]: "ret a s = (Inr a, s)"
  by (simp add: ret_def)

lemma throw_run [run_simps]: "throw e s = (Inl e, s)"
  by (simp add: throw_def)

lemma modifyM_run [run_simps]: "modifyM f s = (Inr (), f s)"
  by (simp add: modifyM_def)

lemma getM_run [run_simps]: "getM f s = (Inr (f s), s)"
  by (simp add: getM_def)

text \<open>
  The two rules below run a computation symbolically: the simplifier rewrites the first call with
  the facts it has and goes on with the continuation.
\<close>

lemma bindM_ok [run_simps]: "m s = (Inr a, s') \<Longrightarrow> bindM m f s = f a s'"
  by (simp add: bindM_def)

text \<open>For the result \<open>False\<close> the simplifier would turn the condition of \<open>bindM_ok\<close> into a negation it cannot solve.\<close>

lemma bindM_False [run_simps]: "m s = (Inr False, s') \<Longrightarrow> bindM m f s = f False s'"
  by (simp add: bindM_def)

lemma bindM_err [run_simps]: "m s = (Inl e, s') \<Longrightarrow> bindM m f s = (Inl e, s')"
  by (simp add: bindM_def)

lemma thenM_ok [run_simps]: "m s = (Inr a, s') \<Longrightarrow> thenM m k s = k s'"
  by (simp add: thenM_def bindM_def)

lemma thenM_err [run_simps]: "m s = (Inl e, s') \<Longrightarrow> thenM m k s = (Inl e, s')"
  by (simp add: thenM_def bindM_def)

lemma catchM_ok [run_simps]: "m s = (Inr a, s') \<Longrightarrow> catchM m h s = (Inr a, s')"
  by (simp add: catchM_def)

lemma catchM_err [run_simps]: "m s = (Inl e, s') \<Longrightarrow> catchM m h s = h e s'"
  by (simp add: catchM_def)

lemma bindM_split:
  "P (bindM m f s) \<longleftrightarrow>
    (\<forall>e s'. m s = (Inl e, s') \<longrightarrow> P (Inl e, s')) \<and> (\<forall>a s'. m s = (Inr a, s') \<longrightarrow> P (f a s'))"
  by (cases "m s"; cases "fst (m s)") (auto simp: bindM_def)

lemma bindM_Inr_E:
  assumes "bindM m f s = (Inr b, s'')"
  obtains a s' where "m s = (Inr a, s')" and "f a s' = (Inr b, s'')"
  using assms by (auto simp: bindM_def split: prod.splits sum.splits)

lemma thenM_Inr_E:
  assumes "thenM m k s = (Inr b, s'')"
  obtains a s' where "m s = (Inr a, s')" and "k s' = (Inr b, s'')"
  using assms unfolding thenM_def by (rule bindM_Inr_E)

lemma forM_Nil [run_simps]: "forM [] f = ret ()"
  by (simp add: forM_def)

lemma forM_Cons [run_simps]: "forM (x # xs) f = thenM (f x) (forM xs f)"
  by (simp add: forM_def thenM_def)

section \<open>Decimal notation\<close>

definition digit :: "nat \<Rightarrow> char" where
  "digit n = char_of (48 + n)"

fun show_nat :: "nat \<Rightarrow> string" where
  "show_nat n = (if n < 10 then [digit n] else show_nat (n div 10) @ [digit (n mod 10)])"

declare show_nat.simps [simp del]

definition is_digit :: "char \<Rightarrow> bool" where
  "is_digit c \<longleftrightarrow> 48 \<le> (of_char c :: nat) \<and> (of_char c :: nat) \<le> 57"

definition digit_val :: "char \<Rightarrow> nat" where
  "digit_val c = of_char c - 48"

definition nat_of_digits :: "string \<Rightarrow> nat" where
  "nat_of_digits ds = foldl (\<lambda>n c. 10 * n + digit_val c) 0 ds"

definition show_int :: "int \<Rightarrow> string" where
  "show_int i = (if i < 0 then CHR ''-'' # show_nat (nat (- i)) else show_nat (nat i))"

text \<open>The canonical decimal integers: \<open>0\<close>, or an optional minus and no leading zero.\<close>

fun parse_int :: "string \<Rightarrow> int option" where
  "parse_int [] = None"
| "parse_int (c # cs) =
     (if c = CHR ''-''
      then (case cs of
              [] \<Rightarrow> None
            | d # ds \<Rightarrow> if list_all is_digit cs \<and> d \<noteq> CHR ''0'' then Some (- int (nat_of_digits cs)) else None)
      else if list_all is_digit (c # cs) \<and> (c \<noteq> CHR ''0'' \<or> cs = []) then Some (int (nat_of_digits (c # cs)))
      else None)"

lemma of_char_digit [simp]: "n < 10 \<Longrightarrow> (of_char (digit n) :: nat) = 48 + n"
  by (simp add: digit_def)

lemma is_digit_digit [simp]: "n < 10 \<Longrightarrow> is_digit (digit n)"
  by (simp add: is_digit_def)

lemma digit_val_digit [simp]: "n < 10 \<Longrightarrow> digit_val (digit n) = n"
  by (simp add: digit_val_def)

lemma digit_neq_minus [simp]: "n < 10 \<Longrightarrow> digit n \<noteq> CHR ''-''"
  using of_char_digit[of n] by (auto simp del: of_char_digit)

lemma digit_0 [simp]: "digit 0 = CHR ''0''"
proof -
  have "(of_char (digit 0) :: nat) = of_char CHR ''0''" by simp
  then show ?thesis by (simp only: of_char_eq_iff)
qed

lemma digit_zero_iff: "n < 10 \<Longrightarrow> digit n = CHR ''0'' \<longleftrightarrow> n = 0"
  using of_char_digit[of n] by (auto simp del: of_char_digit)

lemma show_nat_not_Nil [simp]: "show_nat n \<noteq> []"
  by (subst show_nat.simps) simp

lemma list_all_show_nat [simp]: "list_all is_digit (show_nat n)"
proof (induction n rule: show_nat.induct)
  case (1 n)
  then show ?case by (subst show_nat.simps) auto
qed

lemma nat_of_digits_snoc: "nat_of_digits (xs @ [c]) = 10 * nat_of_digits xs + digit_val c"
  by (simp add: nat_of_digits_def)

lemma nat_of_digits_show_nat [simp]: "nat_of_digits (show_nat n) = n"
proof (induction n rule: show_nat.induct)
  case (1 n)
  show ?case
  proof (cases "n < 10")
    case True
    then show ?thesis by (subst show_nat.simps) (simp add: nat_of_digits_def)
  next
    case False
    with 1 have "nat_of_digits (show_nat (n div 10)) = n div 10" by simp
    with False show ?thesis by (subst show_nat.simps) (simp add: nat_of_digits_snoc)
  qed
qed

lemma hd_show_nat: "hd (show_nat n) = CHR ''0'' \<longleftrightarrow> n = 0"
proof (induction n rule: show_nat.induct)
  case (1 n)
  show ?case
  proof (cases "n < 10")
    case True
    then show ?thesis by (subst show_nat.simps) (simp add: digit_zero_iff)
  next
    case False
    with 1 show ?thesis by (subst show_nat.simps) (simp add: hd_append)
  qed
qed

lemma show_nat_0: "show_nat 0 = ''0''"
  by (subst show_nat.simps) simp

lemma hd_digit: "list_all is_digit cs \<Longrightarrow> cs \<noteq> [] \<Longrightarrow> hd cs \<noteq> CHR ''-''"
  by (cases cs) (auto simp: is_digit_def)

lemma parse_int_show_int [simp]: "parse_int (show_int i) = Some i"
proof (cases "i < 0")
  case True
  obtain d ds where d: "show_nat (nat (- i)) = d # ds"
    using show_nat_not_Nil by (meson neq_Nil_conv)
  have "d \<noteq> CHR ''0''" using hd_show_nat[of "nat (- i)"] True d by simp
  moreover have "list_all is_digit (d # ds)" and "nat_of_digits (d # ds) = nat (- i)"
    using list_all_show_nat nat_of_digits_show_nat d by metis+
  ultimately show ?thesis using True d by (simp add: show_int_def)
next
  case False
  obtain d ds where d: "show_nat (nat i) = d # ds"
    using show_nat_not_Nil by (meson neq_Nil_conv)
  have dg: "list_all is_digit (d # ds)" and v: "nat_of_digits (d # ds) = nat i"
    using list_all_show_nat nat_of_digits_show_nat d by metis+
  have "d \<noteq> CHR ''-''" using hd_digit[OF dg] by simp
  moreover have "d \<noteq> CHR ''0'' \<or> ds = []"
    using hd_show_nat[of "nat i"] d show_nat_0 by (cases "nat i = 0") auto
  ultimately show ?thesis using False d dg v by (simp add: show_int_def)
qed

section \<open>Lists and strings\<close>

definition starts_with :: "string \<Rightarrow> string \<Rightarrow> bool" where
  "starts_with p s \<longleftrightarrow> take (length p) s = p"

lemma starts_with_iff: "starts_with p s \<longleftrightarrow> (\<exists>t. s = p @ t)"
  unfolding starts_with_def by (metis append_eq_conv_conj append_take_drop_id)

text \<open>\<open>String.prototype.trim\<close> on the ASCII white space.\<close>

definition is_space :: "char \<Rightarrow> bool" where
  "is_space c \<longleftrightarrow> c = CHR '' '' \<or> (9 \<le> (of_char c :: nat) \<and> (of_char c :: nat) \<le> 13)"

definition trim :: "string \<Rightarrow> string" where
  "trim s = rev (dropWhile is_space (rev (dropWhile is_space s)))"

lemma trim_Nil_iff: "trim s = [] \<longleftrightarrow> list_all is_space s"
proof
  assume "trim s = []"
  then have "\<forall>c \<in> set (dropWhile is_space s). is_space c"
    by (simp add: trim_def dropWhile_eq_Nil_conv)
  then have "dropWhile is_space s = []"
    by (metis hd_dropWhile hd_in_set)
  then show "list_all is_space s"
    by (simp add: dropWhile_eq_Nil_conv list_all_iff)
next
  assume "list_all is_space s"
  then show "trim s = []" by (simp add: trim_def dropWhile_eq_Nil_conv list_all_iff) (meson set_dropWhileD)
qed

lemma mset_concat_map_append: "mset (concat (xs @ ys)) = mset (concat xs) + mset (concat ys)"
  by simp

section \<open>Transition systems\<close>

text \<open>
  The states a system reaches from its initial states, and the interface of an inductive invariant: a
  component that proves the two laws of \<open>invariant_system\<close> gets the invariant in every reachable state.
\<close>

inductive reach :: "('s \<Rightarrow> bool) \<Rightarrow> ('s \<Rightarrow> 'e \<Rightarrow> 's \<Rightarrow> bool) \<Rightarrow> 's \<Rightarrow> bool" for init step where
  reach_init: "init s \<Longrightarrow> reach init step s"
| reach_step: "reach init step s \<Longrightarrow> step s e t \<Longrightarrow> reach init step t"

locale invariant_system =
  fixes init :: "'s \<Rightarrow> bool" and step :: "'s \<Rightarrow> 'e \<Rightarrow> 's \<Rightarrow> bool" and invar :: "'s \<Rightarrow> bool"
  assumes inv_init: "init s \<Longrightarrow> invar s"
    and inv_step: "invar s \<Longrightarrow> step s e t \<Longrightarrow> invar t"
begin

lemma reach_inv: "reach init step s \<Longrightarrow> invar s"
  by (induction rule: reach.induct) (auto intro: inv_init inv_step)

end

end
