(* ===== verification/Iso_Time.thy ===== *)
theory Iso_Time
  imports Prelude
begin

text \<open>
  ISO timestamps. \<open>src/src/mcp-server/lua/claims-renew.lua\<close> carries its own conversion between ISO
  strings and epoch milliseconds, because a Redis script has no reliable clock library; it is
  translated here function by function. The text \<open>iso_from_ms\<close> prints is the format of JavaScript's
  \<open>Date.prototype.toISOString\<close>, so the TypeScript side uses the same function. The main result is
  that reading back a printed instant gives the instant.
\<close>

section \<open>Calendar arithmetic\<close>

definition days_from_civil :: "int \<Rightarrow> int \<Rightarrow> int \<Rightarrow> int" where
  "days_from_civil y m d =
     (let yy = (if m \<le> 2 then y - 1 else y);
          era = yy div 400;
          yoe = yy - era * 400;
          mp = m + (if m > 2 then - 3 else 9);
          doy = (153 * mp + 2) div 5 + d - 1;
          doe = yoe * 365 + yoe div 4 - yoe div 100 + doy
      in era * 146097 + doe - 719468)"

definition yoe_of_doe :: "int \<Rightarrow> int" where
  "yoe_of_doe doe = (doe - doe div 1460 + doe div 36524 - doe div 146096) div 365"

definition civil_from_days :: "int \<Rightarrow> int \<times> int \<times> int" where
  "civil_from_days days =
     (let z = days + 719468;
          era = z div 146097;
          doe = z - era * 146097;
          yoe = yoe_of_doe doe;
          y = yoe + era * 400;
          doy = doe - (365 * yoe + yoe div 4 - yoe div 100);
          mp = (5 * doy + 2) div 153;
          d = doy - (153 * mp + 2) div 5 + 1;
          m = mp + (if mp < 10 then 3 else - 9);
          yfinal = (if m \<le> 2 then y + 1 else y)
      in (yfinal, m, d))"

lemma yoe_bounds:
  assumes "0 \<le> doe" and "doe < 146097"
  shows "0 \<le> yoe_of_doe doe" and "yoe_of_doe doe < 400"
proof -
  have "doe div 146096 = (if doe = 146096 then 1 else 0)"
    using assms by auto
  then show "0 \<le> yoe_of_doe doe" and "yoe_of_doe doe < 400"
    using assms unfolding yoe_of_doe_def by (auto split: if_splits)
qed

lemma doy_bounds:
  assumes "0 \<le> doe" and "doe < 146097" and "yoe = yoe_of_doe doe"
  shows "0 \<le> doe - (365 * yoe + yoe div 4 - yoe div 100)"
    and "doe - (365 * yoe + yoe div 4 - yoe div 100) \<le> 365"
proof -
  define a b c where "a = doe div 1460" and "b = doe div 36524" and "c = doe div 146096"
  have c: "c = (if doe = 146096 then 1 else 0)"
    using assms(1,2) by (auto simp: c_def)
  have a: "1460 * a \<le> doe" "doe < 1460 * a + 1460" and b: "36524 * b \<le> doe" "doe < 36524 * b + 36524"
    by (auto simp: a_def b_def)
  define q h where "q = yoe div 4" and "h = yoe div 100"
  have q: "4 * q \<le> yoe" "yoe < 4 * q + 4" and h: "100 * h \<le> yoe" "yoe < 100 * h + 100"
    by (auto simp: q_def h_def)
  define n where "n = doe - a + b - c"
  have "yoe = n div 365"
    using assms(3) by (simp add: yoe_of_doe_def a_def b_def c_def n_def)
  then have y: "365 * yoe \<le> n" "n < 365 * yoe + 365"
    by auto
  have yb: "0 \<le> yoe" "yoe < 400"
    using yoe_bounds assms by auto
  have hs: "h = 0 \<or> h = 1 \<or> h = 2 \<or> h = 3"
    using yb h by arith
  have bs: "b = 0 \<or> b = 1 \<or> b = 2 \<or> b = 3 \<or> b = 4"
    using b assms by arith
  have "q - h \<le> a - b + c"
    using hs bs by (elim disjE) (use q h a b y c n_def assms(1,2) in \<open>(auto split: if_splits)\<close>)
  then show "0 \<le> doe - (365 * yoe + yoe div 4 - yoe div 100)"
    unfolding q_def[symmetric] h_def[symmetric] using y n_def by linarith
  show "doe - (365 * yoe + yoe div 4 - yoe div 100) \<le> 365"
    unfolding q_def[symmetric] h_def[symmetric]
    using hs bs by (elim disjE) (use q h a b y c n_def assms(1,2) in \<open>(auto split: if_splits)\<close>)
qed

lemma era_of: "0 \<le> (y::int) \<Longrightarrow> y < 400 \<Longrightarrow> (y + e * 400) div 400 = e"
  by simp

lemma civil_from_days_E:
  assumes "civil_from_days z = (y, m, d)"
  obtains era yoe doy mp where "era = (z + 719468) div 146097"
    and "z + 719468 = era * 146097 + (365 * yoe + yoe div 4 - yoe div 100 + doy)"
    and "0 \<le> yoe" "yoe < 400" "0 \<le> doy" "doy \<le> 365" "mp = (5 * doy + 2) div 153"
    and "m = mp + (if mp < 10 then 3 else - 9)"
    and "d = doy - (153 * mp + 2) div 5 + 1"
    and "y = (if m \<le> 2 then yoe + era * 400 + 1 else yoe + era * 400)"
proof -
  define era where "era = (z + 719468) div 146097"
  define doe where "doe = (z + 719468) - era * 146097"
  define yoe where "yoe = yoe_of_doe doe"
  define doy where "doy = doe - (365 * yoe + yoe div 4 - yoe div 100)"
  define mp where "mp = (5 * doy + 2) div 153"
  have doe: "0 \<le> doe" "doe < 146097"
    by (auto simp: doe_def era_def minus_div_mult_eq_mod)
  have civ: "(let m = mp + (if mp < 10 then 3 else - 9) in
      (if m \<le> 2 then yoe + era * 400 + 1 else yoe + era * 400, m, doy - (153 * mp + 2) div 5 + 1)) = (y, m, d)"
    using assms unfolding civil_from_days_def Let_def
      era_def[symmetric] doe_def[symmetric] yoe_def[symmetric] doy_def[symmetric] mp_def[symmetric] .
  show ?thesis
  proof (rule that)
    show "z + 719468 = era * 146097 + (365 * yoe + yoe div 4 - yoe div 100 + doy)"
      by (simp add: doy_def doe_def)
    show "0 \<le> yoe" "yoe < 400" using yoe_bounds[OF doe] by (simp_all add: yoe_def)
    show "0 \<le> doy" "doy \<le> 365" using doy_bounds[OF doe yoe_def] by (simp_all only: doy_def)
    show "m = mp + (if mp < 10 then 3 else - 9)" using civ by (simp only: Let_def prod.inject)
    then show "y = (if m \<le> 2 then yoe + era * 400 + 1 else yoe + era * 400)"
      using civ by (simp only: Let_def prod.inject)
    show "d = doy - (153 * mp + 2) div 5 + 1" using civ by (simp only: Let_def prod.inject)
  qed (simp_all only: era_def mp_def)
qed

lemma civil_from_days_bounds:
  assumes "civil_from_days z = (y, m, d)"
  shows "1 \<le> m" and "m \<le> 12" and "1 \<le> d" and "d \<le> 31" and "0 \<le> z \<Longrightarrow> 0 \<le> y"
proof -
  obtain era yoe doy mp where *: "era = (z + 719468) div 146097" "0 \<le> yoe" "0 \<le> doy" "doy \<le> 365"
      "mp = (5 * doy + 2) div 153" "m = mp + (if mp < 10 then 3 else - 9)"
      "d = doy - (153 * mp + 2) div 5 + 1" "y = (if m \<le> 2 then yoe + era * 400 + 1 else yoe + era * 400)"
    by (rule civil_from_days_E[OF assms]) (rule that; assumption)
  have mp: "0 \<le> mp" "mp \<le> 11" using *(3,4,5) by auto
  show "1 \<le> m" "m \<le> 12" using *(6) mp by auto
  show "1 \<le> d" "d \<le> 31" using *(3,4,7) unfolding *(5) by auto
  assume "0 \<le> z"
  then have "0 \<le> era" using *(1) by simp
  then show "0 \<le> y" using *(2,8) by simp
qed

theorem days_from_civil_from_days:
  assumes "civil_from_days z = (y, m, d)"
  shows "days_from_civil y m d = z"
proof -
  obtain era yoe doy mp where z: "z + 719468 = era * 146097 + (365 * yoe + yoe div 4 - yoe div 100 + doy)"
      and yoe: "0 \<le> yoe" "yoe < 400" and doy: "0 \<le> doy" "doy \<le> 365" and mp: "mp = (5 * doy + 2) div 153"
      and m: "m = mp + (if mp < 10 then 3 else - 9)" and d: "d = doy - (153 * mp + 2) div 5 + 1"
      and y: "y = (if m \<le> 2 then yoe + era * 400 + 1 else yoe + era * 400)"
    by (rule civil_from_days_E[OF assms]) (rule that; assumption)
  have "(if m \<le> 2 then y - 1 else y) = yoe + era * 400"
    using y by simp
  moreover have "m + (if m > 2 then - 3 else 9) = mp"
    using m mp doy by auto
  ultimately have "days_from_civil y m d = era * 146097 + (yoe * 365 + yoe div 4 - yoe div 100 + doy) - 719468"
    using d by (simp add: days_from_civil_def Let_def era_of[OF yoe])
  then show ?thesis using z by simp
qed

section \<open>Printing and reading\<close>

text \<open>C's \<open>%0wd\<close>.\<close>

definition pad_nat :: "nat \<Rightarrow> nat \<Rightarrow> string" where
  "pad_nat w n = replicate (w - length (show_nat n)) CHR ''0'' @ show_nat n"

definition pad :: "nat \<Rightarrow> int \<Rightarrow> string" where
  "pad w i = (if i < 0 then CHR ''-'' # pad_nat (w - 1) (nat (- i)) else pad_nat w (nat i))"

definition iso_from_ms :: "int \<Rightarrow> string" where
  "iso_from_ms ms =
     (let totalSecs = ms div 1000;
          msec = ms - totalSecs * 1000;
          days = totalSecs div 86400;
          rem = totalSecs mod 86400;
          hour = rem div 3600;
          minute = (rem mod 3600) div 60;
          sec = rem mod 60;
          (yfinal, m, d) = civil_from_days days
      in pad 4 yfinal @ ''-'' @ pad 2 m @ ''-'' @ pad 2 d @ ''T'' @ pad 2 hour @ '':'' @ pad 2 minute
         @ '':'' @ pad 2 sec @ ''.'' @ pad 3 msec @ ''Z'')"

text \<open>
  The Lua pattern \<open>^(%d+)-(%d+)-(%d+)T(%d+):(%d+):(%d+)%.(%d+)Z$\<close>: each capture is a longest
  non-empty run of digits, followed by a separator that is no digit, so no backtracking can occur.
\<close>

definition match_num :: "char \<Rightarrow> string \<Rightarrow> (string \<times> string) option" where
  "match_num sep s =
     (let ds = takeWhile is_digit s in
      case dropWhile is_digit s of
        [] \<Rightarrow> None
      | c # rest \<Rightarrow> if ds \<noteq> [] \<and> c = sep then Some (ds, rest) else None)"

fun match_nums :: "string \<Rightarrow> string \<Rightarrow> string list option" where
  "match_nums [] s = (if s = [] then Some [] else None)"
| "match_nums (c # cs) s =
     (case match_num c s of
        None \<Rightarrow> None
      | Some (ds, rest) \<Rightarrow> map_option (\<lambda>xs. ds # xs) (match_nums cs rest))"

definition tonum :: "string \<Rightarrow> int" where
  "tonum ds = int (nat_of_digits ds)"

definition ms_from_iso :: "string \<Rightarrow> int option" where
  "ms_from_iso s =
     (case match_nums ''--T::.Z'' s of
        Some [y, mo, d, h, mi, se, ms] \<Rightarrow>
          (let days = days_from_civil (tonum y) (tonum mo) (tonum d);
               secs = days * 86400 + tonum h * 3600 + tonum mi * 60 + tonum se;
               msv = tonum ms * 10 ^ (3 - length ms)
           in Some (secs * 1000 + msv))
      | _ \<Rightarrow> None)"

lemma nat_of_digits_zeros: "nat_of_digits (replicate k CHR ''0'' @ ds) = nat_of_digits ds"
proof (induction k)
  case (Suc k)
  then show ?case by (simp add: nat_of_digits_def digit_val_def)
qed simp

lemma pad_digits: "0 \<le> i \<Longrightarrow> list_all is_digit (pad w i) \<and> pad w i \<noteq> [] \<and> tonum (pad w i) = i"
  using list_all_show_nat[of "nat i"]
  by (auto simp: pad_def pad_nat_def tonum_def nat_of_digits_zeros list_all_iff is_digit_def)

lemma tonum_pad: "0 \<le> i \<Longrightarrow> tonum (pad w i) = i"
  using pad_digits by blast

lemma length_show_nat: "n < 10 ^ k \<Longrightarrow> 0 < k \<Longrightarrow> length (show_nat n) \<le> k"
proof (induction k arbitrary: n)
  case (Suc k)
  show ?case
  proof (cases "n < 10")
    case True
    then show ?thesis by (subst show_nat.simps) simp
  next
    case False
    then have "0 < k" using Suc.prems by (cases k) auto
    moreover have "n div 10 < 10 ^ k" using Suc.prems by (simp add: less_mult_imp_div_less)
    ultimately have "length (show_nat (n div 10)) \<le> k" using Suc.IH by blast
    then show ?thesis using False by (subst show_nat.simps) simp
  qed
qed simp

lemma length_pad3: "0 \<le> i \<Longrightarrow> i < 1000 \<Longrightarrow> length (pad 3 i) = 3"
  using length_show_nat[of "nat i" 3] by (simp add: pad_def pad_nat_def)

lemma match_num_append:
  "list_all is_digit ds \<Longrightarrow> ds \<noteq> [] \<Longrightarrow> \<not> is_digit c \<Longrightarrow> match_num c (ds @ c # rest) = Some (ds, rest)"
  by (simp add: match_num_def list_all_iff takeWhile_append2 dropWhile_append2)

lemmas match_pad = match_num_append[OF conjunct1[OF pad_digits] conjunct1[OF conjunct2[OF pad_digits]]]

text \<open>Reading back a printed instant gives the instant, for every instant since the epoch.\<close>

theorem ms_from_iso_from_ms:
  assumes "0 \<le> ms"
  shows "ms_from_iso (iso_from_ms ms) = Some ms"
proof -
  define secs where "secs = ms div 1000"
  define rem where "rem = secs mod 86400"
  obtain y m d where ymd: "civil_from_days (secs div 86400) = (y, m, d)"
    by (cases "civil_from_days (secs div 86400)") auto
  have "0 \<le> secs" using assms by (simp add: secs_def)
  then have y: "0 \<le> y" using civil_from_days_bounds(5)[OF ymd] by simp
  have md: "0 \<le> m" "0 \<le> d" using civil_from_days_bounds[OF ymd] by auto
  have rem: "0 \<le> rem" by (simp add: rem_def)
  have msec: "ms - secs * 1000 = ms mod 1000" by (simp add: secs_def minus_div_mult_eq_mod)
  have iso: "iso_from_ms ms = pad 4 y @ CHR ''-'' # pad 2 m @ CHR ''-'' # pad 2 d @ CHR ''T'' # pad 2 (rem div 3600)
      @ CHR '':'' # pad 2 ((rem mod 3600) div 60) @ CHR '':'' # pad 2 (rem mod 60) @ CHR ''.'' # pad 3 (ms mod 1000)
      @ CHR ''Z'' # []"
    using ymd msec by (simp add: iso_from_ms_def Let_def secs_def rem_def)
  have nd: "\<not> is_digit CHR ''-''" "\<not> is_digit CHR ''T''" "\<not> is_digit CHR '':''" "\<not> is_digit CHR ''.''" "\<not> is_digit CHR ''Z''"
    by (simp_all add: is_digit_def)
  define h mi se where "h = rem div 3600" and "mi = (rem mod 3600) div 60" and "se = rem mod 60"
  have pos: "0 \<le> h" "0 \<le> mi" "0 \<le> se" "0 \<le> ms mod 1000" using rem by (simp_all add: h_def mi_def se_def)
  have nums: "match_nums ''--T::.Z'' (iso_from_ms ms) =
      Some [pad 4 y, pad 2 m, pad 2 d, pad 2 h, pad 2 mi, pad 2 se, pad 3 (ms mod 1000)]"
    unfolding iso using y md pos nd by (simp add: match_pad flip: h_def mi_def se_def)
  have parts: "secs div 86400 * 86400 + h * 3600 + mi * 60 + se = secs"
  proof -
    have "rem mod 60 = (rem mod 3600) mod 60" by (simp add: mod_mod_cancel)
    then have "mi * 60 + se = rem mod 3600" by (simp add: mi_def se_def)
    moreover have "h * 3600 + rem mod 3600 = rem" by (simp add: h_def)
    moreover have "secs div 86400 * 86400 + rem = secs" by (simp add: rem_def)
    ultimately show ?thesis by linarith
  qed
  have len: "length (pad 3 (ms mod 1000)) = 3" by (rule length_pad3) simp_all
  have "ms_from_iso (iso_from_ms ms) =
      Some ((days_from_civil y m d * 86400 + h * 3600 + mi * 60 + se) * 1000 + ms mod 1000)"
    unfolding ms_from_iso_def nums option.case list.case Let_def len
    using y md pos by (simp only: tonum_pad) simp
  also have "\<dots> = Some (secs * 1000 + ms mod 1000)"
    by (simp only: days_from_civil_from_days[OF ymd] parts)
  finally show ?thesis by (simp add: secs_def)
qed

lemma iso_from_ms_inj: "0 \<le> a \<Longrightarrow> 0 \<le> b \<Longrightarrow> iso_from_ms a = iso_from_ms b \<Longrightarrow> a = b"
  using ms_from_iso_from_ms by (metis option.inject)

lemma iso_from_ms_not_Nil [simp]: "iso_from_ms ms \<noteq> []"
  by (simp add: iso_from_ms_def Let_def split: prod.splits)

end
