(* ===== verification/Json.thy ===== *)
theory Json
  imports Iso_Time "HOL-Library.Finite_Map"
begin

text \<open>
  JSON values, and the parts of the host runtimes the program calls: \<open>JSON.parse\<close> and
  \<open>JSON.stringify\<close>, the \<open>cjson\<close> library of Redis scripts, \<open>Date.parse\<close>, SHA-256,
  \<open>encodeURIComponent\<close> and the text of a number. They are fields of a record \<open>runtime\<close> that every
  definition using them takes as an argument. The locale \<open>js_runtime\<close> states what the program relies
  on: each decoder reads back what either encoder wrote, \<open>Date.parse\<close> reads back what \<open>toISOString\<close>
  printed, small integers print in decimal, and no object prints as the empty text. Theory Json_Text gives an instance.
\<close>

section \<open>Values\<close>

text \<open>
  A number is an integer or \<open>JOther\<close>, any number that is not one (a fraction, a NaN, an infinity):
  the program only asks \<open>Number.isInteger\<close>, or compares with integers.
\<close>

datatype js_number = JInt int | JOther

datatype json =
    JNull
  | JBool bool
  | JNum js_number
  | JStr string
  | JArr "json list"
  | JObj "(string, json) fmap"

fun jget :: "json \<Rightarrow> string \<Rightarrow> json option" where
  "jget (JObj m) k = fmlookup m k"
| "jget _ k = None"

fun is_JStr :: "json \<Rightarrow> bool" where
  "is_JStr (JStr _) = True"
| "is_JStr _ = False"

text \<open>\<open>typeof x === "object" && x !== null\<close>, and Lua's \<open>type(x) == 'table'\<close>.\<close>

fun is_object :: "json \<Rightarrow> bool" where
  "is_object (JArr _) = True"
| "is_object (JObj _) = True"
| "is_object _ = False"

text \<open>The member \<open>k\<close> when it is a string.\<close>

definition str_field :: "json \<Rightarrow> string \<Rightarrow> string option" where
  "str_field j k = (case jget j k of Some (JStr s) \<Rightarrow> Some s | _ \<Rightarrow> None)"

text \<open>\<open>Array.isArray(x) && x.every((e) => typeof e === "string")\<close>\<close>

fun all_strings :: "json list \<Rightarrow> string list option" where
  "all_strings [] = Some []"
| "all_strings (JStr s # xs) = map_option (\<lambda>ss. s # ss) (all_strings xs)"
| "all_strings (_ # xs) = None"

definition str_array :: "json \<Rightarrow> string list option" where
  "str_array j = (case j of JArr xs \<Rightarrow> all_strings xs | _ \<Rightarrow> None)"

definition obj :: "(string \<times> json) list \<Rightarrow> json" where
  "obj xs = JObj (fmap_of_list xs)"

text \<open>A member that \<open>JSON.stringify\<close> omits when it is \<open>undefined\<close>.\<close>

definition opt_member :: "string \<Rightarrow> json option \<Rightarrow> (string \<times> json) list" where
  "opt_member k v = (case v of None \<Rightarrow> [] | Some j \<Rightarrow> [(k, j)])"

lemma all_strings_map [simp]: "all_strings (map JStr ss) = Some ss"
  by (induction ss) auto

lemma all_strings_SomeD: "all_strings xs = Some ss \<Longrightarrow> xs = map JStr ss"
  by (induction xs arbitrary: ss rule: all_strings.induct) auto

lemma str_array_map [simp]: "str_array (JArr (map JStr ss)) = Some ss"
  by (simp add: str_array_def)

lemma jget_obj [simp]: "jget (obj xs) k = map_of xs k"
  by (simp add: obj_def fmlookup_of_list)

lemma str_field_obj [simp]: "str_field (obj xs) k = (case map_of xs k of Some (JStr s) \<Rightarrow> Some s | _ \<Rightarrow> None)"
  by (simp add: str_field_def)

lemma is_object_obj [simp]: "is_object (obj xs)"
  by (simp add: obj_def)

lemma map_of_opt_member [simp]: "map_of (opt_member k v) x = (if x = k then v else None)"
  by (simp add: opt_member_def split: option.splits)

section \<open>Values the codecs carry\<close>

text \<open>
  \<open>wire n j\<close>: \<open>j\<close> nests at most \<open>n\<close> levels and its numbers are integers that both encoders print in
  full (\<open>cjson\<close> prints 14 significant digits). \<open>lua_wire n j\<close> also excludes empty arrays and objects and
  null members, which a Lua table cannot tell apart.
\<close>

fun small_number :: "js_number \<Rightarrow> bool" where
  "small_number (JInt i) \<longleftrightarrow> \<bar>i\<bar> < 10 ^ 14"
| "small_number JOther \<longleftrightarrow> False"

fun wire :: "nat \<Rightarrow> json \<Rightarrow> bool" where
  "wire n JNull = True"
| "wire n (JBool _) = True"
| "wire n (JNum x) = small_number x"
| "wire n (JStr _) = True"
| "wire (Suc n) (JArr xs) = list_all (wire n) xs"
| "wire (Suc n) (JObj m) = fmpred (\<lambda>_. wire n) m"
| "wire 0 _ = False"

fun lua_wire :: "nat \<Rightarrow> json \<Rightarrow> bool" where
  "lua_wire n JNull = False"
| "lua_wire n (JBool _) = True"
| "lua_wire n (JNum x) = small_number x"
| "lua_wire n (JStr _) = True"
| "lua_wire (Suc n) (JArr xs) = (xs \<noteq> [] \<and> list_all (lua_wire n) xs)"
| "lua_wire (Suc n) (JObj m) = (m \<noteq> fmempty \<and> fmpred (\<lambda>_. lua_wire n) m)"
| "lua_wire 0 _ = False"

lemma fmpred_of_list_all: "list_all (\<lambda>(k, v). P k v) xs \<Longrightarrow> fmpred P (fmap_of_list xs)"
  by (rule fmpred_of_list) (auto simp: list_all_iff)

lemma wire_objI: "list_all (\<lambda>(k, v). wire n v) xs \<Longrightarrow> wire (Suc n) (obj xs)"
  by (simp add: obj_def fmpred_of_list_all)

lemma fmap_of_list_neq_empty: "xs \<noteq> [] \<Longrightarrow> fmap_of_list xs \<noteq> fmempty"
  by (cases xs) (auto dest: arg_cong[where f = fmlookup] fun_cong simp: fmlookup_of_list fmempty_lookup split: if_splits)

lemma lua_wire_objI: "xs \<noteq> [] \<Longrightarrow> list_all (\<lambda>(k, v). lua_wire n v) xs \<Longrightarrow> lua_wire (Suc n) (obj xs)"
  by (simp add: obj_def fmpred_of_list_all fmap_of_list_neq_empty)

lemma wire_strings [simp]: "wire (Suc n) (JArr (map JStr ss))"
  by (simp add: list_all_iff)

lemma lua_wire_strings [simp]: "lua_wire (Suc n) (JArr (map JStr ss)) \<longleftrightarrow> ss \<noteq> []"
  by (simp add: list_all_iff)

lemma list_all_wire_strings [simp]: "list_all (wire n) (map JStr ss)" "list_all (lua_wire n) (map JStr ss)"
  by (simp_all add: list_all_iff)

lemma list_all_opt_member [simp]:
  "list_all P (opt_member k v) \<longleftrightarrow> (case v of None \<Rightarrow> True | Some j \<Rightarrow> P (k, j))"
  by (simp add: opt_member_def split: option.splits)

lemma wire_fmupd: "wire (Suc n) (JObj m) \<Longrightarrow> wire n v \<Longrightarrow> wire (Suc n) (JObj (fmupd k v m))"
  by auto

lemma lua_wire_fmupd: "lua_wire (Suc n) (JObj m) \<Longrightarrow> lua_wire n v \<Longrightarrow> lua_wire (Suc n) (JObj (fmupd k v m))"
  by auto

text \<open>The nesting bound of the codecs. Every record the program builds nests at most four levels.\<close>

definition max_depth :: nat where
  "max_depth = 32"

abbreviation wire_json :: "json \<Rightarrow> bool" where
  "wire_json \<equiv> wire max_depth"

abbreviation lua_wire_json :: "json \<Rightarrow> bool" where
  "lua_wire_json \<equiv> lua_wire max_depth"

lemma max_depth_Suc: "max_depth = Suc (Suc (Suc (Suc 28)))"
  by (simp add: max_depth_def)

lemma lua_wire_depthI: "(\<And>n. lua_wire (Suc (Suc (Suc (Suc n)))) j) \<Longrightarrow> lua_wire_json j"
  by (metis max_depth_Suc)

lemma wire_depthI: "(\<And>n. wire (Suc (Suc (Suc (Suc n)))) j) \<Longrightarrow> wire_json j"
  by (metis max_depth_Suc)

section \<open>The runtimes\<close>

record runtime =
  JSON_parse :: "string \<Rightarrow> json option"
  JSON_stringify :: "json \<Rightarrow> string"
  cjson_decode :: "string \<Rightarrow> json option"
  cjson_encode :: "json \<Rightarrow> string"
  date_parse :: "string \<Rightarrow> int option"       \<comment> \<open>\<open>Date.parse\<close>, \<open>None\<close> for NaN\<close>
  sha256_hex :: "string \<Rightarrow> string"
  encodeURIComponent :: "string \<Rightarrow> string"
  number_text :: "js_number \<Rightarrow> string"        \<comment> \<open>\<open>String(n)\<close>\<close>

text \<open>
  The instants whose ISO text has a four-digit year, from the epoch to the end of the year 9999. Outside
  them \<open>toISOString\<close> prints signed six-digit years, which the Lua conversion does not read.
\<close>

definition valid_instant :: "int \<Rightarrow> bool" where
  "valid_instant ms \<longleftrightarrow> 0 \<le> ms \<and> ms < 253402300800000"

text \<open>
  \<open>new Date(t).toISOString()\<close>, which throws a RangeError outside the instants a \<open>Date\<close> can hold.
\<close>

definition toISOString :: "int \<Rightarrow> ('s, string) comp" where
  "toISOString t = (if \<bar>t\<bar> \<le> 8640000000000000 then ret (iso_from_ms t) else throw (JsError ''Invalid time value''))"

text \<open>\<open>new Date(Date.parse(now) + seconds * 1000).toISOString()\<close>; a NaN is no valid time either.\<close>

definition iso_after :: "runtime \<Rightarrow> string \<Rightarrow> int \<Rightarrow> ('s, string) comp" where
  "iso_after E now seconds =
     (case date_parse E now of
        None \<Rightarrow> throw (JsError ''Invalid time value'')
      | Some t \<Rightarrow> toISOString (t + seconds * 1000))"

locale js_runtime =
  fixes E :: runtime
  assumes parse_stringify: "wire_json j \<Longrightarrow> JSON_parse E (JSON_stringify E j) = Some j"
    and parse_encode: "lua_wire_json j \<Longrightarrow> JSON_parse E (cjson_encode E j) = Some j"
    and decode_stringify: "wire_json j \<Longrightarrow> cjson_decode E (JSON_stringify E j) = Some j"
    and decode_encode: "lua_wire_json j \<Longrightarrow> cjson_decode E (cjson_encode E j) = Some j"
    and date_parse_iso: "valid_instant ms \<Longrightarrow> date_parse E (iso_from_ms ms) = Some ms"
    and number_text_int: "\<bar>i\<bar> < 10 ^ 15 \<Longrightarrow> number_text E (JInt i) = show_int i"
    and stringify_obj: "JSON_stringify E (JObj m) \<noteq> []"
begin

lemmas codec = parse_stringify parse_encode decode_stringify decode_encode

lemma stringify_inj: "wire_json i \<Longrightarrow> wire_json j \<Longrightarrow> JSON_stringify E i = JSON_stringify E j \<Longrightarrow> i = j"
  using parse_stringify by (metis option.inject)

end

end
