(* ===== verification/Json_Text.thy ===== *)
theory Json_Text
  imports Json
begin

text \<open>
  An instance of the runtime interface: a printer and a recursive-descent parser of JSON text without
  white space, and the ISO 8601 conversion of theory Iso_Time as \<open>Date.parse\<close>. The interpretation at the
  end discharges every law of \<open>js_runtime\<close> for it, so results proved from those laws apply to something.
  Objects are printed with their members sorted. The recursion of both functions is bounded by fuel: the
  nesting bound for the printer, the length of the text for the parser.
\<close>

section \<open>Printer\<close>

definition esc :: "char \<Rightarrow> string" where
  "esc c = (if c = CHR 0x22 \<or> c = CHR 0x5C then [CHR 0x5C, c] else [c])"

definition print_str :: "string \<Rightarrow> string" where
  "print_str s = CHR 0x22 # concat (map esc s) @ [CHR 0x22]"

fun seal :: "char \<Rightarrow> string list \<Rightarrow> string" where
  "seal c [] = [c]"
| "seal c [x] = x @ [c]"
| "seal c (x # y # zs) = x @ CHR '','' # seal c (y # zs)"

fun print_json :: "nat \<Rightarrow> json \<Rightarrow> string" where
  "print_json n JNull = ''null''"
| "print_json n (JBool b) = (if b then ''true'' else ''false'')"
| "print_json n (JNum (JInt i)) = show_int i"
| "print_json n (JNum JOther) = ''null''"
| "print_json n (JStr s) = print_str s"
| "print_json (Suc n) (JArr xs) = CHR ''['' # seal (CHR '']'') (map (print_json n) xs)"
| "print_json (Suc n) (JObj m) = CHR ''{'' # seal (CHR ''}'')
     (map (\<lambda>k. print_str k @ CHR '':'' # print_json n (the (fmlookup m k))) (sorted_list_of_fset (fmdom m)))"
| "print_json 0 _ = ''null''"

section \<open>Parser\<close>

fun parse_body :: "string \<Rightarrow> (string \<times> string) option" where
  "parse_body [] = None"
| "parse_body (c # cs) =
     (if c = CHR 0x22 then Some ([], cs)
      else if c = CHR 0x5C then (case cs of [] \<Rightarrow> None | d # ds \<Rightarrow> map_option (\<lambda>(s, r). (d # s, r)) (parse_body ds))
      else map_option (\<lambda>(s, r). (c # s, r)) (parse_body cs))"

definition parse_str :: "string \<Rightarrow> (string \<times> string) option" where
  "parse_str s = (case s of [] \<Rightarrow> None | c # cs \<Rightarrow> if c = CHR 0x22 then parse_body cs else None)"

definition numchar :: "char \<Rightarrow> bool" where
  "numchar c \<longleftrightarrow> is_digit c \<or> c = CHR ''-''"

definition parse_number :: "string \<Rightarrow> (json \<times> string) option" where
  "parse_number s = map_option (\<lambda>i. (JNum (JInt i), dropWhile numchar s)) (parse_int (takeWhile numchar s))"

fun parse_value :: "nat \<Rightarrow> string \<Rightarrow> (json \<times> string) option"
  and parse_elems :: "nat \<Rightarrow> string \<Rightarrow> (json list \<times> string) option"
  and parse_members :: "nat \<Rightarrow> string \<Rightarrow> ((string \<times> json) list \<times> string) option" where
  "parse_value 0 s = None"
| "parse_value (Suc f) s =
     (case s of
        [] \<Rightarrow> None
      | c # cs \<Rightarrow>
          if c = CHR 0x22 then map_option (\<lambda>(t, r). (JStr t, r)) (parse_body cs)
          else if c = CHR ''['' then
            (if starts_with '']'' cs then Some (JArr [], tl cs) else map_option (\<lambda>(xs, r). (JArr xs, r)) (parse_elems f cs))
          else if c = CHR ''{'' then
            (if starts_with ''}'' cs then Some (JObj fmempty, tl cs)
             else map_option (\<lambda>(xs, r). (JObj (fmap_of_list xs), r)) (parse_members f cs))
          else if starts_with ''null'' s then Some (JNull, drop 4 s)
          else if starts_with ''true'' s then Some (JBool True, drop 4 s)
          else if starts_with ''false'' s then Some (JBool False, drop 5 s)
          else parse_number s)"
| "parse_elems 0 s = None"
| "parse_elems (Suc f) s =
     (case parse_value f s of
        Some (v, c # r) \<Rightarrow>
          if c = CHR '','' then map_option (\<lambda>(xs, r'). (v # xs, r')) (parse_elems f r)
          else if c = CHR '']'' then Some ([v], r) else None
      | _ \<Rightarrow> None)"
| "parse_members 0 s = None"
| "parse_members (Suc f) s =
     (case parse_str s of
        Some (k, c0 # s') \<Rightarrow>
          if c0 \<noteq> CHR '':'' then None
          else (case parse_value f s' of
             Some (v, c # r) \<Rightarrow>
               if c = CHR '','' then map_option (\<lambda>(xs, r'). ((k, v) # xs, r')) (parse_members f r)
               else if c = CHR ''}'' then Some ([(k, v)], r) else None
           | _ \<Rightarrow> None)
      | _ \<Rightarrow> None)"

definition json_text :: "json \<Rightarrow> string" where
  "json_text j = print_json max_depth j"

definition json_parse :: "string \<Rightarrow> json option" where
  "json_parse s = (case parse_value (length s) s of Some (j, []) \<Rightarrow> Some j | _ \<Rightarrow> None)"

section \<open>The parser reads back what the printer wrote\<close>

lemma parse_body_print: "parse_body (concat (map esc s) @ CHR 0x22 # rest) = Some (s, rest)"
  by (induction s) (auto simp: esc_def)

lemma parse_str_print: "parse_str (print_str s @ rest) = Some (s, rest)"
  by (simp add: parse_str_def print_str_def parse_body_print)

text \<open>What may follow a value: nothing, or a character that does not continue a number.\<close>

definition ends_value :: "string \<Rightarrow> bool" where
  "ends_value r \<longleftrightarrow> (case r of [] \<Rightarrow> True | c # _ \<Rightarrow> \<not> numchar c)"

lemma list_all_numchar_show_int: "list_all numchar (show_int i)"
proof -
  have "list_all numchar (show_nat n)" for n
    using list_all_show_nat[of n] by (auto simp: list_all_iff numchar_def)
  then show ?thesis by (auto simp: show_int_def numchar_def)
qed

lemma span_number:
  assumes "list_all numchar s" and "ends_value r"
  shows "takeWhile numchar (s @ r) = s" and "dropWhile numchar (s @ r) = r"
proof -
  have "takeWhile numchar r = []" "dropWhile numchar r = r"
    using assms(2) by (auto simp: ends_value_def split: list.splits)
  with assms(1) show "takeWhile numchar (s @ r) = s" and "dropWhile numchar (s @ r) = r"
    by (auto simp: list_all_iff takeWhile_append2 dropWhile_append2)
qed

lemma parse_number_print: "ends_value r \<Longrightarrow> parse_number (show_int i @ r) = Some (JNum (JInt i), r)"
  by (simp add: parse_number_def span_number[OF list_all_numchar_show_int])

lemma show_int_head: obtains c cs where "show_int i = c # cs" and "numchar c"
proof (cases "show_int i")
  case Nil
  then show thesis by (simp add: show_int_def split: if_splits)
next
  case (Cons c cs)
  with list_all_numchar_show_int[of i] that show thesis by simp
qed

lemma numchar_head: "numchar c \<Longrightarrow> c \<noteq> CHR 0x22 \<and> c \<noteq> CHR ''['' \<and> c \<noteq> CHR ''{'' \<and> c \<noteq> CHR ''n'' \<and> c \<noteq> CHR ''t'' \<and> c \<noteq> CHR ''f''"
  by (auto simp: numchar_def is_digit_def)

lemma parse_value_number: "ends_value r \<Longrightarrow> parse_value (Suc f) (show_int i @ r) = Some (JNum (JInt i), r)"
proof -
  assume r: "ends_value r"
  obtain c cs where c: "show_int i = c # cs" "numchar c" by (rule show_int_head)
  then have "parse_value (Suc f) (show_int i @ r) = parse_number (show_int i @ r)"
    using numchar_head[OF c(2)] by (simp add: starts_with_def)
  with parse_number_print[OF r] show ?thesis by simp
qed

lemma seal_Cons: "seal c (x # xs) = x @ (if xs = [] then [c] else CHR '','' # seal c xs)"
  by (cases xs) auto

lemma ends_value_Cons [simp]: "ends_value (CHR '','' # r)" "ends_value (CHR '']'' # r)" "ends_value (CHR ''}'' # r)"
  by (simp_all add: ends_value_def numchar_def is_digit_def)

text \<open>The parser \<open>p\<close> reads the value \<open>j\<close> printed as \<open>t\<close>, given fuel for its length.\<close>

definition reads :: "json \<Rightarrow> string \<Rightarrow> bool" where
  "reads j t \<longleftrightarrow> t \<noteq> [] \<and> (\<forall>f r. length t \<le> f \<longrightarrow> ends_value r \<longrightarrow> parse_value f (t @ r) = Some (j, r))"

lemma readsD: "reads j t \<Longrightarrow> length t \<le> f \<Longrightarrow> ends_value r \<Longrightarrow> parse_value f (t @ r) = Some (j, r)"
  by (simp add: reads_def)

lemma readsI:
  assumes "t \<noteq> []" and "\<And>f r. length t \<le> Suc f \<Longrightarrow> ends_value r \<Longrightarrow> parse_value (Suc f) (t @ r) = Some (j, r)"
  shows "reads j t"
  unfolding reads_def
proof (intro conjI allI impI)
  fix f r assume "length t \<le> f" and r: "ends_value r"
  with assms(1) obtain g where "f = Suc g" and "length t \<le> Suc g" by (cases f) auto
  with assms(2)[OF _ r] show "parse_value f (t @ r) = Some (j, r)" by simp
qed (rule assms(1))

lemma parse_elems_seal:
  "xs \<noteq> [] \<Longrightarrow> list_all2 reads xs ts \<Longrightarrow> length (seal (CHR '']'') ts) \<le> f \<Longrightarrow>
     parse_elems f (seal (CHR '']'') ts @ r) = Some (xs, r)"
proof (induction xs arbitrary: ts f)
  case (Cons x xs)
  from Cons.prems(2) obtain t us where ts: "ts = t # us" "reads x t" "list_all2 reads xs us"
    by (auto simp: list_all2_Cons1)
  from Cons.prems(3) ts(1) obtain g where f: "f = Suc g" by (cases f) (auto simp: seal_Cons split: if_splits)
  show ?case
  proof (cases "xs = []")
    case True
    with ts Cons.prems(3) f show ?thesis by (simp add: readsD)
  next
    case False
    with ts(3) have us: "us \<noteq> []" by auto
    have "t \<noteq> []" using ts(2) by (simp add: reads_def)
    with Cons.prems(3) ts(1) f us have len: "length t \<le> g" "length (seal (CHR '']'') us) \<le> g"
      by (auto simp: seal_Cons neq_Nil_conv)
    from Cons.IH[OF False ts(3) len(2)] readsD[OF ts(2) len(1)] show ?thesis
      by (simp add: f ts(1) seal_Cons us)
  qed
qed simp

definition member_text :: "string \<times> string \<Rightarrow> string" where
  "member_text kt = print_str (fst kt) @ CHR '':'' # snd kt"

lemma print_str_not_Nil [simp]: "print_str s \<noteq> []"
  by (simp add: print_str_def)

lemma parse_members_seal:
  "xs \<noteq> [] \<Longrightarrow> list_all2 (\<lambda>(k, v) (k', t). k' = k \<and> reads v t) xs ts \<Longrightarrow> length (seal (CHR ''}'') (map member_text ts)) \<le> f \<Longrightarrow>
     parse_members f (seal (CHR ''}'') (map member_text ts) @ r) = Some (xs, r)"
proof (induction xs arbitrary: ts f)
  case (Cons x xs)
  obtain k v where x: "x = (k, v)" by fastforce
  with Cons.prems(2) obtain t us where ts: "ts = (k, t) # us" "reads v t" "list_all2 (\<lambda>(k, v) (k', t). k' = k \<and> reads v t) xs us"
    by (auto simp: list_all2_Cons1)
  from Cons.prems(3) ts(1) obtain g where f: "f = Suc g" by (cases f) (auto simp: seal_Cons split: if_splits)
  show ?case
  proof (cases "xs = []")
    case True
    with ts Cons.prems(3) f x show ?thesis by (simp add: readsD member_text_def parse_str_print)
  next
    case False
    with ts(3) have us: "us \<noteq> []" by auto
    have "t \<noteq> []" using ts(2) by (simp add: reads_def)
    with Cons.prems(3) ts(1) f us have len: "length t \<le> g" "length (seal (CHR ''}'') (map member_text us)) \<le> g"
      by (simp_all add: seal_Cons member_text_def[of "(k, t)"])
    from Cons.IH[OF False ts(3) len(2)] readsD[OF ts(2) len(1)] show ?thesis
      by (simp add: f ts(1) seal_Cons us x member_text_def parse_str_print)
  qed
qed simp

lemma fmap_of_sorted: "fmap_of_list (map (\<lambda>k. (k, the (fmlookup m k))) (sorted_list_of_fset (fmdom m))) = m"
proof (rule fmap_ext)
  fix k
  have "k \<in> set (sorted_list_of_fset (fmdom m)) \<longleftrightarrow> fmlookup m k \<noteq> None"
    by (simp add: sorted_list_of_fset.rep_eq fmlookup_dom_iff)
  moreover have "map_of (map (\<lambda>k. (k, f k)) ks) k = (if k \<in> set ks then Some (f k) else None)" for f :: "'a \<Rightarrow> 'b" and ks
    by (induction ks) auto
  ultimately show "fmlookup (fmap_of_list (map (\<lambda>k. (k, the (fmlookup m k))) (sorted_list_of_fset (fmdom m)))) k = fmlookup m k"
    by (auto simp: fmlookup_of_list)
qed

lemma seal_start:
  assumes "reads j t"
  shows "\<not> starts_with '']'' (seal (CHR '']'') (t # ts) @ r)"
proof
  assume "starts_with '']'' (seal (CHR '']'') (t # ts) @ r)"
  moreover obtain c cs where t: "t = c # cs" using assms by (cases t) (auto simp: reads_def)
  ultimately have "c = CHR '']''" by (simp add: seal_Cons starts_with_def)
  with readsD[OF assms, of "length t" "[]"] t show False
    by (simp add: ends_value_def starts_with_def parse_number_def numchar_def is_digit_def)
qed

lemma reads_array:
  assumes "list_all2 reads xs ts"
  shows "reads (JArr xs) (CHR ''['' # seal (CHR '']'') ts)"
proof (cases "xs = []")
  case True
  with assms show ?thesis by (intro readsI) (auto simp: starts_with_def)
next
  case False
  with assms obtain x t ts' where ts: "ts = t # ts'" "reads x t" by (cases xs) (auto simp: list_all2_Cons1)
  show ?thesis
    unfolding reads_def
  proof (intro conjI allI impI)
    fix f r assume "length (CHR ''['' # seal (CHR '']'') ts) \<le> f"
    then obtain g where g: "f = Suc g" "length (seal (CHR '']'') ts) \<le> g" by (cases f) auto
    with parse_elems_seal[OF False assms g(2)] seal_start[OF ts(2)] ts(1)
    show "parse_value f ((CHR ''['' # seal (CHR '']'') ts) @ r) = Some (JArr xs, r)" by simp
  qed simp
qed

lemma reads_object:
  assumes "list_all2 (\<lambda>(k, v) (k', t). k' = k \<and> reads v t) xs ts"
  shows "reads (JObj (fmap_of_list xs)) (CHR ''{'' # seal (CHR ''}'') (map member_text ts))"
proof (cases "xs = []")
  case True
  with assms show ?thesis by (intro readsI) (auto simp: starts_with_def)
next
  case False
  with assms obtain t ts' where ts: "ts = t # ts'" by (cases xs) (auto simp: list_all2_Cons1)
  then have start: "\<not> starts_with ''}'' (seal (CHR ''}'') (map member_text ts) @ r)" for r
    by (simp add: seal_Cons starts_with_def member_text_def print_str_def)
  show ?thesis
    unfolding reads_def
  proof (intro conjI allI impI)
    fix f r assume "length (CHR ''{'' # seal (CHR ''}'') (map member_text ts)) \<le> f"
    then obtain g where g: "f = Suc g" "length (seal (CHR ''}'') (map member_text ts)) \<le> g" by (cases f) auto
    with parse_members_seal[OF False assms g(2)] start
    show "parse_value f ((CHR ''{'' # seal (CHR ''}'') (map member_text ts)) @ r) = Some (JObj (fmap_of_list xs), r)" by simp
  qed simp
qed

lemma reads_print: "wire n j \<Longrightarrow> reads j (print_json n j)"
proof (induction n j rule: print_json.induct)
  case (3 n i)
  have "show_int i \<noteq> []" using show_int_head by (metis list.distinct(1))
  then show ?case by (intro readsI) (simp_all add: parse_value_number del: parse_value.simps)
next
  case (5 n s)
  then show ?case by (intro readsI) (simp_all add: print_str_def parse_body_print)
next
  case (6 n xs)
  then have "list_all2 reads xs (map (print_json n) xs)"
    by (auto simp: list_all2_conv_all_nth list_all_iff)
  then show ?case using reads_array by simp
next
  case (7 n m)
  let ?ks = "sorted_list_of_fset (fmdom m)"
  have ks: "k \<in> set ?ks \<Longrightarrow> \<exists>v. fmlookup m k = Some v \<and> wire n v" for k
    using 7(2) by (auto simp: sorted_list_of_fset.rep_eq fmlookup_dom'_iff fmpred_iff)
  have "list_all2 (\<lambda>k k'. k = k' \<and> k \<in> set ?ks) ?ks ?ks"
    unfolding list_all2_conv_all_nth by (intro conjI allI impI nth_mem refl)
  then have "list_all2 (\<lambda>(k, v) (k', t). k' = k \<and> reads v t)
      (map (\<lambda>k. (k, the (fmlookup m k))) ?ks) (map (\<lambda>k. (k, print_json n (the (fmlookup m k)))) ?ks)"
    unfolding list_all2_map1 list_all2_map2 by (rule list_all2_mono) (use 7(1) ks in fastforce)
  from reads_object[OF this] show ?case
    by (simp add: fmap_of_sorted comp_def member_text_def)
qed (auto intro!: readsI simp: starts_with_def eval_nat_numeral)

lemma json_parse_text: "wire_json j \<Longrightarrow> json_parse (json_text j) = Some j"
  using readsD[OF reads_print, of max_depth j _ "[]"]
  by (simp add: json_parse_def json_text_def ends_value_def)

section \<open>The instance\<close>

definition std_env :: runtime where
  "std_env = \<lparr>JSON_parse = json_parse, JSON_stringify = json_text, cjson_decode = json_parse, cjson_encode = json_text,
     date_parse = ms_from_iso, sha256_hex = (\<lambda>s. s), encodeURIComponent = (\<lambda>s. s),
     number_text = (\<lambda>n. case n of JInt i \<Rightarrow> show_int i | JOther \<Rightarrow> ''NaN'')\<rparr>"

lemma json_text_obj: "json_text (JObj m) \<noteq> []"
  unfolding json_text_def max_depth_Suc print_json.simps by simp

lemma lua_wire_wire: "lua_wire n j \<Longrightarrow> wire n j"
  by (induction n j rule: lua_wire.induct) (auto simp: list_all_iff fmpred_iff)

interpretation std: js_runtime std_env
  by unfold_locales
    (simp_all add: std_env_def json_parse_text lua_wire_wire ms_from_iso_from_ms valid_instant_def json_text_obj)

end
