(* ===== verification/Redis.thy ===== *)
theory Redis
  imports Json_Text
begin

text \<open>
  The Redis database the program keeps its state in, and the commands its scripts and stores issue.

  A database maps keys to typed values, with an optional expiry instant per key and the server's
  clock; an expired key is absent for every command (\<open>live\<close>). A command applied to a key of another
  type throws WRONGTYPE and changes nothing. Lists, hashes, sets and sorted sets are never stored
  empty. Hashes and sets are lists without a promised order; sorted sets are read in the order of
  their scores and, among equal scores, of their members.

  A Lua script is a computation over the database. A TypeScript method is a computation over a
  \<open>world\<close>: each of its commands or scripts is one atomic step (\<open>atomic\<close>), before which other clients,
  timers and the passing of time may change the database. \<open>interfere w n\<close> is what they do before the
  \<open>n\<close>-th step; a theorem about all worlds is a theorem about all interleavings. In a \<open>quiet\<close> world
  nothing interferes. The ghost field \<open>history\<close> logs the database each step found and left, newest
  first, so that a theorem can speak of the instant a step took effect.
\<close>

section \<open>The database\<close>

datatype rval =
    RString string
  | RList "string list"
  | RHash "(string \<times> string) list"
  | RSet "string list"
  | RZset "(string \<times> int) list"
  | RStream "(string \<times> string) list list"

datatype rtype = TString | TList | THash | TSet | TZset | TStream

fun rtype_of :: "rval \<Rightarrow> rtype" where
  "rtype_of (RString _) = TString"
| "rtype_of (RList _) = TList"
| "rtype_of (RHash _) = THash"
| "rtype_of (RSet _) = TSet"
| "rtype_of (RZset _) = TZset"
| "rtype_of (RStream _) = TStream"

record db =
  entries :: "string \<Rightarrow> rval option"
  expiry :: "string \<Rightarrow> int option"      \<comment> \<open>epoch milliseconds\<close>
  clock :: int

definition empty_db :: db where
  "empty_db = \<lparr>entries = (\<lambda>_. None), expiry = (\<lambda>_. None), clock = 0\<rparr>"

definition live :: "db \<Rightarrow> string \<Rightarrow> rval option" where
  "live d k = (case expiry d k of Some t \<Rightarrow> if t \<le> clock d then None else entries d k | None \<Rightarrow> entries d k)"

definition holds :: "db \<Rightarrow> string \<Rightarrow> rtype \<Rightarrow> bool" where
  "holds d k t \<longleftrightarrow> (case live d k of None \<Rightarrow> True | Some v \<Rightarrow> rtype_of v = t)"

fun as_str :: "rval option \<Rightarrow> string option" where
  "as_str (Some (RString s)) = Some s"
| "as_str _ = None"

fun as_list :: "rval option \<Rightarrow> string list" where
  "as_list (Some (RList xs)) = xs"
| "as_list _ = []"

fun as_hash :: "rval option \<Rightarrow> (string \<times> string) list" where
  "as_hash (Some (RHash h)) = h"
| "as_hash _ = []"

fun as_set :: "rval option \<Rightarrow> string list" where
  "as_set (Some (RSet xs)) = xs"
| "as_set _ = []"

fun as_zset :: "rval option \<Rightarrow> (string \<times> int) list" where
  "as_zset (Some (RZset z)) = z"
| "as_zset _ = []"

fun as_stream :: "rval option \<Rightarrow> (string \<times> string) list list" where
  "as_stream (Some (RStream xs)) = xs"
| "as_stream _ = []"

abbreviation "str_at d k \<equiv> as_str (live d k)"
abbreviation "list_at d k \<equiv> as_list (live d k)"
abbreviation "hash_at d k \<equiv> as_hash (live d k)"
abbreviation "set_at d k \<equiv> as_set (live d k)"
abbreviation "zset_at d k \<equiv> as_zset (live d k)"
abbreviation "stream_at d k \<equiv> as_stream (live d k)"

text \<open>
  Every write goes through \<open>upd\<close>. A write keeps the key's expiry, clears it, or sets a new one the
  given number of seconds ahead.
\<close>

datatype ttl_mode = KeepTtl | NoTtl | Ex int

definition upd :: "string \<Rightarrow> rval option \<Rightarrow> ttl_mode \<Rightarrow> db \<Rightarrow> db" where
  "upd k v m d = d\<lparr>entries := (entries d)(k := v),
     expiry := (case m of
         KeepTtl \<Rightarrow> if live d k = None \<or> v = None then (expiry d)(k := None) else expiry d
       | NoTtl \<Rightarrow> (expiry d)(k := None)
       | Ex s \<Rightarrow> (expiry d)(k := Some (clock d + s * 1000)))\<rparr>"

fun mode_ok :: "ttl_mode \<Rightarrow> bool" where
  "mode_ok (Ex s) \<longleftrightarrow> 0 < s"
| "mode_ok _ \<longleftrightarrow> True"

lemma live_upd [view_simps]: "mode_ok m \<Longrightarrow> live (upd k v m d) k' = (if k' = k then v else live d k')"
  by (cases m) (auto simp: upd_def live_def split: option.splits)

lemma clock_upd [view_simps]: "clock (upd k v m d) = clock d"
  by (simp add: upd_def)

lemma expiry_upd_other [view_simps]: "k' \<noteq> k \<Longrightarrow> expiry (upd k v m d) k' = expiry d k'"
  by (cases m) (simp_all add: upd_def)

lemma holds_upd [view_simps]:
  "mode_ok m \<Longrightarrow> holds (upd k v m d) k' t \<longleftrightarrow>
    (if k' = k then (case v of None \<Rightarrow> True | Some x \<Rightarrow> rtype_of x = t) else holds d k' t)"
  by (simp add: holds_def live_upd)

definition put_list :: "string \<Rightarrow> string list \<Rightarrow> db \<Rightarrow> db" where
  "put_list k xs = upd k (if xs = [] then None else Some (RList xs)) KeepTtl"

definition put_hash :: "string \<Rightarrow> (string \<times> string) list \<Rightarrow> db \<Rightarrow> db" where
  "put_hash k h = upd k (if h = [] then None else Some (RHash h)) KeepTtl"

definition put_set :: "string \<Rightarrow> string list \<Rightarrow> db \<Rightarrow> db" where
  "put_set k xs = upd k (if xs = [] then None else Some (RSet xs)) KeepTtl"

definition put_zset :: "string \<Rightarrow> (string \<times> int) list \<Rightarrow> db \<Rightarrow> db" where
  "put_zset k z = upd k (if z = [] then None else Some (RZset z)) KeepTtl"

lemma live_put [view_simps]:
  "live (put_list k xs d) k' = (if k' = k then (if xs = [] then None else Some (RList xs)) else live d k')"
  "live (put_hash k h d) k' = (if k' = k then (if h = [] then None else Some (RHash h)) else live d k')"
  "live (put_set k ys d) k' = (if k' = k then (if ys = [] then None else Some (RSet ys)) else live d k')"
  "live (put_zset k z d) k' = (if k' = k then (if z = [] then None else Some (RZset z)) else live d k')"
  by (simp_all add: put_list_def put_hash_def put_set_def put_zset_def live_upd)

lemma clock_put [view_simps]:
  "clock (put_list k xs d) = clock d" "clock (put_hash k h d) = clock d"
  "clock (put_set k ys d) = clock d" "clock (put_zset k z d) = clock d"
  by (simp_all add: put_list_def put_hash_def put_set_def put_zset_def clock_upd)

lemma as_if [view_simps]:
  "as_str (if b then x else y) = (if b then as_str x else as_str y)"
  "as_list (if b then x else y) = (if b then as_list x else as_list y)"
  "as_hash (if b then x else y) = (if b then as_hash x else as_hash y)"
  "as_set (if b then x else y) = (if b then as_set x else as_set y)"
  "as_zset (if b then x else y) = (if b then as_zset x else as_zset y)"
  "as_stream (if b then x else y) = (if b then as_stream x else as_stream y)"
  by simp_all

lemma holds_put [view_simps]:
  "holds (put_list k xs d) k' t \<longleftrightarrow> (if k' = k then xs = [] \<or> t = TList else holds d k' t)"
  "holds (put_hash k h d) k' t \<longleftrightarrow> (if k' = k then h = [] \<or> t = THash else holds d k' t)"
  "holds (put_set k ys d) k' t \<longleftrightarrow> (if k' = k then ys = [] \<or> t = TSet else holds d k' t)"
  "holds (put_zset k z d) k' t \<longleftrightarrow> (if k' = k then z = [] \<or> t = TZset else holds d k' t)"
  by (auto simp: holds_def live_put)

section \<open>Commands\<close>

text \<open>A command on a key of type \<open>t\<close>.\<close>

definition on_type :: "rtype \<Rightarrow> string \<Rightarrow> (db, 'a) comp \<Rightarrow> (db, 'a) comp" where
  "on_type t k c = (\<lambda>d. if holds d k t then c d else (Inl WrongType, d))"

lemma on_type_ok [run_simps]: "holds d k t \<Longrightarrow> on_type t k c d = c d"
  by (simp add: on_type_def)

lemma on_type_err [run_simps]: "\<not> holds d k t \<Longrightarrow> on_type t k c d = (Inl WrongType, d)"
  by (simp add: on_type_def)

subsection \<open>Keys and strings\<close>

definition TYPE_is :: "string \<Rightarrow> rtype \<Rightarrow> (db, bool) comp" where
  "TYPE_is k t = getM (\<lambda>d. case live d k of None \<Rightarrow> False | Some v \<Rightarrow> rtype_of v = t)"

definition TYPE_none_or :: "string \<Rightarrow> rtype \<Rightarrow> (db, bool) comp" where
  "TYPE_none_or k t = getM (\<lambda>d. holds d k t)"

definition EXISTS :: "string \<Rightarrow> (db, bool) comp" where
  "EXISTS k = getM (\<lambda>d. live d k \<noteq> None)"

definition DEL :: "string \<Rightarrow> (db, unit) comp" where
  "DEL k = modifyM (upd k None NoTtl)"

definition GET :: "string \<Rightarrow> (db, string option) comp" where
  "GET k = on_type TString k (getM (\<lambda>d. str_at d k))"

text \<open>\<open>MGET\<close> reads a key of another type as absent instead of failing.\<close>

definition MGET :: "string list \<Rightarrow> (db, string option list) comp" where
  "MGET ks = getM (\<lambda>d. map (\<lambda>k. str_at d k) ks)"

definition SET :: "string \<Rightarrow> string \<Rightarrow> ttl_mode \<Rightarrow> (db, unit) comp" where
  "SET k v m = modifyM (upd k (Some (RString v)) m)"

text \<open>The remaining time to live in seconds, rounded; \<open>-2\<close> for no key and \<open>-1\<close> for no expiry.\<close>

definition TTL :: "string \<Rightarrow> (db, int) comp" where
  "TTL k = getM (\<lambda>d. if live d k = None then - 2
     else (case expiry d k of None \<Rightarrow> - 1 | Some t \<Rightarrow> (t - clock d + 500) div 1000))"

definition EXPIRE :: "string \<Rightarrow> int \<Rightarrow> (db, unit) comp" where
  "EXPIRE k s = modifyM (\<lambda>d. if live d k = None then d else upd k (live d k) (Ex s) d)"

definition INCR :: "string \<Rightarrow> (db, int) comp" where
  "INCR k = on_type TString k (\<lambda>d.
     case (case str_at d k of None \<Rightarrow> Some 0 | Some s \<Rightarrow> parse_int s) of
       Some i \<Rightarrow> if - (2 ^ 63) \<le> i \<and> i < 2 ^ 63 - 1
                  then (Inr (i + 1), upd k (Some (RString (show_int (i + 1)))) KeepTtl d)
                  else (Inl NotAnInteger, d)
     | None \<Rightarrow> (Inl NotAnInteger, d))"

subsection \<open>Lists\<close>

definition LLEN :: "string \<Rightarrow> (db, nat) comp" where
  "LLEN k = on_type TList k (getM (\<lambda>d. length (list_at d k)))"

definition LRANGE_all :: "string \<Rightarrow> (db, string list) comp" where
  "LRANGE_all k = on_type TList k (getM (\<lambda>d. list_at d k))"

text \<open>The range \<open>0 .. n - 1\<close> of a list; the upper end \<open>-1\<close> means its last element.\<close>

definition first_range :: "nat \<Rightarrow> 'a list \<Rightarrow> 'a list" where
  "first_range n xs = (if n = 0 then xs else take n xs)"

text \<open>\<open>LRANGE k 0 (n - 1)\<close>\<close>

definition LRANGE_first :: "string \<Rightarrow> nat \<Rightarrow> (db, string list) comp" where
  "LRANGE_first k n = on_type TList k (getM (\<lambda>d. first_range n (list_at d k)))"

definition RPUSH :: "string \<Rightarrow> string list \<Rightarrow> (db, unit) comp" where
  "RPUSH k xs = on_type TList k (modifyM (\<lambda>d. put_list k (list_at d k @ xs) d))"

text \<open>\<open>LPUSH\<close> inserts its arguments one after the other at the head.\<close>

definition LPUSH :: "string \<Rightarrow> string list \<Rightarrow> (db, unit) comp" where
  "LPUSH k xs = on_type TList k (modifyM (\<lambda>d. put_list k (rev xs @ list_at d k) d))"

definition LPOP :: "string \<Rightarrow> (db, string option) comp" where
  "LPOP k = on_type TList k (\<lambda>d.
     case list_at d k of [] \<Rightarrow> (Inr None, d) | x # xs \<Rightarrow> (Inr (Some x), put_list k xs d))"

text \<open>\<open>LTRIM k 0 (n - 1)\<close>\<close>

definition LTRIM_first :: "string \<Rightarrow> nat \<Rightarrow> (db, unit) comp" where
  "LTRIM_first k n = on_type TList k (modifyM (\<lambda>d. put_list k (first_range n (list_at d k)) d))"

text \<open>\<open>LREM k 1 x\<close>\<close>

definition LREM_first :: "string \<Rightarrow> string \<Rightarrow> (db, unit) comp" where
  "LREM_first k x = on_type TList k (modifyM (\<lambda>d. put_list k (remove1 x (list_at d k)) d))"

subsection \<open>Hashes\<close>

definition HGET :: "string \<Rightarrow> string \<Rightarrow> (db, string option) comp" where
  "HGET k f = on_type THash k (getM (\<lambda>d. map_of (hash_at d k) f))"

definition HMGET :: "string \<Rightarrow> string list \<Rightarrow> (db, string option list) comp" where
  "HMGET k fs = on_type THash k (getM (\<lambda>d. map (map_of (hash_at d k)) fs))"

text \<open>
  The client library hands the reply of \<open>HGETALL\<close> to the program as an object, whose members are enumerated with
  the array indices first, in the order of the numbers, and then the other names as they were inserted.
\<close>

definition array_index :: "string \<Rightarrow> nat option" where
  "array_index s = (case parse_int s of Some i \<Rightarrow> if 0 \<le> i \<and> i < 2 ^ 32 - 1 then Some (nat i) else None | None \<Rightarrow> None)"

definition object_order :: "(string \<times> 'v) list \<Rightarrow> (string \<times> 'v) list" where
  "object_order members =
     sort_key (\<lambda>e. case array_index (fst e) of Some i \<Rightarrow> i | None \<Rightarrow> 0) (filter (\<lambda>e. array_index (fst e) \<noteq> None) members)
     @ filter (\<lambda>e. array_index (fst e) = None) members"

lemma set_object_order [simp]: "set (object_order members) = set members"
  by (auto simp: object_order_def)

lemma mset_object_order [simp]: "mset (object_order members) = mset members"
proof -
  have "mset (filter (\<lambda>e. \<not> P e) xs) + mset (filter P xs) = mset xs" for P and xs :: "(string \<times> 'v) list"
    by (induction xs) auto
  from this[of "\<lambda>e. array_index (fst e) = None"] show ?thesis by (simp add: object_order_def)
qed

lemma distinct_object_order [simp]: "distinct (map fst (object_order members)) \<longleftrightarrow> distinct (map fst members)"
  by (rule mset_eq_imp_distinct_iff) simp

lemma map_of_object_order: "distinct (map fst members) \<Longrightarrow> map_of (object_order members) = map_of members"
  by (subst map_of_inject_set) simp_all

definition HGETALL :: "string \<Rightarrow> (db, (string \<times> string) list) comp" where
  "HGETALL k = on_type THash k (getM (\<lambda>d. object_order (hash_at d k)))"

definition HEXISTS :: "string \<Rightarrow> string \<Rightarrow> (db, bool) comp" where
  "HEXISTS k f = on_type THash k (getM (\<lambda>d. map_of (hash_at d k) f \<noteq> None))"

definition HSET :: "string \<Rightarrow> string \<Rightarrow> string \<Rightarrow> (db, unit) comp" where
  "HSET k f v = on_type THash k (modifyM (\<lambda>d. put_hash k (AList.update f v (hash_at d k)) d))"

definition HDEL :: "string \<Rightarrow> string \<Rightarrow> (db, unit) comp" where
  "HDEL k f = on_type THash k (modifyM (\<lambda>d. put_hash k (AList.delete f (hash_at d k)) d))"

subsection \<open>Sets\<close>

definition SADD :: "string \<Rightarrow> string \<Rightarrow> (db, unit) comp" where
  "SADD k x = on_type TSet k (modifyM (\<lambda>d. put_set k (List.insert x (set_at d k)) d))"

definition SREM :: "string \<Rightarrow> string \<Rightarrow> (db, unit) comp" where
  "SREM k x = on_type TSet k (modifyM (\<lambda>d. put_set k (removeAll x (set_at d k)) d))"

definition SMEMBERS :: "string \<Rightarrow> (db, string list) comp" where
  "SMEMBERS k = on_type TSet k (getM (\<lambda>d. set_at d k))"

definition SCARD :: "string \<Rightarrow> (db, nat) comp" where
  "SCARD k = on_type TSet k (getM (\<lambda>d. length (set_at d k)))"

definition SISMEMBER :: "string \<Rightarrow> string \<Rightarrow> (db, bool) comp" where
  "SISMEMBER k x = on_type TSet k (getM (\<lambda>d. x \<in> set (set_at d k)))"

subsection \<open>Sorted sets\<close>

definition by_score :: "(string \<times> int) list \<Rightarrow> (string \<times> int) list" where
  "by_score z = sort_key (\<lambda>(m, s). (s, m)) z"

definition ZADD :: "string \<Rightarrow> int \<Rightarrow> string \<Rightarrow> (db, unit) comp" where
  "ZADD k s m = on_type TZset k (modifyM (\<lambda>d. put_zset k (AList.update m s (zset_at d k)) d))"

text \<open>\<open>ZADD k XX s m\<close> updates a member that is there and adds none.\<close>

definition ZADD_XX :: "string \<Rightarrow> int \<Rightarrow> string \<Rightarrow> (db, unit) comp" where
  "ZADD_XX k s m = on_type TZset k (modifyM (\<lambda>d.
     if map_of (zset_at d k) m = None then d else put_zset k (AList.update m s (zset_at d k)) d))"

definition ZREM :: "string \<Rightarrow> string \<Rightarrow> (db, unit) comp" where
  "ZREM k m = on_type TZset k (modifyM (\<lambda>d. put_zset k (AList.delete m (zset_at d k)) d))"

definition ZCARD :: "string \<Rightarrow> (db, nat) comp" where
  "ZCARD k = on_type TZset k (getM (\<lambda>d. length (zset_at d k)))"

definition ZRANGE_all :: "string \<Rightarrow> (db, string list) comp" where
  "ZRANGE_all k = on_type TZset k (getM (\<lambda>d. map fst (by_score (zset_at d k))))"

text \<open>\<open>ZRANGEBYSCORE k -inf hi\<close>\<close>

definition ZRANGEBYSCORE_upto :: "string \<Rightarrow> int \<Rightarrow> (db, string list) comp" where
  "ZRANGEBYSCORE_upto k hi =
     on_type TZset k (getM (\<lambda>d. map fst (filter (\<lambda>(m, s). s \<le> hi) (by_score (zset_at d k)))))"

subsection \<open>Streams\<close>

text \<open>
  \<open>XADD k MAXLEN ~ n * fields\<close>. The approximate trimming keeps at least the newest \<open>n\<close> entries and
  may keep more; entries are only ever read as notifications, and the model keeps them all.
\<close>

definition XADD :: "string \<Rightarrow> (string \<times> string) list \<Rightarrow> (db, unit) comp" where
  "XADD k fs = on_type TStream k (modifyM (\<lambda>d. upd k (Some (RStream (stream_at d k @ [fs]))) KeepTtl d))"

lemmas command_defs = TYPE_is_def TYPE_none_or_def EXISTS_def DEL_def GET_def MGET_def SET_def TTL_def EXPIRE_def
  LLEN_def LRANGE_all_def LRANGE_first_def RPUSH_def LPUSH_def LPOP_def LTRIM_first_def LREM_first_def
  HGET_def HMGET_def HGETALL_def HEXISTS_def HSET_def HDEL_def SADD_def SREM_def SMEMBERS_def SCARD_def SISMEMBER_def
  ZADD_def ZADD_XX_def ZREM_def ZCARD_def ZRANGE_all_def ZRANGEBYSCORE_upto_def XADD_def

declare command_defs [run_simps]

section \<open>Containers of strings\<close>

declare update_conv' [view_simps]

lemma map_of_delete [view_simps]: "map_of (AList.delete k xs) = (map_of xs)(k := None)"
  by (rule ext) (simp add: delete_conv')

lemma update_not_Nil [simp]: "AList.update k v xs \<noteq> []"
  by (induction xs) auto

lemma set_by_score [simp]: "set (by_score z) = set z"
  by (simp add: by_score_def)

lemma mset_by_score [simp]: "mset (by_score z) = mset z"
  by (simp add: by_score_def)

lemma length_by_score [simp]: "length (by_score z) = length z"
  by (simp add: by_score_def)

section \<open>Worlds and interleaving\<close>

record world =
  redis :: db
  interfere :: "nat \<Rightarrow> db \<Rightarrow> db"
  history :: "(db \<times> db) list"

text \<open>The database the next step will find.\<close>

definition next_db :: "'z world_scheme \<Rightarrow> db" where
  "next_db w = interfere w (length (history w)) (redis w)"

definition after_step :: "'z world_scheme \<Rightarrow> db \<Rightarrow> 'z world_scheme" where
  "after_step w d = w\<lparr>redis := d, history := (next_db w, d) # history w\<rparr>"

definition atomic :: "(db, 'a) comp \<Rightarrow> ('z world_scheme, 'a) comp" where
  "atomic c = (\<lambda>w. case c (next_db w) of (r, d) \<Rightarrow> (r, after_step w d))"

definition quiet :: "'z world_scheme \<Rightarrow> bool" where
  "quiet w \<longleftrightarrow> interfere w = (\<lambda>_ d. d)"

definition quiet_world :: "db \<Rightarrow> world" where
  "quiet_world d = \<lparr>redis = d, interfere = (\<lambda>_ d. d), history = []\<rparr>"

lemma quiet_quiet_world [simp]: "quiet (quiet_world d)" "redis (quiet_world d) = d"
  by (simp_all add: quiet_def quiet_world_def)

lemma after_step_sel [simp]:
  "redis (after_step w d) = d" "interfere (after_step w d) = interfere w"
  "history (after_step w d) = (next_db w, d) # history w" "quiet (after_step w d) = quiet w"
  by (simp_all add: after_step_def quiet_def)

lemma next_db_quiet [simp]: "quiet w \<Longrightarrow> next_db w = redis w"
  by (simp add: next_db_def quiet_def)

lemma atomic_run [run_simps]: "c (next_db w) = (r, d) \<Longrightarrow> atomic c w = (r, after_step w d)"
  by (simp add: atomic_def)

lemma atomic_E:
  assumes "atomic c w = (r, w')"
  obtains d where "c (next_db w) = (r, d)" and "w' = after_step w d"
  using assms by (auto simp: atomic_def split: prod.splits)

subsection \<open>Invariants under interference\<close>

text \<open>
  \<open>keeps I m Q\<close>: whatever the other clients do, as long as they keep \<open>I\<close>, the method keeps \<open>I\<close>, and a
  value it returns satisfies \<open>Q\<close>.
\<close>

definition stable :: "(db \<Rightarrow> bool) \<Rightarrow> 'z world_scheme \<Rightarrow> bool" where
  "stable I w \<longleftrightarrow> (\<forall>n d. I d \<longrightarrow> I (interfere w n d))"

definition keeps :: "(db \<Rightarrow> bool) \<Rightarrow> ('z world_scheme, 'a) comp \<Rightarrow> ('a \<Rightarrow> bool) \<Rightarrow> bool" where
  "keeps I m Q \<longleftrightarrow> (\<forall>w r w'. stable I w \<longrightarrow> I (redis w) \<longrightarrow> m w = (r, w') \<longrightarrow>
     I (redis w') \<and> stable I w' \<and> (\<forall>a. r = Inr a \<longrightarrow> Q a))"

definition script_keeps :: "(db \<Rightarrow> bool) \<Rightarrow> (db, 'a) comp \<Rightarrow> ('a \<Rightarrow> bool) \<Rightarrow> bool" where
  "script_keeps I c Q \<longleftrightarrow> (\<forall>d r d'. I d \<longrightarrow> c d = (r, d') \<longrightarrow> I d' \<and> (\<forall>a. r = Inr a \<longrightarrow> Q a))"

named_theorems keeps_intros "methods and scripts that keep an invariant"

lemma keeps_ret [keeps_intros]: "Q a \<Longrightarrow> keeps I (ret a) Q"
  by (simp add: keeps_def ret_def)

lemma keeps_throw [keeps_intros]: "keeps I (throw e) Q"
  by (simp add: keeps_def throw_def)

lemma keeps_getM [keeps_intros]: "keeps I (getM f) (\<lambda>_. True)"
  by (simp add: keeps_def getM_def)

lemma keepsD:
  "keeps I m Q \<Longrightarrow> stable I w \<Longrightarrow> I (redis w) \<Longrightarrow> m w = (r, w') \<Longrightarrow> I (redis w') \<and> stable I w' \<and> (\<forall>a. r = Inr a \<longrightarrow> Q a)"
  unfolding keeps_def by blast

lemma keepsI:
  "(\<And>w r w'. stable I w \<Longrightarrow> I (redis w) \<Longrightarrow> m w = (r, w') \<Longrightarrow> I (redis w') \<and> stable I w' \<and> (\<forall>a. r = Inr a \<longrightarrow> Q a)) \<Longrightarrow> keeps I m Q"
  unfolding keeps_def by blast

lemma keeps_bindM:
  assumes "keeps I m Q" and "\<And>a. Q a \<Longrightarrow> keeps I (f a) R"
  shows "keeps I (bindM m f) R"
proof (rule keepsI)
  fix w r w' assume w: "stable I w" "I (redis w)" and run: "bindM m f w = (r, w')"
  obtain x w1 where x: "m w = (x, w1)" by fastforce
  note w1 = keepsD[OF assms(1) w x]
  show "I (redis w') \<and> stable I w' \<and> (\<forall>a. r = Inr a \<longrightarrow> R a)"
  proof (cases x)
    case (Inl e)
    with x run w1 show ?thesis by (auto simp: bindM_def)
  next
    case (Inr a)
    with x run have "f a w1 = (r, w')" by (simp add: bindM_def)
    with w1 Inr assms(2) show ?thesis by (intro keepsD[of I "f a" R w1 r w']) auto
  qed
qed

lemma keeps_thenM: "keeps I m Q \<Longrightarrow> keeps I k R \<Longrightarrow> keeps I (thenM m k) R"
  unfolding thenM_def by (rule keeps_bindM)

lemma keeps_catchM:
  assumes "keeps I m Q" and "\<And>e. keeps I (h e) Q"
  shows "keeps I (catchM m h) Q"
proof (rule keepsI)
  fix w r w' assume w: "stable I w" "I (redis w)" and run: "catchM m h w = (r, w')"
  obtain x w1 where x: "m w = (x, w1)" by fastforce
  note w1 = keepsD[OF assms(1) w x]
  show "I (redis w') \<and> stable I w' \<and> (\<forall>a. r = Inr a \<longrightarrow> Q a)"
  proof (cases x)
    case (Inl e)
    with x run have "h e w1 = (r, w')" by (simp add: catchM_def)
    with w1 assms(2) show ?thesis by (intro keepsD[of I "h e" Q w1 r w']) auto
  next
    case (Inr a)
    with x run w1 show ?thesis by (auto simp: catchM_def)
  qed
qed

lemma keeps_weaken: "keeps I m Q \<Longrightarrow> (\<And>a. Q a \<Longrightarrow> R a) \<Longrightarrow> keeps I m R"
  unfolding keeps_def by blast

lemma keeps_atomic: "script_keeps I c Q \<Longrightarrow> keeps I (atomic c) Q"
  unfolding keeps_def script_keeps_def stable_def atomic_def next_db_def
  by (fastforce split: prod.splits)

text \<open>A script that only reads.\<close>

lemma script_keeps_read: "(\<And>d r d'. c d = (r, d') \<Longrightarrow> d' = d \<and> (\<forall>a. I d \<longrightarrow> r = Inr a \<longrightarrow> Q a)) \<Longrightarrow> script_keeps I c Q"
  unfolding script_keeps_def by blast

subsection \<open>Undisturbed runs\<close>

text \<open>
  \<open>runs m d a d'\<close>: with nothing interfering, the method \<open>m\<close> started on the database \<open>d\<close> returns \<open>a\<close> and
  leaves \<open>d'\<close>. \<open>fails m d e d'\<close>: it throws \<open>e\<close> and leaves \<open>d'\<close>.
\<close>

definition runs :: "('z world_scheme, 'a) comp \<Rightarrow> db \<Rightarrow> 'a \<Rightarrow> db \<Rightarrow> bool" where
  "runs m d a d' \<longleftrightarrow> (\<forall>w. quiet w \<longrightarrow> redis w = d \<longrightarrow> (\<exists>w'. m w = (Inr a, w') \<and> quiet w' \<and> redis w' = d'))"

definition fails :: "('z world_scheme, 'a) comp \<Rightarrow> db \<Rightarrow> exn \<Rightarrow> db \<Rightarrow> bool" where
  "fails m d e d' \<longleftrightarrow> (\<forall>w. quiet w \<longrightarrow> redis w = d \<longrightarrow> (\<exists>w'. m w = (Inl e, w') \<and> quiet w' \<and> redis w' = d'))"

named_theorems runs_intros "undisturbed runs"

lemma runs_ret [runs_intros]: "runs (ret a) d a d"
  by (simp add: runs_def ret_def)

lemma fails_throw [runs_intros]: "fails (throw e) d e d"
  by (simp add: fails_def throw_def)

lemma runs_atomic: "c d = (Inr a, d') \<Longrightarrow> runs (atomic c) d a d'"
  by (auto simp: runs_def atomic_def)

lemma fails_atomic: "c d = (Inl e, d') \<Longrightarrow> fails (atomic c) d e d'"
  by (auto simp: fails_def atomic_def)

lemma runs_bindM: "runs m d a d' \<Longrightarrow> runs (f a) d' b d'' \<Longrightarrow> runs (bindM m f) d b d''"
  unfolding runs_def bindM_def by fastforce

lemma runs_thenM: "runs m d a d' \<Longrightarrow> runs k d' b d'' \<Longrightarrow> runs (thenM m k) d b d''"
  unfolding thenM_def by (rule runs_bindM)

lemma fails_bindM: "fails m d e d' \<Longrightarrow> fails (bindM m f) d e d'"
  unfolding fails_def bindM_def by fastforce

lemma fails_bindM2: "runs m d a d' \<Longrightarrow> fails (f a) d' e d'' \<Longrightarrow> fails (bindM m f) d e d''"
  unfolding runs_def fails_def bindM_def by fastforce

lemma runs_catchM: "runs m d a d' \<Longrightarrow> runs (catchM m h) d a d'"
  unfolding runs_def catchM_def by fastforce

lemma runs_catchM2: "fails m d e d' \<Longrightarrow> runs (h e) d' a d'' \<Longrightarrow> runs (catchM m h) d a d''"
  unfolding runs_def fails_def catchM_def by fastforce

lemma runsD: "runs m d a d' \<Longrightarrow> quiet w \<Longrightarrow> redis w = d \<Longrightarrow> \<exists>w'. m w = (Inr a, w') \<and> quiet w' \<and> redis w' = d'"
  unfolding runs_def by blast

end
