(* ===== verification/Keys.thy ===== *)
theory Keys
  imports Redis
begin

text \<open>
  The key schema of \<open>src/src/core/keys.ts\<close>: the name of every Redis key and the constants of the
  mailbox, lease and claim policies. Keys are strings built as the code builds them, so that two keys
  may coincide where their texts do; \<open>key_simps\<close> decides which ones can.
\<close>

section \<open>Key builders\<close>

definition agent_key :: "string \<Rightarrow> string" where
  "agent_key name = ''gptq:agent:'' @ name"

definition queue_key :: "string \<Rightarrow> string" where
  "queue_key name = ''gptq:q:'' @ name"

definition mailboxMeta_key :: "string \<Rightarrow> string" where
  "mailboxMeta_key name = ''gptq:meta:'' @ name"

definition session_key :: "string \<Rightarrow> string" where
  "session_key sessionId = ''gptq:session:'' @ sessionId"

definition lease_key :: "string \<Rightarrow> string" where
  "lease_key sessionId = ''gptq:lease:'' @ sessionId"

definition agentSessions_key :: "string \<Rightarrow> string" where
  "agentSessions_key name = ''gptq:agent-sessions:'' @ name"

definition registry_key :: string where
  "registry_key = ''gptq:registry''"

definition registryPending_key :: string where
  "registryPending_key = ''gptq:registry:pending''"

definition registryRestore_key :: string where
  "registryRestore_key = ''gptq:registry:restore''"

definition heartbeat_key :: "string \<Rightarrow> string" where
  "heartbeat_key name = ''gptq:heartbeat:'' @ name"

definition runtimeBinding_key :: "string \<Rightarrow> string" where
  "runtimeBinding_key agent = ''gptq:runtime-binding:'' @ agent"

definition idempotency_key :: "string \<Rightarrow> string" where
  "idempotency_key sender = ''gptq:idempotency:'' @ sender"

definition inboxEvents_key :: "string \<Rightarrow> string" where
  "inboxEvents_key agent = ''gptq:inbox-events:'' @ agent"

definition inboxTrace_key :: "string \<Rightarrow> string" where
  "inboxTrace_key agent = ''gptq:inbox-trace:'' @ agent"

definition outstanding_key :: "string \<Rightarrow> string \<Rightarrow> string" where
  "outstanding_key agent requestId = ''gptq:outstanding:'' @ agent @ '':'' @ requestId"

definition activation_key :: "string \<Rightarrow> string" where
  "activation_key agent = ''gptq:activation:'' @ agent"

definition agentProfile_key :: "string \<Rightarrow> string" where
  "agentProfile_key agent = ''gptq:agent-profile:'' @ agent"

definition outboundActivity_key :: "string \<Rightarrow> string" where
  "outboundActivity_key agent = ''gptq:outbound-activity:'' @ agent"

definition wrapperClaim_key :: "runtime \<Rightarrow> string \<Rightarrow> string" where
  "wrapperClaim_key E agent = ''gptq:experimental-wrapper-claim:'' @ sha256_hex E agent"

definition runtimeMailbox_key :: "runtime \<Rightarrow> string \<Rightarrow> string \<Rightarrow> string" where
  "runtimeMailbox_key E client runtimeId =
     ''gptq:runtime-mailbox:'' @ sha256_hex E (JSON_stringify E (JArr [JStr client, JStr runtimeId]))"

definition continuityAudit_key :: string where
  "continuityAudit_key = ''gptq:continuity-audit''"

definition custody_records_key :: string where
  "custody_records_key = ''gptq:custody''"

definition actor_profiles_key :: string where
  "actor_profiles_key = ''gptq:actor-profiles''"

definition wakeLease_key :: "string \<Rightarrow> string" where
  "wakeLease_key actorId = ''gptq:wake-lease:'' @ actorId"

definition claims_key :: string where
  "claims_key = ''gptq:claims''"

definition claimsIndex_key :: "string \<Rightarrow> string" where
  "claimsIndex_key actorId = ''gptq:claims-index:'' @ actorId"

definition recoverCount_key :: "string \<Rightarrow> string \<Rightarrow> string" where
  "recoverCount_key actorId messageId = ''gptq:rc:'' @ actorId @ '':'' @ messageId"

definition dlq_key :: "string \<Rightarrow> string" where
  "dlq_key actorId = ''gptq:dlq:'' @ actorId"

lemmas key_defs [key_simps] = agent_key_def queue_key_def mailboxMeta_key_def session_key_def lease_key_def
  agentSessions_key_def registry_key_def registryPending_key_def registryRestore_key_def heartbeat_key_def
  runtimeBinding_key_def idempotency_key_def inboxEvents_key_def inboxTrace_key_def outstanding_key_def
  activation_key_def agentProfile_key_def outboundActivity_key_def wrapperClaim_key_def runtimeMailbox_key_def
  continuityAudit_key_def custody_records_key_def actor_profiles_key_def wakeLease_key_def claims_key_def
  claimsIndex_key_def recoverCount_key_def dlq_key_def

section \<open>Policy constants\<close>

definition LEASE_TTL_SECONDS :: int where "LEASE_TTL_SECONDS = 30"
definition LEASE_REFRESH_INTERVAL_SECONDS :: int where "LEASE_REFRESH_INTERVAL_SECONDS = 10"
definition DEFAULT_QUEUE_BOUND :: nat where "DEFAULT_QUEUE_BOUND = 10"
definition RECOVER_CAP :: int where "RECOVER_CAP = 5"
definition DLQ_MAX_LENGTH :: nat where "DLQ_MAX_LENGTH = 1000"
definition RECOVER_COUNTER_TTL_SECONDS :: int where "RECOVER_COUNTER_TTL_SECONDS = 604800"
definition CLAIM_LIFETIME_BUDGET_SECONDS :: int where "CLAIM_LIFETIME_BUDGET_SECONDS = 86400"

section \<open>Which keys coincide\<close>

text \<open>
  Two builders of one argument agree only on the same argument; the two-argument keys do not separate
  their parts, so an agent name that holds a colon can take part of the other argument.
\<close>

lemma key_inj [simp]:
  "queue_key a = queue_key b \<longleftrightarrow> a = b" "dlq_key a = dlq_key b \<longleftrightarrow> a = b"
  "mailboxMeta_key a = mailboxMeta_key b \<longleftrightarrow> a = b" "session_key a = session_key b \<longleftrightarrow> a = b"
  "lease_key a = lease_key b \<longleftrightarrow> a = b" "agentSessions_key a = agentSessions_key b \<longleftrightarrow> a = b"
  "claimsIndex_key a = claimsIndex_key b \<longleftrightarrow> a = b" "wakeLease_key a = wakeLease_key b \<longleftrightarrow> a = b"
  "heartbeat_key a = heartbeat_key b \<longleftrightarrow> a = b" "inboxEvents_key a = inboxEvents_key b \<longleftrightarrow> a = b"
  "inboxTrace_key a = inboxTrace_key b \<longleftrightarrow> a = b"
  by (simp_all add: key_simps)

lemma recoverCount_same_actor [simp]: "recoverCount_key a m = recoverCount_key a n \<longleftrightarrow> m = n"
  by (simp add: key_simps)

lemma no_colon_split:
  assumes "CHR '':'' \<notin> set m" and "CHR '':'' \<notin> set n"
  shows "a @ '':'' @ m = b @ '':'' @ n \<longleftrightarrow> a = b \<and> m = n"
proof
  assume eq: "a @ '':'' @ m = b @ '':'' @ n"
  have last: "takeWhile (\<lambda>c. c \<noteq> CHR '':'') (rev (x @ '':'' @ y)) = rev y" if "CHR '':'' \<notin> set y" for x y
    using that by (subst rev_append, subst rev_append, simp) (subst takeWhile_append2, auto)
  have "rev m = rev n"
    using last[OF assms(1), of a] last[OF assms(2), of b] eq by metis
  with eq show "a = b \<and> m = n" by simp
qed simp

lemma recoverCount_inj:
  "CHR '':'' \<notin> set m \<Longrightarrow> CHR '':'' \<notin> set n \<Longrightarrow> recoverCount_key a m = recoverCount_key b n \<longleftrightarrow> a = b \<and> m = n"
  using no_colon_split by (simp add: recoverCount_key_def)

end
