(* ===== verification/Lua.thy ===== *)
theory Lua
  imports Keys
begin

text \<open>
  How the Lua scripts read JSON, and the few conversions of the two languages that several components
  use. A JSON null decodes to a userdata value in Lua: it is not \<open>nil\<close>, no string and no table. A
  value passed to a Redis command must be a string or a number; anything else raises an error.
\<close>

fun lua_arg :: "json option \<Rightarrow> string option" where
  "lua_arg (Some (JStr s)) = Some s"
| "lua_arg (Some (JNum (JInt i))) = Some (show_int i)"
| "lua_arg _ = None"

definition arg_or_raise :: "json option \<Rightarrow> ('s, string) comp" where
  "arg_or_raise v = (case lua_arg v of Some s \<Rightarrow> ret s | None \<Rightarrow> throw (ErrorReply ''command arguments must be strings or integers''))"

text \<open>The elements \<open>ipairs\<close> visits: an object has no integer keys.\<close>

fun ipairs :: "json \<Rightarrow> json list" where
  "ipairs (JArr xs) = xs"
| "ipairs _ = []"

text \<open>\<open>cjson.decode(payload).id\<close>, when the payload decodes to a table whose id is a string.\<close>

definition envelope_id :: "runtime \<Rightarrow> string \<Rightarrow> string option" where
  "envelope_id E payload = Option.bind (cjson_decode E payload) (\<lambda>m. str_field m ''id'')"

text \<open>The id a message is counted under: a non-empty string.\<close>

fun tracked_id :: "runtime \<Rightarrow> json \<Rightarrow> string option" where
  "tracked_id E (JStr payload) = (case envelope_id E payload of Some i \<Rightarrow> if i = [] then None else Some i | None \<Rightarrow> None)"
| "tracked_id E _ = None"

text \<open>\<open>claim.field = value\<close>\<close>

fun set_member :: "string \<Rightarrow> json \<Rightarrow> json \<Rightarrow> json" where
  "set_member k v (JObj m) = JObj (fmupd k v m)"
| "set_member k v j = j"

text \<open>
  \<open>parseInt(s, 10)\<close>: white space, an optional sign and as many digits as follow; \<open>None\<close> for NaN.
\<close>

definition parseInt :: "string \<Rightarrow> int option" where
  "parseInt s =
     (let t = dropWhile is_space s;
          neg = starts_with ''-'' t;
          u = (if neg \<or> starts_with ''+'' t then tl t else t);
          ds = takeWhile is_digit u
      in if ds = [] then None else Some (if neg then - int (nat_of_digits ds) else int (nat_of_digits ds)))"

lemma parseInt_show_nat [simp]: "parseInt (show_nat n) = Some (int n)"
proof -
  obtain c cs where c: "show_nat n = c # cs" using show_nat_not_Nil by (meson neq_Nil_conv)
  have dg: "list_all is_digit (c # cs)" using list_all_show_nat[of n] c by simp
  then have "\<not> is_space c" "c \<noteq> CHR ''-''" "c \<noteq> CHR ''+''" by (auto simp: is_digit_def is_space_def)
  moreover have tw: "takeWhile is_digit cs = cs" using dg by (simp add: takeWhile_eq_all_conv list_all_iff)
  moreover have "nat_of_digits (c # cs) = n" using nat_of_digits_show_nat[of n] c by simp
  ultimately show ?thesis
    using c dg by (simp add: parseInt_def starts_with_def Let_def tw)
qed

lemma jget_set_member: "jget j k' = Some w \<Longrightarrow> jget (set_member k v j) x = (if x = k then Some v else jget j x)"
  by (cases j) auto

end
