(* ===== verification/Mailbox_Store.thy ===== *)
theory Mailbox_Store
  imports Lua
begin

text \<open>
  The mailbox queues of \<open>src/src/core/mailbox-store.ts\<close> with their scripts \<open>bounded-push.lua\<close>,
  \<open>bounded-push-idempotent.lua\<close> and \<open>migrate-messages.lua\<close>: bounded push with retries, retry
  deduplication, the destructive receive that parks an unreadable payload in the dead-letter queue, queue
  status, and the all-or-nothing move of a whole mailbox.

  A blocking pop is one atomic step at the instant it returns; the wait before it is the interference of
  the world. Cancellation by an abort signal and broken connections are not modelled; the refusal of
  receives after shutdown is.
\<close>

section \<open>Messages\<close>

datatype message_type = Task | Result | Status | Error_reply | Ping

fun type_name :: "message_type \<Rightarrow> string" where
  "type_name Task = ''task''"
| "type_name Result = ''result''"
| "type_name Status = ''status''"
| "type_name Error_reply = ''error''"
| "type_name Ping = ''ping''"

record QueueMessage =
  m_id :: string
  m_from :: string
  m_to :: string
  m_timestamp :: string
  m_type :: message_type
  m_content :: string
  m_metadata :: "json option"
  m_in_reply_to :: "string option"

definition message_json :: "QueueMessage \<Rightarrow> json" where
  "message_json m = obj
     [(''id'', JStr (m_id m)), (''from'', JStr (m_from m)), (''to'', JStr (m_to m)),
      (''timestamp'', JStr (m_timestamp m)), (''type'', JStr (type_name (m_type m))),
      (''payload'', obj ([(''content'', JStr (m_content m))]
         @ opt_member ''metadata'' (m_metadata m) @ opt_member ''in_reply_to'' (map_option JStr (m_in_reply_to m))))]"

definition message_text :: "runtime \<Rightarrow> QueueMessage \<Rightarrow> string" where
  "message_text E m = JSON_stringify E (message_json m)"

text \<open>\<open>!!message.payload.in_reply_to\<close>\<close>

definition has_reply_to :: "QueueMessage \<Rightarrow> bool" where
  "has_reply_to m = (case m_in_reply_to m of None \<Rightarrow> False | Some s \<Rightarrow> s \<noteq> [])"

definition eligible :: "QueueMessage \<Rightarrow> bool" where
  "eligible m \<longleftrightarrow> m_type m = Task \<or> (m_type m = Result \<or> m_type m = Error_reply) \<and> has_reply_to m"

text \<open>The request a message opens or answers: \<open>in_reply_to || id\<close>.\<close>

definition message_outstanding_key :: "QueueMessage \<Rightarrow> string" where
  "message_outstanding_key m =
     (if m_type m = Task then outstanding_key (m_from m) (m_id m)
      else outstanding_key (m_to m) (case m_in_reply_to m of Some (c # cs) \<Rightarrow> c # cs | _ \<Rightarrow> m_id m))"

section \<open>Scripts\<close>

text \<open>\<open>envelope.payload.in_reply_to or ''\<close>; indexing anything but a table or a string raises.\<close>

definition reply_to_arg :: "json \<Rightarrow> ('s, string) comp" where
  "reply_to_arg envelope =
     (case jget envelope ''payload'' of
        Some (JObj p) \<Rightarrow>
          (case fmlookup p ''in_reply_to'' of
             None \<Rightarrow> ret []
           | Some (JBool False) \<Rightarrow> ret []
           | v \<Rightarrow> arg_or_raise v)
      | Some (JArr _) \<Rightarrow> ret []
      | Some (JStr _) \<Rightarrow> ret []
      | _ \<Rightarrow> throw (ErrorReply ''attempt to index a non-table value''))"

definition add_event :: "string \<Rightarrow> json \<Rightarrow> string \<Rightarrow> string \<Rightarrow> (db, unit) comp" where
  "add_event events envelope i ty =
     bindM (reply_to_arg envelope) (\<lambda>re.
     bindM (arg_or_raise (jget envelope ''timestamp'')) (\<lambda>ts.
     bindM (arg_or_raise (jget envelope ''from'')) (\<lambda>from.
     bindM (arg_or_raise (jget envelope ''to'')) (\<lambda>to.
     XADD events [(''message_id'', i), (''type'', ty), (''timestamp'', ts), (''from'', from), (''to'', to), (''in_reply_to'', re)]))))"

text \<open>The part the two push scripts share: type checks, the push, and (\<open>mark\<close>) the deduplication marker.\<close>

definition check_type :: "string \<Rightarrow> rtype \<Rightarrow> string \<Rightarrow> (db, unit) comp" where
  "check_type k t err = bindM (TYPE_none_or k t) (\<lambda>ok. if ok then ret () else throw (ErrorReply err))"

definition push_checked :: "runtime \<Rightarrow> string \<Rightarrow> string \<Rightarrow> string \<Rightarrow> string \<Rightarrow> QueueMessage \<Rightarrow> nat \<Rightarrow> (db, unit) comp \<Rightarrow> (db, unit) comp" where
  "push_checked E queue meta events outst m current mark =
     thenM (check_type meta THash ''mailbox metadata key has wrong type'')
    (thenM (check_type events TStream ''inbox event key has wrong type'')
    (thenM (check_type outst TString ''outstanding key has wrong type'')
    (case cjson_decode E (message_text E m) of
       None \<Rightarrow> throw (ErrorReply ''invalid JSON'')
     | Some envelope \<Rightarrow>
         thenM (RPUSH queue [message_text E m])
        (thenM (HSET meta ''current_size'' (show_nat (current + 1)))
        (thenM mark
        (bindM (if m_type m = Task then ret True
                else if eligible m then bindM (GET outst) (\<lambda>owner. ret (owner = Some (m_from m)))
                else ret False) (\<lambda>notify.
         thenM (if notify then add_event events envelope (m_id m) (type_name (m_type m)) else ret ())
        (if m_type m = Task then SET outst (m_to m) (Ex 604800) else ret ()))))))))"

definition bounded_push :: "runtime \<Rightarrow> nat \<Rightarrow> QueueMessage \<Rightarrow> (db, bool) comp" where
  "bounded_push E bound m =
     bindM (LLEN (queue_key (m_to m))) (\<lambda>current.
     if bound \<le> current then ret False
     else thenM (push_checked E (queue_key (m_to m)) (mailboxMeta_key (m_to m)) (inboxEvents_key (m_to m))
            (message_outstanding_key m) m current (ret ())) (ret True))"

datatype push_status = Sent | Duplicate | Full

definition dedupe_key :: "runtime \<Rightarrow> string \<Rightarrow> string \<Rightarrow> string" where
  "dedupe_key E sender key = idempotency_key sender @ '':'' @ encodeURIComponent E key"

definition bounded_push_idempotent :: "runtime \<Rightarrow> nat \<Rightarrow> string \<Rightarrow> QueueMessage \<Rightarrow> (db, push_status \<times> string) comp" where
  "bounded_push_idempotent E bound dedupe m =
     bindM (GET dedupe) (\<lambda>existing.
     case existing of
       Some i \<Rightarrow> ret (Duplicate, i)
     | None \<Rightarrow>
         bindM (LLEN (queue_key (m_to m))) (\<lambda>current.
         if bound \<le> current then ret (Full, m_id m)
         else thenM (push_checked E (queue_key (m_to m)) (mailboxMeta_key (m_to m)) (inboxEvents_key (m_to m))
                (message_outstanding_key m) m current (SET dedupe (m_id m) (Ex 86400))) (ret (Sent, m_id m))))"

text \<open>Pushing in chunks of 256, because Lua's \<open>unpack\<close> is limited by the stack.\<close>

function chunks :: "nat \<Rightarrow> 'a list \<Rightarrow> 'a list list" where
  "chunks n xs = (if xs = [] \<or> n = 0 then [] else take n xs # chunks n (drop n xs))"
  by pat_completeness auto

termination
  by (relation "measure (length \<circ> snd)") auto

declare chunks.simps [simp del]

definition migrate_messages :: "string \<Rightarrow> string \<Rightarrow> string option \<Rightarrow> (string \<times> string \<times> nat) option \<Rightarrow> (db, int) comp" where
  "migrate_messages src dst claimsIndex dlqs =
     (if src = dst then ret 0
      else bindM (case claimsIndex of None \<Rightarrow> ret 0 | Some k \<Rightarrow> ZCARD k) (\<lambda>claimed.
      if 0 < claimed then ret (- 1)
      else thenM (case dlqs of
             None \<Rightarrow> ret ()
           | Some (dlqSrc, dlqDst, _) \<Rightarrow>
               thenM (check_type dlqSrc TList ''dead-letter queue key has wrong type'')
                     (check_type dlqDst TList ''dead-letter queue key has wrong type''))
     (bindM (LRANGE_all src) (\<lambda>msgs.
      thenM (if msgs = [] then ret () else thenM (forM (chunks 256 msgs) (RPUSH dst)) (DEL src))
     (thenM (case dlqs of
             None \<Rightarrow> ret ()
           | Some (dlqSrc, dlqDst, bound) \<Rightarrow>
               if dlqSrc = dlqDst then ret ()
               else bindM (LRANGE_all dlqSrc) (\<lambda>dead.
                    if dead = [] then ret ()
                    else thenM (forM (chunks 256 (rev dead)) (LPUSH dlqDst))
                        (thenM (LTRIM_first dlqDst bound) (DEL dlqSrc))))
     (ret (int (length msgs))))))))"

section \<open>The store\<close>

text \<open>The state of a \<open>MailboxStore\<close> object beside the database: whether it has been shut down.\<close>

record mailbox_world = world +
  receivesClosed :: bool

text \<open>
  \<open>send\<close>: up to ten attempts, with growing sleeps between them that the interference of the next step
  accounts for.
\<close>

primrec send_loop :: "nat \<Rightarrow> runtime \<Rightarrow> nat \<Rightarrow> QueueMessage \<Rightarrow> ('z world_scheme, bool) comp" where
  "send_loop 0 E bound m = ret False"
| "send_loop (Suc n) E bound m =
     bindM (atomic (bounded_push E bound m)) (\<lambda>pushed. if pushed then ret True else send_loop n E bound m)"

definition send :: "runtime \<Rightarrow> nat \<Rightarrow> QueueMessage \<Rightarrow> ('z world_scheme, bool) comp" where
  "send E bound m = send_loop 10 E bound m"

primrec sendIdempotent_loop :: "nat \<Rightarrow> runtime \<Rightarrow> nat \<Rightarrow> string \<Rightarrow> QueueMessage \<Rightarrow> ('z world_scheme, push_status \<times> string) comp" where
  "sendIdempotent_loop 0 E bound dedupe m = ret (Full, m_id m)"
| "sendIdempotent_loop (Suc n) E bound dedupe m =
     bindM (atomic (bounded_push_idempotent E bound dedupe m)) (\<lambda>r.
     if fst r = Full then sendIdempotent_loop n E bound dedupe m else ret r)"

definition sendIdempotent :: "runtime \<Rightarrow> nat \<Rightarrow> QueueMessage \<Rightarrow> string \<Rightarrow> string \<Rightarrow> ('z world_scheme, push_status \<times> string) comp" where
  "sendIdempotent E bound m sender key = sendIdempotent_loop 10 E bound (dedupe_key E sender key) m"

text \<open>\<open>BLPOP\<close> at the instant it returns; \<open>None\<close> when its timeout passes on an empty list.\<close>

definition cancellablePop :: "string \<Rightarrow> ('z mailbox_world_scheme, string option) comp" where
  "cancellablePop k =
     bindM (getM receivesClosed) (\<lambda>closed.
     if closed then throw (JsError ''receive refused: the client is shutting down'') else atomic (LPOP k))"

text \<open>
  The received value is the parsed payload, as the code casts it without checking its shape. The
  transaction that parks an unreadable payload reports command errors in its reply, which the code does
  not read.
\<close>

definition receive :: "runtime \<Rightarrow> string \<Rightarrow> ('z mailbox_world_scheme, json option) comp" where
  "receive E agentName =
     bindM (cancellablePop (queue_key agentName)) (\<lambda>result.
     case result of
       None \<Rightarrow> ret None
     | Some payload \<Rightarrow>
         (case JSON_parse E payload of
            None \<Rightarrow>
              thenM (atomic (catchM
                  (thenM (LPUSH (dlq_key agentName) [payload]) (LTRIM_first (dlq_key agentName) DLQ_MAX_LENGTH))
                  (\<lambda>_. ret ())))
                (ret None)
          | Some message \<Rightarrow>
              thenM (atomic (bindM (LLEN (queue_key agentName)) (\<lambda>n.
                HSET (mailboxMeta_key agentName) ''current_size'' (show_nat n))))
                (ret (Some message))))"

definition closeReceives :: "('z mailbox_world_scheme, unit) comp" where
  "closeReceives = modifyM (\<lambda>w. w\<lparr>receivesClosed := True\<rparr>)"

definition depth :: "string \<Rightarrow> ('z world_scheme, nat) comp" where
  "depth agentName = atomic (LLEN (queue_key agentName))"

text \<open>\<open>parseInt(bound || "10", 10)\<close>\<close>

definition parsed_bound :: "string option \<Rightarrow> int option" where
  "parsed_bound b = parseInt (case b of Some (c # cs) \<Rightarrow> c # cs | _ \<Rightarrow> show_nat DEFAULT_QUEUE_BOUND)"

primrec status_of :: "string list \<Rightarrow> ('z world_scheme, (string \<times> nat \<times> int option) list) comp" where
  "status_of [] = ret []"
| "status_of (name # names) =
     bindM (atomic (LLEN (queue_key name))) (\<lambda>n.
     bindM (atomic (HGET (mailboxMeta_key name) ''max_size'')) (\<lambda>b.
     bindM (status_of names) (\<lambda>rest. ret ((name, n, parsed_bound b) # rest))))"

text \<open>An empty agent name is falsy and asks for every agent.\<close>

definition mailbox_status :: "string option \<Rightarrow> ('z world_scheme, (string \<times> nat \<times> int option) list) comp" where
  "mailbox_status agentName =
     bindM (case agentName of
              Some (c # cs) \<Rightarrow> ret [c # cs]
            | _ \<Rightarrow> bindM (atomic (HGETALL registry_key)) (\<lambda>all. ret (map fst all)))
     status_of"

definition ensureMailbox :: "nat \<Rightarrow> string \<Rightarrow> string \<Rightarrow> ('z world_scheme, unit) comp" where
  "ensureMailbox bound now agentName =
     bindM (atomic (EXISTS (mailboxMeta_key agentName))) (\<lambda>ex.
     if ex then ret ()
     else atomic (thenM (HSET (mailboxMeta_key agentName) ''max_size'' (show_nat bound))
                        (HSET (mailboxMeta_key agentName) ''created_at'' now)))"

definition deleteMailbox :: "string \<Rightarrow> ('z world_scheme, unit) comp" where
  "deleteMailbox agentName = atomic (thenM (DEL (queue_key agentName)) (DEL (mailboxMeta_key agentName)))"

definition migrateMessages :: "string \<Rightarrow> string \<Rightarrow> string option \<Rightarrow> nat option \<Rightarrow> ('z world_scheme, nat) comp" where
  "migrateMessages fromAgent toAgent sourceClaimsIndex deadLetterBound =
     bindM (atomic (migrate_messages (queue_key fromAgent) (queue_key toAgent)
              (case sourceClaimsIndex of Some (c # cs) \<Rightarrow> Some (c # cs) | _ \<Rightarrow> None)
              (map_option (\<lambda>b. (dlq_key fromAgent, dlq_key toAgent, b)) deadLetterBound))) (\<lambda>count.
     if count = - 1 then throw (JsError ''unexpired claimed tasks'') else ret (nat count))"

section \<open>What a push does\<close>

lemma mailbox_keys_distinct [simp]:
  "queue_key a \<noteq> mailboxMeta_key b" "mailboxMeta_key b \<noteq> queue_key a"
  "queue_key a \<noteq> inboxEvents_key b" "inboxEvents_key b \<noteq> queue_key a"
  "queue_key a \<noteq> dlq_key b" "dlq_key b \<noteq> queue_key a"
  "mailboxMeta_key a \<noteq> inboxEvents_key b" "inboxEvents_key b \<noteq> mailboxMeta_key a"
  "dlq_key a \<noteq> mailboxMeta_key b" "mailboxMeta_key b \<noteq> dlq_key a"
  by (simp_all add: key_simps)

lemma message_outstanding_distinct [simp]:
  "queue_key a \<noteq> message_outstanding_key m" "message_outstanding_key m \<noteq> queue_key a"
  "mailboxMeta_key a \<noteq> message_outstanding_key m" "message_outstanding_key m \<noteq> mailboxMeta_key a"
  "inboxEvents_key a \<noteq> message_outstanding_key m" "message_outstanding_key m \<noteq> inboxEvents_key a"
  by (auto simp: message_outstanding_key_def key_simps split: option.splits list.splits)

lemma dedupe_distinct [simp]:
  "dedupe_key E s k \<noteq> queue_key a" "queue_key a \<noteq> dedupe_key E s k"
  "dedupe_key E s k \<noteq> mailboxMeta_key a" "mailboxMeta_key a \<noteq> dedupe_key E s k"
  "dedupe_key E s k \<noteq> inboxEvents_key a" "inboxEvents_key a \<noteq> dedupe_key E s k"
  "dedupe_key E s k \<noteq> message_outstanding_key m" "message_outstanding_key m \<noteq> dedupe_key E s k"
  by (auto simp: dedupe_key_def message_outstanding_key_def key_simps split: option.splits list.splits)

text \<open>The types a push requires of the keys it writes.\<close>

definition push_types :: "QueueMessage \<Rightarrow> db \<Rightarrow> bool" where
  "push_types m d \<longleftrightarrow> holds d (queue_key (m_to m)) TList \<and> holds d (mailboxMeta_key (m_to m)) THash
     \<and> holds d (inboxEvents_key (m_to m)) TStream \<and> holds d (message_outstanding_key m) TString"

text \<open>
  Whether a push wakes the recipient: a task always does, a reply only when the recipient opened the
  request towards this very sender.
\<close>

definition notifies :: "QueueMessage \<Rightarrow> db \<Rightarrow> bool" where
  "notifies m d \<longleftrightarrow> m_type m = Task \<or> eligible m \<and> str_at d (message_outstanding_key m) = Some (m_from m)"

definition inbox_event :: "QueueMessage \<Rightarrow> (string \<times> string) list" where
  "inbox_event m = [(''message_id'', m_id m), (''type'', type_name (m_type m)), (''timestamp'', m_timestamp m),
     (''from'', m_from m), (''to'', m_to m), (''in_reply_to'', case m_in_reply_to m of None \<Rightarrow> [] | Some s \<Rightarrow> s)]"

definition pushed_db :: "runtime \<Rightarrow> QueueMessage \<Rightarrow> (db \<Rightarrow> db) \<Rightarrow> db \<Rightarrow> db" where
  "pushed_db E m mark d =
     (let q = queue_key (m_to m); ev = inboxEvents_key (m_to m);
          d1 = put_list q (list_at d q @ [message_text E m]) d;
          d2 = put_hash (mailboxMeta_key (m_to m)) (AList.update ''current_size'' (show_nat (length (list_at d q) + 1))
                 (hash_at d (mailboxMeta_key (m_to m)))) d1;
          d3 = mark d2;
          d4 = (if notifies m d then upd ev (Some (RStream (stream_at d ev @ [inbox_event m]))) KeepTtl d3 else d3)
      in if m_type m = Task then upd (message_outstanding_key m) (Some (RString (m_to m))) (Ex 604800) d4 else d4)"

context js_runtime
begin

lemma decode_message: "wire_json (message_json m) \<Longrightarrow> cjson_decode E (message_text E m) = Some (message_json m)"
  by (simp add: message_text_def decode_stringify)

lemma add_event_run:
  "holds d ev TStream \<Longrightarrow> t = type_name (m_type m) \<Longrightarrow> add_event ev (message_json m) (m_id m) t d
     = (Inr (), upd ev (Some (RStream (stream_at d ev @ [inbox_event m]))) KeepTtl d)"
  by (cases "m_in_reply_to m")
    (simp_all add: add_event_def reply_to_arg_def message_json_def arg_or_raise_def run_simps inbox_event_def obj_def
      fmlookup_of_list opt_member_def map_add_def split: option.splits)

lemma push_checked_run:
  assumes wire: "wire_json (message_json m)" and ty: "push_types m d" and mark: "\<And>d. mk d = (Inr (), mark d)"
    and frame: "\<And>d k. k \<in> {queue_key (m_to m), mailboxMeta_key (m_to m), inboxEvents_key (m_to m), message_outstanding_key m} \<Longrightarrow> live (mark d) k = live d k"
  shows "push_checked E (queue_key (m_to m)) (mailboxMeta_key (m_to m)) (inboxEvents_key (m_to m)) (message_outstanding_key m) m
      (length (list_at d (queue_key (m_to m)))) mk d = (Inr (), pushed_db E m mark d)"
proof -
  let ?d1 = "put_list (queue_key (m_to m)) (list_at d (queue_key (m_to m)) @ [message_text E m]) d"
  let ?d2 = "put_hash (mailboxMeta_key (m_to m)) (AList.update ''current_size'' (show_nat (length (list_at d (queue_key (m_to m))) + 1))
                 (hash_at d (mailboxMeta_key (m_to m)))) ?d1"
  have t: "holds d (queue_key (m_to m)) TList" "holds d (mailboxMeta_key (m_to m)) THash"
    "holds d (inboxEvents_key (m_to m)) TStream" "holds d (message_outstanding_key m) TString"
    using ty by (simp_all add: push_types_def)
  have "live (mark ?d2) (inboxEvents_key (m_to m)) = live d (inboxEvents_key (m_to m))"
    "live (mark ?d2) (message_outstanding_key m) = live d (message_outstanding_key m)"
    by (simp_all add: frame view_simps)
  then have ev: "holds (mark ?d2) (inboxEvents_key (m_to m)) TStream" "holds (mark ?d2) (message_outstanding_key m) TString"
    "stream_at (mark ?d2) (inboxEvents_key (m_to m)) = stream_at d (inboxEvents_key (m_to m))"
    "str_at (mark ?d2) (message_outstanding_key m) = str_at d (message_outstanding_key m)"
    using t by (simp_all add: holds_def)
  show ?thesis
    using t ev
    by (simp add: push_checked_def check_type_def run_simps decode_message[OF wire] view_simps mark add_event_run
        pushed_db_def Let_def notifies_def)
qed

lemma push_checked_wrongtype:
  assumes "holds d (queue_key (m_to m)) TList" and "\<not> push_types m d"
  shows "\<exists>e. push_checked E (queue_key (m_to m)) (mailboxMeta_key (m_to m)) (inboxEvents_key (m_to m)) (message_outstanding_key m) m n mk d = (Inl e, d)"
  using assms
  by (cases "holds d (mailboxMeta_key (m_to m)) THash"; cases "holds d (inboxEvents_key (m_to m)) TStream")
    (simp_all add: push_checked_def check_type_def run_simps push_types_def)

lemma bounded_push_run:
  assumes "wire_json (message_json m)"
  shows "push_types m d \<Longrightarrow> length (list_at d (queue_key (m_to m))) < bound \<Longrightarrow> bounded_push E bound m d = (Inr True, pushed_db E m id d)"
    and "holds d (queue_key (m_to m)) TList \<Longrightarrow> bound \<le> length (list_at d (queue_key (m_to m))) \<Longrightarrow> bounded_push E bound m d = (Inr False, d)"
    and "\<not> push_types m d \<Longrightarrow> \<exists>r. r \<noteq> Inr True \<and> bounded_push E bound m d = (r, d)"
proof -
  { assume t: "push_types m d" and l: "length (list_at d (queue_key (m_to m))) < bound"
    have "push_checked E (queue_key (m_to m)) (mailboxMeta_key (m_to m)) (inboxEvents_key (m_to m)) (message_outstanding_key m) m
      (length (list_at d (queue_key (m_to m)))) (ret ()) d = (Inr (), pushed_db E m id d)"
      by (rule push_checked_run[OF assms t]) (simp_all add: run_simps)
    with t l show "bounded_push E bound m d = (Inr True, pushed_db E m id d)"
      by (simp add: bounded_push_def run_simps push_types_def) }
  show "holds d (queue_key (m_to m)) TList \<Longrightarrow> bound \<le> length (list_at d (queue_key (m_to m))) \<Longrightarrow> bounded_push E bound m d = (Inr False, d)"
    by (simp add: bounded_push_def run_simps)
  assume t: "\<not> push_types m d"
  show "\<exists>r. r \<noteq> Inr True \<and> bounded_push E bound m d = (r, d)"
  proof (cases "holds d (queue_key (m_to m)) TList \<and> length (list_at d (queue_key (m_to m))) < bound")
    case True
    with push_checked_wrongtype[OF _ t, of "length (list_at d (queue_key (m_to m)))" "ret ()"] show ?thesis
      by (auto simp: bounded_push_def run_simps)
  next
    case False
    then show ?thesis by (cases "holds d (queue_key (m_to m)) TList") (auto simp: bounded_push_def run_simps)
  qed
qed

end

lemma pushed_db_views:
  assumes "\<And>d k. k \<notin> K \<Longrightarrow> live (mark d) k = live d k"
    and "K \<inter> {queue_key (m_to m), mailboxMeta_key (m_to m), inboxEvents_key (m_to m), message_outstanding_key m} = {}"
  shows "list_at (pushed_db E m mark d) (queue_key (m_to m)) = list_at d (queue_key (m_to m)) @ [message_text E m]"
    and "map_of (hash_at (pushed_db E m mark d) (mailboxMeta_key (m_to m))) ''current_size'' = Some (show_nat (length (list_at d (queue_key (m_to m))) + 1))"
    and "stream_at (pushed_db E m mark d) (inboxEvents_key (m_to m)) = stream_at d (inboxEvents_key (m_to m)) @ (if notifies m d then [inbox_event m] else [])"
    and "m_type m = Task \<Longrightarrow> str_at (pushed_db E m mark d) (message_outstanding_key m) = Some (m_to m)"
    and "k \<notin> K \<union> {queue_key (m_to m), mailboxMeta_key (m_to m), inboxEvents_key (m_to m), message_outstanding_key m} \<Longrightarrow>
      live (pushed_db E m mark d) k = live d k"
  using assms(2) by (auto simp: pushed_db_def Let_def view_simps assms(1))

lemma pushed_db_holds_queue: 
  assumes "\<And>d k. k \<notin> K \<Longrightarrow> live (mark d) k = live d k" and "queue_key (m_to m) \<notin> K"
  shows "holds (pushed_db E m mark d) (queue_key (m_to m)) TList"
  using assms by (simp add: pushed_db_def Let_def view_simps holds_def)

text \<open>
  Pushing a message is all or nothing and bounded. Either the mailbox was below its bound and the
  message is now its last entry, the recorded size is the new length, the inbox event stream gained an
  event exactly when the message may wake the recipient (a task, or a reply to a request the recipient
  sent to this very sender), a task is recorded as outstanding, and no other key changed; or nothing
  changed at all: the mailbox was full, or a key holds a value of the wrong type.
\<close>

lemma bounded_push_all_or_nothing:
  assumes "js_runtime E" and "wire_json (message_json m)" and "bounded_push E bound m d = (r, d')"
  shows "if r = Inr True
    then length (list_at d (queue_key (m_to m))) < bound
      \<and> list_at d' (queue_key (m_to m)) = list_at d (queue_key (m_to m)) @ [message_text E m]
      \<and> map_of (hash_at d' (mailboxMeta_key (m_to m))) ''current_size'' = Some (show_nat (length (list_at d' (queue_key (m_to m)))))
      \<and> stream_at d' (inboxEvents_key (m_to m)) = stream_at d (inboxEvents_key (m_to m)) @ (if notifies m d then [inbox_event m] else [])
      \<and> (m_type m = Task \<longrightarrow> str_at d' (message_outstanding_key m) = Some (m_to m))
      \<and> (\<forall>k. k \<notin> {queue_key (m_to m), mailboxMeta_key (m_to m), inboxEvents_key (m_to m), message_outstanding_key m} \<longrightarrow> live d' k = live d k)
    else d' = d \<and> (r = Inr False \<longrightarrow> bound \<le> length (list_at d (queue_key (m_to m))))"
proof (cases "push_types m d \<and> length (list_at d (queue_key (m_to m))) < bound")
  case True
  with js_runtime.bounded_push_run(1)[OF assms(1,2)] assms(3) have r: "r = Inr True" "d' = pushed_db E m id d" by auto
  show ?thesis using True pushed_db_views[where K = "{}" and mark = id and m = m and E = E and d = d] unfolding r by simp
next
  case False
  with js_runtime.bounded_push_run(2,3)[OF assms(1,2), of d bound] assms(3)
  have "r \<noteq> Inr True \<and> d' = d" by (cases "push_types m d") (auto simp: push_types_def)
  moreover have "r = Inr False \<Longrightarrow> bound \<le> length (list_at d (queue_key (m_to m)))"
    using assms(3) by (auto simp: bounded_push_def thenM_def ret_def elim!: bindM_Inr_E split: if_splits)
      (auto simp: LLEN_def on_type_def getM_def split: if_splits)
  ultimately show ?thesis by simp
qed

end
