(* ===== verification/Session_Store.thy ===== *)
theory Session_Store
  imports Mailbox_Store
begin

text \<open>
  Sessions, leases and the agent registry, \<open>src/src/core/session-store.ts\<close>: creation, lease refresh,
  pruning, closing, presence, and the two-phase registry writes with their rollback. The identifiers the
  code draws and the instants it reads are parameters. The timer that refreshes a lease is one of the other
  clients; the store keeps whose lease it refreshes.
\<close>

section \<open>Data\<close>

record SessionRecord =
  s_session_id :: string
  s_agent_name :: string
  s_role :: string
  s_description :: "string option"
  s_created_at :: string
  s_last_seen :: string
  s_transport :: "string option"

record LeaseState =
  ls_session_id :: string
  ls_alive :: bool
  ls_ttl_seconds :: int

record AgentPresence =
  p_agent_name :: string
  p_online :: bool
  p_active_sessions :: "string list"

record CreatedSession = SessionRecord +
  cs_written :: string     \<comment> \<open>\<open>registry_write.written\<close>\<close>

record session_world = mailbox_world +
  refreshSessionId :: "string option"

section \<open>Commands\<close>

text \<open>\<open>HSET\<close> with several fields\<close>

definition HSET_fields :: "string \<Rightarrow> (string \<times> string) list \<Rightarrow> (db, unit) comp" where
  "HSET_fields k fs = on_type THash k (modifyM (\<lambda>d. put_hash k (foldl (\<lambda>h (f, v). AList.update f v h) (hash_at d k) fs) d))"

text \<open>
  A transaction: every command runs, and one that fails leaves its error in the reply, which the callers
  do not read.
\<close>

primrec MULTI :: "(db, unit) comp list \<Rightarrow> (db, unit) comp" where
  "MULTI [] = ret ()"
| "MULTI (c # cs) = thenM (catchM c (\<lambda>_. ret ())) (MULTI cs)"

primrec mapM :: "('a \<Rightarrow> ('s, 'b) comp) \<Rightarrow> 'a list \<Rightarrow> ('s, 'b list) comp" where
  "mapM f [] = ret []"
| "mapM f (x # xs) = bindM (f x) (\<lambda>y. bindM (mapM f xs) (\<lambda>ys. ret (y # ys)))"

section \<open>The scripts\<close>

definition refresh_lease :: "string \<Rightarrow> int \<Rightarrow> string \<Rightarrow> (db, bool) comp" where
  "refresh_lease sid ttl now =
     bindM (HGET (session_key sid) ''agent_name'') (\<lambda>agent.
     case agent of
       None \<Rightarrow> ret False
     | Some a \<Rightarrow>
         if a = [] then ret False
         else thenM (SET (lease_key sid) ''alive'' (Ex ttl))
             (thenM (HSET (session_key sid) ''last_seen'' now)
             (thenM (SADD (agentSessions_key a) sid) (ret True))))"

definition prune_one :: "string \<Rightarrow> nat \<Rightarrow> string \<Rightarrow> (db, nat) comp" where
  "prune_one setKey pruned sid =
     bindM (EXISTS (lease_key sid)) (\<lambda>alive.
     if alive then ret pruned
     else thenM (SREM setKey sid) (thenM (DEL (session_key sid)) (ret (pruned + 1))))"

definition prune_expired :: "string \<Rightarrow> (db, nat) comp" where
  "prune_expired setKey = bindM (SMEMBERS setKey) (\<lambda>sids. foldM (prune_one setKey) 0 sids)"

definition write_provisional_registry :: "string \<Rightarrow> string \<Rightarrow> (db, unit) comp" where
  "write_provisional_registry name value =
     bindM (HGET registry_key name) (\<lambda>prev.
     bindM (HGET registryPending_key name) (\<lambda>pend.
     bindM (HGET registryRestore_key name) (\<lambda>carried.
     let restore = (if prev \<noteq> None \<and> prev = pend then carried else prev) in
     thenM (HSET registry_key name value)
    (thenM (HSET registryPending_key name value)
     (case restore of Some r \<Rightarrow> HSET registryRestore_key name r | None \<Rightarrow> HDEL registryRestore_key name)))))"

definition undo_registry_write :: "string \<Rightarrow> string \<Rightarrow> (db, bool) comp" where
  "undo_registry_write name v =
     bindM (HGET registry_key name) (\<lambda>cur.
     if cur \<noteq> Some v
     then bindM (HGET registryPending_key name) (\<lambda>pend.
          thenM (if pend = Some v then HDEL registryPending_key name else ret ()) (ret False))
     else bindM (HGET registryRestore_key name) (\<lambda>restore.
          thenM (case restore of Some r \<Rightarrow> HSET registry_key name r | None \<Rightarrow> HDEL registry_key name)
         (thenM (HDEL registryPending_key name)
         (thenM (HDEL registryRestore_key name) (ret True)))))"

definition publish_registration :: "string \<Rightarrow> string \<Rightarrow> (db, unit) comp" where
  "publish_registration name value =
     thenM (HSET registry_key name value) (thenM (HDEL registryPending_key name) (HDEL registryRestore_key name))"

section \<open>The store\<close>

definition provisional_json :: "string \<Rightarrow> string \<Rightarrow> string option \<Rightarrow> string \<Rightarrow> json" where
  "provisional_json name role description now =
     obj ([(''name'', JStr name), (''role'', JStr role)] @ opt_member ''description'' (map_option JStr description) @ [(''registered_at'', JStr now)])"

definition pruneExpiredSessions :: "string \<Rightarrow> ('z world_scheme, nat) comp" where
  "pruneExpiredSessions agentName = atomic (prune_expired (agentSessions_key agentName))"

text \<open>Record, lease and set membership land together.\<close>

definition session_create :: "SessionRecord \<Rightarrow> (db, unit) comp" where
  "session_create r = MULTI
     [HSET_fields (session_key (s_session_id r))
        [(''session_id'', s_session_id r), (''agent_name'', s_agent_name r), (''role'', s_role r),
         (''description'', case s_description r of None \<Rightarrow> [] | Some t \<Rightarrow> t), (''created_at'', s_created_at r), (''last_seen'', s_last_seen r),
         (''transport'', case s_transport r of None \<Rightarrow> [] | Some t \<Rightarrow> t)],
      SET (lease_key (s_session_id r)) ''alive'' (Ex LEASE_TTL_SECONDS),
      SADD (agentSessions_key (s_agent_name r)) (s_session_id r)]"

definition session_drop :: "string \<Rightarrow> string \<Rightarrow> (db, unit) comp" where
  "session_drop agentName sid = MULTI
     [thenM (DEL (session_key sid)) (DEL (lease_key sid)), SREM (agentSessions_key agentName) sid]"

definition new_session :: "string \<Rightarrow> string \<Rightarrow> string \<Rightarrow> string \<Rightarrow> string option \<Rightarrow> string option \<Rightarrow> SessionRecord" where
  "new_session uuid now agentName role description transport =
     \<lparr>s_session_id = uuid, s_agent_name = agentName, s_role = role, s_description = description, s_created_at = now, s_last_seen = now,
      s_transport = transport\<rparr>"

definition created_of :: "SessionRecord \<Rightarrow> string \<Rightarrow> CreatedSession" where
  "created_of r written = \<lparr>s_session_id = s_session_id r, s_agent_name = s_agent_name r, s_role = s_role r, s_description = s_description r,
     s_created_at = s_created_at r, s_last_seen = s_last_seen r, s_transport = s_transport r, cs_written = written\<rparr>"

definition createSession :: "runtime \<Rightarrow> string \<Rightarrow> string \<Rightarrow> string \<Rightarrow> string \<Rightarrow> string option \<Rightarrow> string option \<Rightarrow> ('z world_scheme, CreatedSession) comp" where
  "createSession E uuid now agentName role description transport =
     thenM (pruneExpiredSessions agentName)
    (let record = new_session uuid now agentName role description transport;
         written = JSON_stringify E (provisional_json agentName role description now) in
     thenM (atomic (session_create record))
    (thenM (catchM (atomic (write_provisional_registry agentName written))
              (\<lambda>e. thenM (catchM (atomic (session_drop agentName uuid)) (\<lambda>_. ret ())) (throw e)))
     (ret (created_of record written))))"

definition publishRegistration :: "string \<Rightarrow> string \<Rightarrow> ('z world_scheme, unit) comp" where
  "publishRegistration agentName value = atomic (publish_registration agentName value)"

definition undoRegistryWrite :: "string \<Rightarrow> string \<Rightarrow> ('z world_scheme, bool) comp" where
  "undoRegistryWrite agentName written = atomic (undo_registry_write agentName written)"

definition refreshLease :: "string \<Rightarrow> string \<Rightarrow> ('z world_scheme, bool) comp" where
  "refreshLease now sid = atomic (refresh_lease sid LEASE_TTL_SECONDS now)"

definition stopLeaseRefresh :: "('z session_world_scheme, unit) comp" where
  "stopLeaseRefresh = modifyM (\<lambda>w. w\<lparr>refreshSessionId := None\<rparr>)"

definition startLeaseRefresh :: "string \<Rightarrow> string \<Rightarrow> ('z session_world_scheme, unit) comp" where
  "startLeaseRefresh now sid =
     thenM stopLeaseRefresh
    (thenM (modifyM (\<lambda>w. w\<lparr>refreshSessionId := Some sid\<rparr>))
    (thenM (catchM (refreshLease now sid) (\<lambda>_. ret False)) (ret ())))"

definition closeSession :: "string \<Rightarrow> ('z session_world_scheme, string option) comp" where
  "closeSession sid =
     bindM (getM refreshSessionId) (\<lambda>refreshing.
     thenM (if refreshing = Some sid then stopLeaseRefresh else ret ())
    (bindM (atomic (HGET (session_key sid) ''agent_name'')) (\<lambda>agentName.
     case agentName of
       Some (c # cs) \<Rightarrow>
         thenM (atomic (thenM (DEL (session_key sid)) (DEL (lease_key sid))))
        (thenM (atomic (SREM (agentSessions_key (c # cs)) sid))
         (ret (Some (c # cs))))
     | _ \<Rightarrow> ret None)))"

text \<open>A field that is absent or empty is no description and no transport.\<close>

definition nonempty :: "string option \<Rightarrow> string option" where
  "nonempty v = (case v of Some (c # cs) \<Rightarrow> Some (c # cs) | _ \<Rightarrow> None)"

definition session_of :: "(string \<times> string) list \<Rightarrow> SessionRecord option" where
  "session_of data =
     (let field = (\<lambda>f dflt. case map_of data f of None \<Rightarrow> dflt | Some v \<Rightarrow> v) in
      case nonempty (map_of data ''session_id'') of
        None \<Rightarrow> None
      | Some sid \<Rightarrow> Some \<lparr>s_session_id = sid, s_agent_name = field ''agent_name'' [], s_role = field ''role'' ''both'',
          s_description = nonempty (map_of data ''description''), s_created_at = field ''created_at'' [], s_last_seen = field ''last_seen'' [],
          s_transport = nonempty (map_of data ''transport'')\<rparr>)"

definition getSession :: "string \<Rightarrow> ('z world_scheme, SessionRecord option) comp" where
  "getSession sid = bindM (atomic (HGETALL (session_key sid))) (\<lambda>data. ret (session_of data))"

definition resolveRegistered :: "string \<Rightarrow> ('z world_scheme, bool) comp" where
  "resolveRegistered name = atomic (HEXISTS registry_key name)"

definition getLeaseState :: "string \<Rightarrow> ('z world_scheme, LeaseState) comp" where
  "getLeaseState sid =
     bindM (atomic (TTL (lease_key sid))) (\<lambda>ttl.
     ret \<lparr>ls_session_id = sid, ls_alive = (0 < ttl), ls_ttl_seconds = max ttl 0\<rparr>)"

text \<open>The running offset into the flattened list of times to live.\<close>

fun presences :: "int list \<Rightarrow> nat \<Rightarrow> (string \<times> string list) list \<Rightarrow> AgentPresence list" where
  "presences ttls offset [] = []"
| "presences ttls offset ((agentName, sids) # rest) =
     (let active = map fst (filter (\<lambda>(_, j). 0 < ttls ! (offset + j)) (zip sids [0..<length sids])) in
      \<lparr>p_agent_name = agentName, p_online = (active \<noteq> []), p_active_sessions = active\<rparr> # presences ttls (offset + length sids) rest)"

definition getPresenceMany :: "string list \<Rightarrow> ('z world_scheme, AgentPresence list) comp" where
  "getPresenceMany names =
     (if names = [] then ret []
      else bindM (mapM (\<lambda>name. atomic (SMEMBERS (agentSessions_key name))) names) (\<lambda>members.
           bindM (mapM (\<lambda>sid. atomic (TTL (lease_key sid))) (concat members)) (\<lambda>ttls.
           ret (presences ttls 0 (zip names members)))))"

definition getPresence :: "string \<Rightarrow> ('z world_scheme, AgentPresence) comp" where
  "getPresence agentName = bindM (getPresenceMany [agentName]) (\<lambda>ps. ret (hd ps))"

end
