(* ===== verification/Node_Path.thy ===== *)
theory Node_Path
  imports Prelude "HOL-Library.Sublist"
begin

text \<open>
  The functions of Node's \<open>path\<close> module that the program uses, on POSIX paths: \<open>isAbsolute\<close>,
  \<open>basename\<close>, \<open>resolve\<close> and \<open>join\<close>. A path is a string; its segments are what the slashes separate.
\<close>

section \<open>Segments\<close>

abbreviation slash :: char where
  "slash \<equiv> CHR ''/''"

text \<open>\<open>s.split("/")\<close>\<close>

fun split_path :: "string \<Rightarrow> string list" where
  "split_path [] = [[]]"
| "split_path (c # cs) =
     (case split_path cs of
        [] \<Rightarrow> [[c]]
      | x # xs \<Rightarrow> if c = slash then [] # x # xs else (c # x) # xs)"

definition is_absolute :: "string \<Rightarrow> bool" where
  "is_absolute p \<longleftrightarrow> starts_with ''/'' p"

text \<open>\<open>basename\<close>: the last segment, trailing slashes ignored.\<close>

definition path_basename :: "string \<Rightarrow> string" where
  "path_basename p = (case rev (filter (\<lambda>x. x \<noteq> []) (split_path p)) of [] \<Rightarrow> [] | x # _ \<Rightarrow> x)"

text \<open>
  \<open>normalizeString\<close>: drops empty and dot segments and lets a dot-dot segment remove the one before it. At
  the front of a path, a dot-dot is kept in a relative path and dropped in an absolute one.
\<close>

definition norm_step :: "bool \<Rightarrow> string list \<Rightarrow> string \<Rightarrow> string list" where
  "norm_step allowAboveRoot acc seg =
     (if seg = [] \<or> seg = ''.'' then acc
      else if seg = ''..''
      then (if acc \<noteq> [] \<and> last acc \<noteq> ''..'' then butlast acc else if allowAboveRoot then acc @ [seg] else acc)
      else acc @ [seg])"

definition norm_segments :: "bool \<Rightarrow> string \<Rightarrow> string list" where
  "norm_segments allowAboveRoot p = foldl (norm_step allowAboveRoot) [] (split_path p)"

primrec join_slash :: "string list \<Rightarrow> string" where
  "join_slash [] = []"
| "join_slash (x # xs) = (if xs = [] then x else x @ [slash] @ join_slash xs)"

definition absolute_text :: "string list \<Rightarrow> string" where
  "absolute_text xs = slash # join_slash xs"

text \<open>\<open>resolve(p)\<close> in the working directory \<open>cwd\<close>.\<close>

definition resolve_segments :: "string \<Rightarrow> string \<Rightarrow> string list" where
  "resolve_segments cwd p = norm_segments False (if is_absolute p then p else cwd @ [slash] @ p)"

definition path_resolve :: "string \<Rightarrow> string \<Rightarrow> string" where
  "path_resolve cwd p = absolute_text (resolve_segments cwd p)"

text \<open>\<open>normalize\<close> and \<open>join\<close>\<close>

definition path_normalize :: "string \<Rightarrow> string" where
  "path_normalize p =
     (let trailing = (p \<noteq> [] \<and> last p = slash); segs = norm_segments (\<not> is_absolute p) p; body = join_slash segs in
      if segs = [] then (if is_absolute p then ''/'' else if trailing then ''./'' else ''.'')
      else (if is_absolute p then [slash] else []) @ body @ (if trailing then [slash] else []))"

definition path_join :: "string list \<Rightarrow> string" where
  "path_join parts = path_normalize (join_slash (filter (\<lambda>x. x \<noteq> []) parts))"

section \<open>Normal segments\<close>

definition normal_segments :: "string list \<Rightarrow> bool" where
  "normal_segments xs \<longleftrightarrow> list_all (\<lambda>x. x \<noteq> [] \<and> slash \<notin> set x \<and> x \<noteq> ''.'' \<and> x \<noteq> ''..'') xs"

lemma split_path_not_Nil [simp]: "split_path p \<noteq> []"
  by (induction p) (auto split: list.splits)

lemma split_path_no_slash: "x \<in> set (split_path p) \<Longrightarrow> slash \<notin> set x"
  by (induction p arbitrary: x) (auto split: list.splits if_splits)

lemma norm_step_normal: "normal_segments acc \<Longrightarrow> slash \<notin> set seg \<Longrightarrow> normal_segments (norm_step False acc seg)"
  by (auto simp: norm_step_def normal_segments_def list_all_iff dest: in_set_butlastD)

lemma foldl_norm_normal: "normal_segments acc \<Longrightarrow> \<forall>x \<in> set xs. slash \<notin> set x \<Longrightarrow> normal_segments (foldl (norm_step False) acc xs)"
  by (induction xs arbitrary: acc) (auto simp: norm_step_normal)

lemma norm_segments_normal: "normal_segments (norm_segments False p)"
  unfolding norm_segments_def by (rule foldl_norm_normal) (auto simp: normal_segments_def dest: split_path_no_slash)

lemma resolve_segments_normal: "normal_segments (resolve_segments cwd p)"
  by (simp add: resolve_segments_def norm_segments_normal)

lemma split_no_slash: "slash \<notin> set x \<Longrightarrow> split_path x = [x]"
  by (induction x) (auto split: list.splits)

lemma split_append: "slash \<notin> set x \<Longrightarrow> split_path (x @ slash # p) = x # split_path p"
  by (induction x) (auto split: list.splits)

lemma split_join: "normal_segments xs \<Longrightarrow> xs \<noteq> [] \<Longrightarrow> split_path (join_slash xs) = xs"
  by (induction xs) (auto simp: normal_segments_def split_no_slash split_append)

lemma foldl_norm_id: "normal_segments xs \<Longrightarrow> foldl (norm_step False) acc xs = acc @ xs"
  by (induction xs arbitrary: acc) (auto simp: normal_segments_def norm_step_def)

text \<open>Resolving a resolved path changes nothing.\<close>

lemma norm_absolute_text: "normal_segments xs \<Longrightarrow> norm_segments False (absolute_text xs) = xs"
proof (cases "xs = []")
  case True
  then show ?thesis by (simp add: norm_segments_def absolute_text_def norm_step_def)
next
  case False
  assume n: "normal_segments xs"
  have "split_path (absolute_text xs) = [] # xs"
    using split_append[of "[]" "join_slash xs"] split_join[OF n False] by (simp add: absolute_text_def)
  then show ?thesis using foldl_norm_id[OF n] by (simp add: norm_segments_def norm_step_def)
qed

lemma absolute_text_inj: "normal_segments xs \<Longrightarrow> normal_segments ys \<Longrightarrow> absolute_text xs = absolute_text ys \<longleftrightarrow> xs = ys"
  using norm_absolute_text by metis

lemma is_absolute_text [simp]: "is_absolute (absolute_text xs)"
  by (simp add: is_absolute_def absolute_text_def starts_with_def)

lemma path_resolve_idem: "path_resolve cwd (path_resolve cwd' p) = path_resolve cwd' p"
  by (simp add: path_resolve_def resolve_segments_def norm_absolute_text norm_segments_normal)

section \<open>Prefixes of paths\<close>

text \<open>
  For normal segments, a textual prefix that ends at a slash is a prefix of segments: the path
  \<open>/work-other\<close> does not lie below \<open>/work\<close>.
\<close>

lemma join_slash_Cons: "xs \<noteq> [] \<Longrightarrow> join_slash (x # xs) = x @ [slash] @ join_slash xs"
  by simp

lemma append_slash_eq:
  assumes "slash \<notin> set x" and "slash \<notin> set y" and "x @ slash # u = y @ v" and "v = [] \<or> hd v = slash"
  shows "x = y \<and> v = slash # u"
proof -
  have "v \<noteq> []" using assms by (metis append.right_neutral in_set_conv_decomp)
  with assms(4) obtain v' where v: "v = slash # v'" by (cases v) auto
  have "takeWhile (\<lambda>c. c \<noteq> slash) (x @ slash # u) = x" "takeWhile (\<lambda>c. c \<noteq> slash) (y @ slash # v') = y"
    using assms(1,2) by (auto simp: takeWhile_append2 takeWhile_tail)
  with assms(3) v show ?thesis by auto
qed

lemma join_prefix:
  "normal_segments xs \<Longrightarrow> normal_segments ys \<Longrightarrow> xs \<noteq> [] \<Longrightarrow> ys \<noteq> [] \<Longrightarrow>
    (\<exists>t. join_slash ys = join_slash xs @ slash # t) \<longleftrightarrow> strict_prefix xs ys"
proof (induction xs arbitrary: ys)
  case Nil
  then show ?case by simp
next
  case (Cons x xs)
  obtain y ys' where ys: "ys = y # ys'" using Cons.prems(4) by (cases ys) auto
  have nx: "slash \<notin> set x" "x \<noteq> []" and ny: "slash \<notin> set y" "y \<noteq> []"
    using Cons.prems by (auto simp: normal_segments_def ys)
  have jy: "join_slash ys = y @ (if ys' = [] then [] else slash # join_slash ys')" by (simp add: ys)
  show ?case
  proof (cases "xs = []")
    case True
    have "(\<exists>t. join_slash ys = x @ slash # t) \<longleftrightarrow> x = y \<and> ys' \<noteq> []"
      using append_slash_eq[OF nx(1) ny(1), of _ "if ys' = [] then [] else slash # join_slash ys'"] unfolding jy
      by (auto split: if_splits)
    with True show ?thesis by (auto simp: ys strict_prefix_def)
  next
    case False
    have "(\<exists>t. join_slash ys = x @ slash # join_slash xs @ slash # t) \<longleftrightarrow>
        x = y \<and> ys' \<noteq> [] \<and> (\<exists>t. join_slash ys' = join_slash xs @ slash # t)"
      using append_slash_eq[OF nx(1) ny(1), of _ "if ys' = [] then [] else slash # join_slash ys'"] unfolding jy
      by (fastforce split: if_splits)
    also have "\<dots> \<longleftrightarrow> x = y \<and> ys' \<noteq> [] \<and> strict_prefix xs ys'"
      using Cons.IH[of ys'] Cons.prems False by (auto simp: normal_segments_def ys)
    finally show ?thesis using False by (auto simp: ys strict_prefix_def)
  qed
qed

lemma absolute_below:
  assumes "normal_segments xs" and "normal_segments ys" and "xs \<noteq> []"
  shows "absolute_text ys = absolute_text xs \<or> starts_with (absolute_text xs @ [slash]) (absolute_text ys) \<longleftrightarrow> prefix xs ys"
proof (cases "ys = []")
  case True
  with assms show ?thesis
    by (cases xs) (auto simp: absolute_text_def starts_with_def normal_segments_def)
next
  case False
  have "starts_with (absolute_text xs @ [slash]) (absolute_text ys) \<longleftrightarrow> strict_prefix xs ys"
    using join_prefix[OF assms(1-3) False] by (simp add: starts_with_iff absolute_text_def)
  with absolute_text_inj[OF assms(2,1)] show ?thesis by (auto simp: strict_prefix_def)
qed

end
