(* ===== verification/Continuity.thy ===== *)
theory Continuity
  imports Session_Store Node_Path
begin

text \<open>
  Taking over a mailbox. \<open>src/src/core/occupancy-guard.ts\<close> generates one guard that tells whether anything
  still uses an agent name; the operator path \<open>src/src/core/mailbox-continuity.ts\<close> and the runtime path
  \<open>adoptIdentity\<close> of \<open>src/src/mcp-server/redis-client.ts\<close> run it inside their scripts. The bindings of
  \<open>src/src/core/runtime-binding.ts\<close> are validated records. The identity of the connected Redis
  instance, which the code hashes from the connection options, is the parameter \<open>ns\<close>; \<open>cwd\<close> is the
  directory relative paths are resolved against.
\<close>

section \<open>The occupancy guard\<close>

primrec any_lease :: "string list \<Rightarrow> (db, bool) comp" where
  "any_lease [] = ret False"
| "any_lease (sid # sids) = bindM (EXISTS (lease_key sid)) (\<lambda>live. if live then ret True else any_lease sids)"

text \<open>The five signals, in the order of the table.\<close>

definition occupied :: "string \<Rightarrow> string \<Rightarrow> (db, bool) comp" where
  "occupied agent wrapper =
     bindM (EXISTS (runtimeBinding_key agent)) (\<lambda>bound.
     if bound then ret True
     else bindM (EXISTS (heartbeat_key agent)) (\<lambda>beating.
     if beating then ret True
     else bindM (EXISTS wrapper) (\<lambda>wrapped.
     if wrapped then ret True
     else bindM (SMEMBERS (agentSessions_key agent)) (\<lambda>sids.
          bindM (any_lease sids) (\<lambda>leased.
     if leased then ret True
     else bindM (ZCARD (claimsIndex_key agent)) (\<lambda>n. ret (0 < n)))))))"

section \<open>Lua tables\<close>

text \<open>
  Reading a member: a table gives the member or \<open>nil\<close>, a string gives \<open>nil\<close> for the names used here, and
  any other value raises an error. Writing a member needs a table; a list that gets one becomes an object
  with its positions as keys. The JSON null is a value, not \<open>nil\<close>.
\<close>

fun lua_index :: "json \<Rightarrow> string \<Rightarrow> ('s, json option) comp" where
  "lua_index (JObj m) k = ret (fmlookup m k)"
| "lua_index (JArr _) k = ret None"
| "lua_index (JStr _) k = ret None"
| "lua_index _ k = throw (ErrorReply ''attempt to index a value'')"

fun lua_assign :: "json \<Rightarrow> string \<Rightarrow> json option \<Rightarrow> ('s, json) comp" where
  "lua_assign (JObj m) k v = ret (JObj (case v of None \<Rightarrow> fmdrop k m | Some j \<Rightarrow> fmupd k j m))"
| "lua_assign (JArr xs) k v =
     ret (case v of None \<Rightarrow> JArr xs | Some j \<Rightarrow> obj ((k, j) # zip (map (\<lambda>i. show_nat (Suc i)) [0..<length xs]) xs))"
| "lua_assign _ k v = throw (ErrorReply ''attempt to index a value'')"

fun lua_true :: "json option \<Rightarrow> bool" where
  "lua_true None = False"
| "lua_true (Some (JBool False)) = False"
| "lua_true _ = True"

definition lua_decode :: "runtime \<Rightarrow> string \<Rightarrow> ('s, json) comp" where
  "lua_decode E s = (case cjson_decode E s of Some j \<Rightarrow> ret j | None \<Rightarrow> throw (ErrorReply ''invalid JSON''))"

section \<open>The runtime path\<close>

text \<open>The target's registration with the process and the protocol of the source.\<close>

definition adopted_registration :: "json \<Rightarrow> json \<Rightarrow> ('s, json) comp" where
  "adopted_registration sourceReg targetReg =
     bindM (lua_index sourceReg ''pid'') (\<lambda>pid.
     bindM (lua_assign targetReg ''pid'' pid) (\<lambda>reg.
     bindM (lua_index reg ''metadata'') (\<lambda>m.
     let metadata = (if lua_true m then the m else JObj fmempty) in
     bindM (lua_assign reg ''metadata'' (Some metadata)) (\<lambda>reg.
     bindM (lua_index sourceReg ''metadata'') (\<lambda>sm.
     if \<not> lua_true sm then ret reg
     else bindM (lua_index (the sm) ''protocol_version'') (\<lambda>pv.
          bindM (lua_assign metadata ''protocol_version'' pv) (\<lambda>md.
          bindM (lua_index (the sm) ''tool_names'') (\<lambda>tn.
          bindM (lua_assign md ''tool_names'' tn) (\<lambda>md.
          lua_assign reg ''metadata'' (Some md))))))))))"

definition adoption_writes :: "string \<Rightarrow> string \<Rightarrow> string \<Rightarrow> string \<Rightarrow> string \<Rightarrow> (db, unit) comp" where
  "adoption_writes source target sid value runtimeId =
     thenM (HSET (session_key sid) ''agent_name'' target)
    (thenM (SREM (agentSessions_key source) sid)
    (thenM (SADD (agentSessions_key target) sid)
    (thenM (HSET registry_key target value)
    (thenM (HDEL registryPending_key target)
    (thenM (HDEL registryRestore_key target)
    (thenM (HDEL registry_key source)
    (thenM (DEL (heartbeat_key source))
     (XADD continuityAudit_key
       [(''event'', ''runtime_continuity''), (''target'', target), (''source'', source), (''runtime_id'', runtimeId), (''session_id'', sid)]))))))))"

text \<open>The source is quiet: no message, no claim, no outbound activity and no wrapper.\<close>

definition source_active :: "runtime \<Rightarrow> string \<Rightarrow> (db, bool) comp" where
  "source_active E source =
     bindM (LLEN (queue_key source)) (\<lambda>n.
     if 0 < n then ret True
     else bindM (ZCARD (claimsIndex_key source)) (\<lambda>c.
     if 0 < c then ret True
     else bindM (EXISTS (outboundActivity_key source)) (\<lambda>a. if a then ret True else EXISTS (wrapperClaim_key E source))))"

definition owns_session :: "string \<Rightarrow> string \<Rightarrow> (db, bool) comp" where
  "owns_session source sid =
     bindM (HGET (session_key sid) ''agent_name'') (\<lambda>owner.
     if owner \<noteq> Some source then ret False else EXISTS (lease_key sid))"

definition sole_session :: "string \<Rightarrow> string \<Rightarrow> (db, bool) comp" where
  "sole_session source sid =
     bindM (SCARD (agentSessions_key source)) (\<lambda>n.
     if n \<noteq> 1 then ret False else SISMEMBER (agentSessions_key source) sid)"

text \<open>The checks in their order, with the code of the first that fails, and the registration to write.\<close>

definition adoption_guard :: "runtime \<Rightarrow> string \<Rightarrow> string \<Rightarrow> string \<Rightarrow> string \<Rightarrow> string \<Rightarrow> (db, int + json) comp" where
  "adoption_guard E mappingKey source target sid expectedMapping =
     bindM (GET mappingKey) (\<lambda>mapping.
     if mapping \<noteq> Some expectedMapping then ret (Inl (- 1))
     else bindM (HGET registry_key source) (\<lambda>sourceRaw.
          bindM (HGET registry_key target) (\<lambda>targetRaw.
     if sourceRaw = None \<or> targetRaw = None then ret (Inl (- 2))
     else bindM (lua_decode E (the sourceRaw)) (\<lambda>sourceReg.
          bindM (lua_decode E (the targetRaw)) (\<lambda>targetReg.
          bindM (owns_session source sid) (\<lambda>owned.
     if \<not> owned then ret (Inl (- 3))
     else bindM (sole_session source sid) (\<lambda>sole.
     if \<not> sole then ret (Inl (- 4))
     else bindM (occupied target (wrapperClaim_key E target)) (\<lambda>busy.
     if busy then ret (Inl (- 5))
     else bindM (source_active E source) (\<lambda>active.
     if active then ret (Inl (- 6))
     else bindM (adopted_registration sourceReg targetReg) (\<lambda>reg. ret (Inr reg)))))))))))"

definition adopt_script :: "runtime \<Rightarrow> string \<Rightarrow> string \<Rightarrow> string \<Rightarrow> string \<Rightarrow> string \<Rightarrow> string \<Rightarrow> (db, int) comp" where
  "adopt_script E mappingKey source target sid expectedMapping runtimeId =
     bindM (adoption_guard E mappingKey source target sid expectedMapping) (\<lambda>checked.
     case checked of
       Inl refusal \<Rightarrow> ret refusal
     | Inr reg \<Rightarrow> thenM (adoption_writes source target sid (cjson_encode E reg) runtimeId) (ret 1))"

section \<open>The operator path\<close>

datatype RuntimeClient = Codex | Pi

fun client_text :: "RuntimeClient \<Rightarrow> string" where
  "client_text Codex = ''codex''"
| "client_text Pi = ''pi''"

record RuntimeBinding =
  rb_client :: RuntimeClient
  rb_runtime_id :: string
  rb_epoch :: string
  rb_working_directory :: string

definition runtimeBindingSchema :: "RuntimeBinding \<Rightarrow> bool" where
  "runtimeBindingSchema b \<longleftrightarrow> rb_runtime_id b \<noteq> [] \<and> length (rb_runtime_id b) \<le> 200
     \<and> rb_epoch b \<noteq> [] \<and> length (rb_epoch b) \<le> 200 \<and> is_absolute (rb_working_directory b)"

record ContinuityPlan =
  cp_binding :: RuntimeBinding
  cp_source :: "string option"
  cp_target :: string
  cp_mappingKey :: string
  cp_expectedMapping :: "string option"
  cp_namespace :: string
  cp_sourceFingerprint :: string
  cp_targetFingerprint :: string
  cp_legacy_adoption :: bool

definition continuityPlanSchema :: "ContinuityPlan \<Rightarrow> bool" where
  "continuityPlanSchema p \<longleftrightarrow> runtimeBindingSchema (cp_binding p) \<and> cp_source p \<noteq> Some [] \<and> cp_target p \<noteq> []
     \<and> length (cp_target p) \<le> 500 \<and> cp_mappingKey p \<noteq> []"

definition sameDirectory :: "string \<Rightarrow> string \<Rightarrow> string \<Rightarrow> bool" where
  "sameDirectory cwd a b \<longleftrightarrow> path_resolve cwd a = path_resolve cwd b"

definition runtimeMailboxKey :: "runtime \<Rightarrow> RuntimeBinding \<Rightarrow> string" where
  "runtimeMailboxKey E b = runtimeMailbox_key E (client_text (rb_client b)) (rb_runtime_id b)"

definition fingerprint :: "runtime \<Rightarrow> string option \<Rightarrow> string" where
  "fingerprint E raw = sha256_hex E (case raw of None \<Rightarrow> ''<missing>'' | Some s \<Rightarrow> s)"

text \<open>A mapping is an object with exactly the two string members.\<close>

definition parse_mapping :: "runtime \<Rightarrow> string \<Rightarrow> (string \<times> string) option" where
  "parse_mapping E raw =
     (case JSON_parse E raw of
        Some (JObj m) \<Rightarrow>
          (case (str_field (JObj m) ''agent'', str_field (JObj m) ''working_directory'') of
             (Some a, Some wd) \<Rightarrow> if fmdom' m \<subseteq> {''agent'', ''working_directory''} then Some (a, wd) else None
           | _ \<Rightarrow> None)
      | _ \<Rightarrow> None)"

definition mapping_text :: "runtime \<Rightarrow> string \<Rightarrow> string \<Rightarrow> string" where
  "mapping_text E agent wd = JSON_stringify E (obj [(''agent'', JStr agent), (''working_directory'', JStr wd)])"

text \<open>
  A missing or empty stored mapping is falsy. \<open>None\<close> stands for no mapping, which only an explicit legacy
  adoption accepts.
\<close>

definition planned_mapping :: "runtime \<Rightarrow> string option \<Rightarrow> ('s, (string \<times> string) option) comp" where
  "planned_mapping E raw =
     (case nonempty raw of
        None \<Rightarrow> ret None
      | Some text \<Rightarrow> (case parse_mapping E text of Some m \<Rightarrow> ret (Some m) | None \<Rightarrow> throw (JsError ''ZodError'')))"

definition prepareContinuity :: "runtime \<Rightarrow> string \<Rightarrow> string \<Rightarrow> RuntimeBinding \<Rightarrow> string \<Rightarrow> bool \<Rightarrow> ('z world_scheme, ContinuityPlan) comp" where
  "prepareContinuity E cwd ns b target allowLegacy =
     (if \<not> runtimeBindingSchema b then throw (JsError ''ZodError'')
      else let key = runtimeMailboxKey E b in
      bindM (atomic (GET key)) (\<lambda>raw.
      if nonempty raw = None \<and> \<not> allowLegacy then throw (JsError ''Continuity provenance missing'')
      else bindM (planned_mapping E raw) (\<lambda>mapping.
      if (case mapping of Some (a, _) \<Rightarrow> a = [] | None \<Rightarrow> False) then throw (JsError ''ZodError'')
      else if (case mapping of Some (_, wd) \<Rightarrow> \<not> sameDirectory cwd wd (rb_working_directory b) | None \<Rightarrow> False)
      then throw (JsError ''Runtime mailbox mapping does not match binding'')
      else bindM (case mapping of Some (a, _) \<Rightarrow> atomic (HGET registry_key a) | None \<Rightarrow> ret None) (\<lambda>sourceRaw.
           bindM (atomic (HGET registry_key target)) (\<lambda>targetRaw.
      if nonempty targetRaw = None \<or> mapping \<noteq> None \<and> nonempty sourceRaw = None
      then throw (JsError ''Continuity registry metadata unavailable'')
      else let p = \<lparr>cp_binding = b, cp_source = map_option fst mapping, cp_target = target, cp_mappingKey = key, cp_expectedMapping = raw,
             cp_namespace = ns, cp_sourceFingerprint = fingerprint E sourceRaw, cp_targetFingerprint = fingerprint E targetRaw,
             cp_legacy_adoption = (mapping = None)\<rparr> in
           if continuityPlanSchema p then ret p else throw (JsError ''ZodError''))))))"

definition or_empty :: "string option \<Rightarrow> string" where
  "or_empty v = (case v of None \<Rightarrow> [] | Some s \<Rightarrow> s)"

text \<open>The script compares the values it was planned with, and refuses an occupied target or an active source.\<close>

definition apply_script :: "runtime \<Rightarrow> string \<Rightarrow> string \<Rightarrow> string \<Rightarrow> string \<Rightarrow> string \<Rightarrow> string \<Rightarrow> string \<Rightarrow> string \<Rightarrow> (db, int) comp" where
  "apply_script E mappingKey expected target targetRaw source sourceRaw desired runtimeId =
     bindM (GET mappingKey) (\<lambda>mapping.
     if or_empty mapping \<noteq> expected then ret (- 1)
     else bindM (HGET registry_key target) (\<lambda>tr.
     if or_empty tr \<noteq> targetRaw then ret (- 2)
     else bindM (if source = [] then ret None else HGET registry_key source) (\<lambda>sr.
     if source \<noteq> [] \<and> or_empty sr \<noteq> sourceRaw then ret (- 3)
     else bindM (occupied target (wrapperClaim_key E target)) (\<lambda>busy.
     if busy then ret (- 4)
     else bindM (if source = [] \<or> source = target then ret False
                 else bindM (occupied source (wrapperClaim_key E source)) (\<lambda>o1.
                      if o1 then ret True
                      else bindM (LLEN (queue_key source)) (\<lambda>n.
                      if 0 < n then ret True else EXISTS (outboundActivity_key source)))) (\<lambda>active.
     if active then ret (- 5)
     else thenM (SET mappingKey desired NoTtl)
         (thenM (XADD continuityAudit_key
            [(''event'', ''operator_continuity''), (''target'', target), (''source'', source), (''runtime_id'', runtimeId)])
          (ret 1)))))))"

datatype applied = Applied | Idempotent

definition plan_consistent :: "string \<Rightarrow> ContinuityPlan \<Rightarrow> (string \<times> string) option \<Rightarrow> bool" where
  "plan_consistent cwd p planned \<longleftrightarrow> map_option fst planned = cp_source p
     \<and> (case planned of Some (_, wd) \<Rightarrow> sameDirectory cwd wd (rb_working_directory (cp_binding p)) | None \<Rightarrow> True)
     \<and> (planned = None) = cp_legacy_adoption p"

definition applyContinuity :: "runtime \<Rightarrow> string \<Rightarrow> string \<Rightarrow> ContinuityPlan \<Rightarrow> ('z world_scheme, applied) comp" where
  "applyContinuity E cwd ns p =
     (if \<not> continuityPlanSchema p then throw (JsError ''ZodError'')
      else if cp_mappingKey p \<noteq> runtimeMailboxKey E (cp_binding p) \<or> cp_namespace p \<noteq> ns
      then throw (JsError ''Continuity namespace or mapping mismatch'')
      else bindM (planned_mapping E (cp_expectedMapping p)) (\<lambda>planned.
      if \<not> plan_consistent cwd p planned then throw (JsError ''Inconsistent continuity plan'')
      else let desired = mapping_text E (cp_target p) (rb_working_directory (cp_binding p)) in
      bindM (atomic (GET (cp_mappingKey p))) (\<lambda>current.
      bindM (case cp_source p of Some s \<Rightarrow> atomic (HGET registry_key s) | None \<Rightarrow> ret None) (\<lambda>sourceRaw.
      bindM (atomic (HGET registry_key (cp_target p))) (\<lambda>targetRaw.
      if current = Some desired \<and> nonempty targetRaw \<noteq> None \<and> fingerprint E targetRaw = cp_targetFingerprint p then ret Idempotent
      else if current \<noteq> cp_expectedMapping p \<or> fingerprint E sourceRaw \<noteq> cp_sourceFingerprint p
        \<or> nonempty targetRaw = None \<or> fingerprint E targetRaw \<noteq> cp_targetFingerprint p
      then throw (JsError ''Continuity fingerprints or mapping changed'')
      else if (cp_source p = None) \<noteq> cp_legacy_adoption p then throw (JsError ''Invalid legacy adoption plan'')
      else bindM (atomic (apply_script E (cp_mappingKey p) (or_empty (cp_expectedMapping p)) (cp_target p) (or_empty targetRaw)
             (or_empty (cp_source p)) (or_empty sourceRaw) desired (rb_runtime_id (cp_binding p)))) (\<lambda>result.
           if result = 1 then ret Applied else throw (JsError ''Continuity apply refused'')))))))"

end
