(* ===== verification/Agent_Discovery.thy ===== *)
theory Agent_Discovery
  imports Keys
begin

text \<open>
  The public view of a registration, \<open>src/src/core/agent-discovery.ts\<close>. Registry values are JSON that any
  version of the program may have written, so every member is admitted on its own: one that does not have
  the promised form is read as absent.
\<close>

record AgentDiscoveryMetadata =
  dm_label :: string
  dm_uuid :: "string option"
  dm_client :: "string option"
  dm_working_directory :: "string option"

record AgentDiscoveryRecord = AgentDiscoveryMetadata +
  di_name :: string
  di_role :: string
  di_description :: "string option"
  di_online :: bool
  di_registered_at :: "string option"
  di_pid :: "int option"

fun nonblank :: "json option \<Rightarrow> string option" where
  "nonblank (Some (JStr s)) = (if trim s = [] then None else Some (trim s))"
| "nonblank _ = None"

text \<open>The pattern of a UUID, letter case ignored.\<close>

definition hex_char :: "char \<Rightarrow> bool" where
  "hex_char c \<longleftrightarrow> c \<in> set ''0123456789abcdefABCDEF''"

definition uuid_text :: "string \<Rightarrow> bool" where
  "uuid_text s \<longleftrightarrow> length s = 36 \<and>
     (\<forall>i < 36. if i \<in> {8, 13, 18, 23} then s ! i = CHR ''-''
               else if i = 14 then s ! i \<in> set ''12345''
               else if i = 19 then s ! i \<in> set ''89abAB''
               else hex_char (s ! i))"

fun uuid_of :: "json option \<Rightarrow> string option" where
  "uuid_of (Some (JStr s)) = (if uuid_text s then Some s else None)"
| "uuid_of _ = None"

fun client_of :: "json option \<Rightarrow> string option" where
  "client_of (Some (JStr s)) = (if s \<in> {''codex'', ''pi'', ''opencode''} then Some s else None)"
| "client_of _ = None"

fun directory_of :: "json option \<Rightarrow> string option" where
  "directory_of (Some (JStr s)) = (if starts_with ''/'' s then Some s else None)"
| "directory_of _ = None"

definition discoveryMetadata :: "string \<Rightarrow> json option \<Rightarrow> AgentDiscoveryMetadata" where
  "discoveryMetadata name metadata =
     (let value = (\<lambda>k. case metadata of Some (JObj m) \<Rightarrow> fmlookup m k | _ \<Rightarrow> None) in
      \<lparr>dm_label = (case nonblank (value ''label'') of None \<Rightarrow> name | Some l \<Rightarrow> l), dm_uuid = uuid_of (value ''uuid''),
       dm_client = client_of (value ''client''), dm_working_directory = directory_of (value ''working_directory'')\<rparr>)"

text \<open>\<open>Number.MAX_SAFE_INTEGER\<close>\<close>

definition max_safe_integer :: int where
  "max_safe_integer = 2 ^ 53 - 1"

definition discoveryRecord ::
  "runtime \<Rightarrow> string \<Rightarrow> string \<Rightarrow> string option \<Rightarrow> bool \<Rightarrow> json option \<Rightarrow> json option \<Rightarrow> json option \<Rightarrow> AgentDiscoveryRecord" where
  "discoveryRecord E name role description online registered_at pid metadata =
     (let m = discoveryMetadata name metadata in
      \<lparr>dm_label = dm_label m, dm_uuid = dm_uuid m, dm_client = dm_client m, dm_working_directory = dm_working_directory m,
       di_name = name, di_role = role, di_description = description, di_online = online,
       di_registered_at = (case registered_at of Some (JStr t) \<Rightarrow> if date_parse E t \<noteq> None then Some t else None | _ \<Rightarrow> None),
       di_pid = (case pid of Some (JNum (JInt i)) \<Rightarrow> if 0 < i \<and> i \<le> max_safe_integer then Some i else None | _ \<Rightarrow> None)\<rparr>)"

end
