(* ===== verification/Task_Claims.thy ===== *)
theory Task_Claims
  imports Mailbox_Store
begin

text \<open>
  The durable task claims of \<open>src/src/core/task-claim-store.ts\<close> and their scripts: lazy recovery of expired
  claims with its recovery counters and dead-letter queue, the batch claim, acknowledgement, renewal,
  requeueing of a dead letter, and the purge of a retired actor. Claims are JSON records in one hash; each
  actor has a sorted set of its outstanding claim ids scored by expiry.

  Claim ids the code draws with \<open>randomUUID\<close> are parameters. The instant \<open>now\<close> is the caller's
  \<open>toISOString()\<close>; a text that \<open>Date.parse\<close> cannot read makes recovery fail in Redis before any write, and
  is given the same outcome in a renewal.
\<close>

section \<open>Data\<close>

record TaskClaim =
  tc_claim_id :: string
  tc_actor_id :: string
  tc_session_id :: string
  tc_claimed_at :: string
  tc_expires_at :: string
  tc_tasks :: "string list"

datatype TaskClaimStoreErrorCode =
    invalid_claim_request | invalid_renew_request | concurrency_limit_reached | unknown_claim | not_claim_owner
  | claim_expired | budget_exceeded | claim_store_corrupt | dlq_entry_not_found

record ClaimInput =
  cl_actor_id :: string
  cl_session_id :: string
  cl_max_batch :: js_number
  cl_ttl_seconds :: js_number
  cl_max_concurrent_claims :: "js_number option"
  cl_now :: string

record RenewInput =
  rn_claim_id :: string
  rn_actor_id :: string
  rn_session_id :: string
  rn_ttl_seconds :: js_number
  rn_budget_seconds :: int
  rn_now :: string

record DeadLetterEntry =
  dl_message_id :: "string option"
  dl_payload :: string
  dl_deadlettered_at :: "string option"

definition claim_json :: "TaskClaim \<Rightarrow> json" where
  "claim_json c = obj
     [(''claim_id'', JStr (tc_claim_id c)), (''actor_id'', JStr (tc_actor_id c)), (''session_id'', JStr (tc_session_id c)),
      (''claimed_at'', JStr (tc_claimed_at c)), (''expires_at'', JStr (tc_expires_at c)), (''tasks'', JArr (map JStr (tc_tasks c)))]"

section \<open>Recovery\<close>

text \<open>\<open>incrementable\<close>: a canonical decimal of at most 18 digits.\<close>

definition incrementable :: "string \<Rightarrow> bool" where
  "incrementable v \<longleftrightarrow> v = ''0'' \<or>
     (let ds = (if starts_with ''-'' v then tl v else v)
      in ds \<noteq> [] \<and> list_all is_digit ds \<and> hd ds \<noteq> CHR ''0'' \<and> length ds \<le> 18)"

text \<open>The counter a task is recovered under; none for a legacy envelope or a claim without an actor id.\<close>

definition counter_key :: "runtime \<Rightarrow> json option \<Rightarrow> json \<Rightarrow> string option" where
  "counter_key E actor task =
     (case (tracked_id E task, actor) of (Some i, Some (JStr a)) \<Rightarrow> Some (recoverCount_key a i) | _ \<Rightarrow> None)"

definition counter_ok :: "string \<Rightarrow> (db, bool) comp" where
  "counter_ok k =
     bindM (TYPE_none_or k TString) (\<lambda>ok.
     if \<not> ok then ret False
     else bindM (GET k) (\<lambda>current. ret (case current of None \<Rightarrow> True | Some v \<Rightarrow> incrementable v)))"

text \<open>
  Pass 1: the tasks of one expired claim with their counters, or \<open>None\<close> when a counter cannot be
  incremented. An unreadable claim has no tasks.
\<close>

primrec plan_tasks :: "runtime \<Rightarrow> json option \<Rightarrow> json list \<Rightarrow> (db, (json \<times> string option) list option) comp" where
  "plan_tasks E actor [] = ret (Some [])"
| "plan_tasks E actor (t # ts) =
     bindM (case counter_key E actor t of None \<Rightarrow> ret True | Some k \<Rightarrow> counter_ok k) (\<lambda>ok.
     if \<not> ok then ret None
     else bindM (plan_tasks E actor ts) (\<lambda>rest. ret (map_option (\<lambda>r. (t, counter_key E actor t) # r) rest)))"

definition plan_claim :: "runtime \<Rightarrow> string option \<Rightarrow> (db, (json \<times> string option) list option) comp" where
  "plan_claim E raw =
     (case raw of
        None \<Rightarrow> ret (Some [])
      | Some s \<Rightarrow>
          (case cjson_decode E s of
             None \<Rightarrow> ret (Some [])
           | Some claim \<Rightarrow>
               (case jget claim ''tasks'' of
                  None \<Rightarrow> ret (Some [])
                | Some ts \<Rightarrow> plan_tasks E (jget claim ''actor_id'') (ipairs ts))))"

primrec plan_all :: "runtime \<Rightarrow> string list \<Rightarrow> (db, (string \<times> (json \<times> string option) list) list option) comp" where
  "plan_all E [] = ret (Some [])"
| "plan_all E (i # ids) =
     bindM (HGET claims_key i) (\<lambda>raw.
     bindM (plan_claim E raw) (\<lambda>entry.
     case entry of
       None \<Rightarrow> ret None
     | Some ts \<Rightarrow> bindM (plan_all E ids) (\<lambda>rest. ret (map_option (\<lambda>r. (i, ts) # r) rest))))"

text \<open>Pass 2: one task; the result counts the recovered and the dead-lettered tasks.\<close>

definition recover_task :: "string \<Rightarrow> string \<Rightarrow> int \<Rightarrow> nat \<Rightarrow> int \<Rightarrow> nat \<times> nat \<Rightarrow> json \<times> string option \<Rightarrow> (db, nat \<times> nat) comp" where
  "recover_task inbox dlq cap dlqMax ttl counts item =
     (case item of (task, counterKey) \<Rightarrow>
      (case counterKey of
         None \<Rightarrow>
           bindM (arg_or_raise (Some task)) (\<lambda>t.
           thenM (RPUSH inbox [t]) (ret (fst counts + 1, snd counts)))
       | Some k \<Rightarrow>
           bindM (INCR k) (\<lambda>count.
           thenM (if count = 1 then EXPIRE k ttl else ret ())
          (bindM (arg_or_raise (Some task)) (\<lambda>t.
           if cap < count
           then thenM (LPUSH dlq [t]) (thenM (LTRIM_first dlq dlqMax) (thenM (DEL k) (ret (fst counts, snd counts + 1))))
           else thenM (RPUSH inbox [t]) (ret (fst counts + 1, snd counts)))))))"

definition recover_entry :: "string \<Rightarrow> string \<Rightarrow> string \<Rightarrow> int \<Rightarrow> nat \<Rightarrow> int \<Rightarrow> nat \<times> nat \<Rightarrow> string \<times> (json \<times> string option) list
    \<Rightarrow> (db, nat \<times> nat) comp" where
  "recover_entry index inbox dlq cap dlqMax ttl counts entry =
     thenM (HDEL claims_key (fst entry))
    (thenM (ZREM index (fst entry))
    (foldM (recover_task inbox dlq cap dlqMax ttl) counts (snd entry)))"

datatype corrupt_role = Inbox_role | Dlq_role | Counter_role

definition claims_recover :: "runtime \<Rightarrow> string \<Rightarrow> int \<Rightarrow> int \<Rightarrow> nat \<Rightarrow> int \<Rightarrow> (db, corrupt_role + nat \<times> nat) comp" where
  "claims_recover E actor now cap dlqMax ttl =
     (let index = claimsIndex_key actor; inbox = queue_key actor; dlq = dlq_key actor in
      bindM (ZRANGEBYSCORE_upto index (now - 1)) (\<lambda>expired.
      if expired = [] then ret (Inr (0, 0))
      else bindM (plan_all E expired) (\<lambda>plan.
           case plan of
             None \<Rightarrow> ret (Inl Counter_role)
           | Some es \<Rightarrow>
               bindM (TYPE_none_or inbox TList) (\<lambda>inboxOk.
               if \<not> inboxOk then ret (Inl Inbox_role)
               else bindM (TYPE_none_or dlq TList) (\<lambda>dlqOk.
               if \<not> dlqOk then ret (Inl Dlq_role)
               else bindM (foldM (recover_entry index inbox dlq cap dlqMax ttl) (0, 0) es) (\<lambda>counts. ret (Inr counts)))))))"

section \<open>Claiming a batch\<close>

primrec pop_batch :: "string \<Rightarrow> nat \<Rightarrow> (db, string list) comp" where
  "pop_batch inbox 0 = ret []"
| "pop_batch inbox (Suc n) =
     bindM (LPOP inbox) (\<lambda>msg.
     case msg of None \<Rightarrow> ret [] | Some m \<Rightarrow> bindM (pop_batch inbox n) (\<lambda>ms. ret (m # ms)))"

datatype batch_reply = Claimed string | Empty_inbox | At_ceiling

text \<open>The ceiling on outstanding claims, checked before anything is popped; \<open>0\<close> means no ceiling.\<close>

definition at_ceiling :: "string \<Rightarrow> nat \<Rightarrow> (db, bool) comp" where
  "at_ceiling index maxConcurrent =
     (if 0 < maxConcurrent then bindM (ZCARD index) (\<lambda>outstanding. ret (maxConcurrent \<le> outstanding)) else ret False)"

text \<open>\<open>score = None\<close> is the score NaN, which \<open>ZADD\<close> refuses.\<close>

definition claims_batch_claim :: "runtime \<Rightarrow> TaskClaim \<Rightarrow> int option \<Rightarrow> nat \<Rightarrow> nat \<Rightarrow> (db, batch_reply) comp" where
  "claims_batch_claim E c score batch maxConcurrent =
     (let inbox = queue_key (tc_actor_id c); index = claimsIndex_key (tc_actor_id c) in
      bindM (at_ceiling index maxConcurrent) (\<lambda>full.
      if full then ret At_ceiling
      else bindM (pop_batch inbox batch) (\<lambda>tasks.
           if tasks = [] then ret Empty_inbox
           else (let stored = cjson_encode E (claim_json (c\<lparr>tc_tasks := tasks\<rparr>)) in
                 thenM (HSET claims_key (tc_claim_id c) stored)
                (thenM (case score of Some s \<Rightarrow> ZADD index s (tc_claim_id c) | None \<Rightarrow> throw (ErrorReply ''value is not a valid float''))
                (ret (Claimed stored)))))))"

section \<open>Acknowledgement and renewal\<close>

datatype 'a claim_reply = Done 'a | Unknown | Foreign | Expired | Exhausted

definition claims_ack :: "runtime \<Rightarrow> string \<Rightarrow> string \<Rightarrow> string \<Rightarrow> (db, nat claim_reply) comp" where
  "claims_ack E claimId actorId sessionId =
     bindM (HGET claims_key claimId) (\<lambda>raw.
     case Option.bind raw (cjson_decode E) of
       None \<Rightarrow> ret Unknown
     | Some claim \<Rightarrow>
         (case (str_field claim ''claim_id'', str_field claim ''actor_id'', str_field claim ''session_id'', jget claim ''tasks'') of
            (Some _, Some a, Some s, Some tasks) \<Rightarrow>
              if \<not> is_object tasks then ret Unknown
              else if a \<noteq> actorId \<or> s \<noteq> sessionId then ret Foreign
              else thenM (HDEL claims_key claimId)
                  (thenM (ZREM (claimsIndex_key actorId) claimId)
                  (thenM (forM (ipairs tasks) (\<lambda>task.
                     case tracked_id E task of None \<Rightarrow> ret () | Some i \<Rightarrow> DEL (recoverCount_key actorId i)))
                  (ret (Done (length (ipairs tasks))))))
          | _ \<Rightarrow> ret Unknown))"

definition claims_renew :: "runtime \<Rightarrow> string \<Rightarrow> string \<Rightarrow> string \<Rightarrow> int \<Rightarrow> int \<Rightarrow> int \<Rightarrow> (db, string claim_reply) comp" where
  "claims_renew E claimId actorId sessionId nowMs ttlSeconds budgetSeconds =
     bindM (HGET claims_key claimId) (\<lambda>raw.
     case Option.bind raw (cjson_decode E) of
       None \<Rightarrow> ret Unknown
     | Some claim \<Rightarrow>
         (case (str_field claim ''claim_id'', str_field claim ''actor_id'', str_field claim ''session_id'',
                str_field claim ''claimed_at'', str_field claim ''expires_at'') of
            (Some _, Some a, Some s, Some claimedAt, Some expiresAt) \<Rightarrow>
              if a \<noteq> actorId \<or> s \<noteq> sessionId then ret Foreign
              else (case (ms_from_iso expiresAt, ms_from_iso claimedAt) of
                 (Some expiresMs, Some claimedMs) \<Rightarrow>
                   if expiresMs \<le> nowMs then ret Expired
                   else (let newExpiresMs = min (nowMs + ttlSeconds * 1000) (claimedMs + budgetSeconds * 1000) in
                         if newExpiresMs \<le> nowMs then ret Exhausted
                         else thenM (HSET claims_key claimId (cjson_encode E (set_member ''expires_at'' (JStr (iso_from_ms newExpiresMs)) claim)))
                             (thenM (ZADD_XX (claimsIndex_key actorId) newExpiresMs claimId)
                             (ret (Done (iso_from_ms newExpiresMs)))))
               | _ \<Rightarrow> ret Unknown)
          | _ \<Rightarrow> ret Unknown))"

section \<open>Dead letters and purge\<close>

definition claims_requeue :: "runtime \<Rightarrow> string \<Rightarrow> string \<Rightarrow> (db, bool) comp" where
  "claims_requeue E actor messageId =
     bindM (LRANGE_all (dlq_key actor)) (\<lambda>payloads.
     case find (\<lambda>p. envelope_id E p = Some messageId) payloads of
       None \<Rightarrow> ret False
     | Some p \<Rightarrow>
         thenM (RPUSH (queue_key actor) [p])
        (thenM (LREM_first (dlq_key actor) p)
        (thenM (DEL (recoverCount_key actor messageId)) (ret True))))"

text \<open>The counters of the string tasks of a stored claim; an unreadable claim has none.\<close>

definition claim_counters :: "runtime \<Rightarrow> string \<Rightarrow> string option \<Rightarrow> string list" where
  "claim_counters E actor raw =
     (case Option.bind raw (cjson_decode E) of
        None \<Rightarrow> []
      | Some claim \<Rightarrow>
          (case jget claim ''tasks'' of
             None \<Rightarrow> []
           | Some ts \<Rightarrow> map (recoverCount_key actor) (List.map_filter (tracked_id E) (ipairs ts))))"

primrec purge_claims :: "runtime \<Rightarrow> string \<Rightarrow> string list \<Rightarrow> (db, string list) comp" where
  "purge_claims E actor [] = ret []"
| "purge_claims E actor (i # ids) =
     bindM (HGET claims_key i) (\<lambda>raw.
     thenM (HDEL claims_key i)
    (bindM (purge_claims E actor ids) (\<lambda>rest. ret (claim_counters E actor raw @ rest))))"

definition purge_actor_claims :: "runtime \<Rightarrow> string \<Rightarrow> (db, nat) comp" where
  "purge_actor_claims E actor =
     (let index = claimsIndex_key actor; dlq = dlq_key actor in
      bindM (TYPE_is index TZset) (\<lambda>isZset.
      bindM (if isZset then ZRANGE_all index else ret []) (\<lambda>claimIds.
      bindM (TYPE_is claims_key THash) (\<lambda>isHash.
      bindM (if claimIds \<noteq> [] \<and> isHash then purge_claims E actor claimIds else ret []) (\<lambda>counters.
      bindM (TYPE_is dlq TList) (\<lambda>isList.
      bindM (if isList then LRANGE_all dlq else ret []) (\<lambda>dead.
      thenM (forM (counters @ map (recoverCount_key actor) (List.map_filter (tracked_id E \<circ> JStr) dead)) DEL)
     (thenM (thenM (DEL index) (thenM (DEL dlq) (thenM (DEL (inboxEvents_key actor)) (DEL (inboxTrace_key actor)))))
     (ret (length claimIds))))))))))"

section \<open>The store\<close>

definition parseTaskClaim :: "runtime \<Rightarrow> string \<Rightarrow> TaskClaim option" where
  "parseTaskClaim E raw =
     (case JSON_parse E raw of
        None \<Rightarrow> None
      | Some j \<Rightarrow>
          (case (str_field j ''claim_id'', str_field j ''actor_id'', str_field j ''session_id'', str_field j ''claimed_at'',
                 str_field j ''expires_at'', Option.bind (jget j ''tasks'') str_array) of
             (Some i, Some a, Some s, Some cl, Some ex, Some ts) \<Rightarrow>
               Some \<lparr>tc_claim_id = i, tc_actor_id = a, tc_session_id = s, tc_claimed_at = cl, tc_expires_at = ex, tc_tasks = ts\<rparr>
           | _ \<Rightarrow> None))"

definition purgeActor :: "runtime \<Rightarrow> string \<Rightarrow> ('z world_scheme, nat) comp" where
  "purgeActor E actorId = atomic (purge_actor_claims E actorId)"

definition recoverExpired :: "runtime \<Rightarrow> string \<Rightarrow> string \<Rightarrow> ('z world_scheme, TaskClaimStoreErrorCode + nat \<times> nat) comp" where
  "recoverExpired E actorId now =
     (case date_parse E now of
        None \<Rightarrow> throw (ErrorReply ''min or max is not a float'')
      | Some nowMs \<Rightarrow>
          bindM (atomic (claims_recover E actorId nowMs RECOVER_CAP DLQ_MAX_LENGTH RECOVER_COUNTER_TTL_SECONDS)) (\<lambda>r.
          ret (case r of Inl _ \<Rightarrow> Inl claim_store_corrupt | Inr counts \<Rightarrow> Inr counts)))"

definition dead_letter_entry :: "runtime \<Rightarrow> string \<Rightarrow> DeadLetterEntry" where
  "dead_letter_entry E payload =
     (let j = JSON_parse E payload in
      \<lparr>dl_message_id = Option.bind j (\<lambda>m. str_field m ''id''), dl_payload = payload,
       dl_deadlettered_at = Option.bind j (\<lambda>m. str_field m ''timestamp'')\<rparr>)"

text \<open>\<open>limit\<close> is the floor of the number the caller gave.\<close>

definition deadLetterEntries :: "runtime \<Rightarrow> string \<Rightarrow> int option \<Rightarrow> ('z world_scheme, DeadLetterEntry list) comp" where
  "deadLetterEntries E actorId limit =
     (let clamped = max 1 (case limit of None \<Rightarrow> int DLQ_MAX_LENGTH | Some l \<Rightarrow> l) in
      bindM (atomic (LRANGE_first (dlq_key actorId) (nat clamped))) (\<lambda>raw. ret (map (dead_letter_entry E) raw)))"

definition requeue :: "runtime \<Rightarrow> string \<Rightarrow> string \<Rightarrow> ('z world_scheme, TaskClaimStoreErrorCode + nat) comp" where
  "requeue E actorId messageId =
     bindM (atomic (claims_requeue E actorId messageId)) (\<lambda>moved.
     ret (if moved then Inr 1 else Inl dlq_entry_not_found))"

fun int_between :: "int \<Rightarrow> int \<Rightarrow> js_number \<Rightarrow> bool" where
  "int_between lo hi (JInt i) \<longleftrightarrow> lo \<le> i \<and> i \<le> hi"
| "int_between lo hi JOther \<longleftrightarrow> False"

fun positive_int :: "js_number \<Rightarrow> bool" where
  "positive_int (JInt i) \<longleftrightarrow> 1 \<le> i"
| "positive_int JOther \<longleftrightarrow> False"

fun the_int :: "js_number \<Rightarrow> int" where
  "the_int (JInt i) = i"
| "the_int JOther = 0"

definition valid_claim_input :: "ClaimInput \<Rightarrow> bool" where
  "valid_claim_input i \<longleftrightarrow> trim (cl_actor_id i) \<noteq> [] \<and> trim (cl_session_id i) \<noteq> [] \<and> int_between 1 16 (cl_max_batch i)
     \<and> int_between 1 3600 (cl_ttl_seconds i) \<and> (case cl_max_concurrent_claims i of None \<Rightarrow> True | Some n \<Rightarrow> positive_int n)"

definition claim_after_recovery :: "runtime \<Rightarrow> string \<Rightarrow> ClaimInput \<Rightarrow> ('z world_scheme, TaskClaimStoreErrorCode + TaskClaim option) comp" where
  "claim_after_recovery E uuid i =
     bindM (iso_after E (cl_now i) (the_int (cl_ttl_seconds i))) (\<lambda>expiresAt.
     bindM (atomic (claims_batch_claim E
         \<lparr>tc_claim_id = uuid, tc_actor_id = cl_actor_id i, tc_session_id = cl_session_id i, tc_claimed_at = cl_now i,
          tc_expires_at = expiresAt, tc_tasks = []\<rparr>
         (date_parse E expiresAt) (nat (the_int (cl_max_batch i)))
         (case cl_max_concurrent_claims i of None \<Rightarrow> 0 | Some n \<Rightarrow> nat (the_int n)))) (\<lambda>reply.
     ret (case reply of
            Empty_inbox \<Rightarrow> Inr None
          | At_ceiling \<Rightarrow> Inl concurrency_limit_reached
          | Claimed stored \<Rightarrow> (case parseTaskClaim E stored of None \<Rightarrow> Inl claim_store_corrupt | Some c \<Rightarrow> Inr (Some c)))))"

definition claim :: "runtime \<Rightarrow> string \<Rightarrow> ClaimInput \<Rightarrow> ('z world_scheme, TaskClaimStoreErrorCode + TaskClaim option) comp" where
  "claim E uuid i =
     (if \<not> valid_claim_input i then ret (Inl invalid_claim_request)
      else bindM (recoverExpired E (cl_actor_id i) (cl_now i)) (\<lambda>recovery.
           case recovery of Inl code \<Rightarrow> ret (Inl code) | Inr _ \<Rightarrow> claim_after_recovery E uuid i))"

definition acknowledge :: "runtime \<Rightarrow> string \<Rightarrow> string \<Rightarrow> string \<Rightarrow> ('z world_scheme, TaskClaimStoreErrorCode + nat) comp" where
  "acknowledge E claimId actorId sessionId =
     bindM (atomic (claims_ack E claimId actorId sessionId)) (\<lambda>reply.
     ret (case reply of Done n \<Rightarrow> Inr n | Unknown \<Rightarrow> Inl unknown_claim | _ \<Rightarrow> Inl not_claim_owner))"

definition renew :: "runtime \<Rightarrow> RenewInput \<Rightarrow> ('z world_scheme, TaskClaimStoreErrorCode + string) comp" where
  "renew E i =
     (if trim (rn_claim_id i) = [] \<or> trim (rn_actor_id i) = [] \<or> trim (rn_session_id i) = [] \<or> \<not> int_between 1 3600 (rn_ttl_seconds i)
      then ret (Inl invalid_renew_request)
      else (case date_parse E (rn_now i) of
              None \<Rightarrow> throw (ErrorReply ''value is not a valid float'')
            | Some nowMs \<Rightarrow>
                bindM (atomic (claims_renew E (rn_claim_id i) (rn_actor_id i) (rn_session_id i) nowMs
                         (the_int (rn_ttl_seconds i)) (rn_budget_seconds i))) (\<lambda>reply.
                ret (case reply of
                       Done newExpiry \<Rightarrow> Inr newExpiry
                     | Unknown \<Rightarrow> Inl unknown_claim
                     | Expired \<Rightarrow> Inl claim_expired
                     | Exhausted \<Rightarrow> Inl budget_exceeded
                     | Foreign \<Rightarrow> Inl not_claim_owner))))"

definition usable_claim :: "runtime \<Rightarrow> string \<Rightarrow> string \<Rightarrow> int option \<Rightarrow> string option \<Rightarrow> TaskClaim option" where
  "usable_claim E actorId sessionId nowMs raw =
     (case Option.bind raw (parseTaskClaim E) of
        None \<Rightarrow> None
      | Some c \<Rightarrow>
          if tc_actor_id c \<noteq> actorId \<or> tc_session_id c \<noteq> sessionId then None
          else (case (date_parse E (tc_expires_at c), nowMs) of
                  (None, _) \<Rightarrow> None
                | (Some ex, Some now) \<Rightarrow> if ex \<le> now then None else Some c
                | (Some ex, None) \<Rightarrow> Some c))"

definition activeClaimFor :: "runtime \<Rightarrow> string \<Rightarrow> string \<Rightarrow> string \<Rightarrow> ('z world_scheme, TaskClaim option) comp" where
  "activeClaimFor E actorId sessionId now =
     bindM (atomic (ZRANGE_all (claimsIndex_key actorId))) (\<lambda>members.
     if members = [] then ret None
     else bindM (atomic (HMGET claims_key members)) (\<lambda>raws.
          ret (case List.map_filter (usable_claim E actorId sessionId (date_parse E now)) raws of [] \<Rightarrow> None | c # _ \<Rightarrow> Some c)))"

definition get_claim :: "runtime \<Rightarrow> string \<Rightarrow> ('z world_scheme, TaskClaimStoreErrorCode + TaskClaim option) comp" where
  "get_claim E claimId =
     bindM (atomic (HGET claims_key claimId)) (\<lambda>raw.
     ret (case raw of
            None \<Rightarrow> Inr None
          | Some s \<Rightarrow> (case parseTaskClaim E s of None \<Rightarrow> Inl claim_store_corrupt | Some c \<Rightarrow> Inr (Some c))))"

end
