(* ===== verification/Redis_Client.thy ===== *)
theory Redis_Client
  imports Continuity Agent_Discovery Task_Claims
begin

text \<open>
  The client object every tool of the server works through, \<open>src/src/mcp-server/redis-client.ts\<close>: it owns
  the agent name and the session of this process and composes the stores. Instants, the session id and the
  process id are drawn outside and passed in. The heartbeat timer is one of the other clients; the object
  keeps whom it beats for. Connections are open or closed.
\<close>

section \<open>State\<close>

record client_world = session_world +
  agentName :: "string option"
  sessionId :: "string option"
  heartbeatFor :: "string option"
  connectionsForcedClosed :: bool
  connectionsOpen :: bool
  queueBound :: nat

text \<open>What a registration draws: the session id, the process id and the instants it reads in turn.\<close>

record draws =
  dr_session_id :: string
  dr_pid :: int
  dr_created :: string
  dr_recover :: string
  dr_registered :: string
  dr_mailbox :: string
  dr_refresh :: string

definition HEARTBEAT_TTL :: int where
  "HEARTBEAT_TTL = 30"

definition requireRegistered :: "('z client_world_scheme, string) comp" where
  "requireRegistered =
     bindM (getM agentName) (\<lambda>name.
     case name of Some (c # cs) \<Rightarrow> ret (c # cs) | _ \<Rightarrow> throw (GptQueueError AGENT_NOT_REGISTERED))"

section \<open>Heartbeats\<close>

definition stopHeartbeat :: "('z client_world_scheme, unit) comp" where
  "stopHeartbeat = modifyM (\<lambda>w. w\<lparr>heartbeatFor := None\<rparr>)"

definition beat :: "string \<Rightarrow> ('z world_scheme, unit) comp" where
  "beat name = catchM (atomic (SET (heartbeat_key name) ''alive'' (Ex HEARTBEAT_TTL))) (\<lambda>_. ret ())"

definition startHeartbeat :: "('z client_world_scheme, unit) comp" where
  "startHeartbeat =
     thenM stopHeartbeat
    (bindM requireRegistered (\<lambda>name. thenM (beat name) (modifyM (\<lambda>w. w\<lparr>heartbeatFor := Some name\<rparr>))))"

section \<open>Adopting an identity and resuming a session\<close>

definition adoptIdentity :: "runtime \<Rightarrow> string \<Rightarrow> string \<Rightarrow> string \<Rightarrow> string \<Rightarrow> string option \<Rightarrow> ('z client_world_scheme, unit) comp" where
  "adoptIdentity E source target mappingKey expectedMapping runtimeId =
     bindM (getM sessionId) (\<lambda>sid.
     bindM (getM agentName) (\<lambda>name.
     case nonempty sid of
       None \<Rightarrow> throw (JsError ''Continuity source ownership mismatch'')
     | Some s \<Rightarrow>
         if name \<noteq> Some source \<or> source = target then throw (JsError ''Continuity source ownership mismatch'')
         else bindM (atomic (adopt_script E mappingKey source target s expectedMapping (or_empty runtimeId))) (\<lambda>result.
              if result \<noteq> 1 then throw (JsError ''Continuity adoption refused'')
              else thenM (modifyM (\<lambda>w. w\<lparr>agentName := Some target\<rparr>)) startHeartbeat)))"

definition reconnectSession :: "string \<Rightarrow> string \<Rightarrow> ('z client_world_scheme, string) comp" where
  "reconnectSession now sid =
     bindM (getSession sid) (\<lambda>session.
     case session of
       None \<Rightarrow> throw (GptQueueError SESSION_UNAVAILABLE)
     | Some s \<Rightarrow>
         thenM (modifyM (\<lambda>w. w\<lparr>sessionId := Some sid, agentName := Some (s_agent_name s)\<rparr>))
        (thenM (startLeaseRefresh now sid)
        (thenM startHeartbeat (ret (s_agent_name s)))))"

section \<open>Registration\<close>

text \<open>The steps of a rename between the new session and its publication: first the transfer.\<close>

definition transfer_mailbox :: "runtime \<Rightarrow> string \<Rightarrow> string \<Rightarrow> string \<Rightarrow> ('z world_scheme, unit) comp" where
  "transfer_mailbox E now oldName name =
     bindM (recoverExpired E oldName now) (\<lambda>recovery.
     case recovery of
       Inl _ \<Rightarrow> throw (JsError ''claim recovery failed'')
     | Inr _ \<Rightarrow> thenM (migrateMessages oldName name (Some (claimsIndex_key oldName)) (Some DLQ_MAX_LENGTH)) (ret ()))"

definition rollback_rename :: "CreatedSession \<Rightarrow> string \<Rightarrow> exn \<Rightarrow> ('z client_world_scheme, unit) comp" where
  "rollback_rename session name e =
     bindM (catchM (thenM (closeSession (s_session_id session)) (ret True)) (\<lambda>_. ret False)) (\<lambda>closed.
     bindM (catchM (thenM (undoRegistryWrite name (cs_written session)) (ret True)) (\<lambda>_. ret False)) (\<lambda>undone.
     thenM startHeartbeat
       (throw (if closed \<and> undone then e else JsError ''rename rollback incomplete''))))"

definition retire_name :: "string \<Rightarrow> string \<Rightarrow> ('z client_world_scheme, unit) comp" where
  "retire_name oldSessionId oldName =
     thenM (catchM (closeSession oldSessionId) (\<lambda>_. ret None))
    (thenM (catchM (atomic (HDEL registry_key oldName)) (\<lambda>_. ret ()))
     (catchM (atomic (thenM (DEL (mailboxMeta_key oldName)) (DEL (heartbeat_key oldName)))) (\<lambda>_. ret ())))"

definition metadata_json :: "AgentDiscoveryMetadata \<Rightarrow> json" where
  "metadata_json m =
     (let text = (\<lambda>v. case v of None \<Rightarrow> JNull | Some s \<Rightarrow> JStr s) in
      obj [(''label'', JStr (dm_label m)), (''uuid'', text (dm_uuid m)), (''client'', text (dm_client m)),
           (''working_directory'', text (dm_working_directory m))])"

definition registration_json :: "string \<Rightarrow> string \<Rightarrow> string option \<Rightarrow> string \<Rightarrow> int \<Rightarrow> AgentDiscoveryMetadata option \<Rightarrow> json" where
  "registration_json name role description now pid metadata =
     obj ([(''name'', JStr name), (''role'', JStr role)] @ opt_member ''description'' (map_option JStr (nonempty description))
        @ [(''registered_at'', JStr now), (''pid'', JNum (JInt pid))] @ opt_member ''metadata'' (map_option metadata_json metadata))"

definition rename_to :: "runtime \<Rightarrow> draws \<Rightarrow> string \<Rightarrow> string \<Rightarrow> string \<Rightarrow> CreatedSession \<Rightarrow> ('z client_world_scheme, unit) comp" where
  "rename_to E dr oldSessionId oldName name session =
     thenM (catchM (transfer_mailbox E (dr_recover dr) oldName name) (rollback_rename session name))
       (retire_name oldSessionId oldName)"

definition complete_registration ::
  "runtime \<Rightarrow> draws \<Rightarrow> string \<Rightarrow> string \<Rightarrow> string option \<Rightarrow> AgentDiscoveryMetadata option \<Rightarrow> CreatedSession \<Rightarrow> ('z client_world_scheme, string \<times> string) comp" where
  "complete_registration E dr role name description metadata session =
     bindM (getM queueBound) (\<lambda>bound.
     thenM (modifyM (\<lambda>w. w\<lparr>agentName := Some name, sessionId := Some (s_session_id session)\<rparr>))
    (thenM (publishRegistration name (JSON_stringify E (registration_json name role description (dr_registered dr) (dr_pid dr) metadata)))
    (thenM (ensureMailbox bound (dr_mailbox dr) name)
    (thenM (startLeaseRefresh (dr_refresh dr) (s_session_id session))
    (thenM startHeartbeat
     (ret (name, s_session_id session)))))))"

definition register_client ::
  "runtime \<Rightarrow> draws \<Rightarrow> string \<Rightarrow> string \<Rightarrow> string option \<Rightarrow> AgentDiscoveryMetadata option \<Rightarrow> ('z client_world_scheme, string \<times> string) comp" where
  "register_client E dr role name description metadata =
     bindM (getM agentName) (\<lambda>oldName.
     bindM (getM sessionId) (\<lambda>oldSessionId.
     let renaming = (oldSessionId \<noteq> None \<and> oldName \<noteq> None \<and> Some name \<noteq> oldName) in
     thenM (if renaming then stopHeartbeat else ret ())
    (bindM (catchM (createSession E (dr_session_id dr) (dr_created dr) name role description None)
              (\<lambda>e. thenM (if renaming then startHeartbeat else ret ()) (throw e))) (\<lambda>session.
     thenM (if renaming then rename_to E dr (the oldSessionId) (the oldName) name session else ret ())
       (complete_registration E dr role name description metadata session)))))"

section \<open>Leaving\<close>

definition closeCurrentSession :: "('z client_world_scheme, string) comp" where
  "closeCurrentSession =
     bindM requireRegistered (\<lambda>name.
     thenM stopHeartbeat
    (thenM stopLeaseRefresh
    (bindM (getM sessionId) (\<lambda>sid.
     thenM (case nonempty sid of Some s \<Rightarrow> thenM (closeSession s) (ret ()) | None \<Rightarrow> ret ())
    (thenM (atomic (DEL (heartbeat_key name)))
    (thenM (modifyM (\<lambda>w. w\<lparr>agentName := None, sessionId := None\<rparr>)) (ret name)))))))"

definition unregister_script :: "runtime \<Rightarrow> string \<Rightarrow> string \<Rightarrow> (db, nat) comp" where
  "unregister_script E name sid =
     thenM (if sid = [] then ret ()
            else thenM (thenM (DEL (session_key sid)) (DEL (lease_key sid))) (SREM (agentSessions_key name) sid))
    (thenM (HDEL registry_key name)
    (bindM (purge_actor_claims E name) (\<lambda>removed.
     thenM (thenM (DEL (queue_key name)) (thenM (DEL (mailboxMeta_key name)) (DEL (heartbeat_key name))))
       (ret removed))))"

definition unregister :: "runtime \<Rightarrow> ('z client_world_scheme, unit) comp" where
  "unregister E =
     bindM requireRegistered (\<lambda>name.
     thenM stopHeartbeat
    (thenM stopLeaseRefresh
    (bindM (getM sessionId) (\<lambda>sid.
     thenM (atomic (unregister_script E name (or_empty sid)))
       (modifyM (\<lambda>w. w\<lparr>agentName := None, sessionId := None\<rparr>))))))"

section \<open>Messages\<close>

definition sendMessage :: "runtime \<Rightarrow> QueueMessage \<Rightarrow> ('z client_world_scheme, bool) comp" where
  "sendMessage E m = thenM requireRegistered (bindM (getM queueBound) (\<lambda>bound. send E bound m))"

definition sendMessageIdempotent :: "runtime \<Rightarrow> QueueMessage \<Rightarrow> string \<Rightarrow> ('z client_world_scheme, push_status \<times> string) comp" where
  "sendMessageIdempotent E m key =
     bindM requireRegistered (\<lambda>sender. bindM (getM queueBound) (\<lambda>bound. sendIdempotent E bound m sender key))"

definition receiveMessage :: "runtime \<Rightarrow> ('z client_world_scheme, json option) comp" where
  "receiveMessage E = bindM requireRegistered (\<lambda>name. receive E name)"

definition getQueueStatus :: "string option \<Rightarrow> ('z client_world_scheme, (string \<times> nat \<times> int option) list) comp" where
  "getQueueStatus agent = mailbox_status agent"

definition getQueueDepth :: "string option \<Rightarrow> ('z client_world_scheme, nat) comp" where
  "getQueueDepth agent = bindM (case nonempty agent of Some a \<Rightarrow> ret a | None \<Rightarrow> requireRegistered) depth"

section \<open>Discovery\<close>

text \<open>Registry values that are no JSON object are skipped.\<close>

definition registry_entries :: "runtime \<Rightarrow> (string \<times> string) list \<Rightarrow> (string \<times> json) list" where
  "registry_entries E registry =
     List.map_filter (\<lambda>(name, text). case JSON_parse E text of Some (JObj m) \<Rightarrow> Some (name, JObj m) | _ \<Rightarrow> None) registry"

definition listed_agent :: "runtime \<Rightarrow> string \<times> json \<Rightarrow> AgentPresence \<Rightarrow> string option \<Rightarrow> AgentDiscoveryRecord" where
  "listed_agent E entry presence heartbeat =
     (let (name, reg) = entry in
      discoveryRecord E name (or_empty (str_field reg ''role'')) (str_field reg ''description'')
        (p_online presence \<or> heartbeat \<noteq> None) (jget reg ''registered_at'') (jget reg ''pid'') (jget reg ''metadata''))"

text \<open>The two batches of reads do not depend on one another; the code issues them together.\<close>

definition listAgents :: "runtime \<Rightarrow> ('z client_world_scheme, AgentDiscoveryRecord list) comp" where
  "listAgents E =
     bindM (atomic (HGETALL registry_key)) (\<lambda>registry.
     let entries = registry_entries E registry in
     if entries = [] then ret []
     else bindM (getPresenceMany (map fst entries)) (\<lambda>presences.
          bindM (atomic (MGET (map (\<lambda>(name, _). heartbeat_key name) entries))) (\<lambda>heartbeats.
          ret (map (\<lambda>((entry, presence), heartbeat). listed_agent E entry presence heartbeat) (zip (zip entries presences) heartbeats)))))"

section \<open>Shutting down\<close>

definition forceDisconnect :: "('z client_world_scheme, unit) comp" where
  "forceDisconnect =
     bindM (getM connectionsForcedClosed) (\<lambda>closed.
     if closed then ret ()
     else thenM (modifyM (\<lambda>w. w\<lparr>connectionsForcedClosed := True\<rparr>))
         (thenM stopHeartbeat
         (thenM stopLeaseRefresh
         (thenM closeReceives
          (modifyM (\<lambda>w. w\<lparr>connectionsOpen := False\<rparr>))))))"

text \<open>\<open>settled\<close>: both connections answer their \<open>QUIT\<close>, or fail it, before the deadline.\<close>

definition shutdown :: "bool \<Rightarrow> ('z client_world_scheme, unit) comp" where
  "shutdown settled =
     thenM stopHeartbeat
    (thenM stopLeaseRefresh
    (thenM closeReceives
    (bindM (getM connectionsForcedClosed) (\<lambda>closed.
     if closed then ret ()
     else if settled then modifyM (\<lambda>w. w\<lparr>connectionsOpen := False\<rparr>)
     else forceDisconnect))))"

end
