(* ===== verification/World_Steps.thy ===== *)
theory World_Steps
  imports Redis
begin

text \<open>
  What a method does to the world whatever the other clients do: relations between the world before and
  after that hold step by step (\<open>relates\<close>, with the interface \<open>world_relation\<close>), the atomic steps a method
  takes (\<open>each_step\<close>), and a bound on their number (\<open>within\<close>).
\<close>

section \<open>Relations between worlds\<close>

definition relates :: "('w \<Rightarrow> 'w \<Rightarrow> bool) \<Rightarrow> ('w, 'a) comp \<Rightarrow> bool" where
  "relates R m \<longleftrightarrow> (\<forall>w r w'. m w = (r, w') \<longrightarrow> R w w')"

lemma relatesD: "relates R m \<Longrightarrow> m w = (r, w') \<Longrightarrow> R w w'"
  by (auto simp: relates_def)

locale world_relation =
  fixes R :: "'w \<Rightarrow> 'w \<Rightarrow> bool"
  assumes same: "R w w" and chain: "R u v \<Longrightarrow> R v w \<Longrightarrow> R u w"
begin

lemma relates_pure: "relates R (ret a)" "relates R (throw e)" "relates R (getM f)"
  by (simp_all add: relates_def run_simps same)

lemma relates_bindM: "relates R m \<Longrightarrow> (\<And>a. relates R (f a)) \<Longrightarrow> relates R (bindM m f)"
  unfolding relates_def bindM_def by (fastforce split: prod.splits sum.splits intro: chain)

lemma relates_thenM: "relates R m \<Longrightarrow> relates R k \<Longrightarrow> relates R (thenM m k)"
  unfolding thenM_def by (rule relates_bindM)

lemma relates_catchM: "relates R m \<Longrightarrow> (\<And>e. relates R (h e)) \<Longrightarrow> relates R (catchM m h)"
  unfolding relates_def catchM_def by (fastforce split: prod.splits sum.splits intro: chain)

lemma relates_modifyM: "(\<And>w. R w (f w)) \<Longrightarrow> relates R (modifyM f)"
  by (simp add: relates_def run_simps)

lemmas relates_intros = relates_pure relates_bindM relates_thenM relates_catchM

end

lemma bindM_cases:
  assumes "bindM m f w = (r, w')"
  obtains (err) e where "m w = (Inl e, w')" "r = Inl e" | (ok) a w1 where "m w = (Inr a, w1)" "f a w1 = (r, w')"
  using assms by (auto simp: bindM_def split: prod.splits sum.splits)

lemma thenM_cases:
  assumes "thenM m k w = (r, w')"
  obtains (err) e where "m w = (Inl e, w')" "r = Inl e" | (ok) a w1 where "m w = (Inr a, w1)" "k w1 = (r, w')"
  using assms unfolding thenM_def by (rule bindM_cases)

lemma catchM_cases:
  assumes "catchM m h w = (r, w')"
  obtains (ok) a where "m w = (Inr a, w')" "r = Inr a" | (err) e w1 where "m w = (Inl e, w1)" "h e w1 = (r, w')"
  using assms by (auto simp: catchM_def split: prod.splits sum.splits)

section \<open>Steps\<close>

definition stepping :: "(db \<Rightarrow> db \<Rightarrow> bool) \<Rightarrow> 'z world_scheme \<Rightarrow> 'z world_scheme \<Rightarrow> bool" where
  "stepping P w w' \<longleftrightarrow> (\<exists>h. history w' = h @ history w \<and> (\<forall>(d, d') \<in> set h. P d d'))"

interpretation stepping: world_relation "stepping P" for P
proof unfold_locales
  show "stepping P w w" for w :: "'a world_scheme" unfolding stepping_def by (rule exI[of _ "[]"]) simp
  show "stepping P u w" if uv: "stepping P u v" and vw: "stepping P v w" for u v w :: "'a world_scheme"
  proof -
    from uv obtain g where g: "history v = g @ history u" "\<forall>(d, d') \<in> set g. P d d'" unfolding stepping_def by blast
    from vw obtain h where h: "history w = h @ history v" "\<forall>(d, d') \<in> set h. P d d'" unfolding stepping_def by blast
    show ?thesis unfolding stepping_def by (rule exI[of _ "h @ g"]) (use g h in auto)
  qed
qed

abbreviation each_step :: "(db \<Rightarrow> db \<Rightarrow> bool) \<Rightarrow> ('z world_scheme, 'a) comp \<Rightarrow> bool" where
  "each_step P \<equiv> relates (stepping P)"

lemma each_step_atomic: "(\<And>d r d'. c d = (r, d') \<Longrightarrow> P d d') \<Longrightarrow> each_step P (atomic c)"
  unfolding relates_def stepping_def atomic_def by (auto split: prod.splits)

lemma each_step_modifyM: "(\<And>w. history (f w) = history w) \<Longrightarrow> each_step P (modifyM f)"
  by (rule stepping.relates_modifyM) (simp add: stepping_def)

section \<open>Counting steps\<close>

definition within :: "nat \<Rightarrow> ('z world_scheme, 'a) comp \<Rightarrow> bool" where
  "within n m \<longleftrightarrow> (\<forall>w r w'. m w = (r, w') \<longrightarrow> length (history w') \<le> length (history w) + n)"

lemma withinD: "within n m \<Longrightarrow> length (history (snd (m w))) \<le> length (history w) + n"
  unfolding within_def by (metis prod.collapse)

lemma within_pure: "within n (ret a)" "within n (throw e)" "within n (getM f)"
  by (simp_all add: within_def run_simps)

lemma within_atomic: "0 < n \<Longrightarrow> within n (atomic c)"
  by (auto simp: within_def atomic_def split: prod.splits)

lemma within_bindM:
  assumes "within a m" and "\<And>x. within b (f x)" and "a + b \<le> n"
  shows "within n (bindM m f)"
  unfolding within_def
proof (intro allI impI)
  fix w r w' assume run: "bindM m f w = (r, w')"
  obtain x w1 where x: "m w = (x, w1)" by fastforce
  with assms(1) have 1: "length (history w1) \<le> length (history w) + a" by (auto simp: within_def)
  show "length (history w') \<le> length (history w) + n"
  proof (cases x)
    case (Inl e)
    with x run 1 assms(3) show ?thesis by (simp add: bindM_def)
  next
    case (Inr v)
    with x run assms(2)[of v] have "length (history w') \<le> length (history w1) + b" by (auto simp: bindM_def within_def)
    with 1 assms(3) show ?thesis by simp
  qed
qed

lemma within_thenM: "within a m \<Longrightarrow> within b k \<Longrightarrow> a + b \<le> n \<Longrightarrow> within n (thenM m k)"
  unfolding thenM_def by (rule within_bindM)

lemma within_catchM:
  assumes "within a m" and "\<And>e. within b (h e)" and "a + b \<le> n"
  shows "within n (catchM m h)"
  unfolding within_def
proof (intro allI impI)
  fix w r w' assume run: "catchM m h w = (r, w')"
  obtain x w1 where x: "m w = (x, w1)" by fastforce
  with assms(1) have 1: "length (history w1) \<le> length (history w) + a" by (auto simp: within_def)
  show "length (history w') \<le> length (history w) + n"
  proof (cases x)
    case (Inr v)
    with x run 1 assms(3) show ?thesis by (simp add: catchM_def)
  next
    case (Inl e)
    with x run assms(2)[of e] have "length (history w') \<le> length (history w1) + b" by (auto simp: catchM_def within_def)
    with 1 assms(3) show ?thesis by simp
  qed
qed

lemma within_mono: "within a m \<Longrightarrow> a \<le> n \<Longrightarrow> within n m"
  unfolding within_def by (meson add_left_mono order.trans)

end
