(* ===== verification/Task_Delivery.thy ===== *)
theory Task_Delivery
  imports Task_Claims
begin

text \<open>
  At-least-once delivery of tasks. The invariant \<open>claims_ok\<close> says that the claims hash and the index of
  every actor agree: an id is indexed under an actor with a score exactly when the hash holds a readable
  claim of that actor that expires at that instant. On top of it, \<open>held\<close> counts every task an actor's
  keys hold, in its inbox, its outstanding claims and its dead-letter queue, and the lemmas show what each
  script does to it.
\<close>

section \<open>Keys\<close>

definition frame :: "string set \<Rightarrow> db \<Rightarrow> db \<Rightarrow> bool" where
  "frame K d d' \<longleftrightarrow> (\<forall>k. k \<notin> K \<longrightarrow> live d' k = live d k)"

lemma frame_refl [simp]: "frame K d d"
  by (simp add: frame_def)

lemma frame_trans: "frame K d d' \<Longrightarrow> frame K d' d'' \<Longrightarrow> frame K d d''"
  by (simp add: frame_def)

lemma frame_mono: "frame K d d' \<Longrightarrow> K \<subseteq> K' \<Longrightarrow> frame K' d d'"
  by (auto simp: frame_def)

lemma frameD: "frame K d d' \<Longrightarrow> k \<notin> K \<Longrightarrow> live d' k = live d k"
  by (simp add: frame_def)

lemma frame_holds: "frame K d d' \<Longrightarrow> k \<notin> K \<Longrightarrow> holds d' k t = holds d k t"
  by (simp add: frame_def holds_def)

lemma claim_keys_distinct [simp]:
  "claims_key \<noteq> claimsIndex_key a" "claimsIndex_key a \<noteq> claims_key"
  "claims_key \<noteq> queue_key a" "queue_key a \<noteq> claims_key" "claims_key \<noteq> dlq_key a" "dlq_key a \<noteq> claims_key"
  "claims_key \<noteq> recoverCount_key a m" "recoverCount_key a m \<noteq> claims_key"
  "claimsIndex_key a \<noteq> queue_key b" "queue_key b \<noteq> claimsIndex_key a"
  "claimsIndex_key a \<noteq> dlq_key b" "dlq_key b \<noteq> claimsIndex_key a"
  "claimsIndex_key a \<noteq> recoverCount_key b m" "recoverCount_key b m \<noteq> claimsIndex_key a"
  "queue_key a \<noteq> recoverCount_key b m" "recoverCount_key b m \<noteq> queue_key a"
  "dlq_key a \<noteq> recoverCount_key b m" "recoverCount_key b m \<noteq> dlq_key a"
  "claims_key \<noteq> inboxEvents_key a" "claims_key \<noteq> inboxTrace_key a"
  "claimsIndex_key a \<noteq> inboxEvents_key b" "claimsIndex_key a \<noteq> inboxTrace_key b"
  "claims_key \<noteq> mailboxMeta_key a" "claimsIndex_key a \<noteq> mailboxMeta_key b"
  by (simp_all add: key_simps)

section \<open>Stored claims\<close>

definition claim_text :: "runtime \<Rightarrow> TaskClaim \<Rightarrow> string" where
  "claim_text E c = cjson_encode E (claim_json c)"

text \<open>A claim as the scripts write it: some tasks, and both instants printed by \<open>toISOString\<close>.\<close>

definition wf_claim :: "TaskClaim \<Rightarrow> bool" where
  "wf_claim c \<longleftrightarrow> tc_tasks c \<noteq> [] \<and> (\<exists>s. valid_instant s \<and> tc_claimed_at c = iso_from_ms s)
     \<and> (\<exists>s. valid_instant s \<and> tc_expires_at c = iso_from_ms s)"

definition claim_at :: "runtime \<Rightarrow> db \<Rightarrow> string \<Rightarrow> TaskClaim option" where
  "claim_at E d i = Option.bind (map_of (hash_at d claims_key) i) (parseTaskClaim E)"

definition score_at :: "db \<Rightarrow> string \<Rightarrow> string \<Rightarrow> int option" where
  "score_at d a = map_of (zset_at d (claimsIndex_key a))"

definition claims_ok :: "runtime \<Rightarrow> db \<Rightarrow> bool" where
  "claims_ok E d \<longleftrightarrow>
     holds d claims_key THash \<and> (\<forall>a. holds d (claimsIndex_key a) TZset \<and> distinct (map fst (zset_at d (claimsIndex_key a))))
     \<and> (\<forall>i raw. map_of (hash_at d claims_key) i = Some raw \<longrightarrow> (\<exists>c. raw = claim_text E c \<and> wf_claim c \<and> tc_claim_id c = i))
     \<and> (\<forall>a i s. score_at d a i = Some s \<longleftrightarrow>
          (\<exists>c. claim_at E d i = Some c \<and> tc_actor_id c = a \<and> tc_expires_at c = iso_from_ms s \<and> valid_instant s))"

lemma jget_claim_json [simp]:
  "str_field (claim_json c) ''claim_id'' = Some (tc_claim_id c)" "str_field (claim_json c) ''actor_id'' = Some (tc_actor_id c)"
  "str_field (claim_json c) ''session_id'' = Some (tc_session_id c)" "str_field (claim_json c) ''claimed_at'' = Some (tc_claimed_at c)"
  "str_field (claim_json c) ''expires_at'' = Some (tc_expires_at c)" "jget (claim_json c) ''tasks'' = Some (JArr (map JStr (tc_tasks c)))"
  "jget (claim_json c) ''actor_id'' = Some (JStr (tc_actor_id c))"
  by (simp_all add: claim_json_def)

lemma set_member_claim: "set_member ''expires_at'' (JStr e) (claim_json c) = claim_json (c\<lparr>tc_expires_at := e\<rparr>)"
  by (cases c) (auto simp: claim_json_def obj_def fmlookup_of_list intro!: fmap_ext)

lemma lua_wire_claim: "tc_tasks c \<noteq> [] \<Longrightarrow> lua_wire_json (claim_json c)"
  unfolding claim_json_def by (rule lua_wire_depthI, rule lua_wire_objI) simp_all

context js_runtime
begin

lemma decode_claim: "wf_claim c \<Longrightarrow> cjson_decode E (claim_text E c) = Some (claim_json c)"
  by (simp add: claim_text_def wf_claim_def decode_encode lua_wire_claim)

lemma parse_claim: "wf_claim c \<Longrightarrow> parseTaskClaim E (claim_text E c) = Some c"
  by (cases c) (simp add: parseTaskClaim_def claim_text_def wf_claim_def parse_encode lua_wire_claim)

lemma claims_okD:
  assumes "claims_ok E d"
  shows "holds d claims_key THash" "holds d (claimsIndex_key a) TZset" "distinct (map fst (zset_at d (claimsIndex_key a)))"
    and "score_at d a i = Some s \<longleftrightarrow>
          (\<exists>c. claim_at E d i = Some c \<and> tc_actor_id c = a \<and> tc_expires_at c = iso_from_ms s \<and> valid_instant s)"
  using assms unfolding claims_ok_def by blast+

lemma claim_at_cases:
  assumes "claims_ok E d"
  obtains "map_of (hash_at d claims_key) i = None" and "claim_at E d i = None"
  | c where "map_of (hash_at d claims_key) i = Some (claim_text E c)" and "claim_at E d i = Some c" and "wf_claim c" and "tc_claim_id c = i"
proof (cases "map_of (hash_at d claims_key) i")
  case None
  then show thesis by (intro that(1)) (simp_all add: claim_at_def)
next
  case (Some raw)
  with assms obtain c where "raw = claim_text E c" "wf_claim c" "tc_claim_id c = i" unfolding claims_ok_def by blast
  with Some parse_claim show thesis by (intro that(2)) (simp_all add: claim_at_def)
qed

lemma claims_ok_cong:
  assumes "claims_ok E d" and "live d' claims_key = live d claims_key" and "\<And>a. live d' (claimsIndex_key a) = live d (claimsIndex_key a)"
  shows "claims_ok E d'"
  using assms unfolding claims_ok_def claim_at_def score_at_def holds_def by simp

lemma claims_ok_frame:
  "claims_ok E d \<Longrightarrow> frame K d d' \<Longrightarrow> claims_key \<notin> K \<Longrightarrow> (\<And>a. claimsIndex_key a \<notin> K) \<Longrightarrow> claims_ok E d'"
  by (erule claims_ok_cong) (auto simp: frame_def)

lemma wf_claim_at: "claims_ok E d \<Longrightarrow> claim_at E d i = Some c \<Longrightarrow> wf_claim c \<and> tc_claim_id c = i"
  by (rule claim_at_cases[of d i]) auto

text \<open>Every readable claim is indexed under its actor.\<close>

lemma claim_indexed: "claims_ok E d \<Longrightarrow> claim_at E d i = Some c \<Longrightarrow> \<exists>s. score_at d (tc_actor_id c) i = Some s \<and> tc_expires_at c = iso_from_ms s"
  using wf_claim_at claims_okD(4) unfolding wf_claim_def by metis

lemma indexed_claim: "claims_ok E d \<Longrightarrow> score_at d a i = Some s \<Longrightarrow> \<exists>c. claim_at E d i = Some c \<and> tc_actor_id c = a \<and> tc_expires_at c = iso_from_ms s"
  by (simp add: claims_okD(4)) blast

end

text \<open>
  A script changes the claims of one id \<open>i\<close> under one actor \<open>a\<close>: its hash field becomes \<open>raw\<close> and its score
  \<open>sc\<close>, each possibly absent.
\<close>

definition claims_set :: "string \<Rightarrow> string \<Rightarrow> string option \<Rightarrow> int option \<Rightarrow> db \<Rightarrow> db \<Rightarrow> bool" where
  "claims_set i a raw sc d d' \<longleftrightarrow>
     map_of (hash_at d' claims_key) = (map_of (hash_at d claims_key))(i := raw) \<and> holds d' claims_key THash
     \<and> score_at d' a = (score_at d a)(i := sc) \<and> (\<forall>b. b \<noteq> a \<longrightarrow> score_at d' b = score_at d b)
     \<and> (\<forall>b. holds d' (claimsIndex_key b) TZset \<and> distinct (map fst (zset_at d' (claimsIndex_key b))))"

context js_runtime
begin

lemma claims_set_claim_at:
  "claims_set i a raw sc d d' \<Longrightarrow> claim_at E d' = (claim_at E d)(i := Option.bind raw (parseTaskClaim E))"
  by (rule ext) (simp add: claim_at_def claims_set_def)

lemma claims_set_ok:
  assumes ok: "claims_ok E d" and set: "claims_set i a raw sc d d'"
    and old: "\<And>c. claim_at E d i = Some c \<Longrightarrow> tc_actor_id c = a"
    and new: "(raw = None \<and> sc = None) \<or> (\<exists>c s. raw = Some (claim_text E c) \<and> sc = Some s \<and> wf_claim c \<and> tc_claim_id c = i
       \<and> tc_actor_id c = a \<and> tc_expires_at c = iso_from_ms s \<and> valid_instant s)"
  shows "claims_ok E d'"
proof -
  have at: "claim_at E d' = (claim_at E d)(i := Option.bind raw (parseTaskClaim E))"
    using set by (rule claims_set_claim_at)
  have agree: "score_at d' b j = Some s \<longleftrightarrow>
      (\<exists>c. claim_at E d' j = Some c \<and> tc_actor_id c = b \<and> tc_expires_at c = iso_from_ms s \<and> valid_instant s)" for b j s
  proof (cases "j = i")
    case False
    with set have "score_at d' b j = score_at d b j" by (cases "b = a") (auto simp: claims_set_def)
    with False at claims_okD(4)[OF ok] show ?thesis by simp
  next
    case True
    have none: "score_at d b i = None" if "b \<noteq> a"
      using that old claims_okD(4)[OF ok, of b i] by (metis option.exhaust)
    have sc: "score_at d' b i = (if b = a then sc else None)"
      using set none by (simp add: claims_set_def)
    from new show ?thesis
    proof
      assume "raw = None \<and> sc = None"
      with True at sc show ?thesis by simp
    next
      assume "\<exists>c s. raw = Some (claim_text E c) \<and> sc = Some s \<and> wf_claim c \<and> tc_claim_id c = i
         \<and> tc_actor_id c = a \<and> tc_expires_at c = iso_from_ms s \<and> valid_instant s"
      then obtain c s' where c: "raw = Some (claim_text E c)" "sc = Some s'" "wf_claim c" "tc_actor_id c = a" "tc_expires_at c = iso_from_ms s'" "valid_instant s'"
        by blast
      have "iso_from_ms s' = iso_from_ms s \<Longrightarrow> valid_instant s \<Longrightarrow> s' = s"
        using c(6) date_parse_iso by (metis option.inject)
      with True at sc c parse_claim[OF c(3)] show ?thesis by auto
    qed
  qed
  have "\<exists>c. x = claim_text E c \<and> wf_claim c \<and> tc_claim_id c = j" if "map_of (hash_at d' claims_key) j = Some x" for j x
    using that set new ok by (cases "j = i") (auto simp: claims_set_def claims_ok_def)
  with agree set show ?thesis unfolding claims_ok_def by (auto simp: claims_set_def)
qed

end

lemma claims_set_frame:
  assumes "claims_set i a raw sc d d1" and "frame K d1 d'" and "claims_key \<notin> K" and "\<And>b. claimsIndex_key b \<notin> K"
  shows "claims_set i a raw sc d d'"
  using assms unfolding claims_set_def score_at_def by (simp add: frameD[OF assms(2)] frame_holds[OF assms(2)])

lemma claims_set_from:
  assumes "claims_set i a raw sc d1 d'" and "frame K d d1" and "claims_key \<notin> K" and "\<And>b. claimsIndex_key b \<notin> K"
  shows "claims_set i a raw sc d d'"
  using assms unfolding claims_set_def score_at_def by (simp add: frameD[OF assms(2)])

text \<open>The two commands a script issues on an id.\<close>

lemma claims_set_store:
  assumes "holds d claims_key THash" and "\<And>b. holds d (claimsIndex_key b) TZset \<and> distinct (map fst (zset_at d (claimsIndex_key b)))"
  shows "\<exists>d'. thenM (HSET claims_key i raw) (ZADD (claimsIndex_key a) s i) d = (Inr (), d')
      \<and> claims_set i a (Some raw) (Some s) d d' \<and> frame {claims_key, claimsIndex_key a} d d'"
proof -
  let ?d1 = "put_hash claims_key (AList.update i raw (hash_at d claims_key)) d"
  let ?d2 = "put_zset (claimsIndex_key a) (AList.update i s (zset_at d (claimsIndex_key a))) ?d1"
  have "thenM (HSET claims_key i raw) (ZADD (claimsIndex_key a) s i) d = (Inr (), ?d2)"
    using assms by (simp add: run_simps view_simps)
  moreover have "claims_set i a (Some raw) (Some s) d ?d2"
    using assms by (auto simp: claims_set_def score_at_def view_simps distinct_update)
  moreover have "frame {claims_key, claimsIndex_key a} d ?d2" by (simp add: frame_def view_simps)
  ultimately show ?thesis by blast
qed

lemma claims_set_remove:
  assumes "holds d claims_key THash" and "\<And>b. holds d (claimsIndex_key b) TZset \<and> distinct (map fst (zset_at d (claimsIndex_key b)))"
  shows "\<exists>d'. thenM (HDEL claims_key i) (ZREM (claimsIndex_key a) i) d = (Inr (), d')
      \<and> claims_set i a None None d d' \<and> frame {claims_key, claimsIndex_key a} d d'"
proof -
  let ?d1 = "put_hash claims_key (AList.delete i (hash_at d claims_key)) d"
  let ?d2 = "put_zset (claimsIndex_key a) (AList.delete i (zset_at d (claimsIndex_key a))) ?d1"
  have "thenM (HDEL claims_key i) (ZREM (claimsIndex_key a) i) d = (Inr (), ?d2)"
    using assms by (simp add: run_simps view_simps)
  moreover have "claims_set i a None None d ?d2"
  proof -
    have "map_of (as_hash (if xs = [] then None else Some (RHash xs))) = map_of xs" for xs by simp
    moreover have "map_of (as_zset (if ys = [] then None else Some (RZset ys))) = map_of ys" for ys by simp
    ultimately show ?thesis
      using assms by (auto simp: claims_set_def score_at_def view_simps distinct_delete)
  qed
  moreover have "frame {claims_key, claimsIndex_key a} d ?d2" by (simp add: frame_def view_simps)
  ultimately show ?thesis by blast
qed

section \<open>The tasks an actor holds\<close>

definition claimed :: "runtime \<Rightarrow> db \<Rightarrow> string \<Rightarrow> string multiset" where
  "claimed E d a = (\<Sum>i\<in>dom (score_at d a). mset (tc_tasks (the (claim_at E d i))))"

definition held :: "runtime \<Rightarrow> db \<Rightarrow> string \<Rightarrow> string multiset" where
  "held E d a = mset (list_at d (queue_key a)) + claimed E d a + mset (list_at d (dlq_key a))"

lemma finite_scores [simp]: "finite (dom (score_at d a))"
  by (simp add: score_at_def finite_dom_map_of)

lemma claimed_frame:
  "frame K d d' \<Longrightarrow> claims_key \<notin> K \<Longrightarrow> claimsIndex_key a \<notin> K \<Longrightarrow> claimed E d' a = claimed E d a"
  by (simp add: claimed_def score_at_def claim_at_def frameD)

context js_runtime
begin

lemma claimed_store:
  assumes ok: "claims_ok E d" and set: "claims_set i a (Some (claim_text E c)) (Some s) d d'" and c: "wf_claim c"
    and fresh: "claim_at E d i = None"
  shows "claimed E d' a = claimed E d a + mset (tc_tasks c)"
proof -
  have at: "claim_at E d' = (claim_at E d)(i \<mapsto> c)" using claims_set_claim_at[OF set] parse_claim[OF c] by simp
  have new: "i \<notin> dom (score_at d a)" using fresh claims_okD(4)[OF ok] by (auto simp: dom_def)
  have sc: "score_at d' a = (score_at d a)(i \<mapsto> s)" using set by (simp add: claims_set_def)
  have "(\<Sum>j\<in>dom (score_at d a). mset (tc_tasks (the (((claim_at E d)(i \<mapsto> c)) j)))) = claimed E d a"
    unfolding claimed_def using new by (intro sum.cong) auto
  with new show ?thesis by (simp add: claimed_def sc at)
qed

lemma claimed_remove:
  assumes ok: "claims_ok E d" and set: "claims_set i a None None d d'" and at: "claim_at E d i = Some c" "tc_actor_id c = a"
  shows "claimed E d a = claimed E d' a + mset (tc_tasks c)"
proof -
  have at': "claim_at E d' = (claim_at E d)(i := None)" using claims_set_claim_at[OF set] by simp
  have mem: "i \<in> dom (score_at d a)" using claim_indexed[OF ok at(1)] at(2) by auto
  have sc: "dom (score_at d' a) = dom (score_at d a) - {i}" using set by (simp add: claims_set_def)
  have "claimed E d a = mset (tc_tasks c) + (\<Sum>j\<in>dom (score_at d a) - {i}. mset (tc_tasks (the (claim_at E d j))))"
    unfolding claimed_def by (subst sum.remove[OF finite_scores mem]) (simp add: at(1))
  also have "(\<Sum>j\<in>dom (score_at d a) - {i}. mset (tc_tasks (the (claim_at E d j)))) = claimed E d' a"
    unfolding claimed_def sc at' by (intro sum.cong) auto
  finally show ?thesis by simp
qed

text \<open>A change of one actor's claim leaves every other actor's alone.\<close>

lemma claimed_other:
  assumes ok: "claims_ok E d" and set: "claims_set i a raw sc d d'" and "b \<noteq> a" and old: "\<And>c. claim_at E d i = Some c \<Longrightarrow> tc_actor_id c = a"
  shows "claimed E d' b = claimed E d b"
proof -
  have sc: "score_at d' b = score_at d b" using set assms(3) by (simp add: claims_set_def)
  have "i \<notin> dom (score_at d b)" using old assms(3) claims_okD(4)[OF ok, of b i] by (auto simp: dom_def)
  then show ?thesis
    unfolding claimed_def sc claims_set_claim_at[OF set] by (intro sum.cong) auto
qed

end

section \<open>Claiming\<close>

lemma pop_batch_run:
  "holds d k TList \<Longrightarrow> \<exists>d'. pop_batch k n d = (Inr (take n (list_at d k)), d') \<and> list_at d' k = drop n (list_at d k)
     \<and> holds d' k TList \<and> frame {k} d d' \<and> (list_at d k = [] \<longrightarrow> d' = d)"
proof (induction n arbitrary: d)
  case 0
  then show ?case by (simp add: ret_run)
next
  case (Suc n)
  show ?case
  proof (cases "list_at d k")
    case Nil
    with Suc.prems show ?thesis by (simp add: LPOP_def on_type_ok bindM_ok ret_run)
  next
    case (Cons x xs)
    let ?d = "put_list k xs d"
    have pop: "LPOP k d = (Inr (Some x), ?d)" using Suc.prems Cons by (simp add: LPOP_def on_type_ok)
    have l: "list_at ?d k = xs" "holds ?d k TList" "frame {k} d ?d" by (auto simp: view_simps frame_def)
    from Suc.IH[OF l(2)] l obtain d' where "pop_batch k n ?d = (Inr (take n xs), d')" "list_at d' k = drop n xs" "holds d' k TList" "frame {k} ?d d'"
      by auto
    with pop Cons frame_trans[OF l(3)] show ?thesis by (simp add: bindM_ok ret_run)
  qed
qed

context js_runtime
begin

lemma batch_claim_run:
  assumes ok: "claims_ok E d" and ty: "holds d (queue_key (tc_actor_id c)) TList" and n: "0 < n"
  shows "0 < mx \<and> mx \<le> length (zset_at d (claimsIndex_key (tc_actor_id c))) \<Longrightarrow> claims_batch_claim E c sc n mx d = (Inr At_ceiling, d)"
    and "\<not> (0 < mx \<and> mx \<le> length (zset_at d (claimsIndex_key (tc_actor_id c)))) \<Longrightarrow> list_at d (queue_key (tc_actor_id c)) = [] \<Longrightarrow>
      claims_batch_claim E c sc n mx d = (Inr Empty_inbox, d)"
    and "\<not> (0 < mx \<and> mx \<le> length (zset_at d (claimsIndex_key (tc_actor_id c)))) \<Longrightarrow> list_at d (queue_key (tc_actor_id c)) \<noteq> [] \<Longrightarrow>
      c' = c\<lparr>tc_tasks := take n (list_at d (queue_key (tc_actor_id c)))\<rparr> \<Longrightarrow>
      \<exists>d'. claims_batch_claim E c (Some s) n mx d = (Inr (Claimed (claim_text E c')), d')
        \<and> claims_set (tc_claim_id c) (tc_actor_id c) (Some (claim_text E c')) (Some s) d d'
        \<and> list_at d' (queue_key (tc_actor_id c)) = drop n (list_at d (queue_key (tc_actor_id c))) \<and> holds d' (queue_key (tc_actor_id c)) TList
        \<and> frame {claims_key, claimsIndex_key (tc_actor_id c), queue_key (tc_actor_id c)} d d'"
proof -
  note okD = claims_okD[OF ok]
  let ?q = "queue_key (tc_actor_id c)" and ?x = "claimsIndex_key (tc_actor_id c)"
  have ceil: "at_ceiling ?x mx d = (Inr (0 < mx \<and> mx \<le> length (zset_at d ?x)), d)"
    using okD(2) by (simp add: at_ceiling_def run_simps)
  obtain d1 where pop: "pop_batch ?q n d = (Inr (take n (list_at d ?q)), d1)" "list_at d1 ?q = drop n (list_at d ?q)"
      "frame {?q} d d1" "list_at d ?q = [] \<longrightarrow> d1 = d" "holds d1 ?q TList"
    using pop_batch_run[OF ty] by blast
  { assume "0 < mx \<and> mx \<le> length (zset_at d ?x)"
    with ceil show "claims_batch_claim E c sc n mx d = (Inr At_ceiling, d)"
      by (simp add: claims_batch_claim_def Let_def bindM_ok bindM_False ret_run) }
  { assume "\<not> (0 < mx \<and> mx \<le> length (zset_at d ?x))" and "list_at d ?q = []"
    with ceil pop show "claims_batch_claim E c sc n mx d = (Inr Empty_inbox, d)"
      by (simp add: claims_batch_claim_def Let_def bindM_ok bindM_False ret_run) }
  assume room: "\<not> (0 < mx \<and> mx \<le> length (zset_at d ?x))" and some: "list_at d ?q \<noteq> []"
    and c': "c' = c\<lparr>tc_tasks := take n (list_at d ?q)\<rparr>"
  have "holds d1 claims_key THash" "\<And>b. holds d1 (claimsIndex_key b) TZset \<and> distinct (map fst (zset_at d1 (claimsIndex_key b)))"
    using okD(1-3) pop(3) by (simp_all add: frame_holds frameD)
  from claims_set_store[OF this] obtain d' where
    d': "thenM (HSET claims_key (tc_claim_id c) (claim_text E c')) (ZADD ?x s (tc_claim_id c)) d1 = (Inr (), d')"
    and set: "claims_set (tc_claim_id c) (tc_actor_id c) (Some (claim_text E c')) (Some s) d1 d'" and fr: "frame {claims_key, ?x} d1 d'"
    by blast
  from d' have "thenM (HSET claims_key (tc_claim_id c) (claim_text E c')) (thenM (ZADD ?x s (tc_claim_id c)) (ret (Claimed (claim_text E c')))) d1
      = (Inr (Claimed (claim_text E c')), d')"
    by (auto simp: thenM_def bindM_def ret_def split: prod.splits sum.splits)
  with ceil room pop some n have "claims_batch_claim E c (Some s) n mx d = (Inr (Claimed (claim_text E c')), d')"
    by (simp add: claims_batch_claim_def Let_def bindM_ok bindM_False c' claim_text_def)
  moreover have "claims_set (tc_claim_id c) (tc_actor_id c) (Some (claim_text E c')) (Some s) d d'"
    by (rule claims_set_from[OF set pop(3)]) simp_all
  moreover have "list_at d' ?q = drop n (list_at d ?q)" "holds d' ?q TList" using fr pop(2,5) by (simp_all add: frameD frame_holds)
  moreover have "frame {claims_key, ?x, ?q} d d'"
    by (rule frame_trans[OF frame_mono[OF pop(3)] frame_mono[OF fr]]) auto
  ultimately show "\<exists>d'. claims_batch_claim E c (Some s) n mx d = (Inr (Claimed (claim_text E c')), d')
        \<and> claims_set (tc_claim_id c) (tc_actor_id c) (Some (claim_text E c')) (Some s) d d'
        \<and> list_at d' ?q = drop n (list_at d ?q) \<and> holds d' ?q TList \<and> frame {claims_key, ?x, ?q} d d'"
    by blast
qed

end

section \<open>Acknowledging, renewing, requeueing\<close>

lemma forM_frame:
  assumes "\<And>x d. x \<in> set xs \<Longrightarrow> \<exists>d'. f x d = (Inr (), d') \<and> frame K d d'"
  shows "\<exists>d'. forM xs f d = (Inr (), d') \<and> frame K d d'"
  using assms
proof (induction xs arbitrary: d)
  case Nil
  show ?case by (simp add: forM_Nil ret_run)
next
  case (Cons x xs)
  from Cons.prems[of x d] obtain d1 where "f x d = (Inr (), d1)" "frame K d d1" by auto
  moreover from Cons.IH[of d1] Cons.prems obtain d' where "forM xs f d1 = (Inr (), d')" "frame K d1 d'" by auto
  ultimately show ?case using frame_trans by (auto simp: forM_Cons thenM_ok)
qed

lemma DEL_run: "DEL k d = (Inr (), upd k None NoTtl d)" "frame {k} d (upd k None NoTtl d)"
  by (simp_all add: DEL_def modifyM_run frame_def view_simps)

text \<open>The recovery counters of some tasks of an actor.\<close>

definition task_counters :: "runtime \<Rightarrow> string \<Rightarrow> string list \<Rightarrow> string set" where
  "task_counters E a ts = {recoverCount_key a i |i. \<exists>t \<in> set ts. tracked_id E (JStr t) = Some i}"

lemma task_counters_range: "task_counters E a ts \<subseteq> range (recoverCount_key a)"
  by (auto simp: task_counters_def)

lemma task_counters_Cons: "task_counters E a (t # ts) = (case tracked_id E (JStr t) of None \<Rightarrow> {} | Some i \<Rightarrow> {recoverCount_key a i}) \<union> task_counters E a ts"
  by (auto simp: task_counters_def split: option.splits)

lemma forM_del_counters:
  "\<exists>d'. forM (map JStr ts) (\<lambda>t. case tracked_id E t of None \<Rightarrow> ret () | Some i \<Rightarrow> DEL (recoverCount_key a i)) d = (Inr (), d')
     \<and> (\<forall>k. live d' k = (if k \<in> task_counters E a ts then None else live d k))"
proof (induction ts arbitrary: d)
  case Nil
  show ?case by (simp add: forM_Nil ret_run task_counters_def)
next
  case (Cons t ts)
  show ?case
  proof (cases "tracked_id E (JStr t)")
    case None
    with Cons[of d] show ?thesis by (simp add: forM_Cons thenM_ok ret_run task_counters_Cons)
  next
    case (Some i)
    let ?d = "upd (recoverCount_key a i) None NoTtl d"
    have del: "DEL (recoverCount_key a i) d = (Inr (), ?d)" by (simp add: DEL_def modifyM_run)
    from Cons[of ?d] Some del show ?thesis by (auto simp: forM_Cons thenM_ok task_counters_Cons live_upd)
  qed
qed

context js_runtime
begin

lemma ack_run:
  assumes ok: "claims_ok E d"
  shows "claim_at E d i = None \<Longrightarrow> claims_ack E i a s d = (Inr Unknown, d)"
    and "claim_at E d i = Some c \<Longrightarrow> \<not> (tc_actor_id c = a \<and> tc_session_id c = s) \<Longrightarrow> claims_ack E i a s d = (Inr Foreign, d)"
    and "claim_at E d i = Some c \<Longrightarrow> tc_actor_id c = a \<Longrightarrow> tc_session_id c = s \<Longrightarrow>
      \<exists>d'. claims_ack E i a s d = (Inr (Done (length (tc_tasks c))), d') \<and> claims_set i a None None d d'
        \<and> (\<forall>k. k \<notin> {claims_key, claimsIndex_key a} \<longrightarrow> live d' k = (if k \<in> task_counters E a (tc_tasks c) then None else live d k))"
proof -
  note okD = claims_okD[OF ok]
  have get: "HGET claims_key i d = (Inr (map_of (hash_at d claims_key) i), d)" using okD(1) by (simp add: run_simps)
  { assume "claim_at E d i = None"
    with claim_at_cases[OF ok, of i] have "map_of (hash_at d claims_key) i = None" by force
    with get show "claims_ack E i a s d = (Inr Unknown, d)" by (simp add: claims_ack_def bindM_ok ret_run) }
  { assume at: "claim_at E d i = Some c"
    with claim_at_cases[OF ok, of i] have raw: "map_of (hash_at d claims_key) i = Some (claim_text E c)" and wf: "wf_claim c" by force+
    { assume "\<not> (tc_actor_id c = a \<and> tc_session_id c = s)"
      with get raw decode_claim[OF wf] show "claims_ack E i a s d = (Inr Foreign, d)"
        by (auto simp: claims_ack_def bindM_ok ret_run) }
    { assume own: "tc_actor_id c = a" "tc_session_id c = s"
      from claims_set_remove[OF okD(1), of i a] okD(2,3) obtain d1 where
        d1: "thenM (HDEL claims_key i) (ZREM (claimsIndex_key a) i) d = (Inr (), d1)" "claims_set i a None None d d1" "frame {claims_key, claimsIndex_key a} d d1"
        by blast
      from forM_del_counters[where ts = "tc_tasks c" and E = E and a = a and d = d1] obtain d' where
        d': "forM (map JStr (tc_tasks c)) (\<lambda>t. case tracked_id E t of None \<Rightarrow> ret () | Some i \<Rightarrow> DEL (recoverCount_key a i)) d1 = (Inr (), d')"
          "\<forall>k. live d' k = (if k \<in> task_counters E a (tc_tasks c) then None else live d1 k)" by blast
      then have counters: "frame (range (recoverCount_key a)) d1 d'" using task_counters_range by (fastforce simp: frame_def)
      from d1(1) obtain d0 where "HDEL claims_key i d = (Inr (), d0)" "ZREM (claimsIndex_key a) i d0 = (Inr (), d1)"
        by (auto elim!: thenM_Inr_E)
      then have "claims_ack E i a s d = (Inr (Done (length (tc_tasks c))), d')"
        using get raw decode_claim[OF wf] own d'(1) by (simp add: claims_ack_def bindM_ok thenM_ok ret_run)
      moreover have "claims_set i a None None d d'"
        by (rule claims_set_frame[OF d1(2) counters]) auto
      moreover have "live d' k = (if k \<in> task_counters E a (tc_tasks c) then None else live d k)" if "k \<notin> {claims_key, claimsIndex_key a}" for k
        using d'(2) frameD[OF d1(3) that] by simp
      ultimately show "\<exists>d'. claims_ack E i a s d = (Inr (Done (length (tc_tasks c))), d') \<and> claims_set i a None None d d'
        \<and> (\<forall>k. k \<notin> {claims_key, claimsIndex_key a} \<longrightarrow> live d' k = (if k \<in> task_counters E a (tc_tasks c) then None else live d k))" by blast } }
qed

lemma renew_run:
  assumes ok: "claims_ok E d" and at: "claim_at E d i = Some c" "tc_actor_id c = a" "tc_session_id c = s"
    and t: "tc_expires_at c = iso_from_ms em" "valid_instant em" "tc_claimed_at c = iso_from_ms cm" "valid_instant cm"
    and new: "new = min (now + ttl * 1000) (cm + budget * 1000)"
  shows "em \<le> now \<Longrightarrow> claims_renew E i a s now ttl budget d = (Inr Expired, d)"
    and "now < em \<Longrightarrow> new \<le> now \<Longrightarrow> claims_renew E i a s now ttl budget d = (Inr Exhausted, d)"
    and "now < em \<Longrightarrow> now < new \<Longrightarrow> \<exists>d'. claims_renew E i a s now ttl budget d = (Inr (Done (iso_from_ms new)), d')
      \<and> claims_set i a (Some (claim_text E (c\<lparr>tc_expires_at := iso_from_ms new\<rparr>))) (Some new) d d' \<and> frame {claims_key, claimsIndex_key a} d d'"
proof -
  note okD = claims_okD[OF ok]
  from claim_at_cases[OF ok, of i] at(1) have raw: "map_of (hash_at d claims_key) i = Some (claim_text E c)" and wf: "wf_claim c" by force+
  have get: "HGET claims_key i d = (Inr (Some (claim_text E c)), d)" using okD(1) raw by (simp add: run_simps)
  have ms: "ms_from_iso (iso_from_ms em) = Some em" "ms_from_iso (iso_from_ms cm) = Some cm"
    using t(2,4) ms_from_iso_from_ms by (simp_all add: valid_instant_def)
  { assume "em \<le> now"
    then show "claims_renew E i a s now ttl budget d = (Inr Expired, d)"
      using get decode_claim[OF wf] at t ms by (simp add: claims_renew_def bindM_ok ret_run) }
  { assume "now < em" "new \<le> now"
    then show "claims_renew E i a s now ttl budget d = (Inr Exhausted, d)"
      using get decode_claim[OF wf] at t ms new by (simp add: claims_renew_def bindM_ok ret_run Let_def) }
  assume go: "now < em" "now < new"
  let ?text = "claim_text E (c\<lparr>tc_expires_at := iso_from_ms new\<rparr>)"
  from claims_set_store[OF okD(1), of i ?text a new] okD(2,3) obtain d' where
    d': "thenM (HSET claims_key i ?text) (ZADD (claimsIndex_key a) new i) d = (Inr (), d')" "claims_set i a (Some ?text) (Some new) d d'"
      "frame {claims_key, claimsIndex_key a} d d'" by blast
  from d'(1) obtain d0 where hs: "HSET claims_key i ?text d = (Inr (), d0)" "ZADD (claimsIndex_key a) new i d0 = (Inr (), d')"
    by (auto elim!: thenM_Inr_E)
  have "frame {claims_key} d d0" using hs(1) okD(1) by (auto simp: HSET_def on_type_ok modifyM_run frame_def view_simps)
  then have "zset_at d0 (claimsIndex_key a) = zset_at d (claimsIndex_key a)" by (simp add: frameD)
  moreover have "map_of (zset_at d (claimsIndex_key a)) i \<noteq> None" using claim_indexed[OF ok at(1)] at(2) by (auto simp: score_at_def)
  ultimately have "ZADD_XX (claimsIndex_key a) new i d0 = ZADD (claimsIndex_key a) new i d0"
    by (auto simp: ZADD_XX_def ZADD_def on_type_def modifyM_def)
  with hs have "claims_renew E i a s now ttl budget d = (Inr (Done (iso_from_ms new)), d')"
    using get decode_claim[OF wf] at t ms go
    by (simp add: claims_renew_def bindM_ok thenM_ok ret_run Let_def set_member_claim claim_text_def flip: new)
  with d' show "\<exists>d'. claims_renew E i a s now ttl budget d = (Inr (Done (iso_from_ms new)), d')
      \<and> claims_set i a (Some ?text) (Some new) d d' \<and> frame {claims_key, claimsIndex_key a} d d'" by blast
qed

end

lemma requeue_run:
  assumes "holds d (dlq_key a) TList" and "holds d (queue_key a) TList"
  shows "find (\<lambda>p. envelope_id E p = Some m) (list_at d (dlq_key a)) = None \<Longrightarrow> claims_requeue E a m d = (Inr False, d)"
    and "find (\<lambda>p. envelope_id E p = Some m) (list_at d (dlq_key a)) = Some p \<Longrightarrow>
      \<exists>d'. claims_requeue E a m d = (Inr True, d') \<and> list_at d' (queue_key a) = list_at d (queue_key a) @ [p]
        \<and> list_at d' (dlq_key a) = remove1 p (list_at d (dlq_key a)) \<and> live d' (recoverCount_key a m) = None
        \<and> frame {queue_key a, dlq_key a, recoverCount_key a m} d d' \<and> holds d' (queue_key a) TList \<and> holds d' (dlq_key a) TList"
  using assms by (auto simp: claims_requeue_def run_simps view_simps frame_def)

end
