(* ===== verification/Task_Recovery.thy ===== *)
theory Task_Recovery
  imports Task_Delivery
begin

text \<open>
  Recovery of expired claims. \<open>triage\<close> is the abstract specification of what happens to the recovered tasks:
  it splits them into those that return to the inbox and those whose recovery count exceeds the cap. The
  script of theory Task_Claims implements it: with its two passes it either carries the whole plan out or
  changes nothing.
\<close>

section \<open>Counters\<close>

lemma not_counter_key [simp]:
  "claims_key \<notin> range (recoverCount_key a)" "claimsIndex_key b \<notin> range (recoverCount_key a)"
  "queue_key b \<notin> range (recoverCount_key a)" "dlq_key b \<notin> range (recoverCount_key a)"
  by (auto simp del: claim_keys_distinct simp: key_simps)

definition count_at :: "db \<Rightarrow> string \<Rightarrow> int" where
  "count_at d k = (case Option.bind (str_at d k) parse_int of None \<Rightarrow> 0 | Some i \<Rightarrow> i)"

definition counter_good :: "db \<Rightarrow> string \<Rightarrow> bool" where
  "counter_good d k \<longleftrightarrow> holds d k TString \<and> (case str_at d k of None \<Rightarrow> True | Some v \<Rightarrow> incrementable v)"

text \<open>A counter that can still be incremented \<open>n\<close> times.\<close>

definition countable_for :: "nat \<Rightarrow> db \<Rightarrow> string \<Rightarrow> bool" where
  "countable_for n d k \<longleftrightarrow> holds d k TString \<and> (case str_at d k of None \<Rightarrow> True | Some v \<Rightarrow> parse_int v \<noteq> None)
     \<and> - (2 ^ 62) \<le> count_at d k \<and> count_at d k + int n < 2 ^ 62 \<and> n < 2 ^ 62"

lemma counter_ok_run: "counter_ok k d = (Inr (counter_good d k), d)"
  by (cases "holds d k TString") (simp_all add: counter_ok_def counter_good_def run_simps split: option.splits)

lemma nat_of_digits_bound: "list_all is_digit ds \<Longrightarrow> nat_of_digits ds < 10 ^ length ds"
proof (induction ds rule: rev_induct)
  case Nil
  show ?case by (simp add: nat_of_digits_def)
next
  case (snoc c cs)
  then have "digit_val c \<le> 9" by (auto simp: is_digit_def digit_val_def)
  with snoc show ?case by (simp add: nat_of_digits_snoc)
qed

lemma incrementable_parse:
  assumes "incrementable v"
  shows "\<exists>i. parse_int v = Some i \<and> \<bar>i\<bar> < 10 ^ 18"
proof (cases "v = ''0''")
  case True
  then show ?thesis by (simp add: is_digit_def nat_of_digits_def digit_val_def)
next
  case False
  define ds where "ds = (if starts_with ''-'' v then tl v else v)"
  from assms False have ds: "ds \<noteq> []" "list_all is_digit ds" "hd ds \<noteq> CHR ''0''" "length ds \<le> 18"
    by (auto simp: incrementable_def ds_def Let_def)
  have "nat_of_digits ds < 10 ^ 18"
    using nat_of_digits_bound[OF ds(2)] power_increasing[OF ds(4), of "10 :: nat"] by simp
  then have small: "int (nat_of_digits ds) < 10 ^ 18" by (metis of_nat_less_iff of_nat_numeral of_nat_power)
  show ?thesis
  proof (cases "starts_with ''-'' v")
    case True
    then obtain cs where "v = CHR ''-'' # cs" by (auto simp: starts_with_iff)
    with ds small show ?thesis by (cases cs) (auto simp: ds_def starts_with_def)
  next
    case False
    then obtain c cs where v: "v = c # cs" "ds = c # cs" using ds(1) by (cases v) (auto simp: ds_def)
    with False have "c \<noteq> CHR ''-''" by (auto simp: starts_with_def)
    with v ds small show ?thesis by auto
  qed
qed

lemma counter_good_countable: "counter_good d k \<Longrightarrow> n < 2 ^ 61 \<Longrightarrow> countable_for n d k"
  using incrementable_parse
  by (fastforce simp: counter_good_def countable_for_def count_at_def split: option.splits)

section \<open>Triage\<close>

fun triage :: "int \<Rightarrow> (string \<Rightarrow> int) \<Rightarrow> (string \<times> string option) list \<Rightarrow> string list \<times> string list \<times> (string \<Rightarrow> int)" where
  "triage cap cnt [] = ([], [], cnt)"
| "triage cap cnt ((t, None) # xs) = (case triage cap cnt xs of (r, q, c) \<Rightarrow> (t # r, q, c))"
| "triage cap cnt ((t, Some k) # xs) =
     (if cap < cnt k + 1
      then (case triage cap (cnt(k := 0)) xs of (r, q, c) \<Rightarrow> (r, t # q, c))
      else (case triage cap (cnt(k := cnt k + 1)) xs of (r, q, c) \<Rightarrow> (t # r, q, c)))"

lemma triage_mset: "triage cap cnt xs = (r, q, c) \<Longrightarrow> mset (map fst xs) = mset r + mset q"
  by (induction cap cnt xs arbitrary: r q c rule: triage.induct) (auto split: prod.splits if_splits)

lemma triage_append:
  "triage cap cnt xs = (r, q, c) \<Longrightarrow> triage cap c ys = (r', q', c') \<Longrightarrow> triage cap cnt (xs @ ys) = (r @ r', q @ q', c')"
  by (induction cap cnt xs arbitrary: r q rule: triage.induct) (auto split: prod.splits if_splits)

text \<open>The tasks of a claim with the counters the script tracks them under.\<close>

definition task_counter :: "runtime \<Rightarrow> string \<Rightarrow> string \<Rightarrow> string option" where
  "task_counter E a t = map_option (recoverCount_key a) (tracked_id E (JStr t))"

definition claim_items :: "runtime \<Rightarrow> TaskClaim \<Rightarrow> (string \<times> string option) list" where
  "claim_items E c = map (\<lambda>t. (t, task_counter E (tc_actor_id c) t)) (tc_tasks c)"

lemma map_fst_claim_items [simp]: "map fst (claim_items E c) = tc_tasks c"
  by (simp add: claim_items_def comp_def)

definition counters_of :: "(string \<times> string option) list \<Rightarrow> string set" where
  "counters_of xs = {k. Some k \<in> snd ` set xs}"

lemma counters_of_simps [simp]:
  "counters_of [] = {}" "counters_of ((t, None) # xs) = counters_of xs" "counters_of ((t, Some k) # xs) = insert k (counters_of xs)"
  "counters_of (xs @ ys) = counters_of xs \<union> counters_of ys"
  by (auto simp: counters_of_def)

lemma counter_key_task: "counter_key E (Some (JStr a)) (JStr t) = task_counter E a t"
  by (simp add: counter_key_def task_counter_def split: option.splits)

section \<open>The read-only pass\<close>

lemma plan_tasks_run:
  "plan_tasks E (Some (JStr a)) (map JStr ts) d =
     (Inr (if \<forall>k \<in> counters_of (map (\<lambda>t. (t, task_counter E a t)) ts). counter_good d k
           then Some (map (\<lambda>t. (JStr t, task_counter E a t)) ts) else None), d)"
proof (induction ts)
  case Nil
  show ?case by (simp add: ret_run)
next
  case (Cons t ts)
  show ?case
  proof (cases "task_counter E a t")
    case None
    with Cons show ?thesis by (simp add: counter_key_task bindM_ok ret_run)
  next
    case (Some k)
    with Cons show ?thesis
      by (cases "counter_good d k") (simp_all add: counter_key_task counter_ok_run bindM_ok bindM_False ret_run)
  qed
qed

context js_runtime
begin

lemma plan_all_run:
  assumes ok: "claims_ok E d"
  shows "list_all (\<lambda>i. claim_at E d i \<noteq> None) ids \<Longrightarrow> plan_all E ids d =
     (Inr (if \<forall>i \<in> set ids. \<forall>k \<in> counters_of (claim_items E (the (claim_at E d i))). counter_good d k
           then Some (map (\<lambda>i. (i, map (map_prod JStr id) (claim_items E (the (claim_at E d i))))) ids) else None), d)"
proof (induction ids)
  case Nil
  show ?case by (simp add: ret_run)
next
  case (Cons i ids)
  from Cons.prems obtain c where at: "claim_at E d i = Some c" by auto
  with claim_at_cases[OF ok, of i] have raw: "map_of (hash_at d claims_key) i = Some (claim_text E c)" and wf: "wf_claim c" by force+
  have get: "HGET claims_key i d = (Inr (Some (claim_text E c)), d)" using claims_okD(1)[OF ok] raw by (simp add: run_simps)
  have "plan_claim E (Some (claim_text E c)) d =
     (Inr (if \<forall>k \<in> counters_of (claim_items E c). counter_good d k then Some (map (map_prod JStr id) (claim_items E c)) else None), d)"
    by (simp add: plan_claim_def decode_claim[OF wf] plan_tasks_run claim_items_def comp_def)
  with get at Cons.IH Cons.prems show ?case by (simp add: bindM_ok ret_run)
qed

end

section \<open>The writing pass\<close>

text \<open>
  What the second pass did so far: the tasks \<open>r\<close> went to the inbox, the tasks \<open>q\<close> to the dead-letter queue, each
  newest first and cut to the bound.
\<close>

definition delivered :: "nat \<Rightarrow> string \<Rightarrow> string list \<Rightarrow> string list \<Rightarrow> db \<Rightarrow> db \<Rightarrow> bool" where
  "delivered N a r q d d' \<longleftrightarrow>
     list_at d' (queue_key a) = list_at d (queue_key a) @ r
     \<and> list_at d' (dlq_key a) = (if q = [] then list_at d (dlq_key a) else take N (rev q @ list_at d (dlq_key a)))
     \<and> holds d' (queue_key a) TList \<and> holds d' (dlq_key a) TList"

lemma take_append_take: "take n (xs @ take n ys) = take n (xs @ ys)"
  by simp

lemma count_at_other: "holds d k t \<Longrightarrow> t \<noteq> TString \<Longrightarrow> count_at d k = 0"
  by (cases "live d k" rule: as_str.cases) (auto simp: count_at_def holds_def)

lemma count_at_list: "holds d k TList \<Longrightarrow> count_at d k = 0"
  by (erule count_at_other) simp

lemma delivered_trans: "delivered N a r q d d1 \<Longrightarrow> delivered N a r' q' d1 d2 \<Longrightarrow> delivered N a (r @ r') (q @ q') d d2"
  by (auto simp: delivered_def take_append_take simp del: take_append)

lemma countable_for_mono: "countable_for n d k \<Longrightarrow> m \<le> n \<Longrightarrow> countable_for m d k"
  by (simp add: countable_for_def)

lemma countable_for_live: "live d' k = live d k \<Longrightarrow> countable_for n d' k = countable_for n d k"
  by (simp add: countable_for_def count_at_def holds_def)

lemma incr_run:
  assumes "countable_for (Suc n) d k" and "0 < ttl"
  shows "\<exists>d'. bindM (INCR k) (\<lambda>count. thenM (if count = 1 then EXPIRE k ttl else ret ()) (f count)) d = f (count_at d k + 1) d'
     \<and> live d' = (live d)(k \<mapsto> RString (show_int (count_at d k + 1)))"
proof -
  let ?n = "count_at d k + 1"
  let ?d1 = "upd k (Some (RString (show_int ?n))) KeepTtl d"
  have val: "(case str_at d k of None \<Rightarrow> Some 0 | Some s \<Rightarrow> parse_int s) = Some (count_at d k)"
    using assms(1) by (auto simp: countable_for_def count_at_def split: option.splits)
  have inc: "INCR k d = (Inr ?n, ?d1)"
    using assms(1) val by (simp add: INCR_def on_type_ok countable_for_def)
  have "live ?d1 = (live d)(k \<mapsto> RString (show_int ?n))" by (rule ext) (simp add: view_simps)
  moreover have "live (upd k (live ?d1 k) (Ex ttl) ?d1) = live ?d1" by (rule ext) (simp add: live_upd assms(2))
  ultimately show ?thesis
    by (cases "?n = 1") (auto simp: bindM_ok inc EXPIRE_def modifyM_run thenM_ok ret_run)
qed

lemma recover_task_run:
  assumes ty: "holds d (queue_key a) TList" "holds d (dlq_key a) TList" and pos: "0 < ttl" "0 < N"
    and cnt: "\<And>k. ko = Some k \<Longrightarrow> countable_for (Suc n) d k \<and> k \<in> range (recoverCount_key a)"
    and tri: "triage cap (count_at d) [(t, ko)] = (r, q, c)"
  shows "\<exists>d'. recover_task (queue_key a) (dlq_key a) cap N ttl (x, y) (JStr t, ko) d = (Inr (x + length r, y + length q), d')
     \<and> delivered N a r q d d' \<and> count_at d' = c \<and> frame ({queue_key a, dlq_key a} \<union> range (recoverCount_key a)) d d'
     \<and> (\<forall>k \<in> range (recoverCount_key a). countable_for (Suc n) d k \<longrightarrow> countable_for n d' k)"
proof (cases ko)
  case None
  let ?d = "put_list (queue_key a) (list_at d (queue_key a) @ [t]) d"
  have lv: "live ?d = (live d)(queue_key a \<mapsto> RList (list_at d (queue_key a) @ [t]))" by (rule ext) (simp add: view_simps)
  have "recover_task (queue_key a) (dlq_key a) cap N ttl (x, y) (JStr t, ko) d = (Inr (x + 1, y), ?d)"
    using ty None by (simp add: recover_task_def arg_or_raise_def run_simps)
  moreover have "count_at ?d k = count_at d k" for k
    using count_at_list[OF ty(1)] by (cases "k = queue_key a") (auto simp: count_at_def lv)
  then have "count_at ?d = count_at d" by (rule ext)
  moreover have "countable_for n ?d k" if "k \<in> range (recoverCount_key a)" "countable_for (Suc n) d k" for k
    using that countable_for_mono[of "Suc n" d k n] countable_for_live[of ?d k d n] by (auto simp: lv)
  ultimately show ?thesis
    using tri None ty by (auto simp: delivered_def view_simps frame_def)
next
  case (Some k)
  with cnt have k: "countable_for (Suc n) d k" "k \<in> range (recoverCount_key a)" by auto
  then have ne: "k \<noteq> queue_key a" "k \<noteq> dlq_key a" by auto
  let ?n = "count_at d k + 1"
  define f where "f = (\<lambda>count. bindM (arg_or_raise (Some (JStr t))) (\<lambda>t.
           if cap < count
           then thenM (LPUSH (dlq_key a) [t]) (thenM (LTRIM_first (dlq_key a) N) (thenM (DEL k) (ret (fst (x, y), snd (x, y) + 1))))
           else thenM (RPUSH (queue_key a) [t]) (ret (fst (x, y) + 1, snd (x, y)))))"
  from incr_run[OF k(1) pos(1), of f] obtain d1 where
    d1: "bindM (INCR k) (\<lambda>count. thenM (if count = 1 then EXPIRE k ttl else ret ()) (f count)) d = f ?n d1"
      "live d1 = (live d)(k \<mapsto> RString (show_int ?n))" by blast
  have start: "recover_task (queue_key a) (dlq_key a) cap N ttl (x, y) (JStr t, ko) d = f ?n d1"
    using d1(1) Some by (simp add: recover_task_def f_def)
  have ty1: "holds d1 (queue_key a) TList" "holds d1 (dlq_key a) TList" "list_at d1 (queue_key a) = list_at d (queue_key a)"
      "list_at d1 (dlq_key a) = list_at d (dlq_key a)"
    using ty ne d1(2) by (auto simp: holds_def)
  have c1: "count_at d1 k = ?n" using d1(2) by (simp add: count_at_def)
  show ?thesis
  proof (cases "cap < ?n")
    case True
    let ?d2 = "put_list (dlq_key a) (t # list_at d (dlq_key a)) d1"
    let ?d3 = "put_list (dlq_key a) (take N (t # list_at d (dlq_key a))) ?d2"
    let ?d4 = "upd k None NoTtl ?d3"
    have run: "f ?n d1 = (Inr (x, y + 1), ?d4)"
      using True ty1 pos(2) by (simp add: f_def arg_or_raise_def run_simps view_simps first_range_def)
    have lv: "live ?d4 = (live d)(dlq_key a \<mapsto> RList (take N (t # list_at d (dlq_key a))), k := None)"
      using d1(2) pos(2) ne by (auto simp: fun_eq_iff view_simps)
    have "count_at ?d4 = (count_at d)(k := 0)"
      using ne count_at_list[OF ty(2)] by (auto simp: fun_eq_iff count_at_def lv)
    moreover have "countable_for n ?d4 k'" if "k' \<in> range (recoverCount_key a)" "countable_for (Suc n) d k'" for k'
      using that countable_for_mono[of "Suc n" d k' n] k(1) by (cases "k' = k") (auto simp: countable_for_def count_at_def holds_def lv)
    ultimately show ?thesis
      using tri Some True ty start run ne k(2) by (auto simp: delivered_def frame_def lv holds_def simp del: take_append)
  next
    case False
    let ?d2 = "put_list (queue_key a) (list_at d (queue_key a) @ [t]) d1"
    have run: "f ?n d1 = (Inr (x + 1, y), ?d2)"
      using False ty1 by (simp add: f_def arg_or_raise_def run_simps)
    have lv: "live ?d2 = (live d)(queue_key a \<mapsto> RList (list_at d (queue_key a) @ [t]), k \<mapsto> RString (show_int ?n))"
      using d1(2) ne by (auto simp: fun_eq_iff view_simps)
    have "count_at ?d2 = (count_at d)(k := ?n)"
      using ne count_at_list[OF ty(1)] by (auto simp: fun_eq_iff count_at_def lv)
    moreover have "countable_for n ?d2 k'" if "k' \<in> range (recoverCount_key a)" "countable_for (Suc n) d k'" for k'
      using that countable_for_mono[of "Suc n" d k' n] k(1) by (cases "k' = k") (auto simp: countable_for_def count_at_def holds_def lv)
    ultimately show ?thesis
      using tri Some False ty start run ne k(2) by (auto simp: delivered_def frame_def lv holds_def simp del: take_append)
  qed
qed

abbreviation recovery_keys :: "string \<Rightarrow> string set" where
  "recovery_keys a \<equiv> {queue_key a, dlq_key a} \<union> range (recoverCount_key a)"

lemma recover_tasks_run:
  assumes pos: "0 < ttl" "0 < N" and K: "K \<subseteq> range (recoverCount_key a)"
  shows "holds d (queue_key a) TList \<Longrightarrow> holds d (dlq_key a) TList \<Longrightarrow> counters_of xs \<subseteq> K \<Longrightarrow>
    \<forall>k \<in> K. countable_for (length xs + n) d k \<Longrightarrow> triage cap (count_at d) xs = (r, q, c) \<Longrightarrow>
    \<exists>d'. foldM (recover_task (queue_key a) (dlq_key a) cap N ttl) (x, y) (map (map_prod JStr id) xs) d = (Inr (x + length r, y + length q), d')
     \<and> delivered N a r q d d' \<and> count_at d' = c \<and> frame (recovery_keys a) d d' \<and> (\<forall>k \<in> K. countable_for n d' k)"
proof (induction xs arbitrary: d x y r q)
  case Nil
  then show ?case by (auto simp: ret_run delivered_def)
next
  case (Cons item xs)
  obtain t ko where item: "item = (t, ko)" by fastforce
  obtain r1 q1 c1 where t1: "triage cap (count_at d) [(t, ko)] = (r1, q1, c1)" by (metis prod_cases3)
  obtain r2 q2 c2 where t2: "triage cap c1 xs = (r2, q2, c2)" by (metis prod_cases3)
  have rq: "r = r1 @ r2" "q = q1 @ q2" "c = c2"
    using triage_append[OF t1 t2] Cons.prems(5) item by auto
  have cnt: "countable_for (Suc (length xs + n)) d k \<and> k \<in> range (recoverCount_key a)" if "ko = Some k" for k
    using Cons.prems(3,4) item that K by auto
  from recover_task_run[OF Cons.prems(1,2) pos cnt t1, of x y] obtain d1 where
    d1: "recover_task (queue_key a) (dlq_key a) cap N ttl (x, y) (JStr t, ko) d = (Inr (x + length r1, y + length q1), d1)"
      "delivered N a r1 q1 d d1" "count_at d1 = c1" "frame (recovery_keys a) d d1"
      "\<forall>k \<in> range (recoverCount_key a). countable_for (Suc (length xs + n)) d k \<longrightarrow> countable_for (length xs + n) d1 k"
    by blast
  have ty1: "holds d1 (queue_key a) TList" "holds d1 (dlq_key a) TList" using d1(2) by (simp_all add: delivered_def)
  have sub: "counters_of xs \<subseteq> K" using Cons.prems(3) item by (cases ko) auto
  have cf: "\<forall>k \<in> K. countable_for (length xs + n) d1 k" using d1(5) Cons.prems(4) K by auto
  have t2': "triage cap (count_at d1) xs = (r2, q2, c)" using t2 rq(3) d1(3) by simp
  from Cons.IH[OF ty1 sub cf t2', of "x + length r1" "y + length q1"] obtain d2 where
    d2: "foldM (recover_task (queue_key a) (dlq_key a) cap N ttl) (x + length r1, y + length q1) (map (map_prod JStr id) xs) d1
          = (Inr (x + length r1 + length r2, y + length q1 + length q2), d2)"
      "delivered N a r2 q2 d1 d2" "count_at d2 = c" "frame (recovery_keys a) d1 d2" "\<forall>k \<in> K. countable_for n d2 k"
    by blast
  have "foldM (recover_task (queue_key a) (dlq_key a) cap N ttl) (x, y) (map (map_prod JStr id) (item # xs)) d
      = (Inr (x + length r, y + length q), d2)"
    using d1(1) d2(1) item rq by (simp add: bindM_ok)
  moreover have "delivered N a r q d d2" unfolding rq by (rule delivered_trans[OF d1(2) d2(2)])
  ultimately show ?case using d2(3,5) frame_trans[OF d1(4) d2(4)] by blast
qed

text \<open>The tasks of the given claims, in order, with their counters.\<close>

abbreviation expired_items :: "runtime \<Rightarrow> db \<Rightarrow> string list \<Rightarrow> (string \<times> string option) list" where
  "expired_items E d ids \<equiv> concat (map (\<lambda>i. claim_items E (the (claim_at E d i))) ids)"

context js_runtime
begin

lemma recover_entries_run:
  assumes pos: "0 < ttl" "0 < N" and K: "K \<subseteq> range (recoverCount_key a)"
  shows "claims_ok E d \<Longrightarrow> distinct ids \<Longrightarrow> \<forall>i \<in> set ids. \<exists>c. claim_at E d i = Some c \<and> tc_actor_id c = a \<Longrightarrow>
    holds d (queue_key a) TList \<Longrightarrow> holds d (dlq_key a) TList \<Longrightarrow> counters_of (expired_items E d ids) \<subseteq> K \<Longrightarrow>
    \<forall>k \<in> K. countable_for (length (expired_items E d ids)) d k \<Longrightarrow> triage cap (count_at d) (expired_items E d ids) = (r, q, c) \<Longrightarrow>
    \<exists>d'. foldM (recover_entry (claimsIndex_key a) (queue_key a) (dlq_key a) cap N ttl) (x, y)
        (map (\<lambda>i. (i, map (map_prod JStr id) (claim_items E (the (claim_at E d i))))) ids) d = (Inr (x + length r, y + length q), d')
     \<and> delivered N a r q d d' \<and> claims_ok E d' \<and> (\<forall>i. claim_at E d' i = (if i \<in> set ids then None else claim_at E d i))
     \<and> claimed E d a = claimed E d' a + mset (map fst (expired_items E d ids))
     \<and> frame (recovery_keys a \<union> {claims_key, claimsIndex_key a}) d d'"
proof (induction ids arbitrary: d x y r q)
  case Nil
  then show ?case by (auto simp: ret_run delivered_def)
next
  case (Cons i ids)
  from Cons.prems(3) obtain cl where cl: "claim_at E d i = Some cl" "tc_actor_id cl = a" by auto
  note okD = claims_okD[OF Cons.prems(1)]
  from claims_set_remove[OF okD(1), of i a] okD(2,3) obtain d1 where
    d1: "thenM (HDEL claims_key i) (ZREM (claimsIndex_key a) i) d = (Inr (), d1)" "claims_set i a None None d d1" "frame {claims_key, claimsIndex_key a} d d1"
    by blast
  have ok1: "claims_ok E d1" by (rule claims_set_ok[OF Cons.prems(1) d1(2)]) (use cl in auto)
  have at1: "claim_at E d1 = (claim_at E d)(i := None)" using claims_set_claim_at[OF d1(2)] by simp
  have cnt1: "count_at d1 = count_at d"
  proof
    fix k
    show "count_at d1 k = count_at d k"
    proof (cases "k \<in> {claims_key, claimsIndex_key a}")
      case True
      then show ?thesis
        using count_at_other[OF okD(1)] count_at_other[OF okD(2)[of a]] count_at_other[OF claims_okD(1)[OF ok1]]
          count_at_other[OF claims_okD(2)[OF ok1, of a]] by auto
    next
      case False
      with d1(3) show ?thesis by (simp add: count_at_def frameD)
    qed
  qed
  have ty1: "holds d1 (queue_key a) TList" "holds d1 (dlq_key a) TList"
    using Cons.prems(4,5) d1(3) by (simp_all add: frame_holds)
  let ?it = "claim_items E cl"
  have ei: "expired_items E d (i # ids) = ?it @ expired_items E d ids" using cl by simp
  have ei1: "expired_items E d1 ids = expired_items E d ids"
    using Cons.prems(2) at1 by (intro arg_cong[where f = concat] map_cong) auto
  obtain r1 q1 c1 where t1: "triage cap (count_at d1) ?it = (r1, q1, c1)" by (metis prod_cases3)
  obtain r2 q2 c2 where t2: "triage cap c1 (expired_items E d ids) = (r2, q2, c2)" by (metis prod_cases3)
  have rq: "r = r1 @ r2" "q = q1 @ q2" "c = c2"
    using triage_append[OF t1[unfolded cnt1] t2] Cons.prems(8) ei by auto
  have sub: "counters_of ?it \<subseteq> K" "counters_of (expired_items E d ids) \<subseteq> K" using Cons.prems(6) unfolding ei by auto
  have cf: "\<forall>k \<in> K. countable_for (length ?it + length (expired_items E d ids)) d1 k"
  proof
    fix k assume k: "k \<in> K"
    then have "live d1 k = live d k" using K d1(3) by (intro frameD) auto
    with k Cons.prems(7) show "countable_for (length ?it + length (expired_items E d ids)) d1 k"
      unfolding ei by (simp add: countable_for_live[of d1 k d])
  qed
  from recover_tasks_run[OF pos K ty1 sub(1) cf t1, of x y] obtain d2 where
    d2: "foldM (recover_task (queue_key a) (dlq_key a) cap N ttl) (x, y) (map (map_prod JStr id) ?it) d1 = (Inr (x + length r1, y + length q1), d2)"
      "delivered N a r1 q1 d1 d2" "count_at d2 = c1" "frame (recovery_keys a) d1 d2" "\<forall>k \<in> K. countable_for (length (expired_items E d ids)) d2 k"
    by blast
  have del: "delivered N a r1 q1 d d2" using d2(2) d1(3) by (simp add: delivered_def frameD)
  have ok2: "claims_ok E d2" by (rule claims_ok_frame[OF ok1 d2(4)]) auto
  have at2: "claim_at E d2 = claim_at E d1" using frameD[OF d2(4), of claims_key] by (intro ext) (auto simp: claim_at_def)
  have ei2: "expired_items E d2 ids = expired_items E d ids" by (simp add: at2 ei1)
  from d1(1) obtain d0 where "HDEL claims_key i d = (Inr (), d0)" "ZREM (claimsIndex_key a) i d0 = (Inr (), d1)"
    by (auto elim!: thenM_Inr_E)
  then have ent: "recover_entry (claimsIndex_key a) (queue_key a) (dlq_key a) cap N ttl (x, y) (i, map (map_prod JStr id) ?it) d
      = (Inr (x + length r1, y + length q1), d2)"
    using d2(1) by (simp add: recover_entry_def thenM_ok)
  have all2: "\<forall>j \<in> set ids. \<exists>c. claim_at E d2 j = Some c \<and> tc_actor_id c = a" using Cons.prems(2,3) at1 at2 by auto
  have ty2: "holds d2 (queue_key a) TList" "holds d2 (dlq_key a) TList" using del by (simp_all add: delivered_def)
  have dist: "distinct ids" using Cons.prems(2) by simp
  have t2': "triage cap (count_at d2) (expired_items E d ids) = (r2, q2, c)" using t2 rq(3) d2(3) by simp
  note IH = Cons.IH[OF ok2 dist all2 ty2, unfolded ei2, OF sub(2) d2(5) t2', of "x + length r1" "y + length q1"]
  from IH obtain d3 where
    d3: "foldM (recover_entry (claimsIndex_key a) (queue_key a) (dlq_key a) cap N ttl) (x + length r1, y + length q1)
        (map (\<lambda>i. (i, map (map_prod JStr id) (claim_items E (the (claim_at E d2 i))))) ids) d2 = (Inr (x + length r1 + length r2, y + length q1 + length q2), d3)"
      "delivered N a r2 q2 d2 d3" "claims_ok E d3" "\<forall>i. claim_at E d3 i = (if i \<in> set ids then None else claim_at E d2 i)"
      "claimed E d2 a = claimed E d3 a + mset (map fst (expired_items E d ids))"
      "frame (recovery_keys a \<union> {claims_key, claimsIndex_key a}) d2 d3"
    by blast
  have "map (\<lambda>i. (i, map (map_prod JStr id) (claim_items E (the (claim_at E d2 i))))) ids
      = map (\<lambda>i. (i, map (map_prod JStr id) (claim_items E (the (claim_at E d i))))) ids"
    using Cons.prems(2) at1 at2 by (intro map_cong) auto
  with ent d3(1) cl rq have "foldM (recover_entry (claimsIndex_key a) (queue_key a) (dlq_key a) cap N ttl) (x, y)
        (map (\<lambda>i. (i, map (map_prod JStr id) (claim_items E (the (claim_at E d i))))) (i # ids)) d = (Inr (x + length r, y + length q), d3)"
    by (simp add: bindM_ok add.assoc)
  moreover have "delivered N a r q d d3" unfolding rq by (rule delivered_trans[OF del d3(2)])
  moreover have "claim_at E d3 j = (if j \<in> set (i # ids) then None else claim_at E d j)" for j using d3(4) at1 at2 by auto
  moreover have "claimed E d a = claimed E d3 a + mset (map fst (expired_items E d (i # ids)))"
    using claimed_remove[OF Cons.prems(1) d1(2) cl] claimed_frame[OF d2(4), of a E] d3(5) ei ei2 by simp
  moreover have "frame (recovery_keys a \<union> {claims_key, claimsIndex_key a}) d d3"
    by (rule frame_trans[OF frame_mono[OF d1(3)] frame_trans[OF frame_mono[OF d2(4)] d3(6)]]) auto
  ultimately show ?case using d3(3) by blast
qed

end

section \<open>The script\<close>

definition expired_ids :: "db \<Rightarrow> string \<Rightarrow> int \<Rightarrow> string list" where
  "expired_ids d a now = map fst (filter (\<lambda>(m, s). s \<le> now - 1) (by_score (zset_at d (claimsIndex_key a))))"

text \<open>Every destination the expired tasks could reach is usable.\<close>

definition recoverable :: "runtime \<Rightarrow> db \<Rightarrow> string \<Rightarrow> int \<Rightarrow> bool" where
  "recoverable E d a now \<longleftrightarrow> holds d (queue_key a) TList \<and> holds d (dlq_key a) TList
     \<and> (\<forall>k \<in> counters_of (expired_items E d (expired_ids d a now)). counter_good d k)"

text \<open>What recovery does to the tasks: those back to the inbox and those to the dead-letter queue.\<close>

definition recovery_split :: "runtime \<Rightarrow> db \<Rightarrow> string \<Rightarrow> int \<Rightarrow> int \<Rightarrow> string list \<times> string list" where
  "recovery_split E d a now cap =
     (case triage cap (count_at d) (expired_items E d (expired_ids d a now)) of (r, q, _) \<Rightarrow> (r, q))"

lemma mset_expired_ids: "mset (expired_ids d a now) = mset (map fst (filter (\<lambda>(m, s). s \<le> now - 1) (zset_at d (claimsIndex_key a))))"
  by (simp add: expired_ids_def)

lemma expired_ids_distinct: "distinct (map fst (zset_at d (claimsIndex_key a))) \<Longrightarrow> distinct (expired_ids d a now)"
  using mset_eq_imp_distinct_iff[OF mset_expired_ids] distinct_map_filter by blast

lemma set_expired_ids:
  assumes "distinct (map fst (zset_at d (claimsIndex_key a)))"
  shows "i \<in> set (expired_ids d a now) \<longleftrightarrow> (\<exists>s. score_at d a i = Some s \<and> s < now)"
proof -
  have "i \<in> set (expired_ids d a now) \<longleftrightarrow> (\<exists>s. (i, s) \<in> set (zset_at d (claimsIndex_key a)) \<and> s < now)"
    by (force simp: expired_ids_def)
  with assms show ?thesis by (simp add: score_at_def)
qed

lemma counters_of_concat: "k \<in> counters_of (concat (map f ids)) \<longleftrightarrow> (\<exists>i \<in> set ids. k \<in> counters_of (f i))"
  by (auto simp: counters_of_def image_iff)

lemma Ball_counters_of_concat:
  "(\<forall>k \<in> counters_of (concat (map f ids)). P k) \<longleftrightarrow> (\<forall>i \<in> set ids. \<forall>k \<in> counters_of (f i). P k)"
  by (auto simp: counters_of_concat)

context js_runtime
begin

lemma expired_claims:
  assumes ok: "claims_ok E d"
  shows "\<forall>i \<in> set (expired_ids d a now). \<exists>c. claim_at E d i = Some c \<and> tc_actor_id c = a"
  using indexed_claim[OF ok] set_expired_ids[OF claims_okD(3)[OF ok]] by blast

lemma expired_counters:
  assumes ok: "claims_ok E d"
  shows "counters_of (expired_items E d (expired_ids d a now)) \<subseteq> range (recoverCount_key a)"
proof
  fix k assume "k \<in> counters_of (expired_items E d (expired_ids d a now))"
  then obtain i where i: "i \<in> set (expired_ids d a now)" "k \<in> counters_of (claim_items E (the (claim_at E d i)))"
    by (auto simp: counters_of_concat)
  with expired_claims[OF ok, of a now] obtain c where "claim_at E d i = Some c" "tc_actor_id c = a" by blast
  with i(2) show "k \<in> range (recoverCount_key a)"
    by (auto simp: claim_items_def counters_of_def task_counter_def split: option.splits if_splits)
qed

lemma recover_start:
  assumes ok: "claims_ok E d" and some: "expired_ids d a now \<noteq> []"
  shows "claims_recover E a now cap N ttl d =
     (if \<not> (\<forall>k \<in> counters_of (expired_items E d (expired_ids d a now)). counter_good d k) then (Inr (Inl Counter_role), d)
      else if \<not> holds d (queue_key a) TList then (Inr (Inl Inbox_role), d)
      else if \<not> holds d (dlq_key a) TList then (Inr (Inl Dlq_role), d)
      else bindM (foldM (recover_entry (claimsIndex_key a) (queue_key a) (dlq_key a) cap N ttl) (0, 0)
        (map (\<lambda>i. (i, map (map_prod JStr id) (claim_items E (the (claim_at E d i))))) (expired_ids d a now))) (\<lambda>counts. ret (Inr counts)) d)"
proof -
  have "ZRANGEBYSCORE_upto (claimsIndex_key a) (now - 1) d = (Inr (expired_ids d a now), d)"
    using claims_okD(2)[OF ok] by (simp add: run_simps expired_ids_def)
  moreover have "list_all (\<lambda>i. claim_at E d i \<noteq> None) (expired_ids d a now)"
    using expired_claims[OF ok] by (force simp: list_all_iff)
  note plan_all_run[OF ok this]
  ultimately show ?thesis
    using some
    by (auto simp: claims_recover_def Let_def bindM_ok bindM_False ret_run Ball_counters_of_concat TYPE_none_or_def getM_run)
qed

lemma recover_run:
  assumes ok: "claims_ok E d" and rec: "recoverable E d a now" and pos: "0 < ttl" "0 < N"
    and small: "length (expired_items E d (expired_ids d a now)) < 2 ^ 61"
    and split: "recovery_split E d a now cap = (r, q)"
  shows "\<exists>d'. claims_recover E a now cap N ttl d = (Inr (Inr (length r, length q)), d') \<and> delivered N a r q d d' \<and> claims_ok E d'
     \<and> (\<forall>i. claim_at E d' i = (if i \<in> set (expired_ids d a now) then None else claim_at E d i))
     \<and> claimed E d a = claimed E d' a + mset r + mset q
     \<and> frame (recovery_keys a \<union> {claims_key, claimsIndex_key a}) d d'"
proof (cases "expired_ids d a now = []")
  case True
  then have "ZRANGEBYSCORE_upto (claimsIndex_key a) (now - 1) d = (Inr [], d)"
    using claims_okD(2)[OF ok] by (simp add: run_simps expired_ids_def)
  then have "claims_recover E a now cap N ttl d = (Inr (Inr (0, 0)), d)"
    by (simp add: claims_recover_def Let_def bindM_ok ret_run)
  with True split ok rec show ?thesis by (auto simp: recovery_split_def delivered_def recoverable_def)
next
  case False
  let ?xs = "expired_items E d (expired_ids d a now)"
  from split obtain c where tri: "triage cap (count_at d) ?xs = (r, q, c)" by (auto simp: recovery_split_def split: prod.splits)
  have good: "\<forall>k \<in> counters_of ?xs. countable_for (length ?xs) d k"
    using rec small counter_good_countable by (auto simp: recoverable_def)
  have ty: "holds d (queue_key a) TList" "holds d (dlq_key a) TList" using rec by (simp_all add: recoverable_def)
  from recover_entries_run[OF pos expired_counters[OF ok] ok expired_ids_distinct[OF claims_okD(3)[OF ok]] expired_claims[OF ok] ty order_refl good tri, of 0 0]
  obtain d' where d': "foldM (recover_entry (claimsIndex_key a) (queue_key a) (dlq_key a) cap N ttl) (0, 0)
        (map (\<lambda>i. (i, map (map_prod JStr id) (claim_items E (the (claim_at E d i))))) (expired_ids d a now)) d = (Inr (length r, length q), d')"
     "delivered N a r q d d'" "claims_ok E d'" "\<forall>i. claim_at E d' i = (if i \<in> set (expired_ids d a now) then None else claim_at E d i)"
     "claimed E d a = claimed E d' a + mset (map fst ?xs)" "frame (recovery_keys a \<union> {claims_key, claimsIndex_key a}) d d'"
    by auto
  have "claims_recover E a now cap N ttl d = (Inr (Inr (length r, length q)), d')"
    using recover_start[OF ok False] rec d'(1) by (simp add: recoverable_def bindM_ok ret_run)
  with d' triage_mset[OF tri] show ?thesis by (auto simp: add.assoc)
qed

lemma recover_refused:
  assumes "claims_ok E d" and "\<not> recoverable E d a now"
  shows "\<exists>res. claims_recover E a now cap N ttl d = (Inr res, d) \<and> (res = Inr (0, 0) \<longleftrightarrow> expired_ids d a now = []) \<and> (\<forall>x. res = Inr x \<longrightarrow> x = (0, 0))"
proof (cases "expired_ids d a now = []")
  case True
  then have "ZRANGEBYSCORE_upto (claimsIndex_key a) (now - 1) d = (Inr [], d)"
    using claims_okD(2)[OF assms(1)] by (simp add: run_simps expired_ids_def)
  then show ?thesis using True by (simp add: claims_recover_def Let_def bindM_ok ret_run)
next
  case False
  with recover_start[OF assms(1) False, of cap N ttl] assms(2) show ?thesis by (auto simp: recoverable_def)
qed

end

end
