(* ===== verification/Mailbox_Props.thy ===== *)
theory Mailbox_Props
  imports Mailbox_Store
begin

text \<open>
  Delivery through the mailbox store: a send delivers at most once, a retried idempotent send is
  deduplicated, a receive takes the oldest message, and a mailbox moves as a whole.
\<close>

section \<open>Sending\<close>

text \<open>A step that changed nothing because the mailbox was full.\<close>

definition full_step :: "nat \<Rightarrow> string \<Rightarrow> db \<times> db \<Rightarrow> bool" where
  "full_step bound agent step \<longleftrightarrow> snd step = fst step \<and> bound \<le> length (list_at (fst step) (queue_key agent))"

context js_runtime
begin

lemma bounded_push_outcome:
  assumes "wire_json (message_json m)" and "bounded_push E bound m d = (Inr b, d')"
  shows "if b then push_types m d \<and> length (list_at d (queue_key (m_to m))) < bound \<and> d' = pushed_db E m id d
    else full_step bound (m_to m) (d, d')"
proof (cases "push_types m d \<and> length (list_at d (queue_key (m_to m))) < bound")
  case True
  with bounded_push_run(1)[OF assms(1), of d bound] assms(2) show ?thesis by simp
next
  case False
  with bounded_push_run(2,3)[OF assms(1), of d bound] assms(2) have r: "\<not> b \<and> d' = d"
    by (cases "push_types m d") (auto simp: push_types_def)
  moreover have "\<not> b \<Longrightarrow> bound \<le> length (list_at d (queue_key (m_to m)))"
    using assms(2) by (auto simp: bounded_push_def thenM_def ret_def elim!: bindM_Inr_E split: if_splits)
      (auto simp: LLEN_def on_type_def getM_def split: if_splits)
  ultimately show ?thesis by (simp add: full_step_def)
qed

lemma send_loop_history:
  assumes wire: "wire_json (message_json m)"
  shows "send_loop n E bound m w = (Inr sent, w') \<Longrightarrow>
    (if sent
     then \<exists>d rest. history w' = (d, redis w') # rest @ history w \<and> length rest < n \<and> list_all (full_step bound (m_to m)) rest
       \<and> length (list_at d (queue_key (m_to m))) < bound \<and> redis w' = pushed_db E m id d
     else \<exists>steps. history w' = steps @ history w \<and> length steps = n \<and> list_all (full_step bound (m_to m)) steps)"
proof (induction n arbitrary: w)
  case 0
  then show ?case by (auto simp: ret_def)
next
  case (Suc n)
  then obtain b w1 where push: "atomic (bounded_push E bound m) w = (Inr b, w1)"
    and k: "(if b then ret True else send_loop n E bound m) w1 = (Inr sent, w')"
    by (auto elim: bindM_Inr_E)
  from push obtain d1 where d1: "bounded_push E bound m (next_db w) = (Inr b, d1)" and w1: "w1 = after_step w d1"
    by (rule atomic_E)
  note out = bounded_push_outcome[OF wire d1]
  show ?case
  proof (cases b)
    case True
    with k w1 out show ?thesis by (auto simp: ret_def intro: exI[of _ "next_db w"])
  next
    case False
    with k have "send_loop n E bound m w1 = (Inr sent, w')" by simp
    from Suc.IH[OF this] w1 out False show ?thesis
      by (cases sent) (fastforce intro: exI[of _ "_ @ [(next_db w, d1)]"])+
  qed
qed

end

text \<open>
  (C7) Whatever other clients do meanwhile, a send that reports success appended the message exactly once,
  to a mailbox below its bound, in the last of at most ten steps, and none of its other steps changed
  anything; a send that reports failure made ten attempts, each found the mailbox full, and none
  changed anything.
\<close>

theorem send_at_most_once:
  assumes "js_runtime E" and "wire_json (message_json m)" and "send E bound m w = (Inr sent, w')"
  shows "if sent
    then \<exists>d rest. history w' = (d, redis w') # rest @ history w \<and> length rest < 10 \<and> list_all (full_step bound (m_to m)) rest
      \<and> length (list_at d (queue_key (m_to m))) < bound
      \<and> list_at (redis w') (queue_key (m_to m)) = list_at d (queue_key (m_to m)) @ [message_text E m]
    else \<exists>steps. history w' = steps @ history w \<and> length steps = 10 \<and> list_all (full_step bound (m_to m)) steps"
  using js_runtime.send_loop_history[OF assms(1,2) assms(3)[unfolded send_def]]
    pushed_db_views(1)[where K = "{}" and mark = id and m = m and E = E]
  by (auto split: if_splits)

definition demo_message :: QueueMessage where
  "demo_message = \<lparr>m_id = ''m1'', m_from = ''alice'', m_to = ''bob'', m_timestamp = ''t'', m_type = Task,
     m_content = ''hello'', m_metadata = None, m_in_reply_to = None\<rparr>"

lemma wire_message:
  assumes "\<And>j. m_metadata m = Some j \<Longrightarrow> wire 30 j"
  shows "wire_json (message_json m)"
proof -
  have "wire (Suc 30) (obj ([(''content'', JStr (m_content m))]
         @ opt_member ''metadata'' (m_metadata m) @ opt_member ''in_reply_to'' (map_option JStr (m_in_reply_to m))))"
    by (rule wire_objI) (use assms in \<open>auto split: option.splits\<close>)
  then have "wire (Suc (Suc 30)) (message_json m)" unfolding message_json_def by (intro wire_objI) simp
  then show ?thesis by (simp add: max_depth_def)
qed

lemma wire_demo: "wire_json (message_json demo_message)"
  by (rule wire_message) (simp add: demo_message_def)

lemma empty_db_live [simp]: "live empty_db k = None" "holds empty_db k t"
  by (simp_all add: empty_db_def live_def holds_def)

lemma push_types_empty: "push_types m empty_db"
  by (simp add: push_types_def)

lemma demo_send: "\<exists>w'. send std_env 10 demo_message (quiet_world empty_db) = (Inr True, w')"
proof -
  have "bounded_push std_env 10 demo_message empty_db = (Inr True, pushed_db std_env demo_message id empty_db)"
    by (rule std.bounded_push_run(1)[OF wire_demo push_types_empty]) simp
  then have "runs (atomic (bounded_push std_env 10 demo_message) :: (world, _) comp) empty_db True (pushed_db std_env demo_message id empty_db)"
    by (rule runs_atomic)
  then have "runs (send std_env 10 demo_message :: (world, _) comp) empty_db True (pushed_db std_env demo_message id empty_db)"
    unfolding send_def numeral_eq_Suc pred_numeral_simps send_loop.simps by (rule runs_bindM) (simp add: runs_ret)
  from runsD[OF this, of "quiet_world empty_db"] show ?thesis by auto
qed

theorem send_at_most_once_witness:
  "\<exists>w'. send std_env 10 demo_message (quiet_world empty_db) = (Inr True, w')
     \<and> (\<exists>d. list_at (redis w') (queue_key ''bob'') = list_at d (queue_key ''bob'') @ [message_text std_env demo_message])"
  using demo_send send_at_most_once[OF std.js_runtime_axioms wire_demo, of 10 "quiet_world empty_db" True]
  by (auto simp: demo_message_def)

section \<open>Retry deduplication\<close>

lemma SET_frame: "live (upd k v (Ex 86400) d) x = (if x = k then v else live d x)"
  by (simp add: live_upd)

context js_runtime
begin

lemma idempotent_push_run:
  assumes wire: "wire_json (message_json m)" and t: "push_types m d" "holds d (dedupe_key E s k) TString"
    and "live d (dedupe_key E s k) = None" and "length (list_at d (queue_key (m_to m))) < bound"
  shows "bounded_push_idempotent E bound (dedupe_key E s k) m d
      = (Inr (Sent, m_id m), pushed_db E m (upd (dedupe_key E s k) (Some (RString (m_id m))) (Ex 86400)) d)"
proof -
  have "push_checked E (queue_key (m_to m)) (mailboxMeta_key (m_to m)) (inboxEvents_key (m_to m)) (message_outstanding_key m) m
      (length (list_at d (queue_key (m_to m)))) (SET (dedupe_key E s k) (m_id m) (Ex 86400)) d
      = (Inr (), pushed_db E m (upd (dedupe_key E s k) (Some (RString (m_id m))) (Ex 86400)) d)"
    by (rule push_checked_run[OF wire t(1)]) (auto simp: run_simps view_simps)
  with assms show ?thesis by (simp add: bounded_push_idempotent_def run_simps push_types_def)
qed

lemma idempotent_duplicate:
  "str_at d dk = Some i \<Longrightarrow> bounded_push_idempotent E bound dk m d = (Inr (Duplicate, i), d)"
  by (cases "live d dk" rule: as_str.cases) (simp_all add: bounded_push_idempotent_def run_simps holds_def)

lemma pushed_dedupe:
  "str_at (pushed_db E m (upd (dedupe_key E s k) (Some (RString i)) (Ex 86400)) d) (dedupe_key E s k) = Some i"
  by (simp add: pushed_db_def Let_def view_simps)

lemma sendIdempotent_first:
  assumes "bounded_push_idempotent E bound (dedupe_key E s k) m d = (Inr r, d')" and "fst r \<noteq> Full"
  shows "runs (sendIdempotent E bound m s k) d r d'"
  unfolding sendIdempotent_def numeral_eq_Suc pred_numeral_simps sendIdempotent_loop.simps
  by (rule runs_bindM, rule runs_atomic, rule assms(1)) (simp add: assms(2) runs_ret)

end

text \<open>
  Retrying an idempotent send under the same caller key, with a newly built message, delivers
  nothing more: the first send queues its message, the retry reports a duplicate with the first
  message's id and leaves the database as it was.
\<close>

lemma sendIdempotent_retry:
  assumes "js_runtime E" and "wire_json (message_json m)" and "push_types m d" and "live d (dedupe_key E s k) = None"
    and "length (list_at d (queue_key (m_to m))) < bound" and "quiet w" and "redis w = d"
  shows "\<exists>w1 w2. sendIdempotent E bound m s k w = (Inr (Sent, m_id m), w1)
     \<and> list_at (redis w1) (queue_key (m_to m)) = list_at d (queue_key (m_to m)) @ [message_text E m]
     \<and> sendIdempotent E bound m' s k w1 = (Inr (Duplicate, m_id m), w2) \<and> redis w2 = redis w1"
proof -
  let ?mark = "upd (dedupe_key E s k) (Some (RString (m_id m))) (Ex 86400)"
  let ?d1 = "pushed_db E m ?mark d"
  have "holds d (dedupe_key E s k) TString" using assms(4) by (simp add: holds_def)
  from js_runtime.idempotent_push_run[OF assms(1-3) this assms(4,5)]
  have "runs (sendIdempotent E bound m s k :: ('a world_scheme, _) comp) d (Sent, m_id m) ?d1"
    by (rule js_runtime.sendIdempotent_first[OF assms(1)]) simp
  from runsD[OF this assms(6,7)] obtain w1 where w1: "sendIdempotent E bound m s k w = (Inr (Sent, m_id m), w1)" "quiet w1" "redis w1 = ?d1"
    by blast
  have "runs (sendIdempotent E bound m' s k :: ('a world_scheme, _) comp) ?d1 (Duplicate, m_id m) ?d1"
    by (rule js_runtime.sendIdempotent_first[OF assms(1)])
      (simp_all add: js_runtime.idempotent_duplicate[OF assms(1)] js_runtime.pushed_dedupe[OF assms(1)])
  from runsD[OF this w1(2,3)] w1
    pushed_db_views(1)[where K = "{dedupe_key E s k}" and mark = ?mark and m = m and E = E and d = d]
  show ?thesis by (auto simp: view_simps)
qed

section \<open>Receiving\<close>

text \<open>
  A receive takes at most one message, the oldest. Either its pop found the mailbox empty and nothing
  changed, or the pop removed the first entry and nothing else; the value returned is that entry parsed,
  and an entry that does not parse is now the newest of the dead-letter queue, which keeps its bound. The
  second step never touches a mailbox.
\<close>

lemma receive_takes_oldest:
  assumes "receive E a w = (Inr r, w')"
  shows "(r = None \<and> (\<exists>d. history w' = (d, d) # history w \<and> list_at d (queue_key a) = []))
    \<or> (\<exists>payload d d1 d2. history w' = (d2, redis w') # (d, d1) # history w
        \<and> list_at d (queue_key a) = payload # list_at d1 (queue_key a) \<and> (\<forall>k. k \<noteq> queue_key a \<longrightarrow> live d1 k = live d k)
        \<and> r = JSON_parse E payload
        \<and> (\<forall>b. live (redis w') (queue_key b) = live d2 (queue_key b))
        \<and> (r = None \<and> holds d2 (dlq_key a) TList \<longrightarrow>
             list_at (redis w') (dlq_key a) = take DLQ_MAX_LENGTH (payload # list_at d2 (dlq_key a))))"
proof -
  from assms obtain x w1 where pop: "cancellablePop (queue_key a) w = (Inr x, w1)"
    and k: "(case x of None \<Rightarrow> ret None
       | Some payload \<Rightarrow> (case JSON_parse E payload of
            None \<Rightarrow> thenM (atomic (catchM (thenM (LPUSH (dlq_key a) [payload]) (LTRIM_first (dlq_key a) DLQ_MAX_LENGTH)) (\<lambda>_. ret ()))) (ret None)
          | Some message \<Rightarrow> thenM (atomic (bindM (LLEN (queue_key a)) (\<lambda>n. HSET (mailboxMeta_key a) ''current_size'' (show_nat n))))
                (ret (Some message)))) w1 = (Inr r, w')"
    unfolding receive_def by (elim bindM_Inr_E) blast
  from pop obtain d1 where d1: "LPOP (queue_key a) (next_db w) = (Inr x, d1)" and w1: "w1 = after_step w d1"
    by (auto simp: cancellablePop_def getM_def throw_def elim!: bindM_Inr_E atomic_E split: if_splits)
  show ?thesis
  proof (cases x)
    case None
    with d1 have "d1 = next_db w" "list_at (next_db w) (queue_key a) = []"
      by (auto simp: LPOP_def on_type_def split: if_splits list.splits)
    with None k w1 show ?thesis by (auto simp: ret_def)
  next
    case (Some payload)
    with d1 have pop: "list_at (next_db w) (queue_key a) = payload # list_at d1 (queue_key a)"
      "\<forall>k. k \<noteq> queue_key a \<longrightarrow> live d1 k = live (next_db w) k"
      by (auto simp: LPOP_def on_type_def view_simps split: if_splits list.splits)
    show ?thesis
    proof (cases "JSON_parse E payload")
      case None
      let ?d = "next_db w1"
      define d3 where "d3 = (if holds ?d (dlq_key a) TList then put_list (dlq_key a) (take DLQ_MAX_LENGTH (payload # list_at ?d (dlq_key a)))
          (put_list (dlq_key a) (payload # list_at ?d (dlq_key a)) ?d) else ?d)"
      have "catchM (thenM (LPUSH (dlq_key a) [payload]) (LTRIM_first (dlq_key a) DLQ_MAX_LENGTH)) (\<lambda>_. ret ()) ?d = (Inr (), d3)"
        by (cases "holds ?d (dlq_key a) TList") (simp_all add: d3_def run_simps view_simps first_range_def DLQ_MAX_LENGTH_def)
      then have "r = None" "w' = after_step w1 d3" using Some None k by (simp_all add: run_simps)
      moreover have "live d3 (queue_key b) = live ?d (queue_key b)" for b by (simp add: d3_def view_simps)
      moreover have "holds ?d (dlq_key a) TList \<Longrightarrow> list_at d3 (dlq_key a) = take DLQ_MAX_LENGTH (payload # list_at ?d (dlq_key a))"
        by (simp add: d3_def view_simps DLQ_MAX_LENGTH_def)
      ultimately show ?thesis using pop None w1 by auto
    next
      case (Some j)
      with \<open>x = Some payload\<close> k obtain d3 where st: "bindM (LLEN (queue_key a)) (\<lambda>n. HSET (mailboxMeta_key a) ''current_size'' (show_nat n)) (next_db w1) = (Inr (), d3)"
        and "w' = after_step w1 d3" and "r = Some j"
        by (auto simp: ret_def elim!: thenM_Inr_E atomic_E)
      moreover from st have "live d3 (queue_key b) = live (next_db w1) (queue_key b)" for b
        by (auto simp: LLEN_def HSET_def on_type_def getM_def modifyM_def view_simps elim!: bindM_Inr_E split: if_splits)
      ultimately show ?thesis using pop Some w1 by auto
    qed
  qed
qed

section \<open>Moving a mailbox\<close>

lemma upd_upd_keep: "v \<noteq> None \<Longrightarrow> upd k v' KeepTtl (upd k v KeepTtl d) = upd k v' KeepTtl d"
  by (simp add: upd_def live_def split: option.splits) (auto simp: upd_def fun_upd_def)

lemma put_list_put_list: "xs \<noteq> [] \<Longrightarrow> put_list k ys (put_list k xs d) = put_list k ys d"
  by (simp add: put_list_def upd_upd_keep)

text \<open>Pushing chunk by chunk is pushing at once, for any push \<open>P\<close> that combines list and arguments associatively.\<close>

lemma forM_chunks:
  assumes P: "\<And>d xs. holds d k TList \<Longrightarrow> P xs d = (Inr (), put_list k (g (list_at d k) xs) d)"
    and g: "\<And>l xs ys. g (g l xs) ys = g l (xs @ ys)" "\<And>l xs. xs \<noteq> [] \<Longrightarrow> g l xs \<noteq> []" and n: "0 < n"
  shows "xs \<noteq> [] \<Longrightarrow> holds d k TList \<Longrightarrow> forM (chunks n xs) P d = (Inr (), put_list k (g (list_at d k) xs) d)"
  using n
proof (induction n xs arbitrary: d rule: chunks.induct)
  case (1 n xs)
  let ?d = "put_list k (g (list_at d k) (take n xs)) d"
  have head: "P (take n xs) d = (Inr (), ?d)" using "1.prems"(2) by (rule P)
  have ne: "g (list_at d k) (take n xs) \<noteq> []" using "1.prems" by (intro g(2)) simp
  have ch: "chunks n xs = take n xs # chunks n (drop n xs)" using "1.prems" by (subst chunks.simps) simp
  show ?case
  proof (cases "drop n xs = []")
    case True
    then have "chunks n (drop n xs) = []" by (simp add: chunks.simps)
    with head True ch show ?thesis by (simp add: forM_Cons forM_Nil thenM_ok ret_run)
  next
    case False
    have "forM (chunks n (drop n xs)) P ?d = (Inr (), put_list k (g (list_at ?d k) (drop n xs)) ?d)"
      using "1.IH"[of ?d] "1.prems" False by (simp add: view_simps)
    with head ne ch show ?thesis
      by (simp add: forM_Cons thenM_ok view_simps put_list_put_list g(1))
  qed
qed

lemma forM_RPUSH_chunks:
  "0 < n \<Longrightarrow> xs \<noteq> [] \<Longrightarrow> holds d k TList \<Longrightarrow> forM (chunks n xs) (RPUSH k) d = (Inr (), put_list k (list_at d k @ xs) d)"
  by (rule forM_chunks[where g = "(@)"]) (simp_all add: run_simps)

lemma forM_LPUSH_chunks:
  "0 < n \<Longrightarrow> xs \<noteq> [] \<Longrightarrow> holds d k TList \<Longrightarrow> forM (chunks n xs) (LPUSH k) d = (Inr (), put_list k (rev xs @ list_at d k) d)"
  by (rule forM_chunks[where g = "\<lambda>l xs. rev xs @ l"]) (simp_all add: run_simps)

text \<open>The first chunk already fails on a destination of the wrong type.\<close>

lemma forM_RPUSH_wrongtype:
  "0 < n \<Longrightarrow> xs \<noteq> [] \<Longrightarrow> \<not> holds d k TList \<Longrightarrow> forM (chunks n xs) (RPUSH k) d = (Inl WrongType, d)"
  by (subst chunks.simps) (simp add: run_simps)

lemma migrate_keys_distinct [simp]:
  "claimsIndex_key a \<noteq> queue_key b" "queue_key b \<noteq> claimsIndex_key a" "claimsIndex_key a \<noteq> dlq_key b" "dlq_key b \<noteq> claimsIndex_key a"
  by (simp_all add: key_simps)

definition moved_inbox :: "string \<Rightarrow> string \<Rightarrow> db \<Rightarrow> db" where
  "moved_inbox a b d = (if list_at d (queue_key a) = [] then d
     else upd (queue_key a) None NoTtl (put_list (queue_key b) (list_at d (queue_key b) @ list_at d (queue_key a)) d))"

definition moved_dlq :: "string \<Rightarrow> string \<Rightarrow> db \<Rightarrow> db" where
  "moved_dlq a b d = (if list_at d (dlq_key a) = [] then d
     else upd (dlq_key a) None NoTtl (put_list (dlq_key b) (take DLQ_MAX_LENGTH (list_at d (dlq_key a) @ list_at d (dlq_key b))) d))"

definition migrate_guard :: "string \<Rightarrow> string \<Rightarrow> db \<Rightarrow> bool" where
  "migrate_guard a b d \<longleftrightarrow> holds d (claimsIndex_key a) TZset \<and> zset_at d (claimsIndex_key a) = []
     \<and> holds d (dlq_key a) TList \<and> holds d (dlq_key b) TList \<and> holds d (queue_key a) TList
     \<and> (list_at d (queue_key a) \<noteq> [] \<longrightarrow> holds d (queue_key b) TList)"

lemma migrate_run:
  assumes "a \<noteq> b" and g: "migrate_guard a b d"
  shows "migrate_messages (queue_key a) (queue_key b) (Some (claimsIndex_key a)) (Some (dlq_key a, dlq_key b, DLQ_MAX_LENGTH)) d
    = (Inr (int (length (list_at d (queue_key a)))), moved_dlq a b (moved_inbox a b d))"
proof -
  let ?d1 = "moved_inbox a b d"
  have t: "holds d (claimsIndex_key a) TZset" "zset_at d (claimsIndex_key a) = []" "holds d (dlq_key a) TList" "holds d (dlq_key b) TList"
    "holds d (queue_key a) TList" "list_at d (queue_key a) \<noteq> [] \<Longrightarrow> holds d (queue_key b) TList"
    using g by (auto simp: migrate_guard_def)
  have dl: "live ?d1 (dlq_key x) = live d (dlq_key x)" for x by (simp add: moved_inbox_def view_simps)
  have box: "(if list_at d (queue_key a) = [] then ret ()
      else thenM (forM (chunks 256 (list_at d (queue_key a))) (RPUSH (queue_key b))) (DEL (queue_key a))) d = (Inr (), ?d1)"
    using t(6) by (auto simp: moved_inbox_def ret_run thenM_ok forM_RPUSH_chunks DEL_def modifyM_run)
  have dead: "(if list_at ?d1 (dlq_key a) = [] then ret ()
      else thenM (forM (chunks 256 (rev (list_at ?d1 (dlq_key a)))) (LPUSH (dlq_key b)))
             (thenM (LTRIM_first (dlq_key b) DLQ_MAX_LENGTH) (DEL (dlq_key a)))) ?d1 = (Inr (), moved_dlq a b ?d1)"
    using t(4) dl assms(1)
    by (auto simp: moved_dlq_def ret_run thenM_ok forM_LPUSH_chunks holds_def LTRIM_first_def on_type_ok view_simps put_list_put_list
        first_range_def DLQ_MAX_LENGTH_def DEL_def modifyM_run)
  have "holds ?d1 (dlq_key a) TList" using t(3) dl by (simp add: holds_def)
  then show ?thesis
    using t(1-5) assms(1) box dead
    by (simp add: migrate_messages_def check_type_def TYPE_none_or_def ZCARD_def LRANGE_all_def on_type_ok getM_run ret_run bindM_ok thenM_ok)
qed

lemma migrate_refused:
  assumes "a \<noteq> b" and "\<not> migrate_guard a b d"
  shows "\<exists>r. migrate_messages (queue_key a) (queue_key b) (Some (claimsIndex_key a)) (Some (dlq_key a, dlq_key b, DLQ_MAX_LENGTH)) d = (r, d)
     \<and> (\<forall>n. r = Inr n \<longrightarrow> n = - 1)"
proof -
  let ?m = "migrate_messages (queue_key a) (queue_key b) (Some (claimsIndex_key a)) (Some (dlq_key a, dlq_key b, DLQ_MAX_LENGTH)) d"
  note defs = migrate_messages_def check_type_def TYPE_none_or_def ZCARD_def LRANGE_all_def on_type_ok on_type_err getM_run ret_run throw_run
    bindM_ok bindM_err thenM_ok thenM_err
  consider "\<not> holds d (claimsIndex_key a) TZset" | "holds d (claimsIndex_key a) TZset" "zset_at d (claimsIndex_key a) \<noteq> []"
    | "holds d (claimsIndex_key a) TZset" "zset_at d (claimsIndex_key a) = []" "\<not> holds d (dlq_key a) TList"
    | "holds d (claimsIndex_key a) TZset" "zset_at d (claimsIndex_key a) = []" "holds d (dlq_key a) TList" "\<not> holds d (dlq_key b) TList"
    | "holds d (claimsIndex_key a) TZset" "zset_at d (claimsIndex_key a) = []" "holds d (dlq_key a) TList" "holds d (dlq_key b) TList"
        "\<not> holds d (queue_key a) TList"
    | "holds d (claimsIndex_key a) TZset" "zset_at d (claimsIndex_key a) = []" "holds d (dlq_key a) TList" "holds d (dlq_key b) TList"
        "holds d (queue_key a) TList" "list_at d (queue_key a) \<noteq> []" "\<not> holds d (queue_key b) TList"
    using assms(2) by (auto simp: migrate_guard_def)
  then show ?thesis
    by cases (use assms(1) in \<open>simp_all add: defs forM_RPUSH_wrongtype\<close>)
qed

text \<open>
  Moving a mailbox, as a rename does, is all or nothing and keeps the order. Either the source held no
  claim, the destination mailbox is its old content followed by the whole source mailbox, the destination
  dead-letter queue is the source's followed by its own, cut to the bound, both source lists are gone and
  no other key changed; or nothing changed, because a claim is outstanding or a key holds the wrong type.
\<close>

lemma migrate_messages_all_or_nothing:
  assumes "a \<noteq> b" and "migrate_messages (queue_key a) (queue_key b) (Some (claimsIndex_key a)) (Some (dlq_key a, dlq_key b, DLQ_MAX_LENGTH)) d = (r, d')"
  shows "if \<exists>n. r = Inr n \<and> n \<noteq> - 1
    then r = Inr (int (length (list_at d (queue_key a)))) \<and> zset_at d (claimsIndex_key a) = []
      \<and> list_at d' (queue_key a) = [] \<and> list_at d' (queue_key b) = list_at d (queue_key b) @ list_at d (queue_key a)
      \<and> list_at d' (dlq_key a) = []
      \<and> list_at d' (dlq_key b) = (if list_at d (dlq_key a) = [] then list_at d (dlq_key b)
            else take DLQ_MAX_LENGTH (list_at d (dlq_key a) @ list_at d (dlq_key b)))
      \<and> (\<forall>k. k \<notin> {queue_key a, queue_key b, dlq_key a, dlq_key b} \<longrightarrow> live d' k = live d k)
    else d' = d"
proof (cases "migrate_guard a b d")
  case True
  from migrate_run[OF assms(1) this] assms(2)
  have r: "r = Inr (int (length (list_at d (queue_key a))))" "d' = moved_dlq a b (moved_inbox a b d)" by auto
  have "zset_at d (claimsIndex_key a) = []" using True by (simp add: migrate_guard_def)
  then show ?thesis
    using assms(1) unfolding r
    by (auto simp: moved_dlq_def moved_inbox_def view_simps)
next
  case False
  from migrate_refused[OF assms(1) this] assms(2) show ?thesis by auto
qed

lemma migrate_demo_guard: "migrate_guard ''a'' ''b'' (put_list (queue_key ''a'') [''x''] empty_db)"
  by (simp add: migrate_guard_def view_simps)

definition mailbox_quiet :: "db \<Rightarrow> mailbox_world" where
  "mailbox_quiet d = \<lparr>redis = d, interfere = (\<lambda>_ d. d), history = [], receivesClosed = False\<rparr>"

lemma mailbox_quiet_sel [simp]:
  "quiet (mailbox_quiet d)" "redis (mailbox_quiet d) = d" "receivesClosed (mailbox_quiet d) = False"
  by (simp_all add: mailbox_quiet_def quiet_def)

lemma receive_demo:
  "\<exists>w'. receive std_env ''bob'' (mailbox_quiet (put_list (queue_key ''bob'') [''true''] empty_db)) = (Inr (Some (JBool True)), w')"
proof -
  let ?d = "put_list (queue_key ''bob'') [''true''] empty_db"
  have parse: "JSON_parse std_env ''true'' = Some (JBool True)"
    by (simp add: std_env_def json_parse_def starts_with_def)
  have "LPOP (queue_key ''bob'') ?d = (Inr (Some ''true''), put_list (queue_key ''bob'') [] ?d)"
    by (simp add: run_simps view_simps)
  then have pop: "cancellablePop (queue_key ''bob'') (mailbox_quiet ?d) = (Inr (Some ''true''), after_step (mailbox_quiet ?d) (put_list (queue_key ''bob'') [] ?d))"
    by (simp add: cancellablePop_def bindM_def getM_run atomic_run)
  have "bindM (LLEN (queue_key ''bob'')) (\<lambda>n. HSET (mailboxMeta_key ''bob'') ''current_size'' (show_nat n)) (put_list (queue_key ''bob'') [] ?d)
      = (Inr (), put_hash (mailboxMeta_key ''bob'') [(''current_size'', show_nat 0)] (put_list (queue_key ''bob'') [] ?d))"
    by (simp add: run_simps view_simps)
  with pop parse show ?thesis
    by (simp add: receive_def bindM_ok thenM_ok atomic_run ret_run)
qed

end
