(* ===== verification/Task_Props.thy ===== *)
theory Task_Props
  imports Task_Recovery Mailbox_Props
begin

text \<open>
  The guarantees of task delivery, script by script.
\<close>

section \<open>Claiming a batch\<close>

text \<open>What a caller of the batch claim supplies: a fresh id, and instants as \<open>toISOString\<close> prints them.\<close>

definition claim_template :: "runtime \<Rightarrow> db \<Rightarrow> TaskClaim \<Rightarrow> int \<Rightarrow> bool" where
  "claim_template E d c s \<longleftrightarrow> claim_at E d (tc_claim_id c) = None \<and> tc_expires_at c = iso_from_ms s \<and> valid_instant s
     \<and> (\<exists>t. valid_instant t \<and> tc_claimed_at c = iso_from_ms t)"

text \<open>The number of outstanding claims of an actor.\<close>

definition outstanding :: "db \<Rightarrow> string \<Rightarrow> nat" where
  "outstanding d a = length (zset_at d (claimsIndex_key a))"

definition batch_outcome :: "runtime \<Rightarrow> TaskClaim \<Rightarrow> nat \<Rightarrow> nat \<Rightarrow> db \<Rightarrow> exn + batch_reply \<Rightarrow> db \<Rightarrow> bool" where
  "batch_outcome E c n mx d res d' \<longleftrightarrow>
     (let a = tc_actor_id c in
      res = Inr At_ceiling \<and> d' = d \<and> 0 < mx \<and> mx \<le> outstanding d a
      \<or> res = Inr Empty_inbox \<and> d' = d \<and> list_at d (queue_key a) = []
      \<or> (\<exists>c'. res = Inr (Claimed (claim_text E c')) \<and> c' = c\<lparr>tc_tasks := take n (list_at d (queue_key a))\<rparr> \<and> tc_tasks c' \<noteq> []
           \<and> (0 < mx \<longrightarrow> outstanding d a < mx)
           \<and> claim_at E d' = (claim_at E d)(tc_claim_id c \<mapsto> c') \<and> list_at d' (queue_key a) = drop n (list_at d (queue_key a))))"

lemma score_at_outstanding: "distinct (map fst (zset_at d (claimsIndex_key a))) \<Longrightarrow> outstanding d a = card (dom (score_at d a))"
  by (simp add: outstanding_def score_at_def dom_map_of_conv_image_fst distinct_card flip: set_map)

context js_runtime
begin

lemma batch_claim_effect:
  assumes ok: "claims_ok E d" and ty: "holds d (queue_key (tc_actor_id c)) TList" and n: "0 < n" and t: "claim_template E d c s"
    and run: "claims_batch_claim E c (Some s) n mx d = (res, d')"
  shows "batch_outcome E c n mx d res d'" and "claims_ok E d'"
    and "\<And>b. held E d' b = held E d b" and "frame {claims_key, claimsIndex_key (tc_actor_id c), queue_key (tc_actor_id c)} d d'"
    and "holds d' (queue_key (tc_actor_id c)) TList"
proof -
  let ?a = "tc_actor_id c" let ?q = "queue_key (tc_actor_id c)"
  note br = batch_claim_run[OF ok ty n, where mx = mx]
  consider "0 < mx \<and> mx \<le> outstanding d ?a" | "\<not> (0 < mx \<and> mx \<le> outstanding d ?a)" "list_at d ?q = []"
    | "\<not> (0 < mx \<and> mx \<le> outstanding d ?a)" "list_at d ?q \<noteq> []" by blast
  then have "batch_outcome E c n mx d res d' \<and> claims_ok E d' \<and> (\<forall>b. held E d' b = held E d b)
      \<and> frame {claims_key, claimsIndex_key ?a, ?q} d d' \<and> holds d' ?q TList"
  proof cases
    case 1
    with br(1) run ok ty show ?thesis by (auto simp: batch_outcome_def Let_def outstanding_def)
  next
    case 2
    with br(2) run ok ty show ?thesis by (auto simp: batch_outcome_def Let_def outstanding_def)
  next
    case 3
    define c' where "c' = c\<lparr>tc_tasks := take n (list_at d ?q)\<rparr>"
    from br(3)[OF _ _ c'_def, of s] 3 obtain d2 where
      d2: "claims_batch_claim E c (Some s) n mx d = (Inr (Claimed (claim_text E c')), d2)"
        "claims_set (tc_claim_id c) ?a (Some (claim_text E c')) (Some s) d d2" "list_at d2 ?q = drop n (list_at d ?q)"
        "frame {claims_key, claimsIndex_key ?a, ?q} d d2" "holds d2 ?q TList"
      by (auto simp: outstanding_def)
    with run have eq: "res = Inr (Claimed (claim_text E c'))" "d' = d2" by auto
    have wf: "wf_claim c'" using t 3 n by (auto simp: wf_claim_def claim_template_def c'_def)
    have sel: "tc_claim_id c' = tc_claim_id c" "tc_actor_id c' = ?a" "tc_expires_at c' = iso_from_ms s" "valid_instant s"
      using t by (auto simp: c'_def claim_template_def)
    have fresh: "claim_at E d (tc_claim_id c) = None" using t by (simp add: claim_template_def)
    have ok2: "claims_ok E d2"
      by (rule claims_set_ok[OF ok d2(2)]) (use wf sel fresh in auto)
    have at2: "claim_at E d2 = (claim_at E d)(tc_claim_id c \<mapsto> c')"
      using claims_set_claim_at[OF d2(2)] parse_claim[OF wf] by simp
    have "held E d2 b = held E d b" for b
    proof (cases "b = ?a")
      case True
      have "mset (list_at d ?q) = mset (take n (list_at d ?q)) + mset (drop n (list_at d ?q))"
        by (metis append_take_drop_id mset_append)
      moreover have "claimed E d2 ?a = claimed E d ?a + mset (take n (list_at d ?q))"
        using claimed_store[OF ok d2(2) wf fresh] by (simp add: c'_def)
      moreover have "list_at d2 (dlq_key ?a) = list_at d (dlq_key ?a)" using d2(4) by (simp add: frameD)
      ultimately show ?thesis using True d2(3) by (simp add: held_def ac_simps)
    next
      case False
      have "claimed E d2 b = claimed E d b" by (rule claimed_other[OF ok d2(2) False]) (simp add: fresh)
      with False d2(4) show ?thesis by (simp add: held_def frameD)
    qed
    then show ?thesis
      using eq ok2 at2 d2(3-5) 3 n unfolding batch_outcome_def Let_def by (auto simp: c'_def)
  qed
  then show "batch_outcome E c n mx d res d'" and "claims_ok E d'" and "\<And>b. held E d' b = held E d b"
    and "frame {claims_key, claimsIndex_key (tc_actor_id c), queue_key (tc_actor_id c)} d d'" and "holds d' (queue_key (tc_actor_id c)) TList"
    by blast+
qed

end

text \<open>
  A batch claim takes the oldest messages and no others, and never exceeds the ceiling. Either the
  actor is at its ceiling of outstanding claims and nothing changes; or its inbox is empty and nothing
  changes; or the first \<open>n\<close> messages leave the inbox and are exactly the tasks of a new claim, readable under
  its id, every other claim is untouched, and the outstanding claims were below the ceiling. Hash and
  index still agree, and no actor gains or loses a task.
\<close>

lemma batch_claim_exact:
  assumes "js_runtime E" and "claims_ok E d" and "holds d (queue_key (tc_actor_id c)) TList" and "0 < n" and "claim_template E d c s"
    and "claims_batch_claim E c (Some s) n mx d = (res, d')"
  shows "batch_outcome E c n mx d res d' \<and> claims_ok E d' \<and> (\<forall>b. held E d' b = held E d b)"
  using js_runtime.batch_claim_effect[OF assms] by blast

text \<open>
  The batch claim pops before it knows that it can store: when the claims hash holds a value of
  another type, the script fails after the messages have left the inbox, and they are in no claim, no
  dead-letter queue and no inbox any more.
\<close>

lemma batch_claim_loses_on_wrong_type:
  assumes "\<not> holds d claims_key THash" and "holds d (queue_key (tc_actor_id c)) TList"
    and "list_at d (queue_key (tc_actor_id c)) \<noteq> []" and "0 < n"
  shows "\<exists>d'. claims_batch_claim E c sc n 0 d = (Inl WrongType, d')
     \<and> list_at d' (queue_key (tc_actor_id c)) = drop n (list_at d (queue_key (tc_actor_id c)))
     \<and> frame {queue_key (tc_actor_id c)} d d'"
proof -
  let ?q = "queue_key (tc_actor_id c)"
  from pop_batch_run[OF assms(2), of n] obtain d' where
    d': "pop_batch ?q n d = (Inr (take n (list_at d ?q)), d')" "list_at d' ?q = drop n (list_at d ?q)" "frame {?q} d d'" by blast
  have "\<not> holds d' claims_key THash" using assms(1) d'(3) by (simp add: frame_holds)
  with d' assms(3,4) have "claims_batch_claim E c sc n 0 d = (Inl WrongType, d')"
    by (simp add: claims_batch_claim_def at_ceiling_def Let_def bindM_False bindM_ok ret_run thenM_err HSET_def on_type_err)
  with d' show ?thesis by blast
qed

section \<open>Acknowledging\<close>

text \<open>
  All that an acknowledgement writes: the claim leaves the hash and its actor's index, and the recovery counters of
  its tasks are gone. The value of every other key stays.
\<close>

definition ack_writes :: "runtime \<Rightarrow> string \<Rightarrow> string \<Rightarrow> string list \<Rightarrow> db \<Rightarrow> db \<Rightarrow> bool" where
  "ack_writes E i a ts d d' \<longleftrightarrow>
     map_of (hash_at d' claims_key) = (map_of (hash_at d claims_key))(i := None) \<and> score_at d' a = (score_at d a)(i := None)
     \<and> (\<forall>k. k \<notin> {claims_key, claimsIndex_key a} \<longrightarrow> live d' k = (if k \<in> task_counters E a ts then None else live d k))"

context js_runtime
begin

lemma ack_effect:
  assumes ok: "claims_ok E d" and run: "claims_ack E i a s d = (res, d')"
  shows "claims_ok E d'"
    and "frame ({claims_key, claimsIndex_key a} \<union> range (recoverCount_key a)) d d'"
    and "case claim_at E d i of
        None \<Rightarrow> res = Inr Unknown \<and> d' = d
      | Some c \<Rightarrow> if tc_actor_id c = a \<and> tc_session_id c = s
          then res = Inr (Done (length (tc_tasks c))) \<and> claim_at E d' = (claim_at E d)(i := None)
            \<and> held E d a = held E d' a + mset (tc_tasks c) \<and> (\<forall>b. b \<noteq> a \<longrightarrow> held E d' b = held E d b)
            \<and> ack_writes E i a (tc_tasks c) d d'
          else res = Inr Foreign \<and> d' = d"
proof -
  note ar = ack_run[OF ok, of i]
  have "claims_ok E d' \<and> frame ({claims_key, claimsIndex_key a} \<union> range (recoverCount_key a)) d d' \<and>
    (case claim_at E d i of
        None \<Rightarrow> res = Inr Unknown \<and> d' = d
      | Some c \<Rightarrow> if tc_actor_id c = a \<and> tc_session_id c = s
          then res = Inr (Done (length (tc_tasks c))) \<and> claim_at E d' = (claim_at E d)(i := None)
            \<and> held E d a = held E d' a + mset (tc_tasks c) \<and> (\<forall>b. b \<noteq> a \<longrightarrow> held E d' b = held E d b)
            \<and> ack_writes E i a (tc_tasks c) d d'
          else res = Inr Foreign \<and> d' = d)"
  proof (cases "claim_at E d i")
    case None
    with ar(1) run ok show ?thesis by auto
  next
    case (Some c)
    show ?thesis
    proof (cases "tc_actor_id c = a \<and> tc_session_id c = s")
      case False
      with ar(2)[OF Some] run ok Some show ?thesis by auto
    next
      case True
      with ar(3)[OF Some, of a s] obtain d2 where
        d2: "claims_ack E i a s d = (Inr (Done (length (tc_tasks c))), d2)" "claims_set i a None None d d2"
          "\<forall>k. k \<notin> {claims_key, claimsIndex_key a} \<longrightarrow> live d2 k = (if k \<in> task_counters E a (tc_tasks c) then None else live d k)" by auto
      then have writes: "ack_writes E i a (tc_tasks c) d d2" by (simp add: ack_writes_def claims_set_def)
      have fr: "frame ({claims_key, claimsIndex_key a} \<union> range (recoverCount_key a)) d d2"
        using d2(3) task_counters_range by (fastforce simp: frame_def)
      have ok2: "claims_ok E d2" by (rule claims_set_ok[OF ok d2(2)]) (use Some True in auto)
      have lists: "list_at d2 (queue_key b) = list_at d (queue_key b)" "list_at d2 (dlq_key b) = list_at d (dlq_key b)" for b
        using fr by (simp_all add: frameD)
      have "claimed E d a = claimed E d2 a + mset (tc_tasks c)" using claimed_remove[OF ok d2(2) Some] True by simp
      moreover have "claimed E d2 b = claimed E d b" if "b \<noteq> a" for b
        using claimed_other[OF ok d2(2) that] Some True by simp
      ultimately show ?thesis
        using d2(1,2) fr writes run ok2 Some True claims_set_claim_at[OF d2(2)] lists by (auto simp: held_def ac_simps)
    qed
  qed
  then show "claims_ok E d'" and "frame ({claims_key, claimsIndex_key a} \<union> range (recoverCount_key a)) d d'"
    and "case claim_at E d i of
        None \<Rightarrow> res = Inr Unknown \<and> d' = d
      | Some c \<Rightarrow> if tc_actor_id c = a \<and> tc_session_id c = s
          then res = Inr (Done (length (tc_tasks c))) \<and> claim_at E d' = (claim_at E d)(i := None)
            \<and> held E d a = held E d' a + mset (tc_tasks c) \<and> (\<forall>b. b \<noteq> a \<longrightarrow> held E d' b = held E d b)
            \<and> ack_writes E i a (tc_tasks c) d d'
          else res = Inr Foreign \<and> d' = d" by blast+
qed

end

text \<open>
  (C11) Only the owning actor and session acknowledge a claim. An acknowledgement by anyone else, or of an
  unknown claim, changes nothing. One by the owner removes that claim from the hash and from the actor's index and
  deletes the recovery counters of the claim's tasks; no other field, index entry or key changes its value, so that
  no other claim and no task of another actor is affected. Acknowledging it again is an unknown claim.
\<close>

theorem acknowledge_owner_only:
  assumes "js_runtime E" and "claims_ok E d" and "claims_ack E i a s d = (res, d')"
  shows "claims_ok E d' \<and>
    (case claim_at E d i of
       None \<Rightarrow> res = Inr Unknown \<and> d' = d
     | Some c \<Rightarrow>
         if tc_actor_id c = a \<and> tc_session_id c = s
         then res = Inr (Done (length (tc_tasks c))) \<and> claim_at E d' = (claim_at E d)(i := None)
           \<and> held E d a = held E d' a + mset (tc_tasks c) \<and> (\<forall>b. b \<noteq> a \<longrightarrow> held E d' b = held E d b)
           \<and> ack_writes E i a (tc_tasks c) d d' \<and> claims_ack E i a s d' = (Inr Unknown, d')
         else res = Inr Foreign \<and> d' = d)"
proof -
  note eff = js_runtime.ack_effect[OF assms]
  have again: "claim_at E d' i = None \<Longrightarrow> claims_ack E i a s d' = (Inr Unknown, d')"
    by (rule js_runtime.ack_run(1)[OF assms(1) eff(1)])
  show ?thesis using eff(1,3) again by (auto split: option.splits if_splits)
qed

section \<open>Renewing\<close>

context js_runtime
begin

lemma claimed_restore:
  assumes ok: "claims_ok E d" and set: "claims_set i a (Some (claim_text E c')) (Some s) d d'" and c': "wf_claim c'" "tc_tasks c' = tc_tasks c"
    and at: "claim_at E d i = Some c" "tc_actor_id c = a"
  shows "claimed E d' a = claimed E d a"
proof -
  have at': "claim_at E d' = (claim_at E d)(i \<mapsto> c')" using claims_set_claim_at[OF set] parse_claim[OF c'(1)] by simp
  have "dom (score_at d' a) = dom (score_at d a)"
    using set claim_indexed[OF ok at(1)] at(2) by (auto simp: claims_set_def)
  then show ?thesis unfolding claimed_def at' using at c'(2) by (intro sum.cong) auto
qed

lemma renew_effect:
  assumes ok: "claims_ok E d" and now: "0 \<le> now" "valid_instant (now + ttl * 1000)"
    and run: "claims_renew E i a s now ttl budget d = (res, d')"
  shows "claims_ok E d' \<and> (\<forall>b. held E d' b = held E d b) \<and> frame {claims_key, claimsIndex_key a} d d' \<and>
    (case claim_at E d i of
       None \<Rightarrow> res = Inr Unknown \<and> d' = d
     | Some c \<Rightarrow>
         if \<not> (tc_actor_id c = a \<and> tc_session_id c = s) then res = Inr Foreign \<and> d' = d
         else (case (ms_from_iso (tc_expires_at c), ms_from_iso (tc_claimed_at c)) of
                 (Some em, Some cm) \<Rightarrow>
                   let new = min (now + ttl * 1000) (cm + budget * 1000) in
                   if em \<le> now then res = Inr Expired \<and> d' = d
                   else if new \<le> now then res = Inr Exhausted \<and> d' = d
                   else res = Inr (Done (iso_from_ms new)) \<and> score_at d' a i = Some new
                     \<and> claim_at E d' = (claim_at E d)(i \<mapsto> c\<lparr>tc_expires_at := iso_from_ms new\<rparr>)
               | _ \<Rightarrow> False))"
proof (cases "claim_at E d i")
  case None
  with claim_at_cases[OF ok, of i] have "map_of (hash_at d claims_key) i = None" by force
  then have "claims_renew E i a s now ttl budget d = (Inr Unknown, d)"
    using claims_okD(1)[OF ok] by (simp add: claims_renew_def run_simps)
  with None run ok show ?thesis by simp
next
  case (Some c)
  from claim_at_cases[OF ok, of i] Some have raw: "map_of (hash_at d claims_key) i = Some (claim_text E c)" and wf: "wf_claim c" by force+
  from wf obtain em cm where t: "tc_expires_at c = iso_from_ms em" "valid_instant em" "tc_claimed_at c = iso_from_ms cm" "valid_instant cm"
    by (auto simp: wf_claim_def)
  have ms: "ms_from_iso (tc_expires_at c) = Some em" "ms_from_iso (tc_claimed_at c) = Some cm"
    using t ms_from_iso_from_ms by (simp_all add: valid_instant_def)
  show ?thesis
  proof (cases "tc_actor_id c = a \<and> tc_session_id c = s")
    case False
    then have "claims_renew E i a s now ttl budget d = (Inr Foreign, d)"
      using claims_okD(1)[OF ok] raw decode_claim[OF wf] by (auto simp: claims_renew_def run_simps)
    with False Some run ok show ?thesis by simp
  next
    case True
    define new where "new = min (now + ttl * 1000) (cm + budget * 1000)"
    note rr = renew_run[OF ok Some _ _ t new_def, of a s]
    consider "em \<le> now" | "now < em" "new \<le> now" | "now < em" "now < new" by linarith
    then show ?thesis
    proof cases
      case 3
      with rr(3) True obtain d2 where d2: "claims_renew E i a s now ttl budget d = (Inr (Done (iso_from_ms new)), d2)"
        "claims_set i a (Some (claim_text E (c\<lparr>tc_expires_at := iso_from_ms new\<rparr>))) (Some new) d d2" "frame {claims_key, claimsIndex_key a} d d2"
        by auto
      let ?c = "c\<lparr>tc_expires_at := iso_from_ms new\<rparr>"
      have v: "valid_instant new" using now 3 by (auto simp: valid_instant_def new_def)
      have wf': "wf_claim ?c" using wf v by (auto simp: wf_claim_def)
      have "claims_ok E d2" by (rule claims_set_ok[OF ok d2(2)]) (use Some True wf' v wf_claim_at[OF ok Some] in auto)
      moreover have "held E d2 b = held E d b" for b
      proof (cases "b = a")
        case True
        with claimed_restore[OF ok d2(2) wf' _ Some] \<open>tc_actor_id c = a \<and> _\<close> d2(3) show ?thesis by (simp add: held_def frameD)
      next
        case False
        with claimed_other[OF ok d2(2) False] Some \<open>tc_actor_id c = a \<and> _\<close> d2(3) show ?thesis by (simp add: held_def frameD)
      qed
      moreover have "claim_at E d2 = (claim_at E d)(i \<mapsto> ?c)" using claims_set_claim_at[OF d2(2)] parse_claim[OF wf'] by simp
      moreover have "score_at d2 a i = Some new" using d2(2) by (simp add: claims_set_def)
      ultimately show ?thesis using Some True run d2 3 ms by (simp add: Let_def flip: new_def)
    qed (use rr(1,2) Some True run ok ms in \<open>simp_all add: Let_def flip: new_def\<close>)
  qed
qed

end

text \<open>
  A renewal extends a claim's expiry and nothing else. Only the owning actor and session renew; an
  expired claim is not resurrected; the new expiry is the requested one capped at the claim instant plus
  the budget, and a renewal that would not move it past the present is refused. On success hash and index
  hold the new expiry, the claim keeps its tasks, and no other claim changes; on every other outcome nothing
  changes.
\<close>

lemma renew_capped:
  assumes "js_runtime E" and "claims_ok E d" and "0 \<le> now" and "valid_instant (now + ttl * 1000)"
    and "claims_renew E i a s now ttl budget d = (res, d')"
  shows "claims_ok E d' \<and>
    (case claim_at E d i of
       None \<Rightarrow> res = Inr Unknown \<and> d' = d
     | Some c \<Rightarrow>
         if \<not> (tc_actor_id c = a \<and> tc_session_id c = s) then res = Inr Foreign \<and> d' = d
         else (case (ms_from_iso (tc_expires_at c), ms_from_iso (tc_claimed_at c)) of
                 (Some em, Some cm) \<Rightarrow>
                   let new = min (now + ttl * 1000) (cm + budget * 1000) in
                   if em \<le> now then res = Inr Expired \<and> d' = d
                   else if new \<le> now then res = Inr Exhausted \<and> d' = d
                   else res = Inr (Done (iso_from_ms new)) \<and> score_at d' a i = Some new
                     \<and> claim_at E d' = (claim_at E d)(i \<mapsto> c\<lparr>tc_expires_at := iso_from_ms new\<rparr>)
               | _ \<Rightarrow> False))"
  using js_runtime.renew_effect[OF assms] by blast

section \<open>Recovering and requeueing\<close>

text \<open>The dead letters that the bound pushes out when \<open>q\<close> is added: the oldest ones.\<close>

definition overflow :: "nat \<Rightarrow> string list \<Rightarrow> string list \<Rightarrow> string multiset" where
  "overflow N q dlq = (if q = [] then {#} else mset (drop N (rev q @ dlq)))"

lemma delivered_held:
  assumes "delivered N a r q d d'"
  shows "mset (list_at d' (queue_key a)) + mset (list_at d' (dlq_key a)) + overflow N q (list_at d (dlq_key a))
    = mset (list_at d (queue_key a)) + mset (list_at d (dlq_key a)) + mset r + mset q"
proof (cases "q = []")
  case True
  with assms show ?thesis by (simp add: delivered_def overflow_def)
next
  case False
  have "mset (take N (rev q @ list_at d (dlq_key a))) + mset (drop N (rev q @ list_at d (dlq_key a))) = mset (rev q @ list_at d (dlq_key a))"
    by (metis append_take_drop_id mset_append)
  with False assms show ?thesis by (simp add: delivered_def overflow_def ac_simps del: take_append drop_append)
qed

context js_runtime
begin

lemma recover_effect:
  assumes ok: "claims_ok E d" and pos: "0 < ttl" "0 < N"
    and small: "length (expired_items E d (expired_ids d a now)) < 2 ^ 61"
    and run: "claims_recover E a now cap N ttl d = (res, d')" and split: "recovery_split E d a now cap = (r, q)"
  shows "claims_ok E d'" and "\<And>b. b \<noteq> a \<Longrightarrow> held E d' b = held E d b"
    and "frame (recovery_keys a \<union> {claims_key, claimsIndex_key a}) d d'"
    and "if recoverable E d a now
      then res = Inr (Inr (length r, length q)) \<and> delivered N a r q d d'
        \<and> (\<forall>i. claim_at E d' i = (if i \<in> set (expired_ids d a now) then None else claim_at E d i))
        \<and> held E d a = held E d' a + overflow N q (list_at d (dlq_key a))
      else d' = d \<and> (res = Inr (Inr (0, 0)) \<or> (\<exists>role. res = Inr (Inl role)))"
proof -
  have "claims_ok E d' \<and> (\<forall>b. b \<noteq> a \<longrightarrow> held E d' b = held E d b) \<and> frame (recovery_keys a \<union> {claims_key, claimsIndex_key a}) d d' \<and>
    (if recoverable E d a now
      then res = Inr (Inr (length r, length q)) \<and> delivered N a r q d d'
        \<and> (\<forall>i. claim_at E d' i = (if i \<in> set (expired_ids d a now) then None else claim_at E d i))
        \<and> held E d a = held E d' a + overflow N q (list_at d (dlq_key a))
      else d' = d \<and> (res = Inr (Inr (0, 0)) \<or> (\<exists>role. res = Inr (Inl role))))"
  proof (cases "recoverable E d a now")
    case False
    from recover_refused[OF ok False, of cap N ttl] run ok False show ?thesis
      by (auto split: sum.splits) (metis sumE surj_pair)+
  next
    case True
    from recover_run[OF ok True pos small split] run obtain
      d2: "res = Inr (Inr (length r, length q))" "delivered N a r q d d'" "claims_ok E d'"
        "\<forall>i. claim_at E d' i = (if i \<in> set (expired_ids d a now) then None else claim_at E d i)"
        "claimed E d a = claimed E d' a + mset r + mset q" "frame (recovery_keys a \<union> {claims_key, claimsIndex_key a}) d d'"
      by auto
    have "held E d a = held E d' a + overflow N q (list_at d (dlq_key a))"
      using delivered_held[OF d2(2)] d2(5) by (simp add: held_def ac_simps)
    moreover have "held E d' b = held E d b" if "b \<noteq> a" for b
    proof -
      have sc: "score_at d' b = score_at d b" using d2(6) that by (simp add: score_at_def frameD)
      have "claim_at E d' i = claim_at E d i" if "i \<in> dom (score_at d b)" for i
      proof -
        from that indexed_claim[OF ok] obtain c where "claim_at E d i = Some c" "tc_actor_id c = b" by blast
        with expired_claims[OF ok, of a now] \<open>b \<noteq> a\<close> have "i \<notin> set (expired_ids d a now)" by force
        with d2(4) show ?thesis by simp
      qed
      then have "claimed E d' b = claimed E d b" unfolding claimed_def sc by (intro sum.cong) auto
      moreover have "live d' (queue_key b) = live d (queue_key b)" "live d' (dlq_key b) = live d (dlq_key b)"
        using d2(6) that by (simp_all add: frameD)
      ultimately show ?thesis by (simp add: held_def)
    qed
    ultimately show ?thesis using d2 True by simp
  qed
  then show "claims_ok E d'" and "\<And>b. b \<noteq> a \<Longrightarrow> held E d' b = held E d b"
    and "frame (recovery_keys a \<union> {claims_key, claimsIndex_key a}) d d'"
    and "if recoverable E d a now
      then res = Inr (Inr (length r, length q)) \<and> delivered N a r q d d'
        \<and> (\<forall>i. claim_at E d' i = (if i \<in> set (expired_ids d a now) then None else claim_at E d i))
        \<and> held E d a = held E d' a + overflow N q (list_at d (dlq_key a))
      else d' = d \<and> (res = Inr (Inr (0, 0)) \<or> (\<exists>role. res = Inr (Inl role)))"
    by blast+
qed

end

text \<open>
  (C28) Recovery of expired claims is all or nothing and implements the abstract triage. If the inbox,
  the dead-letter queue and every recovery counter are usable, exactly the claims that expired before now
  are gone, their tasks are at the inbox's tail in claim order except those whose recovery count exceeds
  the cap, which head the dead-letter queue, newest first and cut to its bound; no task is lost but the
  oldest dead letters that the bound pushes out. Otherwise nothing changes.
\<close>

theorem recover_all_or_nothing:
  assumes "js_runtime E" and "claims_ok E d" and "0 < ttl" and "0 < N"
    and "length (expired_items E d (expired_ids d a now)) < 2 ^ 61"
    and "claims_recover E a now cap N ttl d = (res, d')" and "recovery_split E d a now cap = (r, q)"
  shows "claims_ok E d' \<and> (\<forall>b. b \<noteq> a \<longrightarrow> held E d' b = held E d b) \<and>
    (if recoverable E d a now
     then res = Inr (Inr (length r, length q))
       \<and> list_at d' (queue_key a) = list_at d (queue_key a) @ r
       \<and> list_at d' (dlq_key a) = (if q = [] then list_at d (dlq_key a) else take N (rev q @ list_at d (dlq_key a)))
       \<and> (\<forall>i. claim_at E d' i = (if \<exists>s. score_at d a i = Some s \<and> s < now then None else claim_at E d i))
       \<and> held E d a = held E d' a + overflow N q (list_at d (dlq_key a))
     else d' = d)"
proof -
  have "i \<in> set (expired_ids d a now) \<longleftrightarrow> (\<exists>s. score_at d a i = Some s \<and> s < now)" for i
    by (rule set_expired_ids[OF js_runtime.claims_okD(3)[OF assms(1,2)]])
  then show ?thesis
    using js_runtime.recover_effect[OF assms] by (auto simp: delivered_def split: if_splits)
qed

text \<open>
  Requeueing moves one dead letter and loses none: the newest entry whose envelope has the given id
  leaves the dead-letter queue for the inbox's tail and its recovery budget starts afresh; without such an
  entry nothing changes.
\<close>

lemma requeue_moves_one:
  assumes "holds d (dlq_key a) TList" and "holds d (queue_key a) TList" and "claims_requeue E a m d = (res, d')"
  shows "case find (\<lambda>p. envelope_id E p = Some m) (list_at d (dlq_key a)) of
      None \<Rightarrow> res = Inr False \<and> d' = d
    | Some p \<Rightarrow> res = Inr True \<and> list_at d' (queue_key a) = list_at d (queue_key a) @ [p]
        \<and> list_at d' (dlq_key a) = remove1 p (list_at d (dlq_key a)) \<and> live d' (recoverCount_key a m) = None
        \<and> held E d' a = held E d a"
proof (cases "find (\<lambda>p. envelope_id E p = Some m) (list_at d (dlq_key a))")
  case None
  with requeue_run(1)[OF assms(1,2) None] assms(3) show ?thesis by simp
next
  case (Some p)
  then have p: "p \<in> set (list_at d (dlq_key a))" by (auto simp: find_Some_iff)
  from requeue_run(2)[OF assms(1,2) Some] assms(3) have eff: "res = Inr True" "list_at d' (queue_key a) = list_at d (queue_key a) @ [p]"
      "list_at d' (dlq_key a) = remove1 p (list_at d (dlq_key a))" "live d' (recoverCount_key a m) = None"
      "frame {queue_key a, dlq_key a, recoverCount_key a m} d d'" by auto
  have "claimed E d' a = claimed E d a" by (rule claimed_frame[OF eff(5)]) simp_all
  with eff p Some show ?thesis by (auto simp: held_def)
qed

section \<open>A store with one claim\<close>

text \<open>One task in bob's inbox, one dead letter, and one outstanding claim that expires at 61 s.\<close>

definition demo_claim :: TaskClaim where
  "demo_claim = \<lparr>tc_claim_id = ''c1'', tc_actor_id = ''bob'', tc_session_id = ''s1'', tc_claimed_at = iso_from_ms 1000,
     tc_expires_at = iso_from_ms 61000, tc_tasks = [''job'']\<rparr>"

definition claims_demo_db :: db where
  "claims_demo_db = put_hash claims_key [(''c1'', claim_text std_env demo_claim)] (put_zset (claimsIndex_key ''bob'') [(''c1'', 61000)]
     (put_list (queue_key ''bob'') [''next''] (put_list (dlq_key ''bob'') [''dead''] empty_db)))"

lemma claims_ok_empty: "claims_ok E empty_db"
  by (simp add: claims_ok_def score_at_def claim_at_def)

lemma wf_demo_claim: "wf_claim demo_claim"
  by (auto simp: wf_claim_def demo_claim_def valid_instant_def intro: exI[of _ 1000] exI[of _ 61000])

lemma demo_claim_sels [simp]:
  "tc_claim_id demo_claim = ''c1''" "tc_actor_id demo_claim = ''bob''" "tc_session_id demo_claim = ''s1''"
  "tc_claimed_at demo_claim = iso_from_ms 1000" "tc_expires_at demo_claim = iso_from_ms 61000" "tc_tasks demo_claim = [''job'']"
  by (simp_all add: demo_claim_def)

lemma claims_demo_views:
  "list_at claims_demo_db (queue_key ''bob'') = [''next'']" "list_at claims_demo_db (dlq_key ''bob'') = [''dead'']"
  "holds claims_demo_db (queue_key ''bob'') TList" "holds claims_demo_db (dlq_key ''bob'') TList"
  "zset_at claims_demo_db (claimsIndex_key ''bob'') = [(''c1'', 61000)]"
  by (simp_all add: claims_demo_db_def view_simps key_simps)

lemma claims_demo_ok: "claims_ok std_env claims_demo_db"
proof -
  have set: "claims_set ''c1'' ''bob'' (Some (claim_text std_env demo_claim)) (Some 61000) empty_db claims_demo_db"
    by (auto simp: claims_set_def score_at_def claims_demo_db_def view_simps key_simps fun_eq_iff)
  show ?thesis
    by (rule std.claims_set_ok[OF claims_ok_empty set])
      (auto simp: claim_at_def wf_demo_claim valid_instant_def intro!: exI[of _ demo_claim] exI[of _ 61000])
qed

lemma claims_demo_at: "claim_at std_env claims_demo_db = [''c1'' \<mapsto> demo_claim]"
  by (rule ext) (simp add: claim_at_def claims_demo_db_def view_simps std.parse_claim[OF wf_demo_claim])

theorem acknowledge_owner_only_witness:
  "\<exists>d'. claims_ack std_env ''c1'' ''bob'' ''s1'' claims_demo_db = (Inr (Done 1), d') \<and> claim_at std_env d' ''c1'' = None"
proof -
  obtain res d' where run: "claims_ack std_env ''c1'' ''bob'' ''s1'' claims_demo_db = (res, d')" by fastforce
  show ?thesis using acknowledge_owner_only[OF std.js_runtime_axioms claims_demo_ok run] run by (auto simp: claims_demo_at)
qed

theorem recover_all_or_nothing_witness:
  "\<exists>d' r q. recovery_split std_env claims_demo_db ''bob'' 70000 3 = (r, q)
    \<and> claims_recover std_env ''bob'' 70000 3 1000 60 claims_demo_db = (Inr (Inr (length r, length q)), d')
    \<and> claim_at std_env d' ''c1'' = None \<and> list_at d' (queue_key ''bob'') = ''next'' # r"
proof -
  obtain res d' where run: "claims_recover std_env ''bob'' 70000 3 1000 60 claims_demo_db = (res, d')" by fastforce
  obtain r q where split: "recovery_split std_env claims_demo_db ''bob'' 70000 3 = (r, q)" by fastforce
  have ids: "expired_ids claims_demo_db ''bob'' 70000 = [''c1'']"
    by (simp add: expired_ids_def claims_demo_views by_score_def)
  have "counter_good claims_demo_db k" if "task_counter std_env ''bob'' ''job'' = Some k" for k
    using that by (auto simp: task_counter_def counter_good_def claims_demo_db_def view_simps split: option.splits)
  then have rec: "recoverable std_env claims_demo_db ''bob'' 70000"
    by (simp add: recoverable_def ids claims_demo_at claim_items_def counters_of_def claims_demo_views)
  have len: "length (expired_items std_env claims_demo_db (expired_ids claims_demo_db ''bob'' 70000)) < 2 ^ 61"
    by (simp add: ids claims_demo_at claim_items_def)
  show ?thesis
    using recover_all_or_nothing[OF std.js_runtime_axioms claims_demo_ok _ _ len run split] rec run split
    by (intro exI[of _ d'] exI[of _ r] exI[of _ q]) (auto simp: claims_demo_views score_at_def)
qed

end
