(* ===== verification/Task_System.thy ===== *)
theory Task_System
  imports Task_Props
begin

text \<open>
  Task delivery under every interleaving. The system runs the scripts of any number of clients in any
  order, together with arbitrary changes to keys that belong to other components. Its ghost state
  records, per actor, what its inbox accepted and what left for good: what was received outright,
  what was acknowledged, and what the bound of the dead-letter queue pushed out.
\<close>

section \<open>The system\<close>

record delivery =
  store :: db
  accepted :: "string \<Rightarrow> string multiset"
  settled :: "string \<Rightarrow> string multiset"

datatype delivery_event =
    Push_message nat QueueMessage
  | Pop_message string
  | Batch_claim TaskClaim int nat nat
  | Acknowledge string string string
  | Renew_claim string string string int int int
  | Recover string int
  | Requeue string string
  | Elsewhere

definition task_keys :: "string set" where
  "task_keys = {claims_key} \<union> range claimsIndex_key \<union> range queue_key \<union> range dlq_key"

definition pop_one :: "string \<Rightarrow> (db, string option) comp" where
  "pop_one a = LPOP (queue_key a)"

definition add_at :: "string \<Rightarrow> string multiset \<Rightarrow> (string \<Rightarrow> string multiset) \<Rightarrow> string \<Rightarrow> string multiset" where
  "add_at a M f = f(a := f a + M)"

text \<open>
  A batch claim draws a fresh id and prints its instants with \<open>toISOString\<close>; a recovery handles fewer than
  \<open>2 ^ 61\<close> tasks, so that no counter leaves the range of \<open>INCR\<close>.
\<close>

inductive delivery_step :: "runtime \<Rightarrow> delivery \<Rightarrow> delivery_event \<Rightarrow> delivery \<Rightarrow> bool" for E where
  push: "wire_json (message_json m) \<Longrightarrow> bounded_push E bound m (store s) = (Inr b, d') \<Longrightarrow>
    delivery_step E s (Push_message bound m)
      (s\<lparr>store := d', accepted := (if b then add_at (m_to m) {#message_text E m#} (accepted s) else accepted s)\<rparr>)"
| pop: "pop_one a (store s) = (Inr x, d') \<Longrightarrow>
    delivery_step E s (Pop_message a) (s\<lparr>store := d', settled := add_at a (case x of None \<Rightarrow> {#} | Some p \<Rightarrow> {#p#}) (settled s)\<rparr>)"
| batch: "0 < n \<Longrightarrow> claim_template E (store s) c t \<Longrightarrow> claims_batch_claim E c (Some t) n mx (store s) = (res, d') \<Longrightarrow>
    delivery_step E s (Batch_claim c t n mx) (s\<lparr>store := d'\<rparr>)"
| ack: "claims_ack E i a z (store s) = (res, d') \<Longrightarrow>
    delivery_step E s (Acknowledge i a z)
      (s\<lparr>store := d', settled := add_at a (case res of Inr (Done _) \<Rightarrow> mset (tc_tasks (the (claim_at E (store s) i))) | _ \<Rightarrow> {#}) (settled s)\<rparr>)"
| renewal: "0 \<le> now \<Longrightarrow> valid_instant (now + ttl * 1000) \<Longrightarrow> claims_renew E i a z now ttl budget (store s) = (res, d') \<Longrightarrow>
    delivery_step E s (Renew_claim i a z now ttl budget) (s\<lparr>store := d'\<rparr>)"
| recovery: "length (expired_items E (store s) (expired_ids (store s) a now)) < 2 ^ 61 \<Longrightarrow>
    claims_recover E a now RECOVER_CAP DLQ_MAX_LENGTH RECOVER_COUNTER_TTL_SECONDS (store s) = (res, d') \<Longrightarrow>
    recovery_split E (store s) a now RECOVER_CAP = (r, q) \<Longrightarrow>
    delivery_step E s (Recover a now)
      (s\<lparr>store := d', settled := add_at a (if recoverable E (store s) a now then overflow DLQ_MAX_LENGTH q (list_at (store s) (dlq_key a)) else {#}) (settled s)\<rparr>)"
| requeueing: "claims_requeue E a m (store s) = (res, d') \<Longrightarrow> delivery_step E s (Requeue a m) (s\<lparr>store := d'\<rparr>)"
| elsewhere: "frame (- task_keys) (store s) d' \<Longrightarrow> delivery_step E s Elsewhere (s\<lparr>store := d'\<rparr>)"

definition delivery_init :: "delivery \<Rightarrow> bool" where
  "delivery_init s \<longleftrightarrow> store s = empty_db \<and> accepted s = (\<lambda>_. {#}) \<and> settled s = (\<lambda>_. {#})"

definition conserved :: "runtime \<Rightarrow> delivery \<Rightarrow> bool" where
  "conserved E s \<longleftrightarrow> claims_ok E (store s) \<and> (\<forall>a. holds (store s) (queue_key a) TList \<and> holds (store s) (dlq_key a) TList)
     \<and> (\<forall>a. accepted s a = held E (store s) a + settled s a)"

section \<open>Every step conserves the tasks\<close>

text \<open>What a script keeps when it touches the lists of one actor only.\<close>

lemma lists_kept:
  assumes "frame K d d'" and "\<And>b. queue_key b \<in> K \<Longrightarrow> b = a" and "\<And>b. dlq_key b \<in> K \<Longrightarrow> b = a"
    and "holds d' (queue_key a) TList" and "holds d' (dlq_key a) TList"
    and "\<forall>b. holds d (queue_key b) TList \<and> holds d (dlq_key b) TList"
  shows "\<forall>b. holds d' (queue_key b) TList \<and> holds d' (dlq_key b) TList"
  using assms frame_holds[OF assms(1)] by metis

lemma task_keysI [simp]:
  "claims_key \<in> task_keys" "claimsIndex_key a \<in> task_keys" "queue_key a \<in> task_keys" "dlq_key a \<in> task_keys"
  by (auto simp: task_keys_def)

lemma outstanding_claim_keys:
  "claims_key \<noteq> message_outstanding_key m" "claimsIndex_key a \<noteq> message_outstanding_key m" "dlq_key a \<noteq> message_outstanding_key m"
  "dlq_key a \<noteq> inboxEvents_key b"
  by (auto simp: message_outstanding_key_def key_simps split: option.splits list.splits)

lemma held_frame:
  assumes "frame K d d'" and "claims_key \<notin> K" and "claimsIndex_key a \<notin> K" and "queue_key a \<notin> K" and "dlq_key a \<notin> K"
  shows "held E d' a = held E d a"
  using assms claimed_frame[OF assms(1-3)] by (simp add: held_def frameD)

context js_runtime
begin

lemma conserved_unchanged: "conserved E s \<Longrightarrow> store t = store s \<Longrightarrow> accepted t = accepted s \<Longrightarrow> settled t = settled s \<Longrightarrow> conserved E t"
  by (simp add: conserved_def)

text \<open>Moving entries into or out of one inbox, with the claims untouched.\<close>

lemma inbox_step:
  assumes "claims_ok E d" and ty: "\<forall>b. holds d (queue_key b) TList \<and> holds d (dlq_key b) TList"
    and f: "frame K d d'" and K: "claims_key \<notin> K" "\<And>b. claimsIndex_key b \<notin> K" "\<And>b. dlq_key b \<notin> K" "\<And>b. queue_key b \<in> K \<Longrightarrow> b = a"
    and q: "holds d' (queue_key a) TList"
    and eq: "mset (list_at d' (queue_key a)) + out = mset (list_at d (queue_key a)) + in'"
  shows "claims_ok E d'" and "\<forall>b. holds d' (queue_key b) TList \<and> holds d' (dlq_key b) TList"
    and "held E d' a + out = held E d a + in'" and "b \<noteq> a \<Longrightarrow> held E d' b = held E d b"
proof -
  show "claims_ok E d'" by (rule claims_ok_frame[OF assms(1) f K(1,2)])
  show "\<forall>b. holds d' (queue_key b) TList \<and> holds d' (dlq_key b) TList"
    by (rule lists_kept[OF f, of a]) (use K q ty frame_holds[OF f] in auto)
  have "mset (list_at d' (queue_key a)) + out + X = mset (list_at d (queue_key a)) + in' + X" for X using eq by simp
  with claimed_frame[OF f K(1,2), where a = a and E = E] frameD[OF f K(3)] show "held E d' a + out = held E d a + in'"
    by (simp add: held_def ac_simps)
  show "held E d' b = held E d b" if "b \<noteq> a"
    by (rule held_frame[OF f]) (use K that in auto)
qed

lemma push_conserved:
  assumes "conserved E s" and "wire_json (message_json m)" and "bounded_push E bound m (store s) = (Inr b, d')"
  shows "conserved E (s\<lparr>store := d', accepted := (if b then add_at (m_to m) {#message_text E m#} (accepted s) else accepted s)\<rparr>)"
proof (cases b)
  case False
  with bounded_push_outcome[OF assms(2,3)] assms(1) show ?thesis by (simp add: full_step_def conserved_def)
next
  case True
  let ?K = "{queue_key (m_to m), mailboxMeta_key (m_to m), inboxEvents_key (m_to m), message_outstanding_key m}"
  from True bounded_push_outcome[OF assms(2,3)] have d': "d' = pushed_db E m id (store s)" by simp
  note pv = pushed_db_views[where K = "{}" and mark = id and m = m and E = E and d = "store s"]
  have f: "frame ?K (store s) d'" using pv(5) by (auto simp: frame_def d')
  have q: "list_at d' (queue_key (m_to m)) = list_at (store s) (queue_key (m_to m)) @ [message_text E m]" using pv(1) by (simp add: d')
  have ty: "holds d' (queue_key (m_to m)) TList" unfolding d' by (rule pushed_db_holds_queue[where K = "{}"]) simp_all
  from assms(1) have inv: "claims_ok E (store s)" "\<forall>b. holds (store s) (queue_key b) TList \<and> holds (store s) (dlq_key b) TList"
    by (auto simp: conserved_def)
  have k: "claims_key \<notin> ?K" "\<And>b. claimsIndex_key b \<notin> ?K" "\<And>b. dlq_key b \<notin> ?K" "\<And>b. queue_key b \<in> ?K \<Longrightarrow> b = m_to m"
    by (auto simp: outstanding_claim_keys)
  show ?thesis
    using assms(1) True inbox_step[OF inv f k ty, of "{#}" "{#message_text E m#}"] q by (auto simp: conserved_def add_at_def)
qed

lemma pop_conserved:
  assumes "conserved E s" and "pop_one a (store s) = (Inr x, d')"
  shows "conserved E (s\<lparr>store := d', settled := add_at a (case x of None \<Rightarrow> {#} | Some p \<Rightarrow> {#p#}) (settled s)\<rparr>)"
proof -
  from assms(1) have inv: "claims_ok E (store s)" "\<forall>b. holds (store s) (queue_key b) TList \<and> holds (store s) (dlq_key b) TList"
    by (auto simp: conserved_def)
  let ?out = "case x of None \<Rightarrow> {#} | Some p \<Rightarrow> {#p#}"
  have f: "frame {queue_key a} (store s) d'" and q: "mset (list_at d' (queue_key a)) + ?out = mset (list_at (store s) (queue_key a)) + {#}"
    and ty: "holds d' (queue_key a) TList"
    using assms(2) inv(2) by (auto simp: pop_one_def LPOP_def on_type_def frame_def view_simps split: list.splits if_splits)
  note st = inbox_step[OF inv f _ _ _ _ ty q]
  show ?thesis using assms(1) st by (auto simp: conserved_def add_at_def ac_simps)
qed

lemma batch_conserved:
  assumes "conserved E s" and "0 < n" and "claim_template E (store s) c t" and "claims_batch_claim E c (Some t) n mx (store s) = (res, d')"
  shows "conserved E (s\<lparr>store := d'\<rparr>)"
proof -
  from assms(1) have inv: "claims_ok E (store s)" "\<forall>b. holds (store s) (queue_key b) TList \<and> holds (store s) (dlq_key b) TList"
    by (auto simp: conserved_def)
  note eff = batch_claim_effect[OF inv(1) _ assms(2-4)]
  have ty: "holds (store s) (queue_key (tc_actor_id c)) TList" using inv by blast
  have "\<forall>b. holds d' (queue_key b) TList \<and> holds d' (dlq_key b) TList"
    by (rule lists_kept[OF eff(4)[OF ty]]) (use inv eff(5)[OF ty] frame_holds[OF eff(4)[OF ty]] in auto)
  with assms(1) eff(2,3)[OF ty] show ?thesis by (simp add: conserved_def)
qed

lemma ack_conserved:
  assumes "conserved E s" and "claims_ack E i a z (store s) = (res, d')"
  shows "conserved E (s\<lparr>store := d', settled := add_at a (case res of Inr (Done _) \<Rightarrow> mset (tc_tasks (the (claim_at E (store s) i))) | _ \<Rightarrow> {#}) (settled s)\<rparr>)"
proof -
  from assms(1) have inv: "claims_ok E (store s)" "\<forall>b. holds (store s) (queue_key b) TList \<and> holds (store s) (dlq_key b) TList"
    by (auto simp: conserved_def)
  note eff = ack_effect[OF inv(1) assms(2)]
  have "\<forall>b. holds d' (queue_key b) TList \<and> holds d' (dlq_key b) TList"
    using inv(2) frame_holds[OF eff(2)] by auto
  with assms(1) eff(1,3) show ?thesis
    by (auto simp: conserved_def add_at_def ac_simps split: option.splits if_splits)
qed

lemma renew_conserved:
  assumes "conserved E s" and "0 \<le> now" and "valid_instant (now + ttl * 1000)" and "claims_renew E i a z now ttl budget (store s) = (res, d')"
  shows "conserved E (s\<lparr>store := d'\<rparr>)"
proof -
  from assms(1) have inv: "claims_ok E (store s)" "\<forall>b. holds (store s) (queue_key b) TList \<and> holds (store s) (dlq_key b) TList"
    by (auto simp: conserved_def)
  note eff = renew_effect[OF inv(1) assms(2-4)]
  then have f: "frame {claims_key, claimsIndex_key a} (store s) d'" by blast
  have "\<forall>b. holds d' (queue_key b) TList \<and> holds d' (dlq_key b) TList" using inv(2) frame_holds[OF f] by auto
  with assms(1) eff show ?thesis by (simp add: conserved_def)
qed

lemma recover_conserved:
  assumes "conserved E s" and "length (expired_items E (store s) (expired_ids (store s) a now)) < 2 ^ 61"
    and "claims_recover E a now RECOVER_CAP DLQ_MAX_LENGTH RECOVER_COUNTER_TTL_SECONDS (store s) = (res, d')"
    and "recovery_split E (store s) a now RECOVER_CAP = (r, q)"
  shows "conserved E (s\<lparr>store := d',
    settled := add_at a (if recoverable E (store s) a now then overflow DLQ_MAX_LENGTH q (list_at (store s) (dlq_key a)) else {#}) (settled s)\<rparr>)"
proof -
  from assms(1) have inv: "claims_ok E (store s)" "\<forall>b. holds (store s) (queue_key b) TList \<and> holds (store s) (dlq_key b) TList"
    by (auto simp: conserved_def)
  have "(0::int) < RECOVER_COUNTER_TTL_SECONDS" "0 < DLQ_MAX_LENGTH" by (simp_all add: RECOVER_COUNTER_TTL_SECONDS_def DLQ_MAX_LENGTH_def)
  note eff = recover_effect[OF inv(1) this assms(2-4)]
  have "holds d' (queue_key a) TList \<and> holds d' (dlq_key a) TList"
    using eff(4) inv(2) by (auto simp: delivered_def split: if_splits)
  then have "\<forall>b. holds d' (queue_key b) TList \<and> holds d' (dlq_key b) TList"
    by (intro lists_kept[OF eff(3), of a]) (use inv in auto)
  with assms(1) eff show ?thesis by (auto simp: conserved_def add_at_def ac_simps)
qed

lemma requeue_conserved:
  assumes "conserved E s" and "claims_requeue E a m (store s) = (res, d')"
  shows "conserved E (s\<lparr>store := d'\<rparr>)"
proof -
  from assms(1) have inv: "claims_ok E (store s)" "\<forall>b. holds (store s) (queue_key b) TList \<and> holds (store s) (dlq_key b) TList"
    by (auto simp: conserved_def)
  show ?thesis
  proof (cases "find (\<lambda>p. envelope_id E p = Some m) (list_at (store s) (dlq_key a))")
    case None
    with requeue_run(1)[OF _ _ None] inv assms show ?thesis by simp
  next
    case (Some p)
    then have p: "p \<in> set (list_at (store s) (dlq_key a))" by (auto simp: find_Some_iff)
    from requeue_run(2)[OF _ _ Some] inv(2) assms(2) have
      eff: "list_at d' (queue_key a) = list_at (store s) (queue_key a) @ [p]" "list_at d' (dlq_key a) = remove1 p (list_at (store s) (dlq_key a))"
        "frame {queue_key a, dlq_key a, recoverCount_key a m} (store s) d'" "holds d' (queue_key a) TList" "holds d' (dlq_key a) TList" by auto
    have "claims_ok E d'" by (rule claims_ok_frame[OF inv(1) eff(3)]) auto
    moreover have "\<forall>b. holds d' (queue_key b) TList \<and> holds d' (dlq_key b) TList"
      by (rule lists_kept[OF eff(3), of a]) (use inv eff in auto)
    moreover have "held E d' b = held E (store s) b" for b
    proof (cases "b = a")
      case True
      have "claimed E d' a = claimed E (store s) a" by (rule claimed_frame[OF eff(3)]) simp_all
      with True eff p show ?thesis by (simp add: held_def)
    qed (rule held_frame[OF eff(3)]; simp)
    ultimately show ?thesis using assms(1) by (simp add: conserved_def)
  qed
qed

lemma elsewhere_conserved:
  assumes "conserved E s" and f: "frame (- task_keys) (store s) d'"
  shows "conserved E (s\<lparr>store := d'\<rparr>)"
proof -
  have "claims_ok E d'" by (rule claims_ok_frame[OF _ f]) (use assms(1) in \<open>simp_all add: conserved_def\<close>)
  moreover have "held E d' b = held E (store s) b" for b by (rule held_frame[OF f]) simp_all
  ultimately show ?thesis using assms frame_holds[OF f] by (simp add: conserved_def)
qed

lemma delivery_step_conserved: "delivery_step E s e t \<Longrightarrow> conserved E s \<Longrightarrow> conserved E t"
  by (induction rule: delivery_step.induct)
    (blast intro: push_conserved pop_conserved batch_conserved ack_conserved renew_conserved recover_conserved requeue_conserved elsewhere_conserved)+

lemma delivery_init_conserved: "delivery_init s \<Longrightarrow> conserved E s"
  by (simp add: delivery_init_def conserved_def claims_ok_empty held_def claimed_def score_at_def)

lemma delivery_invariant: "invariant_system delivery_init (delivery_step E) (conserved E)"
  by unfold_locales (blast intro: delivery_init_conserved delivery_step_conserved)+

end

interpretation delivery: invariant_system delivery_init "delivery_step std_env" "conserved std_env"
  by (rule std.delivery_invariant)

text \<open>
  (C1) At-least-once delivery. In every state that pushes, receives, batch claims, acknowledgements,
  renewals, recoveries and requeues reach in any order, the claims hash and the index of every actor agree,
  and the tasks an actor's inbox ever accepted are exactly those it still holds, in the inbox, in an
  outstanding claim or in the dead-letter queue, and those that were settled: received outright,
  acknowledged by their owner, or pushed out of the dead-letter queue by its bound.
\<close>

theorem no_task_lost:
  assumes "js_runtime E" and "reach delivery_init (delivery_step E) s"
  shows "claims_ok E (store s) \<and> (\<forall>a. accepted s a = held E (store s) a + settled s a)"
  using invariant_system.reach_inv[OF js_runtime.delivery_invariant[OF assms(1)] assms(2)] by (simp add: conserved_def)

theorem no_task_lost_witness:
  "\<exists>s. reach delivery_init (delivery_step std_env) s \<and> list_at (store s) (queue_key ''bob'') = [message_text std_env demo_message]
    \<and> accepted s ''bob'' = held std_env (store s) ''bob'' + settled s ''bob''"
proof -
  let ?init = "\<lparr>store = empty_db, accepted = (\<lambda>_. {#}), settled = (\<lambda>_. {#})\<rparr>"
  let ?d = "pushed_db std_env demo_message id empty_db"
  let ?s = "?init\<lparr>store := ?d, accepted := add_at (m_to demo_message) {#message_text std_env demo_message#} (accepted ?init)\<rparr>"
  have "bounded_push std_env 10 demo_message empty_db = (Inr True, ?d)"
    by (rule std.bounded_push_run(1)[OF wire_demo push_types_empty]) simp
  with delivery_step.push[OF wire_demo, of std_env 10 ?init True ?d] have "delivery_step std_env ?init (Push_message 10 demo_message) ?s" by simp
  moreover have "reach delivery_init (delivery_step std_env) ?init" by (rule reach_init) (simp add: delivery_init_def)
  ultimately have "reach delivery_init (delivery_step std_env) ?s" by (rule reach_step[rotated])
  moreover have "list_at ?d (queue_key ''bob'') = [message_text std_env demo_message]"
    using pushed_db_views(1)[where K = "{}" and mark = id and m = demo_message and E = std_env and d = empty_db]
    by (simp add: demo_message_def)
  ultimately show ?thesis using no_task_lost[OF std.js_runtime_axioms, of ?s] by (intro exI[of _ ?s]) simp
qed

end
