(* ===== verification/Session_Props.thy ===== *)
theory Session_Props
  imports Session_Store Mailbox_Props
begin

text \<open>
  What the session store guarantees: failed registrations leave the registry as they found it, a live
  session is always recorded and listed, and batched presence is the presence of each agent.
\<close>

section \<open>Registry rollback\<close>

abbreviation registered :: "db \<Rightarrow> string \<Rightarrow> string option" where
  "registered d \<equiv> map_of (hash_at d registry_key)"

abbreviation pending :: "db \<Rightarrow> string \<Rightarrow> string option" where
  "pending d \<equiv> map_of (hash_at d registryPending_key)"

abbreviation restore :: "db \<Rightarrow> string \<Rightarrow> string option" where
  "restore d \<equiv> map_of (hash_at d registryRestore_key)"

definition registry_types :: "db \<Rightarrow> bool" where
  "registry_types d \<longleftrightarrow> holds d registry_key THash \<and> holds d registryPending_key THash \<and> holds d registryRestore_key THash"

lemma registry_keys_distinct [simp]:
  "registry_key \<noteq> registryPending_key" "registryPending_key \<noteq> registry_key" "registry_key \<noteq> registryRestore_key"
  "registryRestore_key \<noteq> registry_key" "registryPending_key \<noteq> registryRestore_key" "registryRestore_key \<noteq> registryPending_key"
  by (simp_all add: key_simps)

lemma as_hash_put [simp]: "(if xs = [] then as_hash None else as_hash (Some (RHash xs))) = xs"
  by simp

lemma as_set_put [simp]: "(if xs = [] then as_set None else as_set (Some (RSet xs))) = xs"
  by simp

lemma write_provisional_run:
  assumes "registry_types d"
  shows "\<exists>d'. write_provisional_registry n v d = (Inr (), d') \<and> registry_types d'
    \<and> registered d' = (registered d)(n \<mapsto> v) \<and> pending d' = (pending d)(n \<mapsto> v)
    \<and> restore d' = (restore d)(n := if registered d n \<noteq> None \<and> registered d n = pending d n then restore d n else registered d n)"
  using assms
  by (cases "if registered d n \<noteq> None \<and> registered d n = pending d n then restore d n else registered d n")
    (auto simp: write_provisional_registry_def registry_types_def run_simps view_simps Let_def)

lemma undo_run:
  assumes "registry_types d"
  shows "\<exists>d'. undo_registry_write n v d = (Inr (registered d n = Some v), d') \<and> registry_types d' \<and>
    (if registered d n = Some v
     then registered d' = (registered d)(n := restore d n) \<and> pending d' = (pending d)(n := None) \<and> restore d' = (restore d)(n := None)
     else registered d' = registered d \<and> pending d' = (if pending d n = Some v then (pending d)(n := None) else pending d) \<and> restore d' = restore d)"
  using assms
  by (cases "registered d n = Some v"; cases "restore d n"; cases "pending d n = Some v")
    (auto simp: undo_registry_write_def registry_types_def run_simps view_simps)

lemma publish_run:
  assumes "registry_types d"
  shows "\<exists>d'. publish_registration n w d = (Inr (), d') \<and> registry_types d'
    \<and> registered d' = (registered d)(n \<mapsto> w) \<and> pending d' = (pending d)(n := None) \<and> restore d' = (restore d)(n := None)"
  using assms by (auto simp: publish_registration_def registry_types_def run_simps view_simps)

text \<open>
  The system of all registrations. A registration writes a provisional value, then publishes a completed
  one or undoes its write; a retirement deletes the entry. A completed value records a process id and a
  provisional one does not, so no value is both. The ghost state is the last completed value of a name.
\<close>

record registrations =
  rstore :: db
  completed :: "string \<Rightarrow> string option"

datatype registration_event = Write_provisional string string | Undo string string | Publish string string | Retire string | Elsewhere_registry

definition is_provisional :: "runtime \<Rightarrow> string \<Rightarrow> bool" where
  "is_provisional E v \<longleftrightarrow> (case JSON_parse E v of None \<Rightarrow> True | Some j \<Rightarrow> jget j ''pid'' = None)"

inductive registration_step :: "runtime \<Rightarrow> registrations \<Rightarrow> registration_event \<Rightarrow> registrations \<Rightarrow> bool" for E where
  wrote: "is_provisional E v \<Longrightarrow> write_provisional_registry n v (rstore s) = (r, d') \<Longrightarrow>
    registration_step E s (Write_provisional n v) (s\<lparr>rstore := d'\<rparr>)"
| undone: "is_provisional E v \<Longrightarrow> undo_registry_write n v (rstore s) = (r, d') \<Longrightarrow> registration_step E s (Undo n v) (s\<lparr>rstore := d'\<rparr>)"
| publish: "\<not> is_provisional E w \<Longrightarrow> publish_registration n w (rstore s) = (r, d') \<Longrightarrow>
    registration_step E s (Publish n w) (s\<lparr>rstore := d', completed := (completed s)(n \<mapsto> w)\<rparr>)"
| retire: "HDEL registry_key n (rstore s) = (r, d') \<Longrightarrow>
    registration_step E s (Retire n) (s\<lparr>rstore := d', completed := (completed s)(n := None)\<rparr>)"
| elsewhere: "(\<And>k. k \<in> {registry_key, registryPending_key, registryRestore_key} \<Longrightarrow> live d' k = live (rstore s) k) \<Longrightarrow>
    registration_step E s Elsewhere_registry (s\<lparr>rstore := d'\<rparr>)"

definition registration_init :: "runtime \<Rightarrow> registrations \<Rightarrow> bool" where
  "registration_init E s \<longleftrightarrow> registry_types (rstore s) \<and> completed s = registered (rstore s) \<and> pending (rstore s) = Map.empty
     \<and> (\<forall>n v. registered (rstore s) n = Some v \<longrightarrow> \<not> is_provisional E v)"

text \<open>A name's registry value, pending value, value to restore and last completed value fit together.\<close>

definition name_ok :: "string option \<Rightarrow> string option \<Rightarrow> string option \<Rightarrow> string option \<Rightarrow> bool" where
  "name_ok cur pend rest fin \<longleftrightarrow> (if cur \<noteq> None \<and> cur = pend then rest = fin else cur = fin)"

definition restorable :: "runtime \<Rightarrow> registrations \<Rightarrow> bool" where
  "restorable E s \<longleftrightarrow> registry_types (rstore s) \<and> (\<forall>n v. completed s n = Some v \<longrightarrow> \<not> is_provisional E v) \<and>
     (\<forall>n. name_ok (registered (rstore s) n) (pending (rstore s) n) (restore (rstore s) n) (completed s n))"

lemma restorable_upd:
  assumes inv: "restorable E s" and ty: "registry_types d'" and c: "\<forall>v. c n = Some v \<longrightarrow> \<not> is_provisional E v"
    and other: "\<And>m. m \<noteq> n \<Longrightarrow> registered d' m = registered (rstore s) m \<and> pending d' m = pending (rstore s) m
      \<and> restore d' m = restore (rstore s) m \<and> c m = completed s m"
    and new: "name_ok (registered d' n) (pending d' n) (restore d' n) (c n)"
  shows "restorable E (s\<lparr>rstore := d', completed := c\<rparr>)"
  unfolding restorable_def
proof (intro conjI allI impI)
  show "\<not> is_provisional E v" if "completed (s\<lparr>rstore := d', completed := c\<rparr>) m = Some v" for m v
    using that c other[of m] inv by (cases "m = n") (auto simp: restorable_def)
  show "name_ok (registered (rstore (s\<lparr>rstore := d', completed := c\<rparr>)) m) (pending (rstore (s\<lparr>rstore := d', completed := c\<rparr>)) m)
      (restore (rstore (s\<lparr>rstore := d', completed := c\<rparr>)) m) (completed (s\<lparr>rstore := d', completed := c\<rparr>) m)" for m
    using new other[of m] inv by (cases "m = n") (auto simp: restorable_def)
qed (simp add: ty)

lemma restorable_step:
  assumes inv: "restorable E s" and step: "registration_step E s e t"
  shows "restorable E t"
proof -
  from inv have ty: "registry_types (rstore s)" and prov: "\<And>n v. completed s n = Some v \<Longrightarrow> \<not> is_provisional E v"
    and ok: "\<And>n. name_ok (registered (rstore s) n) (pending (rstore s) n) (restore (rstore s) n) (completed s n)"
    by (auto simp: restorable_def)
  from step show ?thesis
  proof cases
    case (wrote v n r d')
    have "restorable E (s\<lparr>rstore := d', completed := completed s\<rparr>)"
      using write_provisional_run[OF ty, of n v] wrote(4) ok[of n] prov
      by (intro restorable_upd[OF inv, where n = n]) (auto simp: name_ok_def split: if_splits)
    with wrote show ?thesis by simp
  next
    case (undone v n r d')
    have "registered (rstore s) n = Some v \<Longrightarrow> restore (rstore s) n = completed s n"
      using ok[of n] prov[of n v] undone(3) by (auto simp: name_ok_def split: if_splits)
    then have "restorable E (s\<lparr>rstore := d', completed := completed s\<rparr>)"
      using undo_run[OF ty, of n v] undone(4) ok[of n] prov
      by (intro restorable_upd[OF inv, where n = n]) (auto simp: name_ok_def split: if_splits)
    with undone show ?thesis by simp
  next
    case (publish w n r d')
    have "restorable E (s\<lparr>rstore := d', completed := (completed s)(n \<mapsto> w)\<rparr>)"
      using publish_run[OF ty, of n w] publish(3,4)
      by (intro restorable_upd[OF inv, where n = n]) (auto simp: name_ok_def)
    with publish show ?thesis by simp
  next
    case (retire n r d')
    with ty have d': "d' = put_hash registry_key (AList.delete n (hash_at (rstore s) registry_key)) (rstore s)"
      by (simp add: registry_types_def run_simps)
    have "restorable E (s\<lparr>rstore := d', completed := (completed s)(n := None)\<rparr>)"
      by (intro restorable_upd[OF inv, where n = n]) (use ty d' in \<open>auto simp: name_ok_def registry_types_def view_simps\<close>)
    with retire show ?thesis by simp
  next
    case (elsewhere d')
    with inv show ?thesis by (simp add: restorable_def registry_types_def holds_def)
  qed
qed

interpretation registrations: invariant_system "registration_init E" "registration_step E" "restorable E" for E
proof unfold_locales
  show "restorable E s" if "registration_init E s" for s using that by (auto simp: registration_init_def restorable_def name_ok_def)
qed (rule restorable_step)

text \<open>
  (C8) Failed registrations never damage the registry. In every state that provisional writes, undos,
  publications and retirements of any number of clients reach, a name holds its last completed value, or
  a provisional one behind which that value is kept; so undoing a provisional write that is still
  current restores exactly the last completed value, and undoing any other one changes nothing.
\<close>

theorem registry_rollback_exact:
  assumes "reach (registration_init E) (registration_step E) s" and "is_provisional E v" and "undo_registry_write n v (rstore s) = (res, d')"
  shows "if registered (rstore s) n = Some v
    then res = Inr True \<and> registered d' = (registered (rstore s))(n := completed s n)
    else res = Inr False \<and> registered d' = registered (rstore s)"
proof -
  have inv: "restorable E s" by (rule registrations.reach_inv[OF assms(1)])
  then have ty: "registry_types (rstore s)" by (simp add: restorable_def)
  have "registered (rstore s) n = Some v \<Longrightarrow> restore (rstore s) n = completed s n"
    using inv assms(2) unfolding restorable_def name_ok_def by (metis option.distinct(1))
  with undo_run[OF ty, of n v] assms(3) show ?thesis by (auto split: if_splits)
qed

theorem registry_rollback_exact_witness:
  "\<exists>s v d'. reach (registration_init std_env) (registration_step std_env) s \<and> registered (rstore s) ''bob'' = Some v
     \<and> completed s ''bob'' = None \<and> undo_registry_write ''bob'' v (rstore s) = (Inr True, d') \<and> registered d' ''bob'' = None"
proof -
  let ?v = "JSON_stringify std_env (obj [(''name'', JStr ''bob'')])"
  let ?init = "\<lparr>rstore = empty_db, completed = Map.empty\<rparr>"
  have "wire_json (obj [(''name'', JStr ''bob'')])" by (rule wire_depthI, rule wire_objI) simp
  then have p: "is_provisional std_env ?v" by (simp add: is_provisional_def std.parse_stringify)
  have ty: "registry_types empty_db" by (simp add: registry_types_def)
  from write_provisional_run[OF ty, of "''bob''" ?v] obtain d where
    d: "write_provisional_registry ''bob'' ?v empty_db = (Inr (), d)" "registered d = [''bob'' \<mapsto> ?v]" by auto
  have "reach (registration_init std_env) (registration_step std_env) ?init"
    by (rule reach_init) (simp add: registration_init_def ty)
  moreover have "registration_step std_env ?init (Write_provisional ''bob'' ?v) (?init\<lparr>rstore := d\<rparr>)"
    using registration_step.wrote[OF p, of "''bob''" ?init] d by simp
  ultimately have r: "reach (registration_init std_env) (registration_step std_env) (?init\<lparr>rstore := d\<rparr>)" by (rule reach_step)
  obtain res d' where u: "undo_registry_write ''bob'' ?v d = (res, d')" by fastforce
  from registry_rollback_exact[OF r p, of "''bob''" res d'] u d have "res = Inr True \<and> registered d' ''bob'' = None" by simp
  with r u d show ?thesis by (intro exI[of _ "?init\<lparr>rstore := d\<rparr>"] exI[of _ ?v] exI[of _ d']) simp
qed

section \<open>Presence in batches\<close>

text \<open>The presence of one agent, read session by session.\<close>

definition lease_alive :: "db \<Rightarrow> string \<Rightarrow> bool" where
  "lease_alive d sid \<longleftrightarrow> fst (TTL (lease_key sid) d) \<in> {Inr t | t. 0 < t}"

definition presence_of :: "db \<Rightarrow> string \<Rightarrow> AgentPresence" where
  "presence_of d name =
     (let active = filter (lease_alive d) (set_at d (agentSessions_key name)) in
      \<lparr>p_agent_name = name, p_online = (active \<noteq> []), p_active_sessions = active\<rparr>)"

definition ttl_at :: "db \<Rightarrow> string \<Rightarrow> int" where
  "ttl_at d sid = projr (fst (TTL (lease_key sid) d))"

lemma TTL_run: "TTL (lease_key sid) d = (Inr (ttl_at d sid), d)"
  by (simp add: TTL_def ttl_at_def getM_def)

lemma lease_alive_ttl: "lease_alive d sid \<longleftrightarrow> 0 < ttl_at d sid"
  by (simp add: lease_alive_def TTL_run)

lemma runs_mapM: "(\<And>x. x \<in> set xs \<Longrightarrow> runs (f x) d (g x) d) \<Longrightarrow> runs (mapM f xs) d (map g xs) d"
  by (induction xs) (auto intro!: runs_ret runs_bindM)

lemma filter_zip_upt:
  "map fst (filter (\<lambda>(_, j). P j) (zip xs [n..<n + length xs])) = map fst (filter (\<lambda>(_, j). P (n + j)) (zip xs [0..<length xs]))"
proof (induction xs arbitrary: n P)
  case (Cons x xs)
  have l: "[n..<n + length (x # xs)] = n # [Suc n..<Suc n + length xs]" by (simp add: upt_conv_Cons del: upt_Suc)
  have r: "[0..<length (x # xs)] = 0 # [Suc 0..<Suc 0 + length xs]" by (simp add: upt_conv_Cons del: upt_Suc)
  show ?case unfolding l r using Cons.IH[of P "Suc n"] Cons.IH[of "\<lambda>j. P (n + j)" "Suc 0"] by simp
qed simp

lemma active_sessions:
  "map fst (filter (\<lambda>(_, j). 0 < (pre @ map t sids @ post) ! (length pre + j)) (zip sids [0..<length sids])) = filter (\<lambda>s. 0 < (t s :: int)) sids"
proof (induction sids arbitrary: pre)
  case (Cons s sids)
  have r: "[0..<length (s # sids)] = 0 # [Suc 0..<Suc 0 + length sids]" by (simp add: upt_conv_Cons del: upt_Suc)
  have "map fst (filter (\<lambda>(_, j). 0 < (pre @ map t (s # sids) @ post) ! (length pre + j)) (zip sids [Suc 0..<Suc 0 + length sids]))
      = map fst (filter (\<lambda>(_, j). 0 < ((pre @ [t s]) @ map t sids @ post) ! (length (pre @ [t s]) + j)) (zip sids [0..<length sids]))"
    using filter_zip_upt[of "\<lambda>j. 0 < (pre @ map t (s # sids) @ post) ! (length pre + j)" sids "Suc 0"] by simp
  also have "\<dots> = filter (\<lambda>s. 0 < t s) sids" by (rule Cons.IH)
  finally show ?case unfolding r by (simp add: nth_append)
qed simp

lemma presences_map:
  "presences (pre @ map t (concat (map m names))) (length pre) (map (\<lambda>n. (n, m n)) names) =
    map (\<lambda>n. let active = filter (\<lambda>s. 0 < t s) (m n) in \<lparr>p_agent_name = n, p_online = (active \<noteq> []), p_active_sessions = active\<rparr>) names"
proof (induction names arbitrary: pre)
  case (Cons n names)
  have "presences ((pre @ map t (m n)) @ map t (concat (map m names))) (length (pre @ map t (m n))) (map (\<lambda>n. (n, m n)) names) =
    map (\<lambda>n. let active = filter (\<lambda>s. 0 < t s) (m n) in \<lparr>p_agent_name = n, p_online = (active \<noteq> []), p_active_sessions = active\<rparr>) names"
    by (rule Cons.IH)
  then show ?case using active_sessions[of pre t "m n" "map t (concat (map m names))"] by (simp add: Let_def)
qed simp

text \<open>
  Batched presence is the presence of each agent. Undisturbed, two round trips over any list of
  agents return, in the order asked, exactly what reading each agent's sessions and leases one by one
  gives, and change nothing.
\<close>

lemma presence_batch_equiv:
  assumes "\<forall>name \<in> set names. holds d (agentSessions_key name) TSet"
  shows "runs (getPresenceMany names :: (world, _) comp) d (map (presence_of d) names) d"
proof (cases "names = []")
  case True
  then show ?thesis by (simp add: getPresenceMany_def runs_ret)
next
  case False
  let ?m = "\<lambda>name. set_at d (agentSessions_key name)"
  have m: "runs (mapM (\<lambda>name. atomic (SMEMBERS (agentSessions_key name))) names :: (world, _) comp) d (map ?m names) d"
    by (rule runs_mapM, rule runs_atomic) (use assms in \<open>simp add: run_simps\<close>)
  have t: "runs (mapM (\<lambda>sid. atomic (TTL (lease_key sid))) (concat (map ?m names)) :: (world, _) comp) d (map (ttl_at d) (concat (map ?m names))) d"
    by (rule runs_mapM, rule runs_atomic) (rule TTL_run)
  have z: "zip names (map ?m names) = map (\<lambda>n. (n, ?m n)) names" by (simp add: zip_map2 zip_same_conv_map)
  have "presences (map (ttl_at d) (concat (map ?m names))) 0 (zip names (map ?m names)) = map (presence_of d) names"
    using presences_map[of "[]" "ttl_at d" ?m names] unfolding z by (simp add: presence_of_def lease_alive_ttl[abs_def] Let_def)
  with False show ?thesis
    unfolding getPresenceMany_def by (simp, intro runs_bindM[OF m] runs_bindM[OF t]) (simp add: runs_ret)
qed

section \<open>Live sessions are listed\<close>

abbreviation agent_of :: "db \<Rightarrow> string \<Rightarrow> string option" where
  "agent_of d sid \<equiv> map_of (hash_at d (session_key sid)) ''agent_name''"

abbreviation sessions_of :: "db \<Rightarrow> string \<Rightarrow> string set" where
  "sessions_of d a \<equiv> set (set_at d (agentSessions_key a))"

abbreviation lease_live :: "db \<Rightarrow> string \<Rightarrow> bool" where
  "lease_live d sid \<equiv> live d (lease_key sid) \<noteq> None"

definition session_types :: "db \<Rightarrow> bool" where
  "session_types d \<longleftrightarrow> (\<forall>sid. holds d (session_key sid) THash) \<and> (\<forall>a. holds d (agentSessions_key a) TSet)"

text \<open>\<open>C\<close> are the sessions whose record was deleted by a close that has not yet removed them from their set.\<close>

definition live_listed :: "string set \<Rightarrow> db \<Rightarrow> bool" where
  "live_listed C d \<longleftrightarrow> session_types d
     \<and> (\<forall>sid. lease_live d sid \<longrightarrow> sid \<notin> C \<and> (\<exists>a. agent_of d sid = Some a \<and> sid \<in> sessions_of d a))
     \<and> (\<forall>sid \<in> C. agent_of d sid = None)"

lemma live_listedI:
  assumes "session_types d" and "\<And>x. x \<in> C \<Longrightarrow> agent_of d x = None"
    and "\<And>x. lease_live d x \<Longrightarrow> x \<notin> C" and "\<And>x. lease_live d x \<Longrightarrow> \<exists>a. agent_of d x = Some a \<and> x \<in> sessions_of d a"
  shows "live_listed C d"
  using assms unfolding live_listed_def by blast

lemma live_listedD:
  assumes "live_listed C d"
  shows "session_types d" and "x \<in> C \<Longrightarrow> agent_of d x = None" and "lease_live d x \<Longrightarrow> x \<notin> C"
    and "lease_live d x \<Longrightarrow> \<exists>a. agent_of d x = Some a \<and> x \<in> sessions_of d a"
  using assms unfolding live_listed_def by blast+

lemma live_listed_upd:
  assumes inv: "live_listed C d" and "session_types d'" and "\<And>x. x \<in> C' \<Longrightarrow> agent_of d' x = None" and "\<And>x. lease_live d' x \<Longrightarrow> x \<notin> C'"
    and step: "\<And>x. lease_live d' x \<Longrightarrow> (\<exists>a. agent_of d' x = Some a \<and> x \<in> sessions_of d' a)
      \<or> lease_live d x \<and> agent_of d' x = agent_of d x \<and> (\<forall>b. x \<in> sessions_of d b \<longrightarrow> x \<in> sessions_of d' b)"
  shows "live_listed C' d'"
proof (rule live_listedI[OF assms(2-4)])
  fix x assume x: "lease_live d' x"
  from step[OF x] show "\<exists>a. agent_of d' x = Some a \<and> x \<in> sessions_of d' a"
    using live_listedD(4)[OF inv, of x] by metis
qed

lemma session_keys_distinct [simp]:
  "session_key a \<noteq> lease_key b" "lease_key b \<noteq> session_key a" "session_key a \<noteq> agentSessions_key b" "agentSessions_key b \<noteq> session_key a"
  "lease_key a \<noteq> agentSessions_key b" "agentSessions_key b \<noteq> lease_key a"
  "session_key a = session_key b \<longleftrightarrow> a = b" "lease_key a = lease_key b \<longleftrightarrow> a = b" "agentSessions_key a = agentSessions_key b \<longleftrightarrow> a = b"
  by (simp_all add: key_simps)

lemma map_of_fields: "map_of (foldl (\<lambda>h (f, v). AList.update f v h) h fs) x = (map_of h ++ map_of (rev fs)) x"
proof (induction fs arbitrary: h)
  case (Cons e fs)
  obtain f v where e: "e = (f, v)" by (cases e)
  show ?case using Cons.IH[of "AList.update f v h"] by (simp add: e update_conv' map_add_def split: option.splits)
qed simp

lemma fields_not_Nil [simp]: "fs \<noteq> [] \<Longrightarrow> foldl (\<lambda>h (f, v). AList.update f v h) h fs \<noteq> []"
  by (induction fs rule: rev_induct) (auto split: prod.splits)

lemma LEASE_TTL_pos [simp]: "0 < LEASE_TTL_SECONDS"
  by (simp add: LEASE_TTL_SECONDS_def)

lemma create_listed:
  assumes inv: "live_listed C d" and fresh: "s_session_id r \<notin> C" and run: "session_create r d = (res, d')"
  shows "live_listed C d'"
proof -
  let ?sid = "s_session_id r" let ?a = "s_agent_name r"
  from inv have ty: "holds d (session_key ?sid) THash" "holds d (agentSessions_key ?a) TSet" by (auto simp: live_listed_def session_types_def)
  have run': "d' = put_set (agentSessions_key ?a) (List.insert ?sid (set_at d (agentSessions_key ?a)))
      (upd (lease_key ?sid) (Some (RString ''alive'')) (Ex LEASE_TTL_SECONDS) (put_hash (session_key ?sid) (foldl (\<lambda>h (f, v). AList.update f v h) (hash_at d (session_key ?sid))
        [(''session_id'', ?sid), (''agent_name'', ?a), (''role'', s_role r), (''description'', case s_description r of None \<Rightarrow> [] | Some t \<Rightarrow> t),
         (''created_at'', s_created_at r), (''last_seen'', s_last_seen r), (''transport'', case s_transport r of None \<Rightarrow> [] | Some t \<Rightarrow> t)]) d))"
    using run ty unfolding session_create_def HSET_fields_def
    by (simp add: run_simps view_simps del: foldl_Cons foldl_Nil)
  have ag: "agent_of d' sid = (if sid = ?sid then Some ?a else agent_of d sid)" for sid
    unfolding run' by (simp add: view_simps map_of_fields del: foldl_Cons foldl_Nil)
  have se: "sessions_of d' b = (if b = ?a then insert ?sid (sessions_of d b) else sessions_of d b)" for b
    unfolding run' by (auto simp: view_simps simp del: foldl_Cons foldl_Nil)
  have le: "lease_live d' sid \<longleftrightarrow> sid = ?sid \<or> lease_live d sid" for sid
    unfolding run' by (auto simp: view_simps simp del: foldl_Cons foldl_Nil)
  have "session_types d'" using inv unfolding run' by (simp add: live_listed_def session_types_def view_simps del: foldl_Cons foldl_Nil)
  then show ?thesis
    by (rule live_listed_upd[OF inv]; unfold ag se le) (use live_listedD(2,3)[OF inv] fresh in \<open>auto split: if_splits\<close>)
qed

lemma refresh_listed:
  assumes inv: "live_listed C d" and run: "refresh_lease sid LEASE_TTL_SECONDS now d = (res, d')"
  shows "live_listed C d'"
proof (cases "agent_of d sid")
  case None
  with run inv show ?thesis by (auto simp: refresh_lease_def live_listed_def session_types_def run_simps)
next
  case (Some a)
  from inv have ty: "holds d (session_key sid) THash" "holds d (agentSessions_key a) TSet" by (auto simp: live_listed_def session_types_def)
  show ?thesis
  proof (cases "a = []")
    case True
    with Some run ty inv show ?thesis by (auto simp: refresh_lease_def run_simps)
  next
    case False
    with Some run ty have run': "d' = put_set (agentSessions_key a) (List.insert sid (set_at d (agentSessions_key a)))
        (put_hash (session_key sid) (AList.update ''last_seen'' now (hash_at d (session_key sid))) (upd (lease_key sid) (Some (RString ''alive'')) (Ex LEASE_TTL_SECONDS) d))"
      by (simp add: refresh_lease_def run_simps view_simps)
    have ag: "agent_of d' x = agent_of d x" for x unfolding run' by (simp add: view_simps)
    have se: "sessions_of d' b = (if b = a then insert sid (sessions_of d b) else sessions_of d b)" for b unfolding run' by (auto simp: view_simps)
    have le: "lease_live d' x \<longleftrightarrow> x = sid \<or> lease_live d x" for x unfolding run' by (auto simp: view_simps)
    have "session_types d'" using inv unfolding run' by (simp add: live_listed_def session_types_def view_simps)
    then show ?thesis
      by (rule live_listed_upd[OF inv]; unfold ag se le) (use live_listedD(2,3)[OF inv] Some in \<open>auto split: if_splits\<close>)
  qed
qed

text \<open>Dropping a session without a live lease, and removing it from a set.\<close>

lemma drop_listed:
  assumes inv: "live_listed C d" and d': "d' = upd (session_key sid) None NoTtl d" and dead: "\<not> lease_live d sid"
  shows "live_listed C d'" and "live_listed (insert sid C) d'"
proof -
  have ag: "agent_of d' x = (if x = sid then None else agent_of d x)" for x unfolding d' by (simp add: view_simps)
  have se: "sessions_of d' b = sessions_of d b" for b unfolding d' by (simp add: view_simps)
  have le: "lease_live d' x = lease_live d x" for x unfolding d' by (simp add: view_simps)
  have ty: "session_types d'" using inv unfolding d' by (simp add: live_listed_def session_types_def view_simps)
  show "live_listed C d'"
    by (rule live_listed_upd[OF inv ty]; unfold ag se le) (use live_listedD(2,3)[OF inv] dead in \<open>auto split: if_splits\<close>)
  show "live_listed (insert sid C) d'"
    by (rule live_listed_upd[OF inv ty]; unfold ag se le) (use live_listedD(2,3)[OF inv] dead in \<open>auto split: if_splits\<close>)
qed

lemma unlist_listed:
  assumes inv: "live_listed C d" and d': "d' = put_set (agentSessions_key a) (removeAll sid (set_at d (agentSessions_key a))) d" and dead: "\<not> lease_live d sid"
  shows "live_listed C d'"
proof -
  have se: "sessions_of d' b = (if b = a then sessions_of d b - {sid} else sessions_of d b)" for b unfolding d' by (auto simp: view_simps)
  have ag: "agent_of d' x = agent_of d x" and le: "lease_live d' x = lease_live d x" for x unfolding d' by (simp_all add: view_simps)
  have "session_types d'" using inv unfolding d' by (simp add: live_listed_def session_types_def view_simps)
  then show ?thesis
    by (rule live_listed_upd[OF inv]; unfold ag se le) (use live_listedD(2,3)[OF inv] dead in \<open>auto split: if_splits\<close>)
qed

lemma lease_del_listed:
  assumes inv: "live_listed C d" and d': "d' = upd (lease_key sid) None NoTtl d"
  shows "live_listed C d'" and "\<not> lease_live d' sid"
proof -
  have ag: "agent_of d' x = agent_of d x" and se: "sessions_of d' b = sessions_of d b" for x b unfolding d' by (simp_all add: view_simps)
  have le: "lease_live d' x \<longleftrightarrow> x \<noteq> sid \<and> lease_live d x" for x unfolding d' by (simp add: view_simps)
  have "session_types d'" using inv unfolding d' by (simp add: live_listed_def session_types_def view_simps)
  then show "live_listed C d'"
    by (rule live_listed_upd[OF inv]; unfold ag se le) (use live_listedD(2,3)[OF inv] in \<open>auto split: if_splits\<close>)
  show "\<not> lease_live d' sid" using le by simp
qed

lemma prune_listed:
  assumes "live_listed C d" and "prune_expired (agentSessions_key a) d = (res, d')"
  shows "live_listed C d'"
proof -
  have one: "\<exists>n' d1. prune_one (agentSessions_key a) n sid d = (Inr n', d1) \<and> live_listed C d1" if inv: "live_listed C d" for n sid d
  proof (cases "lease_live d sid")
    case True
    with inv show ?thesis by (auto simp: prune_one_def run_simps)
  next
    case False
    let ?d1 = "put_set (agentSessions_key a) (removeAll sid (set_at d (agentSessions_key a))) d"
    have 1: "live_listed C ?d1" by (rule unlist_listed[OF inv refl False])
    have 2: "\<not> lease_live ?d1 sid" using False by (simp add: view_simps)
    have "holds d (agentSessions_key a) TSet" using inv by (simp add: live_listed_def session_types_def)
    then have "prune_one (agentSessions_key a) n sid d = (Inr (n + 1), upd (session_key sid) None NoTtl ?d1)"
      using False by (simp add: prune_one_def run_simps)
    with drop_listed(1)[OF 1 refl 2] show ?thesis by blast
  qed
  have loop: "foldM (prune_one (agentSessions_key a)) n sids d = (res, d') \<Longrightarrow> live_listed C d \<Longrightarrow> live_listed C d'" for n sids d
  proof (induction sids arbitrary: n d)
    case (Cons sid sids)
    from one[OF Cons.prems(2), of n sid] obtain n' d1 where "prune_one (agentSessions_key a) n sid d = (Inr n', d1)" "live_listed C d1" by blast
    with Cons.prems(1) Cons.IH show ?case by (simp add: bindM_ok)
  qed (simp add: ret_run)
  have "holds d (agentSessions_key a) TSet" using assms(1) by (simp add: live_listed_def session_types_def)
  with assms loop show ?thesis by (simp add: prune_expired_def run_simps)
qed

text \<open>
  The system of all session stores: creations under fresh ids, refreshes, prunes, and closes in their two
  steps, in any order. Other clients may let leases expire and change any other key.
\<close>

record sessions =
  sstore :: db
  closing :: "string set"

datatype session_event = Create SessionRecord | Refresh string string | Prune string | Close_record string | Close_membership string string | Elsewhere_sessions

inductive session_step :: "sessions \<Rightarrow> session_event \<Rightarrow> sessions \<Rightarrow> bool" where
  create: "s_session_id r \<notin> closing s \<Longrightarrow> session_create r (sstore s) = (res, d') \<Longrightarrow> session_step s (Create r) (s\<lparr>sstore := d'\<rparr>)"
| refresh: "refresh_lease sid LEASE_TTL_SECONDS now (sstore s) = (res, d') \<Longrightarrow> session_step s (Refresh sid now) (s\<lparr>sstore := d'\<rparr>)"
| prune: "prune_expired (agentSessions_key a) (sstore s) = (res, d') \<Longrightarrow> session_step s (Prune a) (s\<lparr>sstore := d'\<rparr>)"
| close_record: "thenM (DEL (session_key sid)) (DEL (lease_key sid)) (sstore s) = (res, d') \<Longrightarrow>
    session_step s (Close_record sid) (s\<lparr>sstore := d', closing := insert sid (closing s)\<rparr>)"
| close_membership: "sid \<in> closing s \<Longrightarrow> SREM (agentSessions_key a) sid (sstore s) = (res, d') \<Longrightarrow>
    session_step s (Close_membership a sid) (s\<lparr>sstore := d'\<rparr>)"
| elsewhere: "(\<And>sid. live d' (session_key sid) = live (sstore s) (session_key sid)) \<Longrightarrow>
    (\<And>a. live d' (agentSessions_key a) = live (sstore s) (agentSessions_key a)) \<Longrightarrow>
    (\<And>sid. live d' (lease_key sid) = live (sstore s) (lease_key sid) \<or> live d' (lease_key sid) = None) \<Longrightarrow>
    session_step s Elsewhere_sessions (s\<lparr>sstore := d'\<rparr>)"

definition session_init :: "sessions \<Rightarrow> bool" where
  "session_init s \<longleftrightarrow> sstore s = empty_db \<and> closing s = {}"

lemma close_record_listed:
  assumes inv: "live_listed C d" and run: "thenM (DEL (session_key sid)) (DEL (lease_key sid)) d = (res, d')"
  shows "live_listed (insert sid C) d'"
proof -
  let ?d1 = "upd (lease_key sid) None NoTtl d"
  have d': "d' = upd (lease_key sid) None NoTtl (upd (session_key sid) None NoTtl d)" using run by (simp add: run_simps)
  have same: "live d' = live (upd (session_key sid) None NoTtl ?d1)" unfolding d' by (rule ext) (simp add: view_simps)
  note l = lease_del_listed[OF inv refl, of sid]
  have "live_listed (insert sid C) (upd (session_key sid) None NoTtl ?d1)" by (rule drop_listed(2)[OF l(1) refl l(2)])
  then show ?thesis unfolding live_listed_def session_types_def holds_def same .
qed

lemma session_step_listed:
  assumes inv: "live_listed (closing s) (sstore s)" and step: "session_step s e t"
  shows "live_listed (closing t) (sstore t)"
  using step
proof cases
  case (create r res d')
  with create_listed[OF inv] show ?thesis by simp
next
  case (refresh sid now res d')
  with refresh_listed[OF inv] show ?thesis by simp
next
  case (prune a res d')
  with prune_listed[OF inv] show ?thesis by simp
next
  case (close_record sid res d')
  with close_record_listed[OF inv] show ?thesis by simp
next
  case (close_membership sid a res d')
  have "\<not> lease_live (sstore s) sid" using live_listedD(3)[OF inv, of sid] close_membership by blast
  moreover have "d' = put_set (agentSessions_key a) (removeAll sid (set_at (sstore s) (agentSessions_key a))) (sstore s)"
    using close_membership live_listedD(1)[OF inv] by (simp add: session_types_def run_simps)
  ultimately show ?thesis using unlist_listed[OF inv] close_membership by simp
next
  case (elsewhere d')
  have le: "lease_live d' x \<Longrightarrow> lease_live (sstore s) x" for x using elsewhere(5)[of x] by auto
  have "session_types d'" using live_listedD(1)[OF inv] elsewhere(3,4) by (simp add: session_types_def holds_def)
  then have "live_listed (closing s) d'"
  proof (rule live_listed_upd[OF inv])
    show "agent_of d' x = None" if "x \<in> closing s" for x using that live_listedD(2)[OF inv] elsewhere(3) by simp
    show "x \<notin> closing s" if "lease_live d' x" for x using le[OF that] live_listedD(3)[OF inv] by blast
  qed (use le elsewhere(3,4) in simp)
  with elsewhere show ?thesis by simp
qed

interpretation sessions: invariant_system session_init session_step "\<lambda>s. live_listed (closing s) (sstore s)"
proof unfold_locales
  show "live_listed (closing s) (sstore s)" if "session_init s" for s
    using that by (auto simp: session_init_def intro!: live_listedI simp: session_types_def)
qed (rule session_step_listed)

text \<open>
  No live session is lost from view. In every state that creations, refreshes, prunes, closes and
  expiries reach in any order, a session whose lease is live has its record and is listed under the agent
  its record names, so presence and pruning see it; and a session that is being closed is never revived.
\<close>

lemma live_session_listed:
  assumes "reach session_init session_step s" and "lease_live (sstore s) sid"
  shows "\<exists>a. agent_of (sstore s) sid = Some a \<and> sid \<in> sessions_of (sstore s) a \<and> sid \<notin> closing s"
  using sessions.reach_inv[OF assms(1)] assms(2) live_listedD(3,4) by metis

end
