(* ===== verification/Client_Props.thy ===== *)
theory Client_Props
  imports Redis_Client World_Steps Task_System Session_Props
begin

text \<open>
  What the client guarantees over the stores it composes: a rename moves the identity and the mailbox
  together and loses no task at any step but what a full list of dead letters drops, and exactly what
  unregistering a name removes.
\<close>

section \<open>Which keys a command touches\<close>

interpretation framing: world_relation "frame K" for K
  by unfold_locales (auto intro: frame_trans)

abbreviation touches :: "string set \<Rightarrow> (db, 'a) comp \<Rightarrow> bool" where
  "touches K \<equiv> relates (frame K)"

lemma touches_on_type: "touches K c \<Longrightarrow> touches K (on_type t k c)"
  by (auto simp: relates_def on_type_def)

lemma touches_write:
  "k \<in> K \<Longrightarrow> touches K (modifyM (\<lambda>d. put_list k (f d) d))" "k \<in> K \<Longrightarrow> touches K (modifyM (\<lambda>d. put_hash k (g d) d))"
  "k \<in> K \<Longrightarrow> touches K (modifyM (\<lambda>d. put_set k (f d) d))" "k \<in> K \<Longrightarrow> touches K (modifyM (\<lambda>d. put_zset k (z d) d))"
  "k \<in> K \<Longrightarrow> mode_ok md \<Longrightarrow> touches K (modifyM (\<lambda>d. upd k (v d) md d))"
  by (auto simp: relates_def frame_def run_simps view_simps)

lemma touches_read:
  "touches K (EXISTS k)" "touches K (GET k)" "touches K (HGET k f)" "touches K (HGETALL k)" "touches K (SMEMBERS k)" "touches K (SCARD k)"
  "touches K (SISMEMBER k x)" "touches K (LLEN k)" "touches K (ZCARD k)" "touches K (LRANGE_all k)" "touches K (ZRANGE_all k)" "touches K (TYPE_is k t)"
  by (simp_all add: command_defs touches_on_type framing.relates_pure)

lemma touches_commands:
  "k \<in> K \<Longrightarrow> touches K (DEL k)" "k \<in> K \<Longrightarrow> mode_ok md \<Longrightarrow> touches K (SET k v md)" "k \<in> K \<Longrightarrow> touches K (HSET k f v)"
  "k \<in> K \<Longrightarrow> touches K (HDEL k f)" "k \<in> K \<Longrightarrow> touches K (SADD k x)" "k \<in> K \<Longrightarrow> touches K (SREM k x)"
  "k \<in> K \<Longrightarrow> touches K (HSET_fields k fs)" "k \<in> K \<Longrightarrow> touches K (XADD k fs)"
  by (simp_all add: command_defs HSET_fields_def touches_on_type touches_write touches_write(5)[of _ _ _ "\<lambda>_. v" for v])

lemma touches_MULTI: "(\<And>c. c \<in> set cs \<Longrightarrow> touches K c) \<Longrightarrow> touches K (MULTI cs)"
  by (induction cs) (auto intro!: framing.relates_intros)

lemma touches_foldM: "(\<And>b x. touches K (f b x)) \<Longrightarrow> touches K (foldM f b xs)"
  by (induction xs arbitrary: b) (auto intro!: framing.relates_intros)

lemma touches_each_step: "touches K c \<Longrightarrow> (\<And>d d'. frame K d d' \<Longrightarrow> P d d') \<Longrightarrow> each_step P (atomic c)"
  by (rule each_step_atomic) (auto dest: relatesD)

lemmas touches_intros = framing.relates_intros touches_read touches_commands touches_MULTI touches_foldM

section \<open>No step of a rename loses a task\<close>

text \<open>
  The tasks of an agent that are still to be done: those that wait and those that are claimed. The dead letters of two
  names, newest first, when the tasks \<open>q\<close> of the first are given up: they go in front, or the whole queue of
  the first name goes in front of the second's; only what lies beyond the bound of a queue is dropped.
\<close>

definition live_tasks :: "runtime \<Rightarrow> db \<Rightarrow> string \<Rightarrow> string multiset" where
  "live_tasks E d a = mset (list_at d (queue_key a)) + claimed E d a"

definition dead_letters_kept :: "string list \<Rightarrow> string \<Rightarrow> string \<Rightarrow> db \<Rightarrow> db \<Rightarrow> bool" where
  "dead_letters_kept q a b d d' \<longleftrightarrow>
     list_at d' (dlq_key a) = (if q = [] then list_at d (dlq_key a) else take DLQ_MAX_LENGTH (rev q @ list_at d (dlq_key a)))
       \<and> list_at d' (dlq_key b) = list_at d (dlq_key b)
     \<or> q = [] \<and> list_at d' (dlq_key a) = [] \<and> list_at d' (dlq_key b) = take DLQ_MAX_LENGTH (list_at d (dlq_key a) @ list_at d (dlq_key b))"

text \<open>
  From one database to the next the tasks of \<open>a\<close> and \<open>b\<close> together stay to be done, except for claimed tasks of \<open>a\<close>
  that become dead letters; no other agent's tasks change. A recovery handles fewer than \<open>2 ^ 61\<close> tasks.
\<close>

definition keeps_tasks :: "runtime \<Rightarrow> string \<Rightarrow> string \<Rightarrow> db \<Rightarrow> db \<Rightarrow> bool" where
  "keeps_tasks E a b d d' \<longleftrightarrow>
     (claims_ok E d \<and> (\<forall>now. length (expired_items E d (expired_ids d a now)) < 2 ^ 61) \<longrightarrow>
      claims_ok E d' \<and> (\<forall>c. c \<noteq> a \<and> c \<noteq> b \<longrightarrow> held E d' c = held E d c)
      \<and> (\<exists>q. mset q \<subseteq># claimed E d a \<and> live_tasks E d a + live_tasks E d b = live_tasks E d' a + live_tasks E d' b + mset q
            \<and> dead_letters_kept q a b d d'))"

lemma keeps_nothing_dead: "live_tasks E d' a + live_tasks E d' b = live_tasks E d a + live_tasks E d b \<Longrightarrow> dead_letters_kept [] a b d d' \<Longrightarrow>
    \<exists>q. mset q \<subseteq># claimed E d a \<and> live_tasks E d a + live_tasks E d b = live_tasks E d' a + live_tasks E d' b + mset q \<and> dead_letters_kept q a b d d'"
  by (intro exI[of _ "[]"]) simp

text \<open>The identity of the client.\<close>

definition same_identity :: "'z client_world_scheme \<Rightarrow> 'z client_world_scheme \<Rightarrow> bool" where
  "same_identity w w' \<longleftrightarrow> agentName w' = agentName w \<and> sessionId w' = sessionId w"

interpretation identity: world_relation same_identity
  by unfold_locales (auto simp: same_identity_def)

lemma identity_atomic: "relates same_identity (atomic c)"
  by (auto simp: relates_def atomic_def after_step_def same_identity_def split: prod.splits)

lemma identity_modifyM: "(\<And>w. agentName (f w) = agentName w \<and> sessionId (f w) = sessionId w) \<Longrightarrow> relates same_identity (modifyM f)"
  by (rule identity.relates_modifyM) (simp add: same_identity_def)

lemma idle_keys [simp]:
  "session_key x \<notin> task_keys" "lease_key x \<notin> task_keys" "agentSessions_key x \<notin> task_keys" "registry_key \<notin> task_keys"
  "registryPending_key \<notin> task_keys" "registryRestore_key \<notin> task_keys" "heartbeat_key x \<notin> task_keys" "mailboxMeta_key x \<notin> task_keys"
  "continuityAudit_key \<notin> task_keys"
  by (auto simp: task_keys_def key_simps)

text \<open>A step off the task keys.\<close>

abbreviation idle :: "(db, 'a) comp \<Rightarrow> bool" where
  "idle \<equiv> touches (- task_keys)"

context js_runtime
begin

lemma keeps_tasks_idle: "frame (- task_keys) d d' \<Longrightarrow> keeps_tasks E a b d d'"
proof -
  assume f: "frame (- task_keys) d d'"
  then have c: "claimed E d' x = claimed E d x" for x by (rule claimed_frame) (auto simp: task_keys_def)
  have l: "list_at d' (queue_key x) = list_at d (queue_key x)" "list_at d' (dlq_key x) = list_at d (dlq_key x)" for x
    using frameD[OF f, of "queue_key x"] frameD[OF f, of "dlq_key x"] by (auto simp: task_keys_def)
  show ?thesis
    using held_frame[OF f] claims_ok_frame[OF _ f] c l unfolding keeps_tasks_def
    by (auto intro!: keeps_nothing_dead simp: live_tasks_def dead_letters_kept_def)
qed

lemma keeps_tasks_atomic: "idle c \<Longrightarrow> each_step (keeps_tasks E a b) (atomic c)"
  by (erule touches_each_step) (rule keeps_tasks_idle)

lemma keeps_tasks_recover:
  assumes "claims_recover E a now RECOVER_CAP DLQ_MAX_LENGTH RECOVER_COUNTER_TTL_SECONDS d = (res, d')" and "a \<noteq> b"
  shows "keeps_tasks E a b d d'"
  unfolding keeps_tasks_def
proof (intro impI, elim conjE)
  assume ok: "claims_ok E d" and small: "\<forall>now. length (expired_items E d (expired_ids d a now)) < 2 ^ 61"
  obtain r q where split: "recovery_split E d a now RECOVER_CAP = (r, q)" by fastforce
  have pos: "0 < RECOVER_COUNTER_TTL_SECONDS" "0 < DLQ_MAX_LENGTH" by (simp_all add: RECOVER_COUNTER_TTL_SECONDS_def DLQ_MAX_LENGTH_def)
  note eff = recover_effect[OF ok pos small[rule_format] assms(1) split]
  have lists: "list_at d' (queue_key b) = list_at d (queue_key b)" "list_at d' (dlq_key b) = list_at d (dlq_key b)"
    using frameD[OF eff(3), of "queue_key b"] frameD[OF eff(3), of "dlq_key b"] assms(2) by simp_all
  with eff(2)[of b] assms(2) have other: "claimed E d' b = claimed E d b" "list_at d' (queue_key b) = list_at d (queue_key b)"
      "list_at d' (dlq_key b) = list_at d (dlq_key b)" by (simp_all add: held_def)
  have "\<exists>q. mset q \<subseteq># claimed E d a \<and> live_tasks E d a + live_tasks E d b = live_tasks E d' a + live_tasks E d' b + mset q \<and> dead_letters_kept q a b d d'"
  proof (cases "recoverable E d a now")
    case True
    with eff(4) have dl: "delivered DLQ_MAX_LENGTH a r q d d'" and h: "held E d a = held E d' a + overflow DLQ_MAX_LENGTH q (list_at d (dlq_key a))"
      by auto
    let ?Q = "mset (list_at d (queue_key a)) + mset (list_at d (dlq_key a))"
    have "?Q + claimed E d a = (mset (list_at d' (queue_key a)) + mset (list_at d' (dlq_key a)) + overflow DLQ_MAX_LENGTH q (list_at d (dlq_key a))) + claimed E d' a"
      using h by (simp add: held_def ac_simps)
    also have "\<dots> = ?Q + (claimed E d' a + mset r + mset q)" unfolding delivered_held[OF dl] by (simp add: ac_simps)
    finally have c: "claimed E d a = claimed E d' a + mset r + mset q" by (simp only: add_left_cancel)
    then have "live_tasks E d a + live_tasks E d b = live_tasks E d' a + live_tasks E d' b + mset q"
      using dl other by (simp add: live_tasks_def delivered_def ac_simps)
    moreover have "dead_letters_kept q a b d d'" using dl other(3) by (simp add: dead_letters_kept_def delivered_def)
    ultimately show ?thesis using c by (intro exI[of _ q]) simp
  qed (use eff(4) in \<open>auto intro!: keeps_nothing_dead simp: dead_letters_kept_def\<close>)
  then show "claims_ok E d' \<and> (\<forall>c. c \<noteq> a \<and> c \<noteq> b \<longrightarrow> held E d' c = held E d c)
      \<and> (\<exists>q. mset q \<subseteq># claimed E d a \<and> live_tasks E d a + live_tasks E d b = live_tasks E d' a + live_tasks E d' b + mset q \<and> dead_letters_kept q a b d d')"
    using eff(1) eff(2) by auto
qed

lemma keeps_tasks_migrate:
  assumes "migrate_messages (queue_key a) (queue_key b) (Some (claimsIndex_key a)) (Some (dlq_key a, dlq_key b, DLQ_MAX_LENGTH)) d = (r, d')"
    and "a \<noteq> b"
  shows "keeps_tasks E a b d d'"
proof (cases "migrate_guard a b d")
  case False
  with migrate_refused[OF assms(2)] assms(1) have "d' = d" by fastforce
  then show ?thesis using keeps_tasks_idle[of d d] by simp
next
  case True
  with migrate_run[OF assms(2)] assms(1) have d': "d' = moved_dlq a b (moved_inbox a b d)" by simp
  let ?K = "{queue_key a, queue_key b, dlq_key a, dlq_key b}"
  have f: "frame ?K d d'" by (auto simp: d' moved_dlq_def moved_inbox_def frame_def view_simps)
  have c: "claimed E d' x = claimed E d x" for x by (rule claimed_frame[OF f]) auto
  have "live_tasks E d' a + live_tasks E d' b = live_tasks E d a + live_tasks E d b"
    using assms(2) unfolding live_tasks_def c by (auto simp: d' moved_dlq_def moved_inbox_def view_simps)
  moreover have "dead_letters_kept [] a b d d'"
    using assms(2) by (auto simp: dead_letters_kept_def d' moved_dlq_def moved_inbox_def view_simps)
  moreover have "held E d' x = held E d x" if "x \<noteq> a" "x \<noteq> b" for x by (rule held_frame[OF f]) (use that in auto)
  moreover have "claims_ok E d \<Longrightarrow> claims_ok E d'" by (erule claims_ok_frame[OF _ f]) auto
  ultimately show ?thesis unfolding keeps_tasks_def by (auto intro!: keeps_nothing_dead)
qed

end

lemma idle_scripts:
  "idle (prune_expired (agentSessions_key x))" "idle (session_create rec)" "idle (session_drop x sid)"
  "idle (write_provisional_registry x v)" "idle (undo_registry_write x v)" "idle (publish_registration x v)"
  "0 < t \<Longrightarrow> idle (refresh_lease sid t now)"
  by (auto simp: prune_expired_def prune_one_def session_create_def session_drop_def write_provisional_registry_def undo_registry_write_def
      publish_registration_def refresh_lease_def LEASE_TTL_SECONDS_def Let_def intro!: touches_intros split: option.splits)

lemma times_positive [simp]: "0 < LEASE_TTL_SECONDS" "0 < HEARTBEAT_TTL"
  by (simp_all add: LEASE_TTL_SECONDS_def HEARTBEAT_TTL_def)

lemmas store_methods = createSession_def pruneExpiredSessions_def closeSession_def stopLeaseRefresh_def startLeaseRefresh_def
  refreshLease_def undoRegistryWrite_def publishRegistration_def startHeartbeat_def stopHeartbeat_def beat_def requireRegistered_def
  ensureMailbox_def retire_name_def rollback_rename_def

lemmas identity_intros = identity.relates_intros identity_atomic identity_modifyM

lemma identity_methods:
  "relates same_identity (createSession E uuid now name role desc transport :: ('z client_world_scheme, _) comp)"
  "relates same_identity (rollback_rename session name e :: ('z client_world_scheme, _) comp)"
  "relates same_identity (retire_name sid old :: ('z client_world_scheme, _) comp)"
  "relates same_identity (ensureMailbox bound now name :: ('z client_world_scheme, _) comp)"
  "relates same_identity (startLeaseRefresh now sid :: ('z client_world_scheme, _) comp)"
  "relates same_identity (startHeartbeat :: ('z client_world_scheme, _) comp)"
  "relates same_identity (publishRegistration name v :: ('z client_world_scheme, _) comp)"
  by (auto simp: store_methods Let_def intro!: identity_intros split: option.splits list.splits)

lemma identity_transfer: "relates same_identity (transfer_mailbox E now old name :: ('z client_world_scheme, _) comp)"
  by (auto simp: transfer_mailbox_def recoverExpired_def migrateMessages_def Let_def intro!: identity_intros split: option.splits sum.splits list.splits)

context js_runtime
begin

lemmas keeps_intros' = stepping.relates_intros keeps_tasks_atomic each_step_modifyM idle_scripts

lemma keeps_tasks_methods:
  "each_step (keeps_tasks E a b) (createSession E uuid now name role desc transport :: ('z client_world_scheme, _) comp)"
  "each_step (keeps_tasks E a b) (rollback_rename session name e :: ('z client_world_scheme, _) comp)"
  "each_step (keeps_tasks E a b) (retire_name sid old :: ('z client_world_scheme, _) comp)"
  "each_step (keeps_tasks E a b) (complete_registration E dr role name desc md session :: ('z client_world_scheme, _) comp)"
  "each_step (keeps_tasks E a b) (startHeartbeat :: ('z client_world_scheme, _) comp)"
  "each_step (keeps_tasks E a b) (stopHeartbeat :: ('z client_world_scheme, _) comp)"
  by (auto simp: store_methods complete_registration_def Let_def intro!: keeps_intros' touches_intros split: option.splits list.splits)

lemma keeps_tasks_transfer:
  assumes "a \<noteq> b"
  shows "each_step (keeps_tasks E a b) (transfer_mailbox E now a b :: ('z client_world_scheme, _) comp)"
proof -
  have r: "each_step (keeps_tasks E a b) (atomic (claims_recover E a n RECOVER_CAP DLQ_MAX_LENGTH RECOVER_COUNTER_TTL_SECONDS) :: ('z client_world_scheme, _) comp)" for n
    by (rule each_step_atomic) (rule keeps_tasks_recover[OF _ assms])
  have m: "each_step (keeps_tasks E a b) (atomic (migrate_messages (queue_key a) (queue_key b) (Some (claimsIndex_key a)) (Some (dlq_key a, dlq_key b, DLQ_MAX_LENGTH))) :: ('z client_world_scheme, _) comp)"
    by (rule each_step_atomic) (rule keeps_tasks_migrate[OF _ assms])
  have "claimsIndex_key a \<noteq> []" by (simp add: key_simps)
  then obtain c cs where k: "claimsIndex_key a = c # cs" by (meson neq_Nil_conv)
  show ?thesis
    unfolding transfer_mailbox_def recoverExpired_def migrateMessages_def
    using m by (auto simp: k intro!: stepping.relates_intros r split: option.splits sum.splits)
qed

end

definition mailbox_moved :: "string \<Rightarrow> string \<Rightarrow> db \<Rightarrow> db \<Rightarrow> bool" where
  "mailbox_moved a b d d' \<longleftrightarrow> zset_at d (claimsIndex_key a) = [] \<and> list_at d' (queue_key a) = [] \<and> list_at d' (dlq_key a) = []
     \<and> list_at d' (queue_key b) = list_at d (queue_key b) @ list_at d (queue_key a)"

lemma migrate_moves:
  assumes "a \<noteq> b" and "migrateMessages a b (Some (claimsIndex_key a)) (Some DLQ_MAX_LENGTH) w = (Inr n, w')"
  shows "\<exists>d d'. history w' = (d, d') # history w \<and> mailbox_moved a b d d'"
proof -
  have "claimsIndex_key a \<noteq> []" by (simp add: key_simps)
  then obtain c cs where k: "claimsIndex_key a = c # cs" by (meson neq_Nil_conv)
  from assms(2) obtain i d' where run: "migrate_messages (queue_key a) (queue_key b) (Some (claimsIndex_key a)) (Some (dlq_key a, dlq_key b, DLQ_MAX_LENGTH)) (next_db w) = (Inr i, d')"
    and i: "i \<noteq> - 1" and w': "w' = after_step w d'"
    unfolding migrateMessages_def k by (auto elim!: bindM_Inr_E atomic_E simp: run_simps split: if_splits)
  have g: "migrate_guard a b (next_db w)" using migrate_refused[OF assms(1), of "next_db w"] run i by force
  with migrate_run[OF assms(1)] run have d': "d' = moved_dlq a b (moved_inbox a b (next_db w))" by simp
  have "mailbox_moved a b (next_db w) d'"
    using g assms(1) by (auto simp: mailbox_moved_def migrate_guard_def d' moved_dlq_def moved_inbox_def view_simps)
  with w' show ?thesis by auto
qed

text \<open>A registration under another name, once the client's identity has been read.\<close>

definition rename_body ::
  "runtime \<Rightarrow> draws \<Rightarrow> string \<Rightarrow> string \<Rightarrow> string option \<Rightarrow> AgentDiscoveryMetadata option \<Rightarrow> string \<Rightarrow> string \<Rightarrow> ('z client_world_scheme, string \<times> string) comp" where
  "rename_body E dr role name desc md s old =
     thenM stopHeartbeat
    (bindM (catchM (createSession E (dr_session_id dr) (dr_created dr) name role desc None) (\<lambda>e. thenM startHeartbeat (throw e))) (\<lambda>session.
     thenM (rename_to E dr s old name session) (complete_registration E dr role name desc md session)))"

lemma register_renames:
  "agentName w = Some old \<Longrightarrow> sessionId w = Some s \<Longrightarrow> name \<noteq> old \<Longrightarrow>
    register_client E dr role name desc md w = rename_body E dr role name desc md s old w"
  by (simp add: register_client_def rename_body_def bindM_ok getM_run Let_def)

lemma rollback_throws: "rollback_rename session name e w = (r, w') \<Longrightarrow> \<exists>e'. r = Inl e'"
  by (auto simp: rollback_rename_def bindM_def thenM_def throw_def split: prod.splits sum.splits)

lemma created_id:
  assumes "createSession E uuid now name role desc tr w = (Inr session, w')"
  shows "s_session_id session = uuid"
proof -
  have "\<forall>w. (case createSession E uuid now name role desc tr w of (Inr x, _) \<Rightarrow> s_session_id x = uuid | _ \<Rightarrow> True)"
    by (auto simp: createSession_def bindM_def thenM_def ret_def created_of_def new_session_def Let_def split: prod.splits sum.splits)
  then show ?thesis using assms by (metis (mono_tags, lifting) case_prod_conv sum.case(2))
qed

lemma complete_identity:
  assumes "complete_registration E dr role name desc md session w = (r, w')"
  shows "agentName w' = Some name" and "sessionId w' = Some (s_session_id session)"
proof -
  let ?rest = "thenM (publishRegistration name (JSON_stringify E (registration_json name role desc (dr_registered dr) (dr_pid dr) md)))
    (thenM (ensureMailbox (queueBound w) (dr_mailbox dr) name) (thenM (startLeaseRefresh (dr_refresh dr) (s_session_id session))
    (thenM startHeartbeat (ret (name, s_session_id session)))))"
  let ?w = "w\<lparr>agentName := Some name, sessionId := Some (s_session_id session)\<rparr>"
  have "?rest ?w = (r, w')" using assms by (simp add: complete_registration_def bindM_ok thenM_ok getM_run modifyM_run)
  moreover have "relates same_identity ?rest" by (intro identity.relates_intros identity_methods)
  ultimately have "same_identity ?w w'" by (rule relatesD[rotated])
  then show "agentName w' = Some name" and "sessionId w' = Some (s_session_id session)" by (simp_all add: same_identity_def)
qed

lemma stepping_history: "stepping P w w' \<Longrightarrow> \<exists>h. history w' = h @ history w"
  by (auto simp: stepping_def)

lemma transfer_moves:
  assumes "a \<noteq> b" and "transfer_mailbox E now a b w = (Inr u, w')"
  shows "\<exists>h. history w' = h @ history w \<and> (\<exists>(d, d') \<in> set h. mailbox_moved a b d d')"
proof -
  from assms(2) obtain rec w1 where rec: "recoverExpired E a now w = (rec, w1)" by fastforce
  have "relates (stepping (\<lambda>_ _. True)) (recoverExpired E a now :: ('b world_scheme, _) comp)"
    unfolding recoverExpired_def by (auto intro!: stepping.relates_intros each_step_atomic split: option.splits)
  from stepping_history[OF relatesD[OF this rec]] obtain h where h: "history w1 = h @ history w" by blast
  from assms(2) rec obtain n w2 where "migrateMessages a b (Some (claimsIndex_key a)) (Some DLQ_MAX_LENGTH) w1 = (Inr n, w2)" and "w' = w2"
    by (auto simp: transfer_mailbox_def bindM_def thenM_def ret_def throw_def split: sum.splits prod.splits)
  with migrate_moves[OF assms(1)] h show ?thesis by fastforce
qed

lemma rename_to_cases:
  assumes "a \<noteq> b" and "rename_to E dr s a b session w = (r, w')"
  shows "same_identity w w' \<and> (r = Inr () \<longrightarrow> (\<exists>h. history w' = h @ history w \<and> (\<exists>(d, d') \<in> set h. mailbox_moved a b d d')))"
proof -
  have id: "relates same_identity (rename_to E dr s a b session :: ('b client_world_scheme, _) comp)"
    unfolding rename_to_def by (intro identity.relates_intros identity_transfer identity_methods)
  have "\<exists>h. history w' = h @ history w \<and> (\<exists>(d, d') \<in> set h. mailbox_moved a b d d')" if "r = Inr ()"
  proof -
    obtain x w1 where tr: "transfer_mailbox E (dr_recover dr) a b w = (x, w1)" by fastforce
    have "x = Inr ()"
    proof (cases x)
      case (Inl e)
      obtain y w2 where rb: "rollback_rename session b e w1 = (y, w2)" by fastforce
      with rollback_throws[OF rb] Inl tr assms(2) that show ?thesis by (auto simp: rename_to_def thenM_def bindM_def catchM_def)
    qed simp
    from transfer_moves[OF assms(1)] tr this obtain h where h: "history w1 = h @ history w" "\<exists>(d, d') \<in> set h. mailbox_moved a b d d'" by blast
    have "retire_name s a w1 = (r, w')" using assms(2) tr \<open>x = Inr ()\<close> by (simp add: rename_to_def thenM_def bindM_def catchM_def)
    moreover have "relates (stepping (\<lambda>_ _. True)) (retire_name s a :: ('b client_world_scheme, _) comp)"
      by (auto simp: store_methods intro!: stepping.relates_intros each_step_atomic each_step_modifyM split: option.splits list.splits)
    ultimately obtain g where "history w' = g @ history w1" using stepping_history relatesD by metis
    with h show ?thesis by (intro exI[of _ "g @ h"]) auto
  qed
  with relatesD[OF id assms(2)] show ?thesis by blast
qed

lemma bindM_assoc: "thenM m (bindM k f) = bindM (thenM m k) f"
  by (rule ext) (simp add: thenM_def bindM_def split: prod.splits sum.splits)

lemma rename_outcome:
  assumes "old \<noteq> name" and "rename_body E dr role name desc md s old w = (r, w')"
  shows "same_identity w w' \<and> (\<exists>e. r = Inl e) \<or> agentName w' = Some name \<and> sessionId w' = Some (dr_session_id dr)
    \<and> (\<exists>h. history w' = h @ history w \<and> (\<exists>(d, d') \<in> set h. mailbox_moved old name d d'))"
proof -
  let ?steps = "stepping (\<lambda>_ _. True)"
  let ?create = "thenM stopHeartbeat (catchM (createSession E (dr_session_id dr) (dr_created dr) name role desc None) (\<lambda>e. thenM startHeartbeat (throw e)))"
  have id: "relates same_identity ?create" unfolding stopHeartbeat_def
    by (intro identity.relates_intros identity_methods identity_modifyM) simp
  from assms(2) show ?thesis unfolding rename_body_def bindM_assoc
  proof (cases rule: bindM_cases)
    case (err e)
    with relatesD[OF id err(1)] show ?thesis by blast
  next
    case (ok session w1)
    have i1: "same_identity w w1" by (rule relatesD[OF id ok(1)])
    have "relates ?steps ?create"
      by (auto simp: store_methods Let_def intro!: stepping.relates_intros each_step_atomic each_step_modifyM split: option.splits list.splits)
    from stepping_history[OF relatesD[OF this ok(1)]] obtain h1 where h1: "history w1 = h1 @ history w" by blast
    have sid: "s_session_id session = dr_session_id dr"
      using ok(1) by (auto elim!: thenM_Inr_E catchM_cases simp: throw_run dest: created_id)
    from ok(2) show ?thesis
    proof (cases rule: thenM_cases)
      case (err e)
      with rename_to_cases[OF assms(1) err(1)] i1 identity.chain show ?thesis by blast
    next
      case (ok u w2)
      have "relates ?steps (complete_registration E dr role name desc md session :: ('b client_world_scheme, _) comp)"
        by (auto simp: store_methods complete_registration_def Let_def intro!: stepping.relates_intros each_step_atomic each_step_modifyM split: option.splits list.splits)
      from stepping_history[OF relatesD[OF this ok(2)]] obtain h3 where h3: "history w' = h3 @ history w2" by blast
      from rename_to_cases[OF assms(1) ok(1)] obtain h2 where h2: "history w2 = h2 @ history w1" "\<exists>(d, d') \<in> set h2. mailbox_moved old name d d'" by auto
      have "\<exists>h. history w' = h @ history w \<and> (\<exists>(d, d') \<in> set h. mailbox_moved old name d d')"
        by (intro exI[of _ "h3 @ h2 @ h1"]) (use h1 h2 h3 in auto)
      with complete_identity[OF ok(2)] sid show ?thesis by simp
    qed
  qed
qed

text \<open>
  (C3) A rename moves the identity and the mailbox together. Whatever other clients do in between, no atomic step of
  a registration under a new name loses or adds a task of the two names that waits or is claimed, but for claimed
  tasks of the old name that a recovery gives up: those enter its dead letters at the front. The dead letters
  of the two names are kept in their order, or moved in front of those of the new name, and only what then lies
  beyond the bound of the queue, its oldest entries, is dropped. No other agent's tasks change. This holds of a step from
  a database with consistent claims, and fewer than \<open>2 ^ 61\<close> expired tasks. Either the registration fails and the client keeps its old name and session, or it ends under the
  new name and session, and then one step has moved the whole mailbox, at a moment when no claim was
  outstanding under the old name.
\<close>

theorem rename_moves_mailbox:
  assumes "js_runtime E" and "agentName w = Some old" and "sessionId w = Some s" and "name \<noteq> old"
    and "register_client E dr role name desc md w = (r, w')"
  shows "\<exists>h. history w' = h @ history w \<and> (\<forall>(d, d') \<in> set h. keeps_tasks E old name d d') \<and>
    ((\<exists>e. r = Inl e) \<and> agentName w' = Some old \<and> sessionId w' = Some s
     \<or> agentName w' = Some name \<and> sessionId w' = Some (dr_session_id dr) \<and> (\<exists>(d, d') \<in> set h. mailbox_moved old name d d'))"
proof -
  from assms have run: "rename_body E dr role name desc md s old w = (r, w')" by (simp add: register_renames)
  have "each_step (keeps_tasks E old name) (rename_body E dr role name desc md s old :: ('a client_world_scheme, _) comp)"
    unfolding rename_body_def rename_to_def
    using assms(4) js_runtime.keeps_tasks_methods[OF assms(1)] js_runtime.keeps_tasks_transfer[OF assms(1), of old name]
    by (intro stepping.relates_intros) auto
  from relatesD[OF this run] obtain h where h: "history w' = h @ history w" "\<forall>(d, d') \<in> set h. keeps_tasks E old name d d'"
    unfolding stepping_def by blast
  from rename_outcome[OF _ run] assms(4) have "same_identity w w' \<and> (\<exists>e. r = Inl e) \<or> agentName w' = Some name \<and> sessionId w' = Some (dr_session_id dr)
    \<and> (\<exists>(d, d') \<in> set h. mailbox_moved old name d d')" using h(1) by auto
  with assms(2,3) h show ?thesis by (auto simp: same_identity_def)
qed

definition demo_client :: client_world where
  "demo_client = \<lparr>redis = empty_db, interfere = (\<lambda>_ d. d), history = [], receivesClosed = False, refreshSessionId = None,
     agentName = Some ''old'', sessionId = Some ''s0'', heartbeatFor = None, connectionsForcedClosed = False, connectionsOpen = True, queueBound = 10\<rparr>"

definition demo_draws :: draws where
  "demo_draws = \<lparr>dr_session_id = ''s1'', dr_pid = 7, dr_created = iso_from_ms 1000, dr_recover = iso_from_ms 1000, dr_registered = iso_from_ms 1000,
     dr_mailbox = iso_from_ms 1000, dr_refresh = iso_from_ms 1000\<rparr>"

section \<open>A rename that succeeds\<close>

lemma MULTI_returns: "\<exists>d'. MULTI cs d = (Inr (), d')"
proof (induction cs arbitrary: d)
  case (Cons c cs)
  obtain r d1 where "catchM c (\<lambda>_. ret ()) d = (r, d1)" by fastforce
  moreover have "r = Inr ()" using calculation by (auto simp: catchM_def ret_def split: sum.splits prod.splits)
  ultimately show ?case using Cons[of d1] by (simp add: thenM_ok)
qed (simp add: ret_run)

text \<open>A name whose sessions, registry and mailbox keys have the types the program gives them, with no session recorded and no claim outstanding.\<close>

definition free_to_rename :: "string \<Rightarrow> string \<Rightarrow> db \<Rightarrow> bool" where
  "free_to_rename old name d \<longleftrightarrow> registry_types d \<and> live d (agentSessions_key name) = None \<and> migrate_guard old name d"

lemma createSession_runs:
  assumes "registry_types d" and "live d (agentSessions_key name) = None"
  shows "\<exists>c d'. runs (createSession E uuid now name role desc tr :: ('z world_scheme, _) comp) d c d' \<and> frame (- task_keys) d d'"
proof -
  let ?rec = "new_session uuid now name role desc tr"
  let ?v = "JSON_stringify E (provisional_json name role desc now)"
  have prune: "prune_expired (agentSessions_key name) d = (Inr 0, d)"
    using assms(2) by (simp add: prune_expired_def SMEMBERS_def on_type_def holds_def getM_run bindM_ok ret_run)
  obtain d1 where create: "session_create ?rec d = (Inr (), d1)" using MULTI_returns unfolding session_create_def by blast
  have "touches (- {registry_key, registryPending_key, registryRestore_key}) (session_create ?rec)"
    unfolding session_create_def by (intro touches_MULTI) (auto intro!: touches_intros simp: key_simps LEASE_TTL_SECONDS_def)
  from relatesD[OF this create] assms(1) have "registry_types d1" by (simp add: registry_types_def frame_holds)
  from write_provisional_run[OF this, of name ?v] obtain d2 where prov: "write_provisional_registry name ?v d1 = (Inr (), d2)" by blast
  have "frame (- task_keys) d d2"
    using relatesD[OF idle_scripts(2) create] relatesD[OF idle_scripts(4) prov] by (rule frame_trans)
  moreover have "runs (createSession E uuid now name role desc tr :: ('z world_scheme, _) comp) d (created_of ?rec ?v) d2"
    unfolding createSession_def pruneExpiredSessions_def Let_def
    by (rule runs_thenM, rule runs_atomic, rule prune, rule runs_thenM, rule runs_atomic, rule create, rule runs_thenM, rule runs_catchM,
        rule runs_atomic, rule prov, rule runs_ret)
  ultimately show ?thesis by blast
qed

lemma transfer_runs:
  assumes "old \<noteq> name" and "migrate_guard old name d" and "date_parse E now = Some t"
  shows "runs (transfer_mailbox E now old name :: ('z world_scheme, _) comp) d () (moved_dlq old name (moved_inbox old name d))"
proof -
  have "claimsIndex_key old \<noteq> []" by (simp add: key_simps)
  then obtain c cs where k: "claimsIndex_key old = c # cs" by (meson neq_Nil_conv)
  have rec: "claims_recover E old t RECOVER_CAP DLQ_MAX_LENGTH RECOVER_COUNTER_TTL_SECONDS d = (Inr (Inr (0, 0)), d)"
    using assms(2) by (simp add: claims_recover_def migrate_guard_def ZRANGEBYSCORE_upto_def on_type_ok getM_run by_score_def bindM_ok ret_run Let_def)
  have r: "runs (recoverExpired E old now :: ('z world_scheme, _) comp) d (Inr (0, 0)) d"
    unfolding recoverExpired_def assms(3) option.case by (rule runs_bindM, rule runs_atomic, rule rec) (simp add: runs_ret)
  have m: "runs (migrateMessages old name (Some (claimsIndex_key old)) (Some DLQ_MAX_LENGTH) :: ('z world_scheme, _) comp) d
      (length (list_at d (queue_key old))) (moved_dlq old name (moved_inbox old name d))"
    unfolding migrateMessages_def
    by (rule runs_bindM[OF runs_atomic]) (use migrate_run[OF assms(1,2)] in \<open>auto simp: k runs_ret\<close>)
  show ?thesis unfolding transfer_mailbox_def by (intro runs_bindM[OF r]) (simp, intro runs_thenM[OF m] runs_ret)
qed

lemma rename_succeeds:
  assumes w: "quiet w" "agentName w = Some old" "sessionId w = Some s" and "name \<noteq> old" and free: "free_to_rename old name (redis w)"
    and "date_parse E (dr_recover dr) = Some t"
  shows "agentName (snd (register_client E dr role name desc md w)) = Some name"
proof -
  let ?w = "w\<lparr>heartbeatFor := None\<rparr>"
  have stop: "stopHeartbeat w = (Inr (), ?w)" by (simp add: stopHeartbeat_def modifyM_run)
  have q: "quiet ?w" "redis ?w = redis w" using w by (simp_all add: quiet_def)
  from createSession_runs free obtain c d1 where
    cr: "runs (createSession E (dr_session_id dr) (dr_created dr) name role desc None :: ('a client_world_scheme, _) comp) (redis w) c d1"
    and f: "frame (- task_keys) (redis w) d1" unfolding free_to_rename_def by blast
  obtain w1 where w1: "createSession E (dr_session_id dr) (dr_created dr) name role desc None ?w = (Inr c, w1)" "quiet w1" "redis w1 = d1"
    using runsD[OF cr q] by blast
  have g: "migrate_guard old name d1" using free f by (simp add: free_to_rename_def migrate_guard_def frameD frame_holds)
  obtain w2 where w2: "transfer_mailbox E (dr_recover dr) old name w1 = (Inr (), w2)"
    using runsD[OF transfer_runs[OF assms(4)[symmetric] g assms(6)] w1(2,3)] by blast
  obtain x w3 where w3: "retire_name s old w2 = (x, w3)" by fastforce
  have x: "x = Inr ()" using w3 unfolding retire_name_def
    by (auto elim!: thenM_cases catchM_cases simp: ret_run)
  obtain r w' where done': "complete_registration E dr role name desc md c w3 = (r, w')" by fastforce
  have "register_client E dr role name desc md w = (r, w')"
    using w w1 w2 w3 x done' assms(4)
    by (simp add: register_renames rename_body_def rename_to_def stop thenM_ok bindM_ok catchM_ok)
  with complete_identity[OF done'] show ?thesis by simp
qed

theorem rename_moves_mailbox_witness:
  "\<exists>h w' r. register_client std_env demo_draws ''both'' ''new'' None None demo_client = (r, w') \<and> agentName w' = Some ''new''
    \<and> history w' = h @ history demo_client \<and> (\<exists>(d, d') \<in> set h. mailbox_moved ''old'' ''new'' d d')"
proof -
  obtain r w' where run: "register_client std_env demo_draws ''both'' ''new'' None None demo_client = (r, w')" by fastforce
  have w: "quiet demo_client" "agentName demo_client = Some ''old''" "sessionId demo_client = Some ''s0''" "''new'' \<noteq> ''old''"
    by (simp_all add: demo_client_def quiet_def)
  have "free_to_rename ''old'' ''new'' (redis demo_client)"
    by (simp add: free_to_rename_def demo_client_def registry_types_def migrate_guard_def live_def empty_db_def holds_def)
  moreover have "date_parse std_env (dr_recover demo_draws) = Some 1000"
    by (simp add: demo_draws_def std.date_parse_iso valid_instant_def)
  ultimately have "agentName w' = Some ''new''" using rename_succeeds[OF w] run by (metis snd_conv)
  with rename_moves_mailbox[OF std.js_runtime_axioms w(2-4) run] run show ?thesis by auto
qed

section \<open>Unregistering\<close>

lemma forM_DEL: "\<exists>d'. forM ks DEL d = (Inr (), d') \<and> (\<forall>k. live d' k = (if k \<in> set ks then None else live d k))"
proof (induction ks arbitrary: d)
  case (Cons x ks)
  obtain d' where "forM ks DEL (upd x None NoTtl d) = (Inr (), d')" "\<forall>k. live d' k = (if k \<in> set ks then None else live (upd x None NoTtl d) k)"
    using Cons by blast
  moreover have "DEL x d = (Inr (), upd x None NoTtl d)" by (simp add: DEL_def modifyM_run)
  ultimately show ?case by (auto simp: forM_Cons thenM_ok live_upd)
qed (simp add: forM_Nil ret_run)

lemma by_score_Nil [simp]: "by_score z = [] \<longleftrightarrow> z = []"
  by (metis length_by_score length_0_conv)

lemma purge_claims_run:
  assumes "holds d claims_key THash"
  shows "\<exists>cs d'. purge_claims E a ids d = (Inr cs, d') \<and> set cs = (\<Union>i \<in> set ids. set (claim_counters E a (map_of (hash_at d claims_key) i))) \<and> frame {claims_key} d d' \<and> holds d' claims_key THash
    \<and> (\<forall>i. map_of (hash_at d' claims_key) i = (if i \<in> set ids then None else map_of (hash_at d claims_key) i))"
  using assms
proof (induction ids arbitrary: d)
  case (Cons i ids)
  let ?d = "put_hash claims_key (AList.delete i (hash_at d claims_key)) d"
  have "holds ?d claims_key THash" by (simp add: view_simps)
  from Cons.IH[OF this] obtain cs d' where d': "purge_claims E a ids ?d = (Inr cs, d')"
    "set cs = (\<Union>i \<in> set ids. set (claim_counters E a (map_of (hash_at ?d claims_key) i)))" "frame {claims_key} ?d d'"
    "holds d' claims_key THash" "\<forall>j. map_of (hash_at d' claims_key) j = (if j \<in> set ids then None else map_of (hash_at ?d claims_key) j)" by blast
  have f: "frame {claims_key} d d'" using d'(3) by (simp add: frame_def view_simps)
  have none: "claim_counters E a None = []" by (simp add: claim_counters_def)
  have h: "map_of (hash_at ?d claims_key) = (map_of (hash_at d claims_key))(i := None)" by (simp add: view_simps delete_conv)
  have "set (claim_counters E a (map_of (hash_at d claims_key) i)) \<union> set cs = (\<Union>j \<in> set (i # ids). set (claim_counters E a (map_of (hash_at d claims_key) j)))"
    unfolding d'(2) h by (auto simp: none split: if_splits)
  then show ?case
    using Cons.prems d'(1,4,5) f by (simp add: HGET_def HDEL_def on_type_ok getM_run modifyM_run bindM_ok thenM_ok ret_run) (auto simp: view_simps)
qed (simp add: ret_run)

lemma counter_keys [simp]:
  "recoverCount_key a m \<noteq> queue_key b" "recoverCount_key a m \<noteq> dlq_key b" "recoverCount_key a m \<noteq> claims_key" "recoverCount_key a m \<noteq> claimsIndex_key b"
  "recoverCount_key a m \<noteq> registry_key" "recoverCount_key a m \<noteq> session_key x" "recoverCount_key a m \<noteq> lease_key x" "recoverCount_key a m \<noteq> agentSessions_key b"
  by (simp_all add: key_simps)

text \<open>What \<open>name\<close> leaves in the store when it is purged: nothing, and no other key but its counters changes.\<close>

lemma payload_counters:
  "set (map (recoverCount_key a) (List.map_filter (tracked_id E \<circ> JStr) ts)) = task_counters E a ts"
  "set (map (recoverCount_key a) (List.map_filter (tracked_id E) (map JStr ts))) = task_counters E a ts"
  by (induction ts; auto simp: map_filter_simps task_counters_Cons task_counters_def split: option.splits)+

definition purged_counters :: "runtime \<Rightarrow> db \<Rightarrow> string \<Rightarrow> string set" where
  "purged_counters E d a = task_counters E a (list_at d (dlq_key a)) \<union> (\<Union>i \<in> dom (score_at d a). set (claim_counters E a (map_of (hash_at d claims_key) i)))"

lemma purged_counters_range: "purged_counters E d a \<subseteq> range (recoverCount_key a)"
  using task_counters_range by (fastforce simp: purged_counters_def claim_counters_def split: option.splits)

definition purge_keys :: "string \<Rightarrow> string set" where
  "purge_keys a = {claimsIndex_key a, dlq_key a, inboxEvents_key a, inboxTrace_key a}"

lemma purge_run:
  assumes "holds d claims_key THash" and "holds d (claimsIndex_key a) TZset"
  shows "\<exists>d'. purge_actor_claims E a d = (Inr (length (zset_at d (claimsIndex_key a))), d') \<and> (\<forall>k \<in> purge_keys a. live d' k = None)
    \<and> (\<forall>k. k \<notin> purge_keys a \<union> {claims_key} \<longrightarrow> live d' k = (if k \<in> purged_counters E d a then None else live d k)) \<and> holds d' claims_key THash
    \<and> (\<forall>i. map_of (hash_at d' claims_key) i = (if i \<in> dom (score_at d a) then None else map_of (hash_at d claims_key) i))"
proof -
  let ?ids = "map fst (by_score (zset_at d (claimsIndex_key a)))"
  have ids: "(if live d (claimsIndex_key a) \<noteq> None \<and> rtype_of (the (live d (claimsIndex_key a))) = TZset then ZRANGE_all (claimsIndex_key a) else ret []) d = (Inr ?ids, d)"
    using assms(2) by (auto simp: ZRANGE_all_def on_type_def getM_run ret_run holds_def by_score_def split: option.splits)
  have dom: "set ?ids = dom (score_at d a)" by (simp add: score_at_def dom_map_of_conv_image_fst)
  let ?stage = "if ?ids \<noteq> [] \<and> (case live d claims_key of None \<Rightarrow> False | Some v \<Rightarrow> rtype_of v = THash) then purge_claims E a ?ids else ret []"
  let ?cc = "\<Union>i \<in> dom (score_at d a). set (claim_counters E a (map_of (hash_at d claims_key) i))"
  have "\<exists>cs d1. ?stage d = (Inr cs, d1) \<and> set cs = ?cc \<and> frame {claims_key} d d1 \<and> holds d1 claims_key THash
      \<and> (\<forall>i. map_of (hash_at d1 claims_key) i = (if i \<in> dom (score_at d a) then None else map_of (hash_at d claims_key) i))"
  proof (cases "?ids \<noteq> [] \<and> (case live d claims_key of None \<Rightarrow> False | Some v \<Rightarrow> rtype_of v = THash)")
    case True
    then show ?thesis using purge_claims_run[OF assms(1), of E a ?ids] unfolding dom by simp
  next
    case False
    then have none: "\<forall>i \<in> dom (score_at d a). map_of (hash_at d claims_key) i = None"
      using assms(1) dom by (auto simp: holds_def score_at_def split: option.splits)
    then have "?cc = {}" by (auto simp: claim_counters_def)
    moreover have "map_of (hash_at d claims_key) i = (if i \<in> dom (score_at d a) then None else map_of (hash_at d claims_key) i)" for i
      using none by auto
    ultimately show ?thesis using assms(1) False by (simp only: if_False ret_run) auto
  qed
  then obtain cs d1 where st: "?stage d = (Inr cs, d1)" "set cs = ?cc" "frame {claims_key} d d1" "holds d1 claims_key THash"
      "\<forall>i. map_of (hash_at d1 claims_key) i = (if i \<in> dom (score_at d a) then None else map_of (hash_at d claims_key) i)" by blast
  let ?dead = "if (case live d1 (dlq_key a) of None \<Rightarrow> False | Some v \<Rightarrow> rtype_of v = TList) then LRANGE_all (dlq_key a) else ret []"
  have dead: "?dead d1 = (Inr (list_at d (dlq_key a)), d1)"
    using frameD[OF st(3), of "dlq_key a"]
    by (cases "live d1 (dlq_key a)"; cases "the (live d1 (dlq_key a))") (simp_all add: LRANGE_all_def on_type_def holds_def getM_run ret_run key_simps)
  let ?ks = "cs @ map (recoverCount_key a) (List.map_filter (tracked_id E \<circ> JStr) (list_at d (dlq_key a)))"
  have ks: "set ?ks = purged_counters E d a" using st(2) payload_counters(1) by (simp only: set_append purged_counters_def Un_commute)
  obtain d2 where d2: "forM ?ks DEL d1 = (Inr (), d2)" "\<forall>k. live d2 k = (if k \<in> set ?ks then None else live d1 k)" using forM_DEL by blast
  let ?d = "upd (inboxTrace_key a) None NoTtl (upd (inboxEvents_key a) None NoTtl (upd (dlq_key a) None NoTtl (upd (claimsIndex_key a) None NoTtl d2)))"
  have "purge_actor_claims E a d = (Inr (length ?ids), ?d)"
    using ids st(1) dead d2(1)
    unfolding purge_actor_claims_def Let_def TYPE_is_def DEL_def[of "claimsIndex_key a"] DEL_def[of "dlq_key a"] DEL_def[of "inboxEvents_key a"] DEL_def[of "inboxTrace_key a"]
    by (auto simp: bindM_ok bindM_False thenM_ok getM_run modifyM_run ret_run split: option.splits)
  moreover have "live ?d k = (if k \<in> purged_counters E d a then None else live d k)" if "k \<notin> purge_keys a \<union> {claims_key}" for k
    using that frameD[OF st(3), of k] d2(2) unfolding ks by (auto simp: purge_keys_def view_simps)
  moreover have "live ?d claims_key = live d1 claims_key"
  proof -
    have "claims_key \<notin> purged_counters E d a" using purged_counters_range[of E d a] not_counter_key(1)[of a] by blast
    then show ?thesis using d2(2) unfolding ks by (simp add: view_simps key_simps)
  qed
  ultimately show ?thesis using st(4,5) by (intro exI[of _ ?d]) (auto simp: purge_keys_def view_simps holds_def)
qed

text \<open>Everything the program keeps under a name alone.\<close>

definition name_keys :: "string \<Rightarrow> string set" where
  "name_keys a = {queue_key a, mailboxMeta_key a, heartbeat_key a} \<union> purge_keys a"

lemma session_state_keys:
  "registry_key \<notin> name_keys a \<union> {claims_key} \<union> range (recoverCount_key a)" "agentSessions_key b \<notin> name_keys a \<union> {claims_key} \<union> range (recoverCount_key a)"
  "session_key sid \<notin> name_keys a \<union> {claims_key} \<union> range (recoverCount_key a)" "lease_key sid \<notin> name_keys a \<union> {claims_key} \<union> range (recoverCount_key a)"
  by (auto simp: name_keys_def purge_keys_def key_simps)

text \<open>The keys of the client's own session, which is the empty text where it has none.\<close>

definition own_session :: "string \<Rightarrow> string set" where
  "own_session sid = (if sid = [] then {} else {session_key sid, lease_key sid})"

lemma unregister_run:
  assumes "holds d claims_key THash" and "holds d (claimsIndex_key a) TZset" and "holds d registry_key THash" and "holds d (agentSessions_key a) TSet"
  shows "\<exists>d'. unregister_script E a sid d = (Inr (length (zset_at d (claimsIndex_key a))), d') \<and> (\<forall>k \<in> name_keys a \<union> own_session sid. live d' k = None)
    \<and> (\<forall>k. k \<notin> name_keys a \<union> own_session sid \<union> {claims_key, registry_key, agentSessions_key a} \<longrightarrow>
          live d' k = (if k \<in> purged_counters E d a then None else live d k))
    \<and> holds d' claims_key THash \<and> registered d' = (registered d)(a := None)
    \<and> set (set_at d' (agentSessions_key a)) = set (set_at d (agentSessions_key a)) - (if sid = [] then {} else {sid})
    \<and> (\<forall>i. map_of (hash_at d' claims_key) i = (if i \<in> dom (score_at d a) then None else map_of (hash_at d claims_key) i))"
proof -
  let ?close = "if sid = [] then ret () else thenM (thenM (DEL (session_key sid)) (DEL (lease_key sid))) (SREM (agentSessions_key a) sid)"
  let ?d1 = "if sid = [] then d else put_set (agentSessions_key a) (removeAll sid (set_at d (agentSessions_key a)))
    (upd (lease_key sid) None NoTtl (upd (session_key sid) None NoTtl d))"
  let ?d2 = "put_hash registry_key (AList.delete a (hash_at ?d1 registry_key)) ?d1"
  have d1: "?close d = (Inr (), ?d1)"
    using assms(4) by (auto simp: ret_run run_simps view_simps key_simps)
  have reg: "live ?d1 registry_key = live d registry_key" by (auto simp: view_simps key_simps)
  then have d2: "HDEL registry_key a ?d1 = (Inr (), ?d2)" using assms(3) by (simp add: HDEL_def on_type_def holds_def modifyM_run)
  have cl: "live ?d2 claims_key = live d claims_key" "live ?d2 (claimsIndex_key a) = live d (claimsIndex_key a)"
    by (auto simp: view_simps key_simps)
  then have t: "holds ?d2 claims_key THash" "holds ?d2 (claimsIndex_key a) TZset" using assms(1,2) by (simp_all add: holds_def)
  have pc: "purged_counters E ?d2 a = purged_counters E d a" using cl by (simp add: purged_counters_def score_at_def view_simps key_simps)
  obtain d3 where d3: "purge_actor_claims E a ?d2 = (Inr (length (zset_at ?d2 (claimsIndex_key a))), d3)" "\<forall>k \<in> purge_keys a. live d3 k = None"
    "\<forall>k. k \<notin> purge_keys a \<union> {claims_key} \<longrightarrow> live d3 k = (if k \<in> purged_counters E d a then None else live ?d2 k)" "holds d3 claims_key THash"
    "\<forall>i. map_of (hash_at d3 claims_key) i = (if i \<in> dom (score_at ?d2 a) then None else map_of (hash_at ?d2 claims_key) i)"
    using purge_run[OF t, of E] unfolding pc by blast
  let ?d4 = "upd (heartbeat_key a) None NoTtl (upd (mailboxMeta_key a) None NoTtl (upd (queue_key a) None NoTtl d3))"
  have "unregister_script E a sid d = (Inr (length (zset_at d (claimsIndex_key a))), ?d4)"
    using d1 d2 d3(1) cl(2) by (simp add: unregister_script_def thenM_ok bindM_ok DEL_def modifyM_run ret_run)
  moreover have gone: "live ?d4 k = None" if "k \<in> name_keys a" for k
    using that d3(2) by (auto simp: name_keys_def view_simps)
  moreover have c4: "live ?d4 claims_key = live d3 claims_key" by (simp add: view_simps key_simps)
  moreover have kept: "live ?d4 k = (if k \<in> purged_counters E d a then None else live ?d2 k)" if "k \<notin> name_keys a \<union> {claims_key}" for k
    using that d3(3) by (simp add: live_upd name_keys_def)
  moreover have other: "live ?d2 k = live d k" if "k \<notin> own_session sid \<union> {registry_key, agentSessions_key a}" for k
    using that by (auto simp: own_session_def view_simps)
  have apart: "k \<notin> purged_counters E d a" if "k \<notin> range (recoverCount_key a)" for k using that purged_counters_range by blast
  have "registered ?d4 = (registered d)(a := None)"
    using kept[of registry_key] apart[of registry_key] session_state_keys(1) reg by (simp add: view_simps)
  moreover have "set (set_at ?d4 (agentSessions_key a)) = set (set_at d (agentSessions_key a)) - (if sid = [] then {} else {sid})"
    using kept[of "agentSessions_key a"] apart[of "agentSessions_key a"] session_state_keys(2) by (auto simp: view_simps key_simps)
  moreover have "live ?d4 k = None" if "k \<in> own_session sid" for k
  proof -
    have "live ?d2 k = None" using that by (cases "sid = []") (auto simp: own_session_def view_simps key_simps)
    moreover have "k \<notin> name_keys a \<union> {claims_key}" using that session_state_keys(3,4)[of sid a] by (auto simp: own_session_def split: if_splits)
    ultimately show ?thesis using kept[of k] by simp
  qed
  moreover have "score_at ?d2 a = score_at d a" "hash_at ?d2 claims_key = hash_at d claims_key" using cl by (simp_all add: score_at_def)
  moreover have "holds ?d4 claims_key THash" using d3(4) c4 by (simp add: holds_def)
  moreover have "live ?d4 k = (if k \<in> purged_counters E d a then None else live d k)"
    if "k \<notin> name_keys a \<union> own_session sid \<union> {claims_key, registry_key, agentSessions_key a}" for k
    using that kept[of k] other[of k] by simp
  moreover have "map_of (hash_at ?d4 claims_key) i = (if i \<in> dom (score_at d a) then None else map_of (hash_at d claims_key) i)" for i
    using d3(5) c4 cl by (simp add: score_at_def)
  ultimately show ?thesis by blast
qed

lemma name_keys_apart:
  assumes "b \<noteq> a"
  shows "queue_key b \<notin> name_keys a \<union> {claims_key, registry_key, session_key sid, lease_key sid, agentSessions_key a} \<union> range (recoverCount_key a)"
    and "dlq_key b \<notin> name_keys a \<union> {claims_key, registry_key, session_key sid, lease_key sid, agentSessions_key a} \<union> range (recoverCount_key a)"
    and "claimsIndex_key b \<notin> name_keys a \<union> {claims_key, registry_key, session_key sid, lease_key sid, agentSessions_key a} \<union> range (recoverCount_key a)"
  using assms by (auto simp: name_keys_def purge_keys_def key_simps)

context js_runtime
begin

text \<open>Dropping the claims of one actor, with its index, keeps the others.\<close>

lemma claims_dropped:
  assumes ok: "claims_ok E d" and ty: "holds d' claims_key THash" and gone: "live d' (claimsIndex_key a) = None"
    and kept: "\<forall>b. b \<noteq> a \<longrightarrow> live d' (claimsIndex_key b) = live d (claimsIndex_key b)"
    and hash: "\<And>i. map_of (hash_at d' claims_key) i = (if i \<in> dom (score_at d a) then None else map_of (hash_at d claims_key) i)"
  shows "claims_ok E d'" and "\<And>i. claim_at E d' i = (if \<exists>c. claim_at E d i = Some c \<and> tc_actor_id c = a then None else claim_at E d i)"
    and "claimed E d' a = {#}" and "\<And>b. b \<noteq> a \<Longrightarrow> claimed E d' b = claimed E d b"
proof -
  note okD = ok[unfolded claims_ok_def]
  have sa: "score_at d' a = Map.empty" and sb: "\<And>b. b \<noteq> a \<Longrightarrow> score_at d' b = score_at d b"
    using gone kept by (simp_all add: score_at_def)
  have in_index: "i \<in> dom (score_at d a) \<longleftrightarrow> (\<exists>c. claim_at E d i = Some c \<and> tc_actor_id c = a)" for i
    using okD wf_claim_at[OF ok, of i] by (fastforce simp: wf_claim_def)
  have at: "claim_at E d' i = (if \<exists>c. claim_at E d i = Some c \<and> tc_actor_id c = a then None else claim_at E d i)" for i
    using hash[of i] in_index[of i] by (auto simp: claim_at_def)
  then show "\<And>i. claim_at E d' i = (if \<exists>c. claim_at E d i = Some c \<and> tc_actor_id c = a then None else claim_at E d i)" .
  show "claimed E d' a = {#}" by (simp add: claimed_def sa)
  have other: "claim_at E d' i = claim_at E d i" if "i \<in> dom (score_at d b)" "b \<noteq> a" for i b
  proof -
    from that(1) okD obtain c where "claim_at E d i = Some c" "tc_actor_id c = b" by blast
    with that(2) at[of i] show ?thesis by simp
  qed
  show "claimed E d' b = claimed E d b" if "b \<noteq> a" for b
    unfolding claimed_def sb[OF that] by (rule sum.cong) (use other that in auto)
  show "claims_ok E d'"
    unfolding claims_ok_def
  proof (intro conjI allI impI)
    show "holds d' (claimsIndex_key b) TZset" for b using okD gone kept by (cases "b = a") (auto simp: holds_def)
    show "distinct (map fst (zset_at d' (claimsIndex_key b)))" for b using okD gone kept by (cases "b = a") auto
    show "\<exists>c. raw = claim_text E c \<and> wf_claim c \<and> tc_claim_id c = i" if "map_of (hash_at d' claims_key) i = Some raw" for i raw
      using that hash[of i] okD by (auto split: if_splits)
    show "score_at d' b i = Some s \<longleftrightarrow> (\<exists>c. claim_at E d' i = Some c \<and> tc_actor_id c = b \<and> tc_expires_at c = iso_from_ms s \<and> valid_instant s)" for b i s
      using okD sa sb[of b] at[of i] by (cases "b = a") auto
  qed (rule ty)
qed

end

lemma unregister_effect:
  assumes "js_runtime E" and "claims_ok E d" and "holds d registry_key THash" and "holds d (agentSessions_key a) TSet"
    and "unregister_script E a sid d = (res, d')"
  shows "res = Inr (length (zset_at d (claimsIndex_key a)))
    \<and> (\<forall>k \<in> {queue_key a, mailboxMeta_key a, heartbeat_key a, claimsIndex_key a, dlq_key a, inboxEvents_key a, inboxTrace_key a}. live d' k = None)
    \<and> registered d' = (registered d)(a := None)
    \<and> (sid \<noteq> [] \<longrightarrow> live d' (session_key sid) = None \<and> live d' (lease_key sid) = None \<and> sid \<notin> set (set_at d' (agentSessions_key a)))
    \<and> claims_ok E d' \<and> (\<forall>i. claim_at E d' i = (if \<exists>c. claim_at E d i = Some c \<and> tc_actor_id c = a then None else claim_at E d i))
    \<and> held E d' a = {#} \<and> (\<forall>b. b \<noteq> a \<longrightarrow> held E d' b = held E d b)"
proof -
  from assms(2) have ty: "holds d claims_key THash" "holds d (claimsIndex_key a) TZset" by (auto simp: claims_ok_def)
  note run = unregister_run[OF ty assms(3,4), of E sid, unfolded assms(5)]
  then have res: "res = Inr (length (zset_at d (claimsIndex_key a)))" and gone: "\<And>k. k \<in> name_keys a \<Longrightarrow> live d' k = None"
    and rest: "\<forall>k. k \<notin> name_keys a \<union> own_session sid \<union> {claims_key, registry_key, agentSessions_key a} \<longrightarrow>
          live d' k = (if k \<in> purged_counters E d a then None else live d k)"
    and h: "holds d' claims_key THash" "registered d' = (registered d)(a := None)"
    and own: "\<forall>k \<in> own_session sid. live d' k = None" and sids: "set (set_at d' (agentSessions_key a)) = set (set_at d (agentSessions_key a)) - (if sid = [] then {} else {sid})"
    and hash: "\<And>i. map_of (hash_at d' claims_key) i = (if i \<in> dom (score_at d a) then None else map_of (hash_at d claims_key) i)"
    by auto
  have f: "frame (name_keys a \<union> {claims_key, registry_key, session_key sid, lease_key sid, agentSessions_key a} \<union> range (recoverCount_key a)) d d'"
    using rest purged_counters_range unfolding frame_def own_session_def by (fastforce split: if_splits)
  have sess: "sid \<noteq> [] \<longrightarrow> live d' (session_key sid) = None \<and> live d' (lease_key sid) = None \<and> sid \<notin> set (set_at d' (agentSessions_key a))"
    using own sids by (auto simp: own_session_def)
  have i: "live d' (claimsIndex_key a) = None" by (rule gone) (simp add: name_keys_def purge_keys_def)
  have ib: "\<forall>b. b \<noteq> a \<longrightarrow> live d' (claimsIndex_key b) = live d (claimsIndex_key b)" using frameD[OF f name_keys_apart(3)] by blast
  note drop = js_runtime.claims_dropped[OF assms(1,2) h(1) i ib hash]
  have ha: "held E d' a = {#}" using drop(3) gone[of "queue_key a"] gone[of "dlq_key a"] by (simp add: held_def name_keys_def purge_keys_def)
  have hb: "held E d' b = held E d b" if "b \<noteq> a" for b
    using drop(4)[OF that] frameD[OF f name_keys_apart(1)[OF that]] frameD[OF f name_keys_apart(2)[OF that]] by (simp add: held_def)
  from gone have "\<forall>k \<in> {queue_key a, mailboxMeta_key a, heartbeat_key a, claimsIndex_key a, dlq_key a, inboxEvents_key a, inboxTrace_key a}. live d' k = None"
    by (simp add: name_keys_def purge_keys_def)
  with res h(2) sess drop(1,2) ha hb show ?thesis by blast
qed

context js_runtime
begin

lemma purged_counters_claims:
  assumes ok: "claims_ok E d"
  shows "purged_counters E d a = task_counters E a (list_at d (dlq_key a))
    \<union> (\<Union>c \<in> {c. \<exists>i. claim_at E d i = Some c \<and> tc_actor_id c = a}. task_counters E a (tc_tasks c))"
proof -
  have counters: "set (claim_counters E a (Some (claim_text E c))) = task_counters E a (tc_tasks c)" if "wf_claim c" for c
    using decode_claim[OF that] payload_counters(2) by (simp add: claim_counters_def)
  have at: "\<exists>c. claim_at E d i = Some c \<and> tc_actor_id c = a \<and> wf_claim c \<and> map_of (hash_at d claims_key) i = Some (claim_text E c)" if "i \<in> dom (score_at d a)" for i
    using that indexed_claim[OF ok, of a i] claim_at_cases[OF ok, of i] by force
  have index: "i \<in> dom (score_at d a)" if "claim_at E d i = Some c" "tc_actor_id c = a" for i c
    using that claim_indexed[OF ok, of i c] by auto
  have "(\<Union>i \<in> dom (score_at d a). set (claim_counters E a (map_of (hash_at d claims_key) i)))
      = (\<Union>c \<in> {c. \<exists>i. claim_at E d i = Some c \<and> tc_actor_id c = a}. task_counters E a (tc_tasks c))" (is "?L = ?R")
  proof
    show "?L \<subseteq> ?R" using at counters by fastforce
    show "?R \<subseteq> ?L"
    proof
      fix k assume "k \<in> ?R"
      then obtain i c where c: "claim_at E d i = Some c" "tc_actor_id c = a" "k \<in> task_counters E a (tc_tasks c)" by blast
      from index[OF c(1,2)] have i: "i \<in> dom (score_at d a)" .
      from at[OF this] c(1) have "wf_claim c" "map_of (hash_at d claims_key) i = Some (claim_text E c)" by auto
      with counters c(3) have "k \<in> set (claim_counters E a (map_of (hash_at d claims_key) i))" by simp
      with i show "k \<in> ?L" by (rule UN_I)
    qed
  qed
  then show ?thesis by (simp add: purged_counters_def)
qed

end

text \<open>
  (C10) What unregistering removes, exactly. One atomic step removes seven keys of the name (the mailbox, its metadata,
  events, traces and dead letters, the heartbeat and the claims index), the session and the lease that the client
  holds, its listing under the name, the name's entry in the registry, every claim of the name, and the recovery
  counters of the tasks in those claims and dead letters; it answers with the number of claims. The other fields of the
  registry and of the claims, the other listed sessions and the value of every other key are what they were: so are
  the tasks of every other agent, and so are the name's own runtime binding, activation record, profile, outbound
  mark and pending registration, which are left to expire.
\<close>

theorem unregister_exact:
  assumes "js_runtime E" and "claims_ok E d" and "holds d registry_key THash" and "holds d (agentSessions_key a) TSet"
    and "unregister_script E a sid d = (res, d')"
  defines "emptied \<equiv> {queue_key a, mailboxMeta_key a, heartbeat_key a, claimsIndex_key a, dlq_key a, inboxEvents_key a, inboxTrace_key a} \<union> own_session sid"
  shows "res = Inr (length (zset_at d (claimsIndex_key a)))
    \<and> (\<forall>k \<in> emptied. live d' k = None)
    \<and> registered d' = (registered d)(a := None)
    \<and> set (set_at d' (agentSessions_key a)) = set (set_at d (agentSessions_key a)) - (if sid = [] then {} else {sid})
    \<and> (\<forall>i. map_of (hash_at d' claims_key) i = (if \<exists>c. claim_at E d i = Some c \<and> tc_actor_id c = a then None else map_of (hash_at d claims_key) i))
    \<and> (\<forall>k. k \<notin> emptied \<union> {registry_key, agentSessions_key a, claims_key} \<longrightarrow>
          live d' k = (if k \<in> task_counters E a (list_at d (dlq_key a)) \<or> (\<exists>i c. claim_at E d i = Some c \<and> tc_actor_id c = a \<and> k \<in> task_counters E a (tc_tasks c))
                       then None else live d k))
    \<and> claims_ok E d' \<and> held E d' a = {#} \<and> (\<forall>b. b \<noteq> a \<longrightarrow> held E d' b = held E d b)"
proof -
  have em: "emptied = name_keys a \<union> own_session sid" by (auto simp: emptied_def name_keys_def purge_keys_def)
  from assms(2) have ty: "holds d claims_key THash" "holds d (claimsIndex_key a) TZset" by (auto simp: claims_ok_def)
  note run = unregister_run[OF ty assms(3,4), of E sid, unfolded assms(5)]
  note eff = unregister_effect[OF assms(1-5)]
  have index: "i \<in> dom (score_at d a) \<longleftrightarrow> (\<exists>c. claim_at E d i = Some c \<and> tc_actor_id c = a)" for i
    using js_runtime.indexed_claim[OF assms(1,2), of a i] js_runtime.claim_indexed[OF assms(1,2), of i] by (auto simp: dom_def)
  have pc: "k \<in> purged_counters E d a \<longleftrightarrow> k \<in> task_counters E a (list_at d (dlq_key a))
      \<or> (\<exists>i c. claim_at E d i = Some c \<and> tc_actor_id c = a \<and> k \<in> task_counters E a (tc_tasks c))" for k
    unfolding js_runtime.purged_counters_claims[OF assms(1,2)] by blast
  have rest: "\<forall>k. k \<notin> emptied \<union> {registry_key, agentSessions_key a, claims_key} \<longrightarrow> live d' k = (if k \<in> purged_counters E d a then None else live d k)"
    using run unfolding em by auto
  from run eff show ?thesis unfolding em[symmetric] pc[symmetric] index[symmetric] using rest by auto
qed

theorem unregister_exact_witness:
  "\<exists>d'. unregister_script std_env ''bob'' ''s1'' claims_demo_db = (Inr 1, d') \<and> claim_at std_env d' ''c1'' = None \<and> list_at d' (queue_key ''bob'') = []
    \<and> live d' (agentProfile_key ''bob'') = live claims_demo_db (agentProfile_key ''bob'')"
proof -
  obtain res d' where run: "unregister_script std_env ''bob'' ''s1'' claims_demo_db = (res, d')" by fastforce
  have t: "holds claims_demo_db registry_key THash" "holds claims_demo_db (agentSessions_key ''bob'') TSet"
    by (simp_all add: claims_demo_db_def view_simps key_simps)
  note eff = unregister_exact[OF std.js_runtime_axioms claims_demo_ok t run]
  have "claim_at std_env d' ''c1'' = None" using eff by (simp add: claim_at_def claims_demo_at[unfolded claim_at_def fun_eq_iff])
  moreover have "agentProfile_key ''bob'' \<notin> range (recoverCount_key ''bob'')" by (auto simp: key_simps)
  then have "agentProfile_key ''bob'' \<notin> task_counters std_env ''bob'' ts" for ts using task_counters_range by blast
  then have "live d' (agentProfile_key ''bob'') = live claims_demo_db (agentProfile_key ''bob'')"
    using eff by (auto simp: own_session_def key_simps)
  ultimately show ?thesis using eff run by (auto simp: claims_demo_views)
qed

end
