(* ===== verification/Untouched.thy ===== *)
theory Untouched
  imports World_Steps
begin

text \<open>
  Scripts that leave a key alone, with its value and its expiry, and the write that only creates
  (\<open>SET NX\<close>). A lock or a lease under a key survives every script that leaves the key.
\<close>

definition SET_NX :: "string \<Rightarrow> string \<Rightarrow> ttl_mode \<Rightarrow> (db, bool) comp" where
  "SET_NX k v m = bindM (EXISTS k) (\<lambda>there. if there then ret False else thenM (SET k v m) (ret True))"

text \<open>A script that writes other keys only leaves a key with its value and its expiry.\<close>

definition untouched :: "string \<Rightarrow> db \<Rightarrow> db \<Rightarrow> bool" where
  "untouched k d d' \<longleftrightarrow> entries d' k = entries d k \<and> expiry d' k = expiry d k \<and> clock d' = clock d"

interpretation untouching: world_relation "untouched k" for k
  by unfold_locales (auto simp: untouched_def)

abbreviation leaves :: "string \<Rightarrow> (db, 'a) comp \<Rightarrow> bool" where
  "leaves k \<equiv> relates (untouched k)"

lemma untouched_upd: "k \<noteq> k' \<Longrightarrow> untouched k d (upd k' v m d)"
  by (simp add: untouched_def view_simps) (simp add: upd_def)

lemma untouched_live: "untouched k d d' \<Longrightarrow> live d' k = live d k"
  by (auto simp: untouched_def live_def split: option.splits)

lemma leaves_on_type: "leaves k c \<Longrightarrow> leaves k (on_type t k' c)"
  by (auto simp: relates_def on_type_def untouching.same)

lemma leaves_commands:
  "leaves k (EXISTS k')" "leaves k (GET k')" "leaves k (HGET k' f)" "leaves k (HEXISTS k' f)" "leaves k (SMEMBERS k')" "leaves k (SCARD k')"
  "leaves k (SISMEMBER k' x)" "leaves k (TYPE_is k' t)" "leaves k (LRANGE_all k')" "leaves k (ZRANGE_all k')" "leaves k (ZCARD k')"
  "k \<noteq> k' \<Longrightarrow> leaves k (DEL k')" "k \<noteq> k' \<Longrightarrow> leaves k (SET k' v m)" "k \<noteq> k' \<Longrightarrow> leaves k (SREM k' x)" "k \<noteq> k' \<Longrightarrow> leaves k (HDEL k' f)"
  "k \<noteq> k' \<Longrightarrow> leaves k (XADD k' fs)"
  by (auto simp: command_defs put_set_def put_hash_def intro!: leaves_on_type untouching.relates_pure untouching.relates_modifyM untouched_upd)

lemma leaves_forM: "(\<And>x. x \<in> set xs \<Longrightarrow> leaves k (f x)) \<Longrightarrow> leaves k (forM xs f)"
  by (induction xs) (auto simp: forM_Nil forM_Cons intro!: untouching.relates_intros)

lemmas leaves_intros = untouching.relates_intros leaves_commands leaves_forM

lemma leaves_bindM_result:
  assumes "leaves k m" and "\<And>d a d'. m d = (Inr a, d') \<Longrightarrow> Q a" and "\<And>a. Q a \<Longrightarrow> leaves k (f a)"
  shows "leaves k (bindM m f)"
  unfolding relates_def
proof (intro allI impI)
  fix d r d' assume "bindM m f d = (r, d')"
  then show "untouched k d d'"
  proof (cases rule: bindM_cases)
    case (err e)
    with assms(1) show ?thesis by (auto dest: relatesD)
  next
    case (ok a d1)
    from relatesD[OF assms(1) ok(1)] relatesD[OF assms(3)[OF assms(2)[OF ok(1)]] ok(2)] show ?thesis by (rule untouching.chain)
  qed
qed

end
