(* ===== verification/Identity_Claim.thy ===== *)
theory Identity_Claim
  imports Client_Props Untouched
begin

text \<open>
  Exclusive ownership of an agent name by a wrapper, \<open>src/src/experimental-wrapper/identity-claim.ts\<close>: a token
  under the claim key of the name, taken before the name is registered, verified before the wrapped program
  is launched, and compared again by the script that retires the name. The claim has no expiry.

  The four scripts are computations on the database; \<open>acquireWrapperIdentityClaim\<close> and the methods of the
  object it returns work on a world that adds what that object closes over. A command on a closed connection
  is rejected; whether closing the connection succeeds is a parameter.
\<close>

section \<open>The scripts\<close>

primrec any_leased :: "string list \<Rightarrow> (db, bool) comp" where
  "any_leased [] = ret False"
| "any_leased (sid # sids) = bindM (EXISTS (lease_key sid)) (\<lambda>leased. if leased then ret True else any_leased sids)"

definition acquire_claim_script :: "runtime \<Rightarrow> string \<Rightarrow> string \<Rightarrow> bool \<Rightarrow> (db, int) comp" where
  "acquire_claim_script E agent token fresh =
     bindM (EXISTS (wrapperClaim_key E agent)) (\<lambda>held.
     if held then ret 0
     else bindM (if fresh then HEXISTS registry_key agent else ret False) (\<lambda>registered.
     if registered then ret (- 1)
     else bindM (SMEMBERS (agentSessions_key agent)) (\<lambda>sids.
     bindM (any_leased sids) (\<lambda>active.
     if active then ret (- 2)
     else bindM (EXISTS (heartbeat_key agent)) (\<lambda>beating.
     if beating then ret (- 2)
     else bindM (SET_NX (wrapperClaim_key E agent) token NoTtl) (\<lambda>taken. ret (if taken then 1 else 0)))))))"

definition release_claim_script :: "runtime \<Rightarrow> string \<Rightarrow> string \<Rightarrow> (db, int) comp" where
  "release_claim_script E agent token =
     bindM (GET (wrapperClaim_key E agent)) (\<lambda>current.
     if current = Some token then thenM (DEL (wrapperClaim_key E agent)) (ret 1) else ret 0)"

definition sole_member :: "string \<Rightarrow> string \<Rightarrow> (db, bool) comp" where
  "sole_member agent sid =
     bindM (SCARD (agentSessions_key agent)) (\<lambda>n.
     if n \<noteq> 1 then ret False else SISMEMBER (agentSessions_key agent) sid)"

definition verify_session_script :: "runtime \<Rightarrow> string \<Rightarrow> string \<Rightarrow> string \<Rightarrow> (db, int) comp" where
  "verify_session_script E agent token sid =
     bindM (GET (wrapperClaim_key E agent)) (\<lambda>current.
     if current \<noteq> Some token then ret 0
     else bindM (sole_member agent sid) (\<lambda>sole. ret (if sole then 1 else - 1)))"

definition unregister_exclusive_script :: "runtime \<Rightarrow> string \<Rightarrow> string \<Rightarrow> string \<Rightarrow> (db, int) comp" where
  "unregister_exclusive_script E agent token sid =
     bindM (GET (wrapperClaim_key E agent)) (\<lambda>current.
     if current \<noteq> Some token then ret 0
     else bindM (HGET (session_key sid) ''agent_name'') (\<lambda>owner.
     if owner \<noteq> Some agent then ret (- 1)
     else bindM (sole_member agent sid) (\<lambda>exclusive.
     thenM (thenM (DEL (session_key sid)) (DEL (lease_key sid)))
    (thenM (SREM (agentSessions_key agent) sid)
    (if \<not> exclusive then ret 2
     else thenM (HDEL registry_key agent)
         (thenM (purge_actor_claims E agent)
         (thenM (thenM (DEL (queue_key agent)) (thenM (DEL (mailboxMeta_key agent)) (DEL (heartbeat_key agent))))
         (ret 1))))))))"

section \<open>The claim object\<close>

record claim_world = world +
  cw_connected :: bool        \<comment> \<open>the connection of the claim\<close>
  cw_released :: bool
  cw_redisClosed :: bool

datatype ExclusiveUnregisterOutcome = Unregistered | Session_closed_only

definition on_connection :: "(db, 'a) comp \<Rightarrow> ('z claim_world_scheme, 'a) comp" where
  "on_connection c =
     bindM (getM cw_connected) (\<lambda>connected. if connected then atomic c else throw (JsError ''Connection is closed.''))"

definition acquireWrapperIdentityClaim :: "runtime \<Rightarrow> string \<Rightarrow> string \<Rightarrow> bool \<Rightarrow> ('z claim_world_scheme, unit) comp" where
  "acquireWrapperIdentityClaim E agent token requireFresh =
     thenM (modifyM (\<lambda>w. w\<lparr>cw_connected := True\<rparr>))
    (catchM
       (bindM (on_connection (acquire_claim_script E agent token requireFresh)) (\<lambda>acquired.
        if acquired = - 1 then throw (JsError ''Refusing destructive cleanup for pre-existing agent'')
        else if acquired \<noteq> 1
        then (if acquired = - 2 then throw (JsError ''Refusing concurrent wrapper ownership of active agent'')
              else throw (JsError ''Another experimental wrapper already owns the agent name''))
        else modifyM (\<lambda>w. w\<lparr>cw_released := False, cw_redisClosed := False\<rparr>)))
       (\<lambda>e. thenM (modifyM (\<lambda>w. w\<lparr>cw_connected := False\<rparr>)) (throw e)))"

definition assertExclusiveSession :: "runtime \<Rightarrow> string \<Rightarrow> string \<Rightarrow> string \<Rightarrow> ('z claim_world_scheme, unit) comp" where
  "assertExclusiveSession E agent token sid =
     bindM (on_connection (verify_session_script E agent token sid)) (\<lambda>verified.
     if verified \<noteq> 1 then throw (JsError ''Agent identity lost exclusive session ownership before launch or cleanup'') else ret ())"

definition unregisterExclusiveSession :: "runtime \<Rightarrow> string \<Rightarrow> string \<Rightarrow> string \<Rightarrow> ('z claim_world_scheme, ExclusiveUnregisterOutcome) comp" where
  "unregisterExclusiveSession E agent token sid =
     bindM (on_connection (unregister_exclusive_script E agent token sid)) (\<lambda>outcome.
     if outcome = 1 then ret Unregistered
     else if outcome = 2 then ret Session_closed_only
     else if outcome = 0 then throw (JsError ''Wrapper identity claim was lost'')
     else if outcome = - 1 then throw (JsError ''Registered session no longer belongs to wrapper agent'')
     else throw (JsError ''Unexpected atomic unregister result''))"

definition closeRedis :: "bool \<Rightarrow> ('z claim_world_scheme, unit) comp" where
  "closeRedis quits =
     bindM (getM cw_connected) (\<lambda>connected.
     thenM (modifyM (\<lambda>w. w\<lparr>cw_connected := False\<rparr>))
       (if connected \<and> quits then ret () else throw (JsError ''Connection is closed.'')))"

definition release_identity_claim :: "runtime \<Rightarrow> string \<Rightarrow> string \<Rightarrow> bool \<Rightarrow> ('z claim_world_scheme, unit) comp" where
  "release_identity_claim E agent token quits =
     bindM (getM (\<lambda>w. (cw_released w, cw_redisClosed w))) (\<lambda>(released, closed).
     if closed \<and> \<not> released then throw (JsError ''Wrapper identity claim was abandoned'')
     else thenM (if released then ret ()
                 else bindM (on_connection (release_claim_script E agent token)) (\<lambda>deleted.
                      if deleted \<noteq> 1 then throw (JsError ''Wrapper identity claim was lost'')
                      else modifyM (\<lambda>w. w\<lparr>cw_released := True\<rparr>)))
         (if closed then ret ()
          else thenM (closeRedis quits) (modifyM (\<lambda>w. w\<lparr>cw_redisClosed := True\<rparr>))))"

definition abandon :: "('z claim_world_scheme, unit) comp" where
  "abandon =
     bindM (getM cw_redisClosed) (\<lambda>closed.
     if closed then ret () else modifyM (\<lambda>w. w\<lparr>cw_connected := False, cw_redisClosed := True\<rparr>))"

section \<open>Scripts and the claim key\<close>

lemma claim_keys_apart:
  "wrapperClaim_key E a \<noteq> claims_key" "wrapperClaim_key E a \<noteq> claimsIndex_key b" "wrapperClaim_key E a \<noteq> dlq_key b" "wrapperClaim_key E a \<noteq> inboxEvents_key b"
  "wrapperClaim_key E a \<noteq> inboxTrace_key b" "wrapperClaim_key E a \<noteq> recoverCount_key b m" "wrapperClaim_key E a \<noteq> session_key x" "wrapperClaim_key E a \<noteq> lease_key x"
  "wrapperClaim_key E a \<noteq> agentSessions_key b" "wrapperClaim_key E a \<noteq> registry_key" "wrapperClaim_key E a \<noteq> queue_key b" "wrapperClaim_key E a \<noteq> mailboxMeta_key b"
  "wrapperClaim_key E a \<noteq> heartbeat_key b"
  by (simp_all add: key_simps)

lemma leaves_any_leased: "leaves k (any_leased sids)"
  by (induction sids) (auto intro!: leaves_intros)

lemma leaves_sole: "leaves k (sole_member a sid)"
  by (auto simp: sole_member_def intro!: leaves_intros)

lemma purge_claims_counters: "purge_claims E a ids d = (Inr cs, d') \<Longrightarrow> set cs \<subseteq> range (recoverCount_key a)"
  by (induction ids arbitrary: d cs) (fastforce simp: claim_counters_def ret_run elim!: bindM_cases thenM_cases split: option.splits)+

lemma leaves_purge: "leaves (wrapperClaim_key E b) (purge_actor_claims E a)"
proof -
  let ?k = "wrapperClaim_key E b"
  have p: "leaves ?k (purge_claims E a ids)" for ids
    by (induction ids) (auto intro!: leaves_intros claim_keys_apart)
  have dels: "leaves ?k (forM (cs @ map (recoverCount_key a) xs) DEL)" if "set cs \<subseteq> range (recoverCount_key a)" for cs xs
    by (rule leaves_forM, rule leaves_commands) (use that claim_keys_apart(6) in force)
  have stage: "leaves ?k (bindM (if b then purge_claims E a ids else ret []) f)" if "\<And>cs. set cs \<subseteq> range (recoverCount_key a) \<Longrightarrow> leaves ?k (f cs)" for b ids f
    by (rule leaves_bindM_result[where Q = "\<lambda>cs. set cs \<subseteq> range (recoverCount_key a)"])
      (use that p in \<open>auto intro!: untouching.relates_pure dest!: purge_claims_counters simp: ret_run split: if_splits\<close>)
  show ?thesis
    unfolding purge_actor_claims_def Let_def
    by (rule untouching.relates_bindM, rule leaves_commands, rule untouching.relates_bindM, simp add: leaves_commands untouching.relates_pure,
        rule untouching.relates_bindM, rule leaves_commands, rule stage, rule untouching.relates_bindM, rule leaves_commands,
        rule untouching.relates_bindM, simp add: leaves_commands untouching.relates_pure, rule untouching.relates_thenM, erule dels)
      (auto intro!: leaves_intros claim_keys_apart)
qed

section \<open>One owner per name\<close>

text \<open>
  Wrappers in any number acquire, verify, retire and release claims in any order, each under a token drawn
  once, while other clients change the keys of other components and time passes. \<open>holders\<close> are the wrappers
  whose acquisition succeeded and whose release did not; one that has died stays among them.
\<close>

record claim_system =
  cs_db :: db
  drawn :: "(string \<times> string) set"      \<comment> \<open>agent and token of every acquisition\<close>
  holders :: "(string \<times> string) set"

datatype claim_event = Acquire_claim string string bool | Verify_session string string string | Unregister_session string string string
  | Release_claim string string | Other_keys db

inductive claim_step :: "runtime \<Rightarrow> claim_system \<Rightarrow> claim_event \<Rightarrow> claim_system \<Rightarrow> bool" for E where
  acquire: "token \<notin> snd ` drawn s \<Longrightarrow> acquire_claim_script E a token fresh (cs_db s) = (r, d') \<Longrightarrow>
    claim_step E s (Acquire_claim a token fresh)
      (s\<lparr>cs_db := d', drawn := insert (a, token) (drawn s), holders := (if r = Inr 1 then insert (a, token) (holders s) else holders s)\<rparr>)"
| verify: "(a, token) \<in> drawn s \<Longrightarrow> verify_session_script E a token sid (cs_db s) = (r, d') \<Longrightarrow>
    claim_step E s (Verify_session a token sid) (s\<lparr>cs_db := d'\<rparr>)"
| unregister: "(a, token) \<in> drawn s \<Longrightarrow> unregister_exclusive_script E a token sid (cs_db s) = (r, d') \<Longrightarrow>
    claim_step E s (Unregister_session a token sid) (s\<lparr>cs_db := d'\<rparr>)"
| release: "(a, token) \<in> drawn s \<Longrightarrow> release_claim_script E a token (cs_db s) = (r, d') \<Longrightarrow>
    claim_step E s (Release_claim a token) (s\<lparr>cs_db := d', holders := (if r = Inr 1 then holders s - {(a, token)} else holders s)\<rparr>)"
| other: "clock (cs_db s) \<le> clock d' \<Longrightarrow>
    (\<And>a. entries d' (wrapperClaim_key E a) = entries (cs_db s) (wrapperClaim_key E a) \<and> expiry d' (wrapperClaim_key E a) = expiry (cs_db s) (wrapperClaim_key E a)) \<Longrightarrow>
    claim_step E s (Other_keys d') (s\<lparr>cs_db := d'\<rparr>)"

inductive_cases claim_stepE: "claim_step E s e t"

definition claim_init :: "runtime \<Rightarrow> claim_system \<Rightarrow> bool" where
  "claim_init E s \<longleftrightarrow> drawn s = {} \<and> holders s = {}"

definition claim_owned :: "runtime \<Rightarrow> db \<Rightarrow> string \<times> string \<Rightarrow> bool" where
  "claim_owned E d = (\<lambda>(a, t). entries d (wrapperClaim_key E a) = Some (RString t) \<and> expiry d (wrapperClaim_key E a) = None)"

definition exclusive :: "runtime \<Rightarrow> claim_system \<Rightarrow> bool" where
  "exclusive E s \<longleftrightarrow> holders s \<subseteq> drawn s \<and> inj_on snd (drawn s) \<and> (\<forall>h \<in> holders s. claim_owned E (cs_db s) h)"

lemma owned_live: "claim_owned E d (a, t) \<Longrightarrow> live d (wrapperClaim_key E a) = Some (RString t)"
  by (simp add: claim_owned_def live_def)

lemma owned_untouched: "claim_owned E d (a, t) \<Longrightarrow> untouched (wrapperClaim_key E a) d d' \<Longrightarrow> claim_owned E d' (a, t)"
  by (simp add: claim_owned_def untouched_def)

lemma leaves_acquire: "wrapperClaim_key E b \<noteq> wrapperClaim_key E a \<Longrightarrow> leaves (wrapperClaim_key E b) (acquire_claim_script E a t fresh)"
  unfolding acquire_claim_script_def SET_NX_def by (auto intro!: leaves_intros leaves_any_leased)

lemma leaves_unregister: "leaves (wrapperClaim_key E b) (unregister_exclusive_script E a t sid)"
  by (auto simp: unregister_exclusive_script_def intro!: leaves_intros leaves_sole leaves_purge claim_keys_apart)

lemma leaves_verify: "leaves k (verify_session_script E a t sid)"
  by (auto simp: verify_session_script_def intro!: leaves_intros leaves_sole)

lemma acquire_held: "live d (wrapperClaim_key E a) \<noteq> None \<Longrightarrow> acquire_claim_script E a t fresh d = (Inr 0, d)"
  by (simp add: acquire_claim_script_def run_simps)

lemma any_leased_reads: "any_leased sids d = (r, d') \<Longrightarrow> d' = d"
  by (induction sids) (auto simp: EXISTS_def getM_run ret_run elim!: bindM_cases split: if_splits)

lemma acquire_takes:
  "acquire_claim_script E a t fresh d = (Inr 1, d') \<Longrightarrow> live d (wrapperClaim_key E a) = None \<and> d' = upd (wrapperClaim_key E a) (Some (RString t)) NoTtl d"
  unfolding acquire_claim_script_def SET_NX_def
  by (auto simp: command_defs on_type_def getM_run ret_run modifyM_run dest!: any_leased_reads elim!: bindM_cases thenM_cases split: if_splits)

lemma release_owner:
  assumes "live d (wrapperClaim_key E a) = Some (RString t)"
  shows "release_claim_script E a u d = (if u = t then (Inr 1, upd (wrapperClaim_key E a) None NoTtl d) else (Inr 0, d))"
  using assms by (simp add: release_claim_script_def command_defs on_type_def holds_def bindM_def thenM_def run_simps)

lemma leaves_release: "wrapperClaim_key E b \<noteq> wrapperClaim_key E a \<Longrightarrow> leaves (wrapperClaim_key E b) (release_claim_script E a t)"
  by (auto simp: release_claim_script_def intro!: leaves_intros)

lemma exclusive_acquire:
  assumes inv: "exclusive E s" and new: "token \<notin> snd ` drawn s" and run: "acquire_claim_script E a token fresh (cs_db s) = (r, d')"
  shows "exclusive E (s\<lparr>cs_db := d', drawn := insert (a, token) (drawn s), holders := (if r = Inr 1 then insert (a, token) (holders s) else holders s)\<rparr>)"
proof -
  have old: "claim_owned E d' h" if h: "h \<in> holders s" for h
  proof -
    obtain b u where bu: "h = (b, u)" by (cases h)
    from inv h bu have own: "claim_owned E (cs_db s) (b, u)" by (simp add: exclusive_def)
    show ?thesis
    proof (cases "wrapperClaim_key E b = wrapperClaim_key E a")
      case True
      with own acquire_held[of "cs_db s" E a token fresh] owned_live[OF own] run bu show ?thesis by simp
    next
      case False
      with own relatesD[OF leaves_acquire[OF False] run] bu show ?thesis by (simp add: owned_untouched)
    qed
  qed
  moreover have "claim_owned E d' (a, token)" if "r = Inr 1"
    using acquire_takes[of E a token fresh "cs_db s" d'] run that by (simp add: claim_owned_def upd_def)
  ultimately show ?thesis using inv new by (auto simp: exclusive_def inj_on_def image_iff)
qed

lemma exclusive_release:
  assumes inv: "exclusive E s" and dr: "(a, t) \<in> drawn s" and run: "release_claim_script E a t (cs_db s) = (r, d')"
  shows "exclusive E (s\<lparr>cs_db := d', holders := (if r = Inr 1 then holders s - {(a, t)} else holders s)\<rparr>)"
proof -
  have "claim_owned E d' (b, u) \<or> (r = Inr 1 \<and> (b, u) = (a, t))" if h: "(b, u) \<in> holders s" for b u
  proof (cases "wrapperClaim_key E b = wrapperClaim_key E a")
    case False
    from inv h have "claim_owned E (cs_db s) (b, u)" by (auto simp: exclusive_def)
    with relatesD[OF leaves_release[OF False] run] show ?thesis by (simp add: owned_untouched)
  next
    case True
    from inv h have own: "claim_owned E (cs_db s) (b, u)" by (auto simp: exclusive_def)
    from inv h have "(b, u) \<in> drawn s" "inj_on snd (drawn s)" by (auto simp: exclusive_def)
    with dr have "t = u \<longrightarrow> a = b" by (metis inj_onD prod.inject snd_conv)
    moreover from owned_live[OF own] have "live (cs_db s) (wrapperClaim_key E a) = Some (RString u)" unfolding True .
    from release_owner[OF this, of t] run own have "u = t \<and> r = Inr 1 \<or> claim_owned E d' (b, u)" by (auto split: if_splits)
    ultimately show ?thesis by blast
  qed
  then show ?thesis using inv by (auto simp: exclusive_def)
qed

interpretation wrapper_claims: invariant_system "claim_init E" "claim_step E" "exclusive E" for E
proof unfold_locales
  show "exclusive E s" if "claim_init E s" for s using that by (simp add: claim_init_def exclusive_def)
  show "exclusive E t" if inv: "exclusive E s" and st: "claim_step E s e t" for s e t
    using st
  proof (cases rule: claim_step.cases)
    case (acquire token a fresh r d')
    with exclusive_acquire[OF inv] show ?thesis by simp
  next
    case (verify a token sid r d')
    with inv relatesD[OF leaves_verify verify(4)] show ?thesis by (auto simp: exclusive_def intro: owned_untouched)
  next
    case (unregister a token sid r d')
    with inv relatesD[OF leaves_unregister unregister(4)] show ?thesis by (auto simp: exclusive_def intro: owned_untouched)
  next
    case (release a token r d')
    with exclusive_release[OF inv] show ?thesis by simp
  next
    case (other d')
    with inv show ?thesis by (auto simp: exclusive_def claim_owned_def)
  qed
qed

text \<open>
  A wrapper that holds a name excludes every other (C15). In every state that acquisitions, verifications,
  retirements and releases reach under any interleaving, with the keys of other components changing and time
  passing, the claim key of a held name carries the token of its holder. Whoever acquired or tried to acquire
  the name under another token is no holder, cannot verify a session, cannot retire the name, cannot release
  the claim, and a new acquisition is refused; none of these attempts changes anything.
\<close>

theorem wrapper_exclusive:
  assumes "reach (claim_init E) (claim_step E) s" and "(a, t) \<in> holders s" and "u \<noteq> t"
  shows "str_at (cs_db s) (wrapperClaim_key E a) = Some t \<and> (a, u) \<notin> holders s
    \<and> acquire_claim_script E a u fresh (cs_db s) = (Inr 0, cs_db s)
    \<and> verify_session_script E a u sid (cs_db s) = (Inr 0, cs_db s)
    \<and> unregister_exclusive_script E a u sid (cs_db s) = (Inr 0, cs_db s)
    \<and> release_claim_script E a u (cs_db s) = (Inr 0, cs_db s)"
proof -
  note inv = wrapper_claims.reach_inv[OF assms(1)]
  with assms(2) have own: "claim_owned E (cs_db s) (a, t)" by (auto simp: exclusive_def)
  note l = owned_live[OF own]
  have "(a, u) \<notin> holders s" using inv own assms(3) by (auto simp: exclusive_def claim_owned_def)
  with l assms(3) show ?thesis
    by (simp add: acquire_held release_owner verify_session_script_def unregister_exclusive_script_def GET_def on_type_def holds_def bindM_def getM_run ret_run)
qed

theorem wrapper_exclusive_witness:
  "\<exists>s. reach (claim_init std_env) (claim_step std_env) s \<and> (''bob'', ''t1'') \<in> holders s \<and> str_at (cs_db s) (wrapperClaim_key std_env ''bob'') = Some ''t1''
     \<and> unregister_exclusive_script std_env ''bob'' ''t2'' ''s2'' (cs_db s) = (Inr 0, cs_db s)"
proof -
  let ?init = "\<lparr>cs_db = empty_db, drawn = {}, holders = {}\<rparr>"
  let ?d = "upd (wrapperClaim_key std_env ''bob'') (Some (RString ''t1'')) NoTtl empty_db"
  let ?s = "?init\<lparr>cs_db := ?d, drawn := {(''bob'', ''t1'')}, holders := {(''bob'', ''t1'')}\<rparr>"
  have "acquire_claim_script std_env ''bob'' ''t1'' True (cs_db ?init) = (Inr 1, ?d)"
    by (simp add: acquire_claim_script_def SET_NX_def run_simps)
  from claim_step.acquire[OF _ this] have "claim_step std_env ?init (Acquire_claim ''bob'' ''t1'' True) ?s" by simp
  moreover have "reach (claim_init std_env) (claim_step std_env) ?init" by (rule reach_init) (simp add: claim_init_def)
  ultimately have reach: "reach (claim_init std_env) (claim_step std_env) ?s" by (rule reach_step[rotated])
  moreover have h: "(''bob'', ''t1'') \<in> holders ?s" by simp
  ultimately show ?thesis using wrapper_exclusive[OF reach h, of "''t2''"] by blast
qed

section \<open>Retiring a name\<close>

definition only_session :: "db \<Rightarrow> string \<Rightarrow> string \<Rightarrow> bool" where
  "only_session d a sid \<longleftrightarrow> length (set_at d (agentSessions_key a)) = 1 \<and> sid \<in> set (set_at d (agentSessions_key a))"

lemma sole_session_run: "holds d (agentSessions_key a) TSet \<Longrightarrow> sole_member a sid d = (Inr (only_session d a sid), d)"
  by (simp add: sole_member_def only_session_def run_simps)

text \<open>With the claim, its session and no other session of the name, the script is the retirement of the client.\<close>

lemma exclusive_is_unregister:
  assumes "str_at d (wrapperClaim_key E a) = Some t" and "holds d (session_key sid) THash" and "map_of (hash_at d (session_key sid)) ''agent_name'' = Some a"
    and "holds d (agentSessions_key a) TSet" and "only_session d a sid" and "sid \<noteq> []"
    and "unregister_script E a sid d = (Inr n, d')"
  shows "unregister_exclusive_script E a t sid d = (Inr 1, d')"
proof -
  have k: "holds d (wrapperClaim_key E a) TString" using assms(1) by (cases "live d (wrapperClaim_key E a)" rule: as_str.cases) (auto simp: holds_def)
  show ?thesis
    using assms(7) assms(1-6) k sole_session_run[OF assms(4), of sid]
    by (auto simp: unregister_exclusive_script_def unregister_script_def GET_def HGET_def on_type_def getM_run ret_run bindM_def thenM_def split: prod.splits sum.splits)
qed

lemma shared_session_closed:
  assumes "str_at d (wrapperClaim_key E a) = Some t" and "holds d (session_key sid) THash" and "map_of (hash_at d (session_key sid)) ''agent_name'' = Some a"
    and "holds d (agentSessions_key a) TSet" and "\<not> only_session d a sid"
  shows "unregister_exclusive_script E a t sid d =
    (Inr 2, put_set (agentSessions_key a) (removeAll sid (set_at d (agentSessions_key a))) (upd (lease_key sid) None NoTtl (upd (session_key sid) None NoTtl d)))"
proof -
  have k: "holds d (wrapperClaim_key E a) TString" using assms(1) by (cases "live d (wrapperClaim_key E a)" rule: as_str.cases) (auto simp: holds_def)
  show ?thesis
    using assms k sole_session_run[OF assms(4), of sid]
    by (simp add: unregister_exclusive_script_def command_defs on_type_def getM_run ret_run modifyM_run bindM_def thenM_def view_simps key_simps)
qed

text \<open>
  A wrapper retires a name only when it alone uses it. Retiring is decided in one step. With the wrapper's
  token under the claim and a session of the name: when the session is the only one, everything kept under
  the name is gone, its registration, mailbox, claims, dead letters and streams, while every other agent keeps
  its tasks; when another session is listed, only the wrapper's session, its lease and its listing go, and the
  registration and the tasks of every agent stay. Without the token, or with a session of another agent,
  nothing changes. The claim itself stays in every case.
\<close>

lemma exclusive_unregister:
  assumes "js_runtime E" and "claims_ok E d" and "holds d registry_key THash" and "holds d (agentSessions_key a) TSet"
    and "holds d (session_key sid) THash" and "holds d (wrapperClaim_key E a) TString" and "sid \<noteq> []"
    and "unregister_exclusive_script E a t sid d = (res, d')"
  shows "live d' (wrapperClaim_key E a) = live d (wrapperClaim_key E a) \<and> (\<forall>b. b \<noteq> a \<longrightarrow> held E d' b = held E d b)
    \<and> (if str_at d (wrapperClaim_key E a) \<noteq> Some t then res = Inr 0 \<and> d' = d
       else if map_of (hash_at d (session_key sid)) ''agent_name'' \<noteq> Some a then res = Inr (- 1) \<and> d' = d
       else live d' (session_key sid) = None \<and> live d' (lease_key sid) = None \<and> sid \<notin> set (set_at d' (agentSessions_key a))
         \<and> (if only_session d a sid
            then res = Inr 1 \<and> registered d' = (registered d)(a := None) \<and> held E d' a = {#}
              \<and> (\<forall>k \<in> {queue_key a, mailboxMeta_key a, heartbeat_key a, claimsIndex_key a, dlq_key a, inboxEvents_key a, inboxTrace_key a}. live d' k = None)
            else res = Inr 2 \<and> registered d' = registered d \<and> held E d' a = held E d a))"
proof -
  have claim: "live d' (wrapperClaim_key E a) = live d (wrapperClaim_key E a)"
    using relatesD[OF leaves_unregister assms(8)] by (rule untouched_live)
  consider (lost) "str_at d (wrapperClaim_key E a) \<noteq> Some t"
    | (foreign) "str_at d (wrapperClaim_key E a) = Some t" "map_of (hash_at d (session_key sid)) ''agent_name'' \<noteq> Some a"
    | (sole) "str_at d (wrapperClaim_key E a) = Some t" "map_of (hash_at d (session_key sid)) ''agent_name'' = Some a" "only_session d a sid"
    | (shared) "str_at d (wrapperClaim_key E a) = Some t" "map_of (hash_at d (session_key sid)) ''agent_name'' = Some a" "\<not> only_session d a sid"
    by blast
  then show ?thesis
  proof cases
    case lost
    with assms(6,8) have "res = Inr 0" "d' = d" by (auto simp: unregister_exclusive_script_def GET_def on_type_def bindM_def getM_run ret_run)
    with lost show ?thesis by simp
  next
    case foreign
    with assms(5,6,8) have "res = Inr (- 1)" "d' = d"
      by (auto simp: unregister_exclusive_script_def GET_def HGET_def on_type_def bindM_def getM_run ret_run)
    with foreign show ?thesis by simp
  next
    case sole
    obtain x d1 where run: "unregister_script E a sid d = (x, d1)" by fastforce
    note eff = unregister_effect[OF assms(1-4) run]
    with run have run': "unregister_script E a sid d = (Inr (length (zset_at d (claimsIndex_key a))), d1)" by simp
    from exclusive_is_unregister[OF sole(1) assms(5) sole(2) assms(4) sole(3) assms(7) run'] assms(8) have "res = Inr 1" "d' = d1" by auto
    with eff claim sole assms(7) show ?thesis by simp
  next
    case shared
    from shared_session_closed[OF shared(1) assms(5) shared(2) assms(4) shared(3)] assms(8)
    have r: "res = Inr 2" and d': "d' = put_set (agentSessions_key a) (removeAll sid (set_at d (agentSessions_key a))) (upd (lease_key sid) None NoTtl (upd (session_key sid) None NoTtl d))"
      by auto
    have "frame {session_key sid, lease_key sid, agentSessions_key a} d d'" unfolding d' by (simp add: frame_def view_simps)
    then have "held E d' b = held E d b" for b by (rule held_frame) (simp_all add: key_simps)
    moreover have "registered d' = registered d" unfolding d' by (simp add: view_simps key_simps)
    moreover have "live d' (session_key sid) = None" "live d' (lease_key sid) = None" "sid \<notin> set (set_at d' (agentSessions_key a))"
      unfolding d' by (auto simp: view_simps key_simps)
    ultimately show ?thesis using shared r claim by simp
  qed
qed

definition wrapper_demo_db :: db where
  "wrapper_demo_db = upd (wrapperClaim_key std_env ''bob'') (Some (RString ''t1'')) NoTtl
     (put_hash (session_key ''s1'') [(''agent_name'', ''bob'')] (put_set (agentSessions_key ''bob'') [''s1''] claims_demo_db))"

end
