(* ===== verification/Actor_Presence.thy ===== *)
theory Actor_Presence
  imports Json_Text
begin

text \<open>
  Durable actor profiles and presence, \<open>src/src/core/actor-presence.ts\<close>. The candidate of an admission is
  any JSON value, because the directory admits stored records it cannot trust; its members are read the
  way JavaScript reads them, so a missing member throws and a value that is not a string is tested
  through its text. An admitted profile is the frozen object itself, a finite map of members.
\<close>

section \<open>Data\<close>

datatype ActivationPolicyMode = Wake_if_offline | Store_only

type_synonym DurableActorProfile = "(string, json) fmap"

datatype workload = Processing | Idle_workload

record RuntimeIncarnation =
  inc_incarnation_id :: string
  inc_session_id :: "string option"
  inc_started_at :: "string option"
  inc_lease_id :: "string option"
  inc_workload :: workload

datatype LaunchContractReadiness = Runnable | Not_runnable

record PresenceInput =
  pi_actor :: "DurableActorProfile option"
  pi_launch_contract :: LaunchContractReadiness
  pi_runtime :: "RuntimeIncarnation option"
  pi_wake_lease_id :: "string option"

datatype RuntimePresenceState = Active | Idle | Starting | Offline_launchable | Offline_store_only | Unavailable

datatype ProfileError = invalid_identity | invalid_identity_charset | invalid_policy | invalid_concurrency

datatype Situation = Runtime_leased workload | Wake_lease_outstanding | Offline LaunchContractReadiness ActivationPolicyMode

section \<open>Reading profiles\<close>

definition isActivationPolicyMode :: "json option \<Rightarrow> ActivationPolicyMode option" where
  "isActivationPolicyMode v =
     (case v of
        Some (JStr s) \<Rightarrow> if s = ''wake_if_offline'' then Some Wake_if_offline else if s = ''store_only'' then Some Store_only else None
      | _ \<Rightarrow> None)"

text \<open>\<open>profile.activation_policy.mode\<close> of an admitted profile\<close>

definition profile_mode :: "DurableActorProfile \<Rightarrow> ActivationPolicyMode" where
  "profile_mode p = the (isActivationPolicyMode (Option.bind (fmlookup p ''activation_policy'') (\<lambda>a. jget a ''mode'')))"

definition profile_actor_id :: "DurableActorProfile \<Rightarrow> json" where
  "profile_actor_id p = the (fmlookup p ''actor_id'')"

section \<open>Presence\<close>

fun classifySituation :: "Situation \<Rightarrow> RuntimePresenceState" where
  "classifySituation (Runtime_leased load) = (if load = Processing then Active else Idle)"
| "classifySituation Wake_lease_outstanding = Starting"
| "classifySituation (Offline Not_runnable policy) = Unavailable"
| "classifySituation (Offline Runnable Store_only) = Offline_store_only"
| "classifySituation (Offline Runnable Wake_if_offline) = Offline_launchable"

definition resolveSituation :: "PresenceInput \<Rightarrow> DurableActorProfile \<Rightarrow> Situation" where
  "resolveSituation input actor =
     (case Option.bind (pi_runtime input) (\<lambda>r. map_option (\<lambda>_. inc_workload r) (inc_lease_id r)) of
        Some load \<Rightarrow> Runtime_leased load
      | None \<Rightarrow>
          if pi_wake_lease_id input \<noteq> None then Wake_lease_outstanding
          else Offline (pi_launch_contract input) (profile_mode actor))"

text \<open>\<open>None\<close> is the error \<open>unknown_recipient\<close>.\<close>

definition classifyPresence :: "PresenceInput \<Rightarrow> (json \<times> RuntimePresenceState) option" where
  "classifyPresence input =
     (case pi_actor input of
        None \<Rightarrow> None
      | Some actor \<Rightarrow> Some (profile_actor_id actor, classifySituation (resolveSituation input actor)))"

section \<open>Admission\<close>

text \<open>
  The text JavaScript gives a value where it needs a string; \<open>None\<close> when that throws, which an object with
  a member \<open>toString\<close> makes it do. An array joins its elements with commas, null elements as nothing.
\<close>

fun js_text :: "runtime \<Rightarrow> json \<Rightarrow> string option" and js_elements :: "runtime \<Rightarrow> json list \<Rightarrow> string list option" where
  "js_text E (JStr s) = Some s"
| "js_text E (JNum n) = Some (number_text E n)"
| "js_text E (JBool b) = Some (if b then ''true'' else ''false'')"
| "js_text E JNull = Some ''null''"
| "js_text E (JArr xs) = map_option (\<lambda>ts. if ts = [] then [] else concat (hd ts # map ((#) (CHR '','')) (tl ts))) (js_elements E xs)"
| "js_text E (JObj m) = (if fmlookup m ''toString'' = None then Some ''[object Object]'' else None)"
| "js_elements E [] = Some []"
| "js_elements E (x # xs) =
     (case ((if x = JNull then Some [] else js_text E x), js_elements E xs) of (Some t, Some ts) \<Rightarrow> Some (t # ts) | _ \<Rightarrow> None)"

text \<open>\<open>v.length === 0\<close>; reading a member of undefined or null throws.\<close>

fun length_is_zero :: "json option \<Rightarrow> exn + bool" where
  "length_is_zero None = Inl (JsError ''TypeError'')"
| "length_is_zero (Some JNull) = Inl (JsError ''TypeError'')"
| "length_is_zero (Some (JStr s)) = Inr (s = [])"
| "length_is_zero (Some (JArr xs)) = Inr (xs = [])"
| "length_is_zero (Some (JObj m)) = Inr (fmlookup m ''length'' = Some (JNum (JInt 0)))"
| "length_is_zero (Some (JNum n)) = Inr False"
| "length_is_zero (Some (JBool b)) = Inr False"

definition identity_char :: "char \<Rightarrow> bool" where
  "identity_char c \<longleftrightarrow> is_digit c \<or> c \<in> set ''._-'' \<or> 65 \<le> (of_char c :: nat) \<and> (of_char c :: nat) \<le> 90 \<or> 97 \<le> (of_char c :: nat) \<and> (of_char c :: nat) \<le> 122"

text \<open>\<open>/^[A-Za-z0-9._-]{1,64}$/\<close>\<close>

definition IDENTITY_CHARSET :: "string \<Rightarrow> bool" where
  "IDENTITY_CHARSET s \<longleftrightarrow> 1 \<le> length s \<and> length s \<le> 64 \<and> list_all identity_char s"

definition charset_test :: "runtime \<Rightarrow> json \<Rightarrow> exn + bool" where
  "charset_test E v = (case js_text E v of None \<Rightarrow> Inl (JsError ''TypeError'') | Some s \<Rightarrow> Inr (IDENTITY_CHARSET s))"

text \<open>\<open>[...v]\<close>\<close>

fun spread :: "json option \<Rightarrow> exn + json list" where
  "spread (Some (JArr xs)) = Inr xs"
| "spread (Some (JStr s)) = Inr (map (\<lambda>c. JStr [c]) s)"
| "spread _ = Inl (JsError ''TypeError'')"

definition sum_bind :: "'e + 'a \<Rightarrow> ('a \<Rightarrow> 'e + 'b) \<Rightarrow> 'e + 'b" where
  "sum_bind m f = (case m of Inl e \<Rightarrow> Inl e | Inr a \<Rightarrow> f a)"

definition admitActorProfile :: "runtime \<Rightarrow> json \<Rightarrow> exn + (ProfileError + DurableActorProfile)" where
  "admitActorProfile E candidate =
     (let actor_id = jget candidate ''actor_id''; alias = jget candidate ''alias'' in
      sum_bind (length_is_zero actor_id) (\<lambda>empty.
      if empty then Inr (Inl invalid_identity)
      else sum_bind (length_is_zero alias) (\<lambda>empty.
      if empty then Inr (Inl invalid_identity)
      else sum_bind (charset_test E (the actor_id)) (\<lambda>ok.
      if \<not> ok then Inr (Inl invalid_identity_charset)
      else sum_bind (charset_test E (the alias)) (\<lambda>ok.
      if \<not> ok then Inr (Inl invalid_identity_charset)
      else if isActivationPolicyMode (Option.bind (jget candidate ''activation_policy'') (\<lambda>a. jget a ''mode'')) = None then Inr (Inl invalid_policy)
      else if (case jget candidate ''max_concurrency'' of Some (JNum (JInt n)) \<Rightarrow> n < 1 | _ \<Rightarrow> True) then Inr (Inl invalid_concurrency)
      else sum_bind (spread (jget candidate ''capabilities'')) (\<lambda>capabilities.
      (case candidate of
         JObj members \<Rightarrow> Inr (Inr (fmupd ''capabilities'' (JArr capabilities) members))
       | _ \<Rightarrow> Inl (JsError ''TypeError''))))))))"

section \<open>What admission guarantees\<close>

definition wf_profile :: "runtime \<Rightarrow> DurableActorProfile \<Rightarrow> bool" where
  "wf_profile E p \<longleftrightarrow>
     (\<forall>k \<in> {''actor_id'', ''alias''}. \<exists>v s. fmlookup p k = Some v \<and> js_text E v = Some s \<and> IDENTITY_CHARSET s)
     \<and> isActivationPolicyMode (Option.bind (fmlookup p ''activation_policy'') (\<lambda>a. jget a ''mode'')) \<noteq> None
     \<and> (\<exists>n. fmlookup p ''max_concurrency'' = Some (JNum (JInt n)) \<and> 1 \<le> n)
     \<and> (\<exists>xs. fmlookup p ''capabilities'' = Some (JArr xs))"

lemma sum_bind_Inr: "sum_bind m f = Inr b \<longleftrightarrow> (\<exists>a. m = Inr a \<and> f a = Inr b)"
  by (cases m) (auto simp: sum_bind_def)

lemma length_False: "length_is_zero v = Inr b \<Longrightarrow> v \<noteq> None"
  by (cases v) auto

lemma admitted_profile:
  assumes "admitActorProfile E j = Inr (Inr p)"
  shows "wf_profile E p \<and> admitActorProfile E (JObj p) = Inr (Inr p)
    \<and> (\<forall>k. k \<noteq> ''capabilities'' \<longrightarrow> fmlookup p k = jget j k)"
proof -
  have "\<exists>m. j = JObj m" using assms by (cases j) (simp_all add: admitActorProfile_def sum_bind_def)
  then obtain m where j: "j = JObj m" ..
  from assms have "fmlookup m ''actor_id'' \<noteq> None" "fmlookup m ''alias'' \<noteq> None"
    unfolding j by (auto simp: admitActorProfile_def Let_def sum_bind_Inr split: if_splits dest!: length_False)
  then obtain a l where al: "fmlookup m ''actor_id'' = Some a" "fmlookup m ''alias'' = Some l" by blast
  from assms al obtain caps n where
      p: "p = fmupd ''capabilities'' (JArr caps) m"
    and a: "length_is_zero (Some a) = Inr False" "charset_test E a = Inr True"
    and l: "length_is_zero (Some l) = Inr False" "charset_test E l = Inr True"
    and pol: "isActivationPolicyMode (Option.bind (fmlookup m ''activation_policy'') (\<lambda>a. jget a ''mode'')) \<noteq> None"
    and n: "fmlookup m ''max_concurrency'' = Some (JNum (JInt n))" "1 \<le> n"
    unfolding j by (auto simp: admitActorProfile_def Let_def sum_bind_Inr split: if_splits json.splits option.splits js_number.splits)
  have "wf_profile E p"
    using al a l pol n unfolding wf_profile_def p by (auto simp: charset_test_def split: option.splits)
  moreover have "admitActorProfile E (JObj p) = Inr (Inr p)"
    using al a l pol n unfolding p by (simp add: admitActorProfile_def Let_def sum_bind_def)
  ultimately show ?thesis by (simp add: j p)
qed

text \<open>
  (C25) Every profile admission returns has identities whose text is 1 to 64 letters, digits, dots,
  underscores or hyphens, one of the two activation modes, an integral concurrency of at least one and
  an array of capabilities; all its other members are the candidate's, and admitting it again returns it.
\<close>

theorem admitted_profile_typed:
  assumes "admitActorProfile E j = Inr (Inr p)"
  shows "wf_profile E p \<and> admitActorProfile E (JObj p) = Inr (Inr p)
    \<and> (\<forall>k. k \<noteq> ''capabilities'' \<longrightarrow> fmlookup p k = jget j k)"
  by (rule admitted_profile[OF assms])

text \<open>\<open>bob\<close>, a profile that waits for mail.\<close>

definition demo_profile :: "json \<Rightarrow> DurableActorProfile" where
  "demo_profile actor_id = fmap_of_list [(''actor_id'', actor_id), (''alias'', JStr ''bob''), (''capabilities'', JArr []),
     (''activation_policy'', obj [(''mode'', JStr ''store_only'')]), (''max_concurrency'', JNum (JInt 1))]"

lemma demo_profile_admitted:
  assumes "js_text E v = Some s" and "IDENTITY_CHARSET s" and "length_is_zero (Some v) = Inr False"
  shows "admitActorProfile E (JObj (demo_profile v)) = Inr (Inr (demo_profile v))"
proof -
  have "IDENTITY_CHARSET ''bob''" by (simp add: IDENTITY_CHARSET_def identity_char_def)
  moreover have "fmupd ''capabilities'' (JArr []) (demo_profile v) = demo_profile v"
    by (rule fmap_ext) (auto simp: demo_profile_def fmlookup_of_list)
  ultimately show ?thesis
    using assms by (simp add: admitActorProfile_def Let_def sum_bind_def charset_test_def isActivationPolicyMode_def demo_profile_def fmlookup_of_list)
qed

theorem admitted_profile_typed_witness: "wf_profile std_env (demo_profile (JStr ''bob''))"
proof -
  have "admitActorProfile std_env (JObj (demo_profile (JStr ''bob''))) = Inr (Inr (demo_profile (JStr ''bob'')))"
    by (rule demo_profile_admitted[of _ _ "''bob''"]) (simp_all add: IDENTITY_CHARSET_def identity_char_def)
  from admitted_profile_typed[OF this] show ?thesis by blast
qed

text \<open>
  Admission tests the text of an identity, not its type: the number 42, and an array that holds the
  one name, are admitted as actor ids.
\<close>

lemma admission_ignores_id_type:
  assumes "js_runtime E" and "v = JNum (JInt 42) \<or> v = JArr [JStr ''bob'']"
  shows "\<exists>p. admitActorProfile E (JObj (demo_profile v)) = Inr (Inr p) \<and> \<not> is_JStr (profile_actor_id p)"
proof -
  have d: "digit 4 = CHR ''4''" "digit 2 = CHR ''2''"
    by (simp_all only: of_char_eq_iff[symmetric, where ?'a = nat]) simp_all
  have "number_text E (JInt 42) = ''42''"
    using js_runtime.number_text_int[OF assms(1), of 42] d by (simp add: show_int_def show_nat.simps)
  moreover have "IDENTITY_CHARSET ''42''" "IDENTITY_CHARSET ''bob''" by (simp_all add: IDENTITY_CHARSET_def identity_char_def is_digit_def)
  ultimately have "\<exists>s. js_text E v = Some s \<and> IDENTITY_CHARSET s \<and> length_is_zero (Some v) = Inr False"
    using assms(2) by auto
  then have "admitActorProfile E (JObj (demo_profile v)) = Inr (Inr (demo_profile v))" using demo_profile_admitted by blast
  with assms(2) show ?thesis by (auto simp: profile_actor_id_def demo_profile_def fmlookup_of_list)
qed

section \<open>The decision table\<close>

text \<open>
  Presence is decided by the first that applies: a leased runtime makes an actor active or idle, an
  outstanding wake lease makes it starting, a launch contract that cannot run makes it unavailable, and
  otherwise its own policy says whether it can be woken. A recipient that is no registered actor is
  rejected, and an observed runtime without a lease counts for nothing.
\<close>

lemma presence_decision_table:
  "classifyPresence input =
     (case pi_actor input of
        None \<Rightarrow> None
      | Some actor \<Rightarrow> Some (profile_actor_id actor,
          if \<exists>r. pi_runtime input = Some r \<and> inc_lease_id r \<noteq> None
          then (if inc_workload (the (pi_runtime input)) = Processing then Active else Idle)
          else if pi_wake_lease_id input \<noteq> None then Starting
          else if pi_launch_contract input = Not_runnable then Unavailable
          else if profile_mode actor = Store_only then Offline_store_only else Offline_launchable))"
proof (cases "pi_actor input")
  case (Some actor)
  have leased: "Option.bind (pi_runtime input) (\<lambda>r. map_option (\<lambda>_. inc_workload r) (inc_lease_id r)) =
      (if \<exists>r. pi_runtime input = Some r \<and> inc_lease_id r \<noteq> None then Some (inc_workload (the (pi_runtime input))) else None)"
    by (cases "pi_runtime input") (auto split: option.splits)
  have "classifySituation (Offline c m) = (if c = Not_runnable then Unavailable else if m = Store_only then Offline_store_only else Offline_launchable)" for c m
    by (cases c; cases m) simp_all
  with Some show ?thesis by (simp add: classifyPresence_def resolveSituation_def leased)
qed (simp add: classifyPresence_def)

end
