(* ===== verification/Activation.thy ===== *)
theory Activation
  imports Task_Claims Session_Store Untouched Actor_Presence
begin

text \<open>
  Notifying a bound runtime of its inbox: the inbox view and traces of \<open>src/src/core/inbox-events.ts\<close>, the
  durable activation record of \<open>src/src/registered-shell/activation-store.ts\<close>, the identities of
  \<open>registered-shell/runtime.ts\<close> and the dispatcher of \<open>registered-shell/inbox-dispatcher.ts\<close>.

  The runtime behind the adapter is a parameter: what it answers to an activation, and whether the dispatcher
  was told to stop meanwhile. The world adds what the dispatcher closes over and a log of the activations it
  submitted, each with the number of atomic steps taken before it. Instants are parameters. An attempt that
  is not an integer, which the code never writes, reads as no record.
\<close>

section \<open>Inbox events\<close>

text \<open>A member that JavaScript counts as true.\<close>

fun js_truthy :: "json option \<Rightarrow> bool" where
  "js_truthy None = False"
| "js_truthy (Some JNull) = False"
| "js_truthy (Some (JBool b)) = b"
| "js_truthy (Some (JNum n)) = (n \<noteq> JInt 0)"
| "js_truthy (Some (JStr s)) = (s \<noteq> [])"
| "js_truthy (Some _) = True"

definition in_reply_to_of :: "json \<Rightarrow> json option" where
  "in_reply_to_of m = Option.bind (jget m ''payload'') (\<lambda>p. jget p ''in_reply_to'')"

definition awaitsOutstanding :: "json \<Rightarrow> bool" where
  "awaitsOutstanding m \<longleftrightarrow> (jget m ''type'' = Some (JStr ''result'') \<or> jget m ''type'' = Some (JStr ''error'')) \<and> js_truthy (in_reply_to_of m)"

definition pending_candidate :: "runtime \<Rightarrow> string \<Rightarrow> string \<Rightarrow> json option" where
  "pending_candidate E agent value =
     (case JSON_parse E value of
        None \<Rightarrow> None
      | Some m \<Rightarrow>
          if jget m ''to'' \<noteq> Some (JStr agent) \<or> str_field m ''id'' = None \<or> \<not> js_truthy (jget m ''payload'') then None
          else if jget m ''type'' = Some (JStr ''task'') \<or> awaitsOutstanding m then Some m else None)"

text \<open>The key of the request a reply answers; a value whose text cannot be computed makes the call throw.\<close>

definition reply_key :: "runtime \<Rightarrow> json \<Rightarrow> ('s, string) comp" where
  "reply_key E m =
     (case (str_field m ''to'', Option.bind (in_reply_to_of m) (js_text E)) of
        (Some to, Some i) \<Rightarrow> ret (outstanding_key to i)
      | _ \<Rightarrow> throw (JsError ''TypeError''))"

text \<open>Candidates keep their order; the owners are those of the replies among them.\<close>

fun with_owners :: "json list \<Rightarrow> string option list \<Rightarrow> json list" where
  "with_owners [] owners = []"
| "with_owners (m # ms) owners =
     (if awaitsOutstanding m
      then (case owners of
              [] \<Rightarrow> with_owners ms []
            | x # xs \<Rightarrow> (if jget m ''from'' = Some (case x of None \<Rightarrow> JNull | Some s \<Rightarrow> JStr s) then [m] else []) @ with_owners ms xs)
      else m # with_owners ms owners)"

definition inbox_pending :: "runtime \<Rightarrow> string \<Rightarrow> ('z world_scheme, string list) comp" where
  "inbox_pending E agent =
     bindM (atomic (LRANGE_all (queue_key agent))) (\<lambda>raw.
     let candidates = List.map_filter (pending_candidate E agent) raw in
     bindM (mapM (reply_key E) (filter awaitsOutstanding candidates)) (\<lambda>keys.
     bindM (if keys = [] then ret [] else atomic (MGET keys)) (\<lambda>owners.
     ret (List.map_filter (\<lambda>m. str_field m ''id'') (with_owners candidates owners)))))"

datatype InboxTraceStage = Activation_requested | Activation_deferred | Turn_started | Activation_queued | Activation_failed
  | Task_claimed | Task_acknowledged | Reply_sent | Runtime_bound | Runtime_unbound

fun stage_text :: "InboxTraceStage \<Rightarrow> string" where
  "stage_text Activation_requested = ''activation_requested''"
| "stage_text Activation_deferred = ''activation_deferred''"
| "stage_text Turn_started = ''turn_started''"
| "stage_text Activation_queued = ''activation_queued''"
| "stage_text Activation_failed = ''activation_failed''"
| "stage_text Task_claimed = ''task_claimed''"
| "stage_text Task_acknowledged = ''task_acknowledged''"
| "stage_text Reply_sent = ''reply_sent''"
| "stage_text Runtime_bound = ''runtime_bound''"
| "stage_text Runtime_unbound = ''runtime_unbound''"

text \<open>A failed trace is reported on the error stream and never thrown.\<close>

definition trace_event :: "string \<Rightarrow> InboxTraceStage \<Rightarrow> string \<Rightarrow> (string \<times> string option) list \<Rightarrow> ('z world_scheme, unit) comp" where
  "trace_event agent stage timestamp extra =
     catchM (atomic (XADD (inboxTrace_key agent) ([(''stage'', stage_text stage), (''timestamp'', timestamp)]
               @ List.map_filter (\<lambda>(k, v). map_option (Pair k) v) extra)))
       (\<lambda>_. ret ())"

section \<open>The activation record\<close>

datatype ActivationState = Pending | Submitting | Accepted | Ambiguous | Exhausted

record ActivationRecord =
  ac_operation_id :: string
  ac_message_ids :: "string list"
  ac_attempt :: int
  ac_state :: ActivationState
  ac_created_at :: string

fun state_text :: "ActivationState \<Rightarrow> string" where
  "state_text Pending = ''pending''"
| "state_text Submitting = ''submitting''"
| "state_text Accepted = ''accepted''"
| "state_text Ambiguous = ''ambiguous''"
| "state_text Exhausted = ''exhausted''"

definition state_of :: "string \<Rightarrow> ActivationState option" where
  "state_of s = find (\<lambda>x. state_text x = s) [Pending, Submitting, Accepted, Ambiguous, Exhausted]"

definition activation_json :: "ActivationRecord \<Rightarrow> json" where
  "activation_json r = obj
     [(''operation_id'', JStr (ac_operation_id r)), (''message_ids'', JArr (map JStr (ac_message_ids r))), (''attempt'', JNum (JInt (ac_attempt r))),
      (''state'', JStr (state_text (ac_state r))), (''created_at'', JStr (ac_created_at r))]"

definition isActivationRecord :: "json \<Rightarrow> ActivationRecord option" where
  "isActivationRecord j =
     (case (str_field j ''operation_id'', str_field j ''created_at'', jget j ''attempt'', Option.bind (str_field j ''state'') state_of,
            Option.bind (jget j ''message_ids'') str_array) of
        (Some i, Some c, Some (JNum (JInt n)), Some st, Some ids) \<Rightarrow>
          Some \<lparr>ac_operation_id = i, ac_message_ids = ids, ac_attempt = n, ac_state = st, ac_created_at = c\<rparr>
      | _ \<Rightarrow> None)"

record RuntimeIdentity =
  id_client :: string
  id_runtime_id :: string
  id_epoch :: string
  id_working_directory :: string

definition owner_text :: "runtime \<Rightarrow> RuntimeIdentity \<Rightarrow> string \<Rightarrow> string" where
  "owner_text E b token = JSON_stringify E (obj
     [(''client'', JStr (id_client b)), (''runtime_id'', JStr (id_runtime_id b)), (''epoch'', JStr (id_epoch b)),
      (''working_directory'', JStr (id_working_directory b)), (''token'', JStr token)])"

record dispatcher_world = world +
  owner :: "string option"
  stopped :: bool
  backoff :: int
  retryAt :: int
  lastDeferred :: "(string \<times> string) option"
  activations :: "(nat \<times> string \<times> bool) list"

definition attach :: "runtime \<Rightarrow> string \<Rightarrow> RuntimeIdentity \<Rightarrow> string \<Rightarrow> ('z dispatcher_world_scheme, unit) comp" where
  "attach E agent b token =
     bindM (atomic (SET_NX (runtimeBinding_key agent) (owner_text E b token) (Ex 30))) (\<lambda>ok.
     if \<not> ok then throw (JsError ''Runtime inbox already has a live dispatcher'')
     else modifyM (\<lambda>w. w\<lparr>owner := Some (owner_text E b token)\<rparr>))"

text \<open>Every script compares the binding with the owner before it writes.\<close>

definition fenced :: "string \<Rightarrow> string \<Rightarrow> (db, unit) comp \<Rightarrow> (db, bool) comp" where
  "fenced agent me c =
     bindM (GET (runtimeBinding_key agent)) (\<lambda>current.
     if current \<noteq> Some me then ret False else thenM c (ret True))"

definition as_owner :: "string \<Rightarrow> (db, unit) comp \<Rightarrow> ('z dispatcher_world_scheme, bool) comp" where
  "as_owner agent c =
     bindM (getM owner) (\<lambda>me.
     case nonempty me of None \<Rightarrow> ret False | Some o' \<Rightarrow> atomic (fenced agent o' c))"

definition refresh_binding :: "string \<Rightarrow> ('z dispatcher_world_scheme, bool) comp" where
  "refresh_binding agent = as_owner agent (EXPIRE (runtimeBinding_key agent) 30)"

definition current_record :: "runtime \<Rightarrow> string \<Rightarrow> ('z world_scheme, ActivationRecord option) comp" where
  "current_record E agent =
     bindM (atomic (GET (activation_key agent))) (\<lambda>raw.
     ret (Option.bind (nonempty raw) (\<lambda>s. Option.bind (JSON_parse E s) isActivationRecord)))"

text \<open>The record goes to the script as text; the empty text deletes the key.\<close>

definition save_script :: "string \<Rightarrow> string \<Rightarrow> (db, unit) comp" where
  "save_script agent text =
     (if text = [] then DEL (activation_key agent) else SET (activation_key agent) text (Ex 604800))"

definition save_record :: "runtime \<Rightarrow> string \<Rightarrow> ActivationRecord option \<Rightarrow> ('z dispatcher_world_scheme, bool) comp" where
  "save_record E agent r = as_owner agent (save_script agent (case r of None \<Rightarrow> [] | Some x \<Rightarrow> JSON_stringify E (activation_json x)))"

definition detach :: "string \<Rightarrow> ('z dispatcher_world_scheme, unit) comp" where
  "detach agent =
     bindM (getM owner) (\<lambda>me.
     case nonempty me of
       None \<Rightarrow> ret ()
     | Some _ \<Rightarrow> thenM (as_owner agent (DEL (runtimeBinding_key agent))) (modifyM (\<lambda>w. w\<lparr>owner := None\<rparr>)))"

section \<open>The dispatcher\<close>

datatype ActivationOutcome = Out_started string | Out_completed string | Out_queued | Out_busy | Out_unavailable | Out_ambiguous

definition activationOperationId :: "runtime \<Rightarrow> string \<Rightarrow> RuntimeIdentity \<Rightarrow> string list \<Rightarrow> int \<Rightarrow> string" where
  "activationOperationId E agent b ids attempt =
     sha256_hex E (JSON_stringify E (JArr [JStr agent, JStr (id_client b), JStr (id_runtime_id b), JArr (map JStr (sort ids)), JNum (JInt attempt)]))"

record dispatcher_options =
  do_interval :: int
  do_maximum :: int
  do_maxBackoff :: int

definition dispatcher_defaults :: "int option \<Rightarrow> int option \<Rightarrow> int option \<Rightarrow> dispatcher_options" where
  "dispatcher_defaults intervalMs maxAttempts maxBackoffMs =
     (let interval = (case intervalMs of None \<Rightarrow> 1000 | Some i \<Rightarrow> i) in
      \<lparr>do_interval = interval, do_maximum = (case maxAttempts of None \<Rightarrow> 3 | Some n \<Rightarrow> n),
       do_maxBackoff = max (case maxBackoffMs of None \<Rightarrow> 10000 | Some n \<Rightarrow> n) interval\<rparr>)"

text \<open>
  What one round of the dispatcher meets: the instants it reads, the answer of the runtime to an operation,
  with whether the dispatcher is told to stop before the answer, and whether it is told to stop, or the read
  fails, while it waits for the next event.
\<close>

record tick =
  tk_now :: string
  tk_ms :: int
  tk_answered :: int
  tk_activate :: "string \<Rightarrow> bool \<Rightarrow> (exn + ActivationOutcome) \<times> bool"
  tk_stop :: bool
  tk_wait_fails :: bool

definition createRecord :: "runtime \<Rightarrow> string \<Rightarrow> RuntimeIdentity \<Rightarrow> string \<Rightarrow> string list \<Rightarrow> int \<Rightarrow> ActivationRecord" where
  "createRecord E agent b now ids attempt =
     \<lparr>ac_operation_id = activationOperationId E agent b ids attempt, ac_message_ids = ids, ac_attempt = attempt, ac_state = Pending, ac_created_at = now\<rparr>"

definition trace_record :: "string \<Rightarrow> RuntimeIdentity \<Rightarrow> string \<Rightarrow> InboxTraceStage \<Rightarrow> ActivationRecord option \<Rightarrow> string option \<Rightarrow> string option
    \<Rightarrow> ('z world_scheme, unit) comp" where
  "trace_record agent b now stage r code turnId = trace_event agent stage now
     [(''message_id'', Option.bind r (\<lambda>x. case ac_message_ids x of [] \<Rightarrow> None | i # _ \<Rightarrow> Some i)), (''operation_id'', map_option ac_operation_id r),
      (''runtime_id'', Some (id_runtime_id b)), (''turn_id'', turnId), (''code'', code)]"

definition abort :: "('z dispatcher_world_scheme, unit) comp" where
  "abort = modifyM (\<lambda>w. w\<lparr>stopped := True\<rparr>)"

definition save_or_stop :: "runtime \<Rightarrow> string \<Rightarrow> ActivationRecord option \<Rightarrow> ('z dispatcher_world_scheme, unit) comp \<Rightarrow> ('z dispatcher_world_scheme, unit) comp" where
  "save_or_stop E agent r k = bindM (save_record E agent r) (\<lambda>saved. if saved then k else abort)"

definition call_adapter :: "tick \<Rightarrow> string \<Rightarrow> bool \<Rightarrow> ('z dispatcher_world_scheme, ActivationOutcome) comp" where
  "call_adapter tk operation recover_only =
     thenM (modifyM (\<lambda>w. w\<lparr>activations := (length (history w), operation, recover_only) # activations w\<rparr>))
       (case tk_activate tk operation recover_only of (answer, stop) \<Rightarrow>
        thenM (if stop then abort else ret ()) (case answer of Inl e \<Rightarrow> throw e | Inr out \<Rightarrow> ret out))"

fun deferred :: "ActivationOutcome \<Rightarrow> bool" where
  "deferred Out_busy = True"
| "deferred Out_unavailable = True"
| "deferred _ = False"

definition next_backoff :: "dispatcher_options \<Rightarrow> ActivationOutcome \<Rightarrow> int \<Rightarrow> int" where
  "next_backoff opt out b = (if deferred out then min (max (b * 2) (do_interval opt)) (do_maxBackoff opt) else 0)"

definition trace_deferred :: "string \<Rightarrow> RuntimeIdentity \<Rightarrow> string \<Rightarrow> ActivationRecord \<Rightarrow> string \<Rightarrow> ('z dispatcher_world_scheme, unit) comp" where
  "trace_deferred agent b now r code =
     bindM (getM lastDeferred) (\<lambda>last.
     if last = Some (ac_operation_id r, code) then ret ()
     else thenM (modifyM (\<lambda>w. w\<lparr>lastDeferred := Some (ac_operation_id r, code)\<rparr>)) (trace_record agent b now Activation_deferred (Some r) (Some code) None))"

text \<open>The record after an answer. \<open>recovery\<close> says that an earlier submission of the operation may have happened.\<close>

definition settled_record :: "runtime \<Rightarrow> string \<Rightarrow> RuntimeIdentity \<Rightarrow> dispatcher_options \<Rightarrow> string \<Rightarrow> string list \<Rightarrow> ActivationRecord \<Rightarrow> bool \<Rightarrow> ActivationOutcome
    \<Rightarrow> ActivationRecord" where
  "settled_record E agent b opt now ids r recovery out =
     (case out of
        Out_started _ \<Rightarrow> r\<lparr>ac_state := Accepted\<rparr>
      | Out_queued \<Rightarrow> r\<lparr>ac_state := Accepted\<rparr>
      | Out_completed _ \<Rightarrow> if ac_attempt r < do_maximum opt then createRecord E agent b now ids (ac_attempt r + 1) else r\<lparr>ac_state := Exhausted\<rparr>
      | Out_busy \<Rightarrow> r\<lparr>ac_state := (if recovery then ac_state r else Pending)\<rparr>
      | Out_unavailable \<Rightarrow> r\<lparr>ac_state := (if recovery then ac_state r else Pending)\<rparr>
      | Out_ambiguous \<Rightarrow> r\<lparr>ac_state := Ambiguous\<rparr>)"

text \<open>A deferral is traced before the record is saved, everything else after.\<close>

definition settle :: "runtime \<Rightarrow> string \<Rightarrow> RuntimeIdentity \<Rightarrow> dispatcher_options \<Rightarrow> tick \<Rightarrow> string list \<Rightarrow> ActivationRecord \<Rightarrow> bool \<Rightarrow> ActivationOutcome
    \<Rightarrow> ('z dispatcher_world_scheme, unit) comp" where
  "settle E agent b opt tk ids r recovery out =
     (let tr = (\<lambda>stage code turn. trace_record agent b (tk_now tk) stage (Some r) code turn);
          save = save_record E agent (Some (settled_record E agent b opt (tk_now tk) ids r recovery out));
          accepted = (\<lambda>stage turn. thenM save
            (thenM (if ac_state r \<noteq> Accepted then tr stage None turn else ret ()) (modifyM (\<lambda>w. w\<lparr>lastDeferred := None\<rparr>))));
          postponed = (\<lambda>code. thenM (trace_deferred agent b (tk_now tk) r code) (thenM save (ret ()))) in
      case out of
        Out_started turn \<Rightarrow> accepted Turn_started (Some turn)
      | Out_queued \<Rightarrow> accepted Activation_queued None
      | Out_completed _ \<Rightarrow> thenM save (if do_maximum opt \<le> ac_attempt r then tr Activation_failed (Some ''activation_attempts_exhausted'') None else ret ())
      | Out_busy \<Rightarrow> postponed ''runtime_busy''
      | Out_unavailable \<Rightarrow> postponed ''runtime_unavailable''
      | Out_ambiguous \<Rightarrow> thenM save (if ac_state r \<noteq> Ambiguous then tr Activation_failed (Some ''native_delivery_ambiguous'') None else ret ()))"

definition activate_record :: "runtime \<Rightarrow> string \<Rightarrow> RuntimeIdentity \<Rightarrow> dispatcher_options \<Rightarrow> tick \<Rightarrow> string list \<Rightarrow> ActivationRecord \<Rightarrow> bool
    \<Rightarrow> ('z dispatcher_world_scheme, unit) comp" where
  "activate_record E agent b opt tk ids r recovery =
     bindM (call_adapter tk (ac_operation_id r) recovery) (\<lambda>out.
     bindM (getM stopped) (\<lambda>stop.
     bindM (if stop then ret False else refresh_binding agent) (\<lambda>mine.
     if \<not> mine then ret ()
     else thenM (modifyM (\<lambda>w. let d = next_backoff opt out (backoff w) in
              w\<lparr>backoff := d, retryAt := (if deferred out then tk_answered tk + d else 0)\<rparr>))
            (settle E agent b opt tk ids r recovery out))))"

definition submit :: "runtime \<Rightarrow> string \<Rightarrow> RuntimeIdentity \<Rightarrow> dispatcher_options \<Rightarrow> tick \<Rightarrow> string list \<Rightarrow> ActivationRecord \<Rightarrow> ('z dispatcher_world_scheme, unit) comp" where
  "submit E agent b opt tk ids r =
     bindM (getM retryAt) (\<lambda>at.
     if ac_state r = Exhausted \<or> tk_ms tk < at then ret ()
     else if ac_state r \<noteq> Pending then activate_record E agent b opt tk ids r True
     else save_or_stop E agent (Some (r\<lparr>ac_state := Submitting\<rparr>))
         (thenM (trace_record agent b (tk_now tk) Activation_requested (Some r) None None)
                (activate_record E agent b opt tk ids r False)))"

definition arm :: "runtime \<Rightarrow> string \<Rightarrow> RuntimeIdentity \<Rightarrow> dispatcher_options \<Rightarrow> tick \<Rightarrow> string list \<Rightarrow> ActivationRecord option \<Rightarrow> ('z dispatcher_world_scheme, unit) comp" where
  "arm E agent b opt tk ids record =
     (if ids = [] then ret ()
      else bindM (atomic (ZCARD (claimsIndex_key agent))) (\<lambda>claims.
      if 0 < claims then ret ()
      else (case record of
              Some r \<Rightarrow> submit E agent b opt tk ids r
            | None \<Rightarrow> (let r = createRecord E agent b (tk_now tk) ids 1 in save_or_stop E agent (Some r) (submit E agent b opt tk ids r)))))"

text \<open>A record none of whose messages is pending, or an exhausted one when there is work it does not cover.\<close>

definition outdated :: "string list \<Rightarrow> ActivationRecord option \<Rightarrow> bool" where
  "outdated ids record =
     (case record of
        None \<Rightarrow> False
      | Some r \<Rightarrow> \<not> list_ex (\<lambda>i. i \<in> set ids) (ac_message_ids r) \<or> ac_state r = Exhausted \<and> list_ex (\<lambda>i. i \<notin> set (ac_message_ids r)) ids)"

definition reconcile :: "runtime \<Rightarrow> string \<Rightarrow> RuntimeIdentity \<Rightarrow> dispatcher_options \<Rightarrow> tick \<Rightarrow> ('z dispatcher_world_scheme, unit) comp" where
  "reconcile E agent b opt tk =
     bindM (refresh_binding agent) (\<lambda>mine.
     if \<not> mine then abort
     else bindM (recoverExpired E agent (tk_now tk)) (\<lambda>recovered.
     case recovered of
       Inl _ \<Rightarrow> throw (JsError ''claim recovery failed'')
     | Inr _ \<Rightarrow>
         bindM (inbox_pending E agent) (\<lambda>ids.
         bindM (current_record E agent) (\<lambda>record.
         if ids = [] \<or> outdated ids record then save_or_stop E agent None (arm E agent b opt tk ids None)
         else arm E agent b opt tk ids record))))"

definition await_event :: "tick \<Rightarrow> ('z dispatcher_world_scheme, unit) comp" where
  "await_event tk =
     thenM (if tk_stop tk then abort else ret ()) (if tk_stop tk \<or> tk_wait_fails tk then throw (JsError ''Connection is closed.'') else ret ())"

definition dispatch_round :: "runtime \<Rightarrow> string \<Rightarrow> RuntimeIdentity \<Rightarrow> dispatcher_options \<Rightarrow> tick \<Rightarrow> ('z dispatcher_world_scheme, unit) comp" where
  "dispatch_round E agent b opt tk =
     catchM (thenM (reconcile E agent b opt tk) (bindM (getM stopped) (\<lambda>stop. if stop then ret () else await_event tk)))
       (\<lambda>_. bindM (getM stopped) (\<lambda>stop.
            if stop then ret ()
            else thenM (trace_record agent b (tk_now tk) Activation_failed None (Some ''dispatcher_reconcile_failed'') None)
                       (if tk_stop tk then abort else ret ())))"

primrec dispatch_loop :: "runtime \<Rightarrow> string \<Rightarrow> RuntimeIdentity \<Rightarrow> dispatcher_options \<Rightarrow> tick list \<Rightarrow> ('z dispatcher_world_scheme, unit) comp" where
  "dispatch_loop E agent b opt [] = ret ()"
| "dispatch_loop E agent b opt (tk # tks) =
     bindM (getM stopped) (\<lambda>stop.
     if stop then ret () else thenM (dispatch_round E agent b opt tk) (dispatch_loop E agent b opt tks))"

text \<open>A dispatcher from its attachment to its end, over the rounds it takes.\<close>

definition startInboxDispatcher :: "runtime \<Rightarrow> string \<Rightarrow> RuntimeIdentity \<Rightarrow> string \<Rightarrow> dispatcher_options \<Rightarrow> string \<Rightarrow> tick list \<Rightarrow> ('z dispatcher_world_scheme, unit) comp" where
  "startInboxDispatcher E agent b token opt now tks =
     thenM (attach E agent b token)
    (thenM (trace_record agent b now Runtime_bound None None None)
    (thenM (dispatch_loop E agent b opt tks)
    (thenM (catchM (detach agent) (\<lambda>_. ret ()))
           (trace_record agent b now Runtime_unbound None None None))))"

end
