(* ===== verification/Activation_Props.thy ===== *)
theory Activation_Props
  imports Activation Client_Props
begin

text \<open>
  What the inbox dispatcher guarantees: it writes only while it is the bound owner, it never takes a binding
  from another dispatcher, and an operation is submitted afresh only once its record is stored.
\<close>

section \<open>Scripts and the keys of the dispatcher\<close>

lemma dispatcher_keys_apart [simp]:
  "activation_key a \<noteq> runtimeBinding_key b" "runtimeBinding_key b \<noteq> activation_key a"
  "activation_key a \<noteq> inboxTrace_key b" "runtimeBinding_key a \<noteq> inboxTrace_key b"
  "activation_key a \<noteq> claims_key" "runtimeBinding_key a \<noteq> claims_key" "activation_key a \<noteq> claimsIndex_key b" "runtimeBinding_key a \<noteq> claimsIndex_key b"
  "activation_key a \<noteq> queue_key b" "runtimeBinding_key a \<noteq> queue_key b" "activation_key a \<noteq> dlq_key b" "runtimeBinding_key a \<noteq> dlq_key b"
  "activation_key a \<noteq> recoverCount_key b m" "runtimeBinding_key a \<noteq> recoverCount_key b m"
  by (simp_all add: key_simps)

lemma leaves_more_commands:
  "leaves k (ZRANGEBYSCORE_upto k' hi)" "leaves k (TYPE_none_or k' t)" "leaves k (MGET ks)"
  "k \<noteq> k' \<Longrightarrow> leaves k (RPUSH k' xs)" "k \<noteq> k' \<Longrightarrow> leaves k (LPUSH k' xs)" "k \<noteq> k' \<Longrightarrow> leaves k (LTRIM_first k' n)"
  "k \<noteq> k' \<Longrightarrow> leaves k (ZREM k' m)"
  by (auto simp: command_defs put_list_def put_zset_def intro!: leaves_on_type untouching.relates_pure untouching.relates_modifyM untouched_upd)

lemma leaves_EXPIRE: "k \<noteq> k' \<Longrightarrow> leaves k (EXPIRE k' s)"
  by (auto simp: EXPIRE_def intro!: untouching.relates_modifyM untouched_upd untouching.same)

lemma leaves_INCR: "k \<noteq> k' \<Longrightarrow> leaves k (INCR k')"
  by (auto simp: INCR_def relates_def on_type_def intro!: untouched_upd untouching.same split: option.splits if_splits)

lemma leaves_foldM: "(\<And>b x. x \<in> set xs \<Longrightarrow> leaves k (f b x)) \<Longrightarrow> leaves k (foldM f b xs)"
  by (induction xs arbitrary: b) (auto intro!: untouching.relates_intros)

lemmas leaves_recovery = leaves_intros leaves_more_commands leaves_EXPIRE leaves_INCR leaves_foldM

lemma counter_key_range: "counter_key E actor t = Some k \<Longrightarrow> \<exists>a i. k = recoverCount_key a i"
  by (auto simp: counter_key_def split: option.splits json.splits)

definition counters_only :: "(json \<times> string option) list \<Rightarrow> bool" where
  "counters_only ts \<longleftrightarrow> (\<forall>(t, c) \<in> set ts. \<forall>k. c = Some k \<longrightarrow> (\<exists>a i. k = recoverCount_key a i))"

lemma plan_tasks_counters: "plan_tasks E actor ts d = (Inr (Some es), d') \<Longrightarrow> counters_only es"
proof (induction ts arbitrary: d es)
  case (Cons t ts)
  then obtain es' d1 where "plan_tasks E actor ts d1 = (Inr (Some es'), d')" "es = (t, counter_key E actor t) # es'"
    by (auto simp: ret_run elim!: bindM_cases split: if_splits)
  with Cons.IH counter_key_range show ?case by (fastforce simp: counters_only_def)
qed (simp add: ret_run counters_only_def)

lemma plan_claim_counters: "plan_claim E raw d = (Inr (Some es), d') \<Longrightarrow> counters_only es"
  by (auto simp: plan_claim_def ret_run split: option.splits intro: plan_tasks_counters) (auto simp: counters_only_def)

lemma plan_all_counters: "plan_all E ids d = (Inr (Some es), d') \<Longrightarrow> e \<in> set es \<Longrightarrow> counters_only (snd e)"
proof (induction ids arbitrary: d es)
  case (Cons i ids)
  from Cons.prems(1) obtain raw d1 ts d2 es' where "plan_claim E raw d1 = (Inr (Some ts), d2)" "plan_all E ids d2 = (Inr (Some es'), d')" "es = (i, ts) # es'"
    by (auto simp: ret_run elim!: bindM_cases split: option.splits)
  with Cons plan_claim_counters show ?case by auto
qed (simp add: ret_run)

lemma leaves_recover_task:
  assumes "\<And>a i. k \<noteq> recoverCount_key a i" and "k \<noteq> inbox" and "k \<noteq> dlq" and "counters_only ts" and "x \<in> set ts"
  shows "leaves k (recover_task inbox dlq cap dlqMax ttl counts x)"
proof -
  obtain t c where x: "x = (t, c)" by (cases x)
  have raise: "leaves k (arg_or_raise v)" for v by (auto simp: arg_or_raise_def intro!: untouching.relates_pure split: option.splits json.splits)
  have "k \<noteq> k'" if "c = Some k'" for k' using assms(1,4,5) x that by (auto simp: counters_only_def)
  then show ?thesis
    using assms(2,3) by (auto simp: x recover_task_def intro!: leaves_recovery raise split: option.splits)
qed

lemma leaves_plan:
  "leaves k (plan_tasks E actor ts)" "leaves k (plan_all E ids)"
proof -
  show p: "leaves k (plan_tasks E actor ts)" for actor ts
    by (induction ts) (auto simp: counter_ok_def intro!: leaves_recovery split: option.splits)
  show "leaves k (plan_all E ids)"
    by (induction ids) (auto simp: plan_claim_def intro!: leaves_recovery p split: option.splits)
qed

lemma leaves_claims_recover:
  assumes k: "\<And>a i. k \<noteq> recoverCount_key a i" "k \<noteq> queue_key actor" "k \<noteq> dlq_key actor" "k \<noteq> claims_key" "k \<noteq> claimsIndex_key actor"
  shows "leaves k (claims_recover E actor now cap dlqMax ttl)"
proof -
  have entry: "leaves k (recover_entry (claimsIndex_key actor) (queue_key actor) (dlq_key actor) cap dlqMax ttl counts e)" if "counters_only (snd e)" for counts e
    unfolding recover_entry_def by (auto intro!: leaves_recovery leaves_recover_task k that)
  have plan: "leaves k (bindM (plan_all E ids) f)"
    if "\<And>p. (\<forall>es. p = Some es \<longrightarrow> (\<forall>e \<in> set es. counters_only (snd e))) \<Longrightarrow> leaves k (f p)" for ids f
    by (rule leaves_bindM_result[where Q = "\<lambda>p. \<forall>es. p = Some es \<longrightarrow> (\<forall>e \<in> set es. counters_only (snd e))"])
      (use leaves_plan that in \<open>auto dest: plan_all_counters\<close>)
  show ?thesis
    unfolding claims_recover_def Let_def
    by (rule untouching.relates_bindM, rule leaves_more_commands)
      (auto intro!: plan untouching.relates_intros leaves_more_commands leaves_foldM entry split: option.splits, fastforce)
qed

section \<open>The fence\<close>

text \<open>
  A step of the dispatcher with the owner text \<open>me\<close>: the activation record changes only while the binding is
  its own, and the binding itself changes only then or when there is none.
\<close>

definition fenced_step :: "string \<Rightarrow> string \<Rightarrow> db \<Rightarrow> db \<Rightarrow> bool" where
  "fenced_step agent me d d' \<longleftrightarrow> str_at d (runtimeBinding_key agent) = Some me
     \<or> live d' (activation_key agent) = live d (activation_key agent)
       \<and> (live d' (runtimeBinding_key agent) = live d (runtimeBinding_key agent) \<or> live d (runtimeBinding_key agent) = None)"

definition by_owner :: "string \<Rightarrow> string \<Rightarrow> 'z dispatcher_world_scheme \<Rightarrow> 'z dispatcher_world_scheme \<Rightarrow> bool" where
  "by_owner agent me w w' \<longleftrightarrow> (owner w = None \<or> owner w = Some me \<longrightarrow>
     (owner w' = None \<or> owner w' = Some me) \<and> stepping (fenced_step agent me) w w')"

interpretation owning: world_relation "by_owner agent me" for agent me
proof unfold_locales
  show "by_owner agent me w w" for w :: "'a dispatcher_world_scheme" by (simp add: by_owner_def stepping.same)
  show "by_owner agent me u w" if "by_owner agent me u v" "by_owner agent me v w" for u v w :: "'a dispatcher_world_scheme"
    using that stepping.chain unfolding by_owner_def by metis
qed

lemma by_owner_atomic: "(\<And>d r d'. c d = (r, d') \<Longrightarrow> fenced_step agent me d d') \<Longrightarrow> relates (by_owner agent me) (atomic c)"
  unfolding relates_def by_owner_def stepping_def atomic_def by (auto split: prod.splits simp: after_step_def)

lemma by_owner_leaves:
  "leaves (activation_key agent) c \<Longrightarrow> leaves (runtimeBinding_key agent) c \<Longrightarrow> relates (by_owner agent me) (atomic c)"
  by (rule by_owner_atomic) (auto simp: fenced_step_def dest!: relatesD untouched_live)

lemma by_owner_modifyM: "(\<And>w. history (f w) = history w \<and> owner (f w) = owner w) \<Longrightarrow> relates (by_owner agent me) (modifyM f)"
  by (rule owning.relates_modifyM) (simp add: by_owner_def stepping_def)

lemma by_owner_mapM: "(\<And>x. relates (by_owner agent me) (f x)) \<Longrightarrow> relates (by_owner agent me) (mapM f xs)"
  by (induction xs) (auto intro!: owning.relates_intros)

lemma fenced_run: "fenced agent o' c d = (r, d') \<Longrightarrow> d' = d \<or> str_at d (runtimeBinding_key agent) = Some o'"
  by (auto simp: fenced_def GET_def on_type_def getM_run ret_run elim!: bindM_cases split: if_splits)

lemma by_owner_as_owner: "relates (by_owner agent me) (as_owner agent c :: ('z dispatcher_world_scheme, _) comp)"
  unfolding relates_def
proof (intro allI impI)
  fix w r and w' :: "'z dispatcher_world_scheme" assume run: "as_owner agent c w = (r, w')"
  show "by_owner agent me w w'"
  proof (cases "nonempty (owner w)")
    case None
    with run have "w' = w" by (simp add: as_owner_def bindM_def getM_run ret_run)
    then show ?thesis by (simp add: owning.same)
  next
    case (Some o')
    then have o': "owner w = Some o'" by (auto simp: nonempty_def split: option.splits list.splits)
    from run Some obtain d where d: "fenced agent o' c (next_db w) = (r, d)" "w' = after_step w d"
      by (auto simp: as_owner_def bindM_def getM_run elim!: atomic_E)
    from fenced_run[OF d(1)] have "o' = me \<Longrightarrow> fenced_step agent me (next_db w) d" by (auto simp: fenced_step_def)
    then show ?thesis using d(2) o' by (auto simp: by_owner_def stepping_def) (simp_all add: after_step_def)
  qed
qed

lemmas owning_intros = owning.relates_intros by_owner_modifyM by_owner_mapM by_owner_as_owner by_owner_leaves

lemma owning_trace: "relates (by_owner agent me) (trace_record agent b now stage r code turn)"
  by (auto simp: trace_record_def trace_event_def intro!: owning_intros leaves_commands)

lemma owning_reads:
  "relates (by_owner agent me) (inbox_pending E agent)" "relates (by_owner agent me) (current_record E agent)" "relates (by_owner agent me) (recoverExpired E agent now)"
  by (auto simp: inbox_pending_def reply_key_def current_record_def recoverExpired_def Let_def
      intro!: owning_intros leaves_commands leaves_more_commands leaves_claims_recover split: option.splits)

lemma owning_adapter: "relates (by_owner agent me) (call_adapter tk op rec)" "relates (by_owner agent me) abort"
  by (auto simp: call_adapter_def abort_def intro!: owning_intros split: prod.splits sum.splits)

lemma owning_settle: "relates (by_owner agent me) (settle E agent b opt tk ids r recovery out)"
  by (auto simp: settle_def trace_deferred_def save_record_def Let_def intro!: owning_intros owning_trace split: ActivationOutcome.splits)

lemma owning_submit: "relates (by_owner agent me) (submit E agent b opt tk ids r)"
  by (auto simp: submit_def activate_record_def save_or_stop_def save_record_def refresh_binding_def Let_def intro!: owning_intros owning_trace owning_adapter owning_settle)

lemma owning_reconcile: "relates (by_owner agent me) (reconcile E agent b opt tk)"
  by (auto simp: reconcile_def arm_def save_or_stop_def save_record_def refresh_binding_def Let_def
      intro!: owning_intros owning_reads owning_adapter owning_submit leaves_commands split: sum.splits option.splits)

lemma owning_loop: "relates (by_owner agent me) (dispatch_loop E agent b opt tks)"
  by (induction tks) (auto simp: dispatch_round_def await_event_def intro!: owning_intros owning_reconcile owning_trace owning_adapter)

lemma owning_attach: "owner_text E b token = me \<Longrightarrow> relates (by_owner agent me) (attach E agent b token :: ('z dispatcher_world_scheme, _) comp)"
proof -
  assume me: "owner_text E b token = me"
  have nx: "relates (by_owner agent me) (atomic (SET_NX (runtimeBinding_key agent) me (Ex 30)) :: ('z dispatcher_world_scheme, _) comp)"
    by (rule by_owner_atomic)
      (auto simp: fenced_step_def SET_NX_def EXISTS_def SET_def getM_run modifyM_run ret_run view_simps elim!: bindM_cases thenM_cases split: if_splits)
  have own: "relates (by_owner agent me) (modifyM (\<lambda>w :: 'z dispatcher_world_scheme. w\<lparr>owner := Some me\<rparr>))"
    by (rule owning.relates_modifyM) (simp add: by_owner_def stepping_def)
  show ?thesis unfolding attach_def me by (auto intro!: owning.relates_intros nx own)
qed

lemma owning_detach: "relates (by_owner agent me) (detach agent :: ('z dispatcher_world_scheme, _) comp)"
proof -
  have "relates (by_owner agent me) (modifyM (\<lambda>w :: 'z dispatcher_world_scheme. w\<lparr>owner := None\<rparr>))"
    by (rule owning.relates_modifyM) (simp add: by_owner_def stepping_def)
  then show ?thesis by (auto simp: detach_def intro!: owning_intros split: option.splits)
qed

text \<open>
  A dispatcher is fenced from its attachment to its end (C14). Whatever other clients do between its steps,
  every step in which the activation record of the agent changes finds the binding of the agent with this
  dispatcher's own token, and so does every step in which the binding changes, unless there was none: a
  dispatcher whose binding was lost or taken writes no record, and none is ever taken from another dispatcher.
\<close>

theorem dispatcher_fenced:
  fixes w :: "'z dispatcher_world_scheme"
  assumes "owner w = None" and "startInboxDispatcher E agent b token opt now tks w = (r, w')"
  shows "\<exists>h. history w' = h @ history w \<and> (\<forall>(d, d') \<in> set h. str_at d (runtimeBinding_key agent) = Some (owner_text E b token)
    \<or> live d' (activation_key agent) = live d (activation_key agent)
      \<and> (live d' (runtimeBinding_key agent) = live d (runtimeBinding_key agent) \<or> live d (runtimeBinding_key agent) = None))"
proof -
  have "relates (by_owner agent (owner_text E b token)) (startInboxDispatcher E agent b token opt now tks :: ('z dispatcher_world_scheme, _) comp)"
    unfolding startInboxDispatcher_def by (auto intro!: owning.relates_intros owning_attach owning_trace owning_loop owning_detach)
  from relatesD[OF this assms(2)] assms(1) show ?thesis by (simp add: by_owner_def stepping_def fenced_step_def)
qed

definition demo_identity :: RuntimeIdentity where
  "demo_identity = \<lparr>id_client = ''codex'', id_runtime_id = ''r1'', id_epoch = ''e1'', id_working_directory = ''/work''\<rparr>"

definition demo_dispatcher :: "db \<Rightarrow> dispatcher_world" where
  "demo_dispatcher d = \<lparr>redis = d, interfere = (\<lambda>_ d. d), history = [], owner = None, stopped = False, backoff = 0, retryAt = 0, lastDeferred = None, activations = []\<rparr>"

lemma trace_total: "\<exists>w'. trace_record agent b now stage r code turn w = (Inr (), w')"
  by (auto simp: trace_record_def trace_event_def catchM_def ret_run split: prod.splits sum.splits)

theorem dispatcher_fenced_witness:
  "\<exists>h w'. startInboxDispatcher std_env ''bob'' demo_identity ''t1'' (dispatcher_defaults None None None) ''t'' [] (demo_dispatcher empty_db) = (Inr (), w')
     \<and> history w' = h \<and> (\<forall>(d, d') \<in> set h. live d' (activation_key ''bob'') = live d (activation_key ''bob'') \<or> live d (runtimeBinding_key ''bob'') \<noteq> None)"
proof -
  obtain r w' where run: "startInboxDispatcher std_env ''bob'' demo_identity ''t1'' (dispatcher_defaults None None None) ''t'' [] (demo_dispatcher empty_db) = (r, w')" by fastforce
  have "\<exists>u. attach std_env ''bob'' demo_identity ''t1'' (demo_dispatcher empty_db) = (Inr (), u)"
    by (simp add: attach_def SET_NX_def demo_dispatcher_def next_db_def run_simps)
  then obtain u where u: "attach std_env ''bob'' demo_identity ''t1'' (demo_dispatcher empty_db) = (Inr (), u)" ..
  obtain v where v: "trace_record ''bob'' demo_identity ''t'' Runtime_bound None None None u = (Inr (), v)" using trace_total by blast
  obtain x where x: "catchM (detach ''bob'') (\<lambda>_. ret ()) v = (Inr (), x)" 
    by (cases "detach ''bob'' v"; cases "fst (detach ''bob'' v)") (auto simp: catchM_def ret_run)
  obtain y where "trace_record ''bob'' demo_identity ''t'' Runtime_unbound None None None x = (Inr (), y)" using trace_total by blast
  with u v x run have "r = Inr ()" by (simp add: startInboxDispatcher_def thenM_ok ret_run)
  moreover have "owner (demo_dispatcher empty_db) = None" "history (demo_dispatcher empty_db) = []" by (simp_all add: demo_dispatcher_def)
  ultimately show ?thesis using dispatcher_fenced[OF _ run] run by fastforce
qed

section \<open>Record before submission\<close>

definition silent :: "'z dispatcher_world_scheme \<Rightarrow> 'z dispatcher_world_scheme \<Rightarrow> bool" where
  "silent w w' \<longleftrightarrow> activations w' = activations w \<and> owner w' = owner w \<and> stepping (\<lambda>_ _. True) w w'"

interpretation silence: world_relation silent
proof unfold_locales
  show "silent w w" for w :: "'a dispatcher_world_scheme" by (simp add: silent_def stepping.same)
  show "silent u w" if "silent u v" "silent v w" for u v w :: "'a dispatcher_world_scheme"
    using that stepping.chain unfolding silent_def by metis
qed

lemma silent_atomic: "relates silent (atomic c)"
  unfolding relates_def silent_def stepping_def atomic_def by (auto split: prod.splits simp: after_step_def)

lemma silent_modifyM: "(\<And>w. history (f w) = history w \<and> owner (f w) = owner w \<and> activations (f w) = activations w) \<Longrightarrow> relates silent (modifyM f)"
  by (rule silence.relates_modifyM) (simp add: silent_def stepping_def)

lemma silent_mapM: "(\<And>x. relates silent (f x)) \<Longrightarrow> relates silent (mapM f xs)"
  by (induction xs) (auto intro!: silence.relates_intros)

lemma silent_history: "silent w w' \<Longrightarrow> \<exists>h. history w' = h @ history w"
  by (auto simp: silent_def dest: stepping_history)

lemmas silent_intros = silence.relates_intros silent_modifyM silent_mapM silent_atomic

lemma silent_steps:
  "relates silent (as_owner agent c)" "relates silent abort" "relates silent (trace_record agent b now stage r' code turn)"
  "relates silent (inbox_pending E agent)" "relates silent (current_record E agent)" "relates silent (recoverExpired E agent now)"
  "relates silent (settle E agent b opt tk ids r recovery out)"
  by (auto simp: as_owner_def abort_def trace_record_def trace_event_def inbox_pending_def reply_key_def current_record_def recoverExpired_def
      settle_def trace_deferred_def save_record_def Let_def intro!: silent_intros split: option.splits ActivationOutcome.splits)

lemma activate_logs:
  assumes "activate_record E agent b opt tk ids r recovery w = (res, w')"
  shows "activations w' = (length (history w), ac_operation_id r, recovery) # activations w \<and> (\<exists>h. history w' = h @ history w)"
proof -
  let ?w = "w\<lparr>activations := (length (history w), ac_operation_id r, recovery) # activations w\<rparr>"
  let ?rest = "bindM (case tk_activate tk (ac_operation_id r) recovery of (answer, stop) \<Rightarrow>
       thenM (if stop then abort else ret ()) (case answer of Inl e \<Rightarrow> throw e | Inr out \<Rightarrow> ret out)) (\<lambda>out.
     bindM (getM stopped) (\<lambda>stop.
     bindM (if stop then ret False else refresh_binding agent) (\<lambda>mine.
     if \<not> mine then ret ()
     else thenM (modifyM (\<lambda>w. let d = next_backoff opt out (backoff w) in
              w\<lparr>backoff := d, retryAt := (if deferred out then tk_answered tk + d else 0)\<rparr>))
            (settle E agent b opt tk ids r recovery out))))"
  have "relates silent ?rest"
    by (auto simp: refresh_binding_def Let_def intro!: silent_intros silent_steps split: prod.splits sum.splits)
  moreover have "?rest ?w = (res, w')"
    using assms by (simp add: activate_record_def call_adapter_def bindM_def thenM_def modifyM_run split: prod.splits)
  ultimately have "silent ?w w'" by (rule relatesD)
  then show ?thesis using silent_history[of ?w w'] by (auto simp: silent_def)
qed

text \<open>The record that the stored text of an agent reads as.\<close>

definition stored_activation :: "runtime \<Rightarrow> db \<Rightarrow> string \<Rightarrow> ActivationRecord option" where
  "stored_activation E d agent = Option.bind (nonempty (str_at d (activation_key agent))) (\<lambda>s. Option.bind (JSON_parse E s) isActivationRecord)"

definition stores_record :: "runtime \<Rightarrow> string \<Rightarrow> string option \<Rightarrow> ActivationRecord \<Rightarrow> db \<Rightarrow> db \<Rightarrow> bool" where
  "stores_record E agent me r d d' \<longleftrightarrow> me \<noteq> None \<and> str_at d (runtimeBinding_key agent) = me
     \<and> str_at d' (activation_key agent) = Some (JSON_stringify E (activation_json r))"

lemma save_stores:
  assumes "js_runtime E" and "save_record E agent (Some r) w = (Inr True, w')"
  shows "\<exists>d d'. history w' = (d, d') # history w \<and> stores_record E agent (owner w) r d d'"
proof -
  have ne: "JSON_stringify E (activation_json r) \<noteq> []" unfolding activation_json_def obj_def by (rule js_runtime.stringify_obj[OF assms(1)])
  from assms(2) obtain o' where o': "nonempty (owner w) = Some o'"
    by (auto simp: save_record_def as_owner_def bindM_def getM_run ret_run split: option.splits)
  then have own: "owner w = Some o'" by (auto simp: nonempty_def split: option.splits list.splits)
  from assms(2) o' ne obtain d where d: "fenced agent o' (SET (activation_key agent) (JSON_stringify E (activation_json r)) (Ex 604800)) (next_db w) = (Inr True, d)"
    "w' = after_step w d"
    by (auto simp: save_record_def save_script_def as_owner_def bindM_def getM_run elim!: atomic_E)
  then have "str_at (next_db w) (runtimeBinding_key agent) = Some o'" "str_at d (activation_key agent) = Some (JSON_stringify E (activation_json r))"
    by (auto simp: fenced_def GET_def SET_def on_type_def getM_run modifyM_run ret_run view_simps elim!: bindM_cases thenM_cases split: if_splits)
  with d(2) own show ?thesis by (auto simp: stores_record_def)
qed

text \<open>
  What one submission looks like: the log grows by the operation of \<open>r\<close>, at a moment when the steps \<open>pre\<close> have
  been taken; a fresh one has been stored as submitting in them, and any other was stored as more than pending.
\<close>

definition submitted :: "runtime \<Rightarrow> string \<Rightarrow> ActivationRecord \<Rightarrow> 'z dispatcher_world_scheme \<Rightarrow> 'z dispatcher_world_scheme \<Rightarrow> bool" where
  "submitted E agent r w w' \<longleftrightarrow> (\<exists>recovery pre post. history w' = post @ pre @ history w
     \<and> activations w' = (length (pre @ history w), ac_operation_id r, recovery) # activations w \<and> ac_state r \<noteq> Exhausted
     \<and> (if recovery then ac_state r \<noteq> Pending
        else ac_state r = Pending \<and> (\<exists>(d, d') \<in> set pre. stores_record E agent (owner w) (r\<lparr>ac_state := Submitting\<rparr>) d d')))"

lemma submit_ends:
  assumes "js_runtime E" and "submit E agent b opt tk ids r w = (res, w')"
  shows "silent w w' \<or> submitted E agent r w w'"
proof (cases "ac_state r = Exhausted \<or> tk_ms tk < retryAt w")
  case True
  with assms(2) have "w' = w" by (simp add: submit_def bindM_def getM_run ret_run)
  then show ?thesis by (simp add: silence.same)
next
  case False
  show ?thesis
  proof (cases "ac_state r = Pending")
    case no: False
    with False assms(2) have "activate_record E agent b opt tk ids r True w = (res, w')" by (simp add: submit_def bindM_def getM_run)
    from activate_logs[OF this] no False show ?thesis 
      unfolding submitted_def by - (rule disjI2, rule exI[of _ True], rule exI[of _ "[]"], auto)
  next
    case yes: True
    obtain x w1 where x: "save_record E agent (Some (r\<lparr>ac_state := Submitting\<rparr>)) w = (x, w1)" by fastforce
    have s1: "silent w w1" using relatesD[OF silent_steps(1) x[unfolded save_record_def]] .
    let ?k = "thenM (trace_record agent b (tk_now tk) Activation_requested (Some r) None None) (activate_record E agent b opt tk ids r False)"
    have run: "bindM (save_record E agent (Some (r\<lparr>ac_state := Submitting\<rparr>))) (\<lambda>saved. if saved then ?k else abort) w = (res, w')"
      using False yes assms(2) by (simp add: submit_def save_or_stop_def bindM_def getM_run)
    show ?thesis
    proof (cases "x = Inr True")
      case False
      with run x have "w' = w1 \<or> (\<exists>u. abort w1 = (u, w'))" by (auto simp: bindM_def split: sum.splits if_splits)
      with s1 relatesD[OF silent_steps(2)] silence.chain[OF s1] show ?thesis by blast
    next
      case True
      obtain w2 where w2: "trace_record agent b (tk_now tk) Activation_requested (Some r) None None w1 = (Inr (), w2)" using trace_total by blast
      from run x True w2 have "activate_record E agent b opt tk ids r False w2 = (res, w')" by (simp add: bindM_ok thenM_ok)
      note act = activate_logs[OF this]
      have s2: "silent w1 w2" using relatesD[OF silent_steps(3) w2] .
      from silent_history[OF s2] obtain g where g: "history w2 = g @ history w1" ..
      from save_stores[OF assms(1)] x True obtain d d' where d: "history w1 = (d, d') # history w" "stores_record E agent (owner w) (r\<lparr>ac_state := Submitting\<rparr>) d d'" by blast
      from act s1 s2 g d yes show ?thesis
        unfolding submitted_def by - (rule disjI2, rule exI[of _ False], rule exI[of _ "g @ [(d, d')]"], auto simp: silent_def)
    qed
  qed
qed

text \<open>
  The same for a whole round: besides, the binding was the dispatcher's own and no claim was outstanding at a
  step before, and a recovered operation was read from the store.
\<close>

definition round_submitted :: "runtime \<Rightarrow> string \<Rightarrow> 'z dispatcher_world_scheme \<Rightarrow> 'z dispatcher_world_scheme \<Rightarrow> bool" where
  "round_submitted E agent w w' \<longleftrightarrow> (\<exists>operation recovery pre post. history w' = post @ pre @ history w
     \<and> activations w' = (length (pre @ history w), operation, recovery) # activations w
     \<and> (\<exists>(d, d') \<in> set pre. owner w \<noteq> None \<and> str_at d (runtimeBinding_key agent) = owner w)
     \<and> (\<exists>(d, d') \<in> set pre. zset_at d (claimsIndex_key agent) = [])
     \<and> (if recovery
        then \<exists>(d, d') \<in> set pre. \<exists>r. stored_activation E d agent = Some r \<and> ac_operation_id r = operation \<and> ac_state r \<in> {Submitting, Accepted, Ambiguous}
        else \<exists>(d, d') \<in> set pre. \<exists>r. stores_record E agent (owner w) r d d' \<and> ac_operation_id r = operation \<and> ac_state r = Submitting))"

lemma round_submittedI:
  assumes "silent w w1" and "history w1 = g @ history w" and "submitted E agent r w1 w'"
    and own: "\<exists>(d, d') \<in> set g. owner w \<noteq> None \<and> str_at d (runtimeBinding_key agent) = owner w"
    and idle: "\<exists>(d, d') \<in> set g. zset_at d (claimsIndex_key agent) = []"
    and known: "ac_state r = Pending \<or> (\<exists>(d, d') \<in> set g. stored_activation E d agent = Some r)"
  shows "round_submitted E agent w w'"
proof -
  from assms(3) obtain recovery pre post where sub: "history w' = post @ pre @ history w1" "activations w' = (length (pre @ history w1), ac_operation_id r, recovery) # activations w1"
    "ac_state r \<noteq> Exhausted" "if recovery then ac_state r \<noteq> Pending
        else ac_state r = Pending \<and> (\<exists>(d, d') \<in> set pre. stores_record E agent (owner w1) (r\<lparr>ac_state := Submitting\<rparr>) d d')"
    unfolding submitted_def by blast
  have "owner w1 = owner w" "activations w1 = activations w" using assms(1) by (auto simp: silent_def)
  moreover have "\<exists>(d, d') \<in> set (pre @ g). owner w \<noteq> None \<and> str_at d (runtimeBinding_key agent) = owner w" using own by auto
  moreover have "\<exists>(d, d') \<in> set (pre @ g). zset_at d (claimsIndex_key agent) = []" using idle by auto
  moreover have "if recovery
      then \<exists>(d, d') \<in> set (pre @ g). \<exists>x. stored_activation E d agent = Some x \<and> ac_operation_id x = ac_operation_id r \<and> ac_state x \<in> {Submitting, Accepted, Ambiguous}
      else \<exists>(d, d') \<in> set (pre @ g). \<exists>x. stores_record E agent (owner w) x d d' \<and> ac_operation_id x = ac_operation_id r \<and> ac_state x = Submitting"
  proof (cases recovery)
    case True
    with sub(3,4) have "ac_state r \<in> {Submitting, Accepted, Ambiguous}" by (cases "ac_state r") auto
    with True known sub(4) show ?thesis by auto
  next
    case False
    with sub(4) obtain d d' where "(d, d') \<in> set pre" "stores_record E agent (owner w) (r\<lparr>ac_state := Submitting\<rparr>) d d'" using calculation(1) by auto
    with False show ?thesis by (auto intro!: bexI[of _ "(d, d')"] exI[of _ "r\<lparr>ac_state := Submitting\<rparr>"])
  qed
  ultimately show ?thesis
    unfolding round_submitted_def using sub(1,2) assms(2)
    by - (rule exI[of _ "ac_operation_id r"], rule exI[of _ recovery], rule exI[of _ "pre @ g"], rule exI[of _ post], simp)
qed

lemma submit_in_round:
  assumes "js_runtime E" and run: "submit E agent b opt tk ids r v = (y, w')" and "silent w v" and "history v = g @ history w"
    and "\<exists>(d, d') \<in> set g. owner w \<noteq> None \<and> str_at d (runtimeBinding_key agent) = owner w" and "\<exists>(d, d') \<in> set g. zset_at d (claimsIndex_key agent) = []"
    and "ac_state r = Pending \<or> (\<exists>(d, d') \<in> set g. stored_activation E d agent = Some r)"
  shows "activations w' = activations w \<or> round_submitted E agent w w'"
  using submit_ends[OF assms(1) run]
proof
  assume "silent v w'"
  with assms(3) show ?thesis by (simp add: silent_def)
next
  assume "submitted E agent r v w'"
  from round_submittedI[OF assms(3,4) this assms(5-7)] show ?thesis ..
qed

lemma arm_new_record:
  assumes "js_runtime E" and "silent w v" and "history v = g @ history w" and "ac_state r = Pending"
    and run: "save_or_stop E agent (Some r) (submit E agent b opt tk ids r) v = (res, w')"
    and own: "\<exists>(d, d') \<in> set g. owner w \<noteq> None \<and> str_at d (runtimeBinding_key agent) = owner w" and idle: "\<exists>(d, d') \<in> set g. zset_at d (claimsIndex_key agent) = []"
  shows "activations w' = activations w \<or> round_submitted E agent w w'"
proof -
  obtain y u where y: "save_record E agent (Some r) v = (y, u)" by fastforce
  have vu: "silent v u" using y unfolding save_record_def by (rule relatesD[OF silent_steps(1)])
  have wu: "silent w u" using assms(2) vu by (rule silence.chain)
  from silent_history[OF vu] assms(3) obtain e where e: "history u = (e @ g) @ history w" by auto
  show ?thesis
  proof (cases "y = Inr True")
    case True
    with run y have "submit E agent b opt tk ids r u = (res, w')" by (simp add: save_or_stop_def bindM_ok)
    from submit_in_round[OF assms(1) this wu e] own idle assms(4) show ?thesis by auto
  next
    case False
    with run y have "w' = u \<or> (\<exists>x. abort u = (x, w'))" by (auto simp: save_or_stop_def bindM_def split: sum.splits if_splits)
    with wu show ?thesis by (auto simp: silent_def abort_def modifyM_run)
  qed
qed

lemma arm_ends:
  assumes "js_runtime E" and "silent w v" and "history v = g @ history w" and run: "arm E agent b opt tk ids record v = (res, w')"
    and own: "\<exists>(d, d') \<in> set g. owner w \<noteq> None \<and> str_at d (runtimeBinding_key agent) = owner w"
    and known: "\<And>r. record = Some r \<Longrightarrow> \<exists>(d, d') \<in> set g. stored_activation E d agent = Some r"
  shows "activations w' = activations w \<or> round_submitted E agent w w'"
proof (cases "ids = []")
  case True
  with assms(2) run show ?thesis by (simp add: arm_def ret_run silent_def)
next
  case False
  obtain x u where x: "atomic (ZCARD (claimsIndex_key agent)) v = (x, u)" by fastforce
  have wu: "silent w u" using assms(2) relatesD[OF silent_atomic x] by (rule silence.chain)
  from x have hu: "history u = ((next_db v, redis u) # g) @ history w" using assms(3) by (auto elim!: atomic_E)
  have own': "\<exists>(d, d') \<in> set ((next_db v, redis u) # g). owner w \<noteq> None \<and> str_at d (runtimeBinding_key agent) = owner w" using own by auto
  show ?thesis
  proof (cases "x = Inr 0")
    case busy: False
    with False run x have "w' = u" by (cases x) (auto simp: arm_def bindM_def ret_run split: if_splits)
    with wu show ?thesis by (simp add: silent_def)
  next
    case True
    then have idle: "\<exists>(d, d') \<in> set ((next_db v, redis u) # g). zset_at d (claimsIndex_key agent) = []"
      using x by (auto simp: ZCARD_def on_type_def getM_run elim!: atomic_E split: if_splits)
    show ?thesis
    proof (cases "record")
      case None
      with False True run x have "save_or_stop E agent (Some (createRecord E agent b (tk_now tk) ids 1)) (submit E agent b opt tk ids (createRecord E agent b (tk_now tk) ids 1)) u = (res, w')"
        by (simp add: arm_def Let_def bindM_ok)
      from arm_new_record[OF assms(1) wu hu _ this own' idle] show ?thesis by (simp add: createRecord_def)
    next
      case (Some r)
      with False True run x have "submit E agent b opt tk ids r u = (res, w')" by (simp add: arm_def bindM_ok)
      from submit_in_round[OF assms(1) this wu hu own' idle] known[OF Some] show ?thesis by auto
    qed
  qed
qed

lemma refresh_owned:
  assumes "refresh_binding agent w = (Inr True, w')"
  shows "\<exists>d d'. history w' = (d, d') # history w \<and> owner w \<noteq> None \<and> str_at d (runtimeBinding_key agent) = owner w"
proof -
  from assms obtain o' where o': "nonempty (owner w) = Some o'"
    by (auto simp: refresh_binding_def as_owner_def bindM_def getM_run ret_run split: option.splits)
  then have own: "owner w = Some o'" by (auto simp: nonempty_def split: option.splits list.splits)
  from assms o' obtain d where d: "fenced agent o' (EXPIRE (runtimeBinding_key agent) 30) (next_db w) = (Inr True, d)" "w' = after_step w d"
    by (auto simp: refresh_binding_def as_owner_def bindM_def getM_run elim!: atomic_E)
  then have "str_at (next_db w) (runtimeBinding_key agent) = Some o'"
    by (auto simp: fenced_def GET_def on_type_def getM_run ret_run elim!: bindM_cases split: if_splits)
  with d(2) own show ?thesis by auto
qed

lemma current_reads:
  assumes "current_record E agent w = (Inr (Some r), w')"
  shows "\<exists>d. history w' = (next_db w, d) # history w \<and> stored_activation E (next_db w) agent = Some r"
  using assms by (auto simp: current_record_def stored_activation_def GET_def on_type_def getM_run ret_run elim!: bindM_cases atomic_E split: if_splits)

lemma reconcile_prefix:
  assumes "reconcile E agent b opt tk w = (res, w')"
  obtains (quiet) "activations w' = activations w"
    | (armed) ids "record" v where "silent w v" "\<exists>g. history v = g @ history w
        \<and> (\<exists>(d, d') \<in> set g. owner w \<noteq> None \<and> str_at d (runtimeBinding_key agent) = owner w)
        \<and> (\<forall>r. record = Some r \<longrightarrow> (\<exists>(d, d') \<in> set g. stored_activation E d agent = Some r))"
      "arm E agent b opt tk ids record v = (res, w')"
proof -
  obtain x1 w1 where x1: "refresh_binding agent w = (x1, w1)" by fastforce
  obtain x2 w2 where x2: "recoverExpired E agent (tk_now tk) w1 = (x2, w2)" by fastforce
  obtain x3 w3 where x3: "inbox_pending E agent w2 = (x3, w3)" by fastforce
  obtain x4 w4 where x4: "current_record E agent w3 = (x4, w4)" by fastforce
  have s1: "silent w w1" using x1 unfolding refresh_binding_def by (rule relatesD[OF silent_steps(1)])
  have s2: "silent w w2" using s1 relatesD[OF silent_steps(6) x2] by (rule silence.chain)
  have s3: "silent w w3" using s2 relatesD[OF silent_steps(4) x3] by (rule silence.chain)
  have s4: "silent w w4" using s3 relatesD[OF silent_steps(5) x4] by (rule silence.chain)
  show thesis
  proof (cases "x1 = Inr True \<and> (\<exists>n. x2 = Inr (Inr n)) \<and> (\<exists>ids. x3 = Inr ids) \<and> (\<exists>record. x4 = Inr record)")
    case False
    with assms x1 x2 x3 x4 have "w' \<in> {w1, w2, w3, w4} \<or> (\<exists>u. abort w1 = (u, w'))"
      by (auto simp: reconcile_def bindM_def throw_run split: sum.splits if_splits)
    with s1 s2 s3 s4 show ?thesis by (intro quiet) (auto simp: silent_def abort_def modifyM_run)
  next
    case True
    then obtain ids "record" where ids: "x3 = Inr ids" "x4 = Inr record" by blast
    from True x1 refresh_owned[of agent w w1] obtain d d' where own: "history w1 = (d, d') # history w" "owner w \<noteq> None" "str_at d (runtimeBinding_key agent) = owner w" by auto
    from silent_history[OF relatesD[OF silent_steps(6) x2]] silent_history[OF relatesD[OF silent_steps(4) x3]] own(1)
    obtain g where g: "history w3 = g @ (d, d') # history w" by (metis append.assoc)
    have h4: "\<exists>f. history w4 = f # history w3 \<and> (\<forall>r. record = Some r \<longrightarrow> stored_activation E (fst f) agent = Some r)"
      using x4 ids(2) by (auto simp: current_record_def stored_activation_def GET_def on_type_def getM_run ret_run elim!: bindM_cases atomic_E split: if_splits)
    then obtain f where f: "history w4 = f # history w3" "\<forall>r. record = Some r \<longrightarrow> stored_activation E (fst f) agent = Some r" by blast
    let ?g = "f # g @ [(d, d')]"
    have hist: "history w4 = ?g @ history w" using f(1) g by simp
    have mine: "\<exists>(d, d') \<in> set ?g. owner w \<noteq> None \<and> str_at d (runtimeBinding_key agent) = owner w" using own by auto
    have known: "\<forall>r. record = Some r \<longrightarrow> (\<exists>(d, d') \<in> set ?g. stored_activation E d agent = Some r)" using f(2) by (cases f) auto
    from assms True x1 x2 x3 x4 ids consider "arm E agent b opt tk ids record w4 = (res, w')"
      | "save_or_stop E agent None (arm E agent b opt tk ids None) w4 = (res, w')"
      by (auto simp: reconcile_def bindM_ok split: if_splits)
    then show ?thesis
    proof cases
      case 1
      with s4 hist mine known show ?thesis by (intro armed[of w4 "record" ids] exI[of _ ?g]) blast+
    next
      case 2
      obtain y v where y: "save_record E agent None w4 = (y, v)" by fastforce
      have "silent w4 v" using y unfolding save_record_def by (rule relatesD[OF silent_steps(1)])
      with s4 have s5: "silent w v" by (rule silence.chain)
      from silent_history[OF \<open>silent w4 v\<close>] hist obtain e where e: "history v = (e @ ?g) @ history w" by auto
      show ?thesis
      proof (cases "y = Inr True")
        case yes: True
        with 2 y have "arm E agent b opt tk ids None v = (res, w')" by (simp add: save_or_stop_def bindM_ok)
        with s5 e mine show ?thesis by (intro armed[of v None ids] exI[of _ "e @ ?g"]) auto
      next
        case False
        with 2 y have "w' = v \<or> (\<exists>u. abort v = (u, w'))" by (auto simp: save_or_stop_def bindM_def split: sum.splits if_splits)
        with s5 show ?thesis by (intro quiet) (auto simp: silent_def abort_def modifyM_run)
      qed
    qed
  qed
qed

definition demo_bound_db :: db where
  "demo_bound_db = put_list (queue_key ''bob'') [message_text std_env demo_message] (upd (runtimeBinding_key ''bob'') (Some (RString ''me'')) (Ex 30) empty_db)"

definition demo_tick :: tick where
  "demo_tick = \<lparr>tk_now = iso_from_ms 0, tk_ms = 0, tk_answered = 0, tk_activate = (\<lambda>_ _. (Inr Out_queued, False)), tk_stop = False, tk_wait_fails = False\<rparr>"

lemma demo_candidate: "pending_candidate std_env ''bob'' (message_text std_env demo_message) = Some (message_json demo_message)"
  "\<not> awaitsOutstanding (message_json demo_message)" "str_field (message_json demo_message) ''id'' = Some ''m1''"
proof -
  from std.parse_stringify[OF wire_demo] show "pending_candidate std_env ''bob'' (message_text std_env demo_message) = Some (message_json demo_message)"
    by (simp add: pending_candidate_def message_text_def) (simp add: demo_message_def message_json_def obj_def[of "_ # opt_member _ _ @ _"])
qed (simp_all add: demo_message_def message_json_def awaitsOutstanding_def)

text \<open>A database in which the dispatcher of bob holds the binding and bob has one task.\<close>

definition bound_db :: "db \<Rightarrow> bool" where
  "bound_db d \<longleftrightarrow> live d (runtimeBinding_key ''bob'') = Some (RString ''me'') \<and> list_at d (queue_key ''bob'') = [message_text std_env demo_message]
     \<and> holds d (queue_key ''bob'') TList \<and> live d (claimsIndex_key ''bob'') = None \<and> holds d (activation_key ''bob'') TString"

lemma as_owner_runs:
  assumes "quiet w" and "owner w = Some ''me''" and "bound_db (redis w)" and "c (redis w) = (Inr (), d)"
  shows "as_owner ''bob'' c w = (Inr True, after_step w d)"
  using assms by (simp add: as_owner_def fenced_def nonempty_def bound_db_def run_simps holds_def)

lemma demo_submits:
  assumes "reconcile std_env ''bob'' demo_identity (dispatcher_defaults None None None) demo_tick ((demo_dispatcher demo_bound_db)\<lparr>owner := Some ''me''\<rparr>) = (res, w')"
  shows "\<exists>n. activations w' = [(n, activationOperationId std_env ''bob'' demo_identity [''m1''] 1, False)]"
proof -
  let ?w = "(demo_dispatcher demo_bound_db)\<lparr>owner := Some ''me''\<rparr>"
  let ?d1 = "upd (runtimeBinding_key ''bob'') (Some (RString ''me'')) (Ex 30) demo_bound_db"
  let ?r = "createRecord std_env ''bob'' demo_identity (tk_now demo_tick) [''m1''] 1"
  let ?set = "\<lambda>r. upd (activation_key ''bob'') (Some (RString (JSON_stringify std_env (activation_json r)))) (Ex 604800)"
  let ?w1 = "after_step ?w ?d1" let ?w2 = "after_step ?w1 ?d1" let ?w3 = "after_step ?w2 ?d1" let ?w4 = "after_step ?w3 ?d1" let ?w5 = "after_step ?w4 ?d1"
  let ?w6 = "after_step ?w5 (?set ?r ?d1)" let ?w7 = "after_step ?w6 (?set (?r\<lparr>ac_state := Submitting\<rparr>) (?set ?r ?d1))"
  have q: "quiet ?w" "redis ?w = demo_bound_db" by (simp_all add: demo_dispatcher_def quiet_def)
  have b: "bound_db demo_bound_db" "bound_db ?d1" "bound_db (?set r ?d1)" "live ?d1 (activation_key ''bob'') = None" for r
    by (simp_all add: bound_db_def demo_bound_db_def view_simps key_simps empty_db_def live_def[of "\<lparr>entries = _, expiry = _, clock = _\<rparr>"] holds_def)
  have ow: "owner (after_step w d) = owner w" "retryAt (after_step w d) = retryAt w" "activations (after_step w d) = activations w" for w :: dispatcher_world and d by (simp_all add: after_step_def)
  have 1: "refresh_binding ''bob'' ?w = (Inr True, ?w1)"
    unfolding refresh_binding_def by (rule as_owner_runs) (use q b(1) in \<open>simp_all add: EXPIRE_def run_simps bound_db_def\<close>)
  have ms: "date_parse std_env (tk_now demo_tick) = Some 0" by (simp add: demo_tick_def std.date_parse_iso valid_instant_def)
  have 2: "recoverExpired std_env ''bob'' (tk_now demo_tick) ?w1 = (Inr (Inr (0, 0)), ?w2)"
  proof -
    have "claims_recover std_env ''bob'' 0 cap m ttl ?d1 = (Inr (Inr (0, 0)), ?d1)" for cap m ttl
      using b(2) by (simp add: claims_recover_def Let_def run_simps holds_def bound_db_def by_score_def)
    with q show ?thesis by (simp add: recoverExpired_def ms bindM_ok atomic_run ret_run)
  qed
  have 3: "inbox_pending std_env ''bob'' ?w2 = (Inr [''m1''], ?w3)"
    using b(2) q by (simp add: inbox_pending_def run_simps bound_db_def demo_candidate List.map_filter_simps)
  have 4: "current_record std_env ''bob'' ?w3 = (Inr None, ?w4)"
    using b(2,4) q by (simp add: current_record_def run_simps holds_def nonempty_def)
  have 5: "atomic (ZCARD (claimsIndex_key ''bob'')) ?w4 = (Inr 0, ?w5)"
    using b(2) q by (simp add: run_simps holds_def bound_db_def)
  have ne: "JSON_stringify std_env (activation_json r) \<noteq> []" for r unfolding activation_json_def obj_def by (rule std.stringify_obj)
  have 6: "save_record std_env ''bob'' (Some ?r) ?w5 = (Inr True, ?w6)"
    unfolding save_record_def by (rule as_owner_runs) (use q b(2) ne in \<open>simp_all add: save_script_def SET_def modifyM_run ow\<close>)
  have 7: "save_record std_env ''bob'' (Some (?r\<lparr>ac_state := Submitting\<rparr>)) ?w6 = (Inr True, ?w7)"
    unfolding save_record_def by (rule as_owner_runs) (use q b(3) ne in \<open>simp_all add: save_script_def SET_def modifyM_run ow\<close>)
  obtain u where u: "trace_record ''bob'' demo_identity (tk_now demo_tick) Activation_requested (Some ?r) None None ?w7 = (Inr (), u)" using trace_total by blast
  have r: "ac_state ?r = Pending" "ac_operation_id ?r = activationOperationId std_env ''bob'' demo_identity [''m1''] 1" by (simp_all add: createRecord_def)
  have "retryAt ?w6 \<le> tk_ms demo_tick" by (simp add: ow demo_dispatcher_def demo_tick_def)
  with assms 1 2 3 4 5 6 7 u r(1) have "activate_record std_env ''bob'' demo_identity (dispatcher_defaults None None None) demo_tick [''m1''] ?r False u = (res, w')"
    by (simp add: reconcile_def outdated_def arm_def Let_def submit_def save_or_stop_def bindM_ok thenM_ok getM_run)
  from activate_logs[OF this] relatesD[OF silent_steps(3) u] show ?thesis
    by (simp add: r(2) silent_def ow demo_dispatcher_def)
qed

text \<open>
  An operation is recorded before it is submitted (C13). In one round of the dispatcher, whatever other clients
  do, at most one operation reaches the runtime. By then a step has found the binding with this dispatcher's
  own token, and a step has found no outstanding claim. An operation that is submitted afresh has been stored
  as submitting, in a step that found the own binding; every other is only recovered, never resubmitted, and
  was read from the store in a state past pending. So a dispatcher that dies at the boundary leaves evidence
  from which its successor recovers instead of notifying twice.
\<close>

theorem recorded_before_submitted:
  assumes "js_runtime E" and "reconcile E agent b opt tk w = (res, w')"
  shows "activations w' = activations w
    \<or> (\<exists>operation recovery pre post. history w' = post @ pre @ history w
         \<and> activations w' = (length (pre @ history w), operation, recovery) # activations w
         \<and> (\<exists>(d, d') \<in> set pre. owner w \<noteq> None \<and> str_at d (runtimeBinding_key agent) = owner w)
         \<and> (\<exists>(d, d') \<in> set pre. zset_at d (claimsIndex_key agent) = [])
         \<and> (if recovery
            then \<exists>(d, d') \<in> set pre. \<exists>r. stored_activation E d agent = Some r \<and> ac_operation_id r = operation \<and> ac_state r \<in> {Submitting, Accepted, Ambiguous}
            else \<exists>(d, d') \<in> set pre. \<exists>r. stores_record E agent (owner w) r d d' \<and> ac_operation_id r = operation \<and> ac_state r = Submitting))"
  using assms(2)
proof (cases rule: reconcile_prefix)
  case quiet
  then show ?thesis ..
next
  case (armed ids "record" v)
  from armed(2) obtain g where g: "history v = g @ history w" "\<exists>(d, d') \<in> set g. owner w \<noteq> None \<and> str_at d (runtimeBinding_key agent) = owner w"
    "\<forall>r. record = Some r \<longrightarrow> (\<exists>(d, d') \<in> set g. stored_activation E d agent = Some r)" by blast
  have "activations w' = activations w \<or> round_submitted E agent w w'"
    by (rule arm_ends[OF assms(1) armed(1) g(1) armed(3) g(2)]) (use g(3) in blast)
  then show ?thesis unfolding round_submitted_def .
qed

theorem recorded_before_submitted_witness:
  "\<exists>res w' d d' r. reconcile std_env ''bob'' demo_identity (dispatcher_defaults None None None) demo_tick ((demo_dispatcher demo_bound_db)\<lparr>owner := Some ''me''\<rparr>) = (res, w')
     \<and> activations w' \<noteq> [] \<and> (d, d') \<in> set (history w') \<and> stores_record std_env ''bob'' (Some ''me'') r d d' \<and> ac_state r = Submitting"
proof -
  let ?w = "(demo_dispatcher demo_bound_db)\<lparr>owner := Some ''me''\<rparr>"
  obtain res w' where run: "reconcile std_env ''bob'' demo_identity (dispatcher_defaults None None None) demo_tick ?w = (res, w')" by fastforce
  from demo_submits[OF run] obtain n where n: "activations w' = [(n, activationOperationId std_env ''bob'' demo_identity [''m1''] 1, False)]" ..
  have start: "activations ?w = []" "history ?w = []" "owner ?w = Some ''me''" by (simp_all add: demo_dispatcher_def)
  from recorded_before_submitted[OF std.js_runtime_axioms run] n start obtain pre post d d' r
    where "history w' = post @ pre" "(d, d') \<in> set pre" "stores_record std_env ''bob'' (Some ''me'') r d d'" "ac_state r = Submitting"
    by auto
  with run n show ?thesis by - (rule exI[of _ res], rule exI[of _ w'], rule exI[of _ d], rule exI[of _ d'], rule exI[of _ r], simp)
qed

end
