(* ===== verification/Custody_Model.thy ===== *)
theory Custody_Model
  imports Json
begin

text \<open>
  The pure worktree custody model of \<open>src/src/core/custody-model.ts\<close>: who holds a worktree, how it is
  released with a structured handoff, forfeited when its lease lapses, and taken over by a successor.
  Human-readable error messages are not modelled; error codes are. Values typed \<open>unknown\<close> in the source
  are JSON values. A result is \<open>Inr (Inr x)\<close> for \<open>ok: true\<close>, \<open>Inr (Inl code)\<close> for \<open>ok: false\<close>, and
  \<open>Inl e\<close> where the code throws.
\<close>

section \<open>Data\<close>

datatype CustodyState = Unowned | Held | Released | Forfeited

datatype CustodyAcquisitionMode = Initial | Graceful_handoff | Successor_takeover

record CustodianIdentity =
  actor_name :: string
  session_id :: string

record WorktreeIdentity =
  worktree_path :: string
  repo_head :: string
  tree_fingerprint :: string

datatype authored_by = Origin | Successor_reconstructed

datatype tree_state = Clean | Dirty

record HandoffRecordV1 =
  h_authored_by :: authored_by
  h_repo_head :: string
  h_tracked_tree_state :: tree_state
  h_untracked_inventory :: "string list"
  h_unfinished_work :: string
  h_hazards :: "string list"
  h_next_step :: string

record CustodyRecord =
  state :: CustodyState
  worktree :: WorktreeIdentity
  custodian :: "CustodianIdentity option"
  mode :: "CustodyAcquisitionMode option"
  acquired_at :: "string option"
  lease_expires_at :: "string option"
  handoff :: "HandoffRecordV1 option"

datatype CustodyEvent =
    Claim CustodianIdentity string "string option"                 \<comment> \<open>custodian, lease, acquired_at\<close>
  | Assume CustodianIdentity string "string list" "string option"  \<comment> \<open>custodian, lease, inventory, acquired_at\<close>
  | Release json
  | Expire string

datatype CustodyErrorCode =
    invalid_version | missing_head | invalid_tree_state | dirty_tree_without_inventory | invalid_inventory
  | missing_unfinished_work | invalid_authored_by | missing_next_step
  | already_held | forfeited_requires_takeover | invalid_custodian | takeover_requires_inventory
  | takeover_requires_forfeited | not_held | invalid_timestamp

section \<open>Admission of a handoff\<close>

fun isEmptyInventory :: "json option \<Rightarrow> bool" where
  "isEmptyInventory None = True"
| "isEmptyInventory (Some JNull) = True"
| "isEmptyInventory (Some (JArr xs)) = (xs = [])"
| "isEmptyInventory _ = False"

fun isInvalidInventory :: "json option \<Rightarrow> bool" where
  "isInvalidInventory (Some (JArr xs)) = (\<exists>x \<in> set xs. \<not> is_JStr x \<or> x = JStr [])"
| "isInvalidInventory _ = True"

fun isStringArray :: "json option \<Rightarrow> bool" where
  "isStringArray None = True"
| "isStringArray (Some (JArr xs)) = list_all is_JStr xs"
| "isStringArray _ = False"

definition isValidCustodian :: "CustodianIdentity \<Rightarrow> bool" where
  "isValidCustodian c \<longleftrightarrow> actor_name c \<noteq> [] \<and> session_id c \<noteq> []"

definition nonempty_str :: "json option \<Rightarrow> bool" where
  "nonempty_str v \<longleftrightarrow> (case v of Some (JStr s) \<Rightarrow> s \<noteq> [] | _ \<Rightarrow> False)"

fun str_val :: "json \<Rightarrow> string" where
  "str_val (JStr s) = s"
| "str_val _ = []"

fun strings_of :: "json \<Rightarrow> string list" where
  "strings_of (JArr xs) = map str_val xs"
| "strings_of _ = []"

fun the_str :: "json option \<Rightarrow> string" where
  "the_str (Some (JStr s)) = s"
| "the_str _ = []"

text \<open>
  \<open>freezeHandoff\<close> copies both arrays with the spread operator, which throws a TypeError when the array
  is \<open>undefined\<close>.
\<close>

definition freezeHandoff :: "HandoffRecordV1 \<Rightarrow> json option \<Rightarrow> json option \<Rightarrow> exn + HandoffRecordV1" where
  "freezeHandoff h inventory hazards =
     (case inventory of
        None \<Rightarrow> Inl (JsError ''untracked_inventory is not iterable'')
      | Some iv \<Rightarrow>
          (case hazards of
             None \<Rightarrow> Inl (JsError ''hazards is not iterable'')
           | Some hz \<Rightarrow> Inr (h\<lparr>h_untracked_inventory := strings_of iv, h_hazards := strings_of hz\<rparr>)))"

definition admitHandoffRecord :: "json \<Rightarrow> exn + (CustodyErrorCode + HandoffRecordV1)" where
  "admitHandoffRecord input =
     (if \<not> is_object input \<or> jget input ''schema_version'' \<noteq> Some (JNum (JInt 1)) then Inr (Inl invalid_version)
      else if \<not> nonempty_str (jget input ''repo_head'') then Inr (Inl missing_head)
      else if jget input ''tracked_tree_state'' \<noteq> Some (JStr ''clean'')
           \<and> jget input ''tracked_tree_state'' \<noteq> Some (JStr ''dirty'') then Inr (Inl invalid_tree_state)
      else if jget input ''tracked_tree_state'' = Some (JStr ''dirty'')
           \<and> isEmptyInventory (jget input ''untracked_inventory'') then Inr (Inl dirty_tree_without_inventory)
      else if isInvalidInventory (jget input ''untracked_inventory'')
           \<or> \<not> isStringArray (jget input ''hazards'') then Inr (Inl invalid_inventory)
      else if \<not> nonempty_str (jget input ''unfinished_work'') then Inr (Inl missing_unfinished_work)
      else if jget input ''authored_by'' \<noteq> Some (JStr ''origin'')
           \<and> jget input ''authored_by'' \<noteq> Some (JStr ''successor_reconstructed'') then Inr (Inl invalid_authored_by)
      else if \<not> nonempty_str (jget input ''next_step'') then Inr (Inl missing_next_step)
      else
        (case freezeHandoff
           \<lparr>h_authored_by = (if jget input ''authored_by'' = Some (JStr ''origin'') then Origin else Successor_reconstructed),
            h_repo_head = the_str (jget input ''repo_head''),
            h_tracked_tree_state = (if jget input ''tracked_tree_state'' = Some (JStr ''clean'') then Clean else Dirty),
            h_untracked_inventory = [],
            h_unfinished_work = the_str (jget input ''unfinished_work''),
            h_hazards = [],
            h_next_step = the_str (jget input ''next_step'')\<rparr>
           (jget input ''untracked_inventory'') (jget input ''hazards'') of
           Inl e \<Rightarrow> Inl e
         | Inr h \<Rightarrow> Inr (Inr h)))"

section \<open>Transitions\<close>

definition createCustody :: "WorktreeIdentity \<Rightarrow> CustodyRecord" where
  "createCustody wt =
     \<lparr>state = Unowned, worktree = wt, custodian = None, mode = None, acquired_at = None,
      lease_expires_at = None, handoff = None\<rparr>"

definition bad_acquisition :: "CustodianIdentity \<Rightarrow> string \<Rightarrow> string option \<Rightarrow> bool" where
  "bad_acquisition c lease acquired \<longleftrightarrow> \<not> isValidCustodian c \<or> lease = [] \<or> acquired = Some []"

fun transitionCustody :: "runtime \<Rightarrow> CustodyRecord \<Rightarrow> CustodyEvent \<Rightarrow> exn + (CustodyErrorCode + CustodyRecord)" where
  "transitionCustody E r (Claim c lease acquired) =
     (case state r of
        Held \<Rightarrow> Inr (Inl already_held)
      | Forfeited \<Rightarrow> Inr (Inl forfeited_requires_takeover)
      | _ \<Rightarrow>
          if bad_acquisition c lease acquired then Inr (Inl invalid_custodian)
          else Inr (Inr (r\<lparr>state := Held, custodian := Some c,
                 mode := Some (if state r = Released then Graceful_handoff else Initial),
                 lease_expires_at := Some lease, acquired_at := acquired\<rparr>)))"
| "transitionCustody E r (Assume c lease inventory acquired) =
     (if state r \<noteq> Forfeited then Inr (Inl takeover_requires_forfeited)
      else if bad_acquisition c lease acquired then Inr (Inl invalid_custodian)
      else if inventory = [] \<or> [] \<in> set inventory then Inr (Inl takeover_requires_inventory)
      else Inr (Inr (r\<lparr>state := Held, custodian := Some c, mode := Some Successor_takeover,
             lease_expires_at := Some lease, acquired_at := acquired\<rparr>)))"
| "transitionCustody E r (Release input) =
     (if state r \<noteq> Held then Inr (Inl not_held)
      else (case admitHandoffRecord input of
              Inl e \<Rightarrow> Inl e
            | Inr (Inl code) \<Rightarrow> Inr (Inl code)
            | Inr (Inr h) \<Rightarrow> Inr (Inr (r\<lparr>state := Released, custodian := None, mode := None,
                 acquired_at := None, lease_expires_at := None, handoff := Some h\<rparr>))))"
| "transitionCustody E r (Expire now) =
     (if state r \<noteq> Held then Inr (Inr r)
      else (case lease_expires_at r of
              None \<Rightarrow> Inr (Inl invalid_timestamp)
            | Some lease \<Rightarrow>
                (case (date_parse E now, date_parse E lease) of
                   (Some nowMs, Some leaseMs) \<Rightarrow>
                     if nowMs \<le> leaseMs then Inr (Inr r)
                     else Inr (Inr (r\<lparr>state := Forfeited, custodian := None, mode := None,
                            acquired_at := None, lease_expires_at := None\<rparr>))
                 | _ \<Rightarrow> Inr (Inl invalid_timestamp))))"

section \<open>Well-formed records\<close>

definition valid_handoff :: "HandoffRecordV1 \<Rightarrow> bool" where
  "valid_handoff h \<longleftrightarrow> h_repo_head h \<noteq> [] \<and> h_unfinished_work h \<noteq> [] \<and> h_next_step h \<noteq> []
     \<and> [] \<notin> set (h_untracked_inventory h) \<and> (h_tracked_tree_state h = Dirty \<longrightarrow> h_untracked_inventory h \<noteq> [])"

text \<open>
  A held record names a custodian, a mode and a lease; any other record names none of them. A released
  record carries a handoff, and every handoff is well formed.
\<close>

definition wf_custody :: "CustodyRecord \<Rightarrow> bool" where
  "wf_custody r \<longleftrightarrow>
     (case state r of
        Held \<Rightarrow> (\<exists>c l. custodian r = Some c \<and> isValidCustodian c \<and> lease_expires_at r = Some l \<and> l \<noteq> [])
                 \<and> mode r \<noteq> None \<and> acquired_at r \<noteq> Some []
      | _ \<Rightarrow> custodian r = None \<and> mode r = None \<and> acquired_at r = None \<and> lease_expires_at r = None)
     \<and> (state r = Released \<longrightarrow> handoff r \<noteq> None)
     \<and> (\<forall>h. handoff r = Some h \<longrightarrow> valid_handoff h)"

definition handoff_json :: "HandoffRecordV1 \<Rightarrow> json" where
  "handoff_json h = obj
     [(''schema_version'', JNum (JInt 1)),
      (''authored_by'', JStr (case h_authored_by h of Origin \<Rightarrow> ''origin'' | Successor_reconstructed \<Rightarrow> ''successor_reconstructed'')),
      (''repo_head'', JStr (h_repo_head h)),
      (''tracked_tree_state'', JStr (case h_tracked_tree_state h of Clean \<Rightarrow> ''clean'' | Dirty \<Rightarrow> ''dirty'')),
      (''untracked_inventory'', JArr (map JStr (h_untracked_inventory h))),
      (''unfinished_work'', JStr (h_unfinished_work h)),
      (''hazards'', JArr (map JStr (h_hazards h))),
      (''next_step'', JStr (h_next_step h))]"

lemma str_val_JStr [simp]: "str_val \<circ> JStr = id"
  by (rule ext) simp

lemma isInvalidInventory_strings [simp]: "isInvalidInventory (Some (JArr (map JStr ss))) \<longleftrightarrow> [] \<in> set ss"
  by auto

lemma list_all_is_JStr_map [simp]: "list_all is_JStr (map JStr ss)"
  by (simp add: list_all_iff)

lemma valid_inventoryD: "\<not> isInvalidInventory v \<Longrightarrow> \<exists>ss. v = Some (JArr (map JStr ss)) \<and> [] \<notin> set ss"
proof -
  assume v: "\<not> isInvalidInventory v"
  then obtain xs where xs: "v = Some (JArr xs)"
    by (cases v rule: isInvalidInventory.cases) auto
  with v have "\<forall>x \<in> set xs. \<exists>s. x = JStr s \<and> s \<noteq> []"
    by (auto elim!: is_JStr.elims(2))
  then have "\<exists>ss. xs = map JStr ss \<and> [] \<notin> set ss"
  proof (induction xs)
    case (Cons x xs)
    then obtain s ss where "x = JStr s" "s \<noteq> []" "xs = map JStr ss" "[] \<notin> set ss" by auto
    then show ?case by (intro exI[of _ "s # ss"]) simp
  qed simp
  with xs show ?thesis by simp
qed

lemma admit_handoff_json:
  assumes "valid_handoff h"
  shows "admitHandoffRecord (handoff_json h) = Inr (Inr h)"
  using assms
  by (cases h)
    (auto simp: admitHandoffRecord_def handoff_json_def valid_handoff_def nonempty_str_def freezeHandoff_def
      split: authored_by.splits tree_state.splits)

lemma nonempty_strD: "nonempty_str v \<Longrightarrow> \<exists>s. v = Some (JStr s) \<and> s \<noteq> []"
  by (auto simp: nonempty_str_def split: option.splits json.splits)

lemma admit_valid:
  assumes "admitHandoffRecord j = Inr (Inr h)"
  shows "valid_handoff h"
proof -
  from assms have ok: "nonempty_str (jget j ''repo_head'')" "nonempty_str (jget j ''unfinished_work'')"
      "nonempty_str (jget j ''next_step'')" "\<not> isInvalidInventory (jget j ''untracked_inventory'')"
      "jget j ''tracked_tree_state'' = Some (JStr ''dirty'') \<Longrightarrow> \<not> isEmptyInventory (jget j ''untracked_inventory'')"
      "jget j ''tracked_tree_state'' = Some (JStr ''clean'') \<or> jget j ''tracked_tree_state'' = Some (JStr ''dirty'')"
    by (auto simp: admitHandoffRecord_def split: if_splits)
  from ok(1-3) obtain a b c where abc: "jget j ''repo_head'' = Some (JStr a)" "a \<noteq> []"
      "jget j ''unfinished_work'' = Some (JStr b)" "b \<noteq> []" "jget j ''next_step'' = Some (JStr c)" "c \<noteq> []"
    by (meson nonempty_strD)
  from valid_inventoryD[OF ok(4)] obtain ss where ss: "jget j ''untracked_inventory'' = Some (JArr (map JStr ss))" "[] \<notin> set ss"
    by blast
  show ?thesis
    using assms ok(5,6) abc ss
    by (auto simp: admitHandoffRecord_def valid_handoff_def freezeHandoff_def split: if_splits option.splits)
qed

section \<open>The custody state machine\<close>

definition custody_init :: "CustodyRecord \<Rightarrow> bool" where
  "custody_init r \<longleftrightarrow> r = createCustody (worktree r)"

definition custody_step :: "runtime \<Rightarrow> CustodyRecord \<Rightarrow> CustodyEvent \<Rightarrow> CustodyRecord \<Rightarrow> bool" where
  "custody_step E r ev r' \<longleftrightarrow> transitionCustody E r ev = Inr (Inr r')"

lemma wf_createCustody [simp]: "wf_custody (createCustody wt)"
  by (simp add: wf_custody_def createCustody_def)

lemma transition_wf:
  assumes "wf_custody r" and "transitionCustody E r ev = Inr (Inr r')"
  shows "wf_custody r'"
proof (cases ev)
  case (Release j)
  with assms show ?thesis
    by (auto simp: wf_custody_def dest: admit_valid split: if_splits sum.splits)
next
  case (Expire now)
  with assms show ?thesis
    by (auto simp: wf_custody_def split: if_splits option.splits)
qed (use assms in \<open>auto simp: wf_custody_def bad_acquisition_def split: CustodyState.splits if_splits\<close>)

lemma transition_worktree: "transitionCustody E r ev = Inr (Inr r') \<Longrightarrow> worktree r' = worktree r"
  by (cases ev) (auto split: if_splits CustodyState.splits sum.splits option.splits)

interpretation custody: invariant_system custody_init "custody_step E" wf_custody for E
proof unfold_locales
  fix s assume "custody_init s"
  then show "wf_custody s" unfolding custody_init_def by (metis wf_createCustody)
qed (auto simp: custody_step_def intro: transition_wf)

text \<open>
  Every custody record that events can produce from a fresh one is well formed: exactly the held
  records name a custodian, a mode and a lease, a released record carries a handoff, and every handoff
  a record carries was admitted.
\<close>

lemma custody_reachable_wf:
  assumes "reach custody_init (custody_step E) r"
  shows "wf_custody r"
  using assms by (rule custody.reach_inv)

text \<open>
  A worktree that is not held becomes held in two ways only: a claim of an unowned or released
  worktree, or a takeover of a forfeited one that names a non-empty inventory; in both the custodian,
  the lease and any acquisition time are non-empty. The new record names the claimant and nothing of an
  earlier holder.
\<close>

lemma custody_acquire_iff:
  assumes "state r \<noteq> Held"
  shows "(transitionCustody E r ev = Inr (Inr r') \<and> state r' = Held) \<longleftrightarrow>
    (\<exists>c lease acq. isValidCustodian c \<and> lease \<noteq> [] \<and> acq \<noteq> Some [] \<and>
      (\<exists>m. r' = r\<lparr>state := Held, custodian := Some c, mode := Some m, lease_expires_at := Some lease, acquired_at := acq\<rparr> \<and>
        (state r = Unowned \<and> m = Initial \<and> ev = Claim c lease acq
         \<or> state r = Released \<and> m = Graceful_handoff \<and> ev = Claim c lease acq
         \<or> state r = Forfeited \<and> m = Successor_takeover \<and>
             (\<exists>inv. ev = Assume c lease inv acq \<and> inv \<noteq> [] \<and> [] \<notin> set inv))))"
proof (cases ev)
  case (Claim c l a)
  with assms show ?thesis by (cases "state r") (auto simp: bad_acquisition_def)
next
  case (Assume c l i a)
  with assms show ?thesis by (cases "state r") (auto simp: bad_acquisition_def)
qed (use assms in \<open>auto split: if_splits sum.splits option.splits\<close>)

text \<open>
  A handoff survives being written as JSON and admitted again exactly when it is well formed: its
  head, note and next step are non-empty, no inventory entry is empty, and a dirty tree lists one.
\<close>

lemma handoff_admission_roundtrip:
  "admitHandoffRecord (handoff_json h) = Inr (Inr h) \<longleftrightarrow> valid_handoff h"
  using admit_handoff_json admit_valid by blast

text \<open>
  A handoff whose \<open>hazards\<close> member is absent is not admitted and not rejected: whatever its other
  members, if they are all in order, the call throws a TypeError, although the field is documented as
  optional.
\<close>

lemma admit_without_hazards_throws:
  assumes "valid_handoff h" and "handoff_json h = JObj m"
  shows "admitHandoffRecord (JObj (fmdrop ''hazards'' m)) = Inl (JsError ''hazards is not iterable'')"
proof -
  have get: "jget (JObj (fmdrop ''hazards'' m)) k = (if k = ''hazards'' then None else jget (handoff_json h) k)" for k
    using assms(2) by simp
  show ?thesis
    using assms(1) unfolding admitHandoffRecord_def get
    by (cases h) (auto simp: handoff_json_def valid_handoff_def nonempty_str_def freezeHandoff_def
        split: authored_by.splits tree_state.splits)
qed

text \<open>
  A held worktree stops being held in two ways only: a release with an admitted handoff, which the
  record then carries, or an expiry event strictly after the lease. In both the record names no
  custodian any more; a forfeited record keeps the handoff it carried.
\<close>

lemma custody_lose_iff:
  assumes "state r = Held"
  shows "(transitionCustody E r ev = Inr (Inr r') \<and> state r' \<noteq> Held) \<longleftrightarrow>
    (\<exists>s h. r' = r\<lparr>state := s, custodian := None, mode := None, acquired_at := None, lease_expires_at := None, handoff := h\<rparr> \<and>
      ((\<exists>j h'. ev = Release j \<and> admitHandoffRecord j = Inr (Inr h') \<and> s = Released \<and> h = Some h')
       \<or> (\<exists>now l lms nms. ev = Expire now \<and> lease_expires_at r = Some l \<and> date_parse E l = Some lms
            \<and> date_parse E now = Some nms \<and> lms < nms \<and> s = Forfeited \<and> h = handoff r)))"
proof (cases ev)
  case (Release j)
  with assms show ?thesis by (auto split: sum.splits)
next
  case (Expire now)
  with assms show ?thesis by (cases r) (auto split: option.splits if_splits)
qed (use assms in \<open>auto split: if_splits\<close>)

end
