(* ===== verification/Conditional_Set.thy ===== *)
theory Conditional_Set
  imports Keys
begin

text \<open>
  The contract of a conditional hash write, which the custody store and the actor directory both rely
  on: one atomic script writes a field of a hash only when the field's current value permits it. The
  clients' lemmas are proved once from the contract; each store interprets it with its own Lua script.
\<close>

locale conditional_hset =
  fixes cset :: "string \<Rightarrow> string \<Rightarrow> 'g \<Rightarrow> (db, bool) comp"
    and key :: string
    and permits :: "'g \<Rightarrow> string option \<Rightarrow> bool"
  assumes cset_permitted: "holds d key THash \<Longrightarrow> permits g (map_of (hash_at d key) f) \<Longrightarrow>
      cset f v g d = (Inr True, put_hash key (AList.update f v (hash_at d key)) d)"
    and cset_refused: "holds d key THash \<Longrightarrow> \<not> permits g (map_of (hash_at d key) f) \<Longrightarrow> cset f v g d = (Inr False, d)"
    and cset_wrongtype: "\<not> holds d key THash \<Longrightarrow> cset f v g d = (Inl WrongType, d)"
begin

lemmas cset_run = cset_permitted cset_refused cset_wrongtype

text \<open>A write that reports success found a permitting value, and leaves every other field and key alone.\<close>

lemma cset_True:
  assumes "cset f v g d = (Inr True, d')"
  shows "holds d key THash" and "permits g (map_of (hash_at d key) f)"
    and "map_of (hash_at d' key) = (map_of (hash_at d key))(f \<mapsto> v)"
    and "k \<noteq> key \<Longrightarrow> live d' k = live d k" and "holds d' key THash"
  using assms
  by (cases "holds d key THash"; cases "permits g (map_of (hash_at d key) f)";
      auto simp: cset_run view_simps)+

text \<open>Any other outcome leaves the database as it was.\<close>

lemma cset_not_True: "cset f v g d = (r, d') \<Longrightarrow> r \<noteq> Inr True \<Longrightarrow> d' = d"
  by (cases "holds d key THash"; cases "permits g (map_of (hash_at d key) f)") (auto simp: cset_run)

lemma cset_False: "cset f v g d = (Inr False, d') \<Longrightarrow> \<not> permits g (map_of (hash_at d key) f) \<and> d' = d"
  by (cases "holds d key THash"; cases "permits g (map_of (hash_at d key) f)") (auto simp: cset_run)

lemma script_keeps_cset:
  assumes "\<And>d. I d \<Longrightarrow> holds d key THash \<Longrightarrow> permits g (map_of (hash_at d key) f) \<Longrightarrow>
    I (put_hash key (AList.update f v (hash_at d key)) d)"
  shows "script_keeps I (cset f v g) (\<lambda>_. True)"
  unfolding script_keeps_def
proof (intro allI impI conjI)
  fix d r d' assume "I d" and "cset f v g d = (r, d')"
  then show "I d'"
    using assms[of d] by (cases "holds d key THash"; cases "permits g (map_of (hash_at d key) f)") (auto simp: cset_run)
qed simp

text \<open>
  The same under interference: the step acts on the database as the other clients left it.
\<close>

lemma atomic_cset_True:
  assumes "atomic (cset f v g) w = (Inr True, w')"
  shows "permits g (map_of (hash_at (next_db w) key) f)"
    and "map_of (hash_at (redis w') key) = (map_of (hash_at (next_db w) key))(f \<mapsto> v)"
    and "history w' = (next_db w, redis w') # history w"
proof -
  obtain d' where d': "cset f v g (next_db w) = (Inr True, d')" "w' = after_step w d'"
    using assms by (rule atomic_E)
  show "permits g (map_of (hash_at (next_db w) key) f)"
    by (rule cset_True(2)[OF d'(1)])
  show "map_of (hash_at (redis w') key) = (map_of (hash_at (next_db w) key))(f \<mapsto> v)"
    using cset_True(3)[OF d'(1)] d'(2) by simp
  show "history w' = (next_db w, redis w') # history w" using d'(2) by simp
qed

end

end
