(* ===== verification/Custody_Store.thy ===== *)
theory Custody_Store
  imports Custody_Model Conditional_Set
begin

text \<open>
  The Redis-backed custody store of \<open>src/src/core/custody-store.ts\<close>, with its conditional write
  \<open>src/src/mcp-server/lua/custody-conditional-set.lua\<close>. Records are kept as JSON in one hash, a field
  per worktree path. Claim and release read, decide and write in separate atomic steps; the definitions
  below keep those steps apart, so other clients may act between them.

  A stored record is admitted as the zod schema admits it and read into a \<open>CustodyRecord\<close>; members the
  schema does not mention are not kept by the model, and \<open>mode\<close> and \<open>acquired_at\<close>, which no domain code
  reads, are kept when they have their declared type. Diagnostics of corrupt records are not modelled.
\<close>

section \<open>Stored form\<close>

datatype CustodyStoreErrorCode = Custody_error CustodyErrorCode | not_custodian | store_corrupt

datatype 'a StoredRead = Stored "'a option" | Corrupt

fun state_name :: "CustodyState \<Rightarrow> string" where
  "state_name Unowned = ''unowned''"
| "state_name Held = ''held''"
| "state_name Released = ''released''"
| "state_name Forfeited = ''forfeited''"

definition state_of_name :: "string \<Rightarrow> CustodyState option" where
  "state_of_name s = map_of [(''unowned'', Unowned), (''held'', Held), (''released'', Released), (''forfeited'', Forfeited)] s"

fun mode_name :: "CustodyAcquisitionMode \<Rightarrow> string" where
  "mode_name Initial = ''initial''"
| "mode_name Graceful_handoff = ''graceful_handoff''"
| "mode_name Successor_takeover = ''successor_takeover''"

definition mode_of_name :: "string \<Rightarrow> CustodyAcquisitionMode option" where
  "mode_of_name s = map_of [(''initial'', Initial), (''graceful_handoff'', Graceful_handoff), (''successor_takeover'', Successor_takeover)] s"

definition custodian_json :: "CustodianIdentity \<Rightarrow> json" where
  "custodian_json c = obj [(''actor_name'', JStr (actor_name c)), (''session_id'', JStr (session_id c))]"

definition worktree_json :: "WorktreeIdentity \<Rightarrow> json" where
  "worktree_json wt = obj [(''worktree_path'', JStr (worktree_path wt)), (''repo_head'', JStr (repo_head wt)),
     (''tree_fingerprint'', JStr (tree_fingerprint wt))]"

definition custody_json :: "CustodyRecord \<Rightarrow> json" where
  "custody_json r = obj ([(''state'', JStr (state_name (state r))), (''worktree'', worktree_json (worktree r))]
     @ opt_member ''custodian'' (map_option custodian_json (custodian r))
     @ opt_member ''mode'' (map_option (JStr \<circ> mode_name) (mode r))
     @ opt_member ''lease_expires_at'' (map_option JStr (lease_expires_at r))
     @ opt_member ''acquired_at'' (map_option JStr (acquired_at r))
     @ opt_member ''handoff'' (map_option handoff_json (handoff r)))"

text \<open>\<open>isStoredHandoff\<close>, giving the admitted handoff.\<close>

definition storedHandoff :: "json \<Rightarrow> HandoffRecordV1 option" where
  "storedHandoff j =
     (case jget j ''hazards'' of
        Some (JArr _) \<Rightarrow> (case admitHandoffRecord j of Inr (Inr h) \<Rightarrow> Some h | _ \<Rightarrow> None)
      | _ \<Rightarrow> None)"

fun is_JObj :: "json \<Rightarrow> bool" where
  "is_JObj (JObj _) = True"
| "is_JObj _ = False"

definition custodian_of_json :: "json \<Rightarrow> CustodianIdentity option" where
  "custodian_of_json j =
     (case (str_field j ''actor_name'', str_field j ''session_id'') of
        (Some a, Some s) \<Rightarrow> Some \<lparr>actor_name = a, session_id = s\<rparr>
      | _ \<Rightarrow> None)"

definition worktree_of_json :: "json \<Rightarrow> WorktreeIdentity option" where
  "worktree_of_json j =
     (case (str_field j ''worktree_path'', str_field j ''repo_head'', str_field j ''tree_fingerprint'') of
        (Some p, Some h, Some f) \<Rightarrow> if p = [] then None else Some \<lparr>worktree_path = p, repo_head = h, tree_fingerprint = f\<rparr>
      | _ \<Rightarrow> None)"

text \<open>An optional member: absent is \<open>Some None\<close>, a member the reader rejects is \<open>None\<close>.\<close>

definition opt_read :: "(json \<Rightarrow> 'a option) \<Rightarrow> json option \<Rightarrow> 'a option option" where
  "opt_read f v = (case v of None \<Rightarrow> Some None | Some j \<Rightarrow> map_option Some (f j))"

fun str_of_json :: "json \<Rightarrow> string option" where
  "str_of_json (JStr s) = Some s"
| "str_of_json _ = None"

definition storedCustodySchema :: "json \<Rightarrow> CustodyRecord option" where
  "storedCustodySchema j =
     (case (Option.bind (str_field j ''state'') state_of_name,
            Option.bind (jget j ''worktree'') worktree_of_json,
            opt_read custodian_of_json (jget j ''custodian''),
            opt_read str_of_json (jget j ''lease_expires_at''),
            opt_read storedHandoff (jget j ''handoff'')) of
        (Some st, Some wt, Some cu, Some le, Some ho) \<Rightarrow>
          if is_JObj j \<and> (st = Held \<longrightarrow> cu \<noteq> None \<and> le \<noteq> None) \<and> (st = Released \<longrightarrow> ho \<noteq> None)
          then Some \<lparr>state = st, worktree = wt, custodian = cu,
                 mode = Option.bind (str_field j ''mode'') mode_of_name,
                 acquired_at = str_field j ''acquired_at'', lease_expires_at = le, handoff = ho\<rparr>
          else None
      | _ \<Rightarrow> None)"

definition parseStored :: "runtime \<Rightarrow> string \<Rightarrow> CustodyRecord StoredRead" where
  "parseStored E raw =
     (case JSON_parse E raw of
        None \<Rightarrow> Corrupt
      | Some j \<Rightarrow> (case storedCustodySchema j of None \<Rightarrow> Corrupt | Some r \<Rightarrow> Stored (Some r)))"

section \<open>The conditional write\<close>

definition custody_conditional_set :: "runtime \<Rightarrow> string \<Rightarrow> string \<Rightarrow> string \<times> string \<Rightarrow> (db, bool) comp" where
  "custody_conditional_set E field newValue expected =
     (case expected of (expectedState, expectedCustodianSession) \<Rightarrow>
     bindM (HGET custody_records_key field) (\<lambda>current.
     case current of
       None \<Rightarrow>
         if expectedState = ''ABSENT''
         then thenM (HSET custody_records_key field newValue) (ret True)
         else ret False
     | Some cur \<Rightarrow>
         (case cjson_decode E cur of
            None \<Rightarrow> ret False
          | Some r \<Rightarrow>
              if \<not> is_object r \<or> jget r ''state'' \<noteq> Some (JStr expectedState) then ret False
              else if expectedCustodianSession \<noteq> [] \<and>
                (case jget r ''custodian'' of
                   None \<Rightarrow> True
                 | Some cu \<Rightarrow> \<not> is_object cu \<or> jget cu ''session_id'' \<noteq> Some (JStr expectedCustodianSession))
              then ret False
              else thenM (HSET custody_records_key field newValue) (ret True))))"

definition custody_permits :: "runtime \<Rightarrow> string \<times> string \<Rightarrow> string option \<Rightarrow> bool" where
  "custody_permits E expected current =
     (case current of
        None \<Rightarrow> fst expected = ''ABSENT''
      | Some cur \<Rightarrow>
          (\<exists>r. cjson_decode E cur = Some r \<and> jget r ''state'' = Some (JStr (fst expected))
             \<and> (snd expected \<noteq> [] \<longrightarrow> (\<exists>cu. jget r ''custodian'' = Some cu \<and> jget cu ''session_id'' = Some (JStr (snd expected))))))"

lemma jget_is_object: "jget j k = Some v \<Longrightarrow> is_object j"
  by (cases j) auto

interpretation custody_cas: conditional_hset "custody_conditional_set E" custody_records_key "custody_permits E" for E
proof unfold_locales
  fix d g f v
  assume h: "holds d custody_records_key THash"
  { assume "custody_permits E g (map_of (hash_at d custody_records_key) f)"
    with h show "custody_conditional_set E f v g d = (Inr True, put_hash custody_records_key (AList.update f v (hash_at d custody_records_key)) d)"
      by (auto simp: custody_conditional_set_def custody_permits_def run_simps jget_is_object
          split: prod.splits option.splits if_splits) }
  { assume "\<not> custody_permits E g (map_of (hash_at d custody_records_key) f)"
    with h show "custody_conditional_set E f v g d = (Inr False, d)"
      by (auto simp: custody_conditional_set_def custody_permits_def run_simps split: prod.splits option.splits if_splits) }
next
  fix d g f v
  assume "\<not> holds d custody_records_key THash"
  then show "custody_conditional_set E f v g d = (Inl WrongType, d)"
    by (simp add: custody_conditional_set_def run_simps split: prod.splits)
qed

section \<open>Operations\<close>

record CustodyClaimInput =
  ci_worktree_path :: string
  ci_repo_head :: string
  ci_tree_fingerprint :: string
  ci_lease_seconds :: int
  ci_inventory :: "string list option"
  ci_actor_name :: string
  ci_session_id :: string
  ci_now :: string

record CustodyReleaseInput =
  ri_worktree_path :: string
  ri_session_id :: string
  ri_handoff :: json
  ri_now :: string

type_synonym CustodyOpResult = "CustodyStoreErrorCode + CustodyRecord"

abbreviation failC :: "CustodyErrorCode \<Rightarrow> ('s, CustodyOpResult) comp" where
  "failC code \<equiv> ret (Inl (Custody_error code))"

definition isValidInventory :: "string list option \<Rightarrow> bool" where
  "isValidInventory iv = (case iv of None \<Rightarrow> False | Some xs \<Rightarrow> xs \<noteq> [] \<and> [] \<notin> set xs)"

definition readRecord :: "runtime \<Rightarrow> string \<Rightarrow> ('z world_scheme, CustodyRecord StoredRead) comp" where
  "readRecord E path =
     bindM (atomic (HGET custody_records_key path)) (\<lambda>raw.
     ret (case raw of None \<Rightarrow> Stored None | Some s \<Rightarrow> parseStored E s))"

definition conditionalSet :: "runtime \<Rightarrow> string \<Rightarrow> string \<Rightarrow> string \<Rightarrow> string option \<Rightarrow> ('z world_scheme, bool) comp" where
  "conditionalSet E path newValue expectedState expectedCustodianSession =
     atomic (custody_conditional_set E path newValue
       (expectedState, case expectedCustodianSession of None \<Rightarrow> [] | Some s \<Rightarrow> s))"

definition lapsed :: "runtime \<Rightarrow> CustodyRecord \<Rightarrow> string \<Rightarrow> bool" where
  "lapsed E r now =
     (state r = Held \<and>
      (case lease_expires_at r of
         None \<Rightarrow> False
       | Some l \<Rightarrow> (case (date_parse E l, date_parse E now) of (Some lms, Some nms) \<Rightarrow> lms < nms | _ \<Rightarrow> False)))"

definition lazyExpire :: "runtime \<Rightarrow> CustodyRecord \<Rightarrow> string \<Rightarrow> ('z world_scheme, CustodyRecord) comp" where
  "lazyExpire E r now =
     (if \<not> lapsed E r now then ret r
      else (case transitionCustody E r (Expire now) of
              Inr (Inr r') \<Rightarrow>
                if state r' = Forfeited
                then thenM (conditionalSet E (worktree_path (worktree r)) (JSON_stringify E (custody_json r')) ''held'' None) (ret r')
                else ret r
            | Inr (Inl _) \<Rightarrow> ret r
            | Inl e \<Rightarrow> throw e))"

definition claim_identity :: "CustodyClaimInput \<Rightarrow> CustodianIdentity" where
  "claim_identity i = \<lparr>actor_name = ci_actor_name i, session_id = ci_session_id i\<rparr>"

definition claim_worktree :: "CustodyClaimInput \<Rightarrow> WorktreeIdentity" where
  "claim_worktree i = \<lparr>worktree_path = ci_worktree_path i, repo_head = ci_repo_head i, tree_fingerprint = ci_tree_fingerprint i\<rparr>"

text \<open>Apply an event and persist the result; \<open>None\<close> asks the loop to read again.\<close>

definition claim_persist :: "runtime \<Rightarrow> CustodyClaimInput \<Rightarrow> CustodyRecord \<Rightarrow> CustodyEvent \<Rightarrow> string
    \<Rightarrow> ('z world_scheme, CustodyOpResult option) comp" where
  "claim_persist E i r ev expected =
     (case transitionCustody E r ev of
        Inl e \<Rightarrow> throw e
      | Inr (Inl code) \<Rightarrow> ret (Some (Inl (Custody_error code)))
      | Inr (Inr r') \<Rightarrow>
          bindM (conditionalSet E (ci_worktree_path i) (JSON_stringify E (custody_json r')) expected None) (\<lambda>persisted.
          ret (if persisted then Some (Inr r') else None)))"

text \<open>The decision on the record as the lazy expiry left it.\<close>

definition claim_decide :: "runtime \<Rightarrow> CustodyClaimInput \<Rightarrow> string \<Rightarrow> CustodyRecord \<Rightarrow> ('z world_scheme, CustodyOpResult option) comp" where
  "claim_decide E i lease r =
     (if state r = Held then ret (Some (Inl (Custody_error already_held)))
      else if state r = Forfeited
           then (if \<not> isValidInventory (ci_inventory i) then ret (Some (Inl (Custody_error takeover_requires_inventory)))
                 else claim_persist E i r (Assume (claim_identity i) lease (the (ci_inventory i)) (Some (ci_now i))) (state_name (state r)))
           else claim_persist E i r (Claim (claim_identity i) lease (Some (ci_now i))) (state_name (state r)))"

definition claim_attempt :: "runtime \<Rightarrow> CustodyClaimInput \<Rightarrow> string \<Rightarrow> ('z world_scheme, CustodyOpResult option) comp" where
  "claim_attempt E i lease =
     bindM (readRecord E (ci_worktree_path i)) (\<lambda>stored.
     case stored of
       Corrupt \<Rightarrow> ret (Some (Inl store_corrupt))
     | Stored None \<Rightarrow>
         claim_persist E i (createCustody (claim_worktree i)) (Claim (claim_identity i) lease (Some (ci_now i))) ''ABSENT''
     | Stored (Some r0) \<Rightarrow>
         bindM (lazyExpire E r0 (ci_now i)) (claim_decide E i lease))"

definition claim_exhausted :: "runtime \<Rightarrow> CustodyClaimInput \<Rightarrow> ('z world_scheme, CustodyOpResult) comp" where
  "claim_exhausted E i =
     bindM (readRecord E (ci_worktree_path i)) (\<lambda>stored.
     case stored of
       Corrupt \<Rightarrow> ret (Inl store_corrupt)
     | Stored cur \<Rightarrow>
         (case cur of
            Some r \<Rightarrow> if state r = Forfeited then failC forfeited_requires_takeover else failC already_held
          | None \<Rightarrow> failC already_held))"

text \<open>\<open>for (let attempt = 0; attempt < n; attempt += 1)\<close>\<close>

primrec claim_loop :: "nat \<Rightarrow> runtime \<Rightarrow> CustodyClaimInput \<Rightarrow> string \<Rightarrow> ('z world_scheme, CustodyOpResult) comp" where
  "claim_loop 0 E i lease = claim_exhausted E i"
| "claim_loop (Suc n) E i lease =
     bindM (claim_attempt E i lease) (\<lambda>res. case res of Some r \<Rightarrow> ret r | None \<Rightarrow> claim_loop n E i lease)"

definition custody_claim :: "runtime \<Rightarrow> CustodyClaimInput \<Rightarrow> ('z world_scheme, CustodyOpResult) comp" where
  "custody_claim E i = bindM (iso_after E (ci_now i) (ci_lease_seconds i)) (\<lambda>lease. claim_loop 2 E i lease)"

definition release_decide :: "runtime \<Rightarrow> CustodyReleaseInput \<Rightarrow> HandoffRecordV1 \<Rightarrow> CustodyRecord \<Rightarrow> ('z world_scheme, CustodyOpResult option) comp" where
  "release_decide E i h r =
     (if state r \<noteq> Held then ret (Some (Inl (Custody_error not_held)))
      else if (case custodian r of None \<Rightarrow> True | Some c \<Rightarrow> session_id c \<noteq> ri_session_id i)
           then ret (Some (Inl not_custodian))
      else (case transitionCustody E r (Release (handoff_json h)) of
              Inl e \<Rightarrow> throw e
            | Inr (Inl code) \<Rightarrow> ret (Some (Inl (Custody_error code)))
            | Inr (Inr r') \<Rightarrow>
                bindM (conditionalSet E (ri_worktree_path i) (JSON_stringify E (custody_json r')) ''held'' (Some (ri_session_id i))) (\<lambda>persisted.
                ret (if persisted then Some (Inr r') else None))))"

definition release_attempt :: "runtime \<Rightarrow> CustodyReleaseInput \<Rightarrow> HandoffRecordV1 \<Rightarrow> ('z world_scheme, CustodyOpResult option) comp" where
  "release_attempt E i h =
     bindM (readRecord E (ri_worktree_path i)) (\<lambda>stored.
     case stored of
       Corrupt \<Rightarrow> ret (Some (Inl store_corrupt))
     | Stored None \<Rightarrow> ret (Some (Inl (Custody_error not_held)))
     | Stored (Some r0) \<Rightarrow> bindM (lazyExpire E r0 (ri_now i)) (release_decide E i h))"

definition release_exhausted :: "runtime \<Rightarrow> CustodyReleaseInput \<Rightarrow> ('z world_scheme, CustodyOpResult) comp" where
  "release_exhausted E i =
     bindM (readRecord E (ri_worktree_path i)) (\<lambda>stored.
     case stored of
       Corrupt \<Rightarrow> ret (Inl store_corrupt)
     | Stored None \<Rightarrow> failC not_held
     | Stored (Some r) \<Rightarrow>
         if state r \<noteq> Held then failC not_held
         else if (case custodian r of None \<Rightarrow> True | Some c \<Rightarrow> session_id c \<noteq> ri_session_id i) then ret (Inl not_custodian)
         else failC not_held)"

primrec release_loop :: "nat \<Rightarrow> runtime \<Rightarrow> CustodyReleaseInput \<Rightarrow> HandoffRecordV1 \<Rightarrow> ('z world_scheme, CustodyOpResult) comp" where
  "release_loop 0 E i h = release_exhausted E i"
| "release_loop (Suc n) E i h =
     bindM (release_attempt E i h) (\<lambda>res. case res of Some r \<Rightarrow> ret r | None \<Rightarrow> release_loop n E i h)"

definition custody_release :: "runtime \<Rightarrow> CustodyReleaseInput \<Rightarrow> ('z world_scheme, CustodyOpResult) comp" where
  "custody_release E i =
     (case admitHandoffRecord (ri_handoff i) of
        Inl e \<Rightarrow> throw e
      | Inr (Inl code) \<Rightarrow> failC code
      | Inr (Inr h) \<Rightarrow> release_loop 2 E i h)"

definition custody_status :: "runtime \<Rightarrow> string \<Rightarrow> string \<Rightarrow> ('z world_scheme, CustodyStoreErrorCode + CustodyRecord option) comp" where
  "custody_status E path now =
     bindM (readRecord E path) (\<lambda>stored.
     case stored of
       Corrupt \<Rightarrow> ret (Inl store_corrupt)
     | Stored None \<Rightarrow> ret (Inr None)
     | Stored (Some r) \<Rightarrow> bindM (lazyExpire E r now) (\<lambda>r'. ret (Inr (Some r'))))"

text \<open>The listing: the records are read at once, then expired one after the other, stopping at a corrupt one.\<close>

primrec status_list :: "runtime \<Rightarrow> string \<Rightarrow> (string \<times> string) list \<Rightarrow> ('z world_scheme, CustodyStoreErrorCode + CustodyRecord list) comp" where
  "status_list E now [] = ret (Inr [])"
| "status_list E now (e # es) =
     (case parseStored E (snd e) of
        Corrupt \<Rightarrow> ret (Inl store_corrupt)
      | Stored None \<Rightarrow> status_list E now es
      | Stored (Some r) \<Rightarrow>
          bindM (lazyExpire E r now) (\<lambda>r'.
          bindM (status_list E now es) (\<lambda>res.
          ret (map_sum id (\<lambda>rs. r' # rs) res))))"

definition custody_status_all :: "runtime \<Rightarrow> string \<Rightarrow> ('z world_scheme, CustodyStoreErrorCode + CustodyRecord list) comp" where
  "custody_status_all E now = bindM (atomic (HGETALL custody_records_key)) (status_list E now)"

section \<open>Reading back what was stored\<close>

lemma state_of_name_name [simp]: "state_of_name (state_name s) = Some s"
  by (cases s) (simp_all add: state_of_name_def)

lemma state_name_inj [simp]: "state_name s = state_name t \<longleftrightarrow> s = t"
  by (metis option.inject state_of_name_name)

lemma state_name_not_absent [simp]: "state_name s \<noteq> ''ABSENT''"
  by (cases s) auto

lemma mode_of_name_name [simp]: "mode_of_name (mode_name m) = Some m"
  by (cases m) (simp_all add: mode_of_name_def)

lemma custodian_json_inverse [simp]: "custodian_of_json (custodian_json c) = Some c"
  by (cases c) (simp add: custodian_of_json_def custodian_json_def)

lemma worktree_json_inverse: "worktree_path wt \<noteq> [] \<Longrightarrow> worktree_of_json (worktree_json wt) = Some wt"
  by (cases wt) (simp add: worktree_of_json_def worktree_json_def)

lemma storedHandoff_json: "valid_handoff h \<Longrightarrow> storedHandoff (handoff_json h) = Some h"
  using admit_handoff_json[of h] by (simp add: storedHandoff_def) (simp add: handoff_json_def)

lemma jget_custody_json:
  "jget (custody_json r) ''state'' = Some (JStr (state_name (state r)))"
  "jget (custody_json r) ''worktree'' = Some (worktree_json (worktree r))"
  "jget (custody_json r) ''custodian'' = map_option custodian_json (custodian r)"
  "jget (custody_json r) ''mode'' = map_option (JStr \<circ> mode_name) (mode r)"
  "jget (custody_json r) ''lease_expires_at'' = map_option JStr (lease_expires_at r)"
  "jget (custody_json r) ''acquired_at'' = map_option JStr (acquired_at r)"
  "jget (custody_json r) ''handoff'' = map_option handoff_json (handoff r)"
  by (simp_all add: custody_json_def map_add_def split: option.splits)

lemma is_JObj_custody_json [simp]: "is_JObj (custody_json r)"
  by (simp add: custody_json_def obj_def)

lemma storedCustodySchema_json:
  assumes "wf_custody r" and "worktree_path (worktree r) \<noteq> []"
  shows "storedCustodySchema (custody_json r) = Some r"
proof -
  have ho: "opt_read storedHandoff (map_option handoff_json (handoff r)) = Some (handoff r)"
    using assms(1) by (auto simp: opt_read_def wf_custody_def storedHandoff_json split: option.splits)
  have cu: "opt_read custodian_of_json (map_option custodian_json (custodian r)) = Some (custodian r)"
    and le: "opt_read str_of_json (map_option JStr (lease_expires_at r)) = Some (lease_expires_at r)"
    by (auto simp: opt_read_def split: option.splits)
  have st: "str_field (custody_json r) ''state'' = Some (state_name (state r))"
    and mo: "Option.bind (str_field (custody_json r) ''mode'') mode_of_name = mode r"
    and ac: "str_field (custody_json r) ''acquired_at'' = acquired_at r"
    by (auto simp: str_field_def jget_custody_json split: option.splits)
  have held: "state r = Held \<longrightarrow> custodian r \<noteq> None \<and> lease_expires_at r \<noteq> None" "state r = Released \<longrightarrow> handoff r \<noteq> None"
    using assms(1) by (auto simp: wf_custody_def)
  show ?thesis
    using held unfolding storedCustodySchema_def st mo ac
    by (simp add: jget_custody_json worktree_json_inverse[OF assms(2)] ho cu le)
qed

lemma wire_handoff_json: "wire (Suc (Suc n)) (handoff_json h)"
  unfolding handoff_json_def by (rule wire_objI) simp

lemma wire_custody_json: "wire_json (custody_json r)"
proof (rule wire_depthI)
  fix n
  have "wire (Suc n) (custodian_json c)" "wire (Suc n) (worktree_json wt)" for n c wt
    unfolding custodian_json_def worktree_json_def by (rule wire_objI; simp)+
  then show "wire (Suc (Suc (Suc (Suc n)))) (custody_json r)"
    unfolding custody_json_def by (intro wire_objI) (simp add: wire_handoff_json split: option.splits)
qed

definition custody_text :: "runtime \<Rightarrow> CustodyRecord \<Rightarrow> string" where
  "custody_text E r = JSON_stringify E (custody_json r)"

context js_runtime
begin

lemma parseStored_text:
  "wf_custody r \<Longrightarrow> worktree_path (worktree r) \<noteq> [] \<Longrightarrow> parseStored E (custody_text E r) = Stored (Some r)"
  by (simp add: parseStored_def custody_text_def parse_stringify wire_custody_json storedCustodySchema_json)

lemma permits_text:
  "custody_permits E (st, sess) (Some (custody_text E r)) \<longleftrightarrow>
     st = state_name (state r) \<and> (sess = [] \<or> (\<exists>c. custodian r = Some c \<and> session_id c = sess))"
  by (auto simp: custody_permits_def custody_text_def decode_stringify wire_custody_json jget_custody_json custodian_json_def)

end

section \<open>Atomicity of claim and release\<close>

lemma conditionalSet_True:
  assumes "conditionalSet E path v st sess w = (Inr True, w')"
  shows "custody_permits E (st, case sess of None \<Rightarrow> [] | Some s \<Rightarrow> s) (map_of (hash_at (next_db w) custody_records_key) path)"
    and "map_of (hash_at (redis w') custody_records_key) = (map_of (hash_at (next_db w) custody_records_key))(path \<mapsto> v)"
    and "history w' = (next_db w, redis w') # history w"
  using custody_cas.atomic_cset_True[of E path v "(st, case sess of None \<Rightarrow> [] | Some s \<Rightarrow> s)" w w'] assms
  by (simp_all add: conditionalSet_def)

lemma claim_persist_Ok:
  assumes "claim_persist E i r ev st w = (Inr (Some (Inr r')), w')"
  shows "transitionCustody E r ev = Inr (Inr r')"
    and "conditionalSet E (ci_worktree_path i) (custody_text E r') st None w = (Inr True, w')"
  using assms
  by (auto simp: claim_persist_def custody_text_def ret_def throw_def bindM_def split: sum.splits prod.splits if_splits)

lemma iso_after_run: "iso_after E now s w = (Inr l, w') \<Longrightarrow> w' = w \<and> l \<noteq> []"
  by (auto simp: iso_after_def toISOString_def ret_def throw_def split: option.splits if_splits)

text \<open>
  What a successful claim did in its last step: it replaced an absent record or one whose stored state
  was unowned, released or forfeited at the instant of the write.
\<close>

definition claim_write :: "runtime \<Rightarrow> CustodyClaimInput \<Rightarrow> CustodyRecord \<Rightarrow> 'z world_scheme \<Rightarrow> bool" where
  "claim_write E i r w' \<longleftrightarrow>
     state r = Held \<and> custodian r = Some (claim_identity i) \<and>
     (\<exists>d h. history w' = (d, redis w') # h \<and>
       (\<exists>st \<in> {''ABSENT'', ''unowned'', ''released'', ''forfeited''}.
          custody_permits E (st, []) (map_of (hash_at d custody_records_key) (ci_worktree_path i))) \<and>
       map_of (hash_at (redis w') custody_records_key)
         = (map_of (hash_at d custody_records_key))(ci_worktree_path i \<mapsto> custody_text E r))"

fun acquires :: "CustodianIdentity \<Rightarrow> CustodyEvent \<Rightarrow> bool" where
  "acquires c (Claim c' _ _) = (c' = c)"
| "acquires c (Assume c' _ _ _) = (c' = c)"
| "acquires c _ = False"

lemma transition_acquired:
  "transitionCustody E r ev = Inr (Inr r') \<Longrightarrow> acquires c ev \<Longrightarrow> state r' = Held \<and> custodian r' = Some c"
  by (cases ev) (auto split: CustodyState.splits if_splits)

lemma claim_persist_write:
  assumes "claim_persist E i r ev st w = (Inr (Some (Inr r')), w')"
    and "acquires (claim_identity i) ev"
    and "st \<in> {''ABSENT'', ''unowned'', ''released'', ''forfeited''}"
  shows "claim_write E i r' w'"
proof -
  note ok = claim_persist_Ok[OF assms(1)]
  have "state r' = Held \<and> custodian r' = Some (claim_identity i)"
    using ok(1) assms(2) transition_acquired by blast
  then show ?thesis
    using conditionalSet_True[OF ok(2)] assms(3) by (auto simp: claim_write_def)
qed

lemma claim_persist_absent:
  "claim_persist E i r (Claim (claim_identity i) l a) ''ABSENT'' w = (Inr (Some (Inr r')), w') \<Longrightarrow> claim_write E i r' w'"
  by (erule claim_persist_write) simp_all

lemma claim_decide_write: "claim_decide E i l r1 w = (Inr (Some (Inr r)), w') \<Longrightarrow> claim_write E i r w'"
  by (cases "state r1") (auto simp: claim_decide_def ret_def intro: claim_persist_write split: if_splits)

lemma claim_attempt_write:
  assumes "claim_attempt E i l w = (Inr (Some (Inr r)), w')"
  shows "claim_write E i r w'"
  using assms unfolding claim_attempt_def
  by (auto simp: ret_def elim!: bindM_Inr_E elim: claim_decide_write
      intro: claim_persist_absent split: StoredRead.splits option.splits)

lemma claim_loop_write:
  "claim_loop n E i l w = (Inr (Inr r), w') \<Longrightarrow> claim_write E i r w'"
proof (induction n arbitrary: w)
  case 0
  then show ?case
    by (auto simp: claim_exhausted_def ret_def elim!: bindM_Inr_E split: StoredRead.splits option.splits if_splits)
next
  case (Suc n)
  then obtain res w1 where "claim_attempt E i l w = (Inr res, w1)"
    and "(case res of Some r \<Rightarrow> ret r | None \<Rightarrow> claim_loop n E i l) w1 = (Inr (Inr r), w')"
    by (auto elim: bindM_Inr_E)
  with Suc.IH show ?case
    by (cases res) (auto simp: ret_def dest: claim_attempt_write)
qed

lemma release_loop_write:
  "release_loop n E i h w = (Inr (Inr r), w') \<Longrightarrow>
     state r = Released \<and> (\<exists>w1. conditionalSet E (ri_worktree_path i) (custody_text E r) ''held'' (Some (ri_session_id i)) w1 = (Inr True, w'))"
proof (induction n arbitrary: w)
  case 0
  then show ?case
    by (auto simp: release_exhausted_def ret_def elim!: bindM_Inr_E split: StoredRead.splits option.splits if_splits)
next
  case (Suc n)
  then obtain res w1 where at: "release_attempt E i h w = (Inr res, w1)"
    and k: "(case res of Some r \<Rightarrow> ret r | None \<Rightarrow> release_loop n E i h) w1 = (Inr (Inr r), w')"
    by (auto elim: bindM_Inr_E)
  show ?case
  proof (cases res)
    case None
    with k Suc.IH show ?thesis by simp
  next
    case (Some x)
    with at k show ?thesis
      by (auto simp: release_attempt_def release_decide_def ret_def throw_def custody_text_def elim!: bindM_Inr_E
          split: StoredRead.splits option.splits if_splits sum.splits) blast+
  qed
qed

text \<open>
  (C2) Whatever other clients do between its steps, a claim that reports success ends with one atomic
  write that names the claimant as custodian, changes no other worktree's record, and at that instant
  found the worktree free: no record, or one whose stored state was unowned, released or forfeited. It
  never overwrites a record whose stored state is held.
\<close>

theorem custody_claim_atomic:
  assumes "custody_claim E i w = (Inr (Inr r), w')"
  shows "claim_write E i r w'"
  using assms unfolding custody_claim_def
  by (auto elim!: bindM_Inr_E dest!: iso_after_run intro: claim_loop_write)

text \<open>
  Whatever other clients do between its steps, a release that reports success ends with one atomic
  write of the released record, made while the stored record was held by the very session that releases.
\<close>

lemma custody_release_atomic:
  assumes "custody_release E i w = (Inr (Inr r), w')" and "ri_session_id i \<noteq> []"
  shows "state r = Released \<and> (\<exists>d h raw j cu. history w' = (d, redis w') # h
     \<and> map_of (hash_at d custody_records_key) (ri_worktree_path i) = Some raw \<and> cjson_decode E raw = Some j
     \<and> jget j ''state'' = Some (JStr ''held'') \<and> jget j ''custodian'' = Some cu
     \<and> jget cu ''session_id'' = Some (JStr (ri_session_id i))
     \<and> map_of (hash_at (redis w') custody_records_key)
         = (map_of (hash_at d custody_records_key))(ri_worktree_path i \<mapsto> custody_text E r))"
proof -
  from assms(1) obtain h where "release_loop 2 E i h w = (Inr (Inr r), w')"
    by (auto simp: custody_release_def ret_def throw_def split: sum.splits)
  from release_loop_write[OF this] obtain w1 :: "'a world_scheme" where rel: "state r = Released"
    and w1: "conditionalSet E (ri_worktree_path i) (custody_text E r) ''held'' (Some (ri_session_id i)) w1 = (Inr True, w')"
    by blast
  from conditionalSet_True[OF w1] assms(2) rel show ?thesis
    by (auto simp: custody_permits_def split: option.splits)
qed

end
