(* ===== verification/Custody_Refinement.thy ===== *)
theory Custody_Refinement
  imports Custody_Store
begin

text \<open>
  What the custody store promises: a partial map from worktree paths to custody records with a claim
  that decides on the record of its worktree alone. Undisturbed, the code's read, expire and
  conditional-write steps implement that claim; disturbed, they keep the store well formed.
\<close>

section \<open>Refinement of an abstract custody table\<close>

text \<open>
  The promise of the store: a partial map from worktree paths to custody records. \<open>custody_at\<close> reads it
  off the database, \<open>custody_store_ok\<close> says that every field of the hash holds a well-formed record
  under its own path.
\<close>

definition custody_at :: "runtime \<Rightarrow> db \<Rightarrow> string \<Rightarrow> CustodyRecord option" where
  "custody_at E d p =
     (case map_of (hash_at d custody_records_key) p of
        None \<Rightarrow> None
      | Some raw \<Rightarrow> (case parseStored E raw of Stored r \<Rightarrow> r | Corrupt \<Rightarrow> None))"

definition storable :: "string \<Rightarrow> CustodyRecord \<Rightarrow> bool" where
  "storable p r \<longleftrightarrow> wf_custody r \<and> worktree_path (worktree r) = p \<and> p \<noteq> []"

definition custody_store_ok :: "runtime \<Rightarrow> db \<Rightarrow> bool" where
  "custody_store_ok E d \<longleftrightarrow> holds d custody_records_key THash \<and>
     (\<forall>p raw. map_of (hash_at d custody_records_key) p = Some raw \<longrightarrow> (\<exists>r. raw = custody_text E r \<and> storable p r))"

definition store_record :: "runtime \<Rightarrow> string \<Rightarrow> CustodyRecord \<Rightarrow> db \<Rightarrow> db" where
  "store_record E p r d = put_hash custody_records_key (AList.update p (custody_text E r) (hash_at d custody_records_key)) d"

definition expire_spec :: "runtime \<Rightarrow> string \<Rightarrow> CustodyRecord \<Rightarrow> CustodyRecord" where
  "expire_spec E now r =
     (if lapsed E r now
      then r\<lparr>state := Forfeited, custodian := None, mode := None, acquired_at := None, lease_expires_at := None\<rparr>
      else r)"

definition acquire_spec :: "CustodyClaimInput \<Rightarrow> string \<Rightarrow> CustodyAcquisitionMode \<Rightarrow> CustodyRecord \<Rightarrow> CustodyRecord" where
  "acquire_spec i lease m r = r\<lparr>state := Held, custodian := Some (claim_identity i), mode := Some m,
     lease_expires_at := Some lease, acquired_at := Some (ci_now i)\<rparr>"

text \<open>The abstract claim: the answer, and the record of the worktree afterwards.\<close>

definition claim_spec :: "runtime \<Rightarrow> CustodyClaimInput \<Rightarrow> string \<Rightarrow> CustodyRecord option
    \<Rightarrow> (CustodyErrorCode + CustodyRecord) \<times> CustodyRecord" where
  "claim_spec E i lease cur =
     (let r = (case cur of None \<Rightarrow> createCustody (claim_worktree i) | Some r0 \<Rightarrow> expire_spec E (ci_now i) r0);
          grant = (\<lambda>m. (Inr (acquire_spec i lease m r), acquire_spec i lease m r))
      in case state r of
           Held \<Rightarrow> (Inl already_held, r)
         | Unowned \<Rightarrow> grant Initial
         | Released \<Rightarrow> grant Graceful_handoff
         | Forfeited \<Rightarrow> if isValidInventory (ci_inventory i) then grant Successor_takeover
                        else (Inl takeover_requires_inventory, r))"

text \<open>The database after the expiry step: its record is the expired one, and nothing else changed.\<close>

definition expired_db :: "runtime \<Rightarrow> string \<Rightarrow> CustodyRecord \<Rightarrow> string \<Rightarrow> db \<Rightarrow> db" where
  "expired_db E p r now d = (if lapsed E r now then store_record E p (expire_spec E now r) d else d)"

definition claim_answer :: "(CustodyErrorCode + CustodyRecord) \<Rightarrow> CustodyOpResult" where
  "claim_answer = map_sum Custody_error id"

definition implements_claim :: "runtime \<Rightarrow> CustodyClaimInput \<Rightarrow> string \<Rightarrow> db \<Rightarrow> CustodyOpResult \<Rightarrow> db \<Rightarrow> bool" where
  "implements_claim E i lease d a d' \<longleftrightarrow>
     (case claim_spec E i lease (custody_at E d (ci_worktree_path i)) of (res, r) \<Rightarrow>
        a = claim_answer res \<and> custody_store_ok E d' \<and> custody_at E d' = (custody_at E d)(ci_worktree_path i \<mapsto> r))"

lemma expire_spec_sel [simp]: "worktree (expire_spec E now r) = worktree r"
  by (simp add: expire_spec_def)

lemma lapsed_transition:
  "lapsed E r now \<Longrightarrow> transitionCustody E r (Expire now) = Inr (Inr (expire_spec E now r)) \<and> state (expire_spec E now r) = Forfeited"
  by (auto simp: lapsed_def expire_spec_def split: option.splits)

lemma wf_expire_spec: "wf_custody r \<Longrightarrow> wf_custody (expire_spec E now r)"
  using lapsed_transition transition_wf by (metis expire_spec_def)

lemma hash_at_store_record [simp]:
  "map_of (hash_at (store_record E p r d) custody_records_key) = (map_of (hash_at d custody_records_key))(p \<mapsto> custody_text E r)"
  "holds (store_record E p r d) custody_records_key THash"
  by (simp_all add: store_record_def view_simps)

context js_runtime
begin

lemma custody_at_text: "storable p r \<Longrightarrow> map_of (hash_at d custody_records_key) p = Some (custody_text E r) \<Longrightarrow> custody_at E d p = Some r"
  by (auto simp: custody_at_def storable_def parseStored_text)

lemma custody_at_cases:
  assumes "custody_store_ok E d"
  obtains "map_of (hash_at d custody_records_key) p = None" and "custody_at E d p = None"
  | r where "map_of (hash_at d custody_records_key) p = Some (custody_text E r)" and "custody_at E d p = Some r" and "storable p r"
proof (cases "map_of (hash_at d custody_records_key) p")
  case None
  then show thesis by (intro that(1)) (simp_all add: custody_at_def)
next
  case (Some raw)
  with assms obtain r where "raw = custody_text E r" and "storable p r"
    unfolding custody_store_ok_def by blast
  with Some custody_at_text show thesis by (intro that(2)) simp_all
qed

lemma store_record_ok: "custody_store_ok E d \<Longrightarrow> storable p r \<Longrightarrow> custody_store_ok E (store_record E p r d)"
  by (auto simp: custody_store_ok_def split: if_splits)

lemma custody_at_store_record:
  "storable p r \<Longrightarrow> custody_at E (store_record E p r d) = (custody_at E d)(p := Some r)"
  by (rule ext) (auto simp: custody_at_def parseStored_text storable_def)

lemma runs_readRecord:
  assumes "custody_store_ok E d"
  shows "runs (readRecord E p) d (Stored (custody_at E d p)) d"
proof -
  have hold: "holds d custody_records_key THash" using assms by (simp add: custody_store_ok_def)
  show ?thesis
    unfolding readRecord_def
  proof (rule runs_bindM[OF runs_atomic])
    show "HGET custody_records_key p d = (Inr (map_of (hash_at d custody_records_key) p), d)"
      using hold by (simp add: run_simps)
    have "(case map_of (hash_at d custody_records_key) p of None \<Rightarrow> Stored None | Some s \<Rightarrow> parseStored E s) = Stored (custody_at E d p)"
      by (rule custody_at_cases[OF assms, of p]) (auto simp: parseStored_text storable_def)
    then show "runs (ret (case map_of (hash_at d custody_records_key) p of None \<Rightarrow> Stored None | Some s \<Rightarrow> parseStored E s))
        d (Stored (custody_at E d p)) d"
      by (simp add: runs_ret)
  qed
qed

lemma runs_conditionalSet:
  assumes "custody_store_ok E d" and "custody_permits E (st, []) (map_of (hash_at d custody_records_key) p)"
  shows "runs (conditionalSet E p (JSON_stringify E (custody_json r)) st None) d True (store_record E p r d)"
  unfolding conditionalSet_def
  by (rule runs_atomic) (use assms custody_cas.cset_permitted in \<open>simp add: store_record_def custody_text_def custody_store_ok_def\<close>)

lemma runs_lazyExpire:
  assumes "custody_store_ok E d" and "custody_at E d p = Some r" and "p = worktree_path (worktree r)"
  shows "runs (lazyExpire E r now) d (expire_spec E now r)
     (if lapsed E r now then store_record E p (expire_spec E now r) d else d)"
proof (cases "lapsed E r now")
  case False
  then show ?thesis by (simp add: lazyExpire_def expire_spec_def runs_ret)
next
  case True
  have "map_of (hash_at d custody_records_key) p = Some (custody_text E r)"
    using assms(1,2) by (rule_tac p = p in custody_at_cases) auto
  moreover have "state r = Held" using True by (simp add: lapsed_def)
  ultimately have "custody_permits E (''held'', []) (map_of (hash_at d custody_records_key) p)"
    by (simp add: permits_text)
  from runs_conditionalSet[OF assms(1) this] True assms(3) lapsed_transition[OF True] show ?thesis
    by (auto simp: lazyExpire_def intro: runs_thenM runs_ret)
qed

lemma custody_at_same: "custody_at E d p = Some r \<Longrightarrow> (custody_at E d)(p \<mapsto> r) = custody_at E d"
  by (rule ext) simp

text \<open>The write of a claim, on a database whose record of the worktree (or its absence) permits it.\<close>

lemma runs_claim_persist:
  assumes "custody_store_ok E d" and "custody_permits E (st, []) (map_of (hash_at d custody_records_key) (ci_worktree_path i))"
    and "transitionCustody E r ev = Inr (Inr r')"
  shows "runs (claim_persist E i r ev st) d (Some (Inr r')) (store_record E (ci_worktree_path i) r' d)"
  unfolding claim_persist_def assms(3) sum.case
  by (rule runs_bindM[OF runs_conditionalSet[OF assms(1,2)]]) (simp add: runs_ret)

lemma acquire_spec_transition:
  assumes "isValidCustodian (claim_identity i)" and "lease \<noteq> []" and "ci_now i \<noteq> []"
  shows "state r = Unowned \<Longrightarrow> transitionCustody E r (Claim (claim_identity i) lease (Some (ci_now i))) = Inr (Inr (acquire_spec i lease Initial r))"
    and "state r = Released \<Longrightarrow> transitionCustody E r (Claim (claim_identity i) lease (Some (ci_now i))) = Inr (Inr (acquire_spec i lease Graceful_handoff r))"
    and "state r = Forfeited \<Longrightarrow> isValidInventory (ci_inventory i) \<Longrightarrow>
      transitionCustody E r (Assume (claim_identity i) lease (the (ci_inventory i)) (Some (ci_now i))) = Inr (Inr (acquire_spec i lease Successor_takeover r))"
  using assms by (auto simp: bad_acquisition_def acquire_spec_def isValidInventory_def split: option.splits)

lemma storable_acquire:
  assumes "isValidCustodian (claim_identity i)" and "lease \<noteq> []" and "ci_now i \<noteq> []" and "storable p r" and "state r \<noteq> Held"
  shows "storable p (acquire_spec i lease m r)"
  using assms by (cases "state r") (auto simp: storable_def wf_custody_def acquire_spec_def)

lemma storable_create: "ci_worktree_path i \<noteq> [] \<Longrightarrow> storable (ci_worktree_path i) (createCustody (claim_worktree i))"
  by (simp add: storable_def) (simp add: createCustody_def claim_worktree_def)

lemma storable_expire: "storable p r \<Longrightarrow> storable p (expire_spec E now r)"
  by (simp add: storable_def wf_expire_spec)

lemma expired_db:
  assumes "custody_store_ok E d" and "custody_at E d p = Some r" and "storable p r"
  shows "custody_store_ok E (expired_db E p r now d)"
    and "custody_at E (expired_db E p r now d) = (custody_at E d)(p \<mapsto> expire_spec E now r)"
    and "map_of (hash_at (expired_db E p r now d) custody_records_key) p = Some (custody_text E (expire_spec E now r))"
proof -
  have raw: "map_of (hash_at d custody_records_key) p = Some (custody_text E r)"
    using assms(1) by (rule custody_at_cases[where p = p]) (use assms(2) in auto)
  show "custody_store_ok E (expired_db E p r now d)"
    using assms by (simp add: expired_db_def store_record_ok storable_expire)
  show "custody_at E (expired_db E p r now d) = (custody_at E d)(p \<mapsto> expire_spec E now r)"
    using assms by (simp add: expired_db_def custody_at_store_record storable_expire) (simp add: expire_spec_def custody_at_same)
  show "map_of (hash_at (expired_db E p r now d) custody_records_key) p = Some (custody_text E (expire_spec E now r))"
    using raw by (simp add: expired_db_def) (simp add: expire_spec_def)
qed

lemma claim_attempt_known:
  assumes ok: "custody_store_ok E d" and at: "custody_at E d p = Some r0" and st: "storable p r0"
    and i: "isValidCustodian (claim_identity i)" "lease \<noteq> []" "ci_now i \<noteq> []" "p = ci_worktree_path i"
  shows "\<exists>a d'. runs (claim_attempt E i lease :: ('z world_scheme, _) comp) d (Some a) d' \<and> implements_claim E i lease d a d'"
proof -
  define r where "r = expire_spec E (ci_now i) r0"
  define d1 where "d1 = expired_db E p r0 (ci_now i) d"
  note d1 = expired_db[OF ok at st, of "ci_now i", folded d1_def r_def]
  have str: "storable p r" unfolding r_def using st by (rule storable_expire)
  have exp: "runs (lazyExpire E r0 (ci_now i) :: ('z world_scheme, _) comp) d r d1"
    unfolding r_def d1_def expired_db_def by (rule runs_lazyExpire[OF ok at]) (use st in \<open>simp add: storable_def\<close>)
  have perm: "custody_permits E (state_name (state r), []) (map_of (hash_at d1 custody_records_key) (ci_worktree_path i))"
    using d1(3) i(4) by (simp add: permits_text)
  have run: "runs (claim_attempt E i lease :: ('z world_scheme, _) comp) d a d'"
    if "runs (claim_decide E i lease r :: ('z world_scheme, _) comp) d1 a d'" for a d'
    unfolding claim_attempt_def
    by (rule runs_bindM[OF runs_readRecord[OF ok]]) (use at i(4) that in \<open>auto intro!: runs_bindM[OF exp]\<close>)
  have grant: "\<exists>d'. runs (claim_persist E i r ev (state_name (state r)) :: ('z world_scheme, _) comp) d1 (Some (Inr (acquire_spec i lease m r))) d'
      \<and> custody_store_ok E d' \<and> custody_at E d' = (custody_at E d)(p \<mapsto> acquire_spec i lease m r)"
    if "transitionCustody E r ev = Inr (Inr (acquire_spec i lease m r))" and "state r \<noteq> Held" for ev m
    using runs_claim_persist[OF d1(1) perm that(1)] storable_acquire[OF i(1-3) str that(2)] d1 i(4)
    by (intro exI[of _ "store_record E p (acquire_spec i lease m r) d1"]) (auto simp: store_record_ok custody_at_store_record)
  have conclude: ?thesis
    if "runs (claim_decide E i lease r :: ('z world_scheme, _) comp) d1 (Some (claim_answer res)) d'"
      and "claim_spec E i lease (Some r0) = (res, r')" and "custody_store_ok E d'" and "custody_at E d' = (custody_at E d)(p \<mapsto> r')" for res r' d'
    using run[OF that(1)] that(2-4) at i(4) by (auto simp: implements_claim_def)
  show ?thesis
  proof (cases "state r")
    case Held
    with d1 show ?thesis
      by (intro conclude[of "Inl already_held" d1 r]) (simp_all add: claim_decide_def runs_ret claim_spec_def r_def claim_answer_def)
  next
    case Forfeited
    show ?thesis
    proof (cases "isValidInventory (ci_inventory i)")
      case True
      with grant[OF acquire_spec_transition(3)[OF i(1-3) Forfeited]] Forfeited show ?thesis
        using conclude[of "Inr (acquire_spec i lease Successor_takeover r)"]
        by (auto simp: claim_decide_def claim_answer_def claim_spec_def r_def Let_def)
    next
      case False
      with d1 Forfeited show ?thesis
        by (intro conclude[of "Inl takeover_requires_inventory" d1 r]) (simp_all add: claim_decide_def runs_ret claim_spec_def r_def claim_answer_def)
    qed
  next
    case Unowned
    with grant[OF acquire_spec_transition(1)[OF i(1-3) Unowned]] show ?thesis
      using conclude[of "Inr (acquire_spec i lease Initial r)"]
      by (auto simp: claim_decide_def claim_answer_def claim_spec_def r_def Let_def)
  next
    case Released
    with grant[OF acquire_spec_transition(2)[OF i(1-3) Released]] show ?thesis
      using conclude[of "Inr (acquire_spec i lease Graceful_handoff r)"]
      by (auto simp: claim_decide_def claim_answer_def claim_spec_def r_def Let_def)
  qed
qed

lemma claim_attempt_absent:
  assumes ok: "custody_store_ok E d" and at: "custody_at E d p = None"
    and i: "isValidCustodian (claim_identity i)" "lease \<noteq> []" "ci_now i \<noteq> []" "p = ci_worktree_path i" "p \<noteq> []"
  shows "\<exists>a d'. runs (claim_attempt E i lease :: ('z world_scheme, _) comp) d (Some a) d' \<and> implements_claim E i lease d a d'"
proof -
  let ?r = "createCustody (claim_worktree i)"
  have st: "state ?r = Unowned" by (simp add: createCustody_def)
  have new: "storable p (acquire_spec i lease Initial ?r)"
    using storable_acquire[OF i(1-3) storable_create] i(4,5) st by simp
  have "custody_permits E (''ABSENT'', []) (map_of (hash_at d custody_records_key) p)"
    using ok by (rule custody_at_cases[where p = p]) (use at in \<open>auto simp: custody_permits_def\<close>)
  from runs_claim_persist[OF ok this[unfolded i(4)] acquire_spec_transition(1)[OF i(1-3) st]]
  have "runs (claim_attempt E i lease :: ('z world_scheme, _) comp) d (Some (Inr (acquire_spec i lease Initial ?r)))
      (store_record E p (acquire_spec i lease Initial ?r) d)"
    unfolding claim_attempt_def by (intro runs_bindM[OF runs_readRecord[OF ok]]) (use at i(4) in simp)
  moreover have "claim_spec E i lease None = (Inr (acquire_spec i lease Initial ?r), acquire_spec i lease Initial ?r)"
    using st by (simp add: claim_spec_def Let_def)
  ultimately show ?thesis
    using store_record_ok[OF ok new] custody_at_store_record[OF new] at i(4)
    by (auto simp: implements_claim_def claim_answer_def)
qed

lemma claim_implements:
  assumes ok: "custody_store_ok E d" and i: "isValidCustodian (claim_identity i)" "ci_worktree_path i \<noteq> []" "ci_now i \<noteq> []"
    and lease: "\<And>w :: 'z world_scheme. iso_after E (ci_now i) (ci_lease_seconds i) w = (Inr lease, w)" "lease \<noteq> []"
  shows "\<exists>a d'. runs (custody_claim E i :: ('z world_scheme, _) comp) d a d' \<and> implements_claim E i lease d a d'"
proof -
  obtain a d' where a: "runs (claim_attempt E i lease :: ('z world_scheme, _) comp) d (Some a) d'" "implements_claim E i lease d a d'"
    using claim_attempt_known[OF ok _ _ i(1) lease(2) i(3) refl] claim_attempt_absent[OF ok _ i(1) lease(2) i(3) refl i(2)]
    by (rule_tac p = "ci_worktree_path i" in custody_at_cases[OF ok]) blast+
  have "runs (claim_loop 2 E i lease :: ('z world_scheme, _) comp) d a d'"
    unfolding numeral_2_eq_2 claim_loop.simps by (rule runs_bindM[OF a(1)]) (simp add: runs_ret)
  then have "runs (custody_claim E i :: ('z world_scheme, _) comp) d a d'"
    unfolding custody_claim_def by (intro runs_bindM[where a = lease and d' = d]) (auto simp: runs_def lease(1))
  with a(2) show ?thesis by blast
qed

end

text \<open>
  (C26) With nothing interfering, a claim on a well-formed store does what the abstract claim says: it
  always returns, with the answer of \<open>claim_spec\<close> for the record the worktree had, and afterwards the table
  differs in that worktree's record alone, which is the one \<open>claim_spec\<close> gives.
\<close>

theorem custody_claim_refines:
  assumes "js_runtime E" and "custody_store_ok E d" and "quiet w" and "redis w = d"
    and "isValidCustodian (claim_identity i)" and "ci_worktree_path i \<noteq> []" and "ci_now i \<noteq> []"
    and "date_parse E (ci_now i) = Some t" and "\<bar>t + ci_lease_seconds i * 1000\<bar> \<le> 8640000000000000"
  shows "\<exists>w'. custody_claim E i w =
       (Inr (claim_answer (fst (claim_spec E i (iso_from_ms (t + ci_lease_seconds i * 1000)) (custody_at E d (ci_worktree_path i))))), w')
     \<and> custody_store_ok E (redis w')
     \<and> custody_at E (redis w') = (custody_at E d)(ci_worktree_path i \<mapsto>
         snd (claim_spec E i (iso_from_ms (t + ci_lease_seconds i * 1000)) (custody_at E d (ci_worktree_path i))))"
proof -
  let ?lease = "iso_from_ms (t + ci_lease_seconds i * 1000)"
  have "iso_after E (ci_now i) (ci_lease_seconds i) w = (Inr ?lease, w)" for w :: "'a world_scheme"
    using assms(8,9) by (simp add: iso_after_def toISOString_def ret_def)
  from js_runtime.claim_implements[OF assms(1,2,5-7) this iso_from_ms_not_Nil] obtain a d'
    where "runs (custody_claim E i :: ('a world_scheme, _) comp) d a d'" and "implements_claim E i ?lease d a d'"
    by blast
  with runsD[OF _ assms(3,4)] show ?thesis
    by (fastforce simp: implements_claim_def split: prod.splits)
qed

section \<open>Release\<close>

text \<open>The abstract release of an admitted handoff: the answer, and the table afterwards.\<close>

definition released :: "HandoffRecordV1 \<Rightarrow> CustodyRecord \<Rightarrow> CustodyRecord" where
  "released h r = r\<lparr>state := Released, custodian := None, mode := None, acquired_at := None, lease_expires_at := None, handoff := Some h\<rparr>"

definition release_spec :: "runtime \<Rightarrow> CustodyReleaseInput \<Rightarrow> HandoffRecordV1 \<Rightarrow> (string \<Rightarrow> CustodyRecord option)
    \<Rightarrow> CustodyOpResult \<times> (string \<Rightarrow> CustodyRecord option)" where
  "release_spec E i h table =
     (case table (ri_worktree_path i) of
        None \<Rightarrow> (Inl (Custody_error not_held), table)
      | Some r0 \<Rightarrow>
          let r = expire_spec E (ri_now i) r0;
              table' = table(ri_worktree_path i \<mapsto> r)
          in if state r \<noteq> Held then (Inl (Custody_error not_held), table')
             else if map_option session_id (custodian r) \<noteq> Some (ri_session_id i) then (Inl not_custodian, table')
             else (Inr (released h r), table(ri_worktree_path i \<mapsto> released h r)))"

context js_runtime
begin

lemma storable_released: "valid_handoff h \<Longrightarrow> storable p r \<Longrightarrow> storable p (released h r)"
  by (simp add: storable_def released_def wf_custody_def)

lemma release_attempt_implements:
  assumes ok: "custody_store_ok E d" and h: "valid_handoff h" and i: "ri_session_id i \<noteq> []"
  shows "\<exists>a d'. runs (release_attempt E i h :: ('z world_scheme, _) comp) d (Some a) d' \<and> custody_store_ok E d'
     \<and> release_spec E i h (custody_at E d) = (a, custody_at E d')"
proof -
  let ?p = "ri_worktree_path i"
  note start = runs_bindM[OF runs_readRecord[OF ok]]
  from ok show ?thesis
  proof (rule custody_at_cases[where p = ?p])
    assume none: "custody_at E d ?p = None"
    then have "runs (release_attempt E i h :: ('z world_scheme, _) comp) d (Some (Inl (Custody_error not_held))) d"
      unfolding release_attempt_def by (intro start) (simp add: runs_ret)
    with none ok show ?thesis by (auto simp: release_spec_def)
  next
    fix r0 assume at: "custody_at E d ?p = Some r0" and st: "storable ?p r0"
    define r where "r = expire_spec E (ri_now i) r0"
    define d1 where "d1 = expired_db E ?p r0 (ri_now i) d"
    note d1 = expired_db[OF ok at st, of "ri_now i", folded d1_def r_def]
    have exp: "runs (lazyExpire E r0 (ri_now i) :: ('z world_scheme, _) comp) d r d1"
      unfolding r_def d1_def expired_db_def by (rule runs_lazyExpire[OF ok at]) (use st in \<open>simp add: storable_def\<close>)
    have run: "runs (release_attempt E i h :: ('z world_scheme, _) comp) d a d'"
      if "runs (release_decide E i h r :: ('z world_scheme, _) comp) d1 a d'" for a d'
      unfolding release_attempt_def by (intro start) (use at that in \<open>auto intro!: runs_bindM[OF exp]\<close>)
    consider "state r \<noteq> Held" | "state r = Held" "map_option session_id (custodian r) \<noteq> Some (ri_session_id i)"
      | "state r = Held" "map_option session_id (custodian r) = Some (ri_session_id i)" by blast
    then show ?thesis
    proof cases
      case 1
      then have "runs (release_decide E i h r :: ('z world_scheme, _) comp) d1 (Some (Inl (Custody_error not_held))) d1"
        by (auto simp: release_decide_def runs_ret split: option.splits)
      from run[OF this] d1 at 1 show ?thesis by (auto simp: release_spec_def r_def Let_def)
    next
      case 2
      then have "runs (release_decide E i h r :: ('z world_scheme, _) comp) d1 (Some (Inl not_custodian)) d1"
        by (auto simp: release_decide_def runs_ret split: option.splits)
      from run[OF this] d1 at 2 show ?thesis by (auto simp: release_spec_def r_def Let_def)
    next
      case 3
      let ?d2 = "store_record E ?p (released h r) d1"
      have new: "storable ?p (released h r)" unfolding r_def using st h by (intro storable_released storable_expire)
      have "custody_permits E (''held'', ri_session_id i) (map_of (hash_at d1 custody_records_key) ?p)"
        using d1(3) 3 i by (auto simp: permits_text)
      then have "runs (conditionalSet E ?p (custody_text E (released h r)) ''held'' (Some (ri_session_id i)) :: ('z world_scheme, _) comp) d1 True ?d2"
        unfolding conditionalSet_def
        by (intro runs_atomic) (use d1(1) custody_cas.cset_permitted in \<open>simp add: store_record_def custody_store_ok_def\<close>)
      then have "runs (release_decide E i h r :: ('z world_scheme, _) comp) d1 (Some (Inr (released h r))) ?d2"
        unfolding release_decide_def using 3 admit_handoff_json[OF h]
        by (auto intro!: runs_bindM runs_ret simp: custody_text_def released_def)
      from run[OF this] d1 at 3 store_record_ok[OF d1(1) new] custody_at_store_record[OF new] show ?thesis
        by (auto simp: release_spec_def r_def Let_def)
    qed
  qed
qed

lemma release_implements:
  assumes "custody_store_ok E d" and "admitHandoffRecord (ri_handoff i) = Inr (Inr h)" and "ri_session_id i \<noteq> []"
  shows "\<exists>a d'. runs (custody_release E i :: ('z world_scheme, _) comp) d a d' \<and> custody_store_ok E d'
     \<and> release_spec E i h (custody_at E d) = (a, custody_at E d')"
proof -
  from release_attempt_implements[OF assms(1) admit_valid[OF assms(2)] assms(3)] obtain a d'
    where a: "runs (release_attempt E i h :: ('z world_scheme, _) comp) d (Some a) d'" "custody_store_ok E d'"
      "release_spec E i h (custody_at E d) = (a, custody_at E d')" by blast
  have "runs (release_loop 2 E i h :: ('z world_scheme, _) comp) d a d'"
    unfolding numeral_2_eq_2 release_loop.simps by (rule runs_bindM[OF a(1)]) (simp add: runs_ret)
  with a assms(2) show ?thesis by (auto simp: custody_release_def)
qed

end

text \<open>
  (C27) With nothing interfering, a release on a well-formed store does what the abstract release says:
  it refuses a worktree without a record, one not held or whose lease has lapsed, and one held by another
  session; otherwise the record becomes released with the handoff and no other record changes.
\<close>

theorem custody_release_refines:
  assumes "js_runtime E" and "custody_store_ok E (redis w)" and "quiet w"
    and "admitHandoffRecord (ri_handoff i) = Inr (Inr h)" and "ri_session_id i \<noteq> []"
  shows "\<exists>w'. custody_release E i w = (Inr (fst (release_spec E i h (custody_at E (redis w)))), w')
     \<and> custody_store_ok E (redis w') \<and> custody_at E (redis w') = snd (release_spec E i h (custody_at E (redis w)))"
proof -
  from js_runtime.release_implements[OF assms(1,2,4,5)] obtain a d'
    where "runs (custody_release E i :: ('a world_scheme, _) comp) (redis w) a d'" "custody_store_ok E d'"
      "release_spec E i h (custody_at E (redis w)) = (a, custody_at E d')" by blast
  with runsD[OF _ assms(3) refl] show ?thesis by fastforce
qed

section \<open>A lapsed lease and a successor\<close>

text \<open>
  The world in which another client's whole claim falls between the read and the conditional write of a
  status call.
\<close>

definition claim_between :: "runtime \<Rightarrow> CustodyClaimInput \<Rightarrow> db \<Rightarrow> world" where
  "claim_between E i d = \<lparr>redis = d, interfere = (\<lambda>n d'. if n = 1 then redis (snd (custody_claim E i (quiet_world d'))) else d'), history = []\<rparr>"

context js_runtime
begin

lemma successor_claim:
  assumes ok: "custody_store_ok E d" and at: "custody_at E d (ci_worktree_path i) = Some r" and lap: "lapsed E r (ci_now i)"
    and i: "isValidCustodian (claim_identity i)" "ci_worktree_path i \<noteq> []" "ci_now i \<noteq> []" "isValidInventory (ci_inventory i)"
    and t: "date_parse E (ci_now i) = Some t" "\<bar>t + ci_lease_seconds i * 1000\<bar> \<le> 8640000000000000"
  shows "\<exists>r' w'. custody_claim E i (quiet_world d) = (Inr (Inr r'), w') \<and> custody_store_ok E (redis w')
     \<and> custody_at E (redis w') (ci_worktree_path i) = Some r' \<and> state r' = Held \<and> custodian r' = Some (claim_identity i)
     \<and> lease_expires_at r' = Some (iso_from_ms (t + ci_lease_seconds i * 1000))"
proof -
  let ?lease = "iso_from_ms (t + ci_lease_seconds i * 1000)"
  have "iso_after E (ci_now i) (ci_lease_seconds i) w = (Inr ?lease, w)" for w :: world
    using t by (simp add: iso_after_def toISOString_def ret_def)
  from claim_implements[OF ok i(1-3) this iso_from_ms_not_Nil] obtain a d'
    where "runs (custody_claim E i :: (world, _) comp) d a d'" and im: "implements_claim E i ?lease d a d'" by blast
  from runsD[OF this(1), of "quiet_world d"] obtain w' where "custody_claim E i (quiet_world d) = (Inr a, w')" "redis w' = d'"
    by auto
  moreover have "claim_spec E i ?lease (Some r) = (Inr (acquire_spec i ?lease Successor_takeover (expire_spec E (ci_now i) r)),
      acquire_spec i ?lease Successor_takeover (expire_spec E (ci_now i) r))"
    using lapsed_transition[OF lap] i(4) by (simp add: claim_spec_def Let_def)
  ultimately show ?thesis
    using im at by (auto simp: implements_claim_def claim_answer_def acquire_spec_def)
qed

lemma status_overwrites:
  assumes ok: "custody_store_ok E d" and at: "custody_at E d p = Some r" and lap: "lapsed E r now"
    and next0: "next_db w = d" and next1: "interfere w (Suc (length (history w))) d = d1"
    and d1: "custody_store_ok E d1" "custody_at E d1 p = Some r1" "state r1 = Held"
  shows "\<exists>w'. custody_status E p now w = (Inr (Inr (Some (expire_spec E now r))), w') \<and> custody_at E (redis w') p = Some (expire_spec E now r)"
proof -
  have st: "storable p r" and raw: "map_of (hash_at d custody_records_key) p = Some (custody_text E r)"
    using custody_at_cases[OF ok, of p] at by auto
  have raw1: "map_of (hash_at d1 custody_records_key) p = Some (custody_text E r1)"
    using custody_at_cases[OF d1(1), of p] d1(2) by auto
  have "HGET custody_records_key p d = (Inr (Some (custody_text E r)), d)"
    using ok raw by (simp add: run_simps custody_store_ok_def)
  then have rd: "readRecord E p w = (Inr (Stored (Some r)), after_step w d)"
    using st next0 parseStored_text[of r] by (simp add: readRecord_def run_simps storable_def)
  have nx: "next_db (after_step w d) = d1" using next1 by (simp add: next_db_def)
  have "custody_permits E (''held'', []) (map_of (hash_at d1 custody_records_key) p)"
    using raw1 d1(3) by (simp add: permits_text)
  with d1(1) have "custody_conditional_set E p (custody_text E (expire_spec E now r)) (''held'', []) d1
      = (Inr True, store_record E p (expire_spec E now r) d1)"
    by (simp add: custody_cas.cset_permitted custody_store_ok_def store_record_def)
  then have "lazyExpire E r now (after_step w d) = (Inr (expire_spec E now r),
      after_step (after_step w d) (store_record E p (expire_spec E now r) d1))"
    using lap lapsed_transition[OF lap] st nx
    by (auto simp: lazyExpire_def conditionalSet_def run_simps custody_text_def[symmetric] storable_def simp del: transitionCustody.simps)
  with rd st show ?thesis
    by (simp add: custody_status_def run_simps custody_at_store_record storable_expire)
qed

end

text \<open>
  (C29) The conditional write of the lazy expiry only asks that the stored record still be held, not
  that it still be the record that lapsed. When a successor's takeover falls between the read and the write
  of a status call, the takeover reports success with a fresh lease, and the status call then replaces
  the successor's live hold by a forfeited record.
\<close>

theorem status_forfeits_successor:
  assumes "js_runtime E" and "custody_store_ok E d" and "custody_at E d (ci_worktree_path i) = Some r" and "lapsed E r (ci_now i)"
    and "isValidCustodian (claim_identity i)" and "ci_worktree_path i \<noteq> []" and "ci_now i \<noteq> []" and "isValidInventory (ci_inventory i)"
    and "date_parse E (ci_now i) = Some t" and "\<bar>t + ci_lease_seconds i * 1000\<bar> \<le> 8640000000000000"
  shows "(\<exists>r'. fst (custody_claim E i (quiet_world d)) = Inr (Inr r') \<and> custodian r' = Some (claim_identity i)
         \<and> lease_expires_at r' = Some (iso_from_ms (t + ci_lease_seconds i * 1000)))
     \<and> (\<exists>r'' w''. custody_status E (ci_worktree_path i) (ci_now i) (claim_between E i d) = (Inr (Inr (Some r'')), w'')
         \<and> custody_at E (redis w'') (ci_worktree_path i) = Some r'' \<and> state r'' = Forfeited)"
proof -
  from js_runtime.successor_claim[OF assms] obtain r' w' where c: "custody_claim E i (quiet_world d) = (Inr (Inr r'), w')"
    "custody_store_ok E (redis w')" "custody_at E (redis w') (ci_worktree_path i) = Some r'" "state r' = Held"
    "custodian r' = Some (claim_identity i)" "lease_expires_at r' = Some (iso_from_ms (t + ci_lease_seconds i * 1000))" by blast
  have "next_db (claim_between E i d) = d"
    and "interfere (claim_between E i d) (Suc (length (history (claim_between E i d)))) d = redis w'"
    by (simp_all add: claim_between_def next_db_def c(1))
  from js_runtime.status_overwrites[OF assms(1-4) this c(2-4)] c lapsed_transition[OF assms(4)] show ?thesis
    by (auto simp del: transitionCustody.simps)
qed

section \<open>Concrete runs\<close>

definition demo_claim :: "string \<Rightarrow> int \<Rightarrow> CustodyClaimInput" where
  "demo_claim sess t = \<lparr>ci_worktree_path = ''/w'', ci_repo_head = ''abc'', ci_tree_fingerprint = ''fp'', ci_lease_seconds = 60,
     ci_inventory = Some [''file''], ci_actor_name = ''alice'', ci_session_id = sess, ci_now = iso_from_ms t\<rparr>"

definition demo_handoff :: HandoffRecordV1 where
  "demo_handoff = \<lparr>h_authored_by = Origin, h_repo_head = ''abc'', h_tracked_tree_state = Clean,
     h_untracked_inventory = [], h_unfinished_work = ''x'', h_hazards = [], h_next_step = ''y''\<rparr>"

definition demo_release :: CustodyReleaseInput where
  "demo_release = \<lparr>ri_worktree_path = ''/w'', ri_session_id = ''s1'', ri_handoff = handoff_json demo_handoff, ri_now = iso_from_ms 1000\<rparr>"

definition demo_record :: CustodyRecord where
  "demo_record = \<lparr>state = Held, worktree = claim_worktree (demo_claim ''s1'' 0),
     custodian = Some (claim_identity (demo_claim ''s1'' 0)), mode = Some Initial, acquired_at = Some (iso_from_ms 0),
     lease_expires_at = Some (iso_from_ms 60000), handoff = None\<rparr>"

definition demo_db :: db where
  "demo_db = store_record std_env ''/w'' demo_record empty_db"

lemma date_parse_std [simp]: "valid_instant t \<Longrightarrow> date_parse std_env (iso_from_ms t) = Some t"
  by (rule std.date_parse_iso)

lemma empty_db_ok: "custody_store_ok std_env empty_db" "custody_at std_env empty_db p = None"
  by (simp_all add: custody_store_ok_def empty_db_def holds_def live_def custody_at_def)

lemma storable_demo: "storable ''/w'' demo_record"
  by (simp add: storable_def demo_record_def wf_custody_def claim_worktree_def demo_claim_def isValidCustodian_def claim_identity_def)

lemma demo_db_ok: "custody_store_ok std_env demo_db" "custody_at std_env demo_db ''/w'' = Some demo_record"
  unfolding demo_db_def using storable_demo
  by (simp_all add: std.store_record_ok std.custody_at_store_record empty_db_ok)

lemma demo_lapsed: "lapsed std_env demo_record (iso_from_ms 61000)" "\<not> lapsed std_env demo_record (iso_from_ms 1000)"
  by (simp_all add: lapsed_def demo_record_def valid_instant_def)

lemma demo_admit: "admitHandoffRecord (ri_handoff demo_release) = Inr (Inr demo_handoff)"
  by (simp add: demo_release_def admit_handoff_json valid_handoff_def demo_handoff_def)

lemma demo_claim_sel [simp]:
  "ci_worktree_path (demo_claim s t) = ''/w''" "ci_now (demo_claim s t) = iso_from_ms t" "ci_lease_seconds (demo_claim s t) = 60"
  "isValidInventory (ci_inventory (demo_claim s t))" "s \<noteq> [] \<Longrightarrow> isValidCustodian (claim_identity (demo_claim s t))"
  by (simp_all add: demo_claim_def isValidInventory_def isValidCustodian_def claim_identity_def)

lemma demo_release_sel [simp]:
  "ri_worktree_path demo_release = ''/w''" "ri_session_id demo_release = ''s1''" "ri_now demo_release = iso_from_ms 1000"
  by (simp_all add: demo_release_def)

lemma demo_release_spec:
  "release_spec std_env demo_release demo_handoff (custody_at std_env demo_db)
     = (Inr (released demo_handoff demo_record), (custody_at std_env demo_db)(''/w'' \<mapsto> released demo_handoff demo_record))"
proof -
  have "expire_spec std_env (iso_from_ms 1000) demo_record = demo_record"
    using demo_lapsed(2) by (simp add: expire_spec_def)
  moreover have "state demo_record = Held" "map_option session_id (custodian demo_record) = Some ''s1''"
    by (simp_all add: demo_record_def claim_identity_def demo_claim_def)
  ultimately show ?thesis by (simp add: release_spec_def Let_def demo_db_ok)
qed

theorem custody_claim_refines_witness:
  "\<exists>w'. custody_claim std_env (demo_claim ''s1'' 0) (quiet_world empty_db) = (Inr (Inr demo_record), w')
     \<and> custody_at std_env (redis w') ''/w'' = Some demo_record"
  using custody_claim_refines[OF std.js_runtime_axioms empty_db_ok(1) quiet_quiet_world, of "demo_claim ''s1'' 0" 0]
  by (auto simp: valid_instant_def empty_db_ok claim_spec_def Let_def createCustody_def claim_answer_def acquire_spec_def demo_record_def)

theorem custody_release_refines_witness:
  "\<exists>w'. custody_release std_env demo_release (quiet_world demo_db) = (Inr (Inr (released demo_handoff demo_record)), w')
     \<and> custody_at std_env (redis w') ''/w'' = Some (released demo_handoff demo_record)"
  using custody_release_refines[OF std.js_runtime_axioms, of "quiet_world demo_db" demo_release demo_handoff] demo_db_ok(1) demo_admit
  by (auto simp: demo_release_spec)

theorem status_forfeits_successor_witness:
  "\<exists>r'' w''. custody_status std_env ''/w'' (iso_from_ms 61000) (claim_between std_env (demo_claim ''s2'' 61000) demo_db) = (Inr (Inr (Some r'')), w'')
     \<and> custody_at std_env (redis w'') ''/w'' = Some r'' \<and> state r'' = Forfeited"
  using status_forfeits_successor[OF std.js_runtime_axioms demo_db_ok(1), of "demo_claim ''s2'' 61000" demo_record 61000] demo_db_ok(2) demo_lapsed(1)
  by (simp add: valid_instant_def)

theorem custody_claim_atomic_witness:
  "\<exists>r w'. custody_claim std_env (demo_claim ''s2'' 61000) (quiet_world demo_db) = (Inr (Inr r), w') \<and> claim_write std_env (demo_claim ''s2'' 61000) r w'"
  using std.successor_claim[OF demo_db_ok(1), of "demo_claim ''s2'' 61000" demo_record 61000] demo_db_ok(2) demo_lapsed(1) custody_claim_atomic
  by (simp add: valid_instant_def) blast

end
