(* ===== verification/Wake_Lease.thy ===== *)
theory Wake_Lease
  imports Mailbox_Props Task_Claims
begin

text \<open>
  The wake leases of \<open>src/src/core/wake-lease.ts\<close> and their three scripts. A lease is a JSON record under
  one key per actor; the key's time to live is its expiry. The end of the theory shows that at most one
  activation is in flight per actor, whatever the order in which controllers acquire, report, clear and
  time passes.
\<close>

section \<open>Data\<close>

text \<open>A lease as \<open>parseLease\<close> admits it: the spawn evidence is not checked on read.\<close>

record WakeLease =
  wl_lease_id :: string
  wl_actor_id :: string
  wl_issued_by_session :: string
  wl_issued_at :: string
  wl_expires_at :: string
  wl_spawned_pid :: "json option"
  wl_spawned_at :: "json option"

datatype WakeLeaseError = invalid_lease_duration | lease_store_corrupt

record WakeLeaseAcquireInput =
  wa_actor_id :: string
  wa_issued_by_session :: string
  wa_lease_seconds :: js_number
  wa_now :: string

definition lease_json :: "WakeLease \<Rightarrow> json" where
  "lease_json l = obj ([(''lease_id'', JStr (wl_lease_id l)), (''actor_id'', JStr (wl_actor_id l)),
     (''issued_by_session'', JStr (wl_issued_by_session l)), (''issued_at'', JStr (wl_issued_at l)), (''expires_at'', JStr (wl_expires_at l))]
     @ opt_member ''spawned_pid'' (wl_spawned_pid l) @ opt_member ''spawned_at'' (wl_spawned_at l))"

definition parseLease :: "runtime \<Rightarrow> string \<Rightarrow> WakeLease option" where
  "parseLease E raw =
     (case JSON_parse E raw of
        None \<Rightarrow> None
      | Some j \<Rightarrow>
          (case (str_field j ''lease_id'', str_field j ''actor_id'', str_field j ''issued_by_session'', str_field j ''issued_at'', str_field j ''expires_at'') of
             (Some i, Some a, Some s, Some t, Some x) \<Rightarrow>
               Some \<lparr>wl_lease_id = i, wl_actor_id = a, wl_issued_by_session = s, wl_issued_at = t, wl_expires_at = x,
                 wl_spawned_pid = jget j ''spawned_pid'', wl_spawned_at = jget j ''spawned_at''\<rparr>
           | _ \<Rightarrow> None))"

section \<open>The scripts\<close>

definition wake_lease_acquire :: "runtime \<Rightarrow> WakeLease \<Rightarrow> int \<Rightarrow> (db, string \<times> bool) comp" where
  "wake_lease_acquire E l ttl =
     (let key = wakeLease_key (wl_actor_id l) in
      bindM (GET key) (\<lambda>existing.
      case existing of
        Some raw \<Rightarrow> ret (raw, True)
      | None \<Rightarrow> thenM (SET key (cjson_encode E (lease_json l)) (Ex ttl)) (ret (cjson_encode E (lease_json l), False))))"

text \<open>The decoded lease under the key, when its id is the expected one.\<close>

definition matching_lease :: "runtime \<Rightarrow> string \<Rightarrow> string option \<Rightarrow> json option" where
  "matching_lease E leaseId current =
     (case Option.bind current (cjson_decode E) of
        None \<Rightarrow> None
      | Some lease \<Rightarrow> if str_field lease ''lease_id'' = Some leaseId then Some lease else None)"

definition wake_lease_clear :: "runtime \<Rightarrow> string \<Rightarrow> string \<Rightarrow> (db, bool) comp" where
  "wake_lease_clear E actorId leaseId =
     bindM (GET (wakeLease_key actorId)) (\<lambda>current.
     case matching_lease E leaseId current of
       None \<Rightarrow> ret False
     | Some _ \<Rightarrow> thenM (DEL (wakeLease_key actorId)) (ret True))"

definition wake_lease_attach_spawn :: "runtime \<Rightarrow> string \<Rightarrow> string \<Rightarrow> int \<Rightarrow> string \<Rightarrow> (db, bool) comp" where
  "wake_lease_attach_spawn E actorId leaseId pid spawnedAt =
     bindM (GET (wakeLease_key actorId)) (\<lambda>current.
     case matching_lease E leaseId current of
       None \<Rightarrow> ret False
     | Some lease \<Rightarrow>
         thenM (SET (wakeLease_key actorId)
           (cjson_encode E (set_member ''spawned_at'' (JStr spawnedAt) (set_member ''spawned_pid'' (JNum (JInt pid)) lease))) KeepTtl)
         (ret True))"

section \<open>The store\<close>

definition new_lease :: "string \<Rightarrow> WakeLeaseAcquireInput \<Rightarrow> string \<Rightarrow> WakeLease" where
  "new_lease uuid i expiresAt = \<lparr>wl_lease_id = uuid, wl_actor_id = wa_actor_id i, wl_issued_by_session = wa_issued_by_session i,
     wl_issued_at = wa_now i, wl_expires_at = expiresAt, wl_spawned_pid = None, wl_spawned_at = None\<rparr>"

definition acquire_lease :: "runtime \<Rightarrow> string \<Rightarrow> WakeLeaseAcquireInput \<Rightarrow> ('z world_scheme, WakeLeaseError + WakeLease \<times> bool) comp" where
  "acquire_lease E uuid i =
     (if \<not> int_between 1 3600 (wa_lease_seconds i) then ret (Inl invalid_lease_duration)
      else bindM (iso_after E (wa_now i) (the_int (wa_lease_seconds i))) (\<lambda>expiresAt.
           bindM (atomic (wake_lease_acquire E (new_lease uuid i expiresAt) (the_int (wa_lease_seconds i)))) (\<lambda>(raw, coalesced).
           ret (case parseLease E raw of None \<Rightarrow> Inl lease_store_corrupt | Some stored \<Rightarrow> Inr (stored, coalesced)))))"

definition get_lease :: "runtime \<Rightarrow> string \<Rightarrow> ('z world_scheme, WakeLease option) comp" where
  "get_lease E actorId = bindM (atomic (GET (wakeLease_key actorId))) (\<lambda>raw. ret (Option.bind raw (parseLease E)))"

definition clear_lease :: "runtime \<Rightarrow> string \<Rightarrow> string \<Rightarrow> ('z world_scheme, bool) comp" where
  "clear_lease E actorId leaseId = atomic (wake_lease_clear E actorId leaseId)"

definition attachSpawn :: "runtime \<Rightarrow> string \<Rightarrow> string \<Rightarrow> int \<Rightarrow> string \<Rightarrow> ('z world_scheme, bool) comp" where
  "attachSpawn E actorId leaseId pid spawnedAt = atomic (wake_lease_attach_spawn E actorId leaseId pid spawnedAt)"

section \<open>Acquiring\<close>

lemma lease_json_members: "is_object (lease_json l)" "str_field (lease_json l) ''lease_id'' = Some (wl_lease_id l)"
  by (simp_all add: lease_json_def)

lemma lua_wire_lease:
  "wl_spawned_pid l = None \<Longrightarrow> wl_spawned_at l = None \<Longrightarrow> lua_wire_json (lease_json l)"
  unfolding lease_json_def by (rule lua_wire_depthI, rule lua_wire_objI) simp_all

context js_runtime
begin

lemma parse_new_lease: "parseLease E (cjson_encode E (lease_json (new_lease u i x))) = Some (new_lease u i x)"
proof -
  have "JSON_parse E (cjson_encode E (lease_json (new_lease u i x))) = Some (lease_json (new_lease u i x))"
    by (rule parse_encode, rule lua_wire_lease) (simp_all add: new_lease_def)
  then show ?thesis by (simp add: parseLease_def lease_json_def new_lease_def)
qed

end

lemma acquire_outcome:
  assumes "js_runtime E" and "acquire_lease E uuid i w = (Inr (Inr (lease, coalesced)), w')"
  shows "history w' = (next_db w, redis w') # history w \<and>
    (if coalesced
     then redis w' = next_db w \<and> Option.bind (str_at (next_db w) (wakeLease_key (wa_actor_id i))) (parseLease E) = Some lease
     else live (next_db w) (wakeLease_key (wa_actor_id i)) = None
       \<and> (\<exists>t. lease = new_lease uuid i t)
       \<and> str_at (redis w') (wakeLease_key (wa_actor_id i)) = Some (cjson_encode E (lease_json lease))
       \<and> expiry (redis w') (wakeLease_key (wa_actor_id i)) = Some (clock (next_db w) + the_int (wa_lease_seconds i) * 1000)
       \<and> (\<forall>k. k \<noteq> wakeLease_key (wa_actor_id i) \<longrightarrow> live (redis w') k = live (next_db w) k))"
proof -
  let ?k = "wakeLease_key (wa_actor_id i)" let ?n = "the_int (wa_lease_seconds i)"
  from assms(2) have dur: "int_between 1 3600 (wa_lease_seconds i)" by (auto simp: acquire_lease_def ret_def split: if_splits)
  then have pos: "mode_ok (Ex ?n)" by (cases "wa_lease_seconds i") simp_all
  from assms(2) dur obtain x raw c d where
      x: "iso_after E (wa_now i) ?n w = (Inr x, w)"
    and script: "wake_lease_acquire E (new_lease uuid i x) ?n (next_db w) = (Inr (raw, c), d)"
    and res: "w' = after_step w d" "parseLease E raw = Some lease" "c = coalesced"
    by (auto simp: acquire_lease_def ret_def iso_after_def toISOString_def throw_def elim!: bindM_Inr_E atomic_E
        split: option.splits if_splits)
  have ka: "wl_actor_id (new_lease uuid i x) = wa_actor_id i" by (simp add: new_lease_def)
  have ty: "holds (next_db w) ?k TString"
    using script by (auto simp: wake_lease_acquire_def ka Let_def GET_def on_type_def bindM_def split: if_splits)
  show ?thesis
  proof (cases "str_at (next_db w) ?k")
    case None
    with ty have "live (next_db w) ?k = None" by (auto simp: holds_def split: option.splits elim: rtype_of.elims)
    moreover from None ty script pos have "c = False" "raw = cjson_encode E (lease_json (new_lease uuid i x))"
      "d = upd ?k (Some (RString raw)) (Ex ?n) (next_db w)"
      by (auto simp: wake_lease_acquire_def ka Let_def run_simps)
    ultimately show ?thesis
      using res js_runtime.parse_new_lease[OF assms(1), of uuid i x] pos by (auto simp: view_simps) (simp add: upd_def)
  next
    case (Some s)
    with ty script have "c = True" "raw = s" "d = next_db w" by (auto simp: wake_lease_acquire_def ka Let_def run_simps)
    with res Some show ?thesis by simp
  qed
qed

text \<open>
  Acquisition coalesces. Whatever other controllers do meanwhile, an acquisition takes effect in one
  step. If a lease was outstanding then, it is returned as it is stored and nothing changes; otherwise
  the new lease is stored, expires after exactly the requested seconds, and is the one returned. No new
  lease is ever issued over an outstanding one.
\<close>

lemma acquire_lease_coalesces:
  assumes "js_runtime E" and "acquire_lease E uuid i w = (Inr (Inr (lease, coalesced)), w')"
  shows "history w' = (next_db w, redis w') # history w \<and>
    (if coalesced
     then redis w' = next_db w \<and> Option.bind (str_at (next_db w) (wakeLease_key (wa_actor_id i))) (parseLease E) = Some lease
     else live (next_db w) (wakeLease_key (wa_actor_id i)) = None
       \<and> (\<exists>t. lease = new_lease uuid i t)
       \<and> str_at (redis w') (wakeLease_key (wa_actor_id i)) = Some (cjson_encode E (lease_json lease))
       \<and> expiry (redis w') (wakeLease_key (wa_actor_id i)) = Some (clock (next_db w) + the_int (wa_lease_seconds i) * 1000)
       \<and> (\<forall>k. k \<noteq> wakeLease_key (wa_actor_id i) \<longrightarrow> live (redis w') k = live (next_db w) k))"
  using acquire_outcome[OF assms] .

section \<open>At most one activation in flight\<close>

text \<open>
  The system of all controllers. The ghost state collects, per actor, the leases that were issued and not
  cleared, each with the instant it expires.
\<close>

record wakes =
  wstore :: db
  issued :: "string \<Rightarrow> (string \<times> int) set"

datatype wake_event = Acquire WakeLeaseAcquireInput string | Clear string string | Attach string string int string | Other_keys

inductive wake_step :: "runtime \<Rightarrow> wakes \<Rightarrow> wake_event \<Rightarrow> wakes \<Rightarrow> bool" for E where
  acquire: "int_between 1 3600 (wa_lease_seconds i) \<Longrightarrow>
    wake_lease_acquire E (new_lease u i x) (the_int (wa_lease_seconds i)) (wstore s) = (r, d') \<Longrightarrow>
    wake_step E s (Acquire i u) (s\<lparr>wstore := d', issued := (case r of
        Inr (_, False) \<Rightarrow> (issued s)(wa_actor_id i := insert (u, clock (wstore s) + the_int (wa_lease_seconds i) * 1000) (issued s (wa_actor_id i)))
      | _ \<Rightarrow> issued s)\<rparr>)"
| clear: "wake_lease_clear E a i (wstore s) = (r, d') \<Longrightarrow>
    wake_step E s (Clear a i) (s\<lparr>wstore := d', issued := (if r = Inr True then (issued s)(a := {l \<in> issued s a. fst l \<noteq> i}) else issued s)\<rparr>)"
| attach: "\<bar>pid\<bar> < 10 ^ 14 \<Longrightarrow> wake_lease_attach_spawn E a i pid at (wstore s) = (r, d') \<Longrightarrow> wake_step E s (Attach a i pid at) (s\<lparr>wstore := d'\<rparr>)"
| other_keys: "clock (wstore s) \<le> clock d' \<Longrightarrow>
    (\<And>a. entries d' (wakeLease_key a) = entries (wstore s) (wakeLease_key a) \<and> expiry d' (wakeLease_key a) = expiry (wstore s) (wakeLease_key a)) \<Longrightarrow>
    wake_step E s Other_keys (s\<lparr>wstore := d'\<rparr>)"

definition wake_init :: "wakes \<Rightarrow> bool" where
  "wake_init s \<longleftrightarrow> wstore s = empty_db \<and> issued s = (\<lambda>_. {})"

text \<open>The leases issued to an actor that are neither cleared nor expired.\<close>

definition in_flight :: "wakes \<Rightarrow> string \<Rightarrow> string set" where
  "in_flight s a = {i. \<exists>t. (i, t) \<in> issued s a \<and> clock (wstore s) < t}"

definition stored_lease :: "runtime \<Rightarrow> db \<Rightarrow> string \<Rightarrow> (string \<times> int) option \<Rightarrow> bool" where
  "stored_lease E d a l \<longleftrightarrow>
     (case l of
        None \<Rightarrow> live d (wakeLease_key a) = None
      | Some (i, t) \<Rightarrow> expiry d (wakeLease_key a) = Some t \<and> clock d < t
          \<and> (\<exists>j. live d (wakeLease_key a) = Some (RString (cjson_encode E j)) \<and> lua_wire_json j \<and> is_object j \<and> str_field j ''lease_id'' = Some i))"

definition single_flight :: "runtime \<Rightarrow> wakes \<Rightarrow> bool" where
  "single_flight E s \<longleftrightarrow> (\<forall>a. \<exists>l. stored_lease E (wstore s) a l
     \<and> {x \<in> issued s a. clock (wstore s) < snd x} = set_option l)"

lemma wakeLease_key_eq [simp]: "wakeLease_key a = wakeLease_key b \<longleftrightarrow> a = b"
  by (simp add: key_simps)

lemma expiry_upd [simp]:
  "expiry (upd k v (Ex n) d) k = Some (clock d + n * 1000)" "live d k \<noteq> None \<Longrightarrow> expiry (upd k (Some x) KeepTtl d) k = expiry d k"
  by (auto simp: upd_def)

lemma stored_lease_other:
  assumes "stored_lease E d a l" and "live d' (wakeLease_key a) = live d (wakeLease_key a)" and "expiry d' (wakeLease_key a) = expiry d (wakeLease_key a)"
    and "clock d' = clock d"
  shows "stored_lease E d' a l"
  using assms by (simp add: stored_lease_def split: option.splits prod.splits)

text \<open>A step that rewrites the lease of one actor only.\<close>

lemma single_flight_one:
  assumes inv: "single_flight E s" and ck: "clock (wstore t) = clock (wstore s)" and iss: "\<And>b. b \<noteq> a \<Longrightarrow> issued t b = issued s b"
    and other: "\<And>b. b \<noteq> a \<Longrightarrow> live (wstore t) (wakeLease_key b) = live (wstore s) (wakeLease_key b)
      \<and> expiry (wstore t) (wakeLease_key b) = expiry (wstore s) (wakeLease_key b)"
    and new: "stored_lease E (wstore t) a l" "{x \<in> issued t a. clock (wstore t) < snd x} = set_option l"
  shows "single_flight E t"
  unfolding single_flight_def
proof
  fix b
  show "\<exists>l. stored_lease E (wstore t) b l \<and> {x \<in> issued t b. clock (wstore t) < snd x} = set_option l"
  proof (cases "b = a")
    case True
    with new show ?thesis by blast
  next
    case False
    from inv obtain l where "stored_lease E (wstore s) b l" "{x \<in> issued s b. clock (wstore s) < snd x} = set_option l"
      unfolding single_flight_def by blast
    then show ?thesis
      using stored_lease_other[of E "wstore s" b l "wstore t"] other[OF False] iss[OF False] ck by (intro exI[of _ l]) simp
  qed
qed

context js_runtime
begin

lemma single_flight_acquire:
  assumes inv: "single_flight E s" and dur: "int_between 1 3600 (wa_lease_seconds i)"
    and run: "wake_lease_acquire E (new_lease u i x) (the_int (wa_lease_seconds i)) (wstore s) = (r, d')"
  shows "single_flight E (s\<lparr>wstore := d', issued := (case r of
        Inr (_, False) \<Rightarrow> (issued s)(wa_actor_id i := insert (u, clock (wstore s) + the_int (wa_lease_seconds i) * 1000) (issued s (wa_actor_id i)))
      | _ \<Rightarrow> issued s)\<rparr>)"
proof -
  let ?a = "wa_actor_id i" let ?n = "the_int (wa_lease_seconds i)" let ?l = "new_lease u i x"
  have pos: "0 < ?n" using dur by (cases "wa_lease_seconds i") simp_all
  have ka: "wl_actor_id ?l = ?a" "wl_lease_id ?l = u" by (simp_all add: new_lease_def)
  from inv obtain l where l: "stored_lease E (wstore s) ?a l" "{x \<in> issued s ?a. clock (wstore s) < snd x} = set_option l"
    unfolding single_flight_def by blast
  show ?thesis
  proof (cases l)
    case (Some it)
    with l(1) run have "r = Inr (the (str_at (wstore s) (wakeLease_key ?a)), True)" "d' = wstore s"
      by (auto simp: stored_lease_def wake_lease_acquire_def ka Let_def run_simps holds_def split: prod.splits)
    with inv show ?thesis by (simp add: single_flight_def)
  next
    case None
    with l(1) run pos have r: "r = Inr (cjson_encode E (lease_json ?l), False)"
      "d' = upd (wakeLease_key ?a) (Some (RString (cjson_encode E (lease_json ?l)))) (Ex ?n) (wstore s)"
      by (auto simp: stored_lease_def wake_lease_acquire_def ka Let_def run_simps holds_def)
    have wire: "lua_wire_json (lease_json ?l)" by (rule lua_wire_lease) (simp_all add: new_lease_def)
    let ?t = "clock (wstore s) + ?n * 1000"
    have ck: "clock d' = clock (wstore s)" and ex: "expiry d' (wakeLease_key ?a) = Some ?t"
      and lv: "live d' (wakeLease_key ?a) = Some (RString (cjson_encode E (lease_json ?l)))"
      using pos unfolding r(2) by (simp_all add: view_simps)
    have "stored_lease E d' ?a (Some (u, ?t))"
      using ck ex lv pos wire lease_json_members[of ?l] ka(2) by (auto simp: stored_lease_def)
    moreover have "{x \<in> insert (u, ?t) (issued s ?a). clock (wstore s) < snd x} = {(u, ?t)}"
      using l(2) pos unfolding None option.set by auto
    ultimately show ?thesis
      by (intro single_flight_one[OF inv, where a = ?a and l = "Some (u, ?t)"])
        (use r pos ck in \<open>simp_all add: view_simps\<close>)
  qed
qed

text \<open>The lease a controller names is the stored one, or there is none to match.\<close>

lemma matching_stored:
  assumes "stored_lease E d a l"
  shows "GET (wakeLease_key a) d = (Inr (str_at d (wakeLease_key a)), d)"
    and "matching_lease E i (str_at d (wakeLease_key a)) = (case l of
      None \<Rightarrow> None | Some (i', t) \<Rightarrow> if i' = i then cjson_decode E (the (str_at d (wakeLease_key a))) else None)"
  using assms by (auto simp: stored_lease_def matching_lease_def run_simps holds_def decode_encode split: option.splits)

lemma single_flight_clear:
  assumes inv: "single_flight E s" and run: "wake_lease_clear E a i (wstore s) = (r, d')"
  shows "single_flight E (s\<lparr>wstore := d', issued := (if r = Inr True then (issued s)(a := {l \<in> issued s a. fst l \<noteq> i}) else issued s)\<rparr>)"
proof -
  from inv obtain l where l: "stored_lease E (wstore s) a l" "{x \<in> issued s a. clock (wstore s) < snd x} = set_option l"
    unfolding single_flight_def by blast
  note m = matching_stored[OF l(1)]
  show ?thesis
  proof (cases "\<exists>t. l = Some (i, t)")
    case False
    with m(2) have "matching_lease E i (str_at (wstore s) (wakeLease_key a)) = None" by (auto split: option.splits prod.splits)
    with run m(1) have "r = Inr False" "d' = wstore s" by (simp_all add: wake_lease_clear_def bindM_ok ret_run)
    with inv show ?thesis by (simp add: single_flight_def)
  next
    case True
    then obtain t where t: "l = Some (i, t)" by blast
    with l(1) obtain j where "str_at (wstore s) (wakeLease_key a) = Some (cjson_encode E j)" "lua_wire_json j" by (auto simp: stored_lease_def)
    with run m t have r: "r = Inr True" "d' = upd (wakeLease_key a) None NoTtl (wstore s)"
      by (simp_all add: wake_lease_clear_def bindM_ok thenM_ok ret_run DEL_def modifyM_run decode_encode)
    have "{x \<in> issued s a. fst x \<noteq> i \<and> clock (wstore s) < snd x} = {}"
      using l(2) unfolding t option.set by (metis (mono_tags, lifting) empty_Collect_eq fst_conv mem_Collect_eq singletonD)
    moreover have "stored_lease E d' a None" using r by (simp add: view_simps stored_lease_def)
    ultimately show ?thesis
      by (intro single_flight_one[OF inv, where a = a and l = None]) (use r in \<open>simp_all add: view_simps\<close>)
  qed
qed

lemma single_flight_attach:
  assumes inv: "single_flight E s" and pid: "\<bar>pid\<bar> < 10 ^ 14" and run: "wake_lease_attach_spawn E a i pid at (wstore s) = (r, d')"
  shows "single_flight E (s\<lparr>wstore := d'\<rparr>)"
proof -
  from inv obtain l where l: "stored_lease E (wstore s) a l" "{x \<in> issued s a. clock (wstore s) < snd x} = set_option l"
    unfolding single_flight_def by blast
  note m = matching_stored[OF l(1)]
  show ?thesis
  proof (cases "\<exists>t. l = Some (i, t)")
    case False
    with m(2) have "matching_lease E i (str_at (wstore s) (wakeLease_key a)) = None" by (auto split: option.splits prod.splits)
    with run m(1) have "d' = wstore s" by (simp add: wake_lease_attach_spawn_def bindM_ok ret_run)
    with inv show ?thesis by (simp add: single_flight_def)
  next
    case True
    then obtain t where t: "l = Some (i, t)" by blast
    with l(1) obtain j where j: "live (wstore s) (wakeLease_key a) = Some (RString (cjson_encode E j))" "lua_wire_json j" "is_object j"
      "str_field j ''lease_id'' = Some i" "expiry (wstore s) (wakeLease_key a) = Some t" "clock (wstore s) < t" by (auto simp: stored_lease_def)
    define j' where "j' = set_member ''spawned_at'' (JStr at) (set_member ''spawned_pid'' (JNum (JInt pid)) j)"
    from j(3,4) obtain fm where fm: "j = JObj fm" by (cases j) (auto simp: str_field_def)
    have "lua_wire_json j'" using j(2) unfolding j'_def fm max_depth_Suc set_member.simps
      by (intro lua_wire_fmupd) (use pid in auto)
    moreover have "is_object j'" "str_field j' ''lease_id'' = Some i" using j(4) by (auto simp: j'_def fm str_field_def)
    ultimately have wire: "lua_wire_json j'" "is_object j'" "str_field j' ''lease_id'' = Some i" by auto
    from run m t j have d': "d' = upd (wakeLease_key a) (Some (RString (cjson_encode E j'))) KeepTtl (wstore s)"
      by (simp add: wake_lease_attach_spawn_def bindM_ok thenM_ok ret_run SET_def modifyM_run decode_encode j'_def)
    have "stored_lease E d' a l" using d' t wire j by (auto simp: view_simps stored_lease_def)
    then show ?thesis
      by (intro single_flight_one[OF inv, where a = a and l = l]) (use d' l(2) in \<open>simp_all add: view_simps\<close>)
  qed
qed

lemma single_flight_other_keys:
  assumes inv: "single_flight E s" and ck: "clock (wstore s) \<le> clock d'"
    and same: "\<And>a. entries d' (wakeLease_key a) = entries (wstore s) (wakeLease_key a) \<and> expiry d' (wakeLease_key a) = expiry (wstore s) (wakeLease_key a)"
  shows "single_flight E (s\<lparr>wstore := d'\<rparr>)"
  unfolding single_flight_def
proof
  fix a
  let ?k = "wakeLease_key a"
  from inv obtain l where l: "stored_lease E (wstore s) a l" "{x \<in> issued s a. clock (wstore s) < snd x} = set_option l"
    unfolding single_flight_def by blast
  have later: "{x \<in> issued s a. clock d' < snd x} = {x \<in> set_option l. clock d' < snd x}" using ck l(2) by fastforce
  show "\<exists>l. stored_lease E (wstore (s\<lparr>wstore := d'\<rparr>)) a l \<and> {x \<in> issued (s\<lparr>wstore := d'\<rparr>) a. clock (wstore (s\<lparr>wstore := d'\<rparr>)) < snd x} = set_option l"
  proof (cases "\<exists>i t. l = Some (i, t) \<and> clock d' < t")
    case True
    then have "stored_lease E d' a l" using l(1) same[of a] by (fastforce simp: stored_lease_def live_def)
    moreover have "{x \<in> set_option l. clock d' < snd x} = set_option l" using True by auto
    ultimately show ?thesis using later by (intro exI[of _ l]) simp
  next
    case False
    have "live d' ?k = None"
    proof (cases l)
      case None
      with l(1) same[of a] ck show ?thesis by (auto simp: stored_lease_def live_def split: option.splits if_splits)
    next
      case (Some it)
      with False l(1) same[of a] show ?thesis by (cases it) (auto simp: stored_lease_def live_def)
    qed
    moreover have "{x \<in> set_option l. clock d' < snd x} = {}" using False by (cases l) auto
    ultimately show ?thesis using later by (intro exI[of _ None]) (simp add: stored_lease_def)
  qed
qed

lemma wake_invariant: "invariant_system wake_init (wake_step E) (single_flight E)"
proof unfold_locales
  show "single_flight E s" if "wake_init s" for s
    using that by (auto simp: wake_init_def single_flight_def stored_lease_def intro!: exI[of _ None])
  show "single_flight E t" if "single_flight E s" and "wake_step E s e t" for s e t
    using that(2,1) by (cases rule: wake_step.cases)
      (simp_all add: single_flight_acquire single_flight_clear single_flight_attach single_flight_other_keys)
qed

end

interpretation wakes: invariant_system wake_init "wake_step std_env" "single_flight std_env"
  by (rule std.wake_invariant)

text \<open>
  (C5) At most one activation is in flight per actor. In every state that acquisitions, clears, spawn
  reports and the passing of time reach, at most one of the leases issued to an actor is neither cleared
  nor expired, and it is the one Redis holds.
\<close>

theorem at_most_one_activation:
  assumes "js_runtime E" and "reach wake_init (wake_step E) s" and "i \<in> in_flight s a" and "j \<in> in_flight s a"
  shows "i = j \<and> (\<exists>raw l. str_at (wstore s) (wakeLease_key a) = Some raw \<and> cjson_decode E raw = Some l \<and> str_field l ''lease_id'' = Some i)"
proof -
  from invariant_system.reach_inv[OF js_runtime.wake_invariant[OF assms(1)] assms(2)] obtain l where
    l: "stored_lease E (wstore s) a l" "{x \<in> issued s a. clock (wstore s) < snd x} = set_option l"
    unfolding single_flight_def by blast
  from assms(3,4) obtain t t' where "(i, t) \<in> set_option l" "(j, t') \<in> set_option l"
    unfolding in_flight_def l(2)[symmetric] by auto
  then have "l = Some (i, t)" "i = j" by auto
  with l(1) js_runtime.decode_encode[OF assms(1)] show ?thesis by (auto simp: stored_lease_def)
qed

theorem at_most_one_activation_witness:
  "\<exists>s. reach wake_init (wake_step std_env) s \<and> ''l1'' \<in> in_flight s ''bob''
    \<and> (\<exists>raw l. str_at (wstore s) (wakeLease_key ''bob'') = Some raw \<and> cjson_decode std_env raw = Some l \<and> str_field l ''lease_id'' = Some ''l1'')"
proof -
  let ?i = "\<lparr>wa_actor_id = ''bob'', wa_issued_by_session = ''s1'', wa_lease_seconds = JInt 60, wa_now = ''t''\<rparr>"
  let ?init = "\<lparr>wstore = empty_db, issued = (\<lambda>_. {})\<rparr>"
  obtain r d' where run: "wake_lease_acquire std_env (new_lease ''l1'' ?i ''x'') 60 empty_db = (r, d')" by fastforce
  then have r: "\<exists>raw. r = Inr (raw, False)" "clock d' = clock empty_db"
    by (auto simp: wake_lease_acquire_def Let_def run_simps view_simps)
  then obtain raw where raw: "r = Inr (raw, False)" by blast
  define s where "s = ?init\<lparr>wstore := d', issued := (issued ?init)(''bob'' := insert (''l1'', clock empty_db + 60 * 1000) {})\<rparr>"
  have st: "wake_step std_env ?init (Acquire ?i ''l1'') s"
    using wake_step.acquire[of ?i std_env "''l1''" "''x''" ?init r d'] run raw by (simp add: s_def)
  have "reach wake_init (wake_step std_env) ?init" by (rule reach_init) (simp add: wake_init_def)
  then have reach: "reach wake_init (wake_step std_env) s" using st by (rule reach_step)
  have fl: "''l1'' \<in> in_flight s ''bob''" using r(2) by (simp add: in_flight_def empty_db_def s_def)
  from at_most_one_activation[OF std.js_runtime_axioms reach fl fl] reach fl show ?thesis by blast
qed

text \<open>
  A lease that is not cleared ends by itself. Once its time to live has passed and no other command
  has touched the key, the next acquisition issues a new lease instead of coalescing.
\<close>

lemma expired_lease_is_replaced:
  assumes "js_runtime E" and "expiry (next_db w) (wakeLease_key (wa_actor_id i)) = Some t" and "t \<le> clock (next_db w)"
    and "int_between 1 3600 (wa_lease_seconds i)" and "date_parse E (wa_now i) = Some now" and "valid_instant (now + the_int (wa_lease_seconds i) * 1000)"
  shows "\<exists>w'. acquire_lease E uuid i w = (Inr (Inr (new_lease uuid i (iso_from_ms (now + the_int (wa_lease_seconds i) * 1000)), False)), w')"
proof -
  have "live (next_db w) (wakeLease_key (wa_actor_id i)) = None" using assms(2,3) by (simp add: live_def)
  moreover have "iso_after E (wa_now i) (the_int (wa_lease_seconds i)) w = (Inr (iso_from_ms (now + the_int (wa_lease_seconds i) * 1000)), w)"
    using assms(5,6) by (simp add: iso_after_def toISOString_def valid_instant_def run_simps)
  ultimately show ?thesis
    using assms(4) js_runtime.parse_new_lease[OF assms(1)]
    by (simp add: acquire_lease_def run_simps wake_lease_acquire_def Let_def holds_def new_lease_def)
qed

end
