(* ===== verification/Launch_Policy.thy ===== *)
theory Launch_Policy
  imports Node_Path Json_Text
begin

unbundle bit_operations_syntax

text \<open>
  The operator allowlist that decides which runtimes may be launched: \<open>src/src/core/launch-policy.ts\<close>.
  What the operating system tells the policy (environment, working directory, file status and contents)
  is a record \<open>host\<close>, one consistent view per evaluation. Messages are left out, error codes kept.
\<close>

section \<open>Data\<close>

record LaunchAllowlistEntry =
  ae_command :: string
  ae_allowed_args :: "string list list"
  ae_comment :: "string option"

record LaunchAllowlistConfig =
  ac_version :: int
  ac_commands :: "LaunchAllowlistEntry list"

datatype AllowlistLoad = Loaded LaunchAllowlistConfig | Absent | Unparseable

record LaunchContract =
  lc_command :: string
  lc_args :: "string list"
  lc_cwd :: "string option"

datatype LaunchPolicyError = launch_command_rejected | launch_not_allowlisted | launch_cwd_confined

datatype 'a io = Io 'a | Enoent | Io_failed

record host =
  h_cwd :: string
  h_homedir :: string
  h_env :: "string \<Rightarrow> string option"
  h_lstat :: "string \<Rightarrow> (bool \<times> nat) io"       \<comment> \<open>regular file, permission bits\<close>
  h_is_directory :: "string \<Rightarrow> bool"
  h_readFile :: "string \<Rightarrow> string io"

section \<open>Rejected commands\<close>

definition DANGEROUS_SHELL_BASENAMES :: "string list" where
  "DANGEROUS_SHELL_BASENAMES = [''sh'', ''bash'', ''zsh'', ''dash'', ''fish'', ''ksh'', ''cmd'', ''powershell'', ''pwsh'']"

definition DANGEROUS_INTERPRETER_BASENAMES :: "string list" where
  "DANGEROUS_INTERPRETER_BASENAMES = [''node'', ''nodejs'', ''deno'', ''bun'', ''tsx'', ''ts-node'', ''python'', ''python2'', ''python3'',
     ''ruby'', ''perl'', ''php'']"

definition DANGEROUS_AWK_BASENAMES :: "string list" where
  "DANGEROUS_AWK_BASENAMES = [''awk'', ''gawk'', ''mawk'']"

definition DANGEROUS_INTERPRETER_ARGS :: "string list" where
  "DANGEROUS_INTERPRETER_ARGS = [''-e'', ''--eval'', ''-c'', ''--command'', ''-p'', ''--print'', ''-E'', ''-r'']"

text \<open>\<open>/^-[ecEpr].+/\<close>; a dot matches no line terminator.\<close>

fun glued_short_flag :: "string \<Rightarrow> bool" where
  "glued_short_flag (a # c # d # _) \<longleftrightarrow> a = CHR ''-'' \<and> c \<in> set ''ecEpr'' \<and> d \<noteq> CHR 0x0A \<and> d \<noteq> CHR 0x0D"
| "glued_short_flag _ \<longleftrightarrow> False"

definition isInlineCodeArg :: "string \<Rightarrow> bool" where
  "isInlineCodeArg arg \<longleftrightarrow> arg \<in> set DANGEROUS_INTERPRETER_ARGS
     \<or> starts_with ''--eval='' arg \<or> starts_with ''--print='' arg \<or> starts_with ''--command='' arg \<or> glued_short_flag arg"

definition to_lower_char :: "char \<Rightarrow> char" where
  "to_lower_char c = (if 65 \<le> (of_char c :: nat) \<and> (of_char c :: nat) \<le> 90 then char_of ((of_char c :: nat) + 32) else c)"

definition normalizeCommand :: "string \<Rightarrow> string" where
  "normalizeCommand = path_basename"

definition isDangerousDelegator :: "string \<Rightarrow> bool" where
  "isDangerousDelegator command \<longleftrightarrow> map to_lower_char (normalizeCommand command) \<in> set DANGEROUS_SHELL_BASENAMES"

definition isDangerousInterpreter :: "string \<Rightarrow> string list \<Rightarrow> bool" where
  "isDangerousInterpreter command args \<longleftrightarrow>
     (let normalized = map to_lower_char (normalizeCommand command) in
      normalized \<in> set DANGEROUS_AWK_BASENAMES
      \<or> normalized \<in> set DANGEROUS_INTERPRETER_BASENAMES \<and> list_ex isInlineCodeArg args)"

section \<open>Matching\<close>

definition commandMatches :: "host \<Rightarrow> string \<Rightarrow> string \<Rightarrow> bool" where
  "commandMatches H requested allowlisted \<longleftrightarrow>
     (if is_absolute requested \<noteq> is_absolute allowlisted then False
      else if is_absolute requested then path_resolve (h_cwd H) requested = path_resolve (h_cwd H) allowlisted
      else requested = allowlisted)"

definition argsMatchTemplate :: "string list \<Rightarrow> string list \<Rightarrow> bool" where
  "argsMatchTemplate requestedArgs template \<longleftrightarrow>
     length requestedArgs = length template \<and> list_all (\<lambda>i. requestedArgs ! i = template ! i) [0..<length template]"

definition launchMatchesConfig :: "host \<Rightarrow> string \<Rightarrow> string list \<Rightarrow> LaunchAllowlistConfig \<Rightarrow> bool" where
  "launchMatchesConfig H command args config \<longleftrightarrow>
     list_ex (\<lambda>e. commandMatches H command (ae_command e) \<and> list_ex (argsMatchTemplate args) (ae_allowed_args e)) (ac_commands config)"

text \<open>\<open>resolved === workspaceRoot || resolved.startsWith(workspaceRoot + sep)\<close>\<close>

definition launchCwdIsConfined :: "host \<Rightarrow> string \<Rightarrow> bool" where
  "launchCwdIsConfined H cwd \<longleftrightarrow>
     h_is_directory H cwd
     \<and> (let workspaceRoot = path_resolve (h_cwd H) (h_cwd H); resolved = path_resolve (h_cwd H) cwd in
        resolved = workspaceRoot \<or> starts_with (workspaceRoot @ [slash]) resolved)"

section \<open>Loading the allowlist\<close>

definition env_or :: "host \<Rightarrow> string \<Rightarrow> string \<Rightarrow> string" where
  "env_or H name dflt = (case h_env H name of None \<Rightarrow> dflt | Some v \<Rightarrow> if trim v = [] then dflt else trim v)"

definition allowlistFilePath :: "host \<Rightarrow> string" where
  "allowlistFilePath H =
     env_or H ''GPTQUEUE_LAUNCH_ALLOWLIST''
       (path_join [env_or H ''XDG_CONFIG_HOME'' (path_join [h_homedir H, ''.config'']), ''gptqueue'', ''launch-allowlist.json''])"

definition LEGACY_ALLOWLIST_PATH :: string where
  "LEGACY_ALLOWLIST_PATH = ''.gptqueue/launch-allowlist.json''"

fun parse_templates :: "json list \<Rightarrow> string list list option" where
  "parse_templates [] = Some []"
| "parse_templates (t # ts) =
     (case (str_array t, parse_templates ts) of (Some args, Some rest) \<Rightarrow> Some (args # rest) | _ \<Rightarrow> None)"

definition parse_entry :: "json \<Rightarrow> LaunchAllowlistEntry option" where
  "parse_entry e =
     (case (str_field e ''command'', jget e ''allowed_args'') of
        (Some command, Some (JArr rawTemplates)) \<Rightarrow>
          if trim command = [] then None
          else map_option (\<lambda>ts. \<lparr>ae_command = trim command, ae_allowed_args = ts, ae_comment = str_field e ''comment''\<rparr>)
            (parse_templates rawTemplates)
      | _ \<Rightarrow> None)"

fun parse_entries :: "json list \<Rightarrow> LaunchAllowlistEntry list option" where
  "parse_entries [] = Some []"
| "parse_entries (e # es) =
     (case (parse_entry e, parse_entries es) of (Some x, Some rest) \<Rightarrow> Some (x # rest) | _ \<Rightarrow> None)"

definition parseLaunchAllowlist :: "runtime \<Rightarrow> string \<Rightarrow> AllowlistLoad" where
  "parseLaunchAllowlist E raw =
     (case JSON_parse E raw of
        None \<Rightarrow> Unparseable
      | Some parsed \<Rightarrow>
          if jget parsed ''version'' \<noteq> Some (JNum (JInt 2)) then Unparseable
          else (case jget parsed ''commands'' of
                  Some (JArr entries) \<Rightarrow>
                    (case parse_entries entries of
                       None \<Rightarrow> Unparseable
                     | Some commands \<Rightarrow> Loaded \<lparr>ac_version = 2, ac_commands = commands\<rparr>)
                | _ \<Rightarrow> Unparseable))"

definition allowlist_missing :: "host \<Rightarrow> AllowlistLoad" where
  "allowlist_missing H =
     (let overridden = (case h_env H ''GPTQUEUE_LAUNCH_ALLOWLIST'' of None \<Rightarrow> False | Some v \<Rightarrow> trim v \<noteq> []) in
      if \<not> overridden \<and> (case h_lstat H LEGACY_ALLOWLIST_PATH of Io _ \<Rightarrow> True | _ \<Rightarrow> False) then Unparseable else Absent)"

definition loadLaunchAllowlist :: "host \<Rightarrow> runtime \<Rightarrow> AllowlistLoad" where
  "loadLaunchAllowlist H E =
     (let path = allowlistFilePath H in
      case h_lstat H path of
        Enoent \<Rightarrow> allowlist_missing H
      | Io_failed \<Rightarrow> Unparseable
      | Io (isFile, mode) \<Rightarrow>
          if \<not> isFile then Unparseable
          else if mode AND 18 \<noteq> 0 then Unparseable
          else (case h_readFile H path of
                  Enoent \<Rightarrow> allowlist_missing H
                | Io_failed \<Rightarrow> Unparseable
                | Io raw \<Rightarrow> parseLaunchAllowlist E raw))"

section \<open>The decision\<close>

definition evaluateLaunchPolicy :: "host \<Rightarrow> runtime \<Rightarrow> LaunchContract \<Rightarrow> LaunchPolicyError + unit" where
  "evaluateLaunchPolicy H E contract =
     (if (case lc_cwd contract of None \<Rightarrow> False | Some cwd \<Rightarrow> \<not> launchCwdIsConfined H cwd) then Inl launch_cwd_confined
      else if isDangerousDelegator (lc_command contract) then Inl launch_command_rejected
      else if isDangerousInterpreter (lc_command contract) (lc_args contract) then Inl launch_command_rejected
      else (case loadLaunchAllowlist H E of
              Loaded config \<Rightarrow>
                if \<not> launchMatchesConfig H (lc_command contract) (lc_args contract) config then Inl launch_not_allowlisted else Inr ()
            | _ \<Rightarrow> Inl launch_not_allowlisted))"

section \<open>Exact identity\<close>

lemma argsMatchTemplate_eq: "argsMatchTemplate xs ys \<longleftrightarrow> xs = ys"
proof -
  have "list_all P [0..<n] \<longleftrightarrow> (\<forall>i < n. P i)" for P and n :: nat by (auto simp: list_all_iff)
  then show ?thesis unfolding argsMatchTemplate_def list_eq_iff_nth_eq[of xs ys] by (intro conj_cong refl) simp
qed




lemma cwd_confined_prefix:
  assumes "resolve_segments (h_cwd H) (h_cwd H) \<noteq> []"
  shows "launchCwdIsConfined H cwd \<longleftrightarrow>
    h_is_directory H cwd \<and> prefix (resolve_segments (h_cwd H) (h_cwd H)) (resolve_segments (h_cwd H) cwd)"
  using absolute_below[OF resolve_segments_normal resolve_segments_normal assms, of "h_cwd H" cwd]
  by (simp add: launchCwdIsConfined_def path_resolve_def Let_def)

text \<open>
  Confinement of the working directory is by path segments, not by text: an existing directory is
  admitted exactly when the segments of the server's workspace root, dots resolved, begin its own.
  A sibling whose name merely starts like the root is outside.
\<close>

lemma launch_cwd_confined_segments:
  assumes "norm_segments False (h_cwd H) \<noteq> []" and "is_absolute (h_cwd H)"
  shows "launchCwdIsConfined H cwd \<longleftrightarrow> h_is_directory H cwd
    \<and> prefix (norm_segments False (h_cwd H)) (norm_segments False (if is_absolute cwd then cwd else h_cwd H @ ''/'' @ cwd))"
  using cwd_confined_prefix[of H cwd] assms by (simp add: resolve_segments_def)

text \<open>
  A server that runs in the root directory confines every launch to the root itself: its prefix is
  then two slashes, which no resolved path begins with.
\<close>

lemma cwd_confined_root:
  assumes "resolve_segments (h_cwd H) (h_cwd H) = []"
  shows "launchCwdIsConfined H cwd \<longleftrightarrow> h_is_directory H cwd \<and> resolve_segments (h_cwd H) cwd = []"
proof -
  have n: "normal_segments (resolve_segments (h_cwd H) cwd)" by (rule resolve_segments_normal)
  have "\<not> starts_with ''//'' (absolute_text xs)" if "normal_segments xs" for xs
  proof (cases xs)
    case (Cons a ys)
    with that obtain c cs where "a = c # cs" "c \<noteq> slash" by (cases a) (auto simp: normal_segments_def)
    with Cons show ?thesis by (simp add: absolute_text_def starts_with_def)
  qed (simp add: absolute_text_def starts_with_def)
  with n absolute_text_inj[OF n, of "[]"] show ?thesis
    by (simp add: launchCwdIsConfined_def path_resolve_def assms Let_def) (simp add: absolute_text_def normal_segments_def)
qed

lemma launch_cwd_root_only:
  assumes "h_cwd H = ''/''"
  shows "launchCwdIsConfined H cwd \<longleftrightarrow> h_is_directory H cwd \<and> resolve_segments ''/'' cwd = []"
proof -
  have "resolve_segments ''/'' ''/'' = []" by (simp add: resolve_segments_def is_absolute_def starts_with_def norm_segments_def norm_step_def)
  then show ?thesis using cwd_confined_root[of H cwd] assms by simp
qed

section \<open>The rule of the policy\<close>















text \<open>A server in \<open>/work\<close> whose allowlist document has the given text.\<close>

definition demo_host :: "string \<Rightarrow> host" where
  "demo_host raw = \<lparr>h_cwd = ''/work'', h_homedir = ''/home/op'', h_env = (\<lambda>_. None), h_lstat = (\<lambda>_. Io (True, 384)),
     h_is_directory = (\<lambda>_. True), h_readFile = (\<lambda>_. Io raw)\<rparr>"

section \<open>The allowlist document\<close>

definition entry_json :: "LaunchAllowlistEntry \<Rightarrow> json" where
  "entry_json e = obj ([(''command'', JStr (ae_command e)), (''allowed_args'', JArr (map (\<lambda>t. JArr (map JStr t)) (ae_allowed_args e)))]
     @ opt_member ''comment'' (map_option JStr (ae_comment e)))"

definition config_json :: "LaunchAllowlistConfig \<Rightarrow> json" where
  "config_json c = obj [(''version'', JNum (JInt (ac_version c))), (''commands'', JArr (map entry_json (ac_commands c)))]"

definition wf_config :: "LaunchAllowlistConfig \<Rightarrow> bool" where
  "wf_config c \<longleftrightarrow> ac_version c = 2 \<and> list_all (\<lambda>e. ae_command e \<noteq> [] \<and> trim (ae_command e) = ae_command e) (ac_commands c)"

lemma parse_templates_map: "parse_templates (map (\<lambda>t. JArr (map JStr t)) ts) = Some ts"
  by (induction ts) simp_all

lemma parse_templates_SomeD: "parse_templates js = Some ts \<Longrightarrow> js = map (\<lambda>t. JArr (map JStr t)) ts"
  by (induction js arbitrary: ts) (auto simp: str_array_def dest!: all_strings_SomeD split: option.splits json.splits)

lemma parse_entry_json: "ae_command e \<noteq> [] \<Longrightarrow> trim (ae_command e) = ae_command e \<Longrightarrow> parse_entry (entry_json e) = Some e"
  by (cases e) (simp add: parse_entry_def entry_json_def parse_templates_map split: option.splits)

lemma parse_entries_json:
  "list_all (\<lambda>e. ae_command e \<noteq> [] \<and> trim (ae_command e) = ae_command e) es \<Longrightarrow> parse_entries (map entry_json es) = Some es"
  by (induction es) (simp_all add: parse_entry_json)

lemma wire_config: "ac_version c = 2 \<Longrightarrow> wire_json (config_json c)"
proof -
  assume v: "ac_version c = 2"
  have "wire (Suc (Suc (Suc n))) (entry_json e)" for n e
    unfolding entry_json_def by (rule wire_objI) (simp add: list.pred_map comp_def list.pred_True split: option.splits)
  then have "wire (Suc (Suc (Suc (Suc (Suc n))))) (config_json c)" for n
    unfolding config_json_def by (intro wire_objI) (simp add: v list.pred_map comp_def list.pred_True)
  from this[of 27] show ?thesis by (simp add: max_depth_def)
qed

lemma trim_trim [simp]: "trim (trim s) = trim s"
proof -
  have d: "dropWhile is_space (dropWhile is_space xs) = dropWhile is_space xs" for xs by simp
  define u where "u = rev (dropWhile is_space s)"
  have "dropWhile is_space (rev (dropWhile is_space u)) = rev (dropWhile is_space u)"
  proof (cases "dropWhile is_space u = []")
    case False
    have "hd (rev (dropWhile is_space u)) = last (dropWhile is_space u)" by (rule hd_rev)
    also have "\<dots> = last u" using False by (metis last_appendR takeWhile_dropWhile_id)
    also have "\<dots> = hd (dropWhile is_space s)" by (simp add: u_def last_rev)
    finally have "\<not> is_space (hd (rev (dropWhile is_space u)))"
      using False hd_dropWhile[of is_space s] by (cases "dropWhile is_space s = []") (auto simp: u_def)
    moreover have "dropWhile is_space ys = ys" if "ys \<noteq> []" "\<not> is_space (hd ys)" for ys using that by (cases ys) auto
    ultimately show ?thesis using False by simp
  next
    case True
    then show ?thesis by (simp only: rev.simps dropWhile.simps)
  qed
  then show ?thesis by (simp add: trim_def flip: u_def)
qed

context js_runtime
begin

lemma parse_config: "wf_config c \<Longrightarrow> parseLaunchAllowlist E (JSON_stringify E (config_json c)) = Loaded c"
proof -
  assume wf: "wf_config c"
  then have "JSON_parse E (JSON_stringify E (config_json c)) = Some (config_json c)"
    by (intro parse_stringify wire_config) (simp add: wf_config_def)
  with wf show ?thesis
    by (cases c) (simp add: parseLaunchAllowlist_def config_json_def wf_config_def parse_entries_json)
qed

end

text \<open>
  The allowlist document round-trips, and the parser accepts nothing else. A document printed from a
  configuration of version 2 whose commands are non-empty and trimmed reads back as that configuration;
  and whatever the parser loads is such a configuration.
\<close>

lemma allowlist_roundtrip:
  assumes "js_runtime E"
  shows "(wf_config c \<longrightarrow> parseLaunchAllowlist E (JSON_stringify E (config_json c)) = Loaded c)
    \<and> (parseLaunchAllowlist E raw = Loaded c \<longrightarrow> wf_config c)"
proof (intro conjI impI)
  assume "wf_config c"
  then show "parseLaunchAllowlist E (JSON_stringify E (config_json c)) = Loaded c" by (rule js_runtime.parse_config[OF assms])
next
  have entry: "parse_entry j = Some e \<Longrightarrow> ae_command e \<noteq> [] \<and> trim (ae_command e) = ae_command e" for j e
    by (auto simp: parse_entry_def split: option.splits json.splits if_splits)
  have entries: "parse_entries js = Some es \<Longrightarrow> list_all (\<lambda>e. ae_command e \<noteq> [] \<and> trim (ae_command e) = ae_command e) es" for js es
    by (induction js arbitrary: es) (auto dest: entry split: option.splits)
  assume "parseLaunchAllowlist E raw = Loaded c"
  with entries show "wf_config c"
    by (auto simp: parseLaunchAllowlist_def wf_config_def split: option.splits json.splits if_splits)
qed

definition demo_config :: "string \<Rightarrow> string list \<Rightarrow> LaunchAllowlistConfig" where
  "demo_config command args = \<lparr>ac_version = 2, ac_commands = [\<lparr>ae_command = command, ae_allowed_args = [args], ae_comment = None\<rparr>]\<rparr>"

text \<open>
  The rejection of inline code does not cover every spelling. With such templates allowlisted, the
  policy admits \<open>perl -we\<close> with a program, whose flags are clustered, and \<open>python3\<close> with a \<open>-c\<close> flag whose
  glued program begins with a line break.
\<close>

lemma inline_code_bypass:
  "evaluateLaunchPolicy (demo_host (JSON_stringify std_env (config_json (demo_config ''perl'' [''-we'', ''print 1'']))))
       std_env \<lparr>lc_command = ''perl'', lc_args = [''-we'', ''print 1''], lc_cwd = None\<rparr> = Inr ()
   \<and> evaluateLaunchPolicy (demo_host (JSON_stringify std_env (config_json (demo_config ''python3'' [''-c'' @ [CHR 0x0A] @ ''import os'']))))
       std_env \<lparr>lc_command = ''python3'', lc_args = [''-c'' @ [CHR 0x0A] @ ''import os''], lc_cwd = None\<rparr> = Inr ()"
proof -
  have parse: "parseLaunchAllowlist std_env (JSON_stringify std_env (config_json (demo_config c args))) = Loaded (demo_config c args)"
    if "c \<noteq> []" "trim c = c" for c args
    by (rule js_runtime.parse_config[OF std.js_runtime_axioms]) (simp add: wf_config_def demo_config_def that)
  have host: "loadLaunchAllowlist (demo_host raw) std_env = parseLaunchAllowlist std_env raw" for raw
    by (simp add: loadLaunchAllowlist_def demo_host_def Let_def)
  have m: "launchMatchesConfig H c args (demo_config c args)" for H c args
    by (simp add: launchMatchesConfig_def demo_config_def argsMatchTemplate_eq commandMatches_def)
  show ?thesis
    unfolding evaluateLaunchPolicy_def host by (subst (1 2) parse) (simp_all add: m trim_def is_space_def isDangerousDelegator_def
      isDangerousInterpreter_def normalizeCommand_def path_basename_def to_lower_char_def isInlineCodeArg_def starts_with_def
      DANGEROUS_SHELL_BASENAMES_def DANGEROUS_INTERPRETER_BASENAMES_def DANGEROUS_AWK_BASENAMES_def DANGEROUS_INTERPRETER_ARGS_def)
qed


end
