(* ===== verification/Actor_Directory.thy ===== *)
theory Actor_Directory
  imports Actor_Presence Launch_Policy Custody_Store
begin

text \<open>
  The durable actor directory, \<open>src/src/core/actor-directory.ts\<close>, with its conditional write
  \<open>src/src/mcp-server/lua/actor-conditional-set.lua\<close>: the second interpretation of the conditional hash
  write. Records are JSON in one hash, a field per actor id; only the session that registered an actor
  may write its record again. Diagnostics of corrupt records are not modelled.

  A stored record is read as it is, so \<open>registered_at\<close>, which nothing checks, may be any value or absent;
  of a stored launch contract the model keeps the members the policy reads.
\<close>

section \<open>Data\<close>

record ActorDirectoryRecord =
  ad_profile :: DurableActorProfile
  ad_launch :: "LaunchContract option"
  ad_registered_by :: string
  ad_registered_at :: "json option"

datatype ActorDirectoryErrorCode =
    Profile_error ProfileError | Policy_error LaunchPolicyError
  | invalid_launch_contract | actor_owned_elsewhere | directory_corrupt

record ActorRegisterInput =
  ar_profile_input :: json
  ar_launch :: "LaunchContract option"
  ar_registered_by :: string
  ar_registered_at :: string

definition launch_json :: "LaunchContract option \<Rightarrow> json" where
  "launch_json l =
     (case l of
        None \<Rightarrow> JNull
      | Some c \<Rightarrow> obj ([(''command'', JStr (lc_command c)), (''args'', JArr (map JStr (lc_args c)))] @ opt_member ''cwd'' (map_option JStr (lc_cwd c))))"

definition actor_json :: "ActorDirectoryRecord \<Rightarrow> json" where
  "actor_json r = obj ([(''profile'', JObj (ad_profile r)), (''launch'', launch_json (ad_launch r)), (''registered_by'', JStr (ad_registered_by r))]
     @ opt_member ''registered_at'' (ad_registered_at r))"

section \<open>Validation\<close>

definition isWellFormedLaunch :: "LaunchContract \<Rightarrow> bool" where
  "isWellFormedLaunch launch \<longleftrightarrow> lc_command launch \<noteq> []"

definition isValidLaunchContract :: "DurableActorProfile \<Rightarrow> LaunchContract option \<Rightarrow> bool" where
  "isValidLaunchContract profile launch \<longleftrightarrow>
     profile_mode profile \<noteq> Wake_if_offline \<or> (case launch of None \<Rightarrow> False | Some l \<Rightarrow> isWellFormedLaunch l)"

text \<open>\<open>isStoredLaunch\<close>, giving the launch contract it admits.\<close>

definition storedLaunch :: "json option \<Rightarrow> LaunchContract option option" where
  "storedLaunch launch =
     (case launch of
        Some JNull \<Rightarrow> Some None
      | Some (JObj m) \<Rightarrow>
          (case (str_field (JObj m) ''command'', Option.bind (fmlookup m ''args'') str_array, fmlookup m ''cwd'') of
             (Some c, Some args, None) \<Rightarrow> Some (Some \<lparr>lc_command = c, lc_args = args, lc_cwd = None\<rparr>)
           | (Some c, Some args, Some (JStr d)) \<Rightarrow> Some (Some \<lparr>lc_command = c, lc_args = args, lc_cwd = Some d\<rparr>)
           | _ \<Rightarrow> None)
      | _ \<Rightarrow> None)"

text \<open>\<open>storedActorFailure\<close>, giving the record it admits; an admission that throws is a failure too.\<close>

definition storedActor :: "runtime \<Rightarrow> json \<Rightarrow> ActorDirectoryRecord option" where
  "storedActor E parsed =
     (case (jget parsed ''profile'', str_field parsed ''registered_by'', storedLaunch (jget parsed ''launch'')) of
        (Some (JObj profile), Some by, Some launch) \<Rightarrow>
          (case admitActorProfile E (JObj profile) of
             Inr (Inr _) \<Rightarrow> Some \<lparr>ad_profile = profile, ad_launch = launch, ad_registered_by = by, ad_registered_at = jget parsed ''registered_at''\<rparr>
           | _ \<Rightarrow> None)
      | _ \<Rightarrow> None)"

definition actor_parseStored :: "runtime \<Rightarrow> string \<Rightarrow> ActorDirectoryRecord StoredRead" where
  "actor_parseStored E raw =
     (case JSON_parse E raw of
        None \<Rightarrow> Corrupt
      | Some parsed \<Rightarrow> (case storedActor E parsed of None \<Rightarrow> Corrupt | Some r \<Rightarrow> Stored (Some r)))"

section \<open>The conditional write\<close>

definition actor_conditional_set :: "runtime \<Rightarrow> string \<Rightarrow> string \<Rightarrow> string \<Rightarrow> (db, bool) comp" where
  "actor_conditional_set E field newValue expectedOwner =
     bindM (HGET actor_profiles_key field) (\<lambda>current.
     case current of
       None \<Rightarrow> thenM (HSET actor_profiles_key field newValue) (ret True)
     | Some cur \<Rightarrow>
         (case cjson_decode E cur of
            None \<Rightarrow> ret False
          | Some r \<Rightarrow>
              if \<not> is_object r \<or> jget r ''registered_by'' \<noteq> Some (JStr expectedOwner) then ret False
              else thenM (HSET actor_profiles_key field newValue) (ret True)))"

definition owner_of :: "runtime \<Rightarrow> string \<Rightarrow> string option" where
  "owner_of E raw = Option.bind (cjson_decode E raw) (\<lambda>j. str_field j ''registered_by'')"

definition actor_permits :: "runtime \<Rightarrow> string \<Rightarrow> string option \<Rightarrow> bool" where
  "actor_permits E owner current = (case current of None \<Rightarrow> True | Some raw \<Rightarrow> owner_of E raw = Some owner)"

lemma str_field_Some: "str_field j k = Some s \<longleftrightarrow> jget j k = Some (JStr s)"
  by (auto simp: str_field_def split: option.splits json.splits)

interpretation actor_cas: conditional_hset "actor_conditional_set E" actor_profiles_key "actor_permits E" for E
proof unfold_locales
  fix d g f v
  assume h: "holds d actor_profiles_key THash"
  { assume "actor_permits E g (map_of (hash_at d actor_profiles_key) f)"
    with h show "actor_conditional_set E f v g d = (Inr True, put_hash actor_profiles_key (AList.update f v (hash_at d actor_profiles_key)) d)"
      by (auto simp: actor_conditional_set_def actor_permits_def owner_of_def str_field_Some run_simps jget_is_object
          split: option.splits bind_splits) }
  { assume "\<not> actor_permits E g (map_of (hash_at d actor_profiles_key) f)"
    with h show "actor_conditional_set E f v g d = (Inr False, d)"
      by (auto simp: actor_conditional_set_def actor_permits_def owner_of_def str_field_Some run_simps split: option.splits bind_splits) }
next
  fix d g f v
  assume "\<not> holds d actor_profiles_key THash"
  then show "actor_conditional_set E f v g d = (Inl WrongType, d)"
    by (simp add: actor_conditional_set_def run_simps)
qed

section \<open>Operations\<close>

definition actor_readRecord :: "runtime \<Rightarrow> string \<Rightarrow> ('z world_scheme, ActorDirectoryRecord StoredRead) comp" where
  "actor_readRecord E actorId =
     bindM (atomic (HGET actor_profiles_key actorId)) (\<lambda>raw.
     ret (case raw of None \<Rightarrow> Stored None | Some s \<Rightarrow> actor_parseStored E s))"

definition actor_text :: "runtime \<Rightarrow> ActorDirectoryRecord \<Rightarrow> string" where
  "actor_text E r = JSON_stringify E (actor_json r)"

definition register_attempt :: "runtime \<Rightarrow> string \<Rightarrow> ActorDirectoryRecord \<Rightarrow> ('z world_scheme, (ActorDirectoryErrorCode + ActorDirectoryRecord) option) comp" where
  "register_attempt E actorId record =
     bindM (actor_readRecord E actorId) (\<lambda>stored.
     case stored of
       Corrupt \<Rightarrow> ret (Some (Inl directory_corrupt))
     | Stored existing \<Rightarrow>
         if (case existing of None \<Rightarrow> False | Some r \<Rightarrow> ad_registered_by r \<noteq> ad_registered_by record) then ret (Some (Inl actor_owned_elsewhere))
         else bindM (atomic (actor_conditional_set E actorId (actor_text E record) (ad_registered_by record))) (\<lambda>persisted.
              ret (if persisted then Some (Inr record) else None)))"

definition register_exhausted :: "runtime \<Rightarrow> string \<Rightarrow> ('z world_scheme, ActorDirectoryErrorCode + ActorDirectoryRecord) comp" where
  "register_exhausted E actorId =
     bindM (actor_readRecord E actorId) (\<lambda>stored.
     ret (case stored of Corrupt \<Rightarrow> Inl directory_corrupt | Stored _ \<Rightarrow> Inl actor_owned_elsewhere))"

primrec register_loop :: "nat \<Rightarrow> runtime \<Rightarrow> string \<Rightarrow> ActorDirectoryRecord \<Rightarrow> ('z world_scheme, ActorDirectoryErrorCode + ActorDirectoryRecord) comp" where
  "register_loop 0 E actorId record = register_exhausted E actorId"
| "register_loop (Suc n) E actorId record =
     bindM (register_attempt E actorId record) (\<lambda>res.
     case res of Some r \<Rightarrow> ret r | None \<Rightarrow> register_loop n E actorId record)"

definition register_record :: "ActorRegisterInput \<Rightarrow> DurableActorProfile \<Rightarrow> ActorDirectoryRecord" where
  "register_record i profile = \<lparr>ad_profile = profile, ad_launch = ar_launch i, ad_registered_by = ar_registered_by i,
     ad_registered_at = Some (JStr (ar_registered_at i))\<rparr>"

text \<open>The operator's policy gates the launch contracts that can be woken.\<close>

definition register_policy :: "host \<Rightarrow> runtime \<Rightarrow> DurableActorProfile \<Rightarrow> LaunchContract option \<Rightarrow> LaunchPolicyError + unit" where
  "register_policy H E profile launch =
     (case (profile_mode profile, launch) of (Wake_if_offline, Some l) \<Rightarrow> evaluateLaunchPolicy H E l | _ \<Rightarrow> Inr ())"

text \<open>The record a registration would write, or why there is none.\<close>

definition register_admit :: "host \<Rightarrow> runtime \<Rightarrow> ActorRegisterInput \<Rightarrow> exn + (ActorDirectoryErrorCode + ActorDirectoryRecord)" where
  "register_admit H E i =
     sum_bind (admitActorProfile E (ar_profile_input i)) (\<lambda>admission.
     case admission of
       Inl code \<Rightarrow> Inr (Inl (Profile_error code))
     | Inr profile \<Rightarrow>
         if \<not> isValidLaunchContract profile (ar_launch i) then Inr (Inl invalid_launch_contract)
         else (case register_policy H E profile (ar_launch i) of
                 Inl code \<Rightarrow> Inr (Inl (Policy_error code))
               | Inr _ \<Rightarrow> Inr (Inr (register_record i profile))))"

lemma register_admit_Inr:
  "register_admit H E i = Inr (Inr r) \<longleftrightarrow> (\<exists>p. admitActorProfile E (ar_profile_input i) = Inr (Inr p)
     \<and> isValidLaunchContract p (ar_launch i) \<and> register_policy H E p (ar_launch i) = Inr () \<and> r = register_record i p)"
  by (cases "admitActorProfile E (ar_profile_input i)"; cases "projr (admitActorProfile E (ar_profile_input i))")
    (auto simp: register_admit_def sum_bind_def split: sum.splits)

text \<open>The hash field of a profile: its actor id as Redis is sent it.\<close>

definition actor_field :: "runtime \<Rightarrow> DurableActorProfile \<Rightarrow> string" where
  "actor_field E p = the (js_text E (profile_actor_id p))"

definition register :: "host \<Rightarrow> runtime \<Rightarrow> ActorRegisterInput \<Rightarrow> ('z world_scheme, ActorDirectoryErrorCode + ActorDirectoryRecord) comp" where
  "register H E i =
     (case register_admit H E i of
        Inl e \<Rightarrow> throw e
      | Inr (Inl code) \<Rightarrow> ret (Inl code)
      | Inr (Inr record) \<Rightarrow> register_loop 2 E (actor_field E (ad_profile record)) record)"

definition get_actor :: "runtime \<Rightarrow> string \<Rightarrow> ('z world_scheme, ActorDirectoryErrorCode + ActorDirectoryRecord option) comp" where
  "get_actor E actorId =
     bindM (actor_readRecord E actorId) (\<lambda>stored. ret (case stored of Corrupt \<Rightarrow> Inl directory_corrupt | Stored r \<Rightarrow> Inr r))"

primrec actor_records :: "runtime \<Rightarrow> (string \<times> string) list \<Rightarrow> ActorDirectoryErrorCode + ActorDirectoryRecord list" where
  "actor_records E [] = Inr []"
| "actor_records E (e # es) =
     (case actor_parseStored E (snd e) of
        Corrupt \<Rightarrow> Inl directory_corrupt
      | Stored r \<Rightarrow> map_sum id (\<lambda>rs. (case r of None \<Rightarrow> [] | Some x \<Rightarrow> [x]) @ rs) (actor_records E es))"

definition list_actors :: "runtime \<Rightarrow> ('z world_scheme, ActorDirectoryErrorCode + ActorDirectoryRecord list) comp" where
  "list_actors E = bindM (atomic (HGETALL actor_profiles_key)) (\<lambda>all. ret (actor_records E all))"

definition contractReadiness :: "ActorDirectoryRecord \<Rightarrow> LaunchContractReadiness" where
  "contractReadiness r = (case ad_launch r of Some l \<Rightarrow> if lc_command l \<noteq> [] then Runnable else Not_runnable | None \<Rightarrow> Not_runnable)"

section \<open>Ownership\<close>

definition actor_at :: "db \<Rightarrow> string \<Rightarrow> string option" where
  "actor_at d f = map_of (hash_at d actor_profiles_key) f"







section \<open>Registering and reading back\<close>

lemma storedLaunch_json: "storedLaunch (Some (launch_json l)) = Some l"
proof (cases l)
  case (Some c)
  have "fmlookup (fmap_of_list xs) k = map_of xs k" for xs :: "(string \<times> json) list" and k by (simp add: fmlookup_of_list)
  with Some show ?thesis
    by (cases c; cases "lc_cwd c") (simp_all add: storedLaunch_def launch_json_def obj_def str_field_def)
qed (simp add: storedLaunch_def launch_json_def)

lemma storedActor_json:
  assumes "admitActorProfile E j = Inr (Inr p)" and "r = register_record i p"
  shows "storedActor E (actor_json r) = Some r"
  using admitted_profile[OF assms(1)] storedLaunch_json[of "ar_launch i"]
  by (simp add: assms(2) storedActor_def actor_json_def register_record_def str_field_def)

context js_runtime
begin

lemma parse_actor:
  assumes "storedActor E (actor_json r) = Some r" and "wire_json (actor_json r)"
  shows "actor_parseStored E (actor_text E r) = Stored (Some r)" and "owner_of E (actor_text E r) = Some (ad_registered_by r)"
  using assms by (simp_all add: actor_parseStored_def actor_text_def parse_stringify owner_of_def decode_stringify)
    (simp add: actor_json_def)

end

lemma actor_read_runs:
  "holds d actor_profiles_key THash \<Longrightarrow>
    runs (actor_readRecord E f) d (case actor_at d f of None \<Rightarrow> Stored None | Some raw \<Rightarrow> actor_parseStored E raw) d"
  unfolding actor_readRecord_def actor_at_def
  by (rule runs_bindM[OF runs_atomic runs_ret]) (simp add: run_simps)

text \<open>The actor is unregistered, or registered by the session \<open>s\<close> itself.\<close>

definition registrable :: "runtime \<Rightarrow> string \<Rightarrow> string \<Rightarrow> db \<Rightarrow> bool" where
  "registrable E f s d \<longleftrightarrow> holds d actor_profiles_key THash \<and>
     (case actor_at d f of
        None \<Rightarrow> True
      | Some raw \<Rightarrow> \<exists>r0. actor_parseStored E raw = Stored (Some r0) \<and> ad_registered_by r0 = s \<and> owner_of E raw = Some s)"

lemma register_loop_runs:
  assumes reg: "registrable E f (ad_registered_by r) d"
  shows "runs (register_loop (Suc n) E f r) d (Inr r) (put_hash actor_profiles_key (AList.update f (actor_text E r) (hash_at d actor_profiles_key)) d)"
proof -
  let ?d = "put_hash actor_profiles_key (AList.update f (actor_text E r) (hash_at d actor_profiles_key)) d"
  have h: "holds d actor_profiles_key THash" using reg by (simp add: registrable_def)
  have perm: "actor_permits E (ad_registered_by r) (map_of (hash_at d actor_profiles_key) f)"
    using reg by (auto simp: registrable_def actor_permits_def actor_at_def split: option.splits)
  have w: "runs (atomic (actor_conditional_set E f (actor_text E r) (ad_registered_by r))) d True ?d"
    by (rule runs_atomic) (simp add: actor_cas.cset_permitted[OF h perm])
  have "runs (register_attempt E f r) d (Some (Inr r)) ?d"
    unfolding register_attempt_def
    by (rule runs_bindM[OF actor_read_runs[OF h]])
      (use reg runs_bindM[OF w, of "\<lambda>persisted. ret (if persisted then Some (Inr r) else None)" "Some (Inr r)" ?d]
        in \<open>auto simp: registrable_def runs_ret split: option.splits\<close>)
  then show ?thesis unfolding register_loop.simps by (rule runs_bindM) (simp add: runs_ret)
qed

text \<open>
  Registration round-trips. Undisturbed, registering an admissible profile, under an id that is free
  or was registered by the same session, returns the record, reading the directory returns that very
  record, and no other actor's entry changes.
\<close>

lemma register_then_get:
  assumes "js_runtime E" and "register_admit H E i = Inr (Inr r)" and "wire_json (actor_json r)"
    and "registrable E (actor_field E (ad_profile r)) (ar_registered_by i) d"
  shows "\<exists>d'. runs (register H E i :: (world, _) comp) d (Inr r) d'
    \<and> runs (get_actor E (actor_field E (ad_profile r)) :: (world, _) comp) d' (Inr (Some r)) d'
    \<and> (\<forall>g. g \<noteq> actor_field E (ad_profile r) \<longrightarrow> actor_at d' g = actor_at d g)"
proof -
  let ?f = "actor_field E (ad_profile r)"
  let ?d = "put_hash actor_profiles_key (AList.update ?f (actor_text E r) (hash_at d actor_profiles_key)) d"
  from assms(2) obtain p where p: "admitActorProfile E (ar_profile_input i) = Inr (Inr p)" "r = register_record i p"
    by (auto simp: register_admit_Inr)
  then have own: "ad_registered_by r = ar_registered_by i" by (simp add: register_record_def)
  have reg: "runs (register H E i :: (world, _) comp) d (Inr r) ?d"
    using register_loop_runs[of E ?f r d "Suc 0"] assms(2,4) own by (simp add: register_def numeral_2_eq_2 del: register_loop.simps)
  have at: "actor_at ?d ?f = Some (actor_text E r)" "holds ?d actor_profiles_key THash"
    by (simp_all add: actor_at_def view_simps)
  have "runs (get_actor E ?f :: (world, _) comp) ?d (Inr (Some r)) ?d"
    unfolding get_actor_def
    by (rule runs_bindM[OF actor_read_runs[OF at(2)]])
      (simp add: at(1) js_runtime.parse_actor[OF assms(1) storedActor_json[OF p] assms(3)] runs_ret)
  moreover have "actor_at ?d g = actor_at d g" if "g \<noteq> ?f" for g using that by (simp add: actor_at_def view_simps)
  ultimately show ?thesis using reg by blast
qed

definition demo_register :: "string \<Rightarrow> ActorRegisterInput" where
  "demo_register s = \<lparr>ar_profile_input = JObj (demo_profile (JStr ''bob'')), ar_launch = None, ar_registered_by = s, ar_registered_at = ''t''\<rparr>"

lemma demo_register_admit:
  "register_admit H std_env (demo_register s) = Inr (Inr (register_record (demo_register s) (demo_profile (JStr ''bob''))))"
proof -
  have a: "admitActorProfile std_env (JObj (demo_profile (JStr ''bob''))) = Inr (Inr (demo_profile (JStr ''bob'')))"
    by (rule demo_profile_admitted[of _ _ "''bob''"]) (simp_all add: IDENTITY_CHARSET_def identity_char_def)
  have "profile_mode (demo_profile (JStr ''bob'')) = Store_only"
    by (simp add: profile_mode_def demo_profile_def fmlookup_of_list isActivationPolicyMode_def)
  with a show ?thesis by (simp add: register_admit_def sum_bind_def demo_register_def isValidLaunchContract_def register_policy_def)
qed

lemma demo_actor_field: "actor_field std_env (ad_profile (register_record (demo_register s) (demo_profile (JStr ''bob'')))) = ''bob''"
  by (simp add: actor_field_def register_record_def profile_actor_id_def demo_profile_def fmlookup_of_list)



end
