(* ===== verification/Continuity_Props.thy ===== *)
theory Continuity_Props
  imports Continuity World_Steps Session_Props
begin

text \<open>
  Adoption is refused without a trace, or happens on an unoccupied target from a quiet source.
\<close>

section \<open>Scripts that only read\<close>

interpretation unchanged: world_relation "(=)"
  by unfold_locales auto

abbreviation reads :: "(db, 'a) comp \<Rightarrow> bool" where
  "reads \<equiv> relates (=)"

lemma reads_commands:
  "reads (EXISTS k)" "reads (GET k)" "reads (HGET k f)" "reads (SMEMBERS k)" "reads (SCARD k)" "reads (SISMEMBER k x)" "reads (LLEN k)" "reads (ZCARD k)"
  by (auto simp: relates_def command_defs on_type_def getM_run split: if_splits)

lemma reads_any_lease: "reads (any_lease sids)"
  by (induction sids) (auto intro!: unchanged.relates_intros reads_commands)

lemma reads_lua: "reads (lua_index j k)" "reads (lua_assign j k v)" "reads (lua_decode E s)"
  by (auto intro: unchanged.relates_intros simp: lua_decode_def split: option.splits)
    (cases "(j, k)" rule: lua_index.cases; auto intro: unchanged.relates_intros;
     cases "(j, k, v)" rule: lua_assign.cases; auto intro: unchanged.relates_intros)+

lemma reads_guard: "reads (adoption_guard E mk source target sid expected)"
  by (auto simp: adoption_guard_def owns_session_def sole_session_def occupied_def source_active_def adopted_registration_def Let_def
      intro!: unchanged.relates_intros reads_commands reads_any_lease reads_lua)

lemma reads_apply_guards: "reads (occupied a w)" "reads (source_active E a)"
  by (auto simp: occupied_def source_active_def intro!: unchanged.relates_intros reads_commands reads_any_lease)

section \<open>The guard\<close>

text \<open>What counts as use of a name: a bound runtime, a heartbeat, a wrapper, a session with a live lease or an unacknowledged claim.\<close>

definition in_use :: "runtime \<Rightarrow> db \<Rightarrow> string \<Rightarrow> bool" where
  "in_use E d a \<longleftrightarrow> live d (runtimeBinding_key a) \<noteq> None \<or> live d (heartbeat_key a) \<noteq> None \<or> live d (wrapperClaim_key E a) \<noteq> None
     \<or> (\<exists>sid \<in> set (set_at d (agentSessions_key a)). live d (lease_key sid) \<noteq> None) \<or> zset_at d (claimsIndex_key a) \<noteq> []"

text \<open>A name with nothing left to do: no message, no claim, no outbound activity and no wrapper.\<close>

definition at_rest :: "runtime \<Rightarrow> db \<Rightarrow> string \<Rightarrow> bool" where
  "at_rest E d a \<longleftrightarrow> list_at d (queue_key a) = [] \<and> zset_at d (claimsIndex_key a) = [] \<and> live d (outboundActivity_key a) = None
     \<and> live d (wrapperClaim_key E a) = None"

lemma any_lease_run: "any_lease sids d = (Inr (\<exists>sid \<in> set sids. live d (lease_key sid) \<noteq> None), d)"
proof (induction sids)
  case (Cons sid sids)
  have "EXISTS (lease_key sid) d = (Inr (live d (lease_key sid) \<noteq> None), d)" by (simp add: EXISTS_def getM_run)
  then show ?case using Cons by (cases "live d (lease_key sid) = None") (simp_all add: bindM_def ret_run)
qed (simp add: ret_run)

lemma occupied_returns: "occupied a (wrapperClaim_key E a) d = (Inr b, d') \<Longrightarrow> d' = d \<and> (b \<longleftrightarrow> in_use E d a) \<and> (b \<or> holds d (agentSessions_key a) TSet)"
  unfolding occupied_def in_use_def
  by (auto elim!: bindM_Inr_E simp: EXISTS_def SMEMBERS_def ZCARD_def getM_run ret_run any_lease_run on_type_def split: if_splits)

lemma source_active_returns: "source_active E a d = (Inr b, d') \<Longrightarrow> d' = d \<and> (b \<longleftrightarrow> \<not> at_rest E d a)"
  unfolding source_active_def at_rest_def
  by (auto elim!: bindM_Inr_E simp: EXISTS_def LLEN_def ZCARD_def getM_run ret_run on_type_def split: if_splits)

section \<open>The runtime path\<close>

definition adoption_types :: "db \<Rightarrow> bool" where
  "adoption_types d \<longleftrightarrow> holds d registryPending_key THash \<and> holds d registryRestore_key THash \<and> holds d continuityAudit_key TStream"

text \<open>The conditions of an adoption.\<close>

definition adoptable :: "runtime \<Rightarrow> db \<Rightarrow> string \<Rightarrow> string \<Rightarrow> string \<Rightarrow> string \<Rightarrow> string \<Rightarrow> bool" where
  "adoptable E d mk source target sid expected \<longleftrightarrow> str_at d mk = Some expected
     \<and> registered d source \<noteq> None \<and> registered d target \<noteq> None
     \<and> map_of (hash_at d (session_key sid)) ''agent_name'' = Some source \<and> live d (lease_key sid) \<noteq> None
     \<and> set_at d (agentSessions_key source) = [sid] \<and> \<not> in_use E d target \<and> at_rest E d source"

lemma singleton_list: "length xs = Suc 0 \<and> x \<in> set xs \<longleftrightarrow> xs = [x]"
  by (auto simp: length_Suc_conv)

lemma guard_passed:
  assumes "adoption_guard E mk source target sid expected d = (Inr (Inr reg), d')"
  shows "adoptable E d mk source target sid expected"
    and "holds d registry_key THash" "holds d (session_key sid) THash" "holds d (agentSessions_key source) TSet" "holds d (agentSessions_key target) TSet"
proof -
  have "(length (set_at d (agentSessions_key source)) = Suc 0 \<and> sid \<in> set (set_at d (agentSessions_key source)) \<longrightarrow> adoptable E d mk source target sid expected)
    \<and> length (set_at d (agentSessions_key source)) = Suc 0 \<and> sid \<in> set (set_at d (agentSessions_key source))
    \<and> holds d registry_key THash \<and> holds d (session_key sid) THash \<and> holds d (agentSessions_key source) TSet \<and> holds d (agentSessions_key target) TSet"
    using assms unfolding adoption_guard_def owns_session_def sole_session_def adoptable_def singleton_list
    by (auto elim!: bindM_Inr_E dest!: source_active_returns occupied_returns relatesD[OF reads_lua(3)]
        simp: GET_def HGET_def EXISTS_def SCARD_def SISMEMBER_def getM_run ret_run on_type_def singleton_list[symmetric] split: if_splits)
  then show "adoptable E d mk source target sid expected"
    and "holds d registry_key THash" "holds d (session_key sid) THash" "holds d (agentSessions_key source) TSet" "holds d (agentSessions_key target) TSet"
    by blast+
qed

lemma continuity_keys_distinct [simp]:
  "session_key x \<noteq> agentSessions_key y" "agentSessions_key y \<noteq> session_key x" "session_key x \<noteq> registry_key" "registry_key \<noteq> session_key x"
  "agentSessions_key x \<noteq> registry_key" "registry_key \<noteq> agentSessions_key x" "registryPending_key \<noteq> session_key x" "session_key x \<noteq> registryPending_key"
  "registryPending_key \<noteq> agentSessions_key x" "agentSessions_key x \<noteq> registryPending_key"
  "registryRestore_key \<noteq> session_key x" "session_key x \<noteq> registryRestore_key" "registryRestore_key \<noteq> agentSessions_key x" "agentSessions_key x \<noteq> registryRestore_key"
  "continuityAudit_key \<noteq> session_key x" "session_key x \<noteq> continuityAudit_key" "continuityAudit_key \<noteq> agentSessions_key y" "agentSessions_key y \<noteq> continuityAudit_key"
  "continuityAudit_key \<noteq> registry_key" "registry_key \<noteq> continuityAudit_key" "continuityAudit_key \<noteq> registryPending_key" "registryPending_key \<noteq> continuityAudit_key"
  "continuityAudit_key \<noteq> registryRestore_key" "registryRestore_key \<noteq> continuityAudit_key"
  "heartbeat_key x \<noteq> session_key y" "session_key y \<noteq> heartbeat_key x" "heartbeat_key x \<noteq> agentSessions_key y" "agentSessions_key y \<noteq> heartbeat_key x"
  "heartbeat_key x \<noteq> registry_key" "registry_key \<noteq> heartbeat_key x" "heartbeat_key x \<noteq> continuityAudit_key" "continuityAudit_key \<noteq> heartbeat_key x"
  "heartbeat_key x \<noteq> registryPending_key" "registryPending_key \<noteq> heartbeat_key x" "heartbeat_key x \<noteq> registryRestore_key" "registryRestore_key \<noteq> heartbeat_key x"
  by (simp_all add: key_simps)

text \<open>The session now belongs to the target, which is registered under it alone, and the source is gone.\<close>

definition adopted :: "string \<Rightarrow> string \<Rightarrow> string \<Rightarrow> string \<Rightarrow> db \<Rightarrow> db \<Rightarrow> bool" where
  "adopted source target sid value d d' \<longleftrightarrow>
     map_of (hash_at d' (session_key sid)) = (map_of (hash_at d (session_key sid)))(''agent_name'' \<mapsto> target)
     \<and> set_at d' (agentSessions_key source) = [] \<and> sid \<in> set (set_at d' (agentSessions_key target))
     \<and> registered d' = (registered d)(target \<mapsto> value, source := None) \<and> live d' (heartbeat_key source) = None
     \<and> (\<forall>k. k \<notin> {session_key sid, agentSessions_key source, agentSessions_key target, registry_key, registryPending_key, registryRestore_key,
           heartbeat_key source, continuityAudit_key} \<longrightarrow> live d' k = live d k)"

lemma adoption_writes_run:
  assumes "adoption_types d" and "source \<noteq> target" and "set_at d (agentSessions_key source) = [sid]"
    and "holds d registry_key THash" "holds d (session_key sid) THash" "holds d (agentSessions_key source) TSet" "holds d (agentSessions_key target) TSet"
  shows "\<exists>d'. adoption_writes source target sid value rid d = (Inr (), d') \<and> adopted source target sid value d d'"
  using assms unfolding adoption_writes_def adopted_def adoption_types_def
  by (simp add: HSET_def SREM_def SADD_def HDEL_def DEL_def XADD_def on_type_ok modifyM_run thenM_ok view_simps)

lemma adopt_outcome:
  assumes ty: "adoption_types d" and "source \<noteq> target" and run: "adopt_script E mk source target sid expected rid d = (res, d')"
  shows "if res = Inr 1 then adoptable E d mk source target sid expected \<and> (\<exists>reg. adopted source target sid (cjson_encode E reg) d d') else d' = d"
proof (cases "\<exists>reg d1. adoption_guard E mk source target sid expected d = (Inr (Inr reg), d1)")
  case True
  then obtain reg where g: "adoption_guard E mk source target sid expected d = (Inr (Inr reg), d)" using relatesD[OF reads_guard] by metis
  note p = guard_passed[OF g]
  from adoption_writes_run[OF ty assms(2) _ p(2-5)] p(1) obtain d2 where
    "adoption_writes source target sid (cjson_encode E reg) rid d = (Inr (), d2)" "adopted source target sid (cjson_encode E reg) d d2"
    unfolding adoptable_def by blast
  with run g p(1) show ?thesis by (auto simp: adopt_script_def bindM_ok thenM_ok ret_run)
next
  case False
  from run[unfolded adopt_script_def] show ?thesis
  proof (cases rule: bindM_cases)
    case (err e)
    with relatesD[OF reads_guard err(1)] show ?thesis by simp
  next
    case (ok g d1)
    with False obtain n where g: "g = Inl n" by (cases g) auto
    have d1: "d1 = d" using relatesD[OF reads_guard ok(1)] by simp
    have "n < 0" using ok(1) unfolding g adoption_guard_def by (auto elim!: bindM_Inr_E simp: ret_run split: if_splits)
    with ok(2) d1 g show ?thesis by (auto simp: ret_run)
  qed
qed

section \<open>The operator path\<close>

definition source_vacant :: "runtime \<Rightarrow> db \<Rightarrow> string \<Rightarrow> bool" where
  "source_vacant E d source \<longleftrightarrow> \<not> in_use E d source \<and> list_at d (queue_key source) = [] \<and> live d (outboundActivity_key source) = None"

lemma mapping_key_apart: "runtimeMailboxKey E b \<noteq> continuityAudit_key"
  by (simp add: runtimeMailboxKey_def key_simps)

lemma occupied_run:
  "occupied a (wrapperClaim_key E a) d = (r, d') \<Longrightarrow> d' = d \<and> (\<forall>b. r = Inr b \<longrightarrow> (b \<longleftrightarrow> in_use E d a))"
  using relatesD[OF reads_apply_guards(1)] occupied_returns by fastforce

lemma apply_outcome:
  assumes "adoption_types d" and "mk \<noteq> continuityAudit_key" and "apply_script E mk expected target targetRaw source sourceRaw desired rid d = (res, d')"
  shows "if res = Inr 1
    then or_empty (str_at d mk) = expected \<and> or_empty (registered d target) = targetRaw \<and> (source \<noteq> [] \<longrightarrow> or_empty (registered d source) = sourceRaw)
      \<and> \<not> in_use E d target \<and> (source \<noteq> [] \<and> source \<noteq> target \<longrightarrow> source_vacant E d source)
      \<and> str_at d' mk = Some desired \<and> (\<forall>k. k \<notin> {mk, continuityAudit_key} \<longrightarrow> live d' k = live d k)
    else d' = d"
  using assms unfolding apply_script_def
  by (auto elim!: bindM_cases thenM_cases dest!: occupied_run simp: GET_def HGET_def EXISTS_def LLEN_def SET_def XADD_def getM_run modifyM_run ret_run on_type_def view_simps
      source_vacant_def adoption_types_def split: if_splits)

text \<open>
  (C12) A mailbox is taken over only when nobody uses it, on both paths, and a refused takeover changes
  nothing. The runtime adopts a target only while the mapping is the expected one, the calling session is
  the only one of the source and is alive, the target shows none of the five signs of use and the source is
  at rest; then the session belongs to the target, the source is unregistered, and no queue or claim
  changes. The operator's script moves the mapping only while mapping and registrations are as planned and
  neither target nor source is in use, and changes nothing but the mapping and the audit stream.
\<close>

theorem takeover_only_when_vacant:
  assumes "adoption_types d" and "source \<noteq> target" and "mk = runtimeMailboxKey E b"
    and "adopt_script E mk source target sid expected rid d = (res, d1)"
    and "apply_script E mk planned target targetRaw source sourceRaw desired rid d = (res', d2)"
  shows "(if res = Inr 1
      then adoptable E d mk source target sid expected \<and> (\<exists>reg. adopted source target sid (cjson_encode E reg) d d1)
      else d1 = d)
    \<and> (if res' = Inr 1
      then or_empty (str_at d mk) = planned \<and> or_empty (registered d target) = targetRaw
        \<and> (source \<noteq> [] \<longrightarrow> or_empty (registered d source) = sourceRaw \<and> source_vacant E d source) \<and> \<not> in_use E d target
        \<and> str_at d2 mk = Some desired \<and> (\<forall>k. k \<notin> {mk, continuityAudit_key} \<longrightarrow> live d2 k = live d k)
      else d2 = d)"
proof -
  have "mk \<noteq> continuityAudit_key" using assms(3) mapping_key_apart by simp
  from adopt_outcome[OF assms(1,2,4)] apply_outcome[OF assms(1) this assms(5)] assms(2) show ?thesis by (auto split: if_splits)
qed

text \<open>Two agents with a session of the first, and a mapping that names it.\<close>

definition takeover_binding :: RuntimeBinding where
  "takeover_binding = \<lparr>rb_client = Codex, rb_runtime_id = ''r1'', rb_epoch = ''e1'', rb_working_directory = ''/w''\<rparr>"

definition takeover_db :: db where
  "takeover_db = upd (runtimeMailboxKey std_env takeover_binding) (Some (RString ''m'')) NoTtl
     (put_hash registry_key [(''old'', cjson_encode std_env (obj [(''pid'', JNum (JInt 7))])), (''new'', cjson_encode std_env (obj [(''pid'', JNum (JInt 8))]))]
     (put_hash (session_key ''s1'') [(''agent_name'', ''old'')]
     (put_set (agentSessions_key ''old'') [''s1'']
     (upd (lease_key ''s1'') (Some (RString ''alive'')) NoTtl empty_db))))"

lemma takeover_views:
  "live takeover_db (session_key ''s1'') = Some (RHash [(''agent_name'', ''old'')])" "live takeover_db (agentSessions_key ''old'') = Some (RSet [''s1''])"
  "live takeover_db (lease_key ''s1'') = Some (RString ''alive'')" "live takeover_db (runtimeMailboxKey std_env takeover_binding) = Some (RString ''m'')"
  "live takeover_db registry_key = Some (RHash [(''old'', cjson_encode std_env (obj [(''pid'', JNum (JInt 7))])), (''new'', cjson_encode std_env (obj [(''pid'', JNum (JInt 8))]))])"
  "live takeover_db (agentSessions_key ''new'') = None" "live takeover_db (runtimeBinding_key a) = None" "live takeover_db (heartbeat_key a) = None"
  "live takeover_db (wrapperClaim_key E a) = None" "live takeover_db (claimsIndex_key a) = None" "live takeover_db (queue_key a) = None"
  "live takeover_db (outboundActivity_key a) = None" "live takeover_db registryPending_key = None" "live takeover_db registryRestore_key = None"
  "live takeover_db continuityAudit_key = None"
  by (simp_all add: takeover_db_def runtimeMailboxKey_def view_simps key_simps)

lemma takeover_decodes: "lua_decode std_env (cjson_encode std_env (obj [(''pid'', JNum (JInt i))])) d = (Inr (obj [(''pid'', JNum (JInt i))]), d)" if "\<bar>i\<bar> < 10 ^ 14"
proof -
  have "lua_wire_json (obj [(''pid'', JNum (JInt i))])" by (rule lua_wire_depthI, rule lua_wire_objI) (use that in simp_all)
  then show ?thesis by (simp add: lua_decode_def std.decode_encode ret_run)
qed

theorem takeover_only_when_vacant_witness:
  "\<exists>d1 d2 res'. adopt_script std_env (runtimeMailboxKey std_env takeover_binding) ''old'' ''new'' ''s1'' ''m'' ''r1'' takeover_db = (Inr 1, d1)
    \<and> apply_script std_env (runtimeMailboxKey std_env takeover_binding) ''x'' ''new'' [] ''old'' [] [] ''r1'' takeover_db = (res', d2)
    \<and> registered d1 ''old'' = None \<and> d2 = takeover_db"
proof -
  let ?mk = "runtimeMailboxKey std_env takeover_binding"
  have ty: "adoption_types takeover_db" by (simp add: adoption_types_def holds_def takeover_views)
  obtain res' d2 where run': "apply_script std_env ?mk ''x'' ''new'' [] ''old'' [] [] ''r1'' takeover_db = (res', d2)" by fastforce
  note defs = GET_def HGET_def EXISTS_def SCARD_def SISMEMBER_def SMEMBERS_def LLEN_def ZCARD_def on_type_def holds_def takeover_views getM_run ret_run bindM_def
  have parts: "owns_session ''old'' ''s1'' takeover_db = (Inr True, takeover_db)" "sole_session ''old'' ''s1'' takeover_db = (Inr True, takeover_db)"
    "occupied ''new'' (wrapperClaim_key std_env ''new'') takeover_db = (Inr False, takeover_db)" "source_active std_env ''old'' takeover_db = (Inr False, takeover_db)"
    "GET ?mk takeover_db = (Inr (Some ''m''), takeover_db)"
    by (simp_all add: owns_session_def sole_session_def occupied_def source_active_def any_lease_run defs)
  have raws: "HGET registry_key ''old'' takeover_db = (Inr (Some (cjson_encode std_env (obj [(''pid'', JNum (JInt 7))]))), takeover_db)"
    "HGET registry_key ''new'' takeover_db = (Inr (Some (cjson_encode std_env (obj [(''pid'', JNum (JInt 8))]))), takeover_db)"
    by (simp_all add: defs)
  obtain reg where reg: "adopted_registration (obj [(''pid'', JNum (JInt 7))]) (obj [(''pid'', JNum (JInt 8))]) takeover_db = (Inr reg, takeover_db)"
    by (simp add: adopted_registration_def obj_def bindM_def ret_run Let_def)
  have guard: "adoption_guard std_env ?mk ''old'' ''new'' ''s1'' ''m'' takeover_db = (Inr (Inr reg), takeover_db)"
    by (simp add: adoption_guard_def bindM_def parts raws takeover_decodes reg ret_run)
  have "\<exists>d1. adopt_script std_env ?mk ''old'' ''new'' ''s1'' ''m'' ''r1'' takeover_db = (Inr 1, d1)"
    using adoption_writes_run[OF ty _ _ guard_passed(2-5)[OF guard], of "cjson_encode std_env reg" "''r1''"] guard
    by (auto simp: adopt_script_def bindM_def thenM_def ret_run takeover_views)
  then obtain d1 where run: "adopt_script std_env ?mk ''old'' ''new'' ''s1'' ''m'' ''r1'' takeover_db = (Inr 1, d1)" by blast
  have "or_empty (str_at takeover_db ?mk) \<noteq> ''x''" by (simp add: takeover_views or_empty_def)
  with takeover_only_when_vacant[OF ty _ refl run run'] run run' show ?thesis by (auto simp: adopted_def split: if_splits)
qed

end
