(* ===== verification/Wake_Tools.thy ===== *)
theory Wake_Tools
  imports Redis_Client Actor_Directory Wake_Lease
begin

text \<open>
  Waking offline actors: the launcher (\<open>src/src/mcp-server/launcher.ts\<close>), the reconciliation of wake leases
  with the processes they spawned (\<open>tools/reconcile-wake-lease.ts\<close>), the assembly of presence
  (\<open>tools/presence-input.ts\<close>, \<open>tools/workload-for-session.ts\<close>), the binding of a call to a session
  (\<open>tools/session-binding.ts\<close>) and the wake part of \<open>tools/send-message.ts\<close>.

  Sending the zero signal to a process and spawning one are operating-system calls; they are the fields of
  the record \<open>os\<close>. The world of a tool call adds to the client's a log of the launches, each with the
  number of atomic steps taken before it. The identity in a stored profile is used as its text, as the code
  does when it builds keys from it.
\<close>

section \<open>Processes\<close>

datatype kill_result = Signalled | EPERM | Kill_error
datatype spawn_result = Spawned "int option" | Spawn_error

record os =
  os_kill :: "int \<Rightarrow> kill_result"             \<comment> \<open>\<open>process.kill(pid, 0)\<close>\<close>
  os_spawn :: "LaunchContract \<Rightarrow> spawn_result"

record tool_world = client_world +
  launches :: "(nat \<times> LaunchContract) list"

fun isPidAlive :: "os \<Rightarrow> json \<Rightarrow> bool" where
  "isPidAlive Os (JNum (JInt pid)) = (0 < pid \<and> os_kill Os pid \<in> {Signalled, EPERM})"
| "isPidAlive Os _ = False"

datatype LaunchOutcome = Dispatched "int option" | Not_dispatched

text \<open>The policy is evaluated on every dispatch, against the host's current allowlist.\<close>

definition dispatchLaunch :: "host \<Rightarrow> runtime \<Rightarrow> os \<Rightarrow> LaunchContract \<Rightarrow> ('z tool_world_scheme, LaunchOutcome) comp" where
  "dispatchLaunch H E Os contract =
     (case evaluateLaunchPolicy H E contract of
        Inl _ \<Rightarrow> ret Not_dispatched
      | Inr _ \<Rightarrow>
          (case os_spawn Os contract of
             Spawn_error \<Rightarrow> ret Not_dispatched
           | Spawned pid \<Rightarrow>
               thenM (modifyM (\<lambda>w. w\<lparr>launches := (length (history w), contract) # launches w\<rparr>)) (ret (Dispatched pid))))"

section \<open>Binding a call to a session\<close>

definition ensureSessionBinding :: "string \<Rightarrow> string option \<Rightarrow> ('z client_world_scheme, unit) comp" where
  "ensureSessionBinding now sid =
     (case nonempty sid of
        None \<Rightarrow> ret ()
      | Some s \<Rightarrow>
          bindM (getM (\<lambda>w. sessionId w = Some s \<and> agentName w \<noteq> None)) (\<lambda>bound.
          if bound then ret () else thenM (reconnectSession now s) (ret ())))"

definition bindSession :: "string \<Rightarrow> string option \<Rightarrow> ('z client_world_scheme, string \<times> string) comp" where
  "bindSession now sid =
     thenM (ensureSessionBinding now sid)
    (bindM requireRegistered (\<lambda>agent.
     bindM (getM sessionId) (\<lambda>bound.
     case nonempty bound of None \<Rightarrow> throw (GptQueueError SESSION_UNAVAILABLE) | Some s \<Rightarrow> ret (agent, s))))"

section \<open>Presence of a durable actor\<close>

definition workloadForSession :: "runtime \<Rightarrow> string \<Rightarrow> string \<Rightarrow> string \<Rightarrow> ('z world_scheme, workload) comp" where
  "workloadForSession E now actorId sid =
     catchM (bindM (activeClaimFor E actorId sid now) (\<lambda>active. ret (if active \<noteq> None then Processing else Idle_workload)))
       (\<lambda>_. ret Idle_workload)"

datatype PidLiveness = Alive | Dead | Unknown_liveness

definition reconcileWakeLease :: "runtime \<Rightarrow> os \<Rightarrow> string \<Rightarrow> ('z world_scheme, bool \<times> PidLiveness option) comp" where
  "reconcileWakeLease E Os actorId =
     bindM (catchM (get_lease E actorId) (\<lambda>_. ret None)) (\<lambda>lease.
     case lease of
       None \<Rightarrow> ret (False, None)
     | Some l \<Rightarrow>
         (case wl_spawned_pid l of
            None \<Rightarrow> ret (False, Some Unknown_liveness)
          | Some pid \<Rightarrow>
              if isPidAlive Os pid then ret (False, Some Alive)
              else catchM (bindM (clear_lease E actorId (wl_lease_id l)) (\<lambda>cleared. ret (cleared, Some Dead))) (\<lambda>_. ret (False, Some Dead))))"

record AssembledPresence =
  ap_launch_contract :: LaunchContractReadiness
  ap_runtime :: "RuntimeIncarnation option"
  ap_wake_lease :: "(WakeLease \<times> PidLiveness option) option"

definition runtimeFromSession :: "string \<Rightarrow> workload \<Rightarrow> RuntimeIncarnation" where
  "runtimeFromSession sid wl =
     \<lparr>inc_incarnation_id = sid, inc_session_id = Some sid, inc_started_at = None, inc_lease_id = Some sid, inc_workload = wl\<rparr>"

definition assemblePresenceInput :: "runtime \<Rightarrow> os \<Rightarrow> string \<Rightarrow> ActorDirectoryRecord \<Rightarrow> ('z world_scheme, AssembledPresence) comp" where
  "assemblePresenceInput E Os now record =
     (let actorId = actor_field E (ad_profile record); contract = contractReadiness record in
      bindM (getPresence actorId) (\<lambda>presence.
      case (p_online presence, p_active_sessions presence) of
        (True, sid # _) \<Rightarrow>
          bindM (workloadForSession E now actorId sid) (\<lambda>wl.
          bindM (get_lease E actorId) (\<lambda>lease.
          ret \<lparr>ap_launch_contract = contract, ap_runtime = Some (runtimeFromSession sid wl), ap_wake_lease = map_option (\<lambda>l. (l, None)) lease\<rparr>))
      | _ \<Rightarrow>
          bindM (reconcileWakeLease E Os actorId) (\<lambda>(cleared, liveness).
          bindM (if cleared then ret None else get_lease E actorId) (\<lambda>lease.
          ret \<lparr>ap_launch_contract = contract, ap_runtime = None, ap_wake_lease = map_option (\<lambda>l. (l, liveness)) lease\<rparr>))))"

definition presence_input :: "ActorDirectoryRecord option \<Rightarrow> AssembledPresence \<Rightarrow> PresenceInput" where
  "presence_input record p =
     \<lparr>pi_actor = map_option ad_profile record, pi_launch_contract = ap_launch_contract p, pi_runtime = ap_runtime p,
      pi_wake_lease_id = map_option (wl_lease_id \<circ> fst) (ap_wake_lease p)\<rparr>"

section \<open>The wake decision\<close>

definition wakeEligible :: "ActorDirectoryRecord option \<Rightarrow> ActorDirectoryRecord option" where
  "wakeEligible record =
     (case record of
        None \<Rightarrow> None
      | Some r \<Rightarrow> if profile_mode (ad_profile r) \<noteq> Wake_if_offline then None else Some r)"

datatype WakePresenceDecision = No_wake | Coalesce | Launch_now

fun wakeDecisionForPresence :: "RuntimePresenceState \<Rightarrow> bool \<Rightarrow> WakePresenceDecision" where
  "wakeDecisionForPresence Active _ = No_wake"
| "wakeDecisionForPresence Idle _ = No_wake"
| "wakeDecisionForPresence Offline_store_only _ = No_wake"
| "wakeDecisionForPresence Unavailable _ = No_wake"
| "wakeDecisionForPresence Starting hasWakeLease = (if hasWakeLease then Coalesce else No_wake)"
| "wakeDecisionForPresence Offline_launchable _ = Launch_now"

definition WAKE_LEASE_SECONDS :: int where
  "WAKE_LEASE_SECONDS = 60"

datatype SendWakeResult = Wake_dispatched string "int option" | Launch_failed string | Wake_coalesced string | Wake_error

datatype AcquireOutcome = Owned WakeLease | Coalesced_onto string | Acquire_error

definition acquireOrCoalesce :: "runtime \<Rightarrow> string \<Rightarrow> string \<Rightarrow> ActorDirectoryRecord \<Rightarrow> ('z client_world_scheme, AcquireOutcome) comp" where
  "acquireOrCoalesce E uuid now record =
     bindM (getM sessionId) (\<lambda>sid.
     bindM (acquire_lease E uuid \<lparr>wa_actor_id = actor_field E (ad_profile record),
              wa_issued_by_session = (case sid of None \<Rightarrow> ''unknown'' | Some s \<Rightarrow> s), wa_lease_seconds = JInt WAKE_LEASE_SECONDS, wa_now = now\<rparr>) (\<lambda>acquired.
     ret (case acquired of
            Inl _ \<Rightarrow> Acquire_error
          | Inr (l, True) \<Rightarrow> Coalesced_onto (wl_lease_id l)
          | Inr (l, False) \<Rightarrow> Owned l)))"

definition shipLaunch :: "host \<Rightarrow> runtime \<Rightarrow> os \<Rightarrow> string \<Rightarrow> ActorDirectoryRecord \<Rightarrow> WakeLease \<Rightarrow> ('z tool_world_scheme, SendWakeResult) comp" where
  "shipLaunch H E Os now record lease =
     (case ad_launch record of
        None \<Rightarrow> ret Wake_error
      | Some contract \<Rightarrow>
          bindM (dispatchLaunch H E Os contract) (\<lambda>launched.
          case launched of
            Not_dispatched \<Rightarrow> ret (Launch_failed (wl_lease_id lease))
          | Dispatched pid \<Rightarrow>
              thenM (case pid of
                       None \<Rightarrow> ret False
                     | Some p \<Rightarrow> catchM (attachSpawn E (actor_field E (ad_profile record)) (wl_lease_id lease) p now) (\<lambda>_. ret False))
                (ret (Wake_dispatched (wl_lease_id lease) pid))))"

definition wakeOfflineLaunchable :: "host \<Rightarrow> runtime \<Rightarrow> os \<Rightarrow> string \<Rightarrow> string \<Rightarrow> ActorDirectoryRecord \<Rightarrow> ('z tool_world_scheme, SendWakeResult) comp" where
  "wakeOfflineLaunchable H E Os uuid now record =
     bindM (acquireOrCoalesce E uuid now record) (\<lambda>acquired.
     case acquired of
       Owned lease \<Rightarrow> shipLaunch H E Os now record lease
     | Coalesced_onto i \<Rightarrow> ret (Wake_coalesced i)
     | Acquire_error \<Rightarrow> ret Wake_error)"

text \<open>
  What goes wrong before the decision to launch is reported, never thrown. The launch itself is returned
  without being awaited, so the \<open>try\<close> block ends before it runs and its errors are the caller's: the inner
  computation yields the result (\<open>Inl\<close>) or the record to launch (\<open>Inr\<close>).
\<close>

definition wakeDecision :: "runtime \<Rightarrow> os \<Rightarrow> string \<Rightarrow> ActorDirectoryRecord \<Rightarrow> ('z tool_world_scheme, SendWakeResult option + ActorDirectoryRecord) comp" where
  "wakeDecision E Os now resolved =
     bindM (get_actor E (actor_field E (ad_profile resolved))) (\<lambda>fresh.
     case fresh of
       Inl _ \<Rightarrow> ret (Inl (Some Wake_error))
     | Inr record \<Rightarrow>
         (case wakeEligible record of
            None \<Rightarrow> ret (Inl None)
          | Some record \<Rightarrow>
              bindM (assemblePresenceInput E Os now record) (\<lambda>presence.
              case classifyPresence (presence_input (Some record) presence) of
                None \<Rightarrow> ret (Inl None)
              | Some (_, st) \<Rightarrow>
                  (case wakeDecisionForPresence st (ap_wake_lease presence \<noteq> None) of
                     No_wake \<Rightarrow> ret (Inl None)
                   | Coalesce \<Rightarrow> ret (Inl (map_option (\<lambda>(l, _). Wake_coalesced (wl_lease_id l)) (ap_wake_lease presence)))
                   | Launch_now \<Rightarrow> ret (Inr record)))))"

definition maybeWake :: "host \<Rightarrow> runtime \<Rightarrow> os \<Rightarrow> string \<Rightarrow> string \<Rightarrow> ActorDirectoryRecord option \<Rightarrow> ('z tool_world_scheme, SendWakeResult option) comp" where
  "maybeWake H E Os uuid now resolved =
     (case resolved of
        None \<Rightarrow> ret None
      | Some r \<Rightarrow>
          bindM (catchM (wakeDecision E Os now r) (\<lambda>_. ret (Inl (Some Wake_error)))) (\<lambda>decision.
          case decision of
            Inl result \<Rightarrow> ret result
          | Inr record \<Rightarrow> bindM (wakeOfflineLaunchable H E Os uuid now record) (\<lambda>r. ret (Some r))))"

end
