(* ===== verification/Tools.thy ===== *)
theory Tools
  imports Wake_Tools
begin

text \<open>
  The tools of the server, \<open>src/src/mcp-server/tools\<close>: each handler binds the call to a session, consults
  the actor directory where it has to, and calls the stores. The arguments have passed the schema of their
  tool. A result is the payload the handler reports or the code of its error; the texts of messages are left
  out. Instants and identifiers the handlers draw are parameters; a handler other than send uses one instant
  for the binding of the session and for the store.
\<close>

section \<open>Results\<close>

datatype tool_error =
    Directory_error ActorDirectoryErrorCode
  | Unknown_recipient
  | QUEUE_FULL
  | Durable_actor_claim_required
  | Identity_mismatch
  | Claim_error TaskClaimStoreErrorCode
  | Custody_tool_error CustodyStoreErrorCode
  | Presence_rejected

type_synonym 'a tool_result = "tool_error + 'a"

text \<open>The code \<open>stableToolError\<close> gives to an error the program raised itself; other errors are classified by their text.\<close>

fun stable_code :: "exn \<Rightarrow> gpt_code option" where
  "stable_code (GptQueueError c) = Some c"
| "stable_code _ = None"

section \<open>send\_message\<close>

record SendParams =
  sm_session_id :: "string option"
  sm_to :: string
  sm_content :: string
  sm_type :: message_type
  sm_metadata :: "json option"
  sm_in_reply_to :: "string option"
  sm_idempotency_key :: "string option"

text \<open>What a send draws: message id, lease id, and the instants of binding, message and wake.\<close>

record send_draws =
  sd_message_id :: string
  sd_lease_id :: string
  sd_bound :: string
  sd_timestamp :: string
  sd_wake :: string

record SendPayload =
  sp_status :: push_status
  sp_message_id :: string
  sp_to :: string
  sp_deduplicated :: bool
  sp_wake :: "SendWakeResult option"

text \<open>The two reads of a recipient run together; the directory takes precedence.\<close>

definition resolveRecipient :: "runtime \<Rightarrow> string \<Rightarrow> ('z world_scheme, tool_error + ActorDirectoryRecord option) comp" where
  "resolveRecipient E to =
     bindM (get_actor E to) (\<lambda>dir.
     bindM (resolveRegistered to) (\<lambda>registered.
     ret (case dir of
            Inl code \<Rightarrow> Inl (Directory_error code)
          | Inr (Some record) \<Rightarrow> Inr (Some record)
          | Inr None \<Rightarrow> if registered then Inr None else Inl Unknown_recipient)))"

definition sent_message :: "SendParams \<Rightarrow> send_draws \<Rightarrow> string \<Rightarrow> QueueMessage" where
  "sent_message p sd sender =
     \<lparr>m_id = sd_message_id sd, m_from = sender, m_to = sm_to p, m_timestamp = sd_timestamp sd, m_type = sm_type p, m_content = sm_content p,
      m_metadata = sm_metadata p, m_in_reply_to = sm_in_reply_to p\<rparr>"

definition push_message :: "runtime \<Rightarrow> SendParams \<Rightarrow> QueueMessage \<Rightarrow> ('z client_world_scheme, push_status \<times> string) comp" where
  "push_message E p m =
     (case nonempty (sm_idempotency_key p) of
        Some key \<Rightarrow> sendMessageIdempotent E m key
      | None \<Rightarrow> bindM (sendMessage E m) (\<lambda>sent. ret (if sent then Sent else Full, m_id m)))"

definition sendMessage_tool :: "host \<Rightarrow> runtime \<Rightarrow> os \<Rightarrow> send_draws \<Rightarrow> SendParams \<Rightarrow> ('z tool_world_scheme, SendPayload tool_result) comp" where
  "sendMessage_tool H E Os sd p =
     thenM (ensureSessionBinding (sd_bound sd) (sm_session_id p))
    (bindM (resolveRecipient E (sm_to p)) (\<lambda>resolved.
     case resolved of
       Inl err \<Rightarrow> ret (Inl err)
     | Inr record \<Rightarrow>
         bindM (bindSession (sd_bound sd) (sm_session_id p)) (\<lambda>(sender, _).
         bindM (push_message E p (sent_message p sd sender)) (\<lambda>(status, i).
         if status = Full then ret (Inl QUEUE_FULL)
         else bindM (maybeWake H E Os (sd_lease_id sd) (sd_wake sd) record) (\<lambda>wake.
              ret (Inr \<lparr>sp_status = status, sp_message_id = i, sp_to = sm_to p, sp_deduplicated = (status = Duplicate), sp_wake = wake\<rparr>))))))"

section \<open>Consuming\<close>

text \<open>A durable actor may not use the destructive receive; an unreadable record fails closed.\<close>

definition receiveMessage_tool :: "runtime \<Rightarrow> string \<Rightarrow> string option \<Rightarrow> ('z client_world_scheme, json option tool_result) comp" where
  "receiveMessage_tool E now sid =
     thenM (bindSession now sid)
    (bindM requireRegistered (\<lambda>name.
     bindM (get_actor E name) (\<lambda>dir.
     case dir of
       Inl code \<Rightarrow> ret (Inl (Directory_error code))
     | Inr (Some _) \<Rightarrow> ret (Inl Durable_actor_claim_required)
     | Inr None \<Rightarrow> bindM (receiveMessage E) (\<lambda>m. ret (Inr m)))))"

fun js_number_of :: "json option \<Rightarrow> js_number option" where
  "js_number_of (Some (JNum n)) = Some n"
| "js_number_of _ = None"

text \<open>The ceiling of a durable actor comes from its admitted profile.\<close>

definition claimTasks_tool :: "runtime \<Rightarrow> string \<Rightarrow> string \<Rightarrow> string option \<Rightarrow> int \<Rightarrow> int \<Rightarrow> ('z client_world_scheme, TaskClaim option tool_result) comp" where
  "claimTasks_tool E uuid now sid max_batch ttl_seconds =
     bindM (bindSession now sid) (\<lambda>(actor_id, session_id).
     bindM (get_actor E actor_id) (\<lambda>dir.
     let claim_with = (\<lambda>ceiling. bindM (claim E uuid \<lparr>cl_actor_id = actor_id, cl_session_id = session_id, cl_max_batch = JInt max_batch,
           cl_ttl_seconds = JInt ttl_seconds, cl_max_concurrent_claims = ceiling, cl_now = now\<rparr>) (\<lambda>r. ret (map_sum Claim_error id r))) in
     case dir of
       Inl code \<Rightarrow> ret (Inl (Directory_error code))
     | Inr None \<Rightarrow> claim_with None
     | Inr (Some record) \<Rightarrow>
         if profile_actor_id (ad_profile record) \<noteq> JStr actor_id then ret (Inl Identity_mismatch)
         else claim_with (js_number_of (fmlookup (ad_profile record) ''max_concurrency''))))"

definition acknowledgeTasks_tool :: "runtime \<Rightarrow> string \<Rightarrow> string option \<Rightarrow> string \<Rightarrow> ('z client_world_scheme, nat tool_result) comp" where
  "acknowledgeTasks_tool E now sid claim_id =
     bindM (bindSession now sid) (\<lambda>(actor_id, session_id).
     bindM (acknowledge E claim_id actor_id session_id) (\<lambda>r. ret (map_sum Claim_error id r)))"

definition renewClaim_tool :: "runtime \<Rightarrow> string \<Rightarrow> string option \<Rightarrow> string \<Rightarrow> int \<Rightarrow> ('z client_world_scheme, (string \<times> string) tool_result) comp" where
  "renewClaim_tool E now sid claim_id ttl_seconds =
     bindM (bindSession now sid) (\<lambda>(actor_id, session_id).
     bindM (renew E \<lparr>rn_claim_id = claim_id, rn_actor_id = actor_id, rn_session_id = session_id, rn_ttl_seconds = JInt ttl_seconds,
              rn_budget_seconds = CLAIM_LIFETIME_BUDGET_SECONDS, rn_now = now\<rparr>) (\<lambda>r. ret (map_sum Claim_error (Pair claim_id) r)))"

definition dlqStatus_tool :: "runtime \<Rightarrow> string \<Rightarrow> string option \<Rightarrow> int \<Rightarrow> ('z client_world_scheme, DeadLetterEntry list tool_result) comp" where
  "dlqStatus_tool E now sid limit =
     bindM (bindSession now sid) (\<lambda>(actor_id, _). bindM (deadLetterEntries E actor_id (Some limit)) (\<lambda>es. ret (Inr es)))"

definition dlqRequeue_tool :: "runtime \<Rightarrow> string \<Rightarrow> string option \<Rightarrow> string \<Rightarrow> ('z client_world_scheme, nat tool_result) comp" where
  "dlqRequeue_tool E now sid message_id =
     bindM (bindSession now sid) (\<lambda>(actor_id, _). bindM (requeue E actor_id message_id) (\<lambda>r. ret (map_sum Claim_error id r)))"

section \<open>Custody\<close>

definition custodyOpResult :: "CustodyOpResult \<Rightarrow> CustodyRecord tool_result" where
  "custodyOpResult r = map_sum Custody_tool_error id r"

definition custodyClaim_tool ::
  "runtime \<Rightarrow> string \<Rightarrow> string option \<Rightarrow> WorktreeIdentity \<Rightarrow> int \<Rightarrow> string list option \<Rightarrow> ('z client_world_scheme, CustodyRecord tool_result) comp" where
  "custodyClaim_tool E now sid tree lease_seconds inventory =
     bindM (bindSession now sid) (\<lambda>(actor_name, session_id).
     bindM (custody_claim E \<lparr>ci_worktree_path = worktree_path tree, ci_repo_head = repo_head tree, ci_tree_fingerprint = tree_fingerprint tree,
              ci_lease_seconds = lease_seconds, ci_inventory = inventory, ci_actor_name = actor_name, ci_session_id = session_id, ci_now = now\<rparr>)
       (\<lambda>r. ret (custodyOpResult r)))"

text \<open>The handoff is assembled from the tool's typed arguments.\<close>

definition custodyRelease_tool :: "runtime \<Rightarrow> string \<Rightarrow> string option \<Rightarrow> string \<Rightarrow> HandoffRecordV1 \<Rightarrow> ('z client_world_scheme, CustodyRecord tool_result) comp" where
  "custodyRelease_tool E now sid path h =
     bindM (bindSession now sid) (\<lambda>(_, session_id).
     bindM (custody_release E \<lparr>ri_worktree_path = path, ri_session_id = session_id, ri_handoff = handoff_json h, ri_now = now\<rparr>)
       (\<lambda>r. ret (custodyOpResult r)))"

definition sessionTag :: "runtime \<Rightarrow> string \<Rightarrow> string" where
  "sessionTag E sid = ''sid-sha256:'' @ take 12 (sha256_hex E sid)"

definition publicCustody :: "runtime \<Rightarrow> CustodyRecord \<Rightarrow> CustodyRecord" where
  "publicCustody E r = r\<lparr>custodian := map_option (\<lambda>c. c\<lparr>session_id := sessionTag E (session_id c)\<rparr>) (custodian r)\<rparr>"

definition custodyStatus_tool :: "runtime \<Rightarrow> string \<Rightarrow> string option \<Rightarrow> ('z world_scheme, (CustodyRecord option + CustodyRecord list) tool_result) comp" where
  "custodyStatus_tool E now path =
     (case path of
        Some p \<Rightarrow> bindM (custody_status E p now) (\<lambda>r. ret (map_sum Custody_tool_error (\<lambda>x. Inl (map_option (publicCustody E) x)) r))
      | None \<Rightarrow> bindM (custody_status_all E now) (\<lambda>r. ret (map_sum Custody_tool_error (\<lambda>x. Inr (map (publicCustody E) x)) r)))"

section \<open>Agents and actors\<close>

text \<open>A runtime that has registered is up: its wake lease is cleared, and a failure of that is ignored.\<close>

definition clearOutstandingWakeLease :: "runtime \<Rightarrow> string \<Rightarrow> ('z world_scheme, unit) comp" where
  "clearOutstandingWakeLease E actorId =
     catchM (bindM (get_lease E actorId) (\<lambda>lease.
             case lease of None \<Rightarrow> ret () | Some l \<Rightarrow> thenM (clear_lease E actorId (wl_lease_id l)) (ret ())))
       (\<lambda>_. ret ())"

definition registerAgent_tool :: "runtime \<Rightarrow> draws \<Rightarrow> string \<Rightarrow> string \<Rightarrow> string \<Rightarrow> ('z client_world_scheme, string \<times> string) comp" where
  "registerAgent_tool E dr role name description =
     bindM (register_client E dr role name (Some description) None) (\<lambda>(n, sid).
     thenM (clearOutstandingWakeLease E n) (ret (n, sid)))"

record ActorRegisterParams =
  ap_alias :: string
  ap_mode :: ActivationPolicyMode
  ap_max_concurrency :: int
  ap_launch_command :: "string option"
  ap_launch_args :: "string list option"
  ap_launch_cwd :: "string option"
  ap_capabilities :: "string list option"

fun mode_text :: "ActivationPolicyMode \<Rightarrow> string" where
  "mode_text Wake_if_offline = ''wake_if_offline''"
| "mode_text Store_only = ''store_only''"

definition buildProfileInput :: "host \<Rightarrow> string \<Rightarrow> ActorRegisterParams \<Rightarrow> json" where
  "buildProfileInput H actorId p =
     (let command = (case ap_launch_command p of None \<Rightarrow> [] | Some c \<Rightarrow> trim c) in
      obj [(''actor_id'', JStr actorId), (''alias'', JStr (ap_alias p)),
           (''capabilities'', JArr (map JStr (case ap_capabilities p of None \<Rightarrow> [] | Some cs \<Rightarrow> cs))),
           (''workspace_root'', JStr (h_cwd H)), (''working_directory'', JStr (h_cwd H)),
           (''runtime'', JStr (if command \<noteq> [] then command else ''manual'')),
           (''activation_policy'', obj [(''mode'', JStr (mode_text (ap_mode p)))]), (''max_concurrency'', JNum (JInt (ap_max_concurrency p)))])"

definition buildLaunch :: "ActorRegisterParams \<Rightarrow> LaunchContract option" where
  "buildLaunch p =
     (case map_option trim (ap_launch_command p) of
        Some (c # cs) \<Rightarrow> Some \<lparr>lc_command = c # cs, lc_args = (case ap_launch_args p of None \<Rightarrow> [] | Some xs \<Rightarrow> xs), lc_cwd = ap_launch_cwd p\<rparr>
      | _ \<Rightarrow> None)"

definition actorRegister_tool :: "host \<Rightarrow> runtime \<Rightarrow> string \<Rightarrow> string option \<Rightarrow> ActorRegisterParams \<Rightarrow> ('z client_world_scheme, ActorDirectoryRecord tool_result) comp" where
  "actorRegister_tool H E now sid p =
     bindM (bindSession now sid) (\<lambda>(actor_id, session_id).
     bindM (register H E \<lparr>ar_profile_input = buildProfileInput H actor_id p, ar_launch = buildLaunch p, ar_registered_by = session_id, ar_registered_at = now\<rparr>)
       (\<lambda>r. ret (map_sum Directory_error id r)))"

definition publicRuntime :: "runtime \<Rightarrow> RuntimeIncarnation \<Rightarrow> RuntimeIncarnation" where
  "publicRuntime E r = r\<lparr>inc_incarnation_id := sessionTag E (inc_incarnation_id r), inc_session_id := map_option (sessionTag E) (inc_session_id r),
     inc_lease_id := map_option (sessionTag E) (inc_lease_id r)\<rparr>"

definition publicWakeLease :: "runtime \<Rightarrow> WakeLease \<times> PidLiveness option \<Rightarrow> WakeLease \<times> PidLiveness option" where
  "publicWakeLease E l = (case l of (lease, p) \<Rightarrow> (lease\<lparr>wl_issued_by_session := sessionTag E (wl_issued_by_session lease)\<rparr>, p))"

record ActorStatus =
  as_actor_id :: json
  as_presence :: RuntimePresenceState
  as_launch_contract :: LaunchContractReadiness
  as_wake_lease :: "(WakeLease \<times> PidLiveness option) option"
  as_runtime :: "RuntimeIncarnation option"

definition actorStatus_tool :: "runtime \<Rightarrow> os \<Rightarrow> string \<Rightarrow> string \<Rightarrow> ('z world_scheme, ActorStatus tool_result) comp" where
  "actorStatus_tool E Os now actor_id =
     bindM (get_actor E actor_id) (\<lambda>dir.
     case dir of
       Inl code \<Rightarrow> ret (Inl (Directory_error code))
     | Inr record \<Rightarrow>
         bindM (case record of
                  None \<Rightarrow> ret \<lparr>ap_launch_contract = Not_runnable, ap_runtime = None, ap_wake_lease = None\<rparr>
                | Some r \<Rightarrow> assemblePresenceInput E Os now r) (\<lambda>presence.
         ret (case classifyPresence (presence_input record presence) of
                None \<Rightarrow> Inl Presence_rejected
              | Some (i, st) \<Rightarrow> Inr \<lparr>as_actor_id = i, as_presence = st, as_launch_contract = ap_launch_contract presence,
                  as_wake_lease = map_option (publicWakeLease E) (ap_wake_lease presence), as_runtime = map_option (publicRuntime E) (ap_runtime presence)\<rparr>)))"

definition unregisterAgent_tool :: "runtime \<Rightarrow> string \<Rightarrow> string option \<Rightarrow> ('z client_world_scheme, string) comp" where
  "unregisterAgent_tool E now sid = bindM (bindSession now sid) (\<lambda>(name, _). thenM (unregister E) (ret name))"

definition closeSession_tool :: "string \<Rightarrow> string option \<Rightarrow> ('z client_world_scheme, string) comp" where
  "closeSession_tool now sid = thenM (bindSession now sid) closeCurrentSession"

definition getQueueStatus_tool :: "string option \<Rightarrow> ('z client_world_scheme, (string \<times> nat \<times> int option) list) comp" where
  "getQueueStatus_tool agent = getQueueStatus agent"

definition listAgents_tool :: "runtime \<Rightarrow> ('z client_world_scheme, AgentDiscoveryRecord list) comp" where
  "listAgents_tool E = listAgents E"

end
