(* ===== verification/Tool_Props.thy ===== *)
theory Tool_Props
  imports Tools Client_Props
begin

text \<open>
  What the tools guarantee over the stores they compose: a send that fails has touched no mailbox and woken
  nobody, and a send that succeeds has persisted its message before it launches anything, at most once,
  under the operator's policy and with the actor's wake lease.
\<close>

section \<open>Steps that spare a mailbox\<close>

definition same_mailbox :: "string \<Rightarrow> db \<Rightarrow> db \<Rightarrow> bool" where
  "same_mailbox a d d' \<longleftrightarrow> live d' (queue_key a) = live d (queue_key a) \<and> live d' (mailboxMeta_key a) = live d (mailboxMeta_key a)"

definition spares :: "(db \<Rightarrow> db \<Rightarrow> bool) \<Rightarrow> 'z tool_world_scheme \<Rightarrow> 'z tool_world_scheme \<Rightarrow> bool" where
  "spares P w w' \<longleftrightarrow> launches w' = launches w \<and> stepping P w w'"

interpretation spares: world_relation "spares P" for P
proof unfold_locales
  show "spares P w w" for w :: "'a tool_world_scheme" by (simp add: spares_def stepping.same)
  show "spares P u w" if "spares P u v" "spares P v w" for u v w :: "'a tool_world_scheme"
    using that stepping.chain unfolding spares_def by metis
qed

lemma spares_atomic: "(\<And>d r d'. c d = (r, d') \<Longrightarrow> P d d') \<Longrightarrow> relates (spares P) (atomic c)"
  unfolding relates_def spares_def stepping_def atomic_def by (auto split: prod.splits simp: after_step_def)

lemma spares_modifyM: "(\<And>w. history (f w) = history w \<and> launches (f w) = launches w) \<Longrightarrow> relates (spares P) (modifyM f)"
  by (rule spares.relates_modifyM) (simp add: spares_def stepping_def)

lemma spares_mapM: "(\<And>x. relates (spares P) (f x)) \<Longrightarrow> relates (spares P) (mapM f xs)"
  by (induction xs) (auto intro!: spares.relates_intros)

lemma spares_mono: "spares P w w' \<Longrightarrow> (\<And>d d'. P d d' \<Longrightarrow> Q d d') \<Longrightarrow> spares Q w w'"
  unfolding spares_def stepping_def by fastforce

lemma spares_any: "spares P w w' \<Longrightarrow> spares (\<lambda>_ _. True) w w'"
  by (erule spares_mono) simp

lemma spares_same_mailbox: "touches (- {queue_key a, mailboxMeta_key a}) c \<Longrightarrow> relates (spares (same_mailbox a)) (atomic c)"
  by (rule spares_atomic) (auto dest!: relatesD simp: same_mailbox_def frameD)

lemmas spares_intros = spares.relates_intros spares_modifyM spares_mapM

lemma mailbox_apart [simp]:
  "session_key x \<noteq> queue_key a" "lease_key x \<noteq> queue_key a" "agentSessions_key x \<noteq> queue_key a" "heartbeat_key x \<noteq> queue_key a"
  "session_key x \<noteq> mailboxMeta_key a" "lease_key x \<noteq> mailboxMeta_key a" "agentSessions_key x \<noteq> mailboxMeta_key a" "heartbeat_key x \<noteq> mailboxMeta_key a"
  by (simp_all add: key_simps)

lemma touches_HEXISTS: "touches K (HEXISTS k f)"
  by (simp add: command_defs touches_on_type framing.relates_pure)

lemma spares_binding:
  "relates (spares (same_mailbox a)) (ensureSessionBinding now sid :: ('z tool_world_scheme, _) comp)"
  "relates (spares (same_mailbox a)) (bindSession now sid :: ('z tool_world_scheme, _) comp)"
  by (auto simp: ensureSessionBinding_def bindSession_def reconnectSession_def getSession_def startLeaseRefresh_def stopLeaseRefresh_def refreshLease_def
      startHeartbeat_def stopHeartbeat_def beat_def requireRegistered_def refresh_lease_def
      intro!: spares_intros spares_same_mailbox touches_intros split: option.splits list.splits)

lemma spares_resolve: "relates (spares (same_mailbox a)) (resolveRecipient E to :: ('z tool_world_scheme, _) comp)"
  by (auto simp: resolveRecipient_def get_actor_def actor_readRecord_def resolveRegistered_def
      intro!: spares_intros spares_same_mailbox touches_intros touches_HEXISTS split: option.splits list.splits)

section \<open>What a push leaves behind\<close>

text \<open>
  The step that makes a send durable: it appends the message, or it finds the id under which an earlier
  send with the same key did.
\<close>

definition persists :: "runtime \<Rightarrow> QueueMessage \<Rightarrow> string option \<Rightarrow> push_status \<times> string \<Rightarrow> db \<Rightarrow> db \<Rightarrow> bool" where
  "persists E m key outcome d d' \<longleftrightarrow>
     outcome = (Sent, m_id m) \<and> list_at d' (queue_key (m_to m)) = list_at d (queue_key (m_to m)) @ [message_text E m]
     \<or> (\<exists>k i. outcome = (Duplicate, i) \<and> key = Some k \<and> str_at d (dedupe_key E (m_from m) k) = Some i)"

text \<open>A push that ends in \<open>r\<close>: durable when it reports so, and otherwise the mailbox is as it was.\<close>

definition push_ends :: "runtime \<Rightarrow> QueueMessage \<Rightarrow> string option \<Rightarrow> exn + push_status \<times> string \<Rightarrow> 'z tool_world_scheme \<Rightarrow> 'z tool_world_scheme \<Rightarrow> bool" where
  "push_ends E m key r w w' \<longleftrightarrow> launches w' = launches w \<and>
     (if \<exists>st i. r = Inr (st, i) \<and> st \<noteq> Full
      then \<exists>h. history w' = h @ history w \<and> (\<exists>(d, d') \<in> set h. persists E m key (projr r) d d')
      else stepping (same_mailbox (m_to m)) w w')"

lemma push_ends_step:
  assumes "stepping (same_mailbox (m_to m)) w w1" and "launches w1 = launches w" and "push_ends E m key r w1 w'"
  shows "push_ends E m key r w w'"
proof (cases "\<exists>st i. r = Inr (st, i) \<and> st \<noteq> Full")
  case True
  with assms(3) obtain h where h: "history w' = h @ history w1" "\<exists>(d, d') \<in> set h. persists E m key (projr r) d d'" by (auto simp: push_ends_def)
  from stepping_history[OF assms(1)] obtain g where "history w1 = g @ history w" by blast
  with h have "\<exists>h. history w' = h @ history w \<and> (\<exists>(d, d') \<in> set h. persists E m key (projr r) d d')" by (intro exI[of _ "h @ g"]) auto
  with True assms show ?thesis unfolding push_ends_def by simp
next
  case False
  with assms stepping.chain[OF assms(1)] show ?thesis unfolding push_ends_def by auto
qed

lemma same_db_stepping: "stepping (same_mailbox a) w (after_step w (next_db w))"
  by (simp add: stepping_def same_mailbox_def)

context js_runtime
begin

lemma push_cases:
  assumes "wire_json (message_json m)" and "bounded_push E bound m d = (r, d')"
  shows "r = Inr True \<and> list_at d' (queue_key (m_to m)) = list_at d (queue_key (m_to m)) @ [message_text E m] \<or> r \<noteq> Inr True \<and> d' = d"
proof (cases "push_types m d \<and> length (list_at d (queue_key (m_to m))) < bound")
  case True
  with bounded_push_run(1)[OF assms(1)] assms(2) have "r = Inr True" "d' = pushed_db E m id d" by auto
  then show ?thesis using pushed_db_views(1)[where K = "{}" and mark = id and m = m and E = E and d = d] by simp
next
  case False
  with bounded_push_run(2,3)[OF assms(1), of d bound] assms(2) show ?thesis by (cases "push_types m d") (auto simp: push_types_def)
qed

lemma push_idempotent_cases:
  assumes "wire_json (message_json m)" and "bounded_push_idempotent E bound (dedupe_key E s k) m d = (r, d')"
  shows "r = Inr (Sent, m_id m) \<and> list_at d' (queue_key (m_to m)) = list_at d (queue_key (m_to m)) @ [message_text E m]
    \<or> (\<exists>i. r = Inr (Duplicate, i) \<and> str_at d (dedupe_key E s k) = Some i \<and> d' = d)
    \<or> d' = d \<and> (\<forall>st i. r = Inr (st, i) \<longrightarrow> st = Full)"
proof -
  let ?dk = "dedupe_key E s k" let ?q = "queue_key (m_to m)"
  let ?mark = "upd ?dk (Some (RString (m_id m))) (Ex 86400)"
  consider "\<not> holds d ?dk TString" | i where "str_at d ?dk = Some i" | "holds d ?dk TString" "str_at d ?dk = None" "\<not> holds d ?q TList"
    | "holds d ?dk TString" "str_at d ?dk = None" "holds d ?q TList" "bound \<le> length (list_at d ?q)"
    | "holds d ?dk TString" "str_at d ?dk = None" "holds d ?q TList" "length (list_at d ?q) < bound" "\<not> push_types m d"
    | "holds d ?dk TString" "str_at d ?dk = None" "length (list_at d ?q) < bound" "push_types m d"
    by (metis linorder_not_le option.exhaust)
  then show ?thesis
  proof cases
    case 1 with assms(2) show ?thesis by (auto simp: bounded_push_idempotent_def run_simps)
  next
    case 2 with idempotent_duplicate[OF 2] assms(2) show ?thesis by auto
  next
    case 3 with assms(2) show ?thesis by (auto simp: bounded_push_idempotent_def run_simps)
  next
    case 4 with assms(2) show ?thesis by (auto simp: bounded_push_idempotent_def run_simps)
  next
    case 5
    with push_checked_wrongtype[OF 5(3,5), of "length (list_at d ?q)" "SET ?dk (m_id m) (Ex 86400)"] assms(2) show ?thesis
      by (auto simp: bounded_push_idempotent_def run_simps)
  next
    case 6
    then have "live d ?dk = None" by (cases "live d ?dk" rule: as_str.cases) (auto simp: holds_def)
    from idempotent_push_run[OF assms(1) 6(4,1) this 6(3)] assms(2) have "r = Inr (Sent, m_id m)" "d' = pushed_db E m ?mark d" by auto
    moreover have "list_at (pushed_db E m ?mark d) ?q = list_at d ?q @ [message_text E m]"
      by (rule pushed_db_views(1)[where K = "{?dk}"]) (simp_all add: view_simps)
    ultimately show ?thesis by simp
  qed
qed

lemma send_loop_ends:
  "wire_json (message_json m) \<Longrightarrow> send_loop n E bound m w = (r, w') \<Longrightarrow>
    push_ends E m key (map_sum id (\<lambda>sent. (if sent then Sent else Full, m_id m)) r) w w'"
proof (induction n arbitrary: w)
  case 0
  then show ?case by (auto simp: ret_run push_ends_def stepping.same)
next
  case (Suc n)
  obtain x d where x: "bounded_push E bound m (next_db w) = (x, d)" by fastforce
  have w1: "atomic (bounded_push E bound m) w = (x, after_step w d)" using x by (rule atomic_run)
  show ?case
  proof (cases "x = Inr True")
    case True
    with push_cases[OF Suc.prems(1) x] have "persists E m key (Sent, m_id m) (next_db w) d" by (simp add: persists_def)
    moreover have "r = Inr True" "w' = after_step w d" using Suc.prems(2) w1 True by (auto simp: bindM_ok ret_run)
    ultimately show ?thesis by (simp add: push_ends_def after_step_def)
  next
    case False
    with push_cases[OF Suc.prems(1) x] have d: "d = next_db w" by blast
    show ?thesis
    proof (cases x)
      case (Inl e)
      with Suc.prems(2) w1 have "r = Inl e" "w' = after_step w d" by (auto simp: bindM_err)
      then show ?thesis using d by (simp add: push_ends_def same_db_stepping) (simp add: after_step_def)
    next
      case (Inr b)
      with False Suc.prems(2) w1 have "send_loop n E bound m (after_step w d) = (r, w')" by (auto simp: bindM_def)
      from Suc.IH[OF Suc.prems(1) this] show ?thesis
        by (rule push_ends_step[rotated 2]) (simp_all add: d same_db_stepping, simp add: after_step_def)
    qed
  qed
qed

lemma sendIdempotent_loop_ends:
  "wire_json (message_json m) \<Longrightarrow> sendIdempotent_loop n E bound (dedupe_key E (m_from m) k) m w = (r, w') \<Longrightarrow> push_ends E m (Some k) r w w'"
proof (induction n arbitrary: w)
  case 0
  then show ?case by (auto simp: ret_run push_ends_def stepping.same)
next
  case (Suc n)
  let ?c = "bounded_push_idempotent E bound (dedupe_key E (m_from m) k) m"
  obtain x d where x: "?c (next_db w) = (x, d)" by fastforce
  have w1: "atomic ?c w = (x, after_step w d)" using x by (rule atomic_run)
  note cs = push_idempotent_cases[OF Suc.prems(1) x]
  show ?case
  proof (cases "\<exists>st i. x = Inr (st, i) \<and> st \<noteq> Full")
    case True
    then obtain st i where st: "x = Inr (st, i)" "st \<noteq> Full" by blast
    then have "r = Inr (st, i)" "w' = after_step w d" using Suc.prems(2) w1 by (auto simp: bindM_ok ret_run)
    moreover have "persists E m (Some k) (st, i) (next_db w) d" using cs st by (auto simp: persists_def)
    ultimately show ?thesis using st by (simp add: push_ends_def after_step_def)
  next
    case False
    with cs have d: "d = next_db w" by auto
    show ?thesis
    proof (cases x)
      case (Inl e)
      with Suc.prems(2) w1 have "r = Inl e" "w' = after_step w d" by (auto simp: bindM_err)
      then show ?thesis using d by (simp add: push_ends_def same_db_stepping) (simp add: after_step_def)
    next
      case (Inr b)
      with False have "fst b = Full" by (cases b) auto
      with Inr Suc.prems(2) w1 have "sendIdempotent_loop n E bound (dedupe_key E (m_from m) k) m (after_step w d) = (r, w')"
        by (cases b) (simp add: bindM_ok)
      from Suc.IH[OF Suc.prems(1) this] show ?thesis
        by (rule push_ends_step[rotated 2]) (simp_all add: d same_db_stepping, simp add: after_step_def)
    qed
  qed
qed

end

lemma same_agent_push:
  fixes w :: "'z tool_world_scheme"
  assumes "js_runtime E" and "wire_json (message_json m)" and "agentName w = Some (m_from m)" and "push_message E p m w = (r, w')"
  shows "push_ends E m (nonempty (sm_idempotency_key p)) r w w'"
proof (cases "m_from m = []")
  case True
  with assms(3,4) have "w' = w \<and> (\<exists>e. r = Inl e)"
    by (auto simp: push_message_def sendMessage_def sendMessageIdempotent_def requireRegistered_def run_simps bindM_err thenM_err split: option.splits)
  then show ?thesis by (auto simp: push_ends_def stepping.same)
next
  case False
  then have reg: "requireRegistered w = (Inr (m_from m), w)" using assms(3) by (cases "m_from m") (auto simp: requireRegistered_def run_simps)
  show ?thesis
  proof (cases "nonempty (sm_idempotency_key p)")
    case None
    with assms(4) reg obtain x where "send_loop 10 E (queueBound w) m w = (x, w')" and "r = map_sum id (\<lambda>sent. (if sent then Sent else Full, m_id m)) x"
      by (auto simp: push_message_def sendMessage_def send_def run_simps elim!: bindM_cases)
    with js_runtime.send_loop_ends[OF assms(1,2)] show ?thesis by blast
  next
    case (Some k)
    with assms(4) reg have "sendIdempotent_loop 10 E (queueBound w) (dedupe_key E (m_from m) k) m w = (r, w')"
      by (simp add: push_message_def sendMessageIdempotent_def sendIdempotent_def run_simps)
    with js_runtime.sendIdempotent_loop_ends[OF assms(1,2)] Some show ?thesis by simp
  qed
qed

section \<open>What waking does\<close>

abbreviation anything :: "db \<Rightarrow> db \<Rightarrow> bool" where
  "anything \<equiv> (\<lambda>_ _. True)"

lemma spares_wake:
  "relates (spares anything) (assemblePresenceInput E Os now record :: ('z tool_world_scheme, _) comp)"
  "relates (spares anything) (get_actor E a :: ('z tool_world_scheme, _) comp)"
  "relates (spares anything) (attachSpawn E a i pid now :: ('z tool_world_scheme, _) comp)"
  "relates (spares anything) (acquireOrCoalesce E uuid now record :: ('z tool_world_scheme, _) comp)"
  by (auto simp: assemblePresenceInput_def getPresence_def getPresenceMany_def workloadForSession_def activeClaimFor_def get_lease_def clear_lease_def
      reconcileWakeLease_def get_actor_def actor_readRecord_def attachSpawn_def acquireOrCoalesce_def acquire_lease_def iso_after_def toISOString_def Let_def
      intro!: spares_intros spares_atomic split: option.splits list.splits bool.splits prod.splits)

lemma spares_decision: "relates (spares anything) (wakeDecision E Os now r :: ('z tool_world_scheme, _) comp)"
  by (auto simp: wakeDecision_def intro!: spares_intros spares_wake split: option.splits sum.splits prod.splits WakePresenceDecision.splits)

text \<open>
  A launch that follows the rules: the contract is the one of a directory record that was read while waking
  and asks to be woken, it passes the operator's policy, and the actor had no wake lease until this send
  took it under the id the result reports.
\<close>

definition rightful_launch :: "host \<Rightarrow> runtime \<Rightarrow> string \<Rightarrow> SendWakeResult option \<Rightarrow> (db \<times> db) list \<Rightarrow> LaunchContract \<Rightarrow> bool" where
  "rightful_launch H E i wake steps c \<longleftrightarrow>
     evaluateLaunchPolicy H E c = Inr () \<and> (\<exists>pid. wake = Some (Wake_dispatched i pid)) \<and>
     (\<exists>record. ad_launch record = Some c \<and> profile_mode (ad_profile record) = Wake_if_offline
        \<and> (\<exists>(d, d') \<in> set steps. \<exists>a raw. map_of (hash_at d actor_profiles_key) a = Some raw \<and> actor_parseStored E raw = Stored (Some record))
        \<and> (\<exists>(d, d') \<in> set steps. \<exists>l. live d (wakeLease_key (actor_field E (ad_profile record))) = None \<and> wl_lease_id l = i
              \<and> str_at d' (wakeLease_key (actor_field E (ad_profile record))) = Some (cjson_encode E (lease_json l))))"

lemma shipLaunch_ends:
  assumes "shipLaunch H E Os now record lease w = (r, w')"
  shows "(\<exists>h. history w' = h @ history w) \<and> (launches w' = launches w \<and> (\<exists>x. r = Inr x)
    \<or> (\<exists>c pid. ad_launch record = Some c \<and> evaluateLaunchPolicy H E c = Inr () \<and> launches w' = (length (history w), c) # launches w
          \<and> r = Inr (Wake_dispatched (wl_lease_id lease) pid)))"
proof -
  let ?a = "actor_field E (ad_profile record)"
  have quiet: "(\<exists>h. history v' = h @ history v) \<and> launches v' = launches v \<and> (\<exists>y. x = Inr y)"
    if run: "catchM (attachSpawn E ?a (wl_lease_id lease) p now) (\<lambda>_. ret False) v = (x, v')" for p x and v v' :: "'a tool_world_scheme"
    using relatesD[OF spares.relates_catchM[OF spares_wake(3) spares.relates_pure(1)] run] stepping_history run
    by (auto simp: spares_def ret_run elim!: catchM_cases)
  from assms show ?thesis
    by (auto simp: shipLaunch_def dispatchLaunch_def ret_run modifyM_run split: option.splits sum.splits spawn_result.splits LaunchOutcome.splits
        elim!: bindM_cases thenM_cases dest!: quiet)
qed

lemma wakeOfflineLaunchable_ends:
  assumes "js_runtime E" and "wakeOfflineLaunchable H E Os uuid now record w = (r, w')"
    and "profile_mode (ad_profile record) = Wake_if_offline"
  shows "\<exists>h. history w' = h @ history w \<and> (launches w' = launches w
    \<or> (\<exists>n c. launches w' = (n, c) # launches w \<and> length (history w) \<le> n \<and> (\<exists>x. r = Inr x)
          \<and> (\<forall>steps a raw. (\<exists>(d, d') \<in> set steps. map_of (hash_at d actor_profiles_key) a = Some raw) \<longrightarrow> actor_parseStored E raw = Stored (Some record)
               \<longrightarrow> rightful_launch H E uuid (Some (projr r)) (h @ steps) c)))"
proof -
  let ?a = "actor_field E (ad_profile record)" let ?k = "wakeLease_key ?a"
  obtain x w1 where x: "acquireOrCoalesce E uuid now record w = (x, w1)" by fastforce
  from relatesD[OF spares_wake(4) x] stepping_history obtain g where g: "history w1 = g @ history w" "launches w1 = launches w"
    unfolding spares_def by blast
  show ?thesis
  proof (cases "\<exists>l. x = Inr (Owned l)")
    case False
    with assms(2) x have "w' = w1"
      by (auto simp: wakeOfflineLaunchable_def bindM_def ret_run split: sum.splits AcquireOutcome.splits)
    with g show ?thesis by auto
  next
    case True
    then obtain l where l: "x = Inr (Owned l)" ..
    define i where "i = \<lparr>wa_actor_id = ?a, wa_issued_by_session = (case sessionId w of None \<Rightarrow> ''unknown'' | Some s \<Rightarrow> s), wa_lease_seconds = JInt WAKE_LEASE_SECONDS, wa_now = now\<rparr>"
    from x l have "acquire_lease E uuid i w = (Inr (Inr (l, False)), w1)"
      by (auto simp: acquireOrCoalesce_def i_def getM_run ret_run elim!: bindM_cases split: sum.splits prod.splits bool.splits)
    from acquire_outcome[OF assms(1) this] have acq: "history w1 = (next_db w, redis w1) # history w" "live (next_db w) ?k = None"
      "wl_lease_id l = uuid" "str_at (redis w1) ?k = Some (cjson_encode E (lease_json l))"
      by (auto simp: i_def new_lease_def)
    from assms(2) x l have "shipLaunch H E Os now record l w1 = (r, w')" by (simp add: wakeOfflineLaunchable_def bindM_ok)
    from shipLaunch_ends[OF this] obtain h where h: "history w' = h @ history w1" and
      cs: "launches w' = launches w1 \<or> (\<exists>c pid. ad_launch record = Some c \<and> evaluateLaunchPolicy H E c = Inr ()
          \<and> launches w' = (length (history w1), c) # launches w1 \<and> r = Inr (Wake_dispatched (wl_lease_id l) pid))" by blast
    from cs show ?thesis
    proof
      assume "launches w' = launches w1"
      with h g show ?thesis by auto
    next
      assume "\<exists>c pid. ad_launch record = Some c \<and> evaluateLaunchPolicy H E c = Inr ()
          \<and> launches w' = (length (history w1), c) # launches w1 \<and> r = Inr (Wake_dispatched (wl_lease_id l) pid)"
      then obtain c pid where c: "ad_launch record = Some c" "evaluateLaunchPolicy H E c = Inr ()"
        "launches w' = (length (history w1), c) # launches w1" "r = Inr (Wake_dispatched (wl_lease_id l) pid)" by blast
      let ?h = "h @ [(next_db w, redis w1)]"
      have "rightful_launch H E uuid (Some (projr r)) (?h @ steps) c"
        if st: "\<exists>(d, d') \<in> set steps. map_of (hash_at d actor_profiles_key) a = Some raw" "actor_parseStored E raw = Stored (Some record)" for steps a raw
      proof -
        have "\<exists>(d, d') \<in> set (?h @ steps). \<exists>a raw. map_of (hash_at d actor_profiles_key) a = Some raw \<and> actor_parseStored E raw = Stored (Some record)"
          using st by fastforce
        moreover have "\<exists>(d, d') \<in> set (?h @ steps). \<exists>l. live d ?k = None \<and> wl_lease_id l = uuid \<and> str_at d' ?k = Some (cjson_encode E (lease_json l))"
          by (rule bexI[of _ "(next_db w, redis w1)"]) (use acq in auto)
        ultimately show ?thesis unfolding rightful_launch_def using c(1,2) assms(3)
          by (intro conjI exI[of _ "record"]) (use c(4) acq(3) in simp_all)
      qed
      then show ?thesis using c h g(2) acq(1) by (intro exI[of _ "h @ [(next_db w, redis w1)]"]) auto
    qed
  qed
qed

lemma wakeDecision_record:
  assumes "wakeDecision E Os now r w = (Inr (Inr record), w')"
  shows "profile_mode (ad_profile record) = Wake_if_offline \<and> (\<exists>h. history w' = h @ history w
    \<and> (\<exists>(d, d') \<in> set h. \<exists>a raw. map_of (hash_at d actor_profiles_key) a = Some raw \<and> actor_parseStored E raw = Stored (Some record)))"
proof -
  let ?a = "actor_field E (ad_profile r)"
  from assms obtain w1 p where fresh: "get_actor E ?a w = (Inr (Inr (Some record)), w1)" and mode: "profile_mode (ad_profile record) = Wake_if_offline"
    and rest: "assemblePresenceInput E Os now record w1 = (Inr p, w')"
    by (auto simp: wakeDecision_def wakeEligible_def ret_run elim!: bindM_cases split: sum.splits option.splits if_splits prod.splits WakePresenceDecision.splits)
  from fresh obtain raw where raw: "map_of (hash_at (next_db w) actor_profiles_key) ?a = Some raw" "actor_parseStored E raw = Stored (Some record)"
    and w1: "history w1 = (next_db w, next_db w) # history w"
    by (auto simp: get_actor_def actor_readRecord_def atomic_def HGET_def on_type_def getM_run ret_run after_step_def elim!: bindM_cases
        split: option.splits StoredRead.splits prod.splits if_splits)
  from relatesD[OF spares_wake(1) rest] stepping_history obtain g where "history w' = g @ history w1" unfolding spares_def by blast
  with w1 raw mode show ?thesis by (auto intro!: exI[of _ "g @ [(next_db w, next_db w)]"])
qed

lemma maybeWake_ends:
  assumes "js_runtime E" and "maybeWake H E Os uuid now resolved w = (r, w')"
  shows "\<exists>h. history w' = h @ history w \<and> (launches w' = launches w
    \<or> (\<exists>n c wake. launches w' = (n, c) # launches w \<and> length (history w) \<le> n \<and> r = Inr wake \<and> rightful_launch H E uuid wake h c))"
proof (cases resolved)
  case None
  with assms(2) show ?thesis by (auto simp: maybeWake_def ret_run)
next
  case (Some a)
  obtain x w1 where x: "catchM (wakeDecision E Os now a) (\<lambda>_. ret (Inl (Some Wake_error))) w = (x, w1)" by fastforce
  from relatesD[OF spares.relates_catchM[OF spares_decision spares.relates_pure(1)] x] stepping_history
  obtain g where g: "history w1 = g @ history w" "launches w1 = launches w" unfolding spares_def by blast
  show ?thesis
  proof (cases "\<exists>record. x = Inr (Inr record)")
    case False
    with assms(2) Some x have "w' = w1" by (auto simp: maybeWake_def bindM_def ret_run split: sum.splits)
    with g show ?thesis by auto
  next
    case True
    then obtain "record" where rec: "x = Inr (Inr record)" ..
    with x have "wakeDecision E Os now a w = (Inr (Inr record), w1)" by (auto simp: ret_run elim!: catchM_cases)
    from wakeDecision_record[OF this] g obtain raw b where mode: "profile_mode (ad_profile record) = Wake_if_offline"
      and read: "\<exists>(d, d') \<in> set g. map_of (hash_at d actor_profiles_key) b = Some raw" "actor_parseStored E raw = Stored (Some record)" by auto
    from assms(2) Some x rec obtain y where y: "wakeOfflineLaunchable H E Os uuid now record w1 = (y, w')" and r: "r = map_sum id Some y"
      by (auto simp: maybeWake_def bindM_ok ret_run elim!: bindM_cases)
    from wakeOfflineLaunchable_ends[OF assms(1) y mode] obtain h where h: "history w' = h @ history w1" and
      cs: "launches w' = launches w1 \<or> (\<exists>n c z. launches w' = (n, c) # launches w1 \<and> length (history w1) \<le> n \<and> y = Inr z
            \<and> rightful_launch H E uuid (Some (projr y)) (h @ g) c)"
      using read by blast
    from h g have "history w' = (h @ g) @ history w" by simp
    with cs g r show ?thesis by (intro exI[of _ "h @ g"]) auto
  qed
qed

lemma bindSession_agent:
  assumes "bindSession now sid w = (Inr (sender, s), w')"
  shows "agentName w' = Some sender"
  using assms by (auto simp: bindSession_def requireRegistered_def getM_run ret_run throw_run elim!: bindM_cases thenM_cases split: option.splits list.splits)

definition after_push :: "host \<Rightarrow> runtime \<Rightarrow> os \<Rightarrow> send_draws \<Rightarrow> SendParams \<Rightarrow> ActorDirectoryRecord option \<Rightarrow> push_status \<times> string
    \<Rightarrow> ('z tool_world_scheme, SendPayload tool_result) comp" where
  "after_push H E Os sd p record = (\<lambda>(status, i).
     if status = Full then ret (Inl QUEUE_FULL)
     else bindM (maybeWake H E Os (sd_lease_id sd) (sd_wake sd) record) (\<lambda>wake.
          ret (Inr \<lparr>sp_status = status, sp_message_id = i, sp_to = sm_to p, sp_deduplicated = (status = Duplicate), sp_wake = wake\<rparr>)))"

lemma send_prologue:
  fixes w :: "'z tool_world_scheme"
  assumes "sendMessage_tool H E Os sd p w = (r, w')"
  obtains (stopped) "spares (same_mailbox (sm_to p)) w w'" "\<And>payload. r \<noteq> Inr (Inr payload)"
    | (bound) sender "record" w1 where "spares (same_mailbox (sm_to p)) w w1" "agentName w1 = Some sender"
        "bindM (push_message E p (sent_message p sd sender)) (after_push H E Os sd p record) w1 = (r, w')"
proof -
  let ?R = "spares (same_mailbox (sm_to p)) :: 'z tool_world_scheme \<Rightarrow> _"
  obtain a wa where a: "ensureSessionBinding (sd_bound sd) (sm_session_id p) w = (a, wa)" by fastforce
  obtain b wb where b: "resolveRecipient E (sm_to p) wa = (b, wb)" by fastforce
  obtain c wc where c: "bindSession (sd_bound sd) (sm_session_id p) wb = (c, wc)" by fastforce
  note R = relatesD[OF spares_binding(1) a] relatesD[OF spares_resolve b] relatesD[OF spares_binding(2) c]
  have ab: "?R w wb" by (rule spares.chain, rule R(1), rule R(2))
  have abc: "?R w wc" by (rule spares.chain, rule ab, rule R(3))
  show thesis
  proof (cases "\<exists>x record y. a = Inr x \<and> b = Inr (Inr record) \<and> c = Inr y")
    case True
    then obtain x "record" sender s' where "a = Inr x" "b = Inr (Inr record)" "c = Inr (sender, s')" by auto
    with assms a b c bindSession_agent[of _ _ wb sender s' wc] abc show ?thesis
      by (intro bound[of wc sender "record"]) (simp_all add: sendMessage_tool_def thenM_ok bindM_ok after_push_def)
  next
    case False
    with assms a b c have "w' = wa \<or> w' = wb \<or> w' = wc" and "\<And>payload. r \<noteq> Inr (Inr payload)"
      by (auto simp: sendMessage_tool_def thenM_def bindM_def ret_run split: sum.splits)
    with R(1)[of "sm_to p"] ab abc have "?R w w'" by blast
    then show ?thesis by (rule stopped) fact
  qed
qed

section \<open>Sending\<close>

text \<open>
  Persist before wake (C4). A send either fails before its message is stored, and then it has left the
  recipient's mailbox as it was at each of its steps and launched nothing; or one of its steps stored the
  message (or found the id under which an earlier send with the same key stored it), the result reports that
  outcome, and only after that step may the recipient be launched: at most once, from a directory record
  that was read after the message was stored and asks to be woken, under the operator's launch policy, and
  after taking the wake lease no other send holds. Whatever other clients do between the steps, a failed
  activation never loses a message, and an unknown recipient creates no mailbox.
\<close>

theorem persist_before_wake:
  assumes "js_runtime E" and "\<And>j. sm_metadata p = Some j \<Longrightarrow> wire 30 j" and "sendMessage_tool H E Os sd p w = (r, w')"
  shows "launches w' = launches w \<and> stepping (same_mailbox (sm_to p)) w w' \<and> (\<forall>payload. r \<noteq> Inr (Inr payload))
    \<or> (\<exists>sender outcome pre post. history w' = post @ pre @ history w
         \<and> (\<exists>(d, d') \<in> set pre. persists E (sent_message p sd sender) (nonempty (sm_idempotency_key p)) outcome d d')
         \<and> (\<forall>payload. r = Inr (Inr payload) \<longrightarrow> (sp_status payload, sp_message_id payload) = outcome)
         \<and> (launches w' = launches w
            \<or> (\<exists>n c payload. launches w' = (n, c) # launches w \<and> length (pre @ history w) \<le> n \<and> r = Inr (Inr payload)
                 \<and> rightful_launch H E (sd_lease_id sd) (sp_wake payload) post c)))"
  using assms(3)
proof (cases rule: send_prologue)
  case stopped
  then show ?thesis by (simp add: spares_def)
next
  case (bound sender "record" w1)
  let ?m = "sent_message p sd sender" let ?key = "nonempty (sm_idempotency_key p)"
  have wire: "wire_json (message_json ?m)" by (rule wire_message) (use assms(2) in \<open>simp add: sent_message_def\<close>)
  have to: "m_to ?m = sm_to p" "m_from ?m = sender" by (simp_all add: sent_message_def)
  obtain x w2 where x: "push_message E p ?m w1 = (x, w2)" by fastforce
  from push_ends_step[OF _ _ same_agent_push[OF assms(1) wire _ x]] bound(1,2) have ends: "push_ends E ?m ?key x w w2"
    by (simp add: to spares_def)
  show ?thesis
  proof (cases "\<exists>st i. x = Inr (st, i) \<and> st \<noteq> Full")
    case False
    with bound(3) x have "w' = w2" "\<forall>payload. r \<noteq> Inr (Inr payload)"
      by (auto simp: bindM_def after_push_def ret_run split: sum.splits)
    moreover have "spares (same_mailbox (sm_to p)) w w2" using ends unfolding push_ends_def if_not_P[OF False] spares_def to .
    ultimately show ?thesis by (simp add: spares_def)
  next
    case True
    then obtain st i where st: "x = Inr (st, i)" "st \<noteq> Full" by blast
    from ends True st obtain pre where pre: "history w2 = pre @ history w" "\<exists>(d, d') \<in> set pre. persists E ?m ?key (st, i) d d'" "launches w2 = launches w"
      by (auto simp: push_ends_def)
    from bound(3) x st obtain y where y: "maybeWake H E Os (sd_lease_id sd) (sd_wake sd) record w2 = (y, w')"
      and r: "r = map_sum id (\<lambda>wake. Inr \<lparr>sp_status = st, sp_message_id = i, sp_to = sm_to p, sp_deduplicated = (st = Duplicate), sp_wake = wake\<rparr>) y"
      by (auto simp: bindM_ok after_push_def ret_run elim!: bindM_cases)
    from maybeWake_ends[OF assms(1) y] pre obtain post where post: "history w' = post @ pre @ history w"
      and cs: "launches w' = launches w \<or> (\<exists>n c wake. launches w' = (n, c) # launches w \<and> length (pre @ history w) \<le> n \<and> y = Inr wake
          \<and> rightful_launch H E (sd_lease_id sd) wake post c)" by auto
    have "\<forall>payload. r = Inr (Inr payload) \<longrightarrow> (sp_status payload, sp_message_id payload) = (st, i)" using r by (cases y) auto
    with post pre(2) cs r show ?thesis
      by - (rule disjI2, rule exI[of _ sender], rule exI[of _ "(st, i)"], rule exI[of _ pre], rule exI[of _ post], auto)
  qed
qed

definition demo_send_db :: db where
  "demo_send_db = upd registry_key (Some (RHash [(''bob'', ''t'')])) NoTtl empty_db"

definition demo_tool_world :: tool_world where
  "demo_tool_world =
     \<lparr>redis = demo_send_db, interfere = (\<lambda>_ d. d), history = [], receivesClosed = False, refreshSessionId = None,
      agentName = Some ''alice'', sessionId = Some ''s1'', heartbeatFor = None, connectionsForcedClosed = False, connectionsOpen = True,
      queueBound = 10, launches = []\<rparr>"

definition demo_send_params :: SendParams where
  "demo_send_params = \<lparr>sm_session_id = None, sm_to = ''bob'', sm_content = ''hello'', sm_type = Task, sm_metadata = None, sm_in_reply_to = None,
     sm_idempotency_key = None\<rparr>"

definition demo_send_draws :: send_draws where
  "demo_send_draws = \<lparr>sd_message_id = ''m1'', sd_lease_id = ''l1'', sd_bound = ''t'', sd_timestamp = ''t'', sd_wake = ''t''\<rparr>"

lemma demo_send_message: "sent_message demo_send_params demo_send_draws ''alice'' = demo_message"
  by (simp add: sent_message_def demo_send_params_def demo_send_draws_def demo_message_def)

lemma demo_push: "bounded_push std_env 10 demo_message demo_send_db = (Inr True, pushed_db std_env demo_message id demo_send_db)"
proof (rule std.bounded_push_run(1)[OF wire_demo])
  show "push_types demo_message demo_send_db" "length (list_at demo_send_db (queue_key (m_to demo_message))) < 10"
    by (simp_all add: push_types_def demo_send_db_def demo_message_def message_outstanding_key_def view_simps key_simps)
qed

lemma demo_send_tool:
  "\<exists>w'. sendMessage_tool H std_env Os demo_send_draws demo_send_params demo_tool_world =
     (Inr (Inr \<lparr>sp_status = Sent, sp_message_id = ''m1'', sp_to = ''bob'', sp_deduplicated = False, sp_wake = None\<rparr>), w') \<and> launches w' = []"
proof -
  let ?w = demo_tool_world let ?d = demo_send_db
  let ?w1 = "after_step (after_step ?w ?d) ?d" let ?w2 = "after_step ?w1 (pushed_db std_env demo_message id ?d)"
  have here: "quiet ?w" "redis ?w = ?d" by (simp_all add: demo_tool_world_def quiet_def)
  have kept: "agentName ?w1 = Some ''alice''" "sessionId ?w1 = Some ''s1''" "queueBound ?w1 = 10" "launches ?w2 = []"
    by (simp_all add: demo_tool_world_def after_step_def)
  have 1: "ensureSessionBinding now None u = (Inr (), u)" for now and u :: tool_world by (simp add: ensureSessionBinding_def nonempty_def ret_run)
  have "holds ?d actor_profiles_key THash" "hash_at ?d actor_profiles_key = []" "holds ?d registry_key THash" "hash_at ?d registry_key = [(''bob'', ''t'')]"
    by (simp_all add: demo_send_db_def view_simps key_simps)
  then have 2: "resolveRecipient std_env ''bob'' ?w = (Inr (Inr None), ?w1)"
    by (simp add: resolveRecipient_def get_actor_def actor_readRecord_def resolveRegistered_def run_simps here)
  have 3: "bindSession now None ?w1 = (Inr (''alice'', ''s1''), ?w1)" for now
    by (simp add: bindSession_def requireRegistered_def nonempty_def 1 run_simps kept)
  have "atomic (bounded_push std_env 10 demo_message) ?w1 = (Inr True, ?w2)" by (rule atomic_run) (simp add: here demo_push)
  then have "send_loop 10 std_env 10 demo_message ?w1 = (Inr True, ?w2)"
    unfolding numeral_eq_Suc pred_numeral_simps send_loop.simps by (simp add: bindM_ok ret_run)
  then have 4: "push_message std_env demo_send_params demo_message ?w1 = (Inr (Sent, ''m1''), ?w2)"
    by (simp add: push_message_def demo_send_params_def sendMessage_def requireRegistered_def nonempty_def send_def run_simps kept) (simp add: demo_message_def)
  have "sm_session_id demo_send_params = None" "sm_to demo_send_params = ''bob''" by (simp_all add: demo_send_params_def)
  then show ?thesis
    by (simp add: sendMessage_tool_def thenM_ok bindM_ok 1 2 3 4 demo_send_message maybeWake_def ret_run kept)
qed

definition demo_os :: os where
  "demo_os = \<lparr>os_kill = (\<lambda>_. Kill_error), os_spawn = (\<lambda>_. Spawn_error)\<rparr>"

theorem persist_before_wake_witness:
  "\<exists>w' d d'. sendMessage_tool (demo_host []) std_env demo_os demo_send_draws demo_send_params demo_tool_world =
     (Inr (Inr \<lparr>sp_status = Sent, sp_message_id = ''m1'', sp_to = ''bob'', sp_deduplicated = False, sp_wake = None\<rparr>), w')
     \<and> (d, d') \<in> set (history w') \<and> (\<exists>m. m_content m = ''hello'' \<and> list_at d' (queue_key ''bob'') = list_at d (queue_key ''bob'') @ [message_text std_env m])"
proof -
  obtain w' where run: "sendMessage_tool (demo_host []) std_env demo_os demo_send_draws demo_send_params demo_tool_world =
     (Inr (Inr \<lparr>sp_status = Sent, sp_message_id = ''m1'', sp_to = ''bob'', sp_deduplicated = False, sp_wake = None\<rparr>), w')"
    using demo_send_tool by blast
  have none: "sm_metadata demo_send_params = Some j \<Longrightarrow> wire 30 j" for j by (simp add: demo_send_params_def)
  from persist_before_wake[OF std.js_runtime_axioms none run] obtain sender d d' where "(d, d') \<in> set (history w')"
    "persists std_env (sent_message demo_send_params demo_send_draws sender) (nonempty (sm_idempotency_key demo_send_params)) (Sent, ''m1'') d d'"
    by fastforce
  then show ?thesis
    using run by (intro exI[of _ w'] exI[of _ d] exI[of _ d'] conjI exI[of _ "sent_message demo_send_params demo_send_draws sender"])
      (auto simp: persists_def sent_message_def demo_send_params_def)
qed

section \<open>An error the wake does not catch\<close>

text \<open>
  The launch runs after the \<open>try\<close> block of \<open>maybeWake\<close> has ended: when the store fails while the wake lease is
  taken (here because the key has come to hold a value of another type), the error is thrown out of the send
  although its message has been stored.
\<close>

lemma wake_error_escapes:
  assumes "wakeDecision E Os now r w = (Inr (Inr record), w1)" and "date_parse E now = Some t" and "valid_instant (t + 60000)"
    and "\<not> holds (next_db w1) (wakeLease_key (actor_field E (ad_profile record))) TString"
  shows "\<exists>e w'. maybeWake H E Os uuid now (Some r) w = (Inl e, w')"
proof -
  let ?a = "actor_field E (ad_profile record)"
  have "\<exists>e w'. acquireOrCoalesce E uuid now record w1 = (Inl e, w')"
    using assms(2-4) by (auto simp: acquireOrCoalesce_def acquire_lease_def WAKE_LEASE_SECONDS_def iso_after_def toISOString_def
        wake_lease_acquire_def new_lease_def Let_def run_simps)
  then show ?thesis using assms(1) by (auto simp: maybeWake_def catchM_def bindM_ok bindM_err wakeOfflineLaunchable_def)
qed

end
