(* ===== verification/Runtime_Adapters.thy ===== *)
theory Runtime_Adapters
  imports Activation Launch_Policy
begin

text \<open>
  The adapters through which the dispatcher notifies a bound runtime: \<open>opencode-runtime.ts\<close>, \<open>codex-runtime.ts\<close>
  (with the reader of \<open>codex-history.ts\<close>) and \<open>pi-runtime.ts\<close> under \<open>src/src/registered-shell/\<close>.

  What the host answers during one activation is a record of its answers, \<open>None\<close> or \<open>Inl\<close> for a call that
  fails, is aborted or misses its deadline. An activation returns its outcome together with the prompts it
  handed to the host and, where the adapter remembers operations, the new memory. Maps keep the order of
  insertion. The working directory of the process, against which paths are resolved, is a parameter.
\<close>

section \<open>Text\<close>

definition contains_text :: "string \<Rightarrow> string \<Rightarrow> bool" where
  "contains_text sub s \<longleftrightarrow> list_ex (starts_with sub) (suffixes s)"

definition lower_text :: "string \<Rightarrow> string" where
  "lower_text s = map to_lower_char s"

section \<open>OpenCode\<close>

datatype OpenCodeSessionStatus = Idle_session | Busy_session | Retry_session

record OpenCodeHistoryInfo =
  hi_id :: "string option"
  hi_role :: "string option"
  hi_sessionID :: "string option"

record OpenCodeHistoryEntry =
  he_info :: "OpenCodeHistoryInfo option"
  he_parts :: "(string option \<times> string option) list option"     \<comment> \<open>type and text of each part\<close>

record OpenCodeIdentity =
  oi_runtime_id :: string
  oi_working_directory :: string
  oi_epoch :: "string option"

record OpenCodeRuntimePort =
  po_readIdentity :: "OpenCodeIdentity option"
  po_status :: "OpenCodeSessionStatus option"
  po_history :: "OpenCodeHistoryEntry list option"
  po_promptAsync :: bool

definition marker :: "string \<Rightarrow> string" where
  "marker operationId = ''GPTQueue activation operation: '' @ operationId"

definition nativeMessageId :: "runtime \<Rightarrow> string \<Rightarrow> string" where
  "nativeMessageId E operationId = ''msg_'' @ sha256_hex E operationId"

definition identityMatches :: "string \<Rightarrow> RuntimeIdentity \<Rightarrow> OpenCodeIdentity \<Rightarrow> bool" where
  "identityMatches cwd b identity \<longleftrightarrow> oi_runtime_id identity = id_runtime_id b
     \<and> path_resolve cwd (oi_working_directory identity) = path_resolve cwd (id_working_directory b)
     \<and> (oi_epoch identity = None \<or> oi_epoch identity = Some (id_epoch b))"

definition entryContains :: "runtime \<Rightarrow> OpenCodeHistoryEntry \<Rightarrow> string \<Rightarrow> string \<Rightarrow> bool" where
  "entryContains E entry operationId runtimeId =
     (case he_info entry of
        None \<Rightarrow> False
      | Some info \<Rightarrow> hi_role info = Some ''user'' \<and> hi_id info = Some (nativeMessageId E operationId) \<and> hi_sessionID info = Some runtimeId
          \<and> (case he_parts entry of
               None \<Rightarrow> False
             | Some parts \<Rightarrow> list_ex (\<lambda>(t, text). t = Some ''text'' \<and> (case text of None \<Rightarrow> False
                 | Some x \<Rightarrow> x = marker operationId \<or> starts_with (marker operationId @ [CHR 0x0A]) x)) parts))"

text \<open>\<open>None\<close> when the entry does not match, in which case the code throws.\<close>

definition turnId :: "runtime \<Rightarrow> OpenCodeHistoryEntry \<Rightarrow> string \<Rightarrow> string \<Rightarrow> string option" where
  "turnId E entry operationId runtimeId =
     (case nonempty (Option.bind (he_info entry) hi_id) of
        None \<Rightarrow> None
      | Some i \<Rightarrow> if entryContains E entry operationId runtimeId then Some i else None)"

definition createOpenCodeRuntime :: "string \<Rightarrow> RuntimeIdentity \<Rightarrow> OpenCodeIdentity option \<Rightarrow> exn + unit" where
  "createOpenCodeRuntime cwd b identity =
     (if id_client b \<noteq> ''opencode'' then Inl (JsError ''OpenCode runtime requires an OpenCode binding'')
      else case identity of
             None \<Rightarrow> Inl (JsError ''OpenCode runtime deadline exceeded'')
           | Some i \<Rightarrow> if identityMatches cwd b i then Inr () else Inl (JsError ''OpenCode session identity does not match binding''))"

definition observed_turn :: "runtime \<Rightarrow> OpenCodeHistoryEntry \<Rightarrow> string \<Rightarrow> string \<Rightarrow> OpenCodeSessionStatus option \<Rightarrow> ActivationOutcome" where
  "observed_turn E entry operationId runtimeId status =
     (case (status, turnId E entry operationId runtimeId) of
        (Some st, Some turn) \<Rightarrow> if st = Idle_session then Out_completed turn else Out_started turn
      | _ \<Rightarrow> Out_ambiguous)"

definition opencode_activate :: "runtime \<Rightarrow> string \<Rightarrow> RuntimeIdentity \<Rightarrow> bool \<Rightarrow> OpenCodeRuntimePort \<Rightarrow> string \<Rightarrow> string \<Rightarrow> bool
    \<Rightarrow> ActivationOutcome \<times> (string \<times> string) list" where
  "opencode_activate E cwd b unavailable port operation prompt recover_only =
     (if unavailable then (Out_unavailable, [])
      else case po_readIdentity port of
        None \<Rightarrow> (Out_unavailable, [])
      | Some identity \<Rightarrow>
          if \<not> identityMatches cwd b identity then (Out_unavailable, [])
          else (case po_history port of
            None \<Rightarrow> (Out_ambiguous, [])
          | Some hist \<Rightarrow>
              (case find (\<lambda>entry. entryContains E entry operation (id_runtime_id b)) hist of
                 Some existing \<Rightarrow> (observed_turn E existing operation (id_runtime_id b) (po_status port), [])
               | None \<Rightarrow>
                   if recover_only then (Out_ambiguous, [])
                   else (case po_status port of
                     None \<Rightarrow> (Out_unavailable, [])
                   | Some st \<Rightarrow>
                       if st \<noteq> Idle_session then (Out_busy, [])
                       else (if po_promptAsync port then Out_queued else Out_ambiguous,
                             [(nativeMessageId E operation, marker operation @ CHR 0x0A # prompt)])))))"

section \<open>Codex\<close>

text \<open>\<open>String(v ?? "")\<close>, \<open>None\<close> where it throws.\<close>

definition text_or_empty :: "runtime \<Rightarrow> json option \<Rightarrow> string option" where
  "text_or_empty E v = (case v of None \<Rightarrow> Some [] | Some JNull \<Rightarrow> Some [] | Some j \<Rightarrow> js_text E j)"

definition status_text :: "runtime \<Rightarrow> json \<Rightarrow> string option" where
  "status_text E turn = map_option lower_text (text_or_empty E (jget turn ''status''))"

fun activeTurn :: "runtime \<Rightarrow> json list \<Rightarrow> bool option" where
  "activeTurn E [] = Some False"
| "activeTurn E (turn # turns) =
     (if \<not> is_object turn then activeTurn E turns
      else Option.bind (status_text E turn) (\<lambda>st.
           if st \<in> set [''inprogress'', ''in_progress'', ''running'', ''started''] then Some True else activeTurn E turns))"

definition userMessageMatches :: "json \<Rightarrow> string \<Rightarrow> string \<Rightarrow> bool" where
  "userMessageMatches item operationId prompt \<longleftrightarrow> jget item ''type'' = Some (JStr ''userMessage'')
     \<and> (jget item ''clientId'' = Some (JStr operationId)
        \<or> (case jget item ''content'' of
             Some (JArr [c]) \<Rightarrow> jget c ''type'' = Some (JStr ''text'') \<and> jget c ''text'' = Some (JStr prompt)
           | _ \<Rightarrow> False))"

text \<open>The first turn with a matching user message and an identifier; \<open>None\<close> where the code throws.\<close>

fun find_turn :: "runtime \<Rightarrow> string \<Rightarrow> string \<Rightarrow> json list \<Rightarrow> ActivationOutcome option option" where
  "find_turn E operation prompt [] = Some None"
| "find_turn E operation prompt (turn # turns) =
     (case (if is_object turn then jget turn ''items'' else None) of
        Some (JArr items) \<Rightarrow>
          if list_ex (\<lambda>item. is_object item \<and> userMessageMatches item operation prompt) items
          then Option.bind (text_or_empty E (jget turn ''id'')) (\<lambda>i.
               if i = [] then find_turn E operation prompt turns
               else map_option (\<lambda>st. Some (if st \<in> set [''completed'', ''succeeded'', ''failed'', ''interrupted''] then Out_completed i else Out_started i))
                      (status_text E turn))
          else find_turn E operation prompt turns
      | _ \<Rightarrow> find_turn E operation prompt turns)"

definition incomplete_turn :: "json \<Rightarrow> bool" where
  "incomplete_turn turn \<longleftrightarrow> \<not> is_object turn \<or> (case jget turn ''items'' of Some (JArr _) \<Rightarrow> False | _ \<Rightarrow> True)
     \<or> (js_truthy (jget turn ''itemsView'') \<and> jget turn ''itemsView'' \<noteq> Some (JStr ''full''))"

definition threadMatches :: "runtime \<Rightarrow> string \<Rightarrow> RuntimeIdentity \<Rightarrow> json \<Rightarrow> bool option" where
  "threadMatches E cwd b thread =
     map_option (\<lambda>i. i = id_runtime_id b \<and> (case str_field thread ''cwd'' of None \<Rightarrow> False
        | Some c \<Rightarrow> path_resolve cwd c = path_resolve cwd (id_working_directory b))) (text_or_empty E (jget thread ''id''))"

text \<open>A map of at most 1024 operations, from which an insertion drops the oldest.\<close>

definition remember :: "string \<Rightarrow> 'v \<Rightarrow> (string \<times> 'v) list \<Rightarrow> (string \<times> 'v) list" where
  "remember k v m = (let m' = AList.update k v m in if 1024 < length m' then tl m' else m')"

text \<open>
  What the daemon does during one activation: the thread it returns, the answer to \<open>turn/start\<close> (the message of
  the error, or the result), and whether the caller has aborted by then.
\<close>

record codex_host =
  ch_thread :: "exn + json"
  ch_start :: "string + json"
  ch_aborted :: bool

definition rejected_busy :: "string \<Rightarrow> bool" where
  "rejected_busy message \<longleftrightarrow> list_ex (\<lambda>rest. starts_with ''codex rpc rejected:'' rest
     \<and> (let line = takeWhile (\<lambda>c. c \<noteq> CHR 0x0A \<and> c \<noteq> CHR 0x0D) (drop 19 rest) in
        list_ex (\<lambda>w. contains_text w line) [''busy'', ''active'', ''in progress''])) (suffixes (lower_text message))"

definition uncertain_failure :: "string \<Rightarrow> bool" where
  "uncertain_failure message \<longleftrightarrow> list_ex (\<lambda>w. contains_text w (lower_text message)) [''timeout'', ''disconnect'', ''closed'', ''network'', ''aborted'']"

text \<open>\<open>turn/start\<close> and the reading of its answer: the outcome and the memory after it.\<close>

definition start_turn :: "runtime \<Rightarrow> codex_host \<Rightarrow> string \<Rightarrow> (string \<times> string) list \<Rightarrow> ActivationOutcome \<times> (string \<times> string) list" where
  "start_turn E h operation seen =
     (case ch_start h of
        Inr result \<Rightarrow>
          (case text_or_empty E (jget (case jget result ''turn'' of None \<Rightarrow> result | Some JNull \<Rightarrow> result | Some t \<Rightarrow> t) ''id'') of
             Some i \<Rightarrow> if i = [] then (Out_ambiguous, seen) else (Out_started i, AList.update operation i seen)
           | None \<Rightarrow> (Out_ambiguous, seen))
      | Inl message \<Rightarrow>
          if ch_aborted h \<or> uncertain_failure message then (Out_ambiguous, seen)
          else if rejected_busy message then (Out_busy, AList.delete operation seen)
          else (Out_ambiguous, seen))"

definition codex_activate :: "runtime \<Rightarrow> string \<Rightarrow> RuntimeIdentity \<Rightarrow> (string \<times> string) list \<Rightarrow> codex_host \<Rightarrow> string \<Rightarrow> string \<Rightarrow> bool
    \<Rightarrow> (exn + ActivationOutcome) \<times> string list \<times> (string \<times> string) list" where
  "codex_activate E cwd b seen h operation prompt recover_only =
     (case ch_thread h of
        Inl e \<Rightarrow> (Inl e, [], seen)
      | Inr thread \<Rightarrow>
          if threadMatches E cwd b thread \<noteq> Some True then (Inl (JsError ''Codex thread identity does not match binding''), [], seen)
          else (case jget thread ''turns'' of
            Some (JArr turns) \<Rightarrow>
              (case find_turn E operation prompt turns of
                 None \<Rightarrow> (Inl (JsError ''TypeError''), [], seen)
               | Some (Some out) \<Rightarrow> (Inr out, [], seen)
               | Some None \<Rightarrow>
                   (case activeTurn E turns of
                      None \<Rightarrow> (Inl (JsError ''TypeError''), [], seen)
                    | Some True \<Rightarrow> (Inr Out_busy, [], seen)
                    | Some False \<Rightarrow>
                        if list_ex incomplete_turn turns then (Inr Out_ambiguous, [], seen)
                        else if map_of seen operation \<noteq> None \<or> recover_only then (Inr Out_ambiguous, [], seen)
                        else (case start_turn E h operation (remember operation ''pending'' seen) of
                                (out, seen') \<Rightarrow> (Inr out, [operation], seen'))))
          | _ \<Rightarrow> (Inr Out_unavailable, [], seen)))"

section \<open>Pi\<close>

datatype PiSubmission = Sub_queued | Sub_ambiguous

text \<open>The session of the host during one activation. Its entries are objects.\<close>

record PiRuntimeHost =
  ph_sessionId :: string
  ph_cwd :: "string option"
  ph_epoch :: "string option"            \<comment> \<open>\<open>None\<close> for a host without epochs\<close>
  ph_entries :: "json list"
  ph_sendMessage :: bool                 \<comment> \<open>whether the call returns\<close>

definition pi_current :: "string \<Rightarrow> RuntimeIdentity \<Rightarrow> PiRuntimeHost \<Rightarrow> bool" where
  "pi_current cwd b h \<longleftrightarrow> ph_sessionId h = id_runtime_id b
     \<and> (case ph_cwd h of None \<Rightarrow> False
        | Some c \<Rightarrow> is_absolute c \<and> is_absolute (id_working_directory b) \<and> path_resolve cwd c = path_resolve cwd (id_working_directory b))
     \<and> (ph_epoch h = None \<or> ph_epoch h = Some (id_epoch b))"

definition completed_entry :: "RuntimeIdentity \<Rightarrow> string \<Rightarrow> json \<Rightarrow> string option" where
  "completed_entry b operation entry =
     (if jget entry ''type'' \<noteq> Some (JStr ''custom'') \<or> jget entry ''customType'' \<noteq> Some (JStr ''gptqueue-inbox-activation-completed'') then None
      else Option.bind (jget entry ''data'') (\<lambda>d.
           if jget d ''operation_id'' = Some (JStr operation) \<and> jget d ''runtime_id'' = Some (JStr (id_runtime_id b)) then str_field d ''turn_id'' else None))"

text \<open>What an inbox message of the session says: nothing of this operation, or the answer.\<close>

definition message_entry :: "string \<Rightarrow> json \<Rightarrow> ActivationOutcome option" where
  "message_entry operation entry =
     (let message = jget entry ''message'' in
      if jget entry ''type'' \<noteq> Some (JStr ''message'') \<or> Option.bind message (\<lambda>m. jget m ''role'') \<noteq> Some (JStr ''custom'')
         \<or> Option.bind message (\<lambda>m. jget m ''customType'') \<noteq> Some (JStr ''gptqueue-inbox-activation'') then None
      else Option.bind (Option.bind message (\<lambda>m. jget m ''details'')) (\<lambda>d.
        if jget d ''operation_id'' \<noteq> Some (JStr operation) then None
        else Some (case (jget d ''status'', str_field d ''turn_id'') of
                     (Some (JStr st), Some t) \<Rightarrow> if st = ''completed'' then Out_completed t else Out_queued
                   | _ \<Rightarrow> Out_queued)))"

definition recorded :: "RuntimeIdentity \<Rightarrow> string \<Rightarrow> json list \<Rightarrow> ActivationOutcome option" where
  "recorded b operation es =
     (case List.map_filter (completed_entry b operation) es of
        t # _ \<Rightarrow> Some (Out_completed t)
      | [] \<Rightarrow> (case List.map_filter (message_entry operation) es of out # _ \<Rightarrow> Some out | [] \<Rightarrow> None))"

definition pi_activate :: "string \<Rightarrow> RuntimeIdentity \<Rightarrow> bool \<times> (string \<times> PiSubmission) list \<Rightarrow> bool \<times> PiRuntimeHost \<Rightarrow> string \<Rightarrow> string \<Rightarrow> bool
    \<Rightarrow> ActivationOutcome \<times> string list \<times> (bool \<times> (string \<times> PiSubmission) list)" where
  "pi_activate cwd b = (\<lambda>(invalidated, submitted) (aborted, h) operation prompt recover_only.
     if aborted \<or> invalidated \<or> \<not> pi_current cwd b h then (Out_unavailable, [], (invalidated, submitted))
     else case recorded b operation (ph_entries h) of
       Some out \<Rightarrow> (out, [], (invalidated, submitted))
     | None \<Rightarrow>
         (case map_of submitted operation of
            Some known \<Rightarrow> (case known of Sub_queued \<Rightarrow> Out_queued | Sub_ambiguous \<Rightarrow> Out_ambiguous, [], (invalidated, submitted))
          | None \<Rightarrow>
              if recover_only then (Out_ambiguous, [], (invalidated, submitted))
              else let uncertain = remember operation Sub_ambiguous submitted in
                   if ph_sendMessage h then (Out_queued, [operation], (invalidated, remember operation Sub_queued uncertain))
                   else (Out_ambiguous, [operation], (invalidated, uncertain))))"

end
