(* ===== verification/Adapter_Props.thy ===== *)
theory Adapter_Props
  imports Runtime_Adapters
begin

text \<open>
  The contract between the dispatcher and its adapters, and what follows from it: over the life of one adapter
  that remembers its operations, and over the life of one record of the dispatcher, an operation reaches its
  runtime at most once.
\<close>

section \<open>The contract\<close>

text \<open>
  One call of an adapter: its memory, what the host does, the operation and whether it may only be recovered
  give the outcome, the prompts the host has taken and the new memory.
\<close>

type_synonym ('s, 'h) adapter_call = "'s \<Rightarrow> 'h \<Rightarrow> string \<Rightarrow> bool \<Rightarrow> (exn + ActivationOutcome) \<times> string list \<times> 's"

definition opencode_call :: "runtime \<Rightarrow> string \<Rightarrow> RuntimeIdentity \<Rightarrow> string \<Rightarrow> (bool, OpenCodeRuntimePort) adapter_call" where
  "opencode_call E cwd b prompt = (\<lambda>unavailable port operation recover_only.
     case opencode_activate E cwd b unavailable port operation prompt recover_only of (out, prompts) \<Rightarrow> (Inr out, map fst prompts, unavailable))"

text \<open>A prompt to which the daemon answered that it is busy has not been taken.\<close>

definition codex_call :: "runtime \<Rightarrow> string \<Rightarrow> RuntimeIdentity \<Rightarrow> string \<Rightarrow> ((string \<times> string) list, codex_host) adapter_call" where
  "codex_call E cwd b prompt = (\<lambda>seen h operation recover_only.
     case codex_activate E cwd b seen h operation prompt recover_only of (out, starts, seen') \<Rightarrow>
       (out, if out = Inr Out_busy then [] else starts, seen'))"

definition pi_call :: "string \<Rightarrow> RuntimeIdentity \<Rightarrow> string \<Rightarrow> (bool \<times> (string \<times> PiSubmission) list, bool \<times> PiRuntimeHost) adapter_call" where
  "pi_call cwd b prompt = (\<lambda>memory h operation recover_only.
     case pi_activate cwd b memory h operation prompt recover_only of (out, sent, memory') \<Rightarrow> (Inr out, sent, memory'))"

text \<open>
  The calls the dispatcher makes for one record, until the record is replaced or exhausted. Each call meets an
  adapter in some state, as a runtime may restart between calls. \<open>lost\<close> says that the dispatcher dies, or
  loses its binding, before it settles the record: then the record stays as it was stored before the call.
\<close>

fun lifetime :: "('s, 'h) adapter_call \<Rightarrow> (ActivationRecord \<Rightarrow> bool \<Rightarrow> ActivationOutcome \<Rightarrow> ActivationRecord) \<Rightarrow> ActivationRecord \<Rightarrow> ('s \<times> 'h \<times> bool) list \<Rightarrow> string list" where
  "lifetime act settled r [] = []"
| "lifetime act settled r ((s, h, lost) # calls) =
     (if ac_state r = Exhausted then []
      else let recovery = (ac_state r \<noteq> Pending);
               stored = (if recovery then r else r\<lparr>ac_state := Submitting\<rparr>) in
           (case act s h (ac_operation_id r) recovery of (answer, sent, _) \<Rightarrow>
              sent @ (case answer of
                        Inl _ \<Rightarrow> lifetime act settled stored calls
                      | Inr out \<Rightarrow>
                          if lost then lifetime act settled stored calls
                          else (case out of
                                  Out_completed _ \<Rightarrow> []
                                | _ \<Rightarrow> lifetime act settled (settled r recovery out) calls))))"

locale runtime_adapter =
  fixes act :: "('s, 'h) adapter_call"
  assumes recovery_sends_nothing: "act s h operation True = (answer, sent, s') \<Longrightarrow> sent = []"
    and sends_at_most_one: "act s h operation recover_only = (answer, sent, s') \<Longrightarrow> length sent \<le> 1"
    and deferral_sends_nothing: "act s h operation recover_only = (Inr out, sent, s') \<Longrightarrow> deferred out \<Longrightarrow> sent = []"
begin

text \<open>Once the record is past pending, nothing is sent for it any more.\<close>

lemma past_pending: "ac_state r \<noteq> Pending \<Longrightarrow> lifetime act (settled_record E agent b opt now ids) r calls = []"
proof (induction calls arbitrary: r)
  case (Cons call calls)
  obtain s h lost where c: "call = (s, h, lost)" by (cases call)
  obtain answer sent s' where run: "act s h (ac_operation_id r) True = (answer, sent, s')" by (cases "act s h (ac_operation_id r) True") auto
  from recovery_sends_nothing[OF run] Cons.prems Cons.IH[of r] Cons.IH show ?case
    by (auto simp: c run Let_def settled_record_def split: sum.splits ActivationOutcome.splits)
qed simp

lemma lifetime_once: "length (lifetime act (settled_record E agent b opt now ids) r calls) \<le> 1"
proof (induction calls arbitrary: r)
  case (Cons call calls)
  show ?case
  proof (cases "ac_state r = Pending")
    case False
    then show ?thesis by (simp add: past_pending)
  next
    case True
    obtain s h lost where c: "call = (s, h, lost)" by (cases call)
    obtain answer sent s' where run: "act s h (ac_operation_id r) False = (answer, sent, s')" by (cases "act s h (ac_operation_id r) False") auto
    have gone: "lifetime act (settled_record E agent b opt now ids) (r\<lparr>ac_state := st\<rparr>) calls = []" if "st \<noteq> Pending" for st
      using that by (simp add: past_pending)
    show ?thesis
    proof (cases "\<exists>out. answer = Inr out \<and> deferred out")
      case deferral: True
      then have "sent = []" using deferral_sends_nothing run by blast
      with Cons.IH True show ?thesis by (auto simp: c run Let_def gone split: sum.splits ActivationOutcome.splits)
    next
      case False
      then have "lifetime act (settled_record E agent b opt now ids) r (call # calls) = sent"
        using True by (auto simp: c run Let_def settled_record_def gone split: sum.splits ActivationOutcome.splits)
      with sends_at_most_one[OF run] show ?thesis by simp
    qed
  qed
qed simp

end

section \<open>The adapters keep it\<close>

interpretation opencode: runtime_adapter "opencode_call E cwd b prompt" for E cwd b prompt
  by unfold_locales
    (auto simp: opencode_call_def opencode_activate_def observed_turn_def split: if_splits option.splits prod.splits)

lemma codex_cases:
  assumes "codex_activate E cwd b seen h operation prompt recover_only = (answer, starts, seen')"
  shows "starts = [] \<or> \<not> recover_only \<and> map_of seen operation = None \<and> starts = [operation]
    \<and> (\<exists>out. answer = Inr out \<and> (out, seen') = start_turn E h operation (remember operation ''pending'' seen))"
  using assms by (auto simp: codex_activate_def split: sum.splits if_splits option.splits json.splits bool.splits prod.splits)

lemma start_turn_deferred:
  assumes "start_turn E h operation seen = (out, seen')" and "deferred out"
  shows "\<exists>message. ch_start h = Inl message \<and> rejected_busy message \<and> out = Out_busy"
  using assms by (auto simp: start_turn_def split: sum.splits if_splits option.splits)

interpretation codex: runtime_adapter "codex_call E cwd b prompt" for E cwd b prompt
proof unfold_locales
  fix seen h operation recover_only answer sent seen'
  { assume "codex_call E cwd b prompt seen h operation True = (answer, sent, seen')"
    then show "sent = []" by (auto simp: codex_call_def split: prod.splits dest!: codex_cases) }
  { assume "codex_call E cwd b prompt seen h operation recover_only = (answer, sent, seen')"
    then show "length sent \<le> 1" by (auto simp: codex_call_def split: prod.splits dest!: codex_cases) }
  fix out
  assume "codex_call E cwd b prompt seen h operation recover_only = (Inr out, sent, seen')" and "deferred out"
  then show "sent = []" by (auto simp: codex_call_def split: prod.splits if_splits dest!: codex_cases start_turn_deferred[OF sym])
qed

lemma recorded_not_deferred: "recorded b operation es = Some out \<Longrightarrow> \<not> deferred out"
proof -
  have "\<not> deferred out" if "message_entry operation e = Some out" for e out
    using that by (auto simp: message_entry_def Let_def split: if_splits option.splits json.splits bind_splits)
  then have "\<forall>out \<in> set (List.map_filter (message_entry operation) es). \<not> deferred out"
    by (force simp: List.map_filter_def)
  then show "recorded b operation es = Some out \<Longrightarrow> \<not> deferred out"
    by (auto simp: recorded_def split: list.splits)
qed

interpretation pi: runtime_adapter "pi_call cwd b prompt" for cwd b prompt
  by unfold_locales
    (auto simp: pi_call_def pi_activate_def Let_def dest: recorded_not_deferred split: if_splits option.splits prod.splits PiSubmission.splits)

section \<open>The adapters that remember\<close>

text \<open>
  Any sequence of calls of one adapter, each with what its host does, the operation, the prompt and whether it
  may only be recovered, and with the memory that the call before left: the operations whose prompts were taken.
\<close>

fun taken :: "(string \<Rightarrow> ('s, 'h) adapter_call) \<Rightarrow> 's \<Rightarrow> ('h \<times> string \<times> string \<times> bool) list \<Rightarrow> string list" where
  "taken act s [] = []"
| "taken act s ((h, operation, prompt, recover_only) # calls) =
     (case act prompt s h operation recover_only of (_, sent, s') \<Rightarrow> sent @ taken act s' calls)"

definition operations_of :: "('h \<times> string \<times> string \<times> bool) list \<Rightarrow> string set" where
  "operations_of calls = (\<lambda>(h, operation, prompt, recover_only). operation) ` set calls"

lemma operations_of_simps [simp]: "operations_of [] = {}" "operations_of ((h, operation, prompt, recover_only) # calls) = insert operation (operations_of calls)"
  "finite (operations_of calls)"
  by (simp_all add: operations_of_def)

text \<open>
  What such an adapter promises: it sends the prompt of an operation it does not know, which it knows from then
  on, and while it has room it forgets nothing.
\<close>

locale remembering_adapter =
  fixes act :: "string \<Rightarrow> ('s, 'h) adapter_call" and keys :: "'s \<Rightarrow> string list"
  assumes sends_unknown: "act prompt s h operation recover_only = (answer, sent, s') \<Longrightarrow>
      sent = [] \<or> sent = [operation] \<and> operation \<notin> set (keys s) \<and> operation \<in> set (keys s')"
    and learns_one: "act prompt s h operation recover_only = (answer, sent, s') \<Longrightarrow> set (keys s') \<subseteq> insert operation (set (keys s))"
    and stays_distinct: "act prompt s h operation recover_only = (answer, sent, s') \<Longrightarrow> distinct (keys s) \<Longrightarrow> distinct (keys s')"
    and forgets_nothing: "act prompt s h operation recover_only = (answer, sent, s') \<Longrightarrow> distinct (keys s) \<Longrightarrow>
      card (insert operation (set (keys s))) \<le> 1024 \<Longrightarrow> set (keys s) \<subseteq> set (keys s')"
begin

lemma taken_once:
  assumes "distinct (keys s)" and "card (set (keys s) \<union> operations_of calls) \<le> 1024"
  shows "distinct (taken act s calls) \<and> set (taken act s calls) \<inter> set (keys s) = {}"
  using assms
proof (induction calls arbitrary: s)
  case (Cons call calls)
  obtain h operation prompt recover_only where c: "call = (h, operation, prompt, recover_only)" by (cases call)
  obtain answer sent s' where run: "act prompt s h operation recover_only = (answer, sent, s')"
    by (cases "act prompt s h operation recover_only") auto
  have "card (insert operation (set (keys s))) \<le> 1024"
    by (rule order.trans[OF card_mono Cons.prems(2)]) (auto simp: c)
  note kept = forgets_nothing[OF run Cons.prems(1) this]
  have "card (set (keys s') \<union> operations_of calls) \<le> 1024"
    by (rule order.trans[OF card_mono Cons.prems(2)]) (use learns_one[OF run] in \<open>auto simp: c\<close>)
  note rest = Cons.IH[OF stays_distinct[OF run Cons.prems(1)] this]
  from sends_unknown[OF run] rest kept show ?case by (auto simp: c run)
qed simp

end

lemma update_keys: "map fst (AList.update k v m) = (if k \<in> fst ` set m then map fst m else map fst m @ [k])"
  by (induction m) auto

lemma remember_keys:
  "map fst (remember k v m) = (let ks = if k \<in> fst ` set m then map fst m else map fst m @ [k] in if 1024 < length ks then tl ks else ks)"
proof -
  have "map fst (remember k v m) = (let ks = map fst (AList.update k v m) in if 1024 < length ks then tl ks else ks)"
    by (simp add: remember_def Let_def map_tl)
  then show ?thesis by (simp only: update_keys)
qed

lemma remember_new:
  assumes "k \<notin> fst ` set m"
  shows "map fst (remember k v m) = (if length m < 1024 then map fst m else tl (map fst m)) @ [k]"
  using assms by (cases m) (auto simp: remember_keys Let_def)

lemma last_is_key:
  assumes "map fst m = ks @ [k]"
  shows "k \<in> fst ` set m"
  using arg_cong[OF assms, of set] by auto

lemma remember_last:
  assumes "map fst m = ks @ [k]"
  shows "map fst (remember k v m) = (if length ks < 1024 then ks else tl ks) @ [k]"
  using last_is_key[OF assms] by (cases ks) (auto simp: remember_keys assms Let_def)

lemma tl_keys: "set (tl ks) \<subseteq> set ks" "distinct ks \<Longrightarrow> distinct (tl ks)"
  by (cases ks; auto)+

text \<open>The keys of a memory to which an operation was added, once or twice, and from which it may have been deleted again.\<close>

definition added_key :: "string \<Rightarrow> string list \<Rightarrow> string list \<Rightarrow> bool" where
  "added_key k ks ks' \<longleftrightarrow> (\<exists>older. set older \<subseteq> set ks \<and> (distinct ks \<longrightarrow> distinct older) \<and> (length ks < 1024 \<longrightarrow> older = ks) \<and> ks' = older @ [k])"

lemma added_once: "k \<notin> fst ` set m \<Longrightarrow> added_key k (map fst m) (map fst (remember k v m))"
  using tl_keys[of "map fst m"] by (auto simp: added_key_def remember_new simp del: map_tl)

lemma added_twice: "added_key k ks (map fst m) \<Longrightarrow> added_key k ks (map fst (remember k v m))"
proof -
  assume "added_key k ks (map fst m)"
  then obtain older where o1: "set older \<subseteq> set ks" "distinct ks \<longrightarrow> distinct older" "length ks < 1024 \<longrightarrow> older = ks" "map fst m = older @ [k]"
    by (auto simp: added_key_def)
  from remember_last[OF o1(4), of v] o1(1-3) tl_keys[of older] show ?thesis
    unfolding added_key_def by (intro exI[of _ "if length older < 1024 then older else tl older"]) auto
qed

lemma added_update: "added_key k ks (map fst m) \<Longrightarrow> added_key k ks (map fst (AList.update k v m))"
  unfolding added_key_def by (auto simp: update_keys last_is_key)

lemma added_laws:
  assumes "added_key k ks ks'" and "k \<notin> set ks"
  shows "k \<in> set ks'" "set ks' \<subseteq> insert k (set ks)" "distinct ks \<Longrightarrow> distinct ks'"
    "distinct ks \<Longrightarrow> card (insert k (set ks)) \<le> 1024 \<Longrightarrow> set ks \<subseteq> set ks'"
  using assms by (auto simp: added_key_def distinct_card)

lemma removed_laws:
  assumes "added_key k ks ks'" and "k \<notin> set ks"
  shows "set (removeAll k ks') \<subseteq> insert k (set ks)" "distinct ks \<Longrightarrow> distinct (removeAll k ks')"
    "distinct ks \<Longrightarrow> card (insert k (set ks)) \<le> 1024 \<Longrightarrow> set ks \<subseteq> set (removeAll k ks')"
  using added_laws(2-4)[OF assms] assms(2) by (auto simp: distinct_removeAll)

text \<open>What a call does to a memory: nothing, or it adds the operation it did not know, or adds and deletes it.\<close>

definition memory_step :: "string \<Rightarrow> string list \<Rightarrow> string list \<Rightarrow> string list \<Rightarrow> bool" where
  "memory_step k ks sent ks' \<longleftrightarrow> ks' = ks \<and> sent = []
     \<or> k \<notin> set ks \<and> (added_key k ks ks' \<and> sent = [k] \<or> (\<exists>m. added_key k ks m \<and> ks' = removeAll k m \<and> sent = []))"

lemma memory_step_laws:
  assumes "\<And>prompt s h operation recover_only answer sent s'. act prompt s h operation recover_only = (answer, sent, s') \<Longrightarrow> memory_step operation (keys s) sent (keys s')"
  shows "remembering_adapter act keys"
proof unfold_locales
  fix prompt s h operation recover_only answer sent s'
  assume "act prompt s h operation recover_only = (answer, sent, s')"
  from assms[OF this] show "sent = [] \<or> sent = [operation] \<and> operation \<notin> set (keys s) \<and> operation \<in> set (keys s')"
    and "set (keys s') \<subseteq> insert operation (set (keys s))"
    and "distinct (keys s) \<Longrightarrow> distinct (keys s')"
    and "distinct (keys s) \<Longrightarrow> card (insert operation (set (keys s))) \<le> 1024 \<Longrightarrow> set (keys s) \<subseteq> set (keys s')"
    unfolding memory_step_def using added_laws[of operation "keys s"] removed_laws[of operation "keys s"] by (metis subset_insertI order_refl)+
qed

lemma start_turn_memory:
  assumes "(out, m') = start_turn E h operation (remember operation ''pending'' m)" and "operation \<notin> fst ` set m"
  shows "if out = Out_busy then map fst m' = removeAll operation (map fst (remember operation ''pending'' m)) else added_key operation (map fst m) (map fst m')"
proof -
  from added_once[OF assms(2), of "''pending''"]
  have "added_key operation (map fst m) (map fst (remember operation ''pending'' m))"
    "added_key operation (map fst m) (map fst (AList.update operation i (remember operation ''pending'' m)))" for i
    by (simp_all only: added_update)
  with assms(1) show ?thesis
    by (auto simp: start_turn_def delete_keys split: sum.splits option.splits if_splits)
qed

interpretation codex_memory: remembering_adapter "codex_call E cwd b" "map fst" for E cwd b
proof (rule memory_step_laws)
  fix prompt m h operation recover_only answer sent m'
  assume "codex_call E cwd b prompt m h operation recover_only = (answer, sent, m')"
  then obtain starts where run: "codex_activate E cwd b m h operation prompt recover_only = (answer, starts, m')"
    and sent: "sent = (if answer = Inr Out_busy then [] else starts)" by (auto simp: codex_call_def split: prod.splits)
  show "memory_step operation (map fst m) sent (map fst m')"
  proof (cases "starts = []")
    case True
    then have "m' = m" using run by (auto simp: codex_activate_def split: sum.splits if_splits option.splits json.splits bool.splits prod.splits)
    with True sent show ?thesis by (simp add: memory_step_def)
  next
    case False
    with codex_cases[OF run] obtain out where st: "map_of m operation = None" "starts = [operation]" "answer = Inr out"
      "(out, m') = start_turn E h operation (remember operation ''pending'' m)" by blast
    then have new: "operation \<notin> fst ` set m" by (simp add: map_of_eq_None_iff)
    from start_turn_memory[OF st(4) new] added_once[OF new, of "''pending''"] new sent st(2,3) show ?thesis
      by (auto simp: memory_step_def split: if_splits)
  qed
qed

interpretation pi_memory: remembering_adapter "pi_call cwd b" "\<lambda>(invalidated, submitted). map fst submitted" for cwd b
proof (rule memory_step_laws)
  fix prompt s h operation recover_only answer sent s'
  assume run: "pi_call cwd b prompt s h operation recover_only = (answer, sent, s')"
  obtain invalidated m aborted ph where s: "s = (invalidated, m)" "h = (aborted, ph)" by (cases s; cases h)
  note added = added_once[of operation m Sub_ambiguous] added_twice[OF added_once[of operation m Sub_ambiguous], of Sub_queued]
  show "memory_step operation (case s of (invalidated, submitted) \<Rightarrow> map fst submitted) sent (case s' of (invalidated, submitted) \<Rightarrow> map fst submitted)"
    using run s added by (auto simp: pi_call_def pi_activate_def memory_step_def Let_def map_of_eq_None_iff split: if_splits option.splits PiSubmission.splits)
qed

section \<open>At most one prompt per operation\<close>

text \<open>
  When OpenCode is sent a prompt: its runtime is there and is the bound one, its history could be read and does
  not show the operation, the session is idle, and the call may do more than recover.
\<close>

definition opencode_due :: "runtime \<Rightarrow> string \<Rightarrow> RuntimeIdentity \<Rightarrow> bool \<Rightarrow> OpenCodeRuntimePort \<Rightarrow> string \<Rightarrow> bool \<Rightarrow> bool" where
  "opencode_due E cwd b unavailable port operation recover_only \<longleftrightarrow> \<not> recover_only \<and> \<not> unavailable
     \<and> (\<exists>identity. po_readIdentity port = Some identity \<and> identityMatches cwd b identity)
     \<and> (\<exists>hist. po_history port = Some hist \<and> (\<forall>entry \<in> set hist. \<not> entryContains E entry operation (id_runtime_id b)))
     \<and> po_status port = Some Idle_session"

lemma opencode_sends: "snd (opencode_activate E cwd b unavailable port operation prompt recover_only)
    = (if opencode_due E cwd b unavailable port operation recover_only then [(nativeMessageId E operation, marker operation @ CHR 0x0A # prompt)] else [])"
  by (auto simp: opencode_activate_def opencode_due_def find_None_iff find_Some_iff split: option.splits)

text \<open>
  (C22) An operation is submitted at most once. Codex and Pi remember the operations they submitted: over any
  sequence of calls of one such adapter, from its creation on, with whatever its host shows and however the calls
  fail, as long as the calls concern at most 1024 operations (the size of its memory), no operation's prompt is
  taken twice; a prompt to which the Codex daemon answered that it is busy was not taken. OpenCode remembers
  nothing: it is sent the prompt, under an identifier that depends on the operation only, exactly when its
  history was read and does not show the operation, the bound session is idle and the call is no recovery. None
  of the three sends anything in a call that may only recover.
\<close>

theorem submitted_at_most_once:
  assumes "card (operations_of ccalls) \<le> 1024" and "card (operations_of pcalls) \<le> 1024"
  shows "distinct (taken (codex_call E cwd b) [] ccalls)
    \<and> distinct (taken (pi_call cwd b) (False, []) pcalls)
    \<and> snd (opencode_activate E cwd b unavailable port operation prompt recover_only)
        = (if opencode_due E cwd b unavailable port operation recover_only then [(nativeMessageId E operation, marker operation @ CHR 0x0A # prompt)] else [])
    \<and> fst (snd (codex_activate E cwd b seen h operation prompt True)) = []
    \<and> fst (snd (pi_activate cwd b memory ph operation prompt True)) = []
    \<and> snd (opencode_activate E cwd b unavailable port operation prompt True) = []"
proof -
  have "fst (snd (codex_activate E cwd b seen h operation prompt True)) = []"
    using codex_cases[of E cwd b seen h operation prompt True] by (metis prod.collapse)
  moreover have "fst (snd (pi_activate cwd b memory ph operation prompt True)) = []"
    using pi.recovery_sends_nothing[of cwd b prompt memory ph operation]
    by (cases "pi_activate cwd b memory ph operation prompt True") (fastforce simp: pi_call_def)
  moreover have "distinct (taken (codex_call E cwd b) [] ccalls)" "distinct (taken (pi_call cwd b) (False, []) pcalls)"
    using codex_memory.taken_once[of "[]" ccalls E cwd b] pi_memory.taken_once[of "(False, [])" pcalls cwd b] assms by simp_all
  ultimately show ?thesis by (simp add: opencode_sends opencode_due_def)
qed

text \<open>
  The same from the side of the dispatcher: while the record of an operation lives, through deferrals, failures,
  restarts of the runtime with an empty memory, deaths of the dispatcher and losses of its binding, the calls the
  dispatcher makes for it hand the host of each adapter at most one prompt.
\<close>

lemma record_submitted_once:
  "length (lifetime (opencode_call E cwd b prompt) (settled_record E agent b opt now ids) r ocalls) \<le> 1"
  "length (lifetime (codex_call E cwd b prompt) (settled_record E agent b opt now ids) r ccalls) \<le> 1"
  "length (lifetime (pi_call cwd b prompt) (settled_record E agent b opt now ids) r pcalls) \<le> 1"
  by (intro opencode.lifetime_once codex.lifetime_once pi.lifetime_once)+

text \<open>
  Native evidence is used instead of a second prompt: when the history of the host shows the operation, no
  adapter sends anything, whether it was asked to recover or not.
\<close>

lemma evidence_sends_nothing:
  "entryContains E entry operation (id_runtime_id b) \<Longrightarrow> po_history port = Some hist \<Longrightarrow> entry \<in> set hist \<Longrightarrow>
     snd (opencode_activate E cwd b unavailable port operation prompt recover_only) = []"
  "ch_thread h = Inr thread \<Longrightarrow> jget thread ''turns'' = Some (JArr turns) \<Longrightarrow> find_turn E operation prompt turns = Some (Some out) \<Longrightarrow>
     fst (snd (codex_activate E cwd b seen h operation prompt recover_only)) = []"
  "recorded b operation (ph_entries ph) = Some out \<Longrightarrow>
     fst (snd (pi_activate cwd b (invalidated, submitted) (aborted, ph) operation prompt recover_only)) = []"
proof -
  assume "entryContains E entry operation (id_runtime_id b)" "po_history port = Some hist" "entry \<in> set hist"
  then show "snd (opencode_activate E cwd b unavailable port operation prompt recover_only) = []"
    by (auto simp: opencode_activate_def find_None_iff split: option.splits)
qed (auto simp: codex_activate_def pi_activate_def split: option.splits)

text \<open>The memory of an adapter stays bounded, and what was just remembered is in it.\<close>

lemma update_cases: "length (AList.update k v m) = length m \<or> AList.update k v m = m @ [(k, v)] \<and> map_of m k = None"
  by (induction m) auto

lemma remember_bounded:
  assumes "length m \<le> 1024"
  shows "length (remember k v m) \<le> 1024 \<and> map_of (remember k v m) k = Some v"
  using assms update_cases[of k v m] by (cases m) (auto simp: remember_def Let_def update_conv)

text \<open>
  The price of it: a Codex thread that cannot be read makes the activation throw after the operation has been
  stored as submitting. Nothing has been sent, yet every later call only recovers, so nothing is ever sent for
  this record, whatever the host does from then on.
\<close>

lemma read_failure_silences:
  assumes "ch_thread h = Inl e"
  shows "lifetime (codex_call E cwd b prompt) (settled_record E agent b opt now ids) r ((seen, h, lost) # calls) = []"
proof -
  have "codex_call E cwd b prompt seen h (ac_operation_id r) recovery = (Inl e, [], seen)" for recovery
    using assms by (simp add: codex_call_def codex_activate_def split: sum.splits)
  then show ?thesis by (simp add: Let_def codex.past_pending)
qed

section \<open>Witnesses\<close>

definition demo_pi :: RuntimeIdentity where
  "demo_pi = \<lparr>id_client = ''pi'', id_runtime_id = ''s1'', id_epoch = ''e1'', id_working_directory = ''/work''\<rparr>"

definition demo_pi_host :: PiRuntimeHost where
  "demo_pi_host = \<lparr>ph_sessionId = ''s1'', ph_cwd = Some ''/work'', ph_epoch = Some ''e1'', ph_entries = [], ph_sendMessage = False\<rparr>"

text \<open>Twice the same operation, whose first prompt may or may not have arrived, and then another.\<close>

definition demo_pi_calls :: "((bool \<times> PiRuntimeHost) \<times> string \<times> string \<times> bool) list" where
  "demo_pi_calls = [((False, demo_pi_host), ''a'', ''p'', False), ((False, demo_pi_host), ''a'', ''p'', False), ((False, demo_pi_host), ''b'', ''p'', False)]"

lemma demo_pi_taken: "taken (pi_call ''/'' demo_pi) (False, []) demo_pi_calls = [''a'', ''b'']"
proof -
  have "pi_current ''/'' demo_pi demo_pi_host" by (simp add: pi_current_def demo_pi_def demo_pi_host_def is_absolute_def starts_with_def)
  moreover have "recorded demo_pi op (ph_entries demo_pi_host) = None" for op by (simp add: recorded_def demo_pi_host_def)
  ultimately show ?thesis by (simp add: demo_pi_calls_def pi_call_def pi_activate_def remember_def) (simp add: demo_pi_host_def)
qed

theorem submitted_at_most_once_witness:
  "card (operations_of demo_pi_calls) \<le> 1024 \<and> taken (pi_call ''/'' demo_pi) (False, []) demo_pi_calls = [''a'', ''b''] \<and> distinct (taken (pi_call ''/'' demo_pi) (False, []) demo_pi_calls)"
proof -
  have ops: "card (operations_of demo_pi_calls) \<le> 1024" by (simp add: demo_pi_calls_def)
  have "card (operations_of ([] :: (codex_host \<times> string \<times> string \<times> bool) list)) \<le> 1024" by simp
  from submitted_at_most_once[OF this ops, where cwd = "''/''" and b = demo_pi] ops demo_pi_taken show ?thesis by blast
qed

end
