(* ===== verification/Codex_Socket.thy ===== *)
theory Codex_Socket
  imports Activation Launch_Policy "HOL-Library.Word"
begin

unbundle bit_operations_syntax

text \<open>
  The connection to the local Codex daemon, \<open>src/src/registered-shell/codex-socket.ts\<close>: WebSocket frames over a
  byte stream, and requests matched with their answers. Bytes are 8-bit words; a text is its UTF-8 bytes.
  The mask of a frame is a parameter, drawn at random in the code. The state keeps the requests that wait and,
  as a log, every answer or error a request was settled with and every frame written. Timers and the abortion
  of a request are events of the connection.
\<close>

section \<open>Frames\<close>

type_synonym byte = "8 word"

definition MAX_MESSAGE :: nat where
  "MAX_MESSAGE = 16 * 1024 * 1024"

text \<open>Big-endian numbers.\<close>

primrec be_bytes :: "nat \<Rightarrow> nat \<Rightarrow> byte list" where
  "be_bytes 0 n = []"
| "be_bytes (Suc k) n = be_bytes k (n div 256) @ [of_nat (n mod 256)]"

definition be_value :: "byte list \<Rightarrow> nat" where
  "be_value bs = foldl (\<lambda>acc b. acc * 256 + unat b) 0 bs"

definition mask_bytes :: "byte list \<Rightarrow> byte list \<Rightarrow> byte list" where
  "mask_bytes key payload = map2 (\<lambda>i b. b XOR key ! (i mod 4)) [0..<length payload] payload"

definition frame_header :: "byte \<Rightarrow> byte \<Rightarrow> nat \<Rightarrow> byte list" where
  "frame_header first flag n =
     (if n < 126 then [first, flag OR of_nat n]
      else if n \<le> 65535 then [first, flag OR 126] @ be_bytes 2 n
      else [first, flag OR 127] @ be_bytes 8 n)"

text \<open>\<open>None\<close> where the code throws.\<close>

definition frame :: "byte list \<Rightarrow> byte list \<Rightarrow> byte \<Rightarrow> byte list option" where
  "frame key payload opcode =
     (if MAX_MESSAGE < length payload then None
      else Some (frame_header (0x80 OR opcode) 0x80 (length payload) @ key @ mask_bytes key payload))"

text \<open>
  The frame at the head of the buffer. The length is read in two steps that follow each other, as in the code:
  the second one also applies to a length the first one has read.
\<close>

datatype frame_result = Incomplete | Bad | Frame bool byte "byte list" nat

definition wide_length :: "byte list \<Rightarrow> nat \<times> nat \<Rightarrow> (nat \<times> nat) option option" where
  "wide_length buf = (\<lambda>(len, header).
     if len = 127
     then if length buf < 10 then Some None
          else let wide = be_value (take 8 (drop 2 buf)) in if MAX_MESSAGE < wide then None else Some (Some (wide, 10))
     else Some (Some (len, header)))"

definition frame_length :: "byte list \<Rightarrow> (nat \<times> nat) option option" where
  "frame_length buf =
     (let len = unat (buf ! 1 AND 127) in
      if len = 126 then if length buf < 4 then Some None else wide_length buf (be_value (take 2 (drop 2 buf)), 4)
      else wide_length buf (len, 2))"

definition frame_at :: "byte list \<Rightarrow> nat \<Rightarrow> frame_result" where
  "frame_at buf fragmentBytes =
     (if length buf < 2 then Incomplete
      else if buf ! 0 AND 0x70 \<noteq> 0 \<or> buf ! 1 AND 0x80 \<noteq> 0 then Bad
      else let opcode = buf ! 0 AND 15; final = (buf ! 0 AND 0x80 \<noteq> 0) in
      (case frame_length buf of
         None \<Rightarrow> Bad
       | Some None \<Rightarrow> Incomplete
       | Some (Some (len, header)) \<Rightarrow>
           if MAX_MESSAGE < len \<or> MAX_MESSAGE < fragmentBytes + len then Bad
           else if 8 \<le> opcode \<and> (\<not> final \<or> 125 < len) then Bad
           else if length buf < header + len then Incomplete
           else Frame final opcode (take len (drop header buf)) (header + len)))"

section \<open>The connection\<close>

record codex_socket =
  sk_open :: bool
  sk_closed :: bool
  sk_buffer :: "byte list"
  sk_fragments :: "byte list list"
  sk_fragmentBytes :: nat
  sk_next :: int
  sk_pending :: "int list"
  sk_settled :: "(int \<times> (string + json)) list"
  sk_written :: "(byte \<times> byte list) list"

definition settle_request :: "int \<Rightarrow> string + json \<Rightarrow> codex_socket \<Rightarrow> codex_socket" where
  "settle_request i answer st = st\<lparr>sk_pending := remove1 i (sk_pending st), sk_settled := (i, answer) # sk_settled st\<rparr>"

definition fail_socket :: "string \<Rightarrow> codex_socket \<Rightarrow> codex_socket" where
  "fail_socket e st = st\<lparr>sk_open := False, sk_buffer := [], sk_fragments := [], sk_fragmentBytes := 0, sk_pending := [],
     sk_settled := map (\<lambda>i. (i, Inl e)) (rev (sk_pending st)) @ sk_settled st\<rparr>"

text \<open>A message of the daemon: only an answer to a request that waits has an effect.\<close>

definition deliver :: "runtime \<Rightarrow> json \<Rightarrow> codex_socket \<Rightarrow> codex_socket" where
  "deliver E message st =
     (case jget message ''id'' of
        Some (JNum (JInt i)) \<Rightarrow>
          if str_field message ''method'' \<noteq> None \<or> jget message ''result'' = None \<and> jget message ''error'' = None \<or> i \<notin> set (sk_pending st) then st
          else if js_truthy (jget message ''error'')
          then settle_request i (Inl (''Codex RPC rejected: '' @ JSON_stringify E (the (jget message ''error'')))) st
          else settle_request i (Inr (case jget message ''result'' of None \<Rightarrow> obj [] | Some JNull \<Rightarrow> obj [] | Some v \<Rightarrow> v)) st
      | _ \<Rightarrow> st)"

definition byte_text :: "byte list \<Rightarrow> string" where
  "byte_text bs = map (\<lambda>b. char_of (unat b)) bs"

text \<open>One frame; the second component says whether the loop goes on.\<close>

definition handle_frame :: "runtime \<Rightarrow> bool \<Rightarrow> byte \<Rightarrow> byte list \<Rightarrow> codex_socket \<Rightarrow> codex_socket \<times> bool" where
  "handle_frame E final opcode payload st =
     (let invalid = (fail_socket ''Invalid Codex WebSocket message'' st, False) in
      if opcode = 8 then (fail_socket ''Codex app-server closed'' st, False)
      else if opcode = 9 then (st\<lparr>sk_written := (10, payload) # sk_written st\<rparr>, True)
      else if opcode = 10 then (st, True)
      else if opcode \<noteq> 0 \<and> opcode \<noteq> 1 then invalid
      else if opcode = 0 \<and> sk_fragments st = [] \<or> opcode = 1 \<and> sk_fragments st \<noteq> [] then invalid
      else let fragments = sk_fragments st @ [payload] in
      if \<not> final then (st\<lparr>sk_fragments := fragments, sk_fragmentBytes := sk_fragmentBytes st + length payload\<rparr>, True)
      else (case JSON_parse E (byte_text (concat fragments)) of
              None \<Rightarrow> invalid
            | Some JNull \<Rightarrow> invalid
            | Some message \<Rightarrow> (deliver E message (st\<lparr>sk_fragments := [], sk_fragmentBytes := 0\<rparr>), True)))"

lemma deliver_buffer [simp]: "sk_buffer (deliver E m st) = sk_buffer st" "sk_open (deliver E m st) = sk_open st"
  by (auto simp: deliver_def settle_request_def split: option.splits json.splits js_number.splits)

lemma handle_frame_buffer: "handle_frame E final opcode payload st = (st', True) \<Longrightarrow> sk_buffer st' = sk_buffer st \<and> sk_open st' = sk_open st"
  by (auto simp: handle_frame_def Let_def split: if_splits option.splits json.splits)

lemma frame_length_header: "frame_length buf = Some (Some (len, header)) \<Longrightarrow> 2 \<le> header"
  by (auto simp: frame_length_def wide_length_def Let_def split: if_splits)

lemma frame_at_consumes: "frame_at buf fb = Frame final opcode payload n \<Longrightarrow> 2 \<le> n \<and> n \<le> length buf"
  by (auto simp: frame_at_def Let_def dest: frame_length_header split: if_splits option.splits)

lemma handled_shrinks:
  assumes "frame_at (sk_buffer st) fb = Frame final opcode payload n"
    and "handle_frame E final opcode payload (st\<lparr>sk_buffer := drop n (sk_buffer st)\<rparr>) = (st', True)"
  shows "length (sk_buffer st') < length (sk_buffer st)"
  using frame_at_consumes[OF assms(1)] handle_frame_buffer[OF assms(2)] by auto

function pump :: "runtime \<Rightarrow> codex_socket \<Rightarrow> codex_socket" where
  "pump E st =
     (case frame_at (sk_buffer st) (sk_fragmentBytes st) of
        Incomplete \<Rightarrow> st
      | Bad \<Rightarrow> fail_socket ''Invalid Codex WebSocket message'' st
      | Frame final opcode payload n \<Rightarrow>
          (case handle_frame E final opcode payload (st\<lparr>sk_buffer := drop n (sk_buffer st)\<rparr>) of
             (st', continue) \<Rightarrow> if continue then pump E st' else st'))"
  by auto

termination
  by (relation "measure (\<lambda>(E, st). length (sk_buffer st))") (auto dest: handled_shrinks[OF _ sym])

declare pump.simps [simp del]

text \<open>Bytes arrive; a socket that has failed is destroyed and delivers no more.\<close>

definition read_chunk :: "runtime \<Rightarrow> byte list \<Rightarrow> codex_socket \<Rightarrow> codex_socket" where
  "read_chunk E chunk st = (if sk_open st then pump E (st\<lparr>sk_buffer := sk_buffer st @ chunk\<rparr>) else st)"

section \<open>Requests\<close>

definition request_text :: "runtime \<Rightarrow> int \<Rightarrow> string \<Rightarrow> json \<Rightarrow> string" where
  "request_text E i method params = JSON_stringify E (obj [(''id'', JNum (JInt i)), (''method'', JStr method), (''params'', params)])"

definition text_bytes :: "string \<Rightarrow> byte list" where
  "text_bytes s = map (\<lambda>c. of_nat (of_char c)) s"

text \<open>A request whose frame cannot be written is rejected at once.\<close>

definition sendRequest :: "runtime \<Rightarrow> string \<Rightarrow> json \<Rightarrow> codex_socket \<Rightarrow> codex_socket" where
  "sendRequest E method params st =
     (let i = sk_next st; payload = text_bytes (request_text E i method params);
          st1 = st\<lparr>sk_next := i + 1, sk_pending := sk_pending st @ [i]\<rparr> in
      if \<not> sk_open st \<or> sk_closed st then settle_request i (Inl ''Codex socket unavailable'') st1
      else if MAX_MESSAGE < length payload then settle_request i (Inl ''Codex message exceeds size limit'') st1
      else st1\<lparr>sk_written := (1, payload) # sk_written st1\<rparr>)"

text \<open>A timer or an abortion rejects a request that still waits.\<close>

definition expire_request :: "int \<Rightarrow> string \<Rightarrow> codex_socket \<Rightarrow> codex_socket" where
  "expire_request i e st = (if i \<in> set (sk_pending st) then settle_request i (Inl e) st else st)"

definition close_socket :: "codex_socket \<Rightarrow> codex_socket" where
  "close_socket st = fail_socket ''Codex client closed'' (st\<lparr>sk_closed := True\<rparr>)"

section \<open>The handshake\<close>

datatype handshake = Hs_wait | Hs_too_long | Hs_invalid | Hs_open string

fun split_on :: "string \<Rightarrow> nat \<Rightarrow> string \<Rightarrow> string list" where
  "split_on sep 0 s = [s]"
| "split_on sep (Suc n) s =
     (case find (\<lambda>i. starts_with sep (drop i s)) [0..<Suc (length s)] of
        None \<Rightarrow> [s]
      | Some i \<Rightarrow> take i s # split_on sep n (drop (i + length sep) s))"

definition split_all :: "string \<Rightarrow> string \<Rightarrow> string list" where
  "split_all sep s = split_on sep (length s) s"

definition index_of :: "string \<Rightarrow> string \<Rightarrow> nat option" where
  "index_of sub s = find (\<lambda>i. starts_with sub (drop i s)) [0..<Suc (length s)]"

text \<open>A line without a colon names the header by all but its last character and is its value as a whole.\<close>

definition header_line :: "string \<Rightarrow> string \<times> string" where
  "header_line line =
     (case index_of '':'' line of
        Some i \<Rightarrow> (map to_lower_char (trim (take i line)), trim (drop (i + 1) line))
      | None \<Rightarrow> (map to_lower_char (trim (butlast line)), trim line))"

definition header_of :: "(string \<times> string) list \<Rightarrow> string \<Rightarrow> string option" where
  "header_of hs k = map_of (rev hs) k"

definition CRLF :: string where
  "CRLF = [CHR 0x0D, CHR 0x0A]"

definition handshake_reply :: "string \<Rightarrow> string \<Rightarrow> handshake" where
  "handshake_reply expected received =
     (case index_of (CRLF @ CRLF) received of
        None \<Rightarrow> if 16384 < length received then Hs_too_long else Hs_wait
      | Some end' \<Rightarrow>
          (let ls = split_all CRLF (take end' received); status = hd ls; hs = map header_line (tl ls) in
           if (status = ''HTTP/1.1 101'' \<or> starts_with ''HTTP/1.1 101 '' status)
              \<and> header_of hs ''sec-websocket-accept'' = Some expected
              \<and> map_option (map to_lower_char) (header_of hs ''upgrade'') = Some ''websocket''
              \<and> (case header_of hs ''connection'' of None \<Rightarrow> False
                 | Some v \<Rightarrow> ''upgrade'' \<in> set (map trim (split_all '','' (map to_lower_char v))))
           then Hs_open (drop (end' + 4) received) else Hs_invalid))"

text \<open>An accepted handshake opens the socket and reads the bytes that came with it.\<close>

definition open_socket :: "runtime \<Rightarrow> byte list \<Rightarrow> codex_socket \<Rightarrow> codex_socket" where
  "open_socket E remainder st = read_chunk E remainder (st\<lparr>sk_open := True\<rparr>)"

end
