(* ===== verification/Chunked.thy ===== *)
theory Chunked
  imports Main
begin

text \<open>
  Readers that are fed a stream piece by piece. A reader that keeps its laws ends in the same state however
  the stream is cut.
\<close>

locale chunked_reader =
  fixes feed :: "'c list \<Rightarrow> 's \<Rightarrow> 's" and drained :: "'s \<Rightarrow> bool"
  assumes feed_Nil: "drained st \<Longrightarrow> feed [] st = st"
    and feed_append: "drained st \<Longrightarrow> feed (xs @ ys) st = feed ys (feed xs st)"
    and feed_drained: "drained st \<Longrightarrow> drained (feed xs st)"
begin

lemma feed_chunks: "drained st \<Longrightarrow> fold feed chunks st = feed (concat chunks) st"
  by (induction chunks arbitrary: st) (simp_all add: feed_Nil feed_append feed_drained)

lemma chunks_irrelevant: "drained st \<Longrightarrow> concat chunks = concat chunks' \<Longrightarrow> fold feed chunks st = fold feed chunks' st"
  by (simp add: feed_chunks)

lemma fold_drained: "drained st \<Longrightarrow> drained (fold feed chunks st)"
  by (simp add: feed_chunks feed_drained)

end

end
