(* ===== verification/Socket_Props.thy ===== *)
theory Socket_Props
  imports Codex_Socket Chunked
begin

text \<open>
  What the connection to the Codex daemon guarantees: it reads the same messages however the bytes arrive, every
  request is settled exactly once, what it buffers is bounded, and the one length of frame it cannot read.
\<close>

unbundle bit_operations_syntax

section \<open>Reading by pieces\<close>

lemma frame_length_append: "2 \<le> length buf \<Longrightarrow> frame_length buf \<noteq> Some None \<Longrightarrow> frame_length (buf @ x) = frame_length buf"
  by (auto simp: frame_length_def wide_length_def Let_def nth_append split: if_splits)

lemma frame_at_append:
  assumes "frame_at buf fb \<noteq> Incomplete"
  shows "frame_at (buf @ x) fb = frame_at buf fb"
proof -
  have long: "2 \<le> length buf" by (rule ccontr) (use assms in \<open>simp add: frame_at_def\<close>)
  then have heads: "(buf @ x) ! 0 = buf ! 0" "(buf @ x) ! 1 = buf ! 1" by (auto simp: nth_append)
  show ?thesis
  proof (cases "buf ! 0 AND 0x70 \<noteq> 0 \<or> buf ! 1 AND 0x80 \<noteq> 0")
    case True
    with long heads show ?thesis by (auto simp: frame_at_def)
  next
    case False
    with assms long have len: "frame_length buf \<noteq> Some None" by (auto simp: frame_at_def Let_def)
    show ?thesis
    proof (cases "frame_length buf")
      case None
      with long heads len frame_length_append[of buf x] show ?thesis by (simp add: frame_at_def)
    next
      case (Some r)
      with len obtain n h where r: "frame_length buf = Some (Some (n, h))" by (cases r) auto
      have "\<not> length buf < h + n \<or> MAX_MESSAGE < n \<or> MAX_MESSAGE < fb + n \<or> 8 \<le> buf ! 0 AND 15 \<and> (buf ! 0 AND 0x80 = 0 \<or> 125 < n)"
        by (rule ccontr) (use assms False r long in \<open>simp add: frame_at_def Let_def split: if_splits\<close>)
      then show ?thesis
        using long heads len frame_length_append[of buf x] r by (auto simp: frame_at_def Let_def)
    qed
  qed
qed

lemma deliver_buffer_upd: "deliver E m (st\<lparr>sk_buffer := b\<rparr>) = (deliver E m st)\<lparr>sk_buffer := b\<rparr>"
  by (simp add: deliver_def settle_request_def split: option.splits json.splits js_number.splits)

lemma handle_frame_upd:
  "handle_frame E final opcode payload (st\<lparr>sk_buffer := b\<rparr>) =
     (case handle_frame E final opcode payload st of (st', continue) \<Rightarrow> (if continue then st'\<lparr>sk_buffer := b\<rparr> else st', continue))"
proof -
  have "deliver E m (st\<lparr>sk_buffer := b, sk_fragments := [], sk_fragmentBytes := 0\<rparr>) = (deliver E m (st\<lparr>sk_fragments := [], sk_fragmentBytes := 0\<rparr>))\<lparr>sk_buffer := b\<rparr>" for m
    using deliver_buffer_upd[where st = "st\<lparr>sk_fragments := [], sk_fragmentBytes := 0\<rparr>" and E = E and m = m and b = b] by (cases st) simp
  then show ?thesis
    by (simp add: handle_frame_def fail_socket_def Let_def split: option.splits json.splits)
qed

lemma handle_frame_stops: "handle_frame E final opcode payload st = (st', False) \<Longrightarrow> \<not> sk_open st'"
  by (auto simp: handle_frame_def fail_socket_def Let_def split: if_splits option.splits json.splits)

lemma read_chunk_closed: "\<not> sk_open st \<Longrightarrow> read_chunk E x st = st"
  by (simp add: read_chunk_def)

lemma pump_append: "sk_open st \<Longrightarrow> pump E (st\<lparr>sk_buffer := sk_buffer st @ x\<rparr>) = read_chunk E x (pump E st)"
proof (induction E st rule: pump.induct)
  case (1 E st)
  show ?case
  proof (cases "frame_at (sk_buffer st) (sk_fragmentBytes st)")
    case Incomplete
    then show ?thesis using 1(2) by (simp add: pump.simps[of E st] read_chunk_def)
  next
    case Bad
    then show ?thesis by (simp add: pump.simps[of E st] pump.simps[of E "st\<lparr>sk_buffer := _\<rparr>"] frame_at_append read_chunk_def fail_socket_def)
  next
    case (Frame final opcode payload n)
    let ?st = "st\<lparr>sk_buffer := drop n (sk_buffer st)\<rparr>"
    obtain st' continue where h: "handle_frame E final opcode payload ?st = (st', continue)" by fastforce
    have n: "n \<le> length (sk_buffer st)" using frame_at_consumes[OF Frame] by simp
    have x: "pump E (st\<lparr>sk_buffer := sk_buffer st @ x\<rparr>) =
      (case handle_frame E final opcode payload (?st\<lparr>sk_buffer := drop n (sk_buffer st) @ x\<rparr>) of (st', continue) \<Rightarrow> if continue then pump E st' else st')"
      using Frame n by (simp add: pump.simps[of E "st\<lparr>sk_buffer := _\<rparr>"] frame_at_append)
    have hx: "handle_frame E final opcode payload (st\<lparr>sk_buffer := drop n (sk_buffer st) @ x\<rparr>) =
      (if continue then st'\<lparr>sk_buffer := drop n (sk_buffer st) @ x\<rparr> else st', continue)"
      using handle_frame_upd[where st = ?st and b = "drop n (sk_buffer st) @ x"] h by simp
    show ?thesis
    proof (cases continue)
      case True
      with handle_frame_buffer[of E final opcode payload ?st st'] h 1(2) have b: "sk_buffer st' = drop n (sk_buffer st)" "sk_open st'" by simp_all
      have "pump E (st'\<lparr>sk_buffer := sk_buffer st' @ x\<rparr>) = read_chunk E x (pump E st')"
        using 1(1)[OF Frame h[symmetric]] True b(2) by simp
      with True h b show ?thesis by (simp add: x hx Frame pump.simps[of E st])
    next
      case False
      with h handle_frame_stops[of E final opcode payload ?st st'] show ?thesis
        by (simp add: x hx Frame pump.simps[of E st] read_chunk_closed)
    qed
  qed
qed

definition drained :: "codex_socket \<Rightarrow> bool" where
  "drained st \<longleftrightarrow> sk_open st \<longrightarrow> frame_at (sk_buffer st) (sk_fragmentBytes st) = Incomplete"

lemma pump_drained: "drained (pump E st)"
proof (induction E st rule: pump.induct)
  case (1 E st)
  show ?case
  proof (cases "frame_at (sk_buffer st) (sk_fragmentBytes st)")
    case (Frame final opcode payload n)
    obtain st' continue where h: "handle_frame E final opcode payload (st\<lparr>sk_buffer := drop n (sk_buffer st)\<rparr>) = (st', continue)" by fastforce
    with 1[OF Frame h[symmetric]] Frame handle_frame_stops[of E final opcode payload _ st'] show ?thesis
      by (cases continue) (auto simp: pump.simps[of E st] drained_def)
  qed (simp_all add: pump.simps[of E st] drained_def fail_socket_def)
qed

interpretation websocket: chunked_reader "read_chunk E" drained for E
proof unfold_locales
  fix st xs ys assume "drained st"
  then show "read_chunk E [] st = st" by (simp add: read_chunk_def drained_def pump.simps[of E st])
  show "read_chunk E (xs @ ys) st = read_chunk E ys (read_chunk E xs st)"
  proof (cases "sk_open st")
    case True
    then show ?thesis using pump_append[of "st\<lparr>sk_buffer := sk_buffer st @ xs\<rparr>" E ys] by (simp add: read_chunk_def[of E "xs @ ys" st] read_chunk_def[of E xs st])
  qed (simp add: read_chunk_def)
  show "drained (read_chunk E xs st)" using \<open>drained st\<close> by (simp add: read_chunk_def pump_drained)
qed

section \<open>Frames of the daemon\<close>

text \<open>A frame as a server sends it, unmasked and with the shortest length.\<close>

definition server_frame :: "bool \<Rightarrow> byte \<Rightarrow> byte list \<Rightarrow> byte list" where
  "server_frame final opcode payload = frame_header ((if final then 0x80 else 0) OR opcode) 0 (length payload) @ payload"

lemma be_bytes_length [simp]: "length (be_bytes k n) = k"
  by (induction k arbitrary: n) simp_all

lemma be_value_snoc [simp]: "be_value (bs @ [b]) = be_value bs * 256 + unat b"
  by (simp add: be_value_def)

lemma unat_byte: "n < 256 \<Longrightarrow> unat (of_nat n :: byte) = n"
  by (simp add: unsigned_of_nat take_bit_nat_eq_self)

lemma be_value_bytes: "n < 256 ^ k \<Longrightarrow> be_value (be_bytes k n) = n"
proof (induction k arbitrary: n)
  case (Suc k)
  then have "n div 256 < 256 ^ k" by (simp add: less_mult_imp_div_less mult.commute)
  with Suc.IH show ?case by (simp add: unat_byte)
qed (simp add: be_value_def)

lemma short_length:
  assumes "n < 128"
  shows "(of_nat n :: byte) AND 0x80 = 0 \<and> unat ((of_nat n :: byte) AND 127) = n"
proof -
  have "list_all (\<lambda>n. (of_nat n :: byte) AND 0x80 = 0 \<and> unat ((of_nat n :: byte) AND 127) = n) [0..<128]"
    by code_simp
  with assms show ?thesis by (simp add: list_all_iff)
qed

definition used_opcodes :: "byte set" where
  "used_opcodes = {0, 1, 8, 9, 10}"

lemma first_byte:
  "opcode \<in> used_opcodes \<Longrightarrow> ((if final then 0x80 else 0) OR opcode) AND 0x70 = 0"
  "opcode \<in> used_opcodes \<Longrightarrow> ((if final then 0x80 else 0) OR opcode) AND 15 = opcode"
  "opcode \<in> used_opcodes \<Longrightarrow> (((if final then 0x80 else 0) OR opcode) AND 0x80 \<noteq> 0) = final"
  by (auto simp: used_opcodes_def)

lemma frame_length_server:
  assumes "length payload \<le> MAX_MESSAGE" and "length payload \<noteq> 127"
  shows "frame_length (server_frame final opcode payload @ rest) = Some (Some (length payload, length (server_frame final opcode payload) - length payload))"
proof -
  let ?n = "length payload"
  consider "?n < 126" | "126 \<le> ?n" "?n \<le> 65535" | "65535 < ?n" by linarith
  then show ?thesis
  proof cases
    case 1
    then show ?thesis using short_length[of ?n] by (simp add: server_frame_def frame_header_def frame_length_def wide_length_def Let_def)
  next
    case 2
    then have "be_value (be_bytes 2 ?n) = ?n" by (intro be_value_bytes) simp
    with 2 assms(2) show ?thesis by (simp add: server_frame_def frame_header_def frame_length_def wide_length_def Let_def del: be_bytes.simps)
  next
    case 3
    have "?n < 256 ^ 8" using assms(1) by (simp add: MAX_MESSAGE_def)
    then have "be_value (be_bytes 8 ?n) = ?n" by (rule be_value_bytes)
    with 3 assms show ?thesis by (simp add: server_frame_def frame_header_def frame_length_def wide_length_def Let_def del: be_bytes.simps)
  qed
qed

lemma server_frame_nth:
  "(server_frame final opcode payload @ rest) ! 0 = ((if final then 0x80 else 0) OR opcode)"
  "(server_frame final opcode payload @ rest) ! Suc 0 AND 0x80 = 0"
  "\<not> length (server_frame final opcode payload) + k < 2"
  "drop (length (server_frame final opcode payload) - length payload) (server_frame final opcode payload) = payload"
  "length payload \<le> length (server_frame final opcode payload)"
  using short_length[of "length payload"] by (simp_all add: server_frame_def frame_header_def)

lemma frame_at_server:
  assumes "opcode \<in> used_opcodes" and "fb + length payload \<le> MAX_MESSAGE" and "length payload \<noteq> 127" and "8 \<le> opcode \<Longrightarrow> final \<and> length payload \<le> 125"
  shows "frame_at (server_frame final opcode payload @ rest) fb = Frame final opcode payload (length (server_frame final opcode payload))"
proof -
  have "length payload \<le> MAX_MESSAGE" using assms(2) by simp
  from frame_length_server[OF this assms(3), of final opcode rest] first_byte[OF assms(1), of final] assms
  show ?thesis by (auto simp: frame_at_def Let_def server_frame_nth)
qed

lemma frame_127:
  assumes "opcode \<in> used_opcodes" and "length payload = 127"
  shows "frame_at (server_frame final opcode payload @ rest) fb = Bad"
proof -
  obtain a b c d e f ps where p: "payload = a # b # c # d # e # f # ps"
    using assms(2) by (auto simp: numeral_eq_Suc length_Suc_conv)
  have two: "be_bytes 2 127 = [0, 127]" by (simp add: numeral_2_eq_2)
  have "be_value [0, 127, a, b, c, d, e, f] \<ge> 127 * 256 ^ 6" by (simp add: be_value_def)
  then have "MAX_MESSAGE < be_value [0, 127, a, b, c, d, e, f]" by (simp add: MAX_MESSAGE_def)
  with assms two have "frame_length (server_frame final opcode payload @ rest) = None"
    by (simp add: server_frame_def frame_header_def frame_length_def wide_length_def Let_def p) (simp add: be_value_def)
  then show ?thesis
    using first_byte[OF assms(1), of final] by (simp add: frame_at_def Let_def server_frame_nth)
qed

section \<open>Messages arrive\<close>

text \<open>A message cut into fragments: the first frame carries the opcode, the last one the final bit.\<close>

fun server_message :: "byte \<Rightarrow> byte list list \<Rightarrow> byte list" where
  "server_message opcode [] = []"
| "server_message opcode [p] = server_frame True opcode p"
| "server_message opcode (p # q # ps) = server_frame False opcode p @ server_message 0 (q # ps)"

definition fragment_bytes :: "codex_socket \<Rightarrow> bool" where
  "fragment_bytes st \<longleftrightarrow> sk_fragmentBytes st = length (concat (sk_fragments st))"

lemma not_control: "\<not> (8 :: byte) \<le> 1"
  by (simp add: word_le_nat_alt)

lemma pump_server_frame:
  assumes "sk_buffer st = server_frame final opcode p @ rest" and "opcode = (if sk_fragments st = [] then 1 else 0)"
    and "sk_fragmentBytes st + length p \<le> MAX_MESSAGE" and "length p \<noteq> 127"
  shows "pump E st = (case handle_frame E final opcode p (st\<lparr>sk_buffer := rest\<rparr>) of (st', continue) \<Rightarrow> if continue then pump E st' else st')"
proof -
  have "frame_at (sk_buffer st) (sk_fragmentBytes st) = Frame final opcode p (length (server_frame final opcode p))"
    unfolding assms(1) by (rule frame_at_server) (use assms in \<open>auto simp: used_opcodes_def not_control split: if_splits\<close>)
  then show ?thesis by (simp add: pump.simps[of E st] assms(1))
qed

lemma pump_message:
  assumes "parts \<noteq> []" and "sk_buffer st = server_message (if sk_fragments st = [] then 1 else 0) parts"
    and "fragment_bytes st" and "length (concat (sk_fragments st @ parts)) \<le> MAX_MESSAGE" and "\<forall>p \<in> set parts. length p \<noteq> 127"
    and "JSON_parse E (byte_text (concat (sk_fragments st @ parts))) = Some m" and "m \<noteq> JNull"
  shows "pump E st = deliver E m (st\<lparr>sk_buffer := [], sk_fragments := [], sk_fragmentBytes := 0\<rparr>)"
  using assms
proof (induction parts arbitrary: st)
  case (Cons p ps)
  let ?op = "if sk_fragments st = [] then 1 else 0 :: byte"
  have le: "sk_fragmentBytes st + length p \<le> MAX_MESSAGE" using Cons.prems(3,4) by (simp add: fragment_bytes_def)
  show ?case
  proof (cases ps)
    case Nil
    with Cons.prems(2) have b: "sk_buffer st = server_frame True ?op p @ []" by simp
    have h: "handle_frame E True ?op p (st\<lparr>sk_buffer := []\<rparr>) = (deliver E m (st\<lparr>sk_buffer := [], sk_fragments := [], sk_fragmentBytes := 0\<rparr>), True)"
      using Cons.prems(6,7) Nil by (cases m) (auto simp: handle_frame_def Let_def)
    have e: "pump E (deliver E m (st\<lparr>sk_buffer := [], sk_fragments := [], sk_fragmentBytes := 0\<rparr>)) = deliver E m (st\<lparr>sk_buffer := [], sk_fragments := [], sk_fragmentBytes := 0\<rparr>)"
      by (subst pump.simps) (simp add: frame_at_def)
    show ?thesis using Cons.prems(5) by (simp add: pump_server_frame[OF b refl le] h e)
  next
    case (Cons q qs)
    let ?st = "st\<lparr>sk_buffer := server_message 0 (q # qs), sk_fragments := sk_fragments st @ [p], sk_fragmentBytes := sk_fragmentBytes st + length p\<rparr>"
    from Cons Cons.prems(2) have b: "sk_buffer st = server_frame False ?op p @ server_message 0 (q # qs)" by simp
    have h: "handle_frame E False ?op p (st\<lparr>sk_buffer := server_message 0 (q # qs)\<rparr>) = (?st, True)"
      by (auto simp: handle_frame_def Let_def)
    have "pump E ?st = deliver E m (?st\<lparr>sk_buffer := [], sk_fragments := [], sk_fragmentBytes := 0\<rparr>)"
      by (rule Cons.IH) (use Cons Cons.prems in \<open>auto simp: fragment_bytes_def\<close>)
    with Cons.prems(5) show ?thesis by (simp add: pump_server_frame[OF b refl le] h)
  qed
qed simp

definition idle_socket :: "codex_socket \<Rightarrow> bool" where
  "idle_socket st \<longleftrightarrow> sk_open st \<and> sk_buffer st = [] \<and> sk_fragments st = [] \<and> sk_fragmentBytes st = 0"

lemma idle_drained: "idle_socket st \<Longrightarrow> drained st"
  by (simp add: idle_socket_def drained_def frame_at_def)

lemma idle_pump: "idle_socket st \<Longrightarrow> read_chunk E bs st = pump E (st\<lparr>sk_buffer := bs\<rparr>)"
  by (simp add: idle_socket_def read_chunk_def)

lemma byte_text_bytes: "byte_text (text_bytes s) = s"
proof -
  have "char_of (unat (of_nat (of_char c) :: byte)) = c" for c :: char
  proof -
    have "(of_char c :: nat) < 256" using nat_of_char_less_256 by simp
    then show ?thesis by (simp add: unat_byte)
  qed
  then show ?thesis by (simp add: byte_text_def text_bytes_def comp_def)
qed

text \<open>
  (C23) A message arrives whole however it is cut. When the daemon sends a text in any number of fragments of
  altogether at most 16 MiB, none of them 127 bytes long, and the connection hands the bytes over in any
  pieces, the connection ends in the state that the one message leads to.
\<close>

theorem message_arrives:
  assumes "idle_socket st" and "concat pieces = server_message 1 parts" and "parts \<noteq> []"
    and "length (concat parts) \<le> MAX_MESSAGE" and "\<forall>p \<in> set parts. length p \<noteq> 127"
    and "JSON_parse E (byte_text (concat parts)) = Some m" and "m \<noteq> JNull"
  shows "fold (read_chunk E) pieces st = deliver E m st"
proof -
  have "fold (read_chunk E) pieces st = read_chunk E (server_message 1 parts) st"
    using websocket.feed_chunks[OF idle_drained[OF assms(1)]] assms(2) by simp
  also have "\<dots> = deliver E m ((st\<lparr>sk_buffer := server_message 1 parts\<rparr>)\<lparr>sk_buffer := [], sk_fragments := [], sk_fragmentBytes := 0\<rparr>)"
    unfolding idle_pump[OF assms(1)] by (rule pump_message) (use assms in \<open>auto simp: idle_socket_def fragment_bytes_def\<close>)
  also have "\<dots> = deliver E m st" using assms(1) by (cases st) (simp add: idle_socket_def)
  finally show ?thesis .
qed

definition waiting_socket :: codex_socket where
  "waiting_socket = \<lparr>sk_open = True, sk_closed = False, sk_buffer = [], sk_fragments = [], sk_fragmentBytes = 0, sk_next = 2, sk_pending = [1], sk_settled = [], sk_written = []\<rparr>"

definition demo_answer :: json where
  "demo_answer = obj [(''id'', JNum (JInt 1)), (''result'', JBool True)]"

theorem message_arrives_witness:
  "\<exists>a b. sk_settled (fold (read_chunk std_env) [a, b] waiting_socket) = [(1, Inr (JBool True))]"
proof -
  let ?p = "text_bytes (JSON_stringify std_env demo_answer)"
  have len: "length ?p = 22" unfolding demo_answer_def by code_simp
  have "wire_json demo_answer" unfolding demo_answer_def by (rule wire_depthI, rule wire_objI) simp
  then have parse: "JSON_parse std_env (byte_text (concat [?p])) = Some demo_answer" by (simp add: byte_text_bytes std.parse_stringify)
  have "fold (read_chunk std_env) [take 5 (server_message 1 [?p]), drop 5 (server_message 1 [?p])] waiting_socket = deliver std_env demo_answer waiting_socket"
    by (rule message_arrives[where parts = "[?p]", OF _ _ _ _ _ parse])
      (simp_all add: len waiting_socket_def idle_socket_def MAX_MESSAGE_def, simp add: demo_answer_def obj_def)
  moreover have "sk_settled (deliver std_env demo_answer waiting_socket) = [(1, Inr (JBool True))]"
    by (simp add: deliver_def demo_answer_def waiting_socket_def settle_request_def)
  ultimately show ?thesis by metis
qed

text \<open>
  (C32) A frame of 127 bytes breaks the connection. Its length is sent in two bytes after the marker 126; the
  code reads it and then takes the value 127 for the marker of an eight-byte length, which is always beyond the
  limit. Whatever the payload says and however it arrives, every request that waits is rejected.
\<close>

theorem frame_of_127_fails:
  assumes "idle_socket st" and "length payload = 127" and "concat pieces = server_frame True 1 payload"
  shows "fold (read_chunk E) pieces st = fail_socket ''Invalid Codex WebSocket message'' st"
proof -
  have "fold (read_chunk E) pieces st = pump E (st\<lparr>sk_buffer := server_frame True 1 payload\<rparr>)"
    using websocket.feed_chunks[OF idle_drained[OF assms(1)]] assms(3) by (simp add: idle_pump[OF assms(1)])
  also have "\<dots> = fail_socket ''Invalid Codex WebSocket message'' st"
    using frame_127[of 1 payload True "[]" "sk_fragmentBytes st"] assms(2)
    by (subst pump.simps) (simp add: used_opcodes_def fail_socket_def)
  finally show ?thesis .
qed

theorem frame_of_127_fails_witness:
  "sk_settled (fold (read_chunk std_env) [server_frame True 1 (replicate 127 0)] waiting_socket) = [(1, Inl ''Invalid Codex WebSocket message'')]"
  using frame_of_127_fails[of waiting_socket "replicate 127 0" "[server_frame True 1 (replicate 127 0)]" std_env]
  by (simp add: waiting_socket_def idle_socket_def fail_socket_def)

text \<open>Masking twice with the same key gives the payload back, so the daemon reads what was framed.\<close>

lemma mask_involution: "mask_bytes key (mask_bytes key payload) = payload"
  by (rule nth_equalityI) (simp_all add: mask_bytes_def xor.assoc)

section \<open>Requests are settled once\<close>

definition accounted :: "codex_socket \<Rightarrow> bool" where
  "accounted st \<longleftrightarrow> distinct (sk_pending st @ map fst (sk_settled st)) \<and> set (sk_pending st @ map fst (sk_settled st)) = {1..<sk_next st}"

lemma accounted_settle: "accounted st \<Longrightarrow> i \<in> set (sk_pending st) \<Longrightarrow> accounted (settle_request i a st)"
  by (auto simp: accounted_def settle_request_def distinct_remove1 set_remove1_eq)

lemma accounted_fail: "accounted st \<Longrightarrow> accounted (fail_socket e st)"
  by (auto simp: accounted_def fail_socket_def rev_map comp_def)

lemma accounted_deliver: "accounted st \<Longrightarrow> accounted (deliver E m st)"
  by (auto simp: deliver_def intro: accounted_settle split: option.splits json.splits js_number.splits)

lemma accounted_handle:
  assumes "accounted st" and "handle_frame E final opcode payload st = (st', continue)"
  shows "accounted st'"
proof -
  have "accounted (st\<lparr>sk_fragments := fs, sk_fragmentBytes := n\<rparr>)" "accounted (st\<lparr>sk_written := ws\<rparr>)" for fs n ws
    using assms(1) by (simp_all add: accounted_def)
  with assms show ?thesis
    by (auto simp: handle_frame_def Let_def accounted_fail accounted_deliver split: if_splits option.splits json.splits)
qed

text \<open>What is buffered: the bytes of the fragments are counted and bounded.\<close>

definition bounded_fragments :: "codex_socket \<Rightarrow> bool" where
  "bounded_fragments st \<longleftrightarrow> fragment_bytes st \<and> sk_fragmentBytes st \<le> MAX_MESSAGE"

lemma bounded_deliver: "bounded_fragments (deliver E m st) = bounded_fragments st"
  by (simp add: deliver_def settle_request_def bounded_fragments_def fragment_bytes_def split: option.splits json.splits js_number.splits)

lemma frame_at_bound: "frame_at buf fb = Frame final opcode payload n \<Longrightarrow> fb + length payload \<le> MAX_MESSAGE"
  by (auto simp: frame_at_def Let_def split: if_splits option.splits)

lemma bounded_handle:
  assumes "bounded_fragments st" and "sk_fragmentBytes st + length payload \<le> MAX_MESSAGE" and "handle_frame E final opcode payload st = (st', continue)"
  shows "bounded_fragments st'"
proof -
  have "bounded_fragments (fail_socket e st)" "bounded_fragments (st\<lparr>sk_fragments := [], sk_fragmentBytes := 0\<rparr>)"
    "bounded_fragments (st\<lparr>sk_fragments := sk_fragments st @ [payload], sk_fragmentBytes := sk_fragmentBytes st + length payload\<rparr>)"
    "bounded_fragments (st\<lparr>sk_written := ws\<rparr>)" for e ws
    using assms(1,2) by (simp_all add: fail_socket_def bounded_fragments_def fragment_bytes_def)
  with assms show ?thesis
    by (auto simp: handle_frame_def Let_def bounded_deliver split: if_splits option.splits json.splits)
qed

definition sound_socket :: "codex_socket \<Rightarrow> bool" where
  "sound_socket st \<longleftrightarrow> accounted st \<and> bounded_fragments st"

lemma sound_fail: "sound_socket st \<Longrightarrow> sound_socket (fail_socket e st)"
  by (auto simp: sound_socket_def accounted_fail) (simp add: fail_socket_def bounded_fragments_def fragment_bytes_def)

lemma sound_buffer [simp]: "sound_socket (st\<lparr>sk_buffer := b\<rparr>) = sound_socket st"
  by (simp add: sound_socket_def accounted_def bounded_fragments_def fragment_bytes_def)

lemma sound_pump: "sound_socket st \<Longrightarrow> sound_socket (pump E st)"
proof (induction E st rule: pump.induct)
  case (1 E st)
  show ?case
  proof (cases "frame_at (sk_buffer st) (sk_fragmentBytes st)")
    case (Frame final opcode payload n)
    obtain st' continue where h: "handle_frame E final opcode payload (st\<lparr>sk_buffer := drop n (sk_buffer st)\<rparr>) = (st', continue)" by fastforce
    have "sound_socket (st\<lparr>sk_buffer := drop n (sk_buffer st)\<rparr>)" using 1(2) by simp
    with h frame_at_bound[OF Frame] have "sound_socket st'"
      unfolding sound_socket_def using accounted_handle bounded_handle by fastforce
    with 1(1)[OF Frame h[symmetric]] show ?thesis by (simp add: pump.simps[of E st] Frame h)
  qed (use 1(2) in \<open>simp_all add: pump.simps[of E st] sound_fail\<close>)
qed

lemma sound_read: "sound_socket st \<Longrightarrow> sound_socket (read_chunk E bs st)"
  by (simp add: read_chunk_def sound_pump)

lemma sound_send: "sound_socket st \<Longrightarrow> sk_next st \<ge> 1 \<Longrightarrow> sound_socket (sendRequest E method params st)"
proof -
  assume s: "sound_socket st" "sk_next st \<ge> 1"
  let ?st = "st\<lparr>sk_next := sk_next st + 1, sk_pending := sk_pending st @ [sk_next st]\<rparr>"
  have set: "set (sk_pending st @ map fst (sk_settled st)) = {1..<sk_next st}" "distinct (sk_pending st @ map fst (sk_settled st))"
    using s(1) by (simp_all add: sound_socket_def accounted_def)
  then have "sk_next st \<notin> set (sk_pending st @ map fst (sk_settled st))" by simp
  then have a: "accounted ?st" using set s(2) by (auto simp: accounted_def)
  have b: "bounded_fragments ?st" using s(1) by (simp add: sound_socket_def bounded_fragments_def fragment_bytes_def)
  have "sound_socket (settle_request (sk_next st) e ?st)" for e
    using accounted_settle[OF a] b by (simp add: sound_socket_def settle_request_def bounded_fragments_def fragment_bytes_def)
  moreover have "sound_socket (?st\<lparr>sk_written := ws\<rparr>)" for ws
    using a b by (simp add: sound_socket_def accounted_def bounded_fragments_def fragment_bytes_def)
  ultimately show "sound_socket (sendRequest E method params st)" by (simp add: sendRequest_def Let_def)
qed

section \<open>Every history of a connection\<close>

datatype socket_event = Opened "byte list" | Arrives "byte list" | Sends string json | Expires int string | Breaks string | Closes

definition socket_step :: "runtime \<Rightarrow> socket_event \<Rightarrow> codex_socket \<Rightarrow> codex_socket" where
  "socket_step E ev st =
     (case ev of
        Opened remainder \<Rightarrow> if sk_open st \<or> sk_closed st then st else open_socket E remainder st
      | Arrives bs \<Rightarrow> read_chunk E bs st
      | Sends method params \<Rightarrow> sendRequest E method params st
      | Expires i e \<Rightarrow> expire_request i e st
      | Breaks e \<Rightarrow> fail_socket e st
      | Closes \<Rightarrow> close_socket st)"

definition new_socket :: codex_socket where
  "new_socket = \<lparr>sk_open = False, sk_closed = False, sk_buffer = [], sk_fragments = [], sk_fragmentBytes = 0, sk_next = 1, sk_pending = [], sk_settled = [], sk_written = []\<rparr>"

lemma deliver_next [simp]: "sk_next (deliver E m st) = sk_next st"
  by (simp add: deliver_def settle_request_def split: option.splits json.splits js_number.splits)

lemma handle_next: "handle_frame E final opcode payload st = (st', continue) \<Longrightarrow> sk_next st' = sk_next st"
  by (auto simp: handle_frame_def fail_socket_def Let_def split: if_splits option.splits json.splits)

lemma pump_next [simp]: "sk_next (pump E st) = sk_next st"
proof (induction E st rule: pump.induct)
  case (1 E st)
  show ?case
  proof (cases "frame_at (sk_buffer st) (sk_fragmentBytes st)")
    case (Frame final opcode payload n)
    obtain st' continue where h: "handle_frame E final opcode payload (st\<lparr>sk_buffer := drop n (sk_buffer st)\<rparr>) = (st', continue)" by fastforce
    with 1(1)[OF Frame h[symmetric]] handle_next[OF h] show ?thesis by (simp add: pump.simps[of E st] Frame h)
  qed (simp_all add: pump.simps[of E st] fail_socket_def)
qed

text \<open>Nothing is left in the buffer of a connection that is not open, and what is left in an open one is less than one frame.\<close>

definition short_buffer :: "codex_socket \<Rightarrow> bool" where
  "short_buffer st \<longleftrightarrow> drained st \<and> (\<not> sk_open st \<longrightarrow> sk_buffer st = [])"

lemma frame_length_bound: "frame_length buf = Some (Some (n, h)) \<Longrightarrow> h \<le> 10"
  by (auto simp: frame_length_def wide_length_def Let_def split: if_splits)

lemma frame_length_waits: "frame_length buf = Some None \<Longrightarrow> length buf < 10"
  by (auto simp: frame_length_def wide_length_def Let_def split: if_splits)

lemma incomplete_short: "frame_at buf fb = Incomplete \<Longrightarrow> length buf < MAX_MESSAGE + 10"
  by (auto simp: frame_at_def Let_def MAX_MESSAGE_def dest!: frame_length_bound frame_length_waits split: if_splits option.splits)

lemma short_buffer_length: "short_buffer st \<Longrightarrow> length (sk_buffer st) < MAX_MESSAGE + 10"
  by (cases "sk_open st") (auto simp: short_buffer_def drained_def MAX_MESSAGE_def dest: incomplete_short)

lemma pump_closed_empty: "sk_open st \<Longrightarrow> \<not> sk_open (pump E st) \<Longrightarrow> sk_buffer (pump E st) = []"
proof (induction E st rule: pump.induct)
  case (1 E st)
  show ?case
  proof (cases "frame_at (sk_buffer st) (sk_fragmentBytes st)")
    case (Frame final opcode payload n)
    obtain st' continue where h: "handle_frame E final opcode payload (st\<lparr>sk_buffer := drop n (sk_buffer st)\<rparr>) = (st', continue)" by fastforce
    show ?thesis
    proof (cases continue)
      case True
      with 1(1)[OF Frame h[symmetric]] 1(2,3) handle_frame_buffer[of E final opcode payload _ st'] h show ?thesis by (simp add: pump.simps[of E st] Frame)
    next
      case False
      with h have "sk_buffer st' = []" by (auto simp: handle_frame_def fail_socket_def Let_def split: if_splits option.splits json.splits)
      with False show ?thesis by (simp add: pump.simps[of E st] Frame h)
    qed
  qed (use 1(2,3) in \<open>simp_all add: pump.simps[of E st] fail_socket_def\<close>)
qed

lemma short_read: "short_buffer st \<Longrightarrow> short_buffer (read_chunk E bs st)"
  by (auto simp: short_buffer_def read_chunk_def pump_drained pump_closed_empty)

definition socket_inv :: "codex_socket \<Rightarrow> bool" where
  "socket_inv st \<longleftrightarrow> sound_socket st \<and> 1 \<le> sk_next st \<and> short_buffer st"

lemma settle_inv: "socket_inv st \<Longrightarrow> i \<in> set (sk_pending st) \<Longrightarrow> socket_inv (settle_request i e st)"
  using accounted_settle[of st i e]
  by (auto simp: socket_inv_def sound_socket_def settle_request_def bounded_fragments_def fragment_bytes_def short_buffer_def drained_def)

lemma fail_inv: "socket_inv st \<Longrightarrow> socket_inv (fail_socket e st)"
  using sound_fail[of st e] by (simp add: socket_inv_def short_buffer_def drained_def fail_socket_def)

lemma read_inv: "socket_inv st \<Longrightarrow> socket_inv (read_chunk E bs st)"
  using sound_read[of st E bs] short_read[of st E bs] by (auto simp: socket_inv_def read_chunk_def)

lemma send_inv: "socket_inv st \<Longrightarrow> socket_inv (sendRequest E method params st)"
proof -
  assume i: "socket_inv st"
  have "short_buffer (sendRequest E method params st) = short_buffer st" "sk_next (sendRequest E method params st) = sk_next st + 1"
    by (simp_all add: sendRequest_def Let_def settle_request_def short_buffer_def drained_def)
  with i sound_send show "socket_inv (sendRequest E method params st)" by (simp add: socket_inv_def)
qed

lemma open_inv: "socket_inv st \<Longrightarrow> \<not> sk_open st \<Longrightarrow> socket_inv (open_socket E remainder st)"
proof -
  assume i: "socket_inv st" "\<not> sk_open st"
  then have "socket_inv (st\<lparr>sk_open := True\<rparr>)"
    by (auto simp: socket_inv_def sound_socket_def accounted_def bounded_fragments_def fragment_bytes_def short_buffer_def drained_def frame_at_def)
  then show ?thesis unfolding open_socket_def by (rule read_inv)
qed

lemma socket_step_inv: "socket_inv st \<Longrightarrow> socket_inv (socket_step E ev st)"
proof -
  assume i: "socket_inv st"
  then have "socket_inv (st\<lparr>sk_closed := True\<rparr>)"
    by (auto simp: socket_inv_def sound_socket_def accounted_def bounded_fragments_def fragment_bytes_def short_buffer_def drained_def)
  with i show ?thesis
    by (cases ev) (auto simp: socket_step_def expire_request_def close_socket_def intro: settle_inv fail_inv read_inv send_inv open_inv)
qed

text \<open>
  (C31) Every request is settled exactly once. Whatever arrives, and however requests, timeouts, failures and
  the closing of the connection are ordered, the requests issued so far are those that wait and those that have
  been settled, none of them twice; the fragments of a message never exceed 16 MiB, and at most one incomplete
  frame is buffered.
\<close>

theorem requests_settled_once:
  "let st = fold (socket_step E) events new_socket in
     distinct (sk_pending st @ map fst (sk_settled st)) \<and> set (sk_pending st @ map fst (sk_settled st)) = {1..<sk_next st}
     \<and> length (concat (sk_fragments st)) \<le> MAX_MESSAGE \<and> length (sk_buffer st) < MAX_MESSAGE + 10"
proof -
  have "socket_inv new_socket"
    by (simp add: socket_inv_def sound_socket_def accounted_def bounded_fragments_def fragment_bytes_def short_buffer_def drained_def new_socket_def)
  then have "socket_inv (fold (socket_step E) events new_socket)"
    by (induction events rule: rev_induct) (simp_all add: socket_step_inv)
  then show ?thesis
    by (auto simp: Let_def socket_inv_def sound_socket_def accounted_def bounded_fragments_def fragment_bytes_def short_buffer_length)
qed

end
