(* ===== verification/Session_Servers.thy ===== *)
theory Session_Servers
  imports Tools
begin

text \<open>
  The HTTP server \<open>src/src/transports/http.ts\<close> and the bridge of the experimental wrapper,
  \<open>src/src/experimental-wrapper/bridge.ts\<close>: who may speak to them, and the table of protocol sessions each
  keeps. The protocol library is a parameter: a request says whether its body is an initialization, and the
  library reports when a session is initialized and when its transport has closed. A handler is one step up to
  its first wait; what it answers is a status, or that the library takes over.

  An activity entry of the HTTP server is an object that open responses refer to, so entries have identities;
  the state logs the responses that are open. Stopping the process is left out.
\<close>

section \<open>Reading the configuration\<close>

text \<open>\<open>parseInt(s, 10)\<close>: white space, a sign, and digits as far as they go.\<close>

definition js_parseInt :: "string \<Rightarrow> int option" where
  "js_parseInt s =
     (let t = dropWhile is_space s;
          (negative, u) = (case t of c # cs \<Rightarrow> if c = CHR ''-'' then (True, cs) else if c = CHR ''+'' then (False, cs) else (False, t) | [] \<Rightarrow> (False, t));
          ds = takeWhile is_digit u in
      if ds = [] then None else Some (if negative then - int (nat_of_digits ds) else int (nat_of_digits ds)))"

definition parsePort :: "string list \<Rightarrow> (string \<Rightarrow> string option) \<Rightarrow> int option" where
  "parsePort argv env =
     (let portArg = (case dropWhile (\<lambda>a. a \<noteq> ''--port'') argv of _ # p # _ \<Rightarrow> Some p | _ \<Rightarrow> None) in
      case Option.bind (nonempty portArg) js_parseInt of
        Some p \<Rightarrow> Some p
      | None \<Rightarrow> js_parseInt (case nonempty (env ''GPTQ_HTTP_PORT'') of None \<Rightarrow> ''3001'' | Some v \<Rightarrow> v))"

definition resolveHost :: "(string \<Rightarrow> string option) \<Rightarrow> string" where
  "resolveHost env = (case nonempty (env ''GPTQUEUE_HOST'') of None \<Rightarrow> ''127.0.0.1'' | Some h \<Rightarrow> h)"

definition isLoopbackHost :: "string \<Rightarrow> bool" where
  "isLoopbackHost host \<longleftrightarrow> host = ''127.0.0.1'' \<or> host = ''localhost'' \<or> host = ''::1''"

definition envInt :: "(string \<Rightarrow> string option) \<Rightarrow> string \<Rightarrow> int \<Rightarrow> int" where
  "envInt env name fallback =
     (case js_parseInt (case env name of None \<Rightarrow> [] | Some v \<Rightarrow> v) of
        Some n \<Rightarrow> if 0 \<le> n then n else fallback
      | None \<Rightarrow> fallback)"

record http_config =
  hc_host :: string
  hc_port :: "int option"
  hc_token :: string
  hc_idleTimeoutMs :: int
  hc_maxSessions :: int

definition tokenActive :: "http_config \<Rightarrow> bool" where
  "tokenActive cfg \<longleftrightarrow> hc_token cfg \<noteq> []"

text \<open>\<open>None\<close>: the server refuses to start.\<close>

definition http_startup :: "string list \<Rightarrow> (string \<Rightarrow> string option) \<Rightarrow> http_config option" where
  "http_startup argv env =
     (let cfg = \<lparr>hc_host = resolveHost env, hc_port = parsePort argv env, hc_token = (case env ''GPTQUEUE_HTTP_TOKEN'' of None \<Rightarrow> [] | Some t \<Rightarrow> t),
                 hc_idleTimeoutMs = envInt env ''GPTQUEUE_HTTP_IDLE_TIMEOUT_MS'' (60 * 60 * 1000), hc_maxSessions = envInt env ''GPTQUEUE_HTTP_MAX_SESSIONS'' 256\<rparr> in
      if \<not> isLoopbackHost (hc_host cfg) \<and> \<not> tokenActive cfg then None else Some cfg)"

section \<open>Bearer tokens\<close>

definition tokenMatches :: "runtime \<Rightarrow> string \<Rightarrow> string \<Rightarrow> bool" where
  "tokenMatches E expected provided \<longleftrightarrow> sha256_hex E expected = sha256_hex E provided"

text \<open>
  The capture of \<open>/^Bearer\s+(.+)$/i\<close>: at least one space and one more character; the capture takes everything
  after the white space, or its last character when there is nothing else. A header has no line breaks.
\<close>

definition bearer_capture :: "string \<Rightarrow> string option" where
  "bearer_capture auth =
     (if map to_lower_char (take 6 auth) \<noteq> ''bearer'' then None
      else let rest = drop 6 auth; blank = takeWhile is_space rest; body = dropWhile is_space rest in
      if blank = [] then None
      else if body \<noteq> [] then Some body
      else if 2 \<le> length blank then Some [last blank] else None)"

definition extractBearerToken :: "string option \<Rightarrow> string option" where
  "extractBearerToken authorization = map_option trim (Option.bind (nonempty authorization) bearer_capture)"

definition bearerFrom :: "string option \<Rightarrow> string option" where
  "bearerFrom authorization = nonempty (map_option trim (bearer_capture (case authorization of None \<Rightarrow> [] | Some a \<Rightarrow> a)))"

section \<open>The table of sessions\<close>

record http_request =
  rq_authorization :: "string option"
  rq_session :: "string option"         \<comment> \<open>the header \<open>mcp-session-id\<close>\<close>
  rq_initialize :: bool                 \<comment> \<open>\<open>isInitializeRequest(body)\<close>\<close>

datatype http_reply = Status int | Served string | Initializing

record session_table =
  transports :: "string list"
  starting :: nat                       \<comment> \<open>initializations the library has been handed\<close>

record http_state = session_table +
  activity :: "(string \<times> nat) list"
  entry_of :: "nat \<Rightarrow> int \<times> int"        \<comment> \<open>\<open>lastSeen\<close> and \<open>open\<close> of an entry\<close>
  next_entry :: nat
  open_responses :: "(string \<times> nat) list"
  closing :: "string list"              \<comment> \<open>transports the sweep has asked to close\<close>

definition known_session :: "'z session_table_scheme \<Rightarrow> string option \<Rightarrow> string option" where
  "known_session st header = (case nonempty header of None \<Rightarrow> None | Some sid \<Rightarrow> if sid \<in> set (transports st) then Some sid else None)"

definition http_authorized :: "runtime \<Rightarrow> http_config \<Rightarrow> http_request \<Rightarrow> bool" where
  "http_authorized E cfg rq \<longleftrightarrow> \<not> tokenActive cfg
     \<or> (case extractBearerToken (rq_authorization rq) of None \<Rightarrow> False | Some provided \<Rightarrow> tokenMatches E (hc_token cfg) provided)"

definition trackRequest :: "int \<Rightarrow> string \<Rightarrow> http_state \<Rightarrow> http_state" where
  "trackRequest now sid st =
     (let e = (case map_of (activity st) sid of Some e \<Rightarrow> e | None \<Rightarrow> next_entry st);
          opened = (case map_of (activity st) sid of Some e \<Rightarrow> snd (entry_of st e) | None \<Rightarrow> 0) in
      st\<lparr>entry_of := (entry_of st)(e := (now, opened + 1)),
         next_entry := (case map_of (activity st) sid of Some _ \<Rightarrow> next_entry st | None \<Rightarrow> next_entry st + 1),
         activity := AList.update sid e (activity st), open_responses := (sid, e) # open_responses st\<rparr>)"

definition response_closed :: "int \<Rightarrow> string \<Rightarrow> nat \<Rightarrow> http_state \<Rightarrow> http_state" where
  "response_closed now sid e st =
     (if (sid, e) \<in> set (open_responses st)
      then st\<lparr>entry_of := (entry_of st)(e := (now, snd (entry_of st e) - 1)), open_responses := remove1 (sid, e) (open_responses st)\<rparr>
      else st)"

definition http_post :: "runtime \<Rightarrow> http_config \<Rightarrow> int \<Rightarrow> http_request \<Rightarrow> http_state \<Rightarrow> http_reply \<times> http_state" where
  "http_post E cfg now rq st =
     (if \<not> http_authorized E cfg rq then (Status 401, st)
      else case known_session st (rq_session rq) of
        Some sid \<Rightarrow> (Served sid, trackRequest now sid st)
      | None \<Rightarrow>
          if rq_initialize rq
          then if hc_maxSessions cfg \<le> int (length (transports st)) then (Status 503, st) else (Initializing, st\<lparr>starting := Suc (starting st)\<rparr>)
          else if nonempty (rq_session rq) \<noteq> None then (Status 404, st)
          else (Status 400, st))"

definition http_get :: "runtime \<Rightarrow> http_config \<Rightarrow> int \<Rightarrow> http_request \<Rightarrow> http_state \<Rightarrow> http_reply \<times> http_state" where
  "http_get E cfg now rq st =
     (if \<not> http_authorized E cfg rq then (Status 401, st)
      else case known_session st (rq_session rq) of
        None \<Rightarrow> (Status 404, st)
      | Some sid \<Rightarrow> (Served sid, trackRequest now sid st))"

definition http_delete :: "runtime \<Rightarrow> http_config \<Rightarrow> http_request \<Rightarrow> http_state \<Rightarrow> http_reply \<times> http_state" where
  "http_delete E cfg rq st =
     (if \<not> http_authorized E cfg rq then (Status 401, st)
      else case known_session st (rq_session rq) of
        None \<Rightarrow> (Status 404, st)
      | Some sid \<Rightarrow> (Served sid, st))"

definition http_health :: "http_state \<Rightarrow> nat" where
  "http_health st = length (transports st)"

text \<open>The library has drawn an identifier for an initialization it was handed.\<close>

definition http_initialized :: "int \<Rightarrow> string \<Rightarrow> http_state \<Rightarrow> http_state" where
  "http_initialized now sid st =
     st\<lparr>transports := transports st @ [sid], starting := starting st - 1,
        activity := AList.update sid (next_entry st) (activity st), entry_of := (entry_of st)(next_entry st := (now, 0)), next_entry := next_entry st + 1\<rparr>"

definition http_closed :: "string \<Rightarrow> http_state \<Rightarrow> http_state" where
  "http_closed sid st = st\<lparr>transports := removeAll sid (transports st), activity := AList.delete sid (activity st), closing := removeAll sid (closing st)\<rparr>"

definition idle_entry :: "http_config \<Rightarrow> int \<Rightarrow> http_state \<Rightarrow> string \<times> nat \<Rightarrow> bool" where
  "idle_entry cfg now st = (\<lambda>(sid, e). snd (entry_of st e) = 0 \<and> fst (entry_of st e) < now - hc_idleTimeoutMs cfg)"

definition http_sweep :: "http_config \<Rightarrow> int \<Rightarrow> http_state \<Rightarrow> http_state" where
  "http_sweep cfg now st =
     (if hc_idleTimeoutMs cfg \<le> 0 then st
      else let idle = filter (\<lambda>x. fst x \<in> set (transports st) \<and> idle_entry cfg now st x) (activity st) in
           st\<lparr>activity := filter (\<lambda>x. fst x \<in> set (transports st) \<and> \<not> idle_entry cfg now st x) (activity st),
              closing := closing st @ map fst idle\<rparr>)"

definition sweep_interval :: "http_config \<Rightarrow> int" where
  "sweep_interval cfg = min (max (hc_idleTimeoutMs cfg div 2) 250) 60000"

section \<open>The bridge\<close>

definition MAX_TRANSPORT_SESSIONS :: nat where
  "MAX_TRANSPORT_SESSIONS = 4"

definition bridge_authorized :: "runtime \<Rightarrow> string \<Rightarrow> http_request \<Rightarrow> bool" where
  "bridge_authorized E token rq \<longleftrightarrow> (case bearerFrom (rq_authorization rq) of None \<Rightarrow> False | Some supplied \<Rightarrow> tokenMatches E token supplied)"

definition bridge_post :: "runtime \<Rightarrow> string \<Rightarrow> http_request \<Rightarrow> session_table \<Rightarrow> http_reply \<times> session_table" where
  "bridge_post E token rq st =
     (if \<not> bridge_authorized E token rq then (Status 401, st)
      else case known_session st (rq_session rq) of
        Some sid \<Rightarrow> (Served sid, st)
      | None \<Rightarrow>
          if \<not> rq_initialize rq then (Status (if nonempty (rq_session rq) \<noteq> None then 404 else 400), st)
          else if MAX_TRANSPORT_SESSIONS \<le> length (transports st) then (Status 429, st)
          else (Initializing, st\<lparr>starting := Suc (starting st)\<rparr>))"

definition bridge_get :: "runtime \<Rightarrow> string \<Rightarrow> http_request \<Rightarrow> session_table \<Rightarrow> http_reply" where
  "bridge_get E token rq st =
     (if \<not> bridge_authorized E token rq then Status 401
      else case known_session st (rq_session rq) of None \<Rightarrow> Status 404 | Some sid \<Rightarrow> Served sid)"

definition bridge_initialized :: "string \<Rightarrow> session_table \<Rightarrow> session_table" where
  "bridge_initialized sid st =
     st\<lparr>transports := transports st @ [sid], starting := starting st - 1\<rparr>"

definition bridge_closed :: "string \<Rightarrow> session_table \<Rightarrow> session_table" where
  "bridge_closed sid st = st\<lparr>transports := removeAll sid (transports st)\<rparr>"

text \<open>
  The guard before either server of the wrapper is started; \<open>Inl\<close> where the code throws.
\<close>

definition bridge_guard :: "string \<Rightarrow> 'z client_world_scheme \<Rightarrow> exn + unit" where
  "bridge_guard name w =
     (if agentName w = None \<or> nonempty (sessionId w) = None then Inl (JsError ''Cannot start bridge before GPTQueue registration succeeds.'')
      else if agentName w \<noteq> Some name then Inl (JsError ''Bridge identity mismatch'')
      else Inr ())"

end
