(* ===== verification/Server_Props.thy ===== *)
theory Server_Props
  imports Session_Servers
begin

text \<open>
  What the two servers guarantee: requests without the token change nothing, the number of sessions is bounded,
  and the sweep of the HTTP server closes idle sessions only.
\<close>

section \<open>Runs of a server\<close>

text \<open>
  The events of a server in the order it meets them: requests, initializations that the protocol library
  completes or gives up, closings it reports, and steps of the server's own. The parameter \<open>k\<close> is the number of
  initializations that are under way at the same time at most; a server whose library initializes a session
  before the next request is met has \<open>k = 1\<close>.
\<close>

inductive served :: "nat \<Rightarrow> ('r \<Rightarrow> 's \<Rightarrow> http_reply \<times> 's) \<Rightarrow> ('i \<Rightarrow> 's \<Rightarrow> bool) \<Rightarrow> ('i \<Rightarrow> 's \<Rightarrow> 's) \<Rightarrow> ('s \<Rightarrow> 's) \<Rightarrow> (string \<Rightarrow> 's \<Rightarrow> 's) \<Rightarrow> ('s \<Rightarrow> 's \<Rightarrow> bool) \<Rightarrow> ('s \<Rightarrow> nat) \<Rightarrow> 's \<Rightarrow> 's \<Rightarrow> bool"
  for k handle fresh initialized failed closed internal inits st where
  none: "served k handle fresh initialized failed closed internal inits st st"
| request: "served k handle fresh initialized failed closed internal inits st st1 \<Longrightarrow> handle r st1 = (reply, st2) \<Longrightarrow> inits st2 \<le> k \<Longrightarrow>
    served k handle fresh initialized failed closed internal inits st st2"
| init: "served k handle fresh initialized failed closed internal inits st st1 \<Longrightarrow> fresh i st1 \<Longrightarrow> served k handle fresh initialized failed closed internal inits st (initialized i st1)"
| fail: "served k handle fresh initialized failed closed internal inits st st1 \<Longrightarrow> 0 < inits st1 \<Longrightarrow> served k handle fresh initialized failed closed internal inits st (failed st1)"
| close: "served k handle fresh initialized failed closed internal inits st st1 \<Longrightarrow> served k handle fresh initialized failed closed internal inits st (closed sid st1)"
| own: "served k handle fresh initialized failed closed internal inits st st1 \<Longrightarrow> internal st1 st2 \<Longrightarrow> served k handle fresh initialized failed closed internal inits st st2"

text \<open>
  How many sessions a limit admits: the check counts the sessions that exist, so when one is missing to the limit
  all the initializations under way may have passed it.
\<close>

definition admitted :: "nat \<Rightarrow> nat \<Rightarrow> nat" where
  "admitted limit k = (if limit = 0 \<or> k = 0 then 0 else limit - 1 + k)"

locale session_server =
  fixes handle :: "'r \<Rightarrow> 's \<Rightarrow> http_reply \<times> 's" and authorized :: "'r \<Rightarrow> bool" and limit :: nat
    and fresh :: "'i \<Rightarrow> 's \<Rightarrow> bool" and initialized :: "'i \<Rightarrow> 's \<Rightarrow> 's" and failed :: "'s \<Rightarrow> 's" and closed :: "string \<Rightarrow> 's \<Rightarrow> 's" and internal :: "'s \<Rightarrow> 's \<Rightarrow> bool"
    and sessions :: "'s \<Rightarrow> string list" and inits :: "'s \<Rightarrow> nat"
  assumes refused: "\<not> authorized r \<Longrightarrow> handle r st = (Status 401, st)"
    and request_keeps: "handle r st = (reply, st') \<Longrightarrow> sessions st' = sessions st"
    and request_starts: "handle r st = (reply, st') \<Longrightarrow> inits st' = inits st \<or> inits st' = Suc (inits st) \<and> length (sessions st) < limit"
    and initialized_adds: "fresh i st \<Longrightarrow> 0 < inits st \<and> (\<exists>sid. sid \<notin> set (sessions st) \<and> sessions (initialized i st) = sessions st @ [sid]) \<and> inits (initialized i st) = inits st - 1"
    and failed_ends: "sessions (failed st) = sessions st" "inits (failed st) = inits st - 1"
    and closed_removes: "sessions (closed sid st) = removeAll sid (sessions st)" "inits (closed sid st) = inits st"
    and internal_keeps: "internal st st' \<Longrightarrow> sessions st' = sessions st \<and> inits st' = inits st"
begin

lemma bounded:
  assumes "served k handle fresh initialized failed closed internal inits st st'" and "distinct (sessions st)" and "length (sessions st) + inits st \<le> admitted limit k"
  shows "distinct (sessions st') \<and> length (sessions st') + inits st' \<le> admitted limit k"
  using assms
proof induction
  case (request st1 r reply st2)
  with request_keeps[OF request(2)] request_starts[OF request(2)] show ?case by (auto simp: admitted_def)
next
  case (init st1 i)
  with initialized_adds[OF init(2)] show ?case by auto
next
  case (fail st1)
  then have "length (sessions st1) + inits st1 \<le> admitted limit k" "distinct (sessions st1)" by auto
  then show ?case unfolding failed_ends by linarith
next
  case (close st1 sid)
  then have "length (removeAll sid (sessions st1)) + inits st1 \<le> admitted limit k" by (meson add_le_mono1 le_trans length_removeAll_less_eq)
  with close show ?case unfolding closed_removes by (simp add: distinct_removeAll)
next
  case (own st1 st2)
  with internal_keeps[OF own(2)] show ?case by simp
qed simp

end

section \<open>The servers\<close>

datatype http_method = POST | GET_stream | DELETE

definition http_handle :: "runtime \<Rightarrow> http_config \<Rightarrow> int \<times> http_method \<times> http_request \<Rightarrow> http_state \<Rightarrow> http_reply \<times> http_state" where
  "http_handle E cfg = (\<lambda>(now, method, rq). case method of POST \<Rightarrow> http_post E cfg now rq | GET_stream \<Rightarrow> http_get E cfg now rq | DELETE \<Rightarrow> http_delete E cfg rq)"

text \<open>The library draws identifiers at random: none is used twice.\<close>

definition http_fresh :: "int \<times> string \<Rightarrow> http_state \<Rightarrow> bool" where
  "http_fresh = (\<lambda>(now, sid) st. 0 < starting st \<and> sid \<noteq> [] \<and> sid \<notin> set (transports st) \<and> sid \<notin> fst ` set (open_responses st))"

definition http_init :: "int \<times> string \<Rightarrow> http_state \<Rightarrow> http_state" where
  "http_init = (\<lambda>(now, sid). http_initialized now sid)"

text \<open>The library gives up an initialization: no session comes of it.\<close>

definition init_failed :: "'z session_table_scheme \<Rightarrow> 'z session_table_scheme" where
  "init_failed st = st\<lparr>starting := starting st - 1\<rparr>"

lemma init_failed_simps [simp]: "transports (init_failed st) = transports st" "starting (init_failed st) = starting st - 1"
  by (simp_all add: init_failed_def)

definition http_internal :: "http_config \<Rightarrow> http_state \<Rightarrow> http_state \<Rightarrow> bool" where
  "http_internal cfg st st' \<longleftrightarrow> (\<exists>now. st' = http_sweep cfg now st) \<or> (\<exists>now sid e. st' = response_closed now sid e st)"

abbreviation http_served :: "nat \<Rightarrow> runtime \<Rightarrow> http_config \<Rightarrow> http_state \<Rightarrow> http_state \<Rightarrow> bool" where
  "http_served k E cfg \<equiv> served k (http_handle E cfg) http_fresh http_init init_failed http_closed (http_internal cfg) starting"

definition no_sessions :: http_state where
  "no_sessions = \<lparr>transports = [], starting = 0, activity = [], entry_of = (\<lambda>_. (0, 0)), next_entry = 0, open_responses = [], closing = []\<rparr>"

lemma track_table [simp]: "transports (trackRequest now sid st) = transports st" "starting (trackRequest now sid st) = starting st"
  by (simp_all add: trackRequest_def Let_def)

lemma own_steps_table [simp]:
  "transports (http_sweep cfg now st) = transports st" "starting (http_sweep cfg now st) = starting st"
  "transports (response_closed now sid e st) = transports st" "starting (response_closed now sid e st) = starting st"
  by (simp_all add: http_sweep_def response_closed_def Let_def)

interpretation http: session_server "http_handle E cfg" "\<lambda>(now, method, rq). http_authorized E cfg rq" "nat (hc_maxSessions cfg)"
    http_fresh http_init init_failed http_closed "http_internal cfg" transports starting for E cfg
  by unfold_locales
    (auto simp: http_handle_def http_post_def http_get_def http_delete_def http_fresh_def http_init_def http_initialized_def http_closed_def http_internal_def
      split: prod.splits http_method.splits option.splits if_splits)

definition bridge_handle :: "runtime \<Rightarrow> string \<Rightarrow> http_method \<times> http_request \<Rightarrow> session_table \<Rightarrow> http_reply \<times> session_table" where
  "bridge_handle E token = (\<lambda>(method, rq) st. if method = POST then bridge_post E token rq st else (bridge_get E token rq st, st))"

definition bridge_fresh :: "string \<Rightarrow> session_table \<Rightarrow> bool" where
  "bridge_fresh sid st \<longleftrightarrow> 0 < starting st \<and> sid \<noteq> [] \<and> sid \<notin> set (transports st)"

abbreviation bridge_served :: "nat \<Rightarrow> runtime \<Rightarrow> string \<Rightarrow> session_table \<Rightarrow> session_table \<Rightarrow> bool" where
  "bridge_served k E token \<equiv> served k (bridge_handle E token) bridge_fresh bridge_initialized init_failed bridge_closed (\<lambda>_ _. False) starting"

definition no_bridge_sessions :: session_table where
  "no_bridge_sessions = \<lparr>transports = [], starting = 0\<rparr>"

interpretation bridge: session_server "bridge_handle E token" "\<lambda>(method, rq). bridge_authorized E token rq" MAX_TRANSPORT_SESSIONS
    bridge_fresh bridge_initialized init_failed bridge_closed "\<lambda>_ _. False" transports starting for E token
  by unfold_locales
    (auto simp: bridge_handle_def bridge_post_def bridge_get_def bridge_fresh_def bridge_initialized_def bridge_closed_def split: prod.splits option.splits if_splits)

section \<open>The gate\<close>

text \<open>
  (C33) No unauthenticated access. A server that has started listens on the loopback interface or has a token.
  When it has one, a request whose Authorization header does not carry a token with the same digest is answered
  401 and changes nothing, whatever its method, session and body; on the bridge of a wrapper this holds always.
\<close>

theorem unauthorized_changes_nothing:
  assumes "http_startup argv env = Some cfg"
  shows "(isLoopbackHost (hc_host cfg) \<or> tokenActive cfg)
    \<and> (tokenActive cfg \<and> (\<forall>p. extractBearerToken (rq_authorization rq) = Some p \<longrightarrow> sha256_hex E p \<noteq> sha256_hex E (hc_token cfg))
        \<longrightarrow> http_handle E cfg (now, method, rq) st = (Status 401, st))
    \<and> ((\<forall>p. bearerFrom (rq_authorization rq) = Some p \<longrightarrow> sha256_hex E p \<noteq> sha256_hex E token)
        \<longrightarrow> bridge_handle E token (method, rq) bst = (Status 401, bst))"
proof (intro conjI impI)
  show "isLoopbackHost (hc_host cfg) \<or> tokenActive cfg" using assms by (auto simp: http_startup_def Let_def split: if_splits)
next
  assume "tokenActive cfg \<and> (\<forall>p. extractBearerToken (rq_authorization rq) = Some p \<longrightarrow> sha256_hex E p \<noteq> sha256_hex E (hc_token cfg))"
  then have "\<not> http_authorized E cfg rq" by (auto simp: http_authorized_def tokenMatches_def split: option.splits)
  then show "http_handle E cfg (now, method, rq) st = (Status 401, st)" using http.refused[of E cfg "(now, method, rq)" st] by simp
next
  assume "\<forall>p. bearerFrom (rq_authorization rq) = Some p \<longrightarrow> sha256_hex E p \<noteq> sha256_hex E token"
  then have "\<not> bridge_authorized E token rq" by (auto simp: bridge_authorized_def tokenMatches_def split: option.splits)
  then show "bridge_handle E token (method, rq) bst = (Status 401, bst)" using bridge.refused[of E token "(method, rq)" bst] by simp
qed

definition public_env :: "string \<Rightarrow> string option" where
  "public_env = [''GPTQUEUE_HOST'' \<mapsto> ''0.0.0.0'', ''GPTQUEUE_HTTP_TOKEN'' \<mapsto> ''secret'', ''GPTQUEUE_HTTP_MAX_SESSIONS'' \<mapsto> ''1'']"

definition public_config :: http_config where
  "public_config = \<lparr>hc_host = ''0.0.0.0'', hc_port = Some 3001, hc_token = ''secret'', hc_idleTimeoutMs = 3600000, hc_maxSessions = 1\<rparr>"

lemma public_startup: "http_startup [] public_env = Some public_config" "http_startup [] (public_env(''GPTQUEUE_HTTP_TOKEN'' := None)) = None"
  unfolding public_env_def public_config_def by code_simp+

theorem unauthorized_changes_nothing_witness:
  "http_handle std_env public_config (0, POST, \<lparr>rq_authorization = Some ''Bearer guess'', rq_session = None, rq_initialize = True\<rparr>) no_sessions = (Status 401, no_sessions)"
proof -
  have "extractBearerToken (Some ''Bearer guess'') = Some ''guess''" by code_simp
  then show ?thesis
    using unauthorized_changes_nothing[OF public_startup(1), of "\<lparr>rq_authorization = Some ''Bearer guess'', rq_session = None, rq_initialize = True\<rparr>" std_env 0 POST no_sessions]
    by (simp add: public_config_def tokenActive_def std_env_def)
qed

section \<open>The bound\<close>

text \<open>
  (C34) The number of sessions is bounded. In every run from an empty table, in which at most \<open>k\<close> initializations
  are under way at the same time, the sessions of the HTTP server and the initializations under way are together
  at most the configured limit plus \<open>k - 1\<close>, and there are none at all when the limit is zero; those of the bridge
  are at most four plus \<open>j - 1\<close> with \<open>j\<close> under way; and no session is listed twice. So the limit itself holds when
  initializations do not overlap (\<open>k = 1\<close>), and overlapping ones exceed it by no more than their number less one.
\<close>

theorem sessions_bounded:
  assumes "http_served k E cfg no_sessions st" and "bridge_served j E token no_bridge_sessions bst"
  shows "distinct (transports st) \<and> length (transports st) + starting st \<le> admitted (nat (hc_maxSessions cfg)) k
    \<and> distinct (transports bst) \<and> length (transports bst) + starting bst \<le> admitted 4 j"
proof -
  have "distinct (transports st) \<and> length (transports st) + starting st \<le> admitted (nat (hc_maxSessions cfg)) k"
    using assms(1) by (rule http.bounded) (simp_all add: no_sessions_def)
  moreover have "distinct (transports bst) \<and> length (transports bst) + starting bst \<le> admitted MAX_TRANSPORT_SESSIONS j"
    using assms(2) by (rule bridge.bounded) (simp_all add: no_bridge_sessions_def)
  ultimately show ?thesis by (simp add: MAX_TRANSPORT_SESSIONS_def)
qed

definition token_request :: "string option \<Rightarrow> bool \<Rightarrow> http_request" where
  "token_request sid init = \<lparr>rq_authorization = Some ''Bearer secret'', rq_session = sid, rq_initialize = init\<rparr>"

lemma token_authorized: "http_authorized std_env public_config (token_request sid init)" "bridge_authorized std_env ''secret'' (token_request sid init)"
proof -
  have "extractBearerToken (Some ''Bearer secret'') = Some ''secret''" "bearerFrom (Some ''Bearer secret'') = Some ''secret''" by code_simp+
  then show "http_authorized std_env public_config (token_request sid init)" "bridge_authorized std_env ''secret'' (token_request sid init)"
    by (simp_all add: http_authorized_def bridge_authorized_def token_request_def tokenMatches_def public_config_def)
qed

text \<open>Two clients initialize sessions with the server that admits only one, the second before the first is done.\<close>

lemma initialize_request:
  assumes "length (transports st) = 0"
  shows "http_handle std_env public_config (0, POST, token_request None True) st = (Initializing, st\<lparr>starting := Suc (starting st)\<rparr>)"
  using assms by (simp add: http_handle_def http_post_def token_authorized known_session_def nonempty_def) (simp add: token_request_def public_config_def)

definition two_sessions :: http_state where
  "two_sessions = http_initialized 6 ''s2'' (http_initialized 5 ''s1'' (no_sessions\<lparr>starting := 2\<rparr>))"

text \<open>So the bound is attained: two sessions, of which the limit of one admits the second because the first is not listed yet.\<close>

lemma two_sessions_served: "http_served 2 std_env public_config no_sessions two_sessions" "transports two_sessions = [''s1'', ''s2'']" "starting two_sessions = 0"
proof -
  let ?st = "no_sessions\<lparr>starting := 1\<rparr>" and ?st2 = "no_sessions\<lparr>starting := 2\<rparr>"
  have "http_served 2 std_env public_config no_sessions ?st"
    by (rule served.request[where r = "(0, POST, token_request None True)" and reply = Initializing, OF served.none]) (simp_all add: initialize_request no_sessions_def)
  then have "http_served 2 std_env public_config no_sessions ?st2"
    by (rule served.request[where r = "(0, POST, token_request None True)" and reply = Initializing]) (simp_all add: initialize_request no_sessions_def)
  then have "http_served 2 std_env public_config no_sessions (http_init (5, ''s1'') ?st2)"
    by (rule served.init) (simp add: http_fresh_def no_sessions_def)
  then have "http_served 2 std_env public_config no_sessions (http_init (6, ''s2'') (http_init (5, ''s1'') ?st2))"
    by (rule served.init) (simp add: http_fresh_def http_init_def http_initialized_def no_sessions_def)
  then show "http_served 2 std_env public_config no_sessions two_sessions" by (simp add: two_sessions_def http_init_def)
  show "transports two_sessions = [''s1'', ''s2'']" "starting two_sessions = 0" by (simp_all add: two_sessions_def http_initialized_def no_sessions_def)
qed

theorem sessions_bounded_witness:
  "http_served 2 std_env public_config no_sessions two_sessions \<and> length (transports two_sessions) = 2 \<and> distinct (transports two_sessions)
   \<and> length (transports two_sessions) + starting two_sessions \<le> admitted 1 2"
  using sessions_bounded[OF two_sessions_served(1) served.none] two_sessions_served by (simp add: public_config_def)

section \<open>The sweep\<close>

text \<open>
  The books of the server: an entry belongs to one session, its counter is the number of open responses that
  refer to it, and an open response of a session refers to the entry the session has.
\<close>

definition single_owner :: "(string \<times> nat) set \<Rightarrow> nat \<Rightarrow> bool" where
  "single_owner U n \<longleftrightarrow> snd ` U \<subseteq> {..<n} \<and> (\<forall>x \<in> U. \<forall>y \<in> U. snd x = snd y \<longrightarrow> x = y)"

definition counted :: "(string \<times> nat) list \<Rightarrow> nat \<Rightarrow> (nat \<Rightarrow> int \<times> int) \<Rightarrow> bool" where
  "counted R n f \<longleftrightarrow> (\<forall>e < n. snd (f e) = int (count_list (map snd R) e))"

definition books :: "(string \<times> nat) set \<Rightarrow> (string \<times> nat) list \<Rightarrow> nat \<Rightarrow> (nat \<Rightarrow> int \<times> int) \<Rightarrow> string set \<Rightarrow> bool" where
  "books A R n f T \<longleftrightarrow> single_owner (A \<union> set R) n \<and> counted R n f \<and> {x \<in> set R. fst x \<in> T} \<subseteq> A"

lemma single_owner_mono: "single_owner U n \<Longrightarrow> U' \<subseteq> U \<Longrightarrow> single_owner U' n"
  unfolding single_owner_def by blast

lemma single_owner_insert: "single_owner U n \<Longrightarrow> single_owner (insert (s, n) U) (n + 1)"
  unfolding single_owner_def by (auto simp: image_subset_iff less_Suc_eq)

lemma count_list_remove1: "x \<in> set xs \<Longrightarrow> count_list (map f xs) y = count_list (map f (remove1 x xs)) y + (if f x = y then 1 else 0)"
  by (induction xs) auto

lemma counted_new: "single_owner U n \<Longrightarrow> set R \<subseteq> U \<Longrightarrow> counted R n f \<Longrightarrow> counted R (n + 1) (f(n := (now, 0)))"
proof -
  assume *: "single_owner U n" "set R \<subseteq> U" "counted R n f"
  then have "n \<notin> snd ` set R" by (auto simp: single_owner_def)
  then have "count_list (map snd R) n = 0" by (simp add: count_list_0_iff)
  with *(3) show ?thesis by (simp add: counted_def less_Suc_eq)
qed

lemma counted_more: "counted R n f \<Longrightarrow> e < n \<Longrightarrow> counted ((s, e) # R) n (f(e := (now, snd (f e) + 1)))"
  by (simp add: counted_def)

lemma books_touch: "books A R n f T \<Longrightarrow> (s, e) \<in> A \<Longrightarrow> books A ((s, e) # R) n (f(e := (now, snd (f e) + 1))) T"
proof -
  assume b: "books A R n f T" and e: "(s, e) \<in> A"
  then have "A \<union> set ((s, e) # R) = A \<union> set R" "e < n" by (auto simp: books_def single_owner_def)
  with b e counted_more show ?thesis by (auto simp: books_def)
qed

lemma books_init:
  assumes "books A R n f T" and "s \<notin> fst ` set R"
  shows "books ({x \<in> A. fst x \<noteq> s} \<union> {(s, n)}) R (n + 1) (f(n := (now, 0))) (insert s T)"
proof -
  have o: "single_owner (A \<union> set R) n" using assms(1) by (simp add: books_def)
  have "single_owner (({x \<in> A. fst x \<noteq> s} \<union> {(s, n)}) \<union> set R) (n + 1)"
    by (rule single_owner_mono[OF single_owner_insert[OF o, of s]]) auto
  moreover have "counted R (n + 1) (f(n := (now, 0)))" using assms(1) by (intro counted_new[OF o]) (simp_all add: books_def)
  moreover have "{x \<in> set R. fst x \<in> insert s T} \<subseteq> {x \<in> A. fst x \<noteq> s} \<union> {(s, n)}" using assms by (auto simp: books_def)
  ultimately show ?thesis by (simp add: books_def)
qed

lemma books_new:
  assumes "books A R n f T" and "\<And>e. (s, e) \<notin> A" and "s \<in> T"
  shows "books (A \<union> {(s, n)}) ((s, n) # R) (n + 1) (f(n := (now, 1))) T"
proof -
  have "s \<notin> fst ` set R" using assms by (auto simp: books_def)
  moreover have "{x \<in> A. fst x \<noteq> s} = A" "insert s T = T" using assms(2,3) by auto
  ultimately have "books (A \<union> {(s, n)}) R (n + 1) (f(n := (now, 0))) T" using books_init[OF assms(1), of s now] by simp
  from books_touch[OF this, of s n now] show ?thesis by simp
qed

lemma books_close:
  assumes "books A R n f T" and "(s, e) \<in> set R"
  shows "books A (remove1 (s, e) R) n (f(e := (now, snd (f e) - 1))) T"
proof -
  have sub: "set (remove1 (s, e) R) \<subseteq> set R" by (rule set_remove1_subset)
  have "counted (remove1 (s, e) R) n (f(e := (now, snd (f e) - 1)))"
    using assms(1) count_list_remove1[OF assms(2), of snd] by (simp add: books_def counted_def)
  moreover have "single_owner (A \<union> set (remove1 (s, e) R)) n" by (rule single_owner_mono[of "A \<union> set R"]) (use assms(1) sub in \<open>auto simp: books_def\<close>)
  ultimately show ?thesis using assms(1) sub by (auto simp: books_def)
qed

lemma books_less:
  assumes "books A R n f T" and "A' \<subseteq> A" and "T' \<subseteq> T" and "\<And>x. x \<in> A - A' \<Longrightarrow> fst x \<in> T' \<Longrightarrow> x \<notin> set R"
  shows "books A' R n f T'"
proof -
  have "single_owner (A' \<union> set R) n" by (rule single_owner_mono[of "A \<union> set R"]) (use assms(1,2) in \<open>auto simp: books_def\<close>)
  moreover have "{x \<in> set R. fst x \<in> T'} \<subseteq> A'"
  proof
    fix x assume x: "x \<in> {x \<in> set R. fst x \<in> T'}"
    then have "x \<in> A" using assms(1,3) by (auto simp: books_def)
    with x assms(4)[of x] show "x \<in> A'" by auto
  qed
  ultimately show ?thesis using assms(1) by (simp add: books_def)
qed

lemma set_update_key: "distinct (map fst xs) \<Longrightarrow> set (AList.update k v xs) = {x \<in> set xs. fst x \<noteq> k} \<union> {(k, v)}"
  by (induction xs) (auto simp: image_iff)

definition activity_inv :: "http_state \<Rightarrow> bool" where
  "activity_inv st \<longleftrightarrow> distinct (map fst (activity st)) \<and> books (set (activity st)) (open_responses st) (next_entry st) (entry_of st) (set (transports st))"

lemma inv_track:
  assumes "activity_inv st" and "sid \<in> set (transports st)"
  shows "activity_inv (trackRequest now sid st)"
proof (cases "map_of (activity st) sid")
  case None
  then have no: "(sid, e) \<notin> set (activity st)" for e by (auto simp: map_of_eq_None_iff image_iff)
  then have "{x \<in> set (activity st). fst x \<noteq> sid} = set (activity st)" by auto
  with assms None books_new[OF _ no assms(2)] show ?thesis
    by (simp add: activity_inv_def trackRequest_def Let_def distinct_update set_update_key)
next
  case (Some e)
  then have e: "(sid, e) \<in> set (activity st)" by (rule map_of_SomeD)
  with assms have "{x \<in> set (activity st). fst x \<noteq> sid} \<union> {(sid, e)} = set (activity st)"
    by (auto simp: activity_inv_def) (metis eq_key_imp_eq_value)
  with assms Some books_touch[OF _ e] show ?thesis
    by (simp add: activity_inv_def trackRequest_def Let_def distinct_update set_update_key)
qed

lemma inv_response: "activity_inv st \<Longrightarrow> activity_inv (response_closed now sid e st)"
  by (simp add: activity_inv_def response_closed_def books_close)

lemma inv_init: "activity_inv st \<Longrightarrow> http_fresh i st \<Longrightarrow> activity_inv (http_init i st)"
  using books_init[of "set (activity st)" "open_responses st" "next_entry st" "entry_of st" "set (transports st)" "snd i" "fst i"]
  by (simp add: activity_inv_def http_init_def http_initialized_def http_fresh_def distinct_update set_update_key split: prod.splits)

lemma inv_closed: "activity_inv st \<Longrightarrow> activity_inv (http_closed sid st)"
proof -
  assume i: "activity_inv st"
  have "set (AList.delete sid (activity st)) = {x \<in> set (activity st). fst x \<noteq> sid}" by (auto simp: AList.delete_eq)
  moreover have "books {x \<in> set (activity st). fst x \<noteq> sid} (open_responses st) (next_entry st) (entry_of st) (set (transports st) - {sid})"
    by (rule books_less[of "set (activity st)" _ _ _ "set (transports st)"]) (use i in \<open>auto simp: activity_inv_def\<close>)
  ultimately show ?thesis using i by (simp add: activity_inv_def http_closed_def distinct_delete)
qed

text \<open>An entry counts no response exactly when its session has none open.\<close>

lemma no_open_response:
  assumes "activity_inv st" and "(sid, e) \<in> set (activity st)" and "sid \<in> set (transports st)"
  shows "snd (entry_of st e) = 0 \<longleftrightarrow> sid \<notin> fst ` set (open_responses st)"
proof -
  have b: "books (set (activity st)) (open_responses st) (next_entry st) (entry_of st) (set (transports st))" "distinct (map fst (activity st))"
    using assms(1) by (simp_all add: activity_inv_def)
  have o: "single_owner (set (activity st) \<union> set (open_responses st)) (next_entry st)" using b(1) by (simp add: books_def)
  then have "e < next_entry st" using assms(2) by (auto simp: single_owner_def)
  with b(1) have "snd (entry_of st e) = 0 \<longleftrightarrow> e \<notin> snd ` set (open_responses st)"
    by (simp add: books_def counted_def count_list_0_iff)
  also have "\<dots> \<longleftrightarrow> (sid, e) \<notin> set (open_responses st)"
  proof -
    have "x = (sid, e)" if "x \<in> set (open_responses st)" "snd x = e" for x
      using o assms(2) that unfolding single_owner_def by fastforce
    then show ?thesis by force
  qed
  also have "\<dots> \<longleftrightarrow> sid \<notin> fst ` set (open_responses st)"
  proof -
    have "e' = e" if "(sid, e') \<in> set (open_responses st)" for e'
      using that b assms(2,3) eq_key_imp_eq_value[OF b(2), of sid e' e] by (auto simp: books_def)
    then show ?thesis by force
  qed
  finally show ?thesis .
qed

lemma inv_sweep: "activity_inv st \<Longrightarrow> activity_inv (http_sweep cfg now st)"
proof -
  assume i: "activity_inv st"
  let ?A = "filter (\<lambda>x. fst x \<in> set (transports st) \<and> \<not> idle_entry cfg now st x) (activity st)"
  have "x \<notin> set (open_responses st)" if "x \<in> set (activity st) - set ?A" "fst x \<in> set (transports st)" for x
  proof -
    have "idle_entry cfg now st x" "x \<in> set (activity st)" using that by auto
    then show ?thesis using that(2) no_open_response[OF i, of "fst x" "snd x"] by (force simp: idle_entry_def split_beta)
  qed
  note closed = this
  have "books (set ?A) (open_responses st) (next_entry st) (entry_of st) (set (transports st))"
  proof (rule books_less)
    show "books (set (activity st)) (open_responses st) (next_entry st) (entry_of st) (set (transports st))" using i by (simp add: activity_inv_def)
    show "set ?A \<subseteq> set (activity st)" by simp
    show "x \<notin> set (open_responses st)" if "x \<in> set (activity st) - set ?A" "fst x \<in> set (transports st)" for x using that by (rule closed)
  qed simp
  moreover have "distinct (map fst ?A)" using i by (simp add: activity_inv_def distinct_map_filter)
  ultimately show ?thesis using i by (simp add: http_sweep_def activity_inv_def Let_def)
qed

lemma inv_starting [simp]: "activity_inv (st\<lparr>starting := n\<rparr>) = activity_inv st"
  by (simp add: activity_inv_def)

lemma inv_served: "http_served k E cfg no_sessions st \<Longrightarrow> activity_inv st"
proof (induction rule: served.induct)
  case none
  show ?case by (simp add: activity_inv_def books_def single_owner_def counted_def no_sessions_def)
next
  case (request st1 r reply st2)
  then show ?case
    by (auto simp: http_handle_def http_post_def http_get_def http_delete_def known_session_def
        intro: inv_track split: prod.splits http_method.splits option.splits if_splits)
next
  case (own st1 st2)
  then show ?case by (auto simp: http_internal_def intro: inv_sweep inv_response)
next
  case (fail st1)
  then show ?case by (simp add: init_failed_def)
qed (simp_all add: inv_init inv_closed)

text \<open>
  The sweep closes idle sessions and no others. In every run, requests and initializations interleaved in
  any way, the sweep asks a transport to close exactly when its session has no open response and its last
  activity is longer ago than the timeout; with a timeout of zero it closes nothing.
\<close>

lemma sweep_closes_idle_only:
  assumes "http_served k E cfg no_sessions st"
  shows "set (closing (http_sweep cfg now st)) = set (closing st)
    \<union> {sid \<in> set (transports st). 0 < hc_idleTimeoutMs cfg \<and> sid \<notin> fst ` set (open_responses st)
         \<and> (\<exists>e. map_of (activity st) sid = Some e \<and> fst (entry_of st e) < now - hc_idleTimeoutMs cfg)}"
proof -
  have i: "activity_inv st" using assms by (rule inv_served)
  then have look: "map_of (activity st) sid = Some e \<longleftrightarrow> (sid, e) \<in> set (activity st)" for sid e
    by (auto simp: activity_inv_def dest: map_of_SomeD)
  have "{sid \<in> set (transports st). \<exists>e. (sid, e) \<in> set (activity st) \<and> idle_entry cfg now st (sid, e)}
      = {sid \<in> set (transports st). sid \<notin> fst ` set (open_responses st) \<and> (\<exists>e. (sid, e) \<in> set (activity st) \<and> fst (entry_of st e) < now - hc_idleTimeoutMs cfg)}"
    using no_open_response[OF i] by (auto simp: idle_entry_def)
  moreover have "fst ` {x \<in> set (activity st). fst x \<in> set (transports st) \<and> idle_entry cfg now st x} = {sid \<in> set (transports st). \<exists>e. (sid, e) \<in> set (activity st) \<and> idle_entry cfg now st (sid, e)}"
    by force
  ultimately show ?thesis by (auto simp: http_sweep_def Let_def look)
qed

end
