(* ===== verification/Wrapper_Config.thy ===== *)
theory Wrapper_Config
  imports Launch_Policy Session_Store
begin

text \<open>
  The command line of the experimental wrapper, \<open>src/src/experimental-wrapper/config.ts\<close>: the options it admits
  and the command lines it builds for the wrapped programs. The URL parser is a parameter that gives the
  protocol and the path of a URL, or \<open>None\<close> where it throws. The text of the generated Pi extension and the
  usage text are left out.
\<close>

section \<open>Options\<close>

datatype WrappedClient = Wrap_codex | Wrap_pi

datatype CleanupMode = Close_session | Unregister_agent

record WrapperOptions =
  wo_client :: WrappedClient
  wo_agent :: string
  wo_description :: string
  wo_workspace :: string
  wo_redisUrl :: string
  wo_cleanup :: CleanupMode
  wo_model :: "string option"
  wo_prompt :: string

record ParseState =
  ps_agent :: "string option"
  ps_description :: "string option"
  ps_workspace :: "string option"
  ps_redisUrl :: "string option"
  ps_cleanup :: "CleanupMode option"
  ps_model :: "string option"

definition DEFAULT_REDIS_URL :: string where
  "DEFAULT_REDIS_URL = ''redis://127.0.0.1:6379/14''"

definition DISPOSABLE_AGENT_PREFIX :: string where
  "DISPOSABLE_AGENT_PREFIX = ''gptqueue-experiment-''"

fun wrapped_client :: "string \<Rightarrow> WrappedClient option" where
  "wrapped_client t = (if t = ''codex'' then Some Wrap_codex else if t = ''pi'' then Some Wrap_pi else None)"

fun client_name :: "WrappedClient \<Rightarrow> string" where
  "client_name Wrap_codex = ''codex''"
| "client_name Wrap_pi = ''pi''"

definition readValue :: "string option \<Rightarrow> exn + string" where
  "readValue v =
     (case nonempty v of
        None \<Rightarrow> Inl (JsError ''requires a value'')
      | Some s \<Rightarrow> if starts_with ''--'' s then Inl (JsError ''requires a value'') else Inr s)"

definition known_option :: "string \<Rightarrow> bool" where
  "known_option t \<longleftrightarrow> t \<in> set [''--agent'', ''--description'', ''--workspace'', ''--redis-url'', ''--cleanup'', ''--model'']"

definition set_option :: "string \<Rightarrow> string \<Rightarrow> ParseState \<Rightarrow> exn + ParseState" where
  "set_option t v st =
     (if t = ''--agent'' then Inr (st\<lparr>ps_agent := Some v\<rparr>)
      else if t = ''--description'' then Inr (st\<lparr>ps_description := Some v\<rparr>)
      else if t = ''--workspace'' then Inr (st\<lparr>ps_workspace := Some v\<rparr>)
      else if t = ''--redis-url'' then Inr (st\<lparr>ps_redisUrl := Some v\<rparr>)
      else if t = ''--cleanup''
      then (if v = ''close'' then Inr (st\<lparr>ps_cleanup := Some Close_session\<rparr>)
            else if v = ''unregister'' then Inr (st\<lparr>ps_cleanup := Some Unregister_agent\<rparr>)
            else Inl (JsError ''--cleanup must be close or unregister.''))
      else Inr (st\<lparr>ps_model := Some v\<rparr>))"

fun parseOptions :: "string list \<Rightarrow> ParseState \<Rightarrow> exn + ParseState \<times> string list" where
  "parseOptions [] st = Inr (st, [])"
| "parseOptions [t] st =
     (if t = ''--'' then Inr (st, []) else Inl (JsError (if known_option t then ''requires a value'' else ''Unknown option'')))"
| "parseOptions (t # v # rest) st =
     (if t = ''--'' then Inr (st, v # rest)
      else if \<not> known_option t then Inl (JsError ''Unknown option'')
      else case readValue (Some v) of
             Inl e \<Rightarrow> Inl e
           | Inr x \<Rightarrow> (case set_option t x st of Inl e \<Rightarrow> Inl e | Inr st' \<Rightarrow> parseOptions rest st'))"

definition control_char :: "char \<Rightarrow> bool" where
  "control_char c \<longleftrightarrow> (of_char c :: nat) < 32 \<or> (of_char c :: nat) = 127"

definition requireSafeAgentName :: "string option \<Rightarrow> exn + string" where
  "requireSafeAgentName v =
     (let name = (case v of None \<Rightarrow> [] | Some s \<Rightarrow> trim s) in
      if name = [] \<or> list_ex control_char name then Inl (JsError ''--agent must be a non-empty name without control characters.'') else Inr name)"

text \<open>A database number as the URL path spells it: decimal, without a leading zero.\<close>

definition decimal :: "string \<Rightarrow> bool" where
  "decimal s \<longleftrightarrow> s = ''0'' \<or> s \<noteq> [] \<and> list_all is_digit s \<and> hd s \<noteq> CHR ''0''"

definition redisDatabase :: "(string \<Rightarrow> (string \<times> string) option) \<Rightarrow> string \<Rightarrow> exn + nat" where
  "redisDatabase URL redisUrl =
     (case URL redisUrl of
        None \<Rightarrow> Inl (JsError ''Invalid URL'')
      | Some (protocol, pathname) \<Rightarrow>
          if protocol \<noteq> ''redis:'' \<and> protocol \<noteq> ''rediss:'' then Inl (JsError ''Redis URL must use redis:// or rediss://'')
          else let raw = (if starts_with ''/'' pathname then tl pathname else pathname) in
          if raw \<noteq> [] \<and> \<not> decimal raw then Inl (JsError ''Redis URL has an invalid database'')
          else let database = (if raw = [] then 0 else nat_of_digits raw) in
          if 9007199254740991 < database then Inl (JsError ''Redis URL has an invalid database'') else Inr database)"

definition requireIsolatedRedis :: "(string \<Rightarrow> (string \<times> string) option) \<Rightarrow> string \<Rightarrow> exn + string" where
  "requireIsolatedRedis URL redisUrl =
     (case redisDatabase URL redisUrl of
        Inl e \<Rightarrow> Inl e
      | Inr n \<Rightarrow> if n = 0 then Inl (JsError ''The experimental wrapper refuses Redis db0'') else Inr redisUrl)"

definition join_words :: "string list \<Rightarrow> string" where
  "join_words ws = (case ws of [] \<Rightarrow> [] | w # rest \<Rightarrow> w @ concat (map (\<lambda>x. CHR '' '' # x) rest))"

definition or_text :: "string option \<Rightarrow> string \<Rightarrow> string" where
  "or_text v d = (case v of None \<Rightarrow> d | Some s \<Rightarrow> s)"

definition parseWrapperArgs :: "(string \<Rightarrow> (string \<times> string) option) \<Rightarrow> string \<Rightarrow> string list \<Rightarrow> exn + WrapperOptions" where
  "parseWrapperArgs URL cwd argv =
     (case Option.bind (case argv of [] \<Rightarrow> None | t # _ \<Rightarrow> Some t) wrapped_client of
        None \<Rightarrow> Inl (JsError ''First argument must be codex or pi.'')
      | Some client \<Rightarrow>
     (case parseOptions (tl argv) \<lparr>ps_agent = None, ps_description = None, ps_workspace = None, ps_redisUrl = None, ps_cleanup = None, ps_model = None\<rparr> of
        Inl e \<Rightarrow> Inl e
      | Inr (st, promptTokens) \<Rightarrow>
     (case requireSafeAgentName (ps_agent st) of
        Inl e \<Rightarrow> Inl e
      | Inr agent \<Rightarrow>
          let prompt = trim (join_words promptTokens); cleanup = (case ps_cleanup st of None \<Rightarrow> Close_session | Some c \<Rightarrow> c) in
          if prompt = [] then Inl (JsError ''A prompt is required after --.'')
          else (case nonempty (ps_workspace st) of
            None \<Rightarrow> Inl (JsError ''--workspace is required.'')
          | Some workspace \<Rightarrow>
              if cleanup = Unregister_agent \<and> \<not> starts_with DISPOSABLE_AGENT_PREFIX agent then Inl (JsError ''--cleanup unregister requires a disposable agent name'')
              else (case requireIsolatedRedis URL (or_text (ps_redisUrl st) DEFAULT_REDIS_URL) of
                Inl e \<Rightarrow> Inl e
              | Inr redisUrl \<Rightarrow>
                  Inr \<lparr>wo_client = client, wo_agent = agent,
                       wo_description = or_text (ps_description st) (client_name client @ '' launched by the experimental registered wrapper''),
                       wo_workspace = path_resolve cwd workspace, wo_redisUrl = redisUrl, wo_cleanup = cleanup,
                       wo_model = nonempty (ps_model st), wo_prompt = prompt\<rparr>)))))"

section \<open>Command lines\<close>

definition WRAPPER_VISIBLE_TOOLS :: "string list" where
  "WRAPPER_VISIBLE_TOOLS = [''send_message'', ''receive_message'', ''list_agents'', ''get_queue_status'']"

record ChildInvocation =
  inv_command :: string
  inv_args :: "string list"

definition quotedString :: "runtime \<Rightarrow> string \<Rightarrow> string" where
  "quotedString E v = JSON_stringify E (JStr v)"

definition quotedStringArray :: "runtime \<Rightarrow> string list \<Rightarrow> string" where
  "quotedStringArray E vs = JSON_stringify E (JArr (map JStr vs))"

definition registeredIdentityPrompt :: "string \<Rightarrow> string" where
  "registeredIdentityPrompt agent = ''You are already registered in GPTQueue as '' @ CHR 0x22 # agent @ CHR 0x22 # ''. ''
     @ ''Do not call register_agent and do not supply a session_id. ''"

definition model_args :: "WrapperOptions \<Rightarrow> string list" where
  "model_args o' = (case nonempty (wo_model o') of None \<Rightarrow> [] | Some m \<Rightarrow> [''--model'', m])"

definition TOOL_TIMEOUT_SECONDS :: nat where
  "TOOL_TIMEOUT_SECONDS = 70"

definition codex_settings :: "runtime \<Rightarrow> string \<Rightarrow> string list" where
  "codex_settings E bridgeUrl =
     (let server = ''mcp_servers.gptqueue_wrapper'' in
      [server @ ''.url='' @ quotedString E bridgeUrl,
       server @ ''.bearer_token_env_var='' @ quotedString E ''GPTQ_BRIDGE_TOKEN'',
       server @ ''.required=true'',
       server @ ''.startup_timeout_sec=15'',
       server @ ''.tool_timeout_sec='' @ show_nat TOOL_TIMEOUT_SECONDS,
       server @ ''.enabled_tools='' @ quotedStringArray E WRAPPER_VISIBLE_TOOLS,
       server @ ''.default_tools_approval_mode='' @ quotedString E ''auto'',
       ''approval_policy='' @ quotedString E ''on-request''])"

definition or_env :: "string option \<Rightarrow> string \<Rightarrow> string" where
  "or_env v d = (case nonempty v of None \<Rightarrow> d | Some s \<Rightarrow> s)"

definition buildCodexInvocation :: "runtime \<Rightarrow> (string \<Rightarrow> string option) \<Rightarrow> WrapperOptions \<Rightarrow> string \<Rightarrow> ChildInvocation" where
  "buildCodexInvocation E env o' bridgeUrl =
     \<lparr>inv_command = or_env (env ''GPTQ_EXPERIMENT_CODEX_BIN'') ''codex'',
      inv_args = concat (map (\<lambda>entry. [''-c'', entry]) (codex_settings E bridgeUrl))
        @ [''exec'', ''--ignore-user-config'', ''--strict-config'', ''--skip-git-repo-check'', ''--ephemeral'', ''--approve-for-me'', ''-C'', wo_workspace o']
        @ model_args o' @ [registeredIdentityPrompt (wo_agent o') @ wo_prompt o']\<rparr>"

text \<open>\<open>path.dirname\<close> for POSIX paths.\<close>

definition path_dirname :: "string \<Rightarrow> string" where
  "path_dirname p =
     (case p of
        [] \<Rightarrow> ''.''
      | c # cs \<Rightarrow>
          let parent = rev (dropWhile (\<lambda>x. x \<noteq> slash) (dropWhile (\<lambda>x. x = slash) (rev cs))) in
          if parent = [] then (if c = slash then ''/'' else ''.'')
          else if c = slash \<and> length parent = 1 then ''//''
          else c # butlast parent)"

definition buildPiInvocation :: "string \<Rightarrow> (string \<Rightarrow> string option) \<Rightarrow> WrapperOptions \<Rightarrow> string \<Rightarrow> ChildInvocation" where
  "buildPiInvocation cwd env o' extensionPath =
     \<lparr>inv_command = or_env (env ''GPTQ_EXPERIMENT_PI_BIN'') ''pi'',
      inv_args = [''-p'', ''--offline'', ''--no-session'', ''--session-dir'', path_resolve (path_resolve cwd (path_dirname extensionPath)) ''pi-sessions'',
          ''--no-extensions'', ''--extension'', extensionPath, ''--no-builtin-tools'', ''--no-skills'', ''--no-prompt-templates'', ''--no-context-files'', ''--approve'']
        @ model_args o' @ [registeredIdentityPrompt (wo_agent o') @ wo_prompt o']\<rparr>"

end
