(* ===== verification/Wrapper_Run.thy ===== *)
theory Wrapper_Run
  imports Wrapper_Config
begin

text \<open>
  One run of the experimental wrapper, \<open>src/src/experimental-wrapper/index.ts\<close>, and the tool filter of
  \<open>pi-tools.ts\<close>. The operations the run composes are modelled elsewhere (the identity claim, the client, the
  bridge); here a run is given what each of them returns, with the signals and deadlines it meets, and yields
  what it does in order and the exit code. The file system is a parameter.
\<close>

section \<open>Workspaces\<close>

text \<open>\<open>path.relative\<close> on two absolute paths.\<close>

fun common_prefix :: "'a list \<Rightarrow> 'a list \<Rightarrow> nat" where
  "common_prefix (x # xs) (y # ys) = (if x = y then Suc (common_prefix xs ys) else 0)"
| "common_prefix _ _ = 0"

definition relative_segments :: "string list \<Rightarrow> string list \<Rightarrow> string list" where
  "relative_segments from to = replicate (length from - common_prefix from to) ''..'' @ drop (common_prefix from to) to"

definition path_relative :: "string \<Rightarrow> string \<Rightarrow> string \<Rightarrow> string" where
  "path_relative cwd from to = join_slash (relative_segments (resolve_segments cwd from) (resolve_segments cwd to))"

definition isInside :: "string \<Rightarrow> string \<Rightarrow> string \<Rightarrow> bool" where
  "isInside cwd root candidate =
     (let rel = path_relative cwd root candidate in
      rel = [] \<or> \<not> is_absolute rel \<and> rel \<noteq> ''..'' \<and> \<not> starts_with ''../'' rel)"

record wrapper_files =
  wf_cwd :: string
  wf_realpath :: "string \<Rightarrow> string option"
  wf_is_directory :: "string \<Rightarrow> bool"

definition requireWorkspaceInsideRepository :: "string \<Rightarrow> wrapper_files \<Rightarrow> string \<Rightarrow> exn + string" where
  "requireWorkspaceInsideRepository root fs workspace =
     (case wf_realpath fs root of
        None \<Rightarrow> Inl (JsError ''ENOENT'')
      | Some repository \<Rightarrow>
          (case wf_realpath fs workspace of
             None \<Rightarrow> Inl (JsError ''Workspace does not exist or is unreadable'')
           | Some candidate \<Rightarrow>
               if isInside (wf_cwd fs) repository candidate
               then if wf_is_directory fs candidate then Inr candidate else Inl (JsError ''Workspace does not exist or is not a directory'')
               else Inl (JsError ''Experimental workspace must remain inside the repository'')))"

section \<open>The child process\<close>

definition PRIVATE_PARENT_ENV :: "string list" where
  "PRIVATE_PARENT_ENV = [''GPTQ_SESSION_ID'', ''GPTQUEUE_HTTP_TOKEN'', ''REDIS_URL'']"

definition inheritedChildEnvironment :: "(string \<times> string) list \<Rightarrow> (string \<times> string) list" where
  "inheritedChildEnvironment env = filter (\<lambda>(name, _). name \<notin> set PRIVATE_PARENT_ENV) env"

definition child_environment :: "(string \<times> string) list \<Rightarrow> string \<Rightarrow> string \<Rightarrow> string \<Rightarrow> string option \<Rightarrow> (string \<times> string) list" where
  "child_environment env agent url token state =
     fold (\<lambda>(k, v). AList.update k v)
       ([(''GPTQ_AGENT_NAME'', agent), (''GPTQ_BRIDGE_URL'', url), (''GPTQ_BRIDGE_TOKEN'', token)]
        @ (case state of None \<Rightarrow> [] | Some d \<Rightarrow> [(''GPTQ_PI_ADAPTER_STATE_DIR'', d)]))
       (inheritedChildEnvironment env)"

record ChildOutcome =
  co_code :: "int option"
  co_signal :: "nat option"       \<comment> \<open>the number of the signal\<close>

definition exitCodeFor :: "ChildOutcome \<Rightarrow> int" where
  "exitCodeFor outcome = (case co_code outcome of Some c \<Rightarrow> c | None \<Rightarrow> (case co_signal outcome of Some s \<Rightarrow> 128 + int s | None \<Rightarrow> 1))"

definition finalExitCode :: "int \<Rightarrow> nat option \<Rightarrow> bool \<Rightarrow> int" where
  "finalExitCode childCode firstSignal cleanupFailed =
     (let signalled = exitCodeFor \<lparr>co_code = None, co_signal = firstSignal\<rparr> in
      if cleanupFailed then (if firstSignal \<noteq> None then signalled else 1)
      else if firstSignal \<noteq> None \<and> childCode = 0 then signalled
      else childCode)"

text \<open>
  Signals of the parent. The first one is remembered and passed on, with a timer that kills the child later; any
  further one kills it at once, or forces the cleanup when no child is running. Signals are numbers; 9 kills.
\<close>

definition SIGTERM :: nat where "SIGTERM = 15"

definition SIGKILL :: nat where "SIGKILL = 9"

record signal_state =
  sg_count :: nat
  sg_first :: "nat option"
  sg_forced :: bool
  sg_escalate :: bool             \<comment> \<open>the timer is armed\<close>
  sg_kills :: "nat list"          \<comment> \<open>signals sent to the child, newest first\<close>

definition forwardSignal :: "bool \<Rightarrow> nat \<Rightarrow> signal_state \<Rightarrow> signal_state" where
  "forwardSignal running s st0 =
     (let st = st0\<lparr>sg_count := sg_count st0 + 1, sg_first := (case sg_first st0 of None \<Rightarrow> Some s | Some f \<Rightarrow> Some f)\<rparr> in
      if \<not> running then (if 2 \<le> sg_count st then st\<lparr>sg_forced := True\<rparr> else st)
      else if sg_count st = 1 then st\<lparr>sg_kills := s # sg_kills st, sg_escalate := True\<rparr>
      else st\<lparr>sg_kills := SIGKILL # sg_kills st\<rparr>)"

definition escalate :: "bool \<Rightarrow> signal_state \<Rightarrow> signal_state" where
  "escalate running st =
     (if sg_escalate st then st\<lparr>sg_escalate := False, sg_kills := (if running then [SIGKILL] else []) @ sg_kills st\<rparr> else st)"

text \<open>What \<open>terminateChild\<close> sends, given whether the child runs and whether it exits within the grace period.\<close>

definition terminateChild :: "bool \<Rightarrow> bool \<Rightarrow> nat list" where
  "terminateChild running exits = (if \<not> running then [] else if exits then [SIGTERM] else [SIGTERM, SIGKILL])"

text \<open>
  The files of a wrapped Pi: where its adapter is expected, and what is written for it. Whether the adapter can
  be read and the extension written are parameters, as is the home directory.
\<close>

definition piAdapterEntry :: "(string \<Rightarrow> string option) \<Rightarrow> string \<Rightarrow> string" where
  "piAdapterEntry env home =
     or_env (env ''GPTQ_PI_MCP_ADAPTER_ENTRY'')
       (path_join [or_env (env ''PI_CODING_AGENT_DIR'') (path_join [home, ''.pi'', ''agent'']), ''npm'', ''node_modules'', ''pi-mcp-adapter'', ''index.ts''])"

record PiRuntimeFiles =
  pf_extensionPath :: string
  pf_adapterStateDirectory :: string

definition createPiExtension :: "runtime \<Rightarrow> (string \<Rightarrow> string option) \<Rightarrow> string \<Rightarrow> (string \<Rightarrow> bool) \<Rightarrow> (string \<Rightarrow> exn + unit) \<Rightarrow> string \<Rightarrow> string \<Rightarrow> exn + PiRuntimeFiles" where
  "createPiExtension E env home readable write workspace agent =
     (if \<not> readable (piAdapterEntry env home) then Inl (JsError ''The experiment requires an already-installed pi-mcp-adapter'')
      else let runtimeDir = path_join [workspace, ''.gptqueue-wrapper'', take 16 (sha256_hex E agent)];
               extensionPath = path_join [runtimeDir, ''pi-gptqueue-extension.ts''] in
           map_sum id (\<lambda>_. \<lparr>pf_extensionPath = extensionPath, pf_adapterStateDirectory = path_join [runtimeDir, ''pi-adapter-state'']\<rparr>) (write extensionPath))"

section \<open>Cleanup\<close>

datatype CleanupPhase = Phase_bridge | Phase_registration | Phase_claim | Phase_redis

text \<open>
  What one attempt meets at a phase: whether the connections are forced closed before it, whether there is
  nothing to release, and what the release returns, a warning included.
\<close>

record cleanup_env =
  ce_forced :: "CleanupPhase \<Rightarrow> bool"
  ce_absent :: "CleanupPhase \<Rightarrow> bool"
  ce_release :: "CleanupPhase \<Rightarrow> exn + exn option"

record cleanup_state =
  cu_released :: "CleanupPhase list"
  cu_failures :: "(CleanupPhase \<times> exn) list"
  cu_forced :: bool
  cu_calls :: "CleanupPhase list"          \<comment> \<open>releases attempted, newest first\<close>

definition forceCleanupConnections :: "cleanup_state \<Rightarrow> cleanup_state" where
  "forceCleanupConnections st = (if cu_forced st then st else st\<lparr>cu_forced := True, cu_released := List.insert Phase_redis (cu_released st)\<rparr>)"

fun phase_ready :: "CleanupPhase \<Rightarrow> bool \<Rightarrow> CleanupPhase list \<Rightarrow> bool" where
  "phase_ready Phase_claim final released = (Phase_registration \<in> set released \<or> final)"
| "phase_ready Phase_redis final released = (Phase_registration \<in> set released \<and> Phase_claim \<in> set released \<or> final)"
| "phase_ready _ final released = True"

fun abandonedMessage :: "CleanupPhase \<Rightarrow> exn option" where
  "abandonedMessage Phase_registration = Some (JsError ''Registration cleanup was abandoned after its deadline.'')"
| "abandonedMessage Phase_claim = Some (JsError ''Identity claim remains fail-closed after cleanup timeout.'')"
| "abandonedMessage _ = None"

definition release_phase :: "bool \<Rightarrow> cleanup_env \<Rightarrow> CleanupPhase \<Rightarrow> cleanup_state \<Rightarrow> cleanup_state" where
  "release_phase final env p st =
     (if p \<in> set (cu_released st) \<or> \<not> phase_ready p final (cu_released st) then st
      else if ce_absent env p then st\<lparr>cu_released := p # cu_released st\<rparr>
      else if abandonedMessage p \<noteq> None \<and> cu_forced st then st\<lparr>cu_failures := AList.update p (the (abandonedMessage p)) (cu_failures st)\<rparr>
      else (case ce_release env p of
              Inl e \<Rightarrow> st\<lparr>cu_calls := p # cu_calls st, cu_failures := AList.update p e (cu_failures st)\<rparr>
            | Inr warning \<Rightarrow> st\<lparr>cu_calls := p # cu_calls st, cu_released := p # cu_released st,
                cu_failures := (case warning of Some e \<Rightarrow> AList.update p e (cu_failures st) | None \<Rightarrow> AList.delete p (cu_failures st))\<rparr>))"

definition cleanup_step :: "bool \<Rightarrow> cleanup_env \<Rightarrow> CleanupPhase \<Rightarrow> cleanup_state \<Rightarrow> cleanup_state" where
  "cleanup_step final env p st = release_phase final env p (if ce_forced env p then forceCleanupConnections st else st)"

definition cleanup_attempt :: "bool \<Rightarrow> cleanup_env \<Rightarrow> cleanup_state \<Rightarrow> cleanup_state" where
  "cleanup_attempt final env = fold (cleanup_step final env) [Phase_bridge, Phase_registration, Phase_claim, Phase_redis]"

definition no_cleanup :: cleanup_state where
  "no_cleanup = \<lparr>cu_released = [], cu_failures = [], cu_forced = False, cu_calls = []\<rparr>"

definition cleanup_run :: "cleanup_env \<Rightarrow> cleanup_env \<Rightarrow> cleanup_state \<Rightarrow> cleanup_state" where
  "cleanup_run env1 env2 st =
     (let report = cleanup_attempt False env1 st in
      if cu_failures report \<noteq> [] then cleanup_attempt True env2 report else report)"

text \<open>
  What releasing the registration does, given the client and the claim: nothing, closing the session, or
  retiring the name under the claim. \<open>Inr (Some e)\<close> is a warning.
\<close>

datatype release_action = Release_nothing | Release_close | Release_retire string

definition releaseRegistration :: "bool \<Rightarrow> CleanupMode \<Rightarrow> bool \<Rightarrow> string option \<Rightarrow> exn + unit \<Rightarrow> (string \<Rightarrow> exn + bool) \<Rightarrow> release_action \<times> (exn + exn option)" where
  "releaseRegistration registered cleanup claimed session close retire =
     (if \<not> registered then (Release_nothing, Inr None)
      else if cleanup = Unregister_agent
      then (case nonempty session of
              Some sid \<Rightarrow>
                if claimed
                then (Release_retire sid, (case retire sid of
                        Inl e \<Rightarrow> Inl e
                      | Inr unregistered \<Rightarrow> Inr (if unregistered then None else Some (JsError ''Destructive cleanup skipped because the agent gained another active session.''))))
                else (Release_close, (case close of Inl e \<Rightarrow> Inl e | Inr _ \<Rightarrow> Inl (JsError ''Destructive cleanup skipped because exclusive session ownership was unavailable.'')))
            | None \<Rightarrow> (Release_close, (case close of Inl e \<Rightarrow> Inl e | Inr _ \<Rightarrow> Inl (JsError ''Destructive cleanup skipped because exclusive session ownership was unavailable.''))))
      else (Release_close, (case close of Inl e \<Rightarrow> Inl e | Inr _ \<Rightarrow> Inr None)))"

section \<open>The run\<close>

datatype wrapper_action =
    Act_claim string bool                  \<comment> \<open>agent, and whether it must be fresh\<close>
  | Act_register string
  | Act_verify string
  | Act_bridge string
  | Act_launch ChildInvocation string      \<comment> \<open>command and working directory\<close>
  | Act_cleanup

record wrapper_outcomes =
  out_claim :: "exn + unit"
  out_register :: "exn + string option"    \<comment> \<open>the session the client is bound to\<close>
  out_verify :: "exn + unit"
  out_bridge :: "exn + string"             \<comment> \<open>its URL\<close>
  out_extension :: "exn + PiRuntimeFiles"  \<comment> \<open>of \<open>createPiExtension\<close>\<close>
  out_signals :: "nat option \<times> nat option" \<comment> \<open>the first signal, when it is looked at before the launch\<close>
  out_files :: wrapper_files               \<comment> \<open>the file system just before the launch\<close>
  out_child :: "exn + ChildOutcome"

text \<open>The body of the \<open>try\<close> block, with the actions in order.\<close>

definition wrapper_launch :: "runtime \<Rightarrow> string \<Rightarrow> (string \<Rightarrow> string option) \<Rightarrow> WrapperOptions \<Rightarrow> wrapper_outcomes \<Rightarrow> string \<Rightarrow> (exn + int) \<times> wrapper_action list" where
  "wrapper_launch E root env o' out url =
     (case fst (out_signals out) of
        Some s \<Rightarrow> (Inr (exitCodeFor \<lparr>co_code = None, co_signal = Some s\<rparr>), [])
      | None \<Rightarrow>
          (case (if wo_client o' = Wrap_pi then map_sum id Some (out_extension out) else Inr None) of
             Inl e \<Rightarrow> (Inl e, [])
           | Inr extension \<Rightarrow>
               let invocation = (case extension of Some files \<Rightarrow> buildPiInvocation (wf_cwd (out_files out)) env o' (pf_extensionPath files) | None \<Rightarrow> buildCodexInvocation E env o' url) in
               (case requireWorkspaceInsideRepository root (out_files out) (wo_workspace o') of
                  Inl e \<Rightarrow> (Inl e, [])
                | Inr launchWorkspace \<Rightarrow>
                    (case snd (out_signals out) of
                       Some s \<Rightarrow> (Inr (exitCodeFor \<lparr>co_code = None, co_signal = Some s\<rparr>), [])
                     | None \<Rightarrow> (map_sum id exitCodeFor (out_child out), [Act_launch invocation launchWorkspace])))))"

definition wrapper_body :: "runtime \<Rightarrow> string \<Rightarrow> (string \<Rightarrow> string option) \<Rightarrow> WrapperOptions \<Rightarrow> wrapper_outcomes \<Rightarrow> (exn + int) \<times> wrapper_action list" where
  "wrapper_body E root env o' out =
     (let claim = Act_claim (wo_agent o') (wo_cleanup o' = Unregister_agent) in
      case out_claim out of
        Inl e \<Rightarrow> (Inl e, [claim])
      | Inr _ \<Rightarrow>
          (case out_register out of
             Inl e \<Rightarrow> (Inl e, [claim, Act_register (wo_agent o')])
           | Inr session \<Rightarrow>
               (case nonempty session of
                  None \<Rightarrow> (Inl (JsError ''Registration returned without a bound GPTQueue session.''), [claim, Act_register (wo_agent o')])
                | Some sid \<Rightarrow>
                    (case out_verify out of
                       Inl e \<Rightarrow> (Inl e, [claim, Act_register (wo_agent o'), Act_verify sid])
                     | Inr _ \<Rightarrow>
                         (case out_bridge out of
                            Inl e \<Rightarrow> (Inl e, [claim, Act_register (wo_agent o'), Act_verify sid, Act_bridge (wo_agent o')])
                          | Inr url \<Rightarrow>
                              (case wrapper_launch E root env o' out url of (r, actions) \<Rightarrow>
                                 (r, [claim, Act_register (wo_agent o'), Act_verify sid, Act_bridge (wo_agent o')] @ actions)))))))"

text \<open>
  The whole run: \<open>Inl\<close> where it throws, which the command line reports with exit code 1. The cleanup runs in
  either case; an error of the body is rethrown after it.
\<close>

definition runExperimentalWrapper :: "runtime \<Rightarrow> (string \<Rightarrow> (string \<times> string) option) \<Rightarrow> string \<Rightarrow> (string \<Rightarrow> string option) \<Rightarrow> wrapper_files \<Rightarrow> string list
    \<Rightarrow> wrapper_outcomes \<Rightarrow> cleanup_env \<Rightarrow> cleanup_env \<Rightarrow> nat option \<Rightarrow> (exn + int) \<times> wrapper_action list" where
  "runExperimentalWrapper E URL root env fs argv out cu1 cu2 firstSignal =
     (case parseWrapperArgs URL (wf_cwd fs) argv of
        Inl e \<Rightarrow> (Inl e, [])
      | Inr parsed \<Rightarrow>
          (case requireWorkspaceInsideRepository root fs (wo_workspace parsed) of
             Inl e \<Rightarrow> (Inl e, [])
           | Inr workspace \<Rightarrow>
               (case wrapper_body E root env (parsed\<lparr>wo_workspace := workspace\<rparr>) out of (r, actions) \<Rightarrow>
                  (map_sum id (\<lambda>childCode. finalExitCode childCode firstSignal (cu_failures (cleanup_run cu1 cu2 no_cleanup) \<noteq> [])) r, actions @ [Act_cleanup]))))"

definition runExperimentalWrapperCli :: "exn + int \<Rightarrow> int" where
  "runExperimentalWrapperCli r = (case r of Inr code \<Rightarrow> code | Inl _ \<Rightarrow> 1)"

section \<open>The tools of a wrapped Pi\<close>

definition sameTools :: "string list \<Rightarrow> string list \<Rightarrow> bool" where
  "sameTools actual allowed \<longleftrightarrow> length actual = length allowed \<and> list_all (\<lambda>name. name \<in> set actual) allowed"

text \<open>The names that pass the restricted interface.\<close>

definition restrictPiTools :: "string list \<Rightarrow> string list \<Rightarrow> string list" where
  "restrictPiTools allowed names = filter (\<lambda>name. name \<in> set allowed) names"

text \<open>
  The check before a turn: each observation is what is registered, and what is active once the allowed names
  have been set; the observations end with the deadline.
\<close>

fun requirePiTools :: "string list \<Rightarrow> (string list \<times> string list) list \<Rightarrow> exn + string list" where
  "requirePiTools allowed [] = Inl (JsError ''Pi messaging tools unavailable'')"
| "requirePiTools allowed ((registered, active) # later) =
     (if list_all (\<lambda>name. name \<in> set registered) allowed
      then if sameTools active allowed then Inr active else Inl (JsError ''Unexpected Pi active tools'')
      else requirePiTools allowed later)"

end
