(* ===== verification/Wrapper_Props.thy ===== *)
theory Wrapper_Props
  imports Wrapper_Run
begin

text \<open>
  What the experimental wrapper guarantees: the options it admits, the conditions under which it launches a
  program, and that it exits with success only after everything it took has been given back.
\<close>

section \<open>Options\<close>

lemma requireIsolatedRedis_Inr: "requireIsolatedRedis URL u = Inr v \<longleftrightarrow> v = u \<and> (\<exists>n. redisDatabase URL u = Inr n \<and> 0 < n)"
  by (auto simp: requireIsolatedRedis_def split: sum.splits if_splits)

definition safe_options :: "(string \<Rightarrow> (string \<times> string) option) \<Rightarrow> WrapperOptions \<Rightarrow> bool" where
  "safe_options URL o' \<longleftrightarrow> (\<exists>n. redisDatabase URL (wo_redisUrl o') = Inr n \<and> 0 < n)
     \<and> (wo_cleanup o' = Unregister_agent \<longrightarrow> starts_with DISPOSABLE_AGENT_PREFIX (wo_agent o'))
     \<and> wo_agent o' \<noteq> [] \<and> (\<forall>c \<in> set (wo_agent o'). \<not> control_char c) \<and> wo_prompt o' \<noteq> []"

lemma parsed_safe: "parseWrapperArgs URL cwd argv = Inr o' \<Longrightarrow> safe_options URL o' \<and> is_absolute (wo_workspace o')"
  by (auto simp: parseWrapperArgs_def safe_options_def requireSafeAgentName_def requireIsolatedRedis_Inr path_resolve_def list_ex_iff Let_def
      split: option.splits sum.splits if_splits prod.splits list.splits)

text \<open>The command line that spells the options out.\<close>

definition options_argv :: "WrapperOptions \<Rightarrow> string list" where
  "options_argv o' = [client_name (wo_client o'), ''--agent'', wo_agent o', ''--description'', wo_description o', ''--workspace'', wo_workspace o',
     ''--redis-url'', wo_redisUrl o', ''--cleanup'', (if wo_cleanup o' = Unregister_agent then ''unregister'' else ''close'')]
     @ (case wo_model o' of None \<Rightarrow> [] | Some m \<Rightarrow> [''--model'', m]) @ [''--'', wo_prompt o']"

definition plain_value :: "string \<Rightarrow> bool" where
  "plain_value v \<longleftrightarrow> v \<noteq> [] \<and> \<not> starts_with ''--'' v"

definition spellable :: "string \<Rightarrow> WrapperOptions \<Rightarrow> bool" where
  "spellable cwd o' \<longleftrightarrow> list_all plain_value [wo_agent o', wo_description o', wo_workspace o', wo_redisUrl o'] \<and> (\<forall>m. wo_model o' = Some m \<longrightarrow> plain_value m)
     \<and> trim (wo_agent o') = wo_agent o' \<and> trim (wo_prompt o') = wo_prompt o' \<and> path_resolve cwd (wo_workspace o') = wo_workspace o'"

lemma readValue_plain: "plain_value v \<Longrightarrow> readValue (Some v) = Inr v"
  by (cases v) (simp_all add: readValue_def plain_value_def nonempty_def)

lemma parse_known: "known_option t \<Longrightarrow> plain_value v \<Longrightarrow> set_option t v st = Inr st' \<Longrightarrow> parseOptions (t # v # rest) st = parseOptions rest st'"
  by (auto simp: readValue_plain known_option_def)

lemma spelled_parses:
  assumes a: "safe_options URL o'" "spellable cwd o'"
  shows "parseWrapperArgs URL cwd (options_argv o') = Inr o'"
proof -
  let ?c = "if wo_cleanup o' = Unregister_agent then ''unregister'' else ''close''"
  let ?st = "\<lparr>ps_agent = Some (wo_agent o'), ps_description = Some (wo_description o'), ps_workspace = Some (wo_workspace o'),
     ps_redisUrl = Some (wo_redisUrl o'), ps_cleanup = Some (wo_cleanup o'), ps_model = wo_model o'\<rparr>"
  have p: "plain_value (wo_agent o')" "plain_value (wo_description o')" "plain_value (wo_workspace o')" "plain_value (wo_redisUrl o')" "plain_value ?c"
    "wo_model o' = Some m \<Longrightarrow> plain_value m" for m
    using a by (simp_all add: spellable_def plain_value_def starts_with_def)
  have known: "known_option ''--agent''" "known_option ''--description''" "known_option ''--workspace''" "known_option ''--redis-url''"
    "known_option ''--cleanup''" "known_option ''--model''" by (simp_all add: known_option_def)
  have c: "set_option ''--cleanup'' ?c st = Inr (st\<lparr>ps_cleanup := Some (wo_cleanup o')\<rparr>)" for st
    by (cases "wo_cleanup o'") (simp_all add: set_option_def)
  have others: "set_option ''--agent'' v st = Inr (st\<lparr>ps_agent := Some v\<rparr>)" "set_option ''--description'' v st = Inr (st\<lparr>ps_description := Some v\<rparr>)"
    "set_option ''--workspace'' v st = Inr (st\<lparr>ps_workspace := Some v\<rparr>)" "set_option ''--redis-url'' v st = Inr (st\<lparr>ps_redisUrl := Some v\<rparr>)"
    "set_option ''--model'' v st = Inr (st\<lparr>ps_model := Some v\<rparr>)" for v st by (simp_all add: set_option_def)
  have parse: "parseOptions (tl (options_argv o')) \<lparr>ps_agent = None, ps_description = None, ps_workspace = None, ps_redisUrl = None, ps_cleanup = None, ps_model = None\<rparr>
      = Inr (?st, [wo_prompt o'])"
    using p(6) by (cases "wo_model o'")
      (simp_all add: options_argv_def parse_known[OF known(1) p(1) others(1)] parse_known[OF known(2) p(2) others(2)] parse_known[OF known(3) p(3) others(3)]
        parse_known[OF known(4) p(4) others(4)] parse_known[OF known(5) p(5) c] parse_known[OF known(6) _ others(5)] del: parseOptions.simps(3), simp_all)
  obtain rest where argv: "options_argv o' = client_name (wo_client o') # rest" by (simp add: options_argv_def)
  have client: "wrapped_client (client_name (wo_client o')) = Some (wo_client o')" by (cases "wo_client o'") simp_all
  have model: "nonempty (wo_model o') = wo_model o'" "nonempty (Some (wo_workspace o')) = Some (wo_workspace o')"
    using p(3,6) by (auto simp: nonempty_def plain_value_def split: option.splits list.splits)
  have name: "requireSafeAgentName (Some (wo_agent o')) = Inr (wo_agent o')"
    using a by (simp add: requireSafeAgentName_def safe_options_def spellable_def list_ex_iff)
  have redis: "requireIsolatedRedis URL (wo_redisUrl o') = Inr (wo_redisUrl o')" using a by (simp add: requireIsolatedRedis_Inr safe_options_def)
  show ?thesis
    using a parse unfolding argv
    by (simp add: parseWrapperArgs_def client model name redis join_words_def or_text_def safe_options_def spellable_def Let_def del: wrapped_client.simps)
qed

text \<open>
  (C35) Options survive being spelled out and parsed again. A command line that spells out safe options parses
  to exactly these options, and whatever a command line parses to is safe: it names a Redis database other than
  0, an agent without control characters and a prompt, and it asks for destructive cleanup only for an agent
  whose name marks it as disposable.
\<close>

theorem options_roundtrip:
  "(safe_options URL o' \<and> spellable cwd o' \<longrightarrow> parseWrapperArgs URL cwd (options_argv o') = Inr o')
   \<and> (parseWrapperArgs URL cwd argv = Inr p \<longrightarrow> safe_options URL p \<and> is_absolute (wo_workspace p))"
  using spelled_parses parsed_safe by blast

section \<open>Workspaces\<close>

lemma drop_common_prefix: "prefix xs ys \<longleftrightarrow> length xs - common_prefix xs ys = 0"
  by (induction xs ys rule: common_prefix.induct) (auto simp: prefix_def)

lemma replicate_up: "join_slash (replicate (Suc n) ''..'' @ xs) = (if n = 0 \<and> xs = [] then ''..'' else ''../'' @ join_slash (replicate n ''..'' @ xs))"
  by (cases n) simp_all

lemma normal_not_up:
  assumes "normal_segments xs" and "xs \<noteq> []"
  shows "\<not> is_absolute (join_slash xs) \<and> join_slash xs \<noteq> ''..'' \<and> \<not> starts_with ''../'' (join_slash xs)"
proof -
  have split: "split_path (join_slash xs) = xs" by (rule split_join[OF assms])
  have "hd xs \<noteq> [] \<and> hd xs \<noteq> ''..''" using assms by (cases xs) (simp_all add: normal_segments_def)
  moreover have "hd (split_path t) = []" if "is_absolute t" for t using that by (cases t) (simp_all add: is_absolute_def starts_with_def split: list.splits)
  moreover have "hd (split_path t) = ''..''" if "starts_with ''../'' t" for t
    using that unfolding starts_with_iff by (auto split: list.splits)
  moreover have "hd (split_path ''..'') = ''..''" by simp
  ultimately show ?thesis using split by metis
qed

text \<open>The textual test on the relative path decides whether the directory lies at or below the root.\<close>

lemma isInside_prefix: "isInside cwd root candidate \<longleftrightarrow> prefix (resolve_segments cwd root) (resolve_segments cwd candidate)"
proof (cases "length (resolve_segments cwd root) - common_prefix (resolve_segments cwd root) (resolve_segments cwd candidate)")
  case 0
  let ?ys = "drop (common_prefix (resolve_segments cwd root) (resolve_segments cwd candidate)) (resolve_segments cwd candidate)"
  have "normal_segments ?ys" using resolve_segments_normal[of cwd candidate] by (auto simp: normal_segments_def list_all_iff dest: in_set_dropD)
  then have "isInside cwd root candidate"
    using normal_not_up[of ?ys] 0 by (cases "?ys = []") (simp_all add: isInside_def path_relative_def relative_segments_def Let_def del: drop_eq_Nil)
  then show ?thesis using 0 by (simp add: drop_common_prefix)
next
  case (Suc n)
  let ?rel = "path_relative cwd root candidate"
  have "?rel = ''..'' \<or> starts_with ''../'' ?rel"
    unfolding path_relative_def relative_segments_def Suc replicate_up by (auto simp: starts_with_iff)
  then have "\<not> isInside cwd root candidate" by (auto simp: isInside_def Let_def starts_with_iff)
  then show ?thesis using Suc by (simp add: drop_common_prefix)
qed

lemma workspace_inside:
  "requireWorkspaceInsideRepository root fs w = Inr d \<Longrightarrow>
   \<exists>repository. wf_realpath fs root = Some repository \<and> wf_realpath fs w = Some d \<and> wf_is_directory fs d
     \<and> prefix (resolve_segments (wf_cwd fs) repository) (resolve_segments (wf_cwd fs) d)"
  by (auto simp: requireWorkspaceInsideRepository_def isInside_prefix split: option.splits if_splits)

section \<open>Cleanup\<close>

abbreviation failed_phases :: "cleanup_state \<Rightarrow> CleanupPhase set" where
  "failed_phases st \<equiv> fst ` set (cu_failures st)"

lemma dom_update: "fst ` set (AList.update k v xs) = insert k (fst ` set xs)"
  using dom_update[of k v xs] by (simp add: dom_map_of_conv_image_fst image_image)

lemma dom_delete: "fst ` set (AList.delete k xs) = fst ` set xs - {k}"
  by (auto simp: AList.delete_eq image_iff)

lemma force_effect: "cu_failures (if f then forceCleanupConnections st else st) = cu_failures st"
  "set (cu_released st) \<subseteq> set (cu_released (if f then forceCleanupConnections st else st))"
  by (auto simp: forceCleanupConnections_def)

lemma release_effect: "set (cu_released st) \<subseteq> set (cu_released (release_phase final env p st))"
  "q \<notin> failed_phases (release_phase final env p st) \<Longrightarrow> q \<noteq> p \<Longrightarrow> q \<notin> failed_phases st"
  "p \<in> set (cu_released (release_phase final env p st)) \<or> p \<in> failed_phases (release_phase final env p st)
   \<or> \<not> phase_ready p final (cu_released (release_phase final env p st))"
  by (simp_all add: release_phase_def dom_update dom_delete split: sum.splits option.splits if_splits) blast?

lemma step_grows: "set (cu_released st) \<subseteq> set (cu_released (cleanup_step final env p st))"
  using force_effect(2) release_effect(1) unfolding cleanup_step_def by (rule subset_trans)

lemma step_keeps_failures: "q \<notin> failed_phases (cleanup_step final env p st) \<Longrightarrow> q \<noteq> p \<Longrightarrow> q \<notin> failed_phases st"
  unfolding cleanup_step_def by (drule release_effect(2)) (simp_all add: force_effect(1))

lemma step_done:
  "p \<in> set (cu_released (cleanup_step final env p st)) \<or> p \<in> failed_phases (cleanup_step final env p st)
   \<or> \<not> phase_ready p final (cu_released (cleanup_step final env p st))"
  unfolding cleanup_step_def by (rule release_effect(3))

text \<open>After an attempt that reports nothing, every phase has been released.\<close>

lemma attempt_complete:
  assumes "cu_failures (cleanup_attempt final env st) = []"
  shows "p \<in> set (cu_released (cleanup_attempt final env st))"
proof -
  define a where "a = cleanup_step final env Phase_bridge st"
  define b where "b = cleanup_step final env Phase_registration a"
  define c where "c = cleanup_step final env Phase_claim b"
  define d where "d = cleanup_step final env Phase_redis c"
  have attempt: "cleanup_attempt final env st = d" by (simp add: cleanup_attempt_def a_def b_def c_def d_def)
  have grows: "set (cu_released a) \<subseteq> set (cu_released b)" "set (cu_released b) \<subseteq> set (cu_released c)" "set (cu_released c) \<subseteq> set (cu_released d)"
    unfolding b_def c_def d_def by (rule step_grows)+
  have none: "failed_phases d = {}" using assms attempt by simp
  have c: "q \<noteq> Phase_redis \<Longrightarrow> q \<notin> failed_phases c" for q using step_keeps_failures[of q final env Phase_redis c] none unfolding d_def[symmetric] by simp
  have b: "q \<noteq> Phase_redis \<Longrightarrow> q \<noteq> Phase_claim \<Longrightarrow> q \<notin> failed_phases b" for q
    using step_keeps_failures[of q final env Phase_claim b] c[of q] unfolding c_def[symmetric] by simp
  have a: "Phase_bridge \<notin> failed_phases a"
    using step_keeps_failures[of Phase_bridge final env Phase_registration a] b[of Phase_bridge] unfolding b_def[symmetric] by simp
  note failed = a b[of Phase_registration] c[of Phase_claim]
  have "Phase_bridge \<in> set (cu_released a)" using step_done[of Phase_bridge final env st] failed(1) unfolding a_def[symmetric] by simp
  moreover have reg: "Phase_registration \<in> set (cu_released b)" using step_done[of Phase_registration final env a] failed(2) unfolding b_def[symmetric] by simp
  moreover have claim: "Phase_claim \<in> set (cu_released c)" using step_done[of Phase_claim final env b] failed(3) reg grows(2) unfolding c_def[symmetric] by auto
  moreover have "Phase_redis \<in> set (cu_released d)" using step_done[of Phase_redis final env c] none reg claim grows unfolding d_def[symmetric] by auto
  ultimately show ?thesis using grows unfolding attempt by (cases p) auto
qed

lemma run_complete: "cu_failures (cleanup_run env1 env2 st) = [] \<Longrightarrow> p \<in> set (cu_released (cleanup_run env1 env2 st))"
  using attempt_complete[of False env1 st] attempt_complete[of True env2 "cleanup_attempt False env1 st"]
  by (simp add: cleanup_run_def Let_def split: if_splits)

section \<open>Launches and exit codes\<close>

lemma exitCodeFor_zero: "exitCodeFor outcome = 0 \<longleftrightarrow> co_code outcome = Some 0"
  by (auto simp: exitCodeFor_def split: option.splits)

lemma finalExitCode_zero: "finalExitCode c s failed = 0 \<longleftrightarrow> c = 0 \<and> s = None \<and> \<not> failed"
  by (auto simp: finalExitCode_def Let_def exitCodeFor_def split: option.splits)

text \<open>What holds when the body of a run launches a program.\<close>

definition launched :: "string \<Rightarrow> WrapperOptions \<Rightarrow> wrapper_outcomes \<Rightarrow> string \<Rightarrow> bool" where
  "launched root o' out d \<longleftrightarrow> out_claim out = Inr () \<and> out_verify out = Inr () \<and> (\<exists>url. out_bridge out = Inr url)
     \<and> (\<exists>repository. wf_realpath (out_files out) root = Some repository \<and> wf_realpath (out_files out) (wo_workspace o') = Some d
          \<and> wf_is_directory (out_files out) d \<and> prefix (resolve_segments (wf_cwd (out_files out)) repository) (resolve_segments (wf_cwd (out_files out)) d))"

lemma launch_cases:
  obtains (none) r where "wrapper_launch E root env o' out url = (r, [])" and "\<And>c. r = Inr c \<Longrightarrow> c \<noteq> 0"
    | (launch) call d where "wrapper_launch E root env o' out url = (map_sum id exitCodeFor (out_child out), [Act_launch call d])"
        and "requireWorkspaceInsideRepository root (out_files out) (wo_workspace o') = Inr d"
  by (cases "fst (out_signals out)"; cases "if wo_client o' = Wrap_pi then map_sum id Some (out_extension out) else Inr None";
      cases "requireWorkspaceInsideRepository root (out_files out) (wo_workspace o')"; cases "snd (out_signals out)")
    (simp_all add: wrapper_launch_def exitCodeFor_def Let_def)


lemma body_cases:
  obtains (none) r where "fst (wrapper_body E root env o' out) = r" and "\<And>c. r = Inr c \<Longrightarrow> c \<noteq> 0"
      and "\<And>call d. Act_launch call d \<notin> set (snd (wrapper_body E root env o' out))"
    | (launch) sid call d where "wrapper_body E root env o' out = (map_sum id exitCodeFor (out_child out),
          [Act_claim (wo_agent o') (wo_cleanup o' = Unregister_agent), Act_register (wo_agent o'), Act_verify sid, Act_bridge (wo_agent o'), Act_launch call d])"
        and "out_register out = Inr (Some sid)" and "launched root o' out d"
proof (cases "\<exists>sid url. out_claim out = Inr () \<and> out_register out = Inr (Some sid) \<and> sid \<noteq> [] \<and> out_verify out = Inr () \<and> out_bridge out = Inr url")
  case True
  then obtain sid url where r: "out_claim out = Inr ()" "out_register out = Inr (Some sid)" "sid \<noteq> []" "out_verify out = Inr ()" "out_bridge out = Inr url" by blast
  have ne: "nonempty (Some sid) = Some sid" using r(3) by (cases sid) (simp_all add: nonempty_def)
  note body = wrapper_body_def Let_def r ne
  show ?thesis
  proof (rule launch_cases[of E root env o' out url])
    fix r assume "wrapper_launch E root env o' out url = (r, [])" and "\<And>c. r = Inr c \<Longrightarrow> c \<noteq> 0"
    then show ?thesis by (intro none) (simp_all add: body)
  next
    fix call d assume "wrapper_launch E root env o' out url = (map_sum id exitCodeFor (out_child out), [Act_launch call d])"
      and ws: "requireWorkspaceInsideRepository root (out_files out) (wo_workspace o') = Inr d"
    then show ?thesis using workspace_inside[OF ws] by (intro launch[of sid call d]) (simp_all add: body launched_def)
  qed
next
  case False
  have "(\<forall>c. fst (wrapper_body E root env o' out) \<noteq> Inr c) \<and> (\<forall>call d. Act_launch call d \<notin> set (snd (wrapper_body E root env o' out)))"
    using False by (auto simp: wrapper_body_def Let_def nonempty_def split: sum.splits option.splits list.splits)
  then show ?thesis by (intro none[of "fst (wrapper_body E root env o' out)"]) simp_all
qed

lemma run_cases:
  assumes "snd (runExperimentalWrapper E URL root env fs argv out cu1 cu2 firstSignal) \<noteq> []"
  obtains parsed w where "parseWrapperArgs URL (wf_cwd fs) argv = Inr parsed" and "requireWorkspaceInsideRepository root fs (wo_workspace parsed) = Inr w"
    and "runExperimentalWrapper E URL root env fs argv out cu1 cu2 firstSignal =
      (map_sum id (\<lambda>c. finalExitCode c firstSignal (cu_failures (cleanup_run cu1 cu2 no_cleanup) \<noteq> []))
         (fst (wrapper_body E root env (parsed\<lparr>wo_workspace := w\<rparr>) out)), snd (wrapper_body E root env (parsed\<lparr>wo_workspace := w\<rparr>) out) @ [Act_cleanup])"
  using assms by (simp add: runExperimentalWrapper_def split: sum.splits prod.splits)

text \<open>
  (C36) Nothing is launched unguarded. When a run of the wrapper starts a program, its arguments were safe; the
  name was claimed, fresh if it is to be retired, before it was registered; the registration was bound to a
  session that was verified to be the only one, and the bridge was up. All of that happened once and in this
  order, cleanup follows, and at the moment of the launch the working directory was the real path of an
  existing directory at or below the repository's.
\<close>

theorem launch_guarded:
  assumes "runExperimentalWrapper E URL root env fs argv out cu1 cu2 firstSignal = (r, actions)" and "Act_launch call d \<in> set actions"
  shows "\<exists>parsed w sid. parseWrapperArgs URL (wf_cwd fs) argv = Inr parsed \<and> safe_options URL parsed
    \<and> requireWorkspaceInsideRepository root fs (wo_workspace parsed) = Inr w
    \<and> actions = [Act_claim (wo_agent parsed) (wo_cleanup parsed = Unregister_agent), Act_register (wo_agent parsed), Act_verify sid,
        Act_bridge (wo_agent parsed), Act_launch call d, Act_cleanup]
    \<and> out_register out = Inr (Some sid) \<and> launched root (parsed\<lparr>wo_workspace := w\<rparr>) out d"
proof -
  have "snd (runExperimentalWrapper E URL root env fs argv out cu1 cu2 firstSignal) \<noteq> []" using assms by auto
  then obtain parsed w where p: "parseWrapperArgs URL (wf_cwd fs) argv = Inr parsed" and w: "requireWorkspaceInsideRepository root fs (wo_workspace parsed) = Inr w"
    and run: "actions = snd (wrapper_body E root env (parsed\<lparr>wo_workspace := w\<rparr>) out) @ [Act_cleanup]"
    by (rule run_cases) (use assms(1) in simp)
  show ?thesis
  proof (rule body_cases[of E root env "parsed\<lparr>wo_workspace := w\<rparr>" out])
    fix sid call' d'
    assume "wrapper_body E root env (parsed\<lparr>wo_workspace := w\<rparr>) out = (map_sum id exitCodeFor (out_child out),
        [Act_claim (wo_agent (parsed\<lparr>wo_workspace := w\<rparr>)) (wo_cleanup (parsed\<lparr>wo_workspace := w\<rparr>) = Unregister_agent),
         Act_register (wo_agent (parsed\<lparr>wo_workspace := w\<rparr>)), Act_verify sid, Act_bridge (wo_agent (parsed\<lparr>wo_workspace := w\<rparr>)), Act_launch call' d'])"
      and "out_register out = Inr (Some sid)" and "launched root (parsed\<lparr>wo_workspace := w\<rparr>) out d'"
    then show ?thesis using assms(2) p w parsed_safe[OF p] unfolding run by (intro exI[of _ parsed] exI[of _ w] exI[of _ sid]) simp
  qed (use assms(2) run in simp)
qed

text \<open>
  (C37) Success means that everything was given back. If the command line exits with 0, the program was launched
  and exited with 0, no signal had been received, and the cleanup released the bridge, the registration, the
  identity claim and the connection, in one attempt or two, and reported no failure and no warning.
\<close>

theorem success_is_complete:
  assumes "runExperimentalWrapper E URL root env fs argv out cu1 cu2 firstSignal = (r, actions)" and "runExperimentalWrapperCli r = 0"
  shows "(\<exists>call d. Act_launch call d \<in> set actions) \<and> (\<exists>outcome. out_child out = Inr outcome \<and> co_code outcome = Some 0) \<and> firstSignal = None
    \<and> cu_failures (cleanup_run cu1 cu2 no_cleanup) = [] \<and> set [Phase_bridge, Phase_registration, Phase_claim, Phase_redis] \<subseteq> set (cu_released (cleanup_run cu1 cu2 no_cleanup))"
proof -
  obtain code where r: "r = Inr code" "code = 0" using assms(2) by (cases r) (simp_all add: runExperimentalWrapperCli_def)
  then have "snd (runExperimentalWrapper E URL root env fs argv out cu1 cu2 firstSignal) \<noteq> []"
    using assms(1) by (auto simp: runExperimentalWrapper_def split: sum.splits prod.splits)
  then obtain parsed w where run: "r = map_sum id (\<lambda>c. finalExitCode c firstSignal (cu_failures (cleanup_run cu1 cu2 no_cleanup) \<noteq> []))
         (fst (wrapper_body E root env (parsed\<lparr>wo_workspace := w\<rparr>) out))" "actions = snd (wrapper_body E root env (parsed\<lparr>wo_workspace := w\<rparr>) out) @ [Act_cleanup]"
    by (rule run_cases) (use assms(1) in simp)
  then obtain c where c: "fst (wrapper_body E root env (parsed\<lparr>wo_workspace := w\<rparr>) out) = Inr c"
    "finalExitCode c firstSignal (cu_failures (cleanup_run cu1 cu2 no_cleanup) \<noteq> []) = 0"
    using r by (cases "fst (wrapper_body E root env (parsed\<lparr>wo_workspace := w\<rparr>) out)") simp_all
  then have fine: "c = 0" "firstSignal = None" "cu_failures (cleanup_run cu1 cu2 no_cleanup) = []" by (simp_all add: finalExitCode_zero)
  have "(\<exists>call d. Act_launch call d \<in> set actions) \<and> (\<exists>outcome. out_child out = Inr outcome \<and> co_code outcome = Some 0)"
    by (rule body_cases[of E root env "parsed\<lparr>wo_workspace := w\<rparr>" out]; cases "out_child out") (use c(1) fine(1) run(2) exitCodeFor_zero in auto)
  then show ?thesis using fine run_complete[OF fine(3)] by auto
qed

section \<open>What the child is given\<close>

lemma fold_update: "map_of (fold (\<lambda>(k, v). AList.update k v) kvs xs) = map_of xs ++ map_of (rev kvs)"
  by (induction kvs arbitrary: xs) (auto simp: update_conv' map_add_def fun_eq_iff split: option.splits)

text \<open>The session, the server's token and the Redis address of the parent are withheld, and the bridge is the one that was started.\<close>

lemma private_withheld: "name \<in> set PRIVATE_PARENT_ENV \<Longrightarrow> map_of (child_environment env agent url token d) name = None"
  "map_of (child_environment env agent url token d) ''GPTQ_BRIDGE_TOKEN'' = Some token"
proof -
  have "name \<in> set PRIVATE_PARENT_ENV \<Longrightarrow> map_of (inheritedChildEnvironment env) name = None"
    by (auto simp: inheritedChildEnvironment_def map_of_eq_None_iff)
  then show "name \<in> set PRIVATE_PARENT_ENV \<Longrightarrow> map_of (child_environment env agent url token d) name = None"
    unfolding child_environment_def fold_update PRIVATE_PARENT_ENV_def by (cases d) auto
  show "map_of (child_environment env agent url token d) ''GPTQ_BRIDGE_TOKEN'' = Some token"
    unfolding child_environment_def fold_update by (cases d) simp_all
qed

text \<open>A Pi session that passes the check has exactly the allowed tools active.\<close>

lemma sameTools_set: "distinct allowed \<Longrightarrow> sameTools active allowed \<Longrightarrow> set active = set allowed \<and> distinct active"
  by (metis sameTools_def list_all_iff subsetI card_distinct card_length card_mono card_subset_eq distinct_card finite_set le_antisym)

lemma pi_tools_exact: "requirePiTools WRAPPER_VISIBLE_TOOLS observations = Inr active \<Longrightarrow> set active = set WRAPPER_VISIBLE_TOOLS \<and> distinct active"
proof (induction observations)
  case (Cons o' rest)
  have "distinct WRAPPER_VISIBLE_TOOLS" by (simp add: WRAPPER_VISIBLE_TOOLS_def)
  from Cons sameTools_set[OF this] show ?case by (cases o') (simp split: if_splits)
qed simp

text \<open>The identity claim is let go in a first attempt only once the registration is gone, so no other wrapper can take the name before.\<close>

lemma release_calls: "set (cu_calls (release_phase final env p st)) \<subseteq> insert p (set (cu_calls st))"
  by (auto simp: release_phase_def split: sum.splits)

lemma step_calls: "q \<in> set (cu_calls (cleanup_step final env p st)) \<Longrightarrow> q \<noteq> p \<Longrightarrow> q \<in> set (cu_calls st)"
  using release_calls[of final env p "if ce_forced env p then forceCleanupConnections st else st"]
  by (auto simp: cleanup_step_def forceCleanupConnections_def split: if_splits)

lemma claim_call: "Phase_claim \<in> set (cu_calls (cleanup_step False env Phase_claim st)) \<Longrightarrow> Phase_claim \<notin> set (cu_calls st) \<Longrightarrow>
    Phase_registration \<in> set (cu_released (cleanup_step False env Phase_claim st))"
  by (cases "ce_forced env Phase_claim")
    (auto simp: cleanup_step_def release_phase_def forceCleanupConnections_def split: if_splits sum.splits)

lemma claim_after_registration:
  assumes "Phase_claim \<in> set (cu_calls (cleanup_attempt False env st))" and "Phase_claim \<notin> set (cu_calls st)"
  shows "Phase_registration \<in> set (cu_released (cleanup_attempt False env st))"
proof -
  define b where "b = cleanup_step False env Phase_registration (cleanup_step False env Phase_bridge st)"
  have att: "cleanup_attempt False env st = cleanup_step False env Phase_redis (cleanup_step False env Phase_claim b)" by (simp add: cleanup_attempt_def b_def)
  have "Phase_claim \<in> set (cu_calls (cleanup_step False env Phase_claim b))" using assms(1) step_calls unfolding att by blast
  moreover have "Phase_claim \<notin> set (cu_calls b)" using assms(2) step_calls unfolding b_def by blast
  ultimately show ?thesis using claim_call step_grows unfolding att by blast
qed

section \<open>Signals\<close>

text \<open>The exit code is decided by the first signal, whatever follows; a second signal kills a running child or forces the cleanup.\<close>

lemma forward_first: "sg_first (forwardSignal running s st) = (case sg_first st of None \<Rightarrow> Some s | Some f \<Rightarrow> Some f)"
  by (cases "sg_first st") (simp_all add: forwardSignal_def Let_def)

lemma first_signal_kept: "sg_first (fold (\<lambda>(running, s). forwardSignal running s) signals st)
    = (case sg_first st of Some f \<Rightarrow> Some f | None \<Rightarrow> map_option snd (case signals of [] \<Rightarrow> None | x # _ \<Rightarrow> Some x))"
  by (induction signals arbitrary: st) (auto simp: forward_first split: option.splits list.splits)

lemma second_signal: "0 < sg_count st \<Longrightarrow> sg_forced (forwardSignal False s st) \<and> hd (sg_kills (forwardSignal True s st)) = SIGKILL"
  by (simp add: forwardSignal_def Let_def)

section \<open>Witnesses\<close>

definition demo_url :: "string \<Rightarrow> (string \<times> string) option" where
  "demo_url t = (if t = ''redis://h/3'' then Some (''redis:'', ''/3'') else None)"

definition demo_options :: WrapperOptions where
  "demo_options = \<lparr>wo_client = Wrap_pi, wo_agent = ''gptqueue-experiment-a'', wo_description = ''d'', wo_workspace = ''/r/w'', wo_redisUrl = ''redis://h/3'',
     wo_cleanup = Unregister_agent, wo_model = Some ''m'', wo_prompt = ''hi''\<rparr>"

definition demo_files :: wrapper_files where
  "demo_files = \<lparr>wf_cwd = ''/r'', wf_realpath = Some, wf_is_directory = \<lambda>_. True\<rparr>"

definition demo_outcomes :: wrapper_outcomes where
  "demo_outcomes = \<lparr>out_claim = Inr (), out_register = Inr (Some ''s''), out_verify = Inr (), out_bridge = Inr ''u'', out_extension = Inr \<lparr>pf_extensionPath = ''/t/x'', pf_adapterStateDirectory = ''/t/s''\<rparr>,
     out_signals = (None, None), out_files = demo_files, out_child = Inr \<lparr>co_code = Some 0, co_signal = None\<rparr>\<rparr>"

definition demo_cleanup :: cleanup_env where
  "demo_cleanup = \<lparr>ce_forced = \<lambda>_. False, ce_absent = \<lambda>_. False, ce_release = \<lambda>_. Inr None\<rparr>"

lemma demo_spelled: "safe_options demo_url demo_options" "spellable ''/r'' demo_options"
  by (simp_all add: safe_options_def spellable_def plain_value_def demo_options_def redisDatabase_def demo_url_def starts_with_def decimal_def is_digit_def
      DISPOSABLE_AGENT_PREFIX_def control_char_def trim_def is_space_def path_resolve_def resolve_segments_def is_absolute_def norm_segments_def norm_step_def
      absolute_text_def nat_of_digits_def digit_val_def Let_def)

lemma demo_parse: "parseWrapperArgs demo_url ''/r'' (options_argv demo_options) = Inr demo_options"
  by (rule spelled_parses[OF demo_spelled])

lemma demo_workspace: "requireWorkspaceInsideRepository ''/r'' demo_files ''/r/w'' = Inr ''/r/w''"
  by code_simp

lemma demo_done: "cu_failures (cleanup_run demo_cleanup demo_cleanup no_cleanup) = []"
  by code_simp

lemma demo_run: "\<exists>call. runExperimentalWrapper std_env demo_url ''/r'' Map.empty demo_files (options_argv demo_options) demo_outcomes demo_cleanup demo_cleanup None
  = (Inr 0, [Act_claim ''gptqueue-experiment-a'' True, Act_register ''gptqueue-experiment-a'', Act_verify ''s'', Act_bridge ''gptqueue-experiment-a'',
       Act_launch call ''/r/w'', Act_cleanup])"
proof -
  have cwd: "wf_cwd demo_files = ''/r''" by (simp add: demo_files_def)
  have same: "demo_options\<lparr>wo_workspace := ''/r/w''\<rparr> = demo_options" "wo_workspace demo_options = ''/r/w''" by (simp_all add: demo_options_def)
  have "\<exists>call. wrapper_launch std_env ''/r'' Map.empty demo_options demo_outcomes ''u'' = (Inr 0, [Act_launch call ''/r/w''])"
    by (simp add: wrapper_launch_def same demo_outcomes_def demo_workspace Let_def exitCodeFor_def)
  then obtain call where "wrapper_launch std_env ''/r'' Map.empty demo_options demo_outcomes ''u'' = (Inr 0, [Act_launch call ''/r/w''])" by blast
  then have "wrapper_body std_env ''/r'' Map.empty demo_options demo_outcomes = (Inr 0, [Act_claim ''gptqueue-experiment-a'' True,
      Act_register ''gptqueue-experiment-a'', Act_verify ''s'', Act_bridge ''gptqueue-experiment-a'', Act_launch call ''/r/w''])"
    by (simp add: wrapper_body_def demo_outcomes_def demo_options_def nonempty_def Let_def)
  then show ?thesis by (simp add: runExperimentalWrapper_def cwd demo_parse same demo_workspace demo_done finalExitCode_def)
qed

theorem options_roundtrip_witness:
  "parseWrapperArgs demo_url ''/r'' (options_argv demo_options) = Inr demo_options \<and> is_absolute (wo_workspace demo_options)"
  using options_roundtrip[of demo_url demo_options "''/r''" "options_argv demo_options" demo_options] demo_spelled by simp

theorem launch_guarded_witness: "\<exists>call. launched ''/r'' demo_options demo_outcomes ''/r/w''
  \<and> Act_launch call ''/r/w'' \<in> set (snd (runExperimentalWrapper std_env demo_url ''/r'' Map.empty demo_files (options_argv demo_options) demo_outcomes demo_cleanup demo_cleanup None))"
proof -
  obtain call where run: "runExperimentalWrapper std_env demo_url ''/r'' Map.empty demo_files (options_argv demo_options) demo_outcomes demo_cleanup demo_cleanup None
    = (Inr 0, [Act_claim ''gptqueue-experiment-a'' True, Act_register ''gptqueue-experiment-a'', Act_verify ''s'', Act_bridge ''gptqueue-experiment-a'',
       Act_launch call ''/r/w'', Act_cleanup])" using demo_run by blast
  have "wf_cwd demo_files = ''/r''" "demo_options\<lparr>wo_workspace := ''/r/w''\<rparr> = demo_options" "wo_workspace demo_options = ''/r/w''"
    by (simp_all add: demo_options_def demo_files_def)
  with launch_guarded[OF run, of call "''/r/w''"] show ?thesis by (auto simp: run demo_parse demo_workspace)
qed

theorem success_is_complete_witness: "set [Phase_bridge, Phase_registration, Phase_claim, Phase_redis] \<subseteq> set (cu_released (cleanup_run demo_cleanup demo_cleanup no_cleanup))"
  using demo_run success_is_complete[of std_env demo_url "''/r''" Map.empty demo_files "options_argv demo_options" demo_outcomes demo_cleanup demo_cleanup None "Inr 0"]
  by (auto simp: runExperimentalWrapperCli_def)

end
