(* ===== verification/Pty_Wrapper.thy ===== *)
theory Pty_Wrapper
  imports Wrapper_Config Keys
begin

text \<open>
  The terminal wrapper, \<open>src/src/pty-wrapper/\<close>: it runs a program in a terminal, watches the mailbox of an agent
  and types a prompt when messages wait and the program has been quiet for two seconds. The state is one record
  with the detector of idleness, the pending prompt and the watcher; every callback of the code is an operation
  on it that is given the time. What the server answers is an argument of the callbacks. A log keeps what the
  program printed and what was typed, newest first. The terminal itself, its size and the copying of input and
  output are left out.
\<close>

section \<open>Command line and environment\<close>

fun scan_args :: "string list \<Rightarrow> string \<Rightarrow> string \<times> string list option" where
  "scan_args (t # v # rest) agent =
     (if t = ''--agent'' then scan_args rest v
      else if t = ''--cmd'' then (agent, Some (v # rest))
      else scan_args (v # rest) agent)"
| "scan_args _ agent = (agent, None)"

text \<open>\<open>None\<close> where the wrapper prints its usage and exits.\<close>

definition parseArgs :: "string list \<Rightarrow> (string \<times> string \<times> string list) option" where
  "parseArgs argv =
     (case scan_args (drop 2 argv) [] of
        (agent, Some (cmd # args)) \<Rightarrow> if agent = [] then None else Some (agent, cmd, args)
      | _ \<Rightarrow> None)"

definition agentAttributionEnv :: "string \<Rightarrow> (string \<Rightarrow> string option) \<Rightarrow> string \<Rightarrow> (string \<times> string) list" where
  "agentAttributionEnv agentName env cwd =
     [(''AGENT_ATTRIBUTION_CALLER'', or_env (env ''AGENT_ATTRIBUTION_CALLER'') ''gptqueue-pty''),
      (''AGENT_ATTRIBUTION_PROJECT'', or_env (env ''AGENT_ATTRIBUTION_PROJECT'') (path_basename cwd)),
      (''AGENT_ATTRIBUTION_SESSION'', or_env (env ''AGENT_ATTRIBUTION_SESSION'') agentName)]"

section \<open>Prompts\<close>

definition BRACKETED_PASTE_BEGIN :: string where
  "BRACKETED_PASTE_BEGIN = CHR 0x1B # ''[200~''"

definition BRACKETED_PASTE_END :: string where
  "BRACKETED_PASTE_END = CHR 0x1B # ''[201~''"

definition terminalPromptBytes :: "string \<Rightarrow> string" where
  "terminalPromptBytes text = BRACKETED_PASTE_BEGIN @ text @ BRACKETED_PASTE_END @ [CHR 0x0D]"

definition inbox_notice :: "nat \<Rightarrow> string" where
  "inbox_notice waiting = ''You have '' @ show_nat waiting @ '' pending message(s) in your GPTQueue inbox. Call claim_tasks to claim a batch ''
     @ ''(optional max_batch and ttl_seconds), process the tasks, then acknowledge them with acknowledge_tasks (claim_id).''"

section \<open>The watcher\<close>

text \<open>The flags of the server's notifications that have to be added for list events.\<close>

definition missing_flags :: "string \<Rightarrow> string" where
  "missing_flags current = filter (\<lambda>flag. flag \<notin> set current \<and> \<not> (flag = CHR ''l'' \<and> CHR ''A'' \<in> set current)) ''Kl''"

definition ensureListKeyspaceEvents :: "string \<Rightarrow> string" where
  "ensureListKeyspaceEvents current = (let missing = missing_flags current in if missing = [] then current else current @ missing)"

text \<open>
  What the watcher emits: the depth after a push it is notified of, the depth it finds when it starts, and the
  depth of each poll, with the pause in milliseconds that follows. A depth is \<open>None\<close> where the server fails.
\<close>

definition on_notification :: "bool \<Rightarrow> string \<Rightarrow> nat option \<Rightarrow> nat option" where
  "on_notification running event len =
     (if running \<and> (event = ''rpush'' \<or> event = ''lpush'')
      then (case len of Some n \<Rightarrow> if 0 < n then Some n else None | None \<Rightarrow> None) else None)"

definition startup_check :: "nat option \<Rightarrow> nat option" where
  "startup_check len = (case len of Some n \<Rightarrow> if 0 < n then Some n else None | None \<Rightarrow> None)"

definition poll :: "nat option \<Rightarrow> nat option \<times> nat" where
  "poll len = (case len of None \<Rightarrow> (None, 2000) | Some n \<Rightarrow> if 0 < n then (Some n, 5000) else (None, 1000))"

section \<open>The wrapper\<close>

datatype pty_entry = Printed nat | Typed nat string     \<comment> \<open>with the time\<close>

record pty_state =
  pt_idle :: bool
  pt_timer :: "nat option"               \<comment> \<open>when the armed timer is due\<close>
  pt_pendingInjection :: bool
  pt_listeners :: "nat list"             \<comment> \<open>the registered \<open>once("idle")\<close> callbacks, oldest first, each with the depth in its prompt\<close>
  pt_destroyed :: bool                   \<comment> \<open>the detector has been destroyed once\<close>
  pt_log :: "pty_entry list"

definition quiescenceMs :: nat where
  "quiescenceMs = 2000"

definition pty_start :: pty_state where
  "pty_start = \<lparr>pt_idle = False, pt_timer = None, pt_pendingInjection = False, pt_listeners = [], pt_destroyed = False, pt_log = []\<rparr>"

definition onOutput :: "nat \<Rightarrow> pty_state \<Rightarrow> pty_state" where
  "onOutput t st = st\<lparr>pt_idle := False, pt_timer := Some (t + quiescenceMs), pt_log := Printed t # pt_log st\<rparr>"

definition inject :: "nat \<Rightarrow> nat \<Rightarrow> pty_state \<Rightarrow> pty_state" where
  "inject t waiting st = st\<lparr>pt_log := Typed t (terminalPromptBytes (inbox_notice waiting)) # pt_log st, pt_pendingInjection := False\<rparr>"

text \<open>
  The timer runs its callback, at the time it is due or later: the program is idle, and \<open>emit("idle")\<close> calls every
  listener registered so far, in the order of their registration, each once.
\<close>

definition emit_idle :: "nat \<Rightarrow> pty_state \<Rightarrow> pty_state" where
  "emit_idle t st = fold (inject t) (pt_listeners st) (st\<lparr>pt_listeners := []\<rparr>)"

definition timer_fires :: "nat \<Rightarrow> pty_state \<Rightarrow> pty_state" where
  "timer_fires t st =
     (case pt_timer st of
        Some due \<Rightarrow> if due \<le> t then emit_idle t (st\<lparr>pt_idle := True, pt_timer := None\<rparr>) else st
      | None \<Rightarrow> st)"

definition on_message :: "nat \<Rightarrow> nat \<Rightarrow> pty_state \<Rightarrow> pty_state" where
  "on_message t waiting st =
     (if pt_pendingInjection st then st
      else let st1 = st\<lparr>pt_pendingInjection := True\<rparr> in
           if pt_idle st1 then inject t waiting st1 else st1\<lparr>pt_listeners := pt_listeners st1 @ [waiting]\<rparr>)"

text \<open>
  Destroying the detector clears its timer and nothing else. It is destroyed when the program exits and when the
  wrapper is told to stop; in between the program may still print, which arms the timer again. Stopping the
  watcher and ending the process follow, and end the run.
\<close>

definition destroy :: "pty_state \<Rightarrow> pty_state" where
  "destroy st = st\<lparr>pt_timer := None, pt_destroyed := True\<rparr>"

definition onExit :: "pty_state \<Rightarrow> pty_state" where
  "onExit st = destroy st"

definition shutdown :: "pty_state \<Rightarrow> pty_state" where
  "shutdown st = destroy st"

text \<open>Any run of the callbacks, in any order, with times that do not decrease.\<close>

inductive pty_run :: "nat \<Rightarrow> pty_state \<Rightarrow> bool" where
  start: "pty_run t pty_start"
| prints: "pty_run s st \<Longrightarrow> s \<le> t \<Longrightarrow> pty_run t (onOutput t st)"
| timer: "pty_run s st \<Longrightarrow> s \<le> t \<Longrightarrow> pty_run t (timer_fires t st)"
| notified: "pty_run s st \<Longrightarrow> s \<le> t \<Longrightarrow> on_notification True event len = Some waiting \<Longrightarrow> pty_run t (on_message t waiting st)"
| found: "pty_run s st \<Longrightarrow> s \<le> t \<Longrightarrow> startup_check len = Some waiting \<Longrightarrow> pty_run t (on_message t waiting st)"
| polled: "pty_run s st \<Longrightarrow> s \<le> t \<Longrightarrow> poll len = (Some waiting, pause) \<Longrightarrow> pty_run t (on_message t waiting st)"
| exits: "pty_run s st \<Longrightarrow> s \<le> t \<Longrightarrow> pty_run t (onExit st)"
| told_to_stop: "pty_run s st \<Longrightarrow> s \<le> t \<Longrightarrow> pty_run t (shutdown st)"

section \<open>Properties\<close>

text \<open>
  Prompts at the right moment: in a log, newest first, every prompt was typed at least two seconds after
  everything printed before it, and after something had been printed.
\<close>

fun quiet_log :: "pty_entry list \<Rightarrow> bool" where
  "quiet_log [] = True"
| "quiet_log (Printed t # earlier) = quiet_log earlier"
| "quiet_log (Typed t text # earlier) =
     (quiet_log earlier \<and> (\<exists>o'. Printed o' \<in> set earlier) \<and> (\<forall>o'. Printed o' \<in> set earlier \<longrightarrow> o' + quiescenceMs \<le> t))"

definition printed :: "pty_entry list \<Rightarrow> nat set" where
  "printed log = {t. Printed t \<in> set log}"

lemma printed_simps [simp]: "printed [] = {}" "printed (Printed t # log) = insert t (printed log)" "printed (Typed t p # log) = printed log"
  by (auto simp: printed_def)

lemma quiet_Typed [simp]: "quiet_log (Typed t p # log) \<longleftrightarrow> quiet_log log \<and> printed log \<noteq> {} \<and> (\<forall>o' \<in> printed log. o' + quiescenceMs \<le> t)"
  by (auto simp: printed_def)

declare quiet_log.simps(3) [simp del]

text \<open>
  Whole prompts: what is typed is one bracketed paste of a notice of some number of messages, which holds neither
  an escape nor a return, and the return that submits it.
\<close>

definition whole_notice :: "string \<Rightarrow> bool" where
  "whole_notice bytes \<longleftrightarrow> (\<exists>n > 0. \<exists>tail. let notice = ''You have '' @ show_nat n @ '' pending message(s)'' @ tail in
     bytes = [CHR 0x1B] @ ''[200~'' @ notice @ [CHR 0x1B] @ ''[201~'' @ [CHR 0x0D] \<and> CHR 0x1B \<notin> set notice \<and> CHR 0x0D \<notin> set notice)"

definition whole_log :: "pty_entry list \<Rightarrow> bool" where
  "whole_log log \<longleftrightarrow> (\<forall>t bytes. Typed t bytes \<in> set log \<longrightarrow> whole_notice bytes)"

lemma whole_log_simps [simp]: "whole_log []" "whole_log (Printed t # log) \<longleftrightarrow> whole_log log" "whole_log (Typed t p # log) \<longleftrightarrow> whole_notice p \<and> whole_log log"
  by (auto simp: whole_log_def)

text \<open>A pasted prompt is one paste and one return: the text of the notice contains neither the end marker's escape nor a return.\<close>

lemma notice_is_one_paste: "CHR 0x1B \<notin> set (inbox_notice n) \<and> CHR 0x0D \<notin> set (inbox_notice n)"
  using list_all_show_nat[of n] by (auto simp: inbox_notice_def list_all_iff is_digit_def)

lemma notice_is_whole: "0 < n \<Longrightarrow> whole_notice (terminalPromptBytes (inbox_notice n))"
proof -
  assume "0 < n"
  obtain tail where tail: "inbox_notice n = ''You have '' @ show_nat n @ '' pending message(s)'' @ tail"
    unfolding inbox_notice_def by simp
  show ?thesis
    unfolding whole_notice_def Let_def tail[symmetric] terminalPromptBytes_def BRACKETED_PASTE_BEGIN_def BRACKETED_PASTE_END_def
    by (intro exI[of _ n] conjI \<open>0 < n\<close> exI[of _ tail], unfold tail[symmetric]) (use notice_is_one_paste[of n] in simp_all)
qed

text \<open>
  The detector agrees with the log: an armed timer is due two seconds after the latest output, and the program
  counts as idle only two seconds after it. One listener waits while an injection is pending, and none otherwise.
\<close>

definition detector_inv :: "nat \<Rightarrow> pty_state \<Rightarrow> bool" where
  "detector_inv t st \<longleftrightarrow> quiet_log (pt_log st) \<and> whole_log (pt_log st) \<and> (\<forall>o' \<in> printed (pt_log st). o' \<le> t)
     \<and> (if pt_pendingInjection st then \<exists>n > 0. pt_listeners st = [n] else pt_listeners st = [])
     \<and> (if pt_idle st then pt_timer st = None \<and> \<not> pt_pendingInjection st \<and> printed (pt_log st) \<noteq> {} \<and> (\<forall>o' \<in> printed (pt_log st). o' + quiescenceMs \<le> t)
        else case pt_timer st of
               Some due \<Rightarrow> printed (pt_log st) \<noteq> {} \<and> due = Max (printed (pt_log st)) + quiescenceMs
             | None \<Rightarrow> printed (pt_log st) = {} \<or> pt_destroyed st)"

lemma finite_printed [simp]: "finite (printed log)"
proof -
  have "printed log \<subseteq> (\<lambda>x. case x of Printed t \<Rightarrow> t | Typed t _ \<Rightarrow> t) ` set log" by (force simp: printed_def)
  then show ?thesis by (rule finite_subset) simp
qed

lemma detector_later:
  assumes inv: "detector_inv s st" and "s \<le> t"
  shows "detector_inv t st"
proof -
  have later: "\<forall>o' \<in> A. o' + n \<le> t" if "\<forall>o' \<in> A. o' + n \<le> s" for A n using that assms(2) by fastforce
  from inv have "\<forall>o' \<in> printed (pt_log st). o' + 0 \<le> t" by (intro later) (simp add: detector_inv_def)
  moreover from inv have "pt_idle st \<Longrightarrow> \<forall>o' \<in> printed (pt_log st). o' + quiescenceMs \<le> t" by (intro later) (simp add: detector_inv_def)
  ultimately show ?thesis using inv by (simp add: detector_inv_def split del: if_split split: if_split_asm)
qed

lemma detector_output: "detector_inv t st \<Longrightarrow> detector_inv t (onOutput t st)"
proof -
  assume inv: "detector_inv t st"
  then have "Max (insert t (printed (pt_log st))) = t" by (intro Max_eqI) (auto simp: detector_inv_def)
  with inv show ?thesis by (auto simp: detector_inv_def onOutput_def)
qed

lemma due_after_output: "detector_inv t st \<Longrightarrow> pt_timer st = Some due \<Longrightarrow> \<not> pt_idle st \<and> printed (pt_log st) \<noteq> {} \<and> (\<forall>o' \<in> printed (pt_log st). o' + quiescenceMs \<le> due)"
  by (auto simp: detector_inv_def split: if_splits)

lemma detector_timer:
  assumes inv: "detector_inv t st"
  shows "detector_inv t (timer_fires t st)"
proof (cases "\<exists>due. pt_timer st = Some due \<and> due \<le> t")
  case True
  then obtain due where due: "pt_timer st = Some due" "due \<le> t" by blast
  then have quiet: "printed (pt_log st) \<noteq> {}" "\<forall>o' \<in> printed (pt_log st). o' + quiescenceMs \<le> t" using due_after_output[OF inv due(1)] by fastforce+
  show ?thesis
    using inv due quiet by (cases "pt_pendingInjection st") (auto simp: detector_inv_def timer_fires_def emit_idle_def inject_def notice_is_whole)
next
  case False
  then show ?thesis using inv by (auto simp: timer_fires_def split: option.splits)
qed

lemma detector_message: "detector_inv t st \<Longrightarrow> 0 < waiting \<Longrightarrow> detector_inv t (on_message t waiting st)"
  by (cases "pt_idle st"; cases "pt_pendingInjection st"; cases "pt_timer st") (simp_all add: detector_inv_def on_message_def inject_def Let_def notice_is_whole)

lemma detector_destroy: "detector_inv t st \<Longrightarrow> detector_inv t (destroy st)"
  by (cases "pt_idle st") (auto simp: detector_inv_def destroy_def)

text \<open>What the watcher announces is at least one message.\<close>

lemma announced_positive:
  "on_notification running event len = Some waiting \<Longrightarrow> 0 < waiting"
  "startup_check len = Some waiting \<Longrightarrow> 0 < waiting"
  "poll len = (Some waiting, pause) \<Longrightarrow> 0 < waiting"
  by (auto simp: on_notification_def startup_check_def poll_def split: if_splits option.splits)

lemma detector_run: "pty_run t st \<Longrightarrow> detector_inv t st"
proof (induction rule: pty_run.induct)
  case (start t)
  show ?case by (simp add: detector_inv_def pty_start_def)
next
  case (exits s st t)
  then show ?case unfolding onExit_def by (blast intro: detector_destroy detector_later)
next
  case (told_to_stop s st t)
  then show ?case unfolding shutdown_def by (blast intro: detector_destroy detector_later)
qed (blast intro: detector_output detector_timer detector_message detector_later announced_positive)+

text \<open>
  (C38) A prompt is typed only into a quiet program, and whole. In every run of the wrapper, whatever the server
  reports, whenever the timers run, and also while it shuts down, each thing typed was typed at least two seconds
  after every output that preceded it and never before the first output; it is one bracketed paste of a complete
  notice of at least one message, with no escape or return inside, followed by the return that submits it; and
  exactly one callback waits for the program to be idle while an injection is pending, none otherwise.
\<close>

theorem typed_when_quiet:
  assumes "pty_run now st"
  shows "quiet_log (pt_log st) \<and> whole_log (pt_log st) \<and> length (pt_listeners st) = (if pt_pendingInjection st then 1 else 0)"
  using detector_run[OF assms] by (auto simp: detector_inv_def)

text \<open>
  A quiet program is told. Once a program has printed something and has since been quiet for two seconds, a
  message that is announced to the wrapper has been followed by a prompt when the timer has run, unless the
  detector was destroyed before: the newest entry of the log is a prompt, and none is pending.
\<close>

lemma quiet_program_is_told:
  assumes "pty_run s st" and "\<not> pt_destroyed st" and "printed (pt_log st) \<noteq> {}" and "Max (printed (pt_log st)) + quiescenceMs \<le> t"
  shows "(\<exists>u p earlier. pt_log (timer_fires t (on_message s waiting st)) = Typed u (terminalPromptBytes p) # earlier)
    \<and> \<not> pt_pendingInjection (timer_fires t (on_message s waiting st))"
  using detector_run[OF assms(1)] assms(2-4)
  by (cases "pt_idle st"; cases "pt_pendingInjection st"; cases "pt_timer st")
    (auto simp: detector_inv_def on_message_def inject_def timer_fires_def emit_idle_def Let_def)

text \<open>
  A program that prints nothing is never told: only output arms the timer, so a message announced to a program
  that waits silently from its start stays pending for ever.
\<close>

lemma silent_program_not_told: "pty_run t st \<Longrightarrow> printed (pt_log st) = {} \<Longrightarrow> pt_log st = [] \<and> \<not> pt_idle st \<and> pt_timer st = None"
proof -
  assume "pty_run t st" and none: "printed (pt_log st) = {}"
  then have inv: "detector_inv t st" by (intro detector_run)
  have "log = []" if "quiet_log log" "printed log = {}" for log using that by (cases log rule: quiet_log.cases) auto
  with inv none show ?thesis by (auto simp: detector_inv_def split: option.splits if_splits)
qed

text \<open>The flags the server had stay, and the two kinds of event the watcher needs are on.\<close>

lemma keyspace_events_added: "\<exists>added. ensureListKeyspaceEvents current = current @ added \<and> CHR ''K'' \<in> set (current @ added)
    \<and> (CHR ''l'' \<in> set (current @ added) \<or> CHR ''A'' \<in> set (current @ added))"
  by (intro exI[of _ "missing_flags current"]) (auto simp: ensureListKeyspaceEvents_def missing_flags_def Let_def)

lemma flags_idempotent: "ensureListKeyspaceEvents (ensureListKeyspaceEvents current) = ensureListKeyspaceEvents current"
  by (auto simp: ensureListKeyspaceEvents_def missing_flags_def Let_def)

section \<open>Witnesses\<close>

lemma demo_pty: "pty_run 10 (onOutput 10 pty_start)"
  by (rule pty_run.prints[OF pty_run.start[of 0]]) (simp_all add: pty_start_def)

theorem typed_when_quiet_witness: "\<exists>st. pty_run 2010 st \<and> quiet_log (pt_log st) \<and> whole_log (pt_log st) \<and> pt_listeners st = [] \<and> (\<exists>p. pt_log st = [Typed 2010 p, Printed 10])"
proof -
  let ?st = "timer_fires 2010 (on_message 20 3 (onOutput 10 pty_start))"
  have "pty_run 20 (on_message 20 3 (onOutput 10 pty_start))"
    by (rule pty_run.notified[OF demo_pty, of 20 "''rpush''" "Some 3" 3]) (simp_all add: on_notification_def)
  then have "pty_run 2010 ?st" by (rule pty_run.timer) simp
  moreover have "\<exists>p. pt_log ?st = [Typed 2010 p, Printed 10]"
    by (simp add: timer_fires_def emit_idle_def on_message_def onOutput_def pty_start_def inject_def quiescenceMs_def)
  moreover have "\<not> pt_pendingInjection ?st"
    by (simp add: timer_fires_def emit_idle_def on_message_def onOutput_def pty_start_def inject_def quiescenceMs_def)
  ultimately show ?thesis using typed_when_quiet[of 2010 ?st] by (intro exI[of _ ?st]) simp
qed

end
