(* ===== verification/Session_Owner.thy ===== *)
theory Session_Owner
  imports Launch_Policy
begin

text \<open>
  The owner of OpenCode sessions, \<open>src/src/registered-shell/opencode-sessions.ts\<close>: one backend per session of the
  host, created once however many callers ask for it. An entry of the code is a cell of \<open>ow_heap\<close>, so that two
  entries are the same object exactly when they have the same index; the promise of a backend and the handle's
  flags are the phase of the cell. Each callback that runs between two awaits is one operation.
\<close>

section \<open>Entries\<close>

record OpenCodeSessionIdentity =
  oi_sessionID :: string
  oi_directory :: string

definition MAX_SESSION_ID_LENGTH :: nat where
  "MAX_SESSION_ID_LENGTH = 200"

definition validateIdentity :: "OpenCodeSessionIdentity \<Rightarrow> exn + OpenCodeSessionIdentity" where
  "validateIdentity i =
     (if trim (oi_sessionID i) = [] \<or> MAX_SESSION_ID_LENGTH < length (oi_sessionID i) \<or> trim (oi_directory i) = [] \<or> \<not> is_absolute (oi_directory i)
      then Inl (JsError ''OpenCode session identity requires a non-empty sessionID and directory'') else Inr i)"

text \<open>
  How an entry ended: its creation failed, or was cancelled, with or without trouble in closing the late
  backend, or its backend was closed, with or without trouble.
\<close>

datatype ending = Creation_failed | Cancelled | Cancelled_close_failed | Backend_closed | Backend_close_failed

datatype phase = Creating | Closing_late | Live | Closing | Ended ending

record SessionEntry =
  se_identity :: OpenCodeSessionIdentity
  se_cancelled :: bool
  se_ready :: bool
  se_phase :: phase

record owner =
  ow_heap :: "SessionEntry list"
  ow_entries :: "(string \<times> nat) list"       \<comment> \<open>the map, by session\<close>
  ow_disposed :: bool
  ow_closers :: "nat list"                   \<comment> \<open>calls of \<open>close\<close> that wait for their entry\<close>

definition new_owner :: owner where
  "new_owner = \<lparr>ow_heap = [], ow_entries = [], ow_disposed = False, ow_closers = []\<rparr>"

definition entry_at :: "owner \<Rightarrow> nat \<Rightarrow> SessionEntry" where
  "entry_at st e = ow_heap st ! e"

definition set_phase :: "nat \<Rightarrow> phase \<Rightarrow> owner \<Rightarrow> owner" where
  "set_phase e p st = st\<lparr>ow_heap := (ow_heap st)[e := (entry_at st e)\<lparr>se_phase := p\<rparr>]\<rparr>"

definition forget :: "nat \<Rightarrow> owner \<Rightarrow> owner" where
  "forget e st =
     (let sid = oi_sessionID (se_identity (entry_at st e)) in
      if map_of (ow_entries st) sid = Some e then st\<lparr>ow_entries := AList.delete sid (ow_entries st)\<rparr> else st)"

definition end_entry :: "nat \<Rightarrow> ending \<Rightarrow> owner \<Rightarrow> owner" where
  "end_entry e how st = forget e (set_phase e (Ended how) st)"

section \<open>Operations\<close>

definition getOrCreate :: "OpenCodeSessionIdentity \<Rightarrow> owner \<Rightarrow> (exn + nat) \<times> owner" where
  "getOrCreate i0 st =
     (case validateIdentity i0 of
        Inl x \<Rightarrow> (Inl x, st)
      | Inr i \<Rightarrow>
          if ow_disposed st then (Inl (JsError ''OpenCode session owner is disposed''), st)
          else (case map_of (ow_entries st) (oi_sessionID i) of
                  Some e \<Rightarrow>
                    if oi_directory (se_identity (entry_at st e)) \<noteq> oi_directory i then (Inl (JsError ''already owned for directory''), st)
                    else (Inr e, st)
                | None \<Rightarrow>
                    (Inr (length (ow_heap st)),
                     st\<lparr>ow_heap := ow_heap st @ [\<lparr>se_identity = i, se_cancelled = False, se_ready = False, se_phase = Creating\<rparr>],
                        ow_entries := AList.update (oi_sessionID i) (length (ow_heap st)) (ow_entries st)\<rparr>)))"

text \<open>The factory resolves with a backend, or fails.\<close>

definition factory_resolves :: "nat \<Rightarrow> owner \<Rightarrow> owner" where
  "factory_resolves e st =
     (if se_cancelled (entry_at st e) then set_phase e Closing_late st
      else st\<lparr>ow_heap := (ow_heap st)[e := (entry_at st e)\<lparr>se_ready := True, se_phase := Live\<rparr>]\<rparr>)"

definition factory_rejects :: "nat \<Rightarrow> owner \<Rightarrow> owner" where
  "factory_rejects e st = end_entry e Creation_failed st"

text \<open>The backend of a cancelled creation has been closed.\<close>

definition late_closed :: "nat \<Rightarrow> bool \<Rightarrow> owner \<Rightarrow> owner" where
  "late_closed e ok st = end_entry e (if ok then Cancelled else Cancelled_close_failed) st"

text \<open>\<open>close\<close> of a handle: the first call closes the backend, later ones share its promise.\<close>

definition handle_close :: "nat \<Rightarrow> owner \<Rightarrow> owner" where
  "handle_close e st = (if se_phase (entry_at st e) = Live then set_phase e Closing st else st)"

definition backend_closed :: "nat \<Rightarrow> bool \<Rightarrow> owner \<Rightarrow> owner" where
  "backend_closed e ok st = end_entry e (if ok then Backend_closed else Backend_close_failed) st"

text \<open>\<open>callTool\<close> of a handle reaches the backend only while it is neither closing nor closed.\<close>

definition handle_callTool :: "nat \<Rightarrow> owner \<Rightarrow> exn + nat" where
  "handle_callTool e st = (if se_phase (entry_at st e) = Live then Inr e else Inl (JsError ''is closing or closed''))"

text \<open>\<open>close\<close> of the owner: what runs at the call, what runs when the entry is ready, and how it ends.\<close>

definition owner_close :: "string \<Rightarrow> string option \<Rightarrow> owner \<Rightarrow> bool \<times> owner" where
  "owner_close sid directory st =
     (case map_of (ow_entries st) sid of
        None \<Rightarrow> (False, st)
      | Some e \<Rightarrow>
          if directory \<noteq> None \<and> directory \<noteq> Some (oi_directory (se_identity (entry_at st e))) then (False, st)
          else (True, st\<lparr>ow_heap := (ow_heap st)[e := (entry_at st e)\<lparr>se_cancelled := True\<rparr>], ow_closers := e # ow_closers st\<rparr>))"

definition closer_resumes :: "nat \<Rightarrow> owner \<Rightarrow> owner" where
  "closer_resumes e st = handle_close e st"

definition close_result :: "bool \<Rightarrow> ending \<Rightarrow> exn + bool" where
  "close_result ready how =
     (case how of
        Backend_closed \<Rightarrow> Inr True
      | Cancelled \<Rightarrow> if ready then Inl (JsError ''closed during backend creation'') else Inr True
      | Creation_failed \<Rightarrow> Inl (JsError ''creation failed'')
      | Cancelled_close_failed \<Rightarrow> Inl (JsError ''backend cleanup failed'')
      | Backend_close_failed \<Rightarrow> Inl (JsError ''close failed''))"

definition closer_ends :: "nat \<Rightarrow> ending \<Rightarrow> owner \<Rightarrow> (exn + bool) \<times> owner" where
  "closer_ends e how st = (close_result (se_ready (entry_at st e)) how, forget e (st\<lparr>ow_closers := remove1 e (ow_closers st)\<rparr>))"

definition dispose :: "owner \<Rightarrow> owner" where
  "dispose st =
     (if ow_disposed st then st
      else fold (\<lambda>sid s. snd (owner_close sid None s)) (map fst (ow_entries st)) (st\<lparr>ow_disposed := True\<rparr>))"

section \<open>Runs\<close>

abbreviation in_phase :: "owner \<Rightarrow> nat \<Rightarrow> phase \<Rightarrow> bool" where
  "in_phase st e p \<equiv> e < length (ow_heap st) \<and> se_phase (entry_at st e) = p"

text \<open>What backends and waiting calls do on their own.\<close>

inductive work_step :: "owner \<Rightarrow> owner \<Rightarrow> bool" where
  created: "in_phase st e Creating \<Longrightarrow> work_step st (factory_resolves e st)"
| failed: "in_phase st e Creating \<Longrightarrow> work_step st (factory_rejects e st)"
| late: "in_phase st e Closing_late \<Longrightarrow> work_step st (late_closed e ok st)"
| closed: "in_phase st e Closing \<Longrightarrow> work_step st (backend_closed e ok st)"
| resumed: "e \<in> set (ow_closers st) \<Longrightarrow> in_phase st e Live \<Longrightarrow> work_step st (closer_resumes e st)"
| finished: "e \<in> set (ow_closers st) \<Longrightarrow> in_phase st e (Ended how) \<Longrightarrow> work_step st (snd (closer_ends e how st))"

text \<open>Runs: that, and whatever callers do.\<close>

inductive owner_run :: "owner \<Rightarrow> bool" where
  new: "owner_run new_owner"
| asked: "owner_run st \<Longrightarrow> owner_run (snd (getOrCreate i st))"
| closes: "owner_run st \<Longrightarrow> owner_run (snd (owner_close sid directory st))"
| handle: "owner_run st \<Longrightarrow> e < length (ow_heap st) \<Longrightarrow> owner_run (handle_close e st)"
| disposes: "owner_run st \<Longrightarrow> owner_run (dispose st)"
| works: "owner_run st \<Longrightarrow> work_step st st' \<Longrightarrow> owner_run st'"

section \<open>One backend per session\<close>

definition entry_session :: "owner \<Rightarrow> nat \<Rightarrow> string" where
  "entry_session st e = oi_sessionID (se_identity (entry_at st e))"

fun over :: "phase \<Rightarrow> bool" where
  "over (Ended _) = True"
| "over _ = False"

definition active :: "owner \<Rightarrow> nat \<Rightarrow> bool" where
  "active st e \<longleftrightarrow> e < length (ow_heap st) \<and> \<not> over (se_phase (entry_at st e))"

text \<open>The map holds exactly the entries that have not ended.\<close>

definition map_inv :: "owner \<Rightarrow> bool" where
  "map_inv st \<longleftrightarrow> (\<forall>sid e. map_of (ow_entries st) sid = Some e \<longleftrightarrow> active st e \<and> entry_session st e = sid)"

lemma map_unique: "map_inv st \<Longrightarrow> active st i \<Longrightarrow> active st j \<Longrightarrow> entry_session st i = entry_session st j \<Longrightarrow> i = j"
  by (metis map_inv_def option.inject)

lemma map_active: "map_inv st \<Longrightarrow> map_of (ow_entries st) sid = Some e \<Longrightarrow> active st e \<and> e < length (ow_heap st) \<and> entry_session st e = sid"
  by (simp add: map_inv_def active_def)

text \<open>A change of one cell that keeps its identity.\<close>

definition cell_step :: "nat \<Rightarrow> owner \<Rightarrow> owner \<Rightarrow> bool" where
  "cell_step e st st' \<longleftrightarrow> e < length (ow_heap st) \<and> length (ow_heap st') = length (ow_heap st) \<and> ow_entries st' = ow_entries st
     \<and> (\<forall>i < length (ow_heap st). i \<noteq> e \<longrightarrow> entry_at st' i = entry_at st i) \<and> se_identity (entry_at st' e) = se_identity (entry_at st e)"

lemma cell_set [simp]: "e < length (ow_heap st) \<Longrightarrow> cell_step e st (set_phase e p st)"
  by (simp add: cell_step_def set_phase_def entry_at_def)

lemma cell_session: "cell_step e st st' \<Longrightarrow> i < length (ow_heap st) \<Longrightarrow> entry_session st' i = entry_session st i"
  by (cases "i = e") (simp_all add: cell_step_def entry_session_def)

lemma map_cell:
  assumes "map_inv st" and "cell_step e st st'" and "over (se_phase (entry_at st' e)) \<longleftrightarrow> over (se_phase (entry_at st e))"
  shows "map_inv st'"
proof -
  have "active st' i \<longleftrightarrow> active st i" for i
    using assms(2,3) by (cases "i = e") (auto simp: cell_step_def active_def)
  moreover have "ow_entries st' = ow_entries st" using assms(2) by (simp add: cell_step_def)
  ultimately show ?thesis using assms(1) cell_session[OF assms(2)] by (auto simp: map_inv_def active_def)
qed

lemma map_end:
  assumes "map_inv st" and "active st e"
  shows "map_inv (end_entry e how st)"
proof -
  let ?s = "set_phase e (Ended how) st"
  have e: "e < length (ow_heap st)" using assms(2) by (simp add: active_def)
  have phase: "se_phase (entry_at ?s e) = Ended how" using e by (simp add: set_phase_def entry_at_def)
  have act: "active ?s i \<longleftrightarrow> active st i \<and> i \<noteq> e" for i
    using cell_set[OF e, of "Ended how"] phase by (cases "i = e") (auto simp: cell_step_def active_def)
  have sess: "entry_session ?s i = entry_session st i" if "i < length (ow_heap st)" for i using cell_session[OF cell_set[OF e]] that by simp
  have "map_of (ow_entries ?s) (entry_session ?s e) = Some e"
    using assms sess[OF e] by (simp add: map_inv_def set_phase_def)
  then have "end_entry e how st = ?s\<lparr>ow_entries := AList.delete (entry_session st e) (ow_entries st)\<rparr>"
    using sess[OF e] by (simp add: end_entry_def forget_def Let_def entry_session_def set_phase_def)
  moreover have "active (?s\<lparr>ow_entries := m\<rparr>) = active ?s" "entry_session (?s\<lparr>ow_entries := m\<rparr>) = entry_session ?s" for m
    by (simp_all add: active_def entry_session_def entry_at_def fun_eq_iff)
  moreover have "(if sid = entry_session st e then None else map_of (ow_entries st) sid) = Some i \<longleftrightarrow> active ?s i \<and> entry_session ?s i = sid" for sid i
    using assms sess[of i] act[of i] map_unique[OF assms(1) _ assms(2), of i] unfolding map_inv_def by (auto simp: active_def)
  ultimately show ?thesis unfolding map_inv_def by (simp add: delete_conv' fun_upd_apply)
qed

lemma map_create:
  assumes "map_inv st"
  shows "map_inv (snd (getOrCreate i0 st))"
proof (cases "\<exists>i. validateIdentity i0 = Inr i \<and> \<not> ow_disposed st \<and> map_of (ow_entries st) (oi_sessionID i) = None")
  case True
  then obtain i where i: "validateIdentity i0 = Inr i" "\<not> ow_disposed st" "map_of (ow_entries st) (oi_sessionID i) = None" by blast
  let ?st' = "snd (getOrCreate i0 st)"
  let ?n = "length (ow_heap st)"
  have heap: "ow_heap ?st' = ow_heap st @ [\<lparr>se_identity = i, se_cancelled = False, se_ready = False, se_phase = Creating\<rparr>]"
    and entries: "map_of (ow_entries ?st') = (map_of (ow_entries st))(oi_sessionID i \<mapsto> ?n)"
    using i by (simp_all add: getOrCreate_def update_conv')
  have act: "active ?st' e \<longleftrightarrow> active st e \<or> e = ?n" for e
    by (auto simp: active_def entry_at_def heap nth_append)
  have sess: "entry_session ?st' e = (if e = ?n then oi_sessionID i else entry_session st e)" if "e \<le> ?n" for e
    using that by (simp add: entry_session_def entry_at_def heap nth_append)
  have old: "entry_session st e \<noteq> oi_sessionID i" if "active st e" for e using assms i(3) that by (metis map_inv_def option.distinct(1))
  show ?thesis
    unfolding map_inv_def entries act
    using assms sess old unfolding map_inv_def by (auto simp: active_def)
next
  case False
  then show ?thesis using assms by (auto simp: getOrCreate_def split: sum.splits option.splits if_splits)
qed

text \<open>Calls that are waiting wait for entries, and once the owner is disposed every entry that has not ended has one and is cancelled.\<close>

definition closers_inv :: "owner \<Rightarrow> bool" where
  "closers_inv st \<longleftrightarrow> (\<forall>e \<in> set (ow_closers st). e < length (ow_heap st))
     \<and> (ow_disposed st \<longrightarrow> (\<forall>e. active st e \<longrightarrow> e \<in> set (ow_closers st) \<and> se_cancelled (entry_at st e)))"

definition owner_inv :: "owner \<Rightarrow> bool" where
  "owner_inv st \<longleftrightarrow> map_inv st \<and> closers_inv st"

lemma cell_length [simp]: "length (ow_heap (set_phase e p st)) = length (ow_heap st)" "ow_closers (set_phase e p st) = ow_closers st"
  "ow_disposed (set_phase e p st) = ow_disposed st" "ow_entries (set_phase e p st) = ow_entries st"
  "ow_closers (forget e st) = ow_closers st" "ow_disposed (forget e st) = ow_disposed st" "ow_heap (forget e st) = ow_heap st"
  by (simp_all add: set_phase_def forget_def Let_def)

lemma closers_cell:
  assumes "closers_inv st" and "cell_step e st st'" and "active st e"
    and "ow_disposed st' = ow_disposed st" and "ow_closers st' = ow_closers st" and "se_cancelled (entry_at st' e) = se_cancelled (entry_at st e)"
  shows "closers_inv st'"
proof -
  have "active st i \<and> se_cancelled (entry_at st' i) = se_cancelled (entry_at st i)" if "active st' i" for i
    using assms(2,3,6) that by (cases "i = e") (auto simp: active_def cell_step_def)
  moreover have "length (ow_heap st') = length (ow_heap st)" using assms(2) by (simp add: cell_step_def)
  ultimately show ?thesis using assms(1,4,5) by (auto simp: closers_inv_def)
qed

lemma active_forget [simp]: "active (forget e st) = active st" "entry_at (forget e st) = entry_at st"
  by (auto simp: active_def forget_def entry_at_def Let_def fun_eq_iff)

lemma closers_forget [simp]: "closers_inv (forget e st) = closers_inv st"
  by (simp add: closers_inv_def)

lemma set_phase_cell [simp]: "e < length (ow_heap st) \<Longrightarrow> se_cancelled (entry_at (set_phase e p st) e) = se_cancelled (entry_at st e)"
  "e < length (ow_heap st) \<Longrightarrow> se_phase (entry_at (set_phase e p st) e) = p"
  by (simp_all add: set_phase_def entry_at_def)

lemma inv_set_phase:
  assumes "owner_inv st" and "active st e" and "\<not> over p"
  shows "owner_inv (set_phase e p st)"
proof -
  have e: "e < length (ow_heap st)" "\<not> over (se_phase (entry_at st e))" using assms(2) by (simp_all add: active_def)
  then show ?thesis
    using assms map_cell[OF _ cell_set[OF e(1)], of p] closers_cell[OF _ cell_set[OF e(1)] assms(2), of p] by (simp add: owner_inv_def)
qed

lemma inv_end: "owner_inv st \<Longrightarrow> active st e \<Longrightarrow> owner_inv (end_entry e how st)"
  using map_end[of st e how] closers_cell[OF _ cell_set, of st e "Ended how"] by (simp add: owner_inv_def end_entry_def active_def)

lemma inv_resolves:
  assumes "owner_inv st" and "active st e"
  shows "owner_inv (factory_resolves e st)"
proof (cases "se_cancelled (entry_at st e)")
  case False
  let ?st' = "st\<lparr>ow_heap := (ow_heap st)[e := (entry_at st e)\<lparr>se_ready := True, se_phase := Live\<rparr>]\<rparr>"
  have e: "e < length (ow_heap st)" "\<not> over (se_phase (entry_at st e))" using assms(2) by (simp_all add: active_def)
  have cell: "cell_step e st ?st'" using e by (simp add: cell_step_def entry_at_def)
  have "map_inv ?st'" using assms(1) e by (intro map_cell[OF _ cell]) (simp_all add: owner_inv_def entry_at_def)
  moreover have "closers_inv ?st'" using assms(1) e by (intro closers_cell[OF _ cell assms(2)]) (simp_all add: owner_inv_def entry_at_def)
  ultimately show ?thesis using False by (simp add: factory_resolves_def owner_inv_def)
qed (use assms in \<open>simp add: factory_resolves_def inv_set_phase\<close>)

lemma inv_handle_close: "owner_inv st \<Longrightarrow> e < length (ow_heap st) \<Longrightarrow> owner_inv (handle_close e st)"
  by (simp add: handle_close_def inv_set_phase active_def)

lemma forget_over: "map_inv st \<Longrightarrow> \<not> active st e \<Longrightarrow> forget e st = st"
  by (auto simp: forget_def Let_def dest: map_active)

lemma inv_finished:
  assumes "owner_inv st" and "in_phase st e (Ended how)"
  shows "owner_inv (snd (closer_ends e how st))"
proof -
  let ?s = "st\<lparr>ow_closers := remove1 e (ow_closers st)\<rparr>"
  have "active ?s = active st" "entry_session ?s = entry_session st" "entry_at ?s = entry_at st" by (simp_all add: active_def entry_session_def entry_at_def fun_eq_iff)
  moreover have over: "\<not> active st e" using assms(2) by (simp add: active_def)
  moreover from over have "active st i \<Longrightarrow> i \<in> set (ow_closers st) \<Longrightarrow> i \<in> set (remove1 e (ow_closers st))" for i
    by (metis in_set_remove1)
  ultimately show ?thesis
    using assms(1) forget_over[of ?s e]
    by (auto simp: owner_inv_def closer_ends_def map_inv_def closers_inv_def dest: set_remove1_subset[THEN subsetD])
qed

lemma work_keeps: "work_step st st' \<Longrightarrow> owner_inv st \<Longrightarrow> owner_inv st'"
  by (induction rule: work_step.induct)
    (simp_all add: inv_resolves inv_end inv_handle_close inv_finished factory_rejects_def late_closed_def backend_closed_def closer_resumes_def active_def)

lemma inv_getOrCreate: "owner_inv st \<Longrightarrow> owner_inv (snd (getOrCreate i st))"
  using map_create[of st i] by (auto simp: owner_inv_def getOrCreate_def closers_inv_def split: sum.splits option.splits if_splits)

lemma close_entries: "ow_entries (snd (owner_close sid d st)) = ow_entries st" "ow_disposed (snd (owner_close sid d st)) = ow_disposed st"
  "set (ow_closers st) \<subseteq> set (ow_closers (snd (owner_close sid d st)))"
  by (auto simp: owner_close_def split: option.splits)

lemma close_cell:
  assumes "map_inv st" and "map_of (ow_entries st) sid = Some e"
  shows "cell_step e st (st\<lparr>ow_heap := (ow_heap st)[e := (entry_at st e)\<lparr>se_cancelled := True\<rparr>], ow_closers := e # ow_closers st\<rparr>)"
  using map_active[OF assms] by (simp add: cell_step_def entry_at_def)

lemma map_close: "map_inv st \<Longrightarrow> map_inv (snd (owner_close sid d st))"
  using map_cell[OF _ close_cell, of st sid] map_active[of st sid] by (auto simp: owner_close_def entry_at_def split: option.splits)

text \<open>What a call of \<open>close\<close> leaves: nothing is cancelled back, the entries are the same, and the one it names is cancelled and waited for.\<close>

lemma close_effect:
  assumes "map_inv st"
  shows "length (ow_heap (snd (owner_close sid d st))) = length (ow_heap st)"
    and "active (snd (owner_close sid d st)) = active st"
    and "se_cancelled (entry_at st i) \<Longrightarrow> i < length (ow_heap st) \<Longrightarrow> se_cancelled (entry_at (snd (owner_close sid d st)) i)"
    and "i \<in> set (ow_closers (snd (owner_close sid d st))) \<Longrightarrow> i \<in> set (ow_closers st) \<or> i < length (ow_heap st)"
    and "map_of (ow_entries st) sid = Some e \<Longrightarrow>
      e \<in> set (ow_closers (snd (owner_close sid None st))) \<and> se_cancelled (entry_at (snd (owner_close sid None st)) e)"
  using map_active[OF assms, of sid]
  by (auto simp: owner_close_def active_def entry_at_def nth_list_update fun_eq_iff split: option.splits if_splits)

lemma inv_close: "owner_inv st \<Longrightarrow> owner_inv (snd (owner_close sid d st))"
  using map_close[of st sid d] close_effect(1-4)[where st = st and sid = sid and d = d] close_entries[where sid = sid and d = d and st = st]
  by (fastforce simp: owner_inv_def closers_inv_def active_def)

text \<open>Disposing cancels every entry of the map.\<close>

lemma fold_close:
  "map_inv st \<Longrightarrow> st' = fold (\<lambda>sid s. snd (owner_close sid None s)) sids st \<Longrightarrow>
    map_inv st' \<and> ow_entries st' = ow_entries st \<and> ow_disposed st' = ow_disposed st \<and> active st' = active st \<and> length (ow_heap st') = length (ow_heap st)
    \<and> set (ow_closers st) \<subseteq> set (ow_closers st') \<and> set (ow_closers st') \<subseteq> set (ow_closers st) \<union> {..<length (ow_heap st)}
    \<and> (\<forall>i < length (ow_heap st). se_cancelled (entry_at st i) \<longrightarrow> se_cancelled (entry_at st' i))
    \<and> (\<forall>sid \<in> set sids. \<forall>e. map_of (ow_entries st) sid = Some e \<longrightarrow> e \<in> set (ow_closers st') \<and> se_cancelled (entry_at st' e))"
proof (induction sids arbitrary: st)
  case (Cons sid sids)
  let ?s = "snd (owner_close sid None st)"
  note eff = close_effect[OF Cons.prems(1)] close_entries[where sid = sid and d = None and st = st]
  have IH: "map_inv st' \<and> ow_entries st' = ow_entries ?s \<and> ow_disposed st' = ow_disposed ?s \<and> active st' = active ?s \<and> length (ow_heap st') = length (ow_heap ?s)
    \<and> set (ow_closers ?s) \<subseteq> set (ow_closers st') \<and> set (ow_closers st') \<subseteq> set (ow_closers ?s) \<union> {..<length (ow_heap ?s)}
    \<and> (\<forall>i < length (ow_heap ?s). se_cancelled (entry_at ?s i) \<longrightarrow> se_cancelled (entry_at st' i))
    \<and> (\<forall>sid \<in> set sids. \<forall>e. map_of (ow_entries ?s) sid = Some e \<longrightarrow> e \<in> set (ow_closers st') \<and> se_cancelled (entry_at st' e))"
    using Cons.prems by (intro Cons.IH) (simp_all add: map_close)
  moreover have "set (ow_closers ?s) \<subseteq> set (ow_closers st) \<union> {..<length (ow_heap st)}" using eff(4) by blast
  moreover have "e \<in> set (ow_closers st') \<and> se_cancelled (entry_at st' e)" if "map_of (ow_entries st) sid = Some e" for e
    using IH eff(5)[OF that] map_active[OF Cons.prems(1) that] eff(1) by auto
  ultimately show ?case using eff by auto
qed auto

lemma inv_dispose: "owner_inv st \<Longrightarrow> owner_inv (dispose st)"
proof (cases "ow_disposed st")
  case False
  assume inv: "owner_inv st"
  let ?s = "st\<lparr>ow_disposed := True\<rparr>"
  have same: "active ?s = active st" "entry_session ?s = entry_session st" "entry_at ?s = entry_at st" by (simp_all add: active_def entry_session_def entry_at_def fun_eq_iff)
  have m: "map_inv ?s" using inv by (simp add: owner_inv_def map_inv_def same)
  have d: "dispose st = fold (\<lambda>sid s. snd (owner_close sid None s)) (map fst (ow_entries st)) ?s" using False by (simp add: dispose_def)
  note F = fold_close[OF m d]
  have "e \<in> set (ow_closers (dispose st)) \<and> se_cancelled (entry_at (dispose st) e)" if "active (dispose st) e" for e
  proof -
    have "map_of (ow_entries st) (entry_session st e) = Some e" using F that inv by (simp add: same owner_inv_def map_inv_def)
    moreover from this have "entry_session st e \<in> set (map fst (ow_entries st))" by (auto dest!: map_of_SomeD intro: rev_image_eqI)
    ultimately show ?thesis using F by auto
  qed
  moreover have "\<forall>e \<in> set (ow_closers (dispose st)). e < length (ow_heap (dispose st))" using F inv by (auto simp: owner_inv_def closers_inv_def)
  ultimately show ?thesis using F by (simp add: owner_inv_def closers_inv_def)
qed (simp add: dispose_def)

lemma owner_run_inv: "owner_run st \<Longrightarrow> owner_inv st"
proof (induction rule: owner_run.induct)
  case new
  show ?case by (simp add: owner_inv_def map_inv_def closers_inv_def new_owner_def active_def)
qed (simp_all add: inv_getOrCreate inv_close inv_handle_close inv_dispose work_keeps)

lemma created_entry:
  assumes "owner_inv st" and "getOrCreate i st = (Inr e, st')"
  shows "active st' e \<and> entry_session st' e = oi_sessionID i \<and> oi_directory (se_identity (entry_at st' e)) = oi_directory i"
proof (cases "map_of (ow_entries st) (oi_sessionID i)")
  case None
  then show ?thesis using assms(2)
    by (auto simp: getOrCreate_def validateIdentity_def active_def entry_session_def entry_at_def nth_append split: if_splits)
next
  case (Some a)
  then show ?thesis using assms map_active[of st "oi_sessionID i" a]
    by (auto simp: getOrCreate_def validateIdentity_def owner_inv_def split: if_splits)
qed

text \<open>
  (C18) Never two backends for one session. In every run, whatever callers ask, close and dispose and in whatever
  order creations and closings finish, at most one entry of a session has not ended; the map holds exactly the
  entries that have not ended; and a caller that asks for a session is given that one entry, for the directory
  it named.
\<close>

theorem one_backend_per_session:
  assumes "owner_run st"
  shows "(active st i \<and> active st j \<and> entry_session st i = entry_session st j \<longrightarrow> i = j)
    \<and> (map_of (ow_entries st) sid = Some e \<longleftrightarrow> active st e \<and> entry_session st e = sid)
    \<and> (getOrCreate identity st = (Inr e, st') \<longrightarrow> active st' e \<and> entry_session st' e = oi_sessionID identity \<and> oi_directory (se_identity (entry_at st' e)) = oi_directory identity)"
  using owner_run_inv[OF assms] map_unique[of st i j] created_entry[of st identity e st'] by (auto simp: owner_inv_def map_inv_def)

section \<open>Disposal\<close>

fun rank :: "phase \<Rightarrow> nat" where
  "rank Creating = 3"
| "rank Live = 2"
| "rank Closing_late = 1"
| "rank Closing = 1"
| "rank (Ended _) = 0"

definition work_left :: "owner \<Rightarrow> nat" where
  "work_left st = sum_list (map (\<lambda>x. rank (se_phase x)) (ow_heap st)) + length (ow_closers st)"

lemma sum_list_update_less: "i < length xs \<Longrightarrow> f y < f (xs ! i) \<Longrightarrow> sum_list (map f (xs[i := y])) < (sum_list (map f xs) :: nat)"
  by (induction xs arbitrary: i) (auto split: nat.splits)

lemma work_set_phase: "e < length (ow_heap st) \<Longrightarrow> rank p < rank (se_phase (entry_at st e)) \<Longrightarrow> work_left (set_phase e p st) < work_left st"
  by (simp add: work_left_def set_phase_def entry_at_def sum_list_update_less)

lemma work_forget [simp]: "work_left (forget e st) = work_left st"
  by (simp add: work_left_def)

lemma work_decreases: "work_step st st' \<Longrightarrow> work_left st' < work_left st \<and> ow_disposed st' = ow_disposed st"
proof (induction rule: work_step.induct)
  case (created st e)
  then show ?case by (auto simp: factory_resolves_def work_set_phase) (simp add: work_left_def entry_at_def sum_list_update_less)
next
  case (finished e st how)
  then have "length (remove1 e (ow_closers st)) < length (ow_closers st)" by (simp add: length_remove1) (metis length_pos_if_in_set diff_Suc_less One_nat_def)
  then show ?case by (simp add: closer_ends_def) (simp add: work_left_def)
qed (simp_all add: factory_rejects_def late_closed_def backend_closed_def closer_resumes_def handle_close_def end_entry_def work_set_phase)

text \<open>
  (C39) Disposal completes. In a disposed owner, as long as an entry has not ended, some backend or some waiting
  call can still take a step; every such step leaves strictly less to do and the owner disposed; and when all
  entries have ended the map is empty. So after finitely many steps every backend has been closed.
\<close>

theorem disposal_completes:
  assumes "owner_run st" and "ow_disposed st"
  shows "(if \<exists>e. active st e then \<exists>st'. work_step st st' else ow_entries st = [])
    \<and> (\<forall>st'. work_step st st' \<longrightarrow> work_left st' < work_left st \<and> ow_disposed st')"
proof -
  note inv = owner_run_inv[OF assms(1)]
  have "\<exists>st'. work_step st st'" if "active st e" for e
  proof -
    have e: "e < length (ow_heap st)" "e \<in> set (ow_closers st)" using that inv assms(2) by (auto simp: active_def owner_inv_def closers_inv_def)
    show ?thesis
      using that e by (cases "se_phase (entry_at st e)") (auto simp: active_def intro: work_step.intros)
  qed
  moreover have "ow_entries st = []" if "\<nexists>e. active st e"
  proof (rule ccontr)
    assume "ow_entries st \<noteq> []"
    then obtain sid e where "map_of (ow_entries st) sid = Some e" by (metis list.exhaust map_of_Cons_code(2) surj_pair)
    then show False using inv that by (auto simp: owner_inv_def map_inv_def)
  qed
  ultimately show ?thesis using work_decreases assms(2) by auto
qed

text \<open>
  A caller that asks for a session while its backend is closing is given the closing handle, which refuses every
  call; and a creation that fails after \<open>close\<close> was called makes that call throw, as it does when the backend of
  a cancelled creation cannot be closed.
\<close>

lemma joins_closing_handle:
  assumes "owner_run st" and "\<not> ow_disposed st" and "in_phase st e Closing" and "validateIdentity (se_identity (entry_at st e)) = Inr (se_identity (entry_at st e))"
  shows "getOrCreate (se_identity (entry_at st e)) st = (Inr e, st) \<and> handle_callTool e st = Inl (JsError ''is closing or closed'')"
proof -
  have "map_of (ow_entries st) (entry_session st e) = Some e"
    using owner_run_inv[OF assms(1)] assms(3) by (simp add: owner_inv_def map_inv_def active_def)
  then show ?thesis using assms by (simp add: getOrCreate_def handle_callTool_def entry_session_def)
qed

lemma failed_creation_surfaces: "close_result ready Creation_failed = Inl (JsError ''creation failed'')" "close_result False Cancelled = Inr True"
  by (simp_all add: close_result_def)

section \<open>Witnesses\<close>

definition demo_session :: OpenCodeSessionIdentity where
  "demo_session = \<lparr>oi_sessionID = ''s'', oi_directory = ''/w''\<rparr>"

lemma demo_owner: "owner_run (dispose (snd (getOrCreate demo_session new_owner)))"
  by (intro owner_run.disposes owner_run.asked owner_run.new)

lemma demo_owner_state: "dispose (snd (getOrCreate demo_session new_owner)) =
  \<lparr>ow_heap = [\<lparr>se_identity = demo_session, se_cancelled = True, se_ready = False, se_phase = Creating\<rparr>], ow_entries = [(''s'', 0)], ow_disposed = True, ow_closers = [0]\<rparr>"
  by (simp add: dispose_def getOrCreate_def validateIdentity_def demo_session_def new_owner_def owner_close_def entry_at_def trim_def is_space_def
      is_absolute_def starts_with_def MAX_SESSION_ID_LENGTH_def)

theorem one_backend_per_session_witness: "map_of (ow_entries (dispose (snd (getOrCreate demo_session new_owner)))) ''s'' = Some 0"
proof -
  have "active (dispose (snd (getOrCreate demo_session new_owner))) 0 \<and> entry_session (dispose (snd (getOrCreate demo_session new_owner))) 0 = ''s''"
    unfolding demo_owner_state by (simp add: active_def entry_session_def entry_at_def demo_session_def)
  then show ?thesis using one_backend_per_session[OF demo_owner] by blast
qed

theorem disposal_completes_witness: "\<exists>st'. work_step (dispose (snd (getOrCreate demo_session new_owner))) st'"
proof -
  have "active (dispose (snd (getOrCreate demo_session new_owner))) 0" by (simp add: demo_owner_state active_def entry_at_def)
  then show ?thesis using disposal_completes[OF demo_owner] by (auto simp: demo_owner_state split: if_splits)
qed

end
