(* ===== verification/Diagnostics.thy ===== *)
theory Diagnostics
  imports Runtime_Adapters Agent_Discovery Session_Store
begin

text \<open>
  The reports on agents and messages: \<open>src/src/core/agent-diagnostics.ts\<close>, \<open>doctor-probe.ts\<close> and the tools of
  \<open>registered-shell/diagnostic-tools.ts\<close>. They only read, and they read one key after the other: a report is a
  computation of several steps with interference between them. The pool of workers of \<open>find\<close> keeps the order of
  its results; it is a sequence of steps here. The working directory of the process is a parameter, as is what
  the probed runtime answers.
\<close>

section \<open>Stored values\<close>

definition json_or_null :: "runtime \<Rightarrow> string option \<Rightarrow> json" where
  "json_or_null E raw = (case Option.bind raw (JSON_parse E) of Some j \<Rightarrow> j | None \<Rightarrow> JNull)"

fun record_or_empty :: "json option \<Rightarrow> (string, json) fmap" where
  "record_or_empty (Some (JObj m)) = m"
| "record_or_empty _ = fmempty"

definition text_member :: "(string, json) fmap \<Rightarrow> string \<Rightarrow> string option" where
  "text_member m k = (case fmlookup m k of Some (JStr s) \<Rightarrow> Some s | _ \<Rightarrow> None)"

datatype AgentKind = Controller | Worker | Interactive | Unknown_kind

fun kind :: "json option \<Rightarrow> AgentKind" where
  "kind (Some (JStr s)) =
     (if s = ''controller'' then Controller else if s = ''worker'' then Worker else if s = ''interactive'' then Interactive else Unknown_kind)"
| "kind _ = Unknown_kind"

record AgentProfile =
  ap_label :: "string option"
  ap_purpose :: "string option"
  ap_kind :: AgentKind

definition safeProfile :: "runtime \<Rightarrow> string option \<Rightarrow> AgentProfile option" where
  "safeProfile E raw =
     (let parsed = record_or_empty (Some (json_or_null E raw)) in
      if parsed = fmempty then None
      else Some \<lparr>ap_label = text_member parsed ''label'', ap_purpose = text_member parsed ''purpose'', ap_kind = kind (fmlookup parsed ''kind'')\<rparr>)"

text \<open>\<open>storedBindingSchema\<close> on the four members it is given.\<close>

definition safeBinding :: "runtime \<Rightarrow> string option \<Rightarrow> RuntimeIdentity option" where
  "safeBinding E raw =
     (let m = record_or_empty (Some (json_or_null E raw)) in
      case (text_member m ''client'', text_member m ''runtime_id'', text_member m ''epoch'', text_member m ''working_directory'') of
        (Some c, Some r, Some e, Some w) \<Rightarrow>
          if c \<in> {''codex'', ''pi'', ''opencode''} \<and> r \<noteq> [] \<and> length r \<le> 200 \<and> e \<noteq> [] \<and> length e \<le> 200 \<and> is_absolute w
          then Some \<lparr>id_client = c, id_runtime_id = r, id_epoch = e, id_working_directory = w\<rparr> else None
      | _ \<Rightarrow> None)"

section \<open>Readiness\<close>

datatype ActivationReadiness = Unknown_legacy | Offline | Unbound | Bound_unverified | Ready

definition tool_names :: "(string, json) fmap \<Rightarrow> string list" where
  "tool_names metadata =
     (case fmlookup metadata ''tool_names'' of Some (JArr xs) \<Rightarrow> List.map_filter (\<lambda>x. case x of JStr s \<Rightarrow> Some s | _ \<Rightarrow> None) xs | _ \<Rightarrow> [])"

definition protocol_version :: "runtime \<Rightarrow> (string, json) fmap \<Rightarrow> string option" where
  "protocol_version E metadata = (case fmlookup metadata ''protocol_version'' of Some (JStr s) \<Rightarrow> Some s | Some (JNum n) \<Rightarrow> Some (number_text E n) | _ \<Rightarrow> None)"

definition is_published :: "runtime \<Rightarrow> (string, json) fmap \<Rightarrow> bool" where
  "is_published E metadata \<longleftrightarrow> protocol_version E metadata \<noteq> None \<and> ''get_runtime_status'' \<in> set (tool_names metadata) \<and> ''bind_runtime'' \<in> set (tool_names metadata)"

definition readiness_of :: "bool \<Rightarrow> bool \<Rightarrow> bool \<Rightarrow> ActivationReadiness" where
  "readiness_of online bound published = (if \<not> online then Offline else if bound then Bound_unverified else if \<not> published then Unknown_legacy else Unbound)"

text \<open>Published, readiness, and \<open>activation_ready\<close>, which is null (\<open>None\<close>) where only a probe can tell.\<close>

definition deriveReadiness :: "runtime \<Rightarrow> bool \<Rightarrow> RuntimeIdentity option \<Rightarrow> (string, json) fmap \<Rightarrow> bool \<times> ActivationReadiness \<times> bool option" where
  "deriveReadiness E online binding metadata =
     (let published = is_published E metadata; readiness = readiness_of online (binding \<noteq> None) published in
      (published, readiness, if readiness = Bound_unverified then None else Some False))"

definition sameDirectory_opt :: "string \<Rightarrow> string option \<Rightarrow> string \<Rightarrow> bool" where
  "sameDirectory_opt cwd a b \<longleftrightarrow> (case a of None \<Rightarrow> False | Some x \<Rightarrow> path_resolve cwd x = path_resolve cwd b)"

section \<open>Details of an agent\<close>

record DiagnosticsDetails =
  dd_name :: string
  dd_discovery :: "AgentDiscoveryRecord option"
  dd_profile :: "AgentProfile option"
  dd_protocol_version :: "string option"
  dd_tool_names :: "string list"
  dd_published :: bool
  dd_online :: bool
  dd_runtime_binding :: "RuntimeIdentity option"
  dd_state :: "string option"
  dd_attempt :: "int option"
  dd_readiness :: ActivationReadiness
  dd_activation_ready :: "bool option"
  dd_queue :: "nat \<times> nat \<times> nat"       \<comment> \<open>queued, claimed, dead lettered\<close>
  dd_evidence_at :: string
  dd_next_action :: string

fun readiness_text :: "ActivationReadiness \<Rightarrow> string" where
  "readiness_text Unknown_legacy = ''unknown_legacy''"
| "readiness_text Offline = ''offline''"
| "readiness_text Unbound = ''unbound''"
| "readiness_text Bound_unverified = ''bound_unverified''"
| "readiness_text Ready = ''ready''"

definition unknown_agent :: "string \<Rightarrow> string \<Rightarrow> DiagnosticsDetails" where
  "unknown_agent at agent =
     \<lparr>dd_name = agent, dd_discovery = None, dd_profile = None, dd_protocol_version = None, dd_tool_names = [], dd_published = False, dd_online = False,
      dd_runtime_binding = None, dd_state = None, dd_attempt = None, dd_readiness = Offline, dd_activation_ready = Some False, dd_queue = (0, 0, 0),
      dd_evidence_at = at, dd_next_action = ''unknown_agent''\<rparr>"

definition isOnline :: "string \<Rightarrow> ('z world_scheme, bool) comp" where
  "isOnline agent = bindM (getPresence agent) (\<lambda>p. if p_online p then ret True else atomic (EXISTS (heartbeat_key agent)))"

definition registration_discovery :: "runtime \<Rightarrow> string \<Rightarrow> bool \<Rightarrow> (string, json) fmap \<Rightarrow> AgentDiscoveryRecord" where
  "registration_discovery E agent online reg =
     discoveryRecord E agent (case text_member reg ''role'' of Some r \<Rightarrow> r | None \<Rightarrow> ''unknown'') (text_member reg ''description'') online
       (fmlookup reg ''registered_at'') (fmlookup reg ''pid'') (fmlookup reg ''metadata'')"

definition safe_attempt :: "json option \<Rightarrow> int option" where
  "safe_attempt v = (case v of Some (JNum (JInt n)) \<Rightarrow> if \<bar>n\<bar> \<le> max_safe_integer then Some n else None | _ \<Rightarrow> None)"

definition details_report :: "runtime \<Rightarrow> string \<Rightarrow> string \<Rightarrow> (string, json) fmap \<Rightarrow> bool \<Rightarrow> string option \<Rightarrow> string option \<Rightarrow> string option
    \<Rightarrow> nat \<times> nat \<times> nat \<Rightarrow> DiagnosticsDetails" where
  "details_report E at agent reg online binding_raw operation_raw profile_raw depths =
     (let metadata = record_or_empty (fmlookup reg ''metadata''); binding = safeBinding E binding_raw;
          operation = record_or_empty (Some (json_or_null E operation_raw));
          (published, readiness, ready) = deriveReadiness E online binding metadata in
      \<lparr>dd_name = agent, dd_discovery = Some (registration_discovery E agent online reg), dd_profile = safeProfile E profile_raw,
       dd_protocol_version = protocol_version E metadata, dd_tool_names = take 100 (tool_names metadata), dd_published = published, dd_online = online,
       dd_runtime_binding = binding, dd_state = text_member operation ''state'', dd_attempt = safe_attempt (fmlookup operation ''attempt''),
       dd_readiness = readiness, dd_activation_ready = ready, dd_queue = depths, dd_evidence_at = at,
       dd_next_action = (if readiness = Bound_unverified then ''probe_exact_runtime_before_relying_on_activation'' else readiness_text readiness)\<rparr>)"

definition read_report :: "runtime \<Rightarrow> string \<Rightarrow> string \<Rightarrow> (string, json) fmap \<Rightarrow> ('z world_scheme, DiagnosticsDetails) comp" where
  "read_report E at agent reg =
     bindM (isOnline agent) (\<lambda>online.
     bindM (atomic (GET (runtimeBinding_key agent))) (\<lambda>binding_raw.
     bindM (atomic (GET (activation_key agent))) (\<lambda>operation_raw.
     bindM (atomic (GET (agentProfile_key agent))) (\<lambda>profile_raw.
     bindM (atomic (LLEN (queue_key agent))) (\<lambda>queued.
     bindM (atomic (ZCARD (claimsIndex_key agent))) (\<lambda>claimed.
     bindM (atomic (LLEN (dlq_key agent))) (\<lambda>dead.
     ret (details_report E at agent reg online binding_raw operation_raw profile_raw (queued, claimed, dead)))))))))"

definition details :: "runtime \<Rightarrow> string \<Rightarrow> string \<Rightarrow> ('z world_scheme, DiagnosticsDetails) comp" where
  "details E at agent =
     bindM (atomic (HGET registry_key agent)) (\<lambda>raw.
     let reg = record_or_empty (Some (json_or_null E raw)) in
     if nonempty raw = None \<or> reg = fmempty then ret (unknown_agent at agent) else read_report E at agent reg)"

section \<open>Finding agents\<close>

record FindFilters =
  ff_query :: "string option"
  ff_client :: "string option"
  ff_cwd :: "string option"
  ff_working_directory :: "string option"
  ff_kind :: "AgentKind option"
  ff_activation_ready :: "bool option"
  ff_online :: "bool option"
  ff_limit :: "int option"

definition page_limit :: "FindFilters \<Rightarrow> nat" where
  "page_limit f = nat (min 100 (max 1 (case ff_limit f of None \<Rightarrow> 50 | Some n \<Rightarrow> n)))"

definition filter_directory :: "FindFilters \<Rightarrow> string option" where
  "filter_directory f = (case ff_working_directory f of Some w \<Rightarrow> Some w | None \<Rightarrow> ff_cwd f)"

definition search_text :: "string \<Rightarrow> string \<Rightarrow> string option \<Rightarrow> string option \<Rightarrow> string" where
  "search_text name label profile_label purpose =
     lower_text (concat (name # map ((#) (CHR '' '')) (label # List.map_filter id [profile_label, purpose])))"

text \<open>The filters, on what one name shows; an empty query filters nothing.\<close>

definition passes :: "string \<Rightarrow> FindFilters \<Rightarrow> string \<Rightarrow> AgentDiscoveryRecord \<Rightarrow> string option \<Rightarrow> string option \<Rightarrow> AgentKind
    \<Rightarrow> RuntimeIdentity option \<Rightarrow> bool option \<Rightarrow> bool \<Rightarrow> bool" where
  "passes cwd f name discovery profile_label purpose k binding ready online \<longleftrightarrow>
     (case nonempty (ff_query f) of None \<Rightarrow> True | Some q \<Rightarrow> contains_text (lower_text q) (search_text name (dm_label discovery) profile_label purpose))
     \<and> (case ff_client f of None \<Rightarrow> True | Some c \<Rightarrow> (case binding of Some b \<Rightarrow> Some (id_client b) | None \<Rightarrow> dm_client discovery) = Some c)
     \<and> (case filter_directory f of None \<Rightarrow> True
        | Some w \<Rightarrow> sameDirectory_opt cwd (case binding of Some b \<Rightarrow> Some (id_working_directory b) | None \<Rightarrow> dm_working_directory discovery) w)
     \<and> (case ff_kind f of None \<Rightarrow> True | Some x \<Rightarrow> k = x)
     \<and> (case ff_activation_ready f of None \<Rightarrow> True | Some b \<Rightarrow> ready = Some b)
     \<and> (case ff_online f of None \<Rightarrow> True | Some b \<Rightarrow> online = b)"

definition needProfile :: "FindFilters \<Rightarrow> bool" where
  "needProfile f \<longleftrightarrow> ff_query f \<noteq> None \<or> ff_kind f \<noteq> None"

definition needBinding :: "FindFilters \<Rightarrow> bool" where
  "needBinding f \<longleftrightarrow> ff_client f \<noteq> None \<or> filter_directory f \<noteq> None \<or> ff_activation_ready f \<noteq> None"

definition needOnline :: "FindFilters \<Rightarrow> bool" where
  "needOnline f \<longleftrightarrow> ff_online f \<noteq> None \<or> ff_activation_ready f \<noteq> None"

definition matches_name :: "runtime \<Rightarrow> string \<Rightarrow> FindFilters \<Rightarrow> string \<times> string \<Rightarrow> ('z world_scheme, bool) comp" where
  "matches_name E cwd f entry =
     (case entry of (name, raw) \<Rightarrow>
     bindM (if needProfile f then bindM (atomic (GET (agentProfile_key name))) (\<lambda>r. ret (record_or_empty (Some (json_or_null E r)))) else ret fmempty) (\<lambda>profile.
     bindM (if needBinding f then bindM (atomic (GET (runtimeBinding_key name))) (\<lambda>r. ret (safeBinding E r)) else ret None) (\<lambda>binding.
     bindM (if needOnline f then isOnline name else ret False) (\<lambda>online.
     let reg = record_or_empty (Some (json_or_null E (Some raw))); metadata = record_or_empty (fmlookup reg ''metadata'');
         discovery = registration_discovery E name False (fmupd ''metadata'' (JObj metadata) reg);
         (_, _, ready) = deriveReadiness E online binding metadata in
     ret (passes cwd f name discovery (text_member profile ''label'') (text_member profile ''purpose'') (kind (fmlookup profile ''kind'')) binding ready online)))))"

datatype resolution = Unique_match | Ambiguous_match | No_match

record FindResult =
  fr_matches :: "DiagnosticsDetails list"
  fr_total_matches :: nat
  fr_truncated :: bool
  fr_resolution :: resolution

definition find_agents :: "runtime \<Rightarrow> string \<Rightarrow> string \<Rightarrow> FindFilters \<Rightarrow> ('z world_scheme, FindResult) comp" where
  "find_agents E cwd at f =
     bindM (atomic (HGETALL registry_key)) (\<lambda>registry.
     bindM (mapM (matches_name E cwd f) registry) (\<lambda>matched.
     let names = map fst (map fst (filter snd (zip registry matched))); total = length names in
     bindM (mapM (details E at) (take (page_limit f) names)) (\<lambda>page.
     ret \<lparr>fr_matches = page, fr_total_matches = total, fr_truncated = (page_limit f < total),
          fr_resolution = (if total = 1 then Unique_match else if 1 < total then Ambiguous_match else No_match)\<rparr>)))"

section \<open>Delivery of a message\<close>

datatype DeliveryStatus = Delivery_queued | Delivery_claimed | Delivery_claim_expired | Delivery_dead_lettered | Delivery_acknowledged | Unknown_history

definition has_id :: "runtime \<Rightarrow> string \<Rightarrow> string \<Rightarrow> bool" where
  "has_id E messageId raw \<longleftrightarrow> text_member (record_or_empty (Some (json_or_null E (Some raw)))) ''id'' = Some messageId"

definition claim_holds :: "runtime \<Rightarrow> string \<Rightarrow> (string, json) fmap \<Rightarrow> bool" where
  "claim_holds E messageId c =
     (case fmlookup c ''tasks'' of Some (JArr xs) \<Rightarrow> list_ex (\<lambda>x. case x of JStr raw \<Rightarrow> has_id E messageId raw | _ \<Rightarrow> False) xs | _ \<Rightarrow> False)"

text \<open>\<open>String(c.expires_at)\<close>, \<open>None\<close> where it throws, and whether the date lies in the past.\<close>

definition expired_text :: "runtime \<Rightarrow> int \<Rightarrow> json option \<Rightarrow> bool option" where
  "expired_text E now v =
     map_option (\<lambda>t. case date_parse E t of Some ms \<Rightarrow> ms < now | None \<Rightarrow> False) (case v of None \<Rightarrow> Some ''undefined'' | Some j \<Rightarrow> js_text E j)"

fun scan_claims :: "runtime \<Rightarrow> int \<Rightarrow> string \<Rightarrow> (string \<times> string option) list \<Rightarrow> DeliveryStatus \<times> string option \<Rightarrow> exn + DeliveryStatus \<times> string option" where
  "scan_claims E now messageId [] acc = Inr acc"
| "scan_claims E now messageId ((cid, raw) # rest) acc =
     (let c = record_or_empty (Some (json_or_null E raw)) in
      if claim_holds E messageId c
      then (case expired_text E now (fmlookup c ''expires_at'') of
              None \<Rightarrow> Inl (JsError ''Cannot convert object to primitive value'')
            | Some expired \<Rightarrow> scan_claims E now messageId rest (if expired then Delivery_claim_expired else Delivery_claimed, Some cid))
      else scan_claims E now messageId rest acc)"

text \<open>\<open>XREVRANGE k + - COUNT n\<close>, and the two traces that show an acknowledgement, newest first. Texts compare by their bytes.\<close>

definition XREVRANGE_last :: "string \<Rightarrow> nat \<Rightarrow> (db, (string \<times> string) list list) comp" where
  "XREVRANGE_last k n = on_type TStream k (getM (\<lambda>d. take n (rev (stream_at d k))))"

definition trace_field :: "(string \<times> string) list \<Rightarrow> string \<Rightarrow> string option" where
  "trace_field t k = map_of (rev t) k"

definition not_before :: "string option \<Rightarrow> string option \<Rightarrow> bool" where
  "not_before a b = (case (a, b) of (Some x, Some y) \<Rightarrow> y \<le> x | _ \<Rightarrow> False)"

definition acknowledgement :: "string \<Rightarrow> (string \<times> string) list list \<Rightarrow> string option option" where
  "acknowledgement messageId traces =
     (case find (\<lambda>t. trace_field t ''message_id'' = Some messageId \<and> trace_field t ''stage'' = Some ''task_claimed'') traces of
        None \<Rightarrow> None
      | Some claimed \<Rightarrow>
          if list_ex (\<lambda>t. trace_field t ''stage'' = Some ''task_acknowledged'' \<and> trace_field t ''claim_id'' = trace_field claimed ''claim_id''
               \<and> not_before (trace_field t ''timestamp'') (trace_field claimed ''timestamp'')) traces
          then Some (trace_field claimed ''claim_id'') else None)"

record DeliveryDiagnostics =
  de_agent :: string
  de_message_id :: string
  de_status :: DeliveryStatus
  de_claim_id :: "string option"
  de_evidence_at :: string

definition delivery_verdict :: "DeliveryStatus \<times> string option \<Rightarrow> bool \<Rightarrow> string option option \<Rightarrow> DeliveryStatus \<times> string option" where
  "delivery_verdict found dead ack =
     (let status = (if dead then Delivery_dead_lettered else fst found) in
      case ack of Some c \<Rightarrow> if status = Unknown_history then (Delivery_acknowledged, c) else (status, snd found) | None \<Rightarrow> (status, snd found))"

definition delivery_evidence :: "runtime \<Rightarrow> string \<Rightarrow> int \<Rightarrow> string \<Rightarrow> string \<Rightarrow> ('z world_scheme, DeliveryDiagnostics) comp" where
  "delivery_evidence E at now agent messageId =
     bindM (atomic (LRANGE_first (queue_key agent) 1024)) (\<lambda>queued.
     bindM (atomic (ZRANGE_all (claimsIndex_key agent))) (\<lambda>claimIds.
     bindM (if claimIds = [] then ret [] else atomic (HMGET claims_key claimIds)) (\<lambda>raws.
     let first = (if list_ex (has_id E messageId) queued then Delivery_queued else Unknown_history, None) in
     (case scan_claims E now messageId (zip claimIds raws) first of
        Inl e \<Rightarrow> throw e
      | Inr found \<Rightarrow>
          bindM (atomic (LRANGE_first (dlq_key agent) 1024)) (\<lambda>dead.
          bindM (atomic (XREVRANGE_last (inboxTrace_key agent) 1024)) (\<lambda>traces.
          let verdict = delivery_verdict found (list_ex (has_id E messageId) dead) (acknowledgement messageId traces) in
          ret \<lparr>de_agent = agent, de_message_id = messageId, de_status = fst verdict, de_claim_id = snd verdict, de_evidence_at = at\<rparr>))))))"

section \<open>Probes\<close>

record KnownBinding =
  kb_runtime_id :: string
  kb_epoch :: string

text \<open>The status a probed runtime reports, \<open>None\<close> where it is undefined. Members of a value that is no object are undefined.\<close>

definition runtime_member :: "json option \<Rightarrow> string \<Rightarrow> json option" where
  "runtime_member status k = Option.bind (Option.bind status (\<lambda>s. jget s ''runtime'')) (\<lambda>r. jget r k)"

definition bindingAgrees :: "json option \<Rightarrow> KnownBinding option \<Rightarrow> bool option" where
  "bindingAgrees status binding =
     map_option (\<lambda>b. runtime_member status ''runtime_id'' = Some (JStr (kb_runtime_id b)) \<and> runtime_member status ''epoch'' = Some (JStr (kb_epoch b))) binding"

definition probeActivationReady :: "bool \<Rightarrow> json option \<Rightarrow> string option \<Rightarrow> KnownBinding option \<Rightarrow> bool" where
  "probeActivationReady isError status expectedAgent binding \<longleftrightarrow>
     \<not> isError \<and> Option.bind status (\<lambda>s. jget s ''activation_ready'') = Some (JBool True)
     \<and> (case Option.bind status (\<lambda>s. jget s ''agent'') of
          Some (JStr a) \<Rightarrow> a \<noteq> [] \<and> (case expectedAgent of None \<Rightarrow> True | Some x \<Rightarrow> a = x)
        | _ \<Rightarrow> False)
     \<and> (case binding of None \<Rightarrow> True
        | Some b \<Rightarrow> runtime_member status ''runtime_id'' = Some (JStr (kb_runtime_id b)) \<and> runtime_member status ''epoch'' = Some (JStr (kb_epoch b)))"

datatype readiness_evidence = Local_controller | Lease_observation_only | Exact_native_probe | Probe_unavailable

text \<open>\<open>get_agent_details\<close>: the observation, corrected by the local controller or by a probe, which is \<open>None\<close> where the request fails.\<close>

definition probe_ready :: "string \<Rightarrow> RuntimeIdentity \<Rightarrow> bool \<times> json option \<Rightarrow> bool" where
  "probe_ready agent b answer = (case answer of (isError, status) \<Rightarrow>
     \<not> isError \<and> Option.bind status (\<lambda>s. jget s ''agent'') = Some (JStr agent) \<and> Option.bind status (\<lambda>s. jget s ''activation_ready'') = Some (JBool True)
     \<and> runtime_member status ''runtime_id'' = Some (JStr (id_runtime_id b)) \<and> runtime_member status ''epoch'' = Some (JStr (id_epoch b)))"

definition get_agent_details :: "runtime \<Rightarrow> string \<Rightarrow> string \<Rightarrow> bool \<Rightarrow> (RuntimeIdentity \<Rightarrow> (bool \<times> json option) option) \<Rightarrow> string option \<Rightarrow> bool
    \<Rightarrow> ('z world_scheme, DiagnosticsDetails \<times> readiness_evidence) comp" where
  "get_agent_details E at me local_ready request agent probe =
     (let agent' = (case agent of Some a \<Rightarrow> a | None \<Rightarrow> me) in
      bindM (details E at agent') (\<lambda>observed.
      if agent' = me
      then ret (observed\<lparr>dd_activation_ready := Some local_ready, dd_readiness := (if local_ready then Ready else dd_readiness observed)\<rparr>, Local_controller)
      else (case dd_runtime_binding observed of
              Some b \<Rightarrow>
                if \<not> probe \<or> id_client b \<noteq> ''codex'' then ret (observed, Lease_observation_only)
                else (case request b of
                        None \<Rightarrow> ret (observed\<lparr>dd_activation_ready := None\<rparr>, Probe_unavailable)
                      | Some answer \<Rightarrow>
                          let ready = probe_ready agent' b answer in
                          ret (observed\<lparr>dd_activation_ready := Some ready, dd_readiness := (if ready then Ready else Unbound)\<rparr>, Exact_native_probe))
            | None \<Rightarrow> ret (observed, Lease_observation_only))))"

text \<open>\<open>set_agent_profile\<close>, with the texts it admits.\<close>

definition admitted_profile :: "string \<Rightarrow> string \<Rightarrow> bool" where
  "admitted_profile label purpose \<longleftrightarrow> trim label \<noteq> [] \<and> length (trim label) \<le> 120 \<and> trim purpose \<noteq> [] \<and> length (trim purpose) \<le> 500"

fun kind_text :: "AgentKind \<Rightarrow> string" where
  "kind_text Controller = ''controller''"
| "kind_text Worker = ''worker''"
| "kind_text Interactive = ''interactive''"
| "kind_text Unknown_kind = ''unknown''"

definition profile_text :: "runtime \<Rightarrow> string \<Rightarrow> string \<Rightarrow> string \<Rightarrow> AgentKind \<Rightarrow> string" where
  "profile_text E at label purpose k = JSON_stringify E (obj [(''label'', JStr (trim label)), (''purpose'', JStr (trim purpose)), (''kind'', JStr (kind_text k)),
     (''declaration_source'', JStr ''self''), (''updated_at'', JStr at)])"

definition set_agent_profile :: "runtime \<Rightarrow> string \<Rightarrow> string \<Rightarrow> string \<Rightarrow> string \<Rightarrow> AgentKind \<Rightarrow> ('z world_scheme, unit) comp" where
  "set_agent_profile E at me label purpose k =
     (if admitted_profile label purpose then atomic (SET (agentProfile_key me) (profile_text E at label purpose k) NoTtl)
      else throw (JsError ''ZodError''))"

end
