(* ===== verification/Diagnostics_Props.thy ===== *)
theory Diagnostics_Props
  imports Diagnostics Session_Props
begin

text \<open>
  What the reports show: on a state that does not change meanwhile, every report is a function of the state and
  leaves it as it is; finding agents by the cheap reads is filtering the full details; and the two probes agree.
\<close>

section \<open>Details\<close>

definition diag_types :: "db \<Rightarrow> string \<Rightarrow> bool" where
  "diag_types d a \<longleftrightarrow> holds d registry_key THash \<and> holds d (agentSessions_key a) TSet \<and> holds d (runtimeBinding_key a) TString \<and> holds d (activation_key a) TString
     \<and> holds d (agentProfile_key a) TString \<and> holds d (queue_key a) TList \<and> holds d (claimsIndex_key a) TZset \<and> holds d (dlq_key a) TList"

definition online_of :: "db \<Rightarrow> string \<Rightarrow> bool" where
  "online_of d a \<longleftrightarrow> p_online (presence_of d a) \<or> live d (heartbeat_key a) \<noteq> None"

lemma runs_isOnline: "diag_types d a \<Longrightarrow> runs (isOnline a :: (world, _) comp) d (online_of d a) d"
proof -
  assume "diag_types d a"
  then have "runs (getPresenceMany [a] :: (world, _) comp) d (map (presence_of d) [a]) d" by (intro presence_batch_equiv) (simp add: diag_types_def)
  then have p: "runs (getPresence a :: (world, _) comp) d (presence_of d a) d"
    unfolding getPresence_def by (rule runs_bindM) (simp add: runs_ret)
  have "runs (atomic (EXISTS (heartbeat_key a)) :: (world, _) comp) d (live d (heartbeat_key a) \<noteq> None) d" by (rule runs_atomic) (simp add: run_simps)
  then show ?thesis unfolding isOnline_def by (intro runs_bindM[OF p]) (simp add: online_of_def runs_ret)
qed

definition registered_value :: "runtime \<Rightarrow> db \<Rightarrow> string \<Rightarrow> (string, json) fmap" where
  "registered_value E d a = record_or_empty (Some (json_or_null E (map_of (hash_at d registry_key) a)))"

definition readable :: "runtime \<Rightarrow> db \<Rightarrow> string \<Rightarrow> bool" where
  "readable E d a \<longleftrightarrow> nonempty (map_of (hash_at d registry_key) a) \<noteq> None \<and> registered_value E d a \<noteq> fmempty"

text \<open>The details as a function of the state.\<close>

definition details_of :: "runtime \<Rightarrow> string \<Rightarrow> db \<Rightarrow> string \<Rightarrow> DiagnosticsDetails" where
  "details_of E at d a =
     (if readable E d a
      then details_report E at a (registered_value E d a) (online_of d a) (str_at d (runtimeBinding_key a)) (str_at d (activation_key a))
        (str_at d (agentProfile_key a)) (length (list_at d (queue_key a)), length (zset_at d (claimsIndex_key a)), length (list_at d (dlq_key a)))
      else unknown_agent at a)"

lemma runs_read: "diag_types d a \<Longrightarrow> runs (atomic (HGET registry_key n) :: (world, _) comp) d (map_of (hash_at d registry_key) n) d"
  "diag_types d a \<Longrightarrow> runs (atomic (GET (runtimeBinding_key a)) :: (world, _) comp) d (str_at d (runtimeBinding_key a)) d"
  "diag_types d a \<Longrightarrow> runs (atomic (GET (activation_key a)) :: (world, _) comp) d (str_at d (activation_key a)) d"
  "diag_types d a \<Longrightarrow> runs (atomic (GET (agentProfile_key a)) :: (world, _) comp) d (str_at d (agentProfile_key a)) d"
  "diag_types d a \<Longrightarrow> runs (atomic (LLEN (queue_key a)) :: (world, _) comp) d (length (list_at d (queue_key a))) d"
  "diag_types d a \<Longrightarrow> runs (atomic (ZCARD (claimsIndex_key a)) :: (world, _) comp) d (length (zset_at d (claimsIndex_key a))) d"
  "diag_types d a \<Longrightarrow> runs (atomic (LLEN (dlq_key a)) :: (world, _) comp) d (length (list_at d (dlq_key a))) d"
  by (rule runs_atomic; simp add: run_simps diag_types_def)+

lemmas runs_reads = runs_isOnline runs_read(2-7)

lemma runs_details:
  assumes "diag_types d a"
  shows "runs (details E at a :: (world, _) comp) d (details_of E at d a) d"
proof -
  have "runs (read_report E at a (registered_value E d a) :: (world, _) comp) d (details_of E at d a) d" if "readable E d a"
    unfolding read_report_def using that by (intro runs_reads[OF assms, THEN runs_bindM]) (simp add: details_of_def runs_ret)
  then show ?thesis
    unfolding details_def by (intro runs_bindM[OF runs_read(1)[OF assms]]) (auto simp: readable_def registered_value_def details_of_def runs_ret Let_def)
qed

section \<open>Finding is filtering\<close>

text \<open>The filters on the details of an agent.\<close>

definition details_pass :: "string \<Rightarrow> FindFilters \<Rightarrow> DiagnosticsDetails \<Rightarrow> bool" where
  "details_pass cwd f dd \<longleftrightarrow>
     (case dd_discovery dd of
        None \<Rightarrow> False
      | Some di \<Rightarrow> passes cwd f (dd_name dd) di (Option.bind (dd_profile dd) ap_label) (Option.bind (dd_profile dd) ap_purpose)
          (case dd_profile dd of Some p \<Rightarrow> ap_kind p | None \<Rightarrow> Unknown_kind) (dd_runtime_binding dd) (dd_activation_ready dd) (dd_online dd))"

text \<open>What the filters do not ask for does not matter, and the cheap discovery record has the members they read.\<close>

lemma passes_cong:
  assumes "dm_label di = dm_label di'" "dm_client di = dm_client di'" "dm_working_directory di = dm_working_directory di'"
    and "needProfile f \<Longrightarrow> l = l' \<and> p = p' \<and> k = k'" and "needBinding f \<Longrightarrow> b = b'" and "needOnline f \<Longrightarrow> o1 = o2"
    and "ff_activation_ready f \<noteq> None \<Longrightarrow> r = r'"
  shows "passes cwd f n di l p k b r o1 = passes cwd f n di' l' p' k' b' r' o2"
proof -
  have "(case nonempty (ff_query f) of None \<Rightarrow> True | Some q \<Rightarrow> contains_text (lower_text q) (search_text n (dm_label di) l p))
      = (case nonempty (ff_query f) of None \<Rightarrow> True | Some q \<Rightarrow> contains_text (lower_text q) (search_text n (dm_label di') l' p'))"
    using assms(1,4) by (cases "ff_query f") (auto simp: needProfile_def nonempty_def split: list.split)
  moreover have "(case ff_client f of None \<Rightarrow> True | Some c \<Rightarrow> (case b of Some x \<Rightarrow> Some (id_client x) | None \<Rightarrow> dm_client di) = Some c)
      = (case ff_client f of None \<Rightarrow> True | Some c \<Rightarrow> (case b' of Some x \<Rightarrow> Some (id_client x) | None \<Rightarrow> dm_client di') = Some c)"
    using assms(2,5) by (cases "ff_client f") (auto simp: needBinding_def split: option.splits)
  moreover have "(case filter_directory f of None \<Rightarrow> True | Some w \<Rightarrow> sameDirectory_opt cwd (case b of Some x \<Rightarrow> Some (id_working_directory x) | None \<Rightarrow> dm_working_directory di) w)
      = (case filter_directory f of None \<Rightarrow> True | Some w \<Rightarrow> sameDirectory_opt cwd (case b' of Some x \<Rightarrow> Some (id_working_directory x) | None \<Rightarrow> dm_working_directory di') w)"
    using assms(3,5) by (cases "filter_directory f") (auto simp: needBinding_def split: option.splits)
  moreover have "(case ff_kind f of None \<Rightarrow> True | Some x \<Rightarrow> k = x) = (case ff_kind f of None \<Rightarrow> True | Some x \<Rightarrow> k' = x)"
    using assms(4) by (cases "ff_kind f") (simp_all add: needProfile_def)
  moreover have "(case ff_activation_ready f of None \<Rightarrow> True | Some x \<Rightarrow> r = Some x) = (case ff_activation_ready f of None \<Rightarrow> True | Some x \<Rightarrow> r' = Some x)"
    using assms(7) by (cases "ff_activation_ready f") simp_all
  moreover have "(case ff_online f of None \<Rightarrow> True | Some x \<Rightarrow> o1 = x) = (case ff_online f of None \<Rightarrow> True | Some x \<Rightarrow> o2 = x)"
    using assms(6) by (cases "ff_online f") (simp_all add: needOnline_def)
  ultimately show ?thesis unfolding passes_def by presburger
qed

lemma cheap_discovery:
  assumes "metadata = record_or_empty (fmlookup reg ''metadata'')"
  shows "dm_label (registration_discovery E n False (fmupd ''metadata'' (JObj metadata) reg)) = dm_label (registration_discovery E n online reg)"
    and "dm_client (registration_discovery E n False (fmupd ''metadata'' (JObj metadata) reg)) = dm_client (registration_discovery E n online reg)"
    and "dm_working_directory (registration_discovery E n False (fmupd ''metadata'' (JObj metadata) reg)) = dm_working_directory (registration_discovery E n online reg)"
proof -
  have "(case fmlookup reg ''metadata'' of Some (JObj m) \<Rightarrow> fmlookup m k | _ \<Rightarrow> None) = fmlookup metadata k" for k
    unfolding assms by (cases "fmlookup reg ''metadata''" rule: record_or_empty.cases) simp_all
  then show "dm_label (registration_discovery E n False (fmupd ''metadata'' (JObj metadata) reg)) = dm_label (registration_discovery E n online reg)"
    "dm_client (registration_discovery E n False (fmupd ''metadata'' (JObj metadata) reg)) = dm_client (registration_discovery E n online reg)"
    "dm_working_directory (registration_discovery E n False (fmupd ''metadata'' (JObj metadata) reg)) = dm_working_directory (registration_discovery E n online reg)"
    by (simp_all add: registration_discovery_def discoveryRecord_def discoveryMetadata_def Let_def)
qed

lemma profile_view: "Option.bind (safeProfile E raw) ap_label = text_member (record_or_empty (Some (json_or_null E raw))) ''label''"
  "Option.bind (safeProfile E raw) ap_purpose = text_member (record_or_empty (Some (json_or_null E raw))) ''purpose''"
  "(case safeProfile E raw of Some p \<Rightarrow> ap_kind p | None \<Rightarrow> Unknown_kind) = kind (fmlookup (record_or_empty (Some (json_or_null E raw))) ''kind'')"
  by (auto simp: safeProfile_def text_member_def Let_def)

lemma pass_report:
  "details_pass cwd f (details_report E at a reg online b_raw o_raw p_raw depths) =
    passes cwd f a (registration_discovery E a online reg) (text_member (record_or_empty (Some (json_or_null E p_raw))) ''label'')
      (text_member (record_or_empty (Some (json_or_null E p_raw))) ''purpose'') (kind (fmlookup (record_or_empty (Some (json_or_null E p_raw))) ''kind''))
      (safeBinding E b_raw) (snd (snd (deriveReadiness E online (safeBinding E b_raw) (record_or_empty (fmlookup reg ''metadata''))))) online"
  by (simp add: details_pass_def details_report_def Let_def profile_view split: prod.split)

lemma runs_when: "(c \<Longrightarrow> runs m d x d) \<Longrightarrow> runs (if c then m else ret y) d (if c then x else y) d"
  by (simp add: runs_ret)

lemma runs_matches_name:
  assumes "diag_types d n" and "readable E d n" and "map_of (hash_at d registry_key) n = Some raw"
  shows "runs (matches_name E cwd f (n, raw) :: (world, _) comp) d (details_pass cwd f (details_of E at d n)) d"
proof -
  let ?reg = "registered_value E d n"
  let ?metadata = "record_or_empty (fmlookup ?reg ''metadata'')"
  let ?prof = "if needProfile f then record_or_empty (Some (json_or_null E (str_at d (agentProfile_key n)))) else fmempty"
  let ?bind = "if needBinding f then safeBinding E (str_at d (runtimeBinding_key n)) else None"
  let ?on = "if needOnline f then online_of d n else False"
  have p: "runs (if needProfile f then bindM (atomic (GET (agentProfile_key n))) (\<lambda>r. ret (record_or_empty (Some (json_or_null E r)))) else ret fmempty :: (world, _) comp) d ?prof d"
    by (rule runs_when, rule runs_bindM[OF runs_read(4)[OF assms(1)] runs_ret])
  have b: "runs (if needBinding f then bindM (atomic (GET (runtimeBinding_key n))) (\<lambda>r. ret (safeBinding E r)) else ret None :: (world, _) comp) d ?bind d"
    by (rule runs_when, rule runs_bindM[OF runs_read(2)[OF assms(1)] runs_ret])
  have o': "runs (if needOnline f then isOnline n else ret False :: (world, _) comp) d ?on d" by (rule runs_when, rule runs_isOnline[OF assms(1)])
  have reg: "record_or_empty (Some (json_or_null E (Some raw))) = ?reg" using assms(3) by (simp add: registered_value_def)
  have ready: "deriveReadiness E ?on ?bind ?metadata = deriveReadiness E (online_of d n) (safeBinding E (str_at d (runtimeBinding_key n))) ?metadata"
    if "ff_activation_ready f \<noteq> None" using that by (simp add: needBinding_def needOnline_def)
  have "passes cwd f n (registration_discovery E n False (fmupd ''metadata'' (JObj ?metadata) ?reg)) (text_member ?prof ''label'') (text_member ?prof ''purpose'')
      (kind (fmlookup ?prof ''kind'')) ?bind (snd (snd (deriveReadiness E ?on ?bind ?metadata))) ?on = details_pass cwd f (details_of E at d n)"
    unfolding details_of_def if_P[OF assms(2)] pass_report
    by (rule passes_cong) (simp_all add: cheap_discovery[OF refl, where online = "online_of d n"] ready)
  then show ?thesis
    unfolding matches_name_def by (simp only: prod.case reg Let_def case_prod_beta fst_conv snd_conv) (intro runs_bindM[OF p] runs_bindM[OF b] runs_bindM[OF o'], simp add: runs_ret)
qed

text \<open>
  (C24) Finding agents by cheap reads is filtering their full details. On a registry whose every value can be read
  as a nonempty object, and undisturbed, \<open>find\<close> changes nothing; the names it counts are exactly those whose full
  details pass the filters, in the order in which the members of the registry are enumerated (names that are array
  indices first, by number); and it returns the details of the first of them, as many as the limit, which lies
  between 1 and 100. So on such a registry the filters that read only what they need, and the derivation of
  readiness they use, never disagree with the details; where a value cannot be read they can, as
  \<open>unreadable_differs\<close> shows.
\<close>

theorem find_is_filter:
  assumes "holds d registry_key THash" and "distinct (map fst (hash_at d registry_key))"
    and "\<forall>n \<in> set (map fst (hash_at d registry_key)). diag_types d n \<and> readable E d n"
    and "names = filter (\<lambda>n. details_pass cwd f (details_of E at d n)) (map fst (object_order (hash_at d registry_key)))"
  shows "runs (find_agents E cwd at f :: (world, _) comp) d
     \<lparr>fr_matches = map (details_of E at d) (take (page_limit f) names), fr_total_matches = length names, fr_truncated = (page_limit f < length names),
      fr_resolution = (if length names = 1 then Unique_match else if 1 < length names then Ambiguous_match else No_match)\<rparr> d
    \<and> 1 \<le> page_limit f \<and> page_limit f \<le> 100"
proof -
  let ?registry = "object_order (hash_at d registry_key)"
  have raw: "map_of (hash_at d registry_key) (fst e) = Some (snd e)" if "e \<in> set ?registry" for e
  proof -
    have "(fst e, snd e) \<in> set (hash_at d registry_key)" using that unfolding set_object_order by simp
    with assms(2) show ?thesis by (rule map_of_is_SomeI)
  qed
  have all: "runs (atomic (HGETALL registry_key) :: (world, _) comp) d ?registry d" by (rule runs_atomic) (use assms(1) in \<open>simp add: run_simps\<close>)
  have "runs (matches_name E cwd f e :: (world, _) comp) d (details_pass cwd f (details_of E at d (fst e))) d" if "e \<in> set ?registry" for e
    using runs_matches_name[of d "fst e" E "snd e" cwd f at] assms(3) raw[OF that] that[unfolded set_object_order] by force
  then have matched: "runs (mapM (matches_name E cwd f) ?registry :: (world, _) comp) d (map (\<lambda>e. details_pass cwd f (details_of E at d (fst e))) ?registry) d"
    by (rule runs_mapM)
  have zip: "map fst (map fst (filter snd (zip xs (map (\<lambda>e. P (fst e)) xs)))) = filter P (map fst xs)" for xs :: "(string \<times> string) list" and P
    by (induction xs) auto
  have names: "map fst (map fst (filter snd (zip ?registry (map (\<lambda>e. details_pass cwd f (details_of E at d (fst e))) ?registry)))) = names"
    using zip[of ?registry "\<lambda>n. details_pass cwd f (details_of E at d n)"] assms(4) by simp
  have "set (take (page_limit f) names) \<subseteq> set (map fst (hash_at d registry_key))" using assms(4) by (auto dest!: in_set_takeD)
  then have page: "runs (mapM (details E at) (take (page_limit f) names) :: (world, _) comp) d (map (details_of E at d) (take (page_limit f) names)) d"
    using assms(3) by (intro runs_mapM runs_details) blast
  have "1 \<le> page_limit f \<and> page_limit f \<le> 100" by (auto simp: page_limit_def split: option.split)
  then show ?thesis
    unfolding find_agents_def by (intro conjI runs_bindM[OF all] runs_bindM[OF matched]) (simp_all only: Let_def names, intro runs_bindM[OF page], simp add: runs_ret)
qed

text \<open>
  Where a value of the registry cannot be read the two differ: an agent with a live heartbeat passes the filter
  for agents that are online, although its details report an unknown agent that is offline.
\<close>

lemma unreadable_differs:
  assumes "diag_types d n" and "JSON_parse E raw = None" and "map_of (hash_at d registry_key) n = Some raw" and "live d (heartbeat_key n) \<noteq> None"
    and f: "f = \<lparr>ff_query = None, ff_client = None, ff_cwd = None, ff_working_directory = None, ff_kind = None, ff_activation_ready = None, ff_online = Some True, ff_limit = None\<rparr>"
  shows "runs (matches_name E cwd f (n, raw) :: (world, _) comp) d True d \<and> details_of E at d n = unknown_agent at n \<and> \<not> dd_online (details_of E at d n)"
proof -
  have on: "runs (isOnline n :: (world, _) comp) d True d" using runs_isOnline[OF assms(1)] assms(4) by (simp add: online_of_def)
  have "\<not> readable E d n" using assms(2,3) by (simp add: readable_def registered_value_def json_or_null_def)
  then have "details_of E at d n = unknown_agent at n" by (simp add: details_of_def)
  moreover have "runs (matches_name E cwd f (n, raw) :: (world, _) comp) d True d"
    unfolding matches_name_def f
    by (simp add: needProfile_def needBinding_def needOnline_def filter_directory_def)
      (intro runs_bindM[OF runs_ret] runs_bindM[OF on], simp add: Let_def passes_def nonempty_def filter_directory_def runs_ret split: prod.split)
  ultimately show ?thesis by (simp add: unknown_agent_def)
qed

section \<open>Delivery\<close>

definition delivery_types :: "db \<Rightarrow> string \<Rightarrow> bool" where
  "delivery_types d a \<longleftrightarrow> holds d (queue_key a) TList \<and> holds d (claimsIndex_key a) TZset \<and> holds d claims_key THash \<and> holds d (dlq_key a) TList
     \<and> holds d (inboxTrace_key a) TStream"

definition claims_seen :: "db \<Rightarrow> string \<Rightarrow> (string \<times> string option) list" where
  "claims_seen d a = map (\<lambda>c. (c, map_of (hash_at d claims_key) c)) (map fst (by_score (zset_at d (claimsIndex_key a))))"

lemma runs_delivery:
  assumes "delivery_types d a"
    and "scan_claims E now m (claims_seen d a) (if list_ex (has_id E m) (first_range 1024 (list_at d (queue_key a))) then Delivery_queued else Unknown_history, None) = Inr found"
    and "verdict = delivery_verdict found (list_ex (has_id E m) (first_range 1024 (list_at d (dlq_key a)))) (acknowledgement m (take 1024 (rev (stream_at d (inboxTrace_key a)))))"
  shows "runs (delivery_evidence E at now a m :: (world, _) comp) d
    \<lparr>de_agent = a, de_message_id = m, de_status = fst verdict, de_claim_id = snd verdict, de_evidence_at = at\<rparr> d"
proof -
  let ?ids = "map fst (by_score (zset_at d (claimsIndex_key a)))"
  let ?raws = "map (map_of (hash_at d claims_key)) ?ids"
  have q: "runs (atomic (LRANGE_first (queue_key a) 1024) :: (world, _) comp) d (first_range 1024 (list_at d (queue_key a))) d"
    and z: "runs (atomic (ZRANGE_all (claimsIndex_key a)) :: (world, _) comp) d ?ids d"
    and h: "runs (atomic (HMGET claims_key ?ids) :: (world, _) comp) d ?raws d"
    and l: "runs (atomic (LRANGE_first (dlq_key a) 1024) :: (world, _) comp) d (first_range 1024 (list_at d (dlq_key a))) d"
    and x: "runs (atomic (XREVRANGE_last (inboxTrace_key a) 1024) :: (world, _) comp) d (take 1024 (rev (stream_at d (inboxTrace_key a)))) d"
    using assms(1) by (auto intro!: runs_atomic simp: run_simps delivery_types_def XREVRANGE_last_def)
  have raws: "runs (if ?ids = [] then ret [] else atomic (HMGET claims_key ?ids) :: (world, _) comp) d ?raws d"
    using h by (auto simp: runs_ret)
  have "zip xs (map g xs) = map (\<lambda>x. (x, g x)) xs" for xs and g :: "string \<Rightarrow> string option" by (induction xs) simp_all
  then have zip: "zip ?ids ?raws = claims_seen d a" unfolding claims_seen_def by blast
  show ?thesis
    unfolding delivery_evidence_def Let_def
    by (intro runs_bindM[OF q] runs_bindM[OF z] runs_bindM[OF raws])
      (simp only: zip assms(2,3) sum.case, intro runs_bindM[OF l] runs_bindM[OF x] runs_ret)
qed

lemma scan_known: "scan_claims E now m cs acc = Inr r \<Longrightarrow> fst r = fst acc \<or> fst r \<in> {Delivery_claimed, Delivery_claim_expired}"
  by (induction cs arbitrary: acc) (fastforce simp: Let_def split: if_splits option.splits prod.splits)+

lemma scan_claimed:
  "scan_claims E now m cs acc = Inr r \<Longrightarrow> \<exists>(c, raw) \<in> set cs. claim_holds E m (record_or_empty (Some (json_or_null E raw))) \<Longrightarrow>
    fst r \<in> {Delivery_claimed, Delivery_claim_expired}"
proof (induction cs arbitrary: acc)
  case (Cons x cs)
  show ?case
  proof (cases "\<exists>(c, raw) \<in> set cs. claim_holds E m (record_or_empty (Some (json_or_null E raw)))")
    case True
    with Cons show ?thesis by (cases x) (auto simp: Let_def split: if_splits option.splits)
  next
    case False
    with Cons.prems show ?thesis by (cases x) (auto simp: Let_def dest!: scan_known split: if_splits option.splits)
  qed
qed simp

text \<open>
  A message that can still be processed is never reported as gone: undisturbed, one that is among the first 1024
  of the inbox or of the dead letters, or in any claim of the agent, is reported with the place it is in, and not
  as acknowledged or unknown.
\<close>

lemma delivery_locates:
  assumes "delivery_types d a"
    and "scan_claims E now m (claims_seen d a) (if list_ex (has_id E m) (first_range 1024 (list_at d (queue_key a))) then Delivery_queued else Unknown_history, None) = Inr res"
    and "list_ex (has_id E m) (first_range 1024 (list_at d (queue_key a))) \<or> list_ex (has_id E m) (first_range 1024 (list_at d (dlq_key a)))
      \<or> (\<exists>(c, raw) \<in> set (claims_seen d a). claim_holds E m (record_or_empty (Some (json_or_null E raw))))"
  shows "\<exists>r. runs (delivery_evidence E at now a m :: (world, _) comp) d r d \<and> de_status r \<notin> {Delivery_acknowledged, Unknown_history}"
proof -
  let ?dead = "list_ex (has_id E m) (first_range 1024 (list_at d (dlq_key a)))"
  have "?dead \<or> fst res \<in> {Delivery_queued, Delivery_claimed, Delivery_claim_expired}"
    using assms(3) scan_known[OF assms(2)] scan_claimed[OF assms(2)] by auto
  then have "fst (delivery_verdict res ?dead ack) \<notin> {Delivery_acknowledged, Unknown_history}" for ack
    by (auto simp: delivery_verdict_def Let_def split: option.splits)
  with runs_delivery[OF assms(1,2) refl] show ?thesis by force
qed

section \<open>Probes\<close>

text \<open>The command-line probe and the tool judge an answer alike when both know the agent and its binding.\<close>

lemma probes_agree: "agent \<noteq> [] \<Longrightarrow> probeActivationReady isError status (Some agent) (Some \<lparr>kb_runtime_id = id_runtime_id b, kb_epoch = id_epoch b\<rparr>)
    = probe_ready agent b (isError, status)"
  by (auto simp: probeActivationReady_def probe_ready_def split: option.splits json.splits)

lemma ready_probe_agrees: "probeActivationReady isError status expectedAgent (Some kb) \<Longrightarrow> bindingAgrees status (Some kb) = Some True"
  by (simp add: probeActivationReady_def bindingAgrees_def)

section \<open>Profiles\<close>

text \<open>A declared profile reads back as the trimmed texts that were declared, and as no authority.\<close>

lemma profile_reads_back:
  assumes "js_runtime E" and "admitted_profile label purpose"
  shows "safeProfile E (Some (profile_text E at label purpose k)) = Some \<lparr>ap_label = Some (trim label), ap_purpose = Some (trim purpose), ap_kind = k\<rparr>"
proof -
  let ?j = "obj [(''label'', JStr (trim label)), (''purpose'', JStr (trim purpose)), (''kind'', JStr (kind_text k)), (''declaration_source'', JStr ''self''), (''updated_at'', JStr at)]"
  have "wire_json ?j" by (rule wire_depthI, rule wire_objI) simp
  then have parsed: "json_or_null E (Some (profile_text E at label purpose k)) = ?j"
    by (simp add: json_or_null_def profile_text_def js_runtime.parse_stringify[OF assms(1)])
  have "kind (Some (JStr (kind_text k))) = k" by (cases k) simp_all
  then show ?thesis unfolding safeProfile_def parsed by (simp add: obj_def text_member_def fmap_of_list_neq_empty)
qed

section \<open>Witness\<close>

definition no_filter :: FindFilters where
  "no_filter = \<lparr>ff_query = None, ff_client = None, ff_cwd = None, ff_working_directory = None, ff_kind = None, ff_activation_ready = None, ff_online = None, ff_limit = None\<rparr>"

definition one_agent_db :: db where
  "one_agent_db = put_hash registry_key [(''bob'', JSON_stringify std_env (obj [(''role'', JStr ''both'')]))] empty_db"

lemma one_agent: "hash_at one_agent_db registry_key = [(''bob'', JSON_stringify std_env (obj [(''role'', JStr ''both'')]))]" "holds one_agent_db registry_key THash"
  "diag_types one_agent_db ''bob''"
  by (simp_all add: one_agent_db_def diag_types_def view_simps key_simps)

lemma one_agent_readable: "readable std_env one_agent_db ''bob''"
proof -
  have "wire_json (obj [(''role'', JStr ''both'')])" by (rule wire_depthI, rule wire_objI) simp
  then have p: "JSON_parse std_env (JSON_stringify std_env (obj [(''role'', JStr ''both'')])) = Some (obj [(''role'', JStr ''both'')])" by (rule std.parse_stringify)
  have "JSON_stringify std_env (obj [(''role'', JStr ''both'')]) \<noteq> []" unfolding obj_def by (rule std.stringify_obj)
  then have "nonempty (Some (JSON_stringify std_env (obj [(''role'', JStr ''both'')]))) \<noteq> None" by (auto simp: nonempty_def split: list.splits)
  with p show ?thesis by (simp add: readable_def registered_value_def one_agent json_or_null_def) (simp add: obj_def fmap_of_list_neq_empty)
qed

theorem find_is_filter_witness: "\<exists>page. runs (find_agents std_env ''/'' ''now'' no_filter :: (world, _) comp) one_agent_db
  \<lparr>fr_matches = page, fr_total_matches = 1, fr_truncated = False, fr_resolution = Unique_match\<rparr> one_agent_db"
proof -
  have pass: "details_pass ''/'' no_filter (details_of std_env ''now'' one_agent_db ''bob'')"
    by (simp add: details_of_def one_agent_readable pass_report passes_def no_filter_def nonempty_def filter_directory_def)
  have keys: "map fst (object_order (hash_at one_agent_db registry_key)) = [''bob'']" "map fst (hash_at one_agent_db registry_key) = [''bob'']"
    by (simp_all add: one_agent object_order_def array_index_def is_digit_def)
  have limit: "page_limit no_filter = 50" by (simp add: page_limit_def no_filter_def)
  have "runs (find_agents std_env ''/'' ''now'' no_filter :: (world, _) comp) one_agent_db
     \<lparr>fr_matches = map (details_of std_env ''now'' one_agent_db) (take (page_limit no_filter) [''bob'']), fr_total_matches = length [''bob''],
      fr_truncated = (page_limit no_filter < length [''bob'']), fr_resolution = (if length [''bob''] = 1 then Unique_match else if 1 < length [''bob''] then Ambiguous_match else No_match)\<rparr>
     one_agent_db"
    by (rule find_is_filter[THEN conjunct1]) (simp_all only: keys one_agent(2), simp_all add: one_agent(3) one_agent_readable pass)
  then show ?thesis unfolding limit by (intro exI) simp
qed

end
