(* ===== verification/Runtime_Controller.thy ===== *)
theory Runtime_Controller
  imports Continuity Activation
begin

text \<open>
  The controller that binds one connection to one conversation of a runtime,
  \<open>src/src/registered-shell/runtime-controller.ts\<close>, with the check of a binding in \<open>runtime.ts\<close> the search for
  the own Codex thread in \<open>codex-bootstrap.ts\<close> and the start-up hook in \<open>codex-hook.ts\<close>. A call of \<open>bind\<close> is a sequence of stages between its awaits;
  calls are chained, so that one starts only when the previous one has ended. Adapters are cells that are open
  or closed; a dispatcher is known by its adapter, which it closes when it ends. What awaited operations return
  is chosen by the step that resumes the call.
\<close>

section \<open>Bindings\<close>

record expected_runtime =
  xr_client :: RuntimeClient
  xr_working_directory :: string

definition validateRuntimeBinding :: "string \<Rightarrow> expected_runtime \<Rightarrow> RuntimeBinding \<Rightarrow> string + RuntimeBinding" where
  "validateRuntimeBinding cwd x b =
     (if \<not> runtimeBindingSchema b then Inl ''invalid_runtime_binding''
      else if rb_client b \<noteq> xr_client x \<or> path_resolve cwd (rb_working_directory b) \<noteq> path_resolve cwd (xr_working_directory x)
      then Inl ''runtime_binding_mismatch'' else Inr b)"

section \<open>The controller\<close>

datatype stage = Idle_op | Creating_adapter RuntimeBinding | Replacing RuntimeBinding nat | Attaching RuntimeBinding nat

record controller =
  ct_binding :: "RuntimeBinding option"
  ct_dispatcher :: "nat option"
  ct_closed :: bool
  ct_stage :: stage
  ct_adapters :: "bool list"           \<comment> \<open>whether it is open\<close>

definition new_controller :: controller where
  "new_controller = \<lparr>ct_binding = None, ct_dispatcher = None, ct_closed = False, ct_stage = Idle_op, ct_adapters = []\<rparr>"

datatype bind_reply = Bind_error string | Bind_status bool "RuntimeBinding option"

definition controller_status :: "controller \<Rightarrow> bind_reply" where
  "controller_status st = Bind_status (ct_dispatcher st \<noteq> None \<and> \<not> ct_closed st) (ct_binding st)"

text \<open>The first stage of \<open>bind\<close>: the reply, or \<open>None\<close> when an adapter is asked for.\<close>

definition bind_start :: "string \<Rightarrow> expected_runtime \<Rightarrow> RuntimeBinding \<Rightarrow> controller \<Rightarrow> bind_reply option \<times> controller" where
  "bind_start cwd x v st =
     (if ct_closed st then (Some (Bind_error ''runtime_controller_closed''), st)
      else case validateRuntimeBinding cwd x v of
             Inl code \<Rightarrow> (Some (Bind_error code), st)
           | Inr b \<Rightarrow>
               (case ct_binding st of
                  Some b0 \<Rightarrow>
                    if rb_runtime_id b0 \<noteq> rb_runtime_id b then (Some (Bind_error ''runtime_rebind_requires_new_connection''), st)
                    else if ct_dispatcher st \<noteq> None \<and> rb_epoch b0 = rb_epoch b then (Some (controller_status st), st)
                    else (None, st\<lparr>ct_stage := Creating_adapter b\<rparr>)
                | None \<Rightarrow> (None, st\<lparr>ct_stage := Creating_adapter b\<rparr>)))"

definition close_adapter :: "nat \<Rightarrow> controller \<Rightarrow> controller" where
  "close_adapter a st = st\<lparr>ct_adapters := (ct_adapters st)[a := False]\<rparr>"

definition dispatcher_ends :: "controller \<Rightarrow> controller" where
  "dispatcher_ends st = (case ct_dispatcher st of Some a \<Rightarrow> (close_adapter a st)\<lparr>ct_dispatcher := None\<rparr> | None \<Rightarrow> st)"

definition adapter_created :: "RuntimeBinding \<Rightarrow> controller \<Rightarrow> controller" where
  "adapter_created b st =
     (if ct_closed st then st\<lparr>ct_adapters := ct_adapters st @ [False], ct_stage := Idle_op\<rparr>
      else st\<lparr>ct_adapters := ct_adapters st @ [True], ct_stage := Replacing b (length (ct_adapters st))\<rparr>)"

definition replaced :: "RuntimeBinding \<Rightarrow> nat \<Rightarrow> controller \<Rightarrow> controller" where
  "replaced b a st = (dispatcher_ends st)\<lparr>ct_binding := Some b, ct_stage := Attaching b a\<rparr>"

text \<open>The mailbox is restored and the dispatcher started, or either fails.\<close>

definition attached :: "nat \<Rightarrow> controller \<Rightarrow> controller" where
  "attached a st = st\<lparr>ct_dispatcher := Some a, ct_stage := Idle_op\<rparr>"

definition attach_failed :: "nat \<Rightarrow> controller \<Rightarrow> controller" where
  "attach_failed a st = (close_adapter a st)\<lparr>ct_stage := Idle_op\<rparr>"

text \<open>\<open>close\<close>: it is noted at once, and the dispatcher is closed when the calls of \<open>bind\<close> have ended.\<close>

definition controller_close :: "controller \<Rightarrow> controller" where
  "controller_close st = st\<lparr>ct_closed := True\<rparr>"

inductive controller_step :: "string \<Rightarrow> expected_runtime \<Rightarrow> controller \<Rightarrow> controller \<Rightarrow> bool" for cwd x where
  bind: "ct_stage st = Idle_op \<Longrightarrow> controller_step cwd x st (snd (bind_start cwd x v st))"
| create_fails: "ct_stage st = Creating_adapter b \<Longrightarrow> controller_step cwd x st (st\<lparr>ct_stage := Idle_op\<rparr>)"
| created: "ct_stage st = Creating_adapter b \<Longrightarrow> controller_step cwd x st (adapter_created b st)"
| replace: "ct_stage st = Replacing b a \<Longrightarrow> controller_step cwd x st (replaced b a st)"
| attach: "ct_stage st = Attaching b a \<Longrightarrow> controller_step cwd x st (attached a st)"
| attach_fails: "ct_stage st = Attaching b a \<Longrightarrow> controller_step cwd x st (attach_failed a st)"
| ended: "controller_step cwd x st (dispatcher_ends st)"
| closing: "controller_step cwd x st (controller_close st)"
| closed: "ct_closed st \<Longrightarrow> ct_stage st = Idle_op \<Longrightarrow> controller_step cwd x st (dispatcher_ends st)"

inductive controller_run :: "string \<Rightarrow> expected_runtime \<Rightarrow> controller \<Rightarrow> bool" for cwd x where
  new: "controller_run cwd x new_controller"
| step: "controller_run cwd x st \<Longrightarrow> controller_step cwd x st st' \<Longrightarrow> controller_run cwd x st'"

section \<open>The own Codex thread\<close>

text \<open>
  What the daemon answers in one search: the loaded threads, and by position whether the search was aborted
  before the entry and the two answers for it, \<open>None\<close> for a call that fails.
\<close>

record thread_answers =
  ta_aborted :: bool
  ta_read :: "json option"
  ta_status :: "json option"

definition thread_of :: "json option \<Rightarrow> json option" where
  "thread_of r = (case Option.bind r (\<lambda>j. jget j ''thread'') of None \<Rightarrow> r | Some JNull \<Rightarrow> r | Some t \<Rightarrow> Some t)"

definition thread_here :: "string \<Rightarrow> string \<Rightarrow> string \<Rightarrow> json option \<Rightarrow> bool" where
  "thread_here pwd cwd i t =
     (case t of
        None \<Rightarrow> False
      | Some j \<Rightarrow> str_field j ''id'' = Some i
          \<and> (case str_field j ''cwd'' of None \<Rightarrow> False | Some d \<Rightarrow> path_resolve pwd d = path_resolve pwd cwd))"

definition status_own :: "string \<Rightarrow> string \<Rightarrow> json option \<Rightarrow> bool" where
  "status_own agent i response =
     (case Option.bind response (\<lambda>r. jget r ''structuredContent'') of
        None \<Rightarrow> False
      | Some status \<Rightarrow> \<not> js_truthy (Option.bind response (\<lambda>r. jget r ''isError'')) \<and> str_field status ''status'' = Some ''ok''
          \<and> str_field status ''agent'' = Some agent
          \<and> (case jget status ''runtime'' of None \<Rightarrow> False | Some r \<Rightarrow> r = JNull \<or> str_field r ''runtime_id'' = Some i))"

definition own_thread :: "string \<Rightarrow> string \<Rightarrow> string \<Rightarrow> string \<times> thread_answers \<Rightarrow> bool" where
  "own_thread pwd agent cwd = (\<lambda>(i, a). thread_here pwd cwd i (thread_of (ta_read a)) \<and> status_own agent i (ta_status a))"

fun search_threads :: "string \<Rightarrow> string \<Rightarrow> string \<Rightarrow> string list \<Rightarrow> (string \<times> thread_answers) list \<Rightarrow> exn + string option" where
  "search_threads pwd agent cwd matches [] = Inr (case matches of [i] \<Rightarrow> Some i | _ \<Rightarrow> None)"
| "search_threads pwd agent cwd matches ((i, a) # rest) =
     (if ta_aborted a then Inl (JsError ''AbortError'')
      else let found = (if own_thread pwd agent cwd (i, a) then matches @ [i] else matches) in
           if 1 < length found then Inr None else search_threads pwd agent cwd found rest)"

definition findOwnCodexThread :: "string \<Rightarrow> string \<Rightarrow> string \<Rightarrow> json option \<Rightarrow> (nat \<Rightarrow> thread_answers) \<Rightarrow> exn + string option" where
  "findOwnCodexThread pwd agent cwd loaded answers =
     (case loaded of
        None \<Rightarrow> Inl (JsError ''request failed'')
      | Some l \<Rightarrow>
          (case Option.bind (jget l ''data'') str_array of
             None \<Rightarrow> Inr None
           | Some ids \<Rightarrow> if 128 < length ids then Inr None
                         else search_threads pwd agent cwd [] (zip ids (map answers [0..<length ids]))))"

text \<open>One attempt of the bootstrap: whether it was aborted before and after the search, and the daemon's answers.\<close>

record bootstrap_attempt =
  ba_aborted :: bool
  ba_loaded :: "json option"
  ba_answers :: "nat \<Rightarrow> thread_answers"
  ba_aborted_after :: bool

definition bound_ready :: "string \<Rightarrow> bind_reply \<Rightarrow> bool" where
  "bound_ready i r = (case r of Bind_status ready (Some b) \<Rightarrow> ready \<and> rb_runtime_id b = i | _ \<Rightarrow> False)"

definition thread_binding :: "string \<Rightarrow> string \<Rightarrow> RuntimeBinding" where
  "thread_binding cwd i = \<lparr>rb_client = Codex, rb_runtime_id = i, rb_epoch = i, rb_working_directory = cwd\<rparr>"

text \<open>The result, with the bindings asked for; the reply of \<open>bind\<close> is \<open>None\<close> when it is rejected.\<close>

fun bootstrap_loop :: "(RuntimeBinding \<Rightarrow> bind_reply option) \<Rightarrow> string \<Rightarrow> string \<Rightarrow> string \<Rightarrow> bootstrap_attempt list \<Rightarrow> (exn + bool) \<times> RuntimeBinding list" where
  "bootstrap_loop bind pwd agent cwd [] = (Inr False, [])"
| "bootstrap_loop bind pwd agent cwd (a # rest) =
     (if ba_aborted a then (Inr False, [])
      else let found = findOwnCodexThread pwd agent cwd (ba_loaded a) (ba_answers a) in
           if ba_aborted_after a then (Inr False, [])
           else case nonempty (case found of Inr r \<Rightarrow> r | Inl _ \<Rightarrow> None) of
                  Some i \<Rightarrow> (case bind (thread_binding cwd i) of None \<Rightarrow> Inl (JsError ''bind failed'') | Some r \<Rightarrow> Inr (bound_ready i r),
                             [thread_binding cwd i])
                | None \<Rightarrow> bootstrap_loop bind pwd agent cwd rest)"

definition bootstrapCodexBinding :: "(RuntimeBinding \<Rightarrow> bind_reply option) \<Rightarrow> string \<Rightarrow> string \<Rightarrow> string \<Rightarrow> (nat \<Rightarrow> bootstrap_attempt)
    \<Rightarrow> (exn + bool) \<times> RuntimeBinding list" where
  "bootstrapCodexBinding bind pwd agent cwd attempts = bootstrap_loop bind pwd agent cwd (map attempts [0..<30])"

section \<open>The start-up hook of Codex\<close>

text \<open>
  \<open>codex-hook.ts\<close>: whether an identifier is a UUID is a parameter, as its schema leaves it to the validation
  library. An attempt is what the call returned, \<open>None\<close> when it failed, with whether the time had run out before
  the attempt and during it; after the last attempt the time has run out.
\<close>

record hook_attempt =
  hk_expired :: bool
  hk_result :: "json option"
  hk_aborted :: bool

datatype HookBindingOutcome = Hook_ready | Hook_not_ready | Legacy_connection_requires_reconnect | Hook_timeout | Hook_transport_error

record hook_event =
  he_session_id :: string
  he_cwd :: string
  he_hook_event_name :: string

definition hook_event_ok :: "(string \<Rightarrow> bool) \<Rightarrow> hook_event \<Rightarrow> bool" where
  "hook_event_ok uuid ev \<longleftrightarrow> uuid (he_session_id ev) \<and> is_absolute (he_cwd ev) \<and> he_hook_event_name ev \<in> {''SessionStart'', ''UserPromptSubmit''}"

definition legacy_connection :: "json \<Rightarrow> bool" where
  "legacy_connection result \<longleftrightarrow> js_truthy (jget result ''isError'')
     \<and> (case jget result ''content'' of
          Some (JArr items) \<Rightarrow> list_ex (\<lambda>item. jget item ''type'' = Some (JStr ''text'')
            \<and> (case str_field item ''text'' of None \<Rightarrow> False | Some t \<Rightarrow> list_ex (starts_with ''Tool bind_runtime not found'') (suffixes t))) items
        | _ \<Rightarrow> False)"

definition hook_bound :: "json \<Rightarrow> bool" where
  "hook_bound result \<longleftrightarrow> \<not> js_truthy (jget result ''isError'')
     \<and> Option.bind (jget result ''structuredContent'') (\<lambda>c. jget c ''activation_ready'') = Some (JBool True)"

text \<open>The outcome, and how many times the thread was asked to bind itself.\<close>

fun hook_loop :: "hook_attempt list \<Rightarrow> nat \<Rightarrow> HookBindingOutcome \<times> nat" where
  "hook_loop [] n = (Hook_timeout, n)"
| "hook_loop (a # rest) n =
     (if hk_expired a then (Hook_timeout, n)
      else case hk_result a of
             Some result \<Rightarrow>
               if legacy_connection result then (Legacy_connection_requires_reconnect, Suc n)
               else if hook_bound result then (Hook_ready, Suc n) else hook_loop rest (Suc n)
           | None \<Rightarrow> if hk_aborted a then (Hook_timeout, Suc n) else hook_loop rest (Suc n))"

definition bindCodexHook :: "(string \<Rightarrow> bool) \<Rightarrow> hook_event \<Rightarrow> hook_attempt list \<Rightarrow> (exn + bool) \<times> RuntimeBinding list" where
  "bindCodexHook uuid ev attempts =
     (if \<not> hook_event_ok uuid ev then (Inl (JsError ''ZodError''), [])
      else case hook_loop attempts 0 of
             (outcome, n) \<Rightarrow> (Inr (outcome = Hook_ready), replicate n (thread_binding (he_cwd ev) (he_session_id ev))))"

text \<open>The exit code of the hook process, \<open>None\<close> where it throws.\<close>

definition runCodexHook :: "(string \<Rightarrow> bool) \<Rightarrow> nat \<Rightarrow> hook_event option \<Rightarrow> hook_attempt list \<Rightarrow> nat option" where
  "runCodexHook uuid input_bytes ev attempts =
     (if 65536 < input_bytes then None
      else case ev of
             None \<Rightarrow> None
           | Some e \<Rightarrow> (case fst (bindCodexHook uuid e attempts) of Inl _ \<Rightarrow> None | Inr ok \<Rightarrow> Some (if ok then 0 else 1)))"

section \<open>One conversation\<close>

fun stage_binding :: "stage \<Rightarrow> RuntimeBinding option" where
  "stage_binding Idle_op = None"
| "stage_binding (Creating_adapter b) = Some b"
| "stage_binding (Replacing b a) = Some b"
| "stage_binding (Attaching b a) = Some b"

fun stage_adapter :: "stage \<Rightarrow> nat option" where
  "stage_adapter (Replacing b a) = Some a"
| "stage_adapter (Attaching b a) = Some a"
| "stage_adapter _ = None"

fun attaching :: "stage \<Rightarrow> bool" where
  "attaching (Attaching _ _) = True"
| "attaching _ = False"

definition open_adapters :: "controller \<Rightarrow> nat set" where
  "open_adapters st = {a. a < length (ct_adapters st) \<and> ct_adapters st ! a}"

fun admissible :: "string \<Rightarrow> expected_runtime \<Rightarrow> RuntimeBinding option \<Rightarrow> bool" where
  "admissible cwd x None = True"
| "admissible cwd x (Some b) = (validateRuntimeBinding cwd x b = Inr b)"

fun same_conversation :: "RuntimeBinding option \<Rightarrow> RuntimeBinding option \<Rightarrow> bool" where
  "same_conversation (Some b) (Some b') = (rb_runtime_id b' = rb_runtime_id b)"
| "same_conversation _ _ = True"

definition controller_inv :: "string \<Rightarrow> expected_runtime \<Rightarrow> controller \<Rightarrow> bool" where
  "controller_inv cwd x st \<longleftrightarrow>
     admissible cwd x (ct_binding st) \<and> admissible cwd x (stage_binding (ct_stage st)) \<and> same_conversation (ct_binding st) (stage_binding (ct_stage st))
     \<and> open_adapters st = set_option (ct_dispatcher st) \<union> set_option (stage_adapter (ct_stage st))
     \<and> (attaching (ct_stage st) \<longrightarrow> ct_dispatcher st = None) \<and> (ct_dispatcher st \<noteq> None \<longrightarrow> ct_dispatcher st \<noteq> stage_adapter (ct_stage st))"

lemma open_close: "open_adapters (close_adapter a st) = open_adapters st - {a}"
  by (cases "a < length (ct_adapters st)") (auto simp: open_adapters_def close_adapter_def nth_list_update split: if_splits)

lemma open_fields [simp]: "open_adapters (st\<lparr>ct_dispatcher := d\<rparr>) = open_adapters st" "open_adapters (st\<lparr>ct_stage := s\<rparr>) = open_adapters st"
  "open_adapters (st\<lparr>ct_binding := b\<rparr>) = open_adapters st" "open_adapters (st\<lparr>ct_closed := c\<rparr>) = open_adapters st"
  by (simp_all add: open_adapters_def)

lemma close_fields [simp]: "ct_binding (close_adapter a st) = ct_binding st" "ct_stage (close_adapter a st) = ct_stage st"
  "ct_dispatcher (close_adapter a st) = ct_dispatcher st" "ct_closed (close_adapter a st) = ct_closed st"
  by (simp_all add: close_adapter_def)

lemma ends_fields [simp]: "ct_binding (dispatcher_ends st) = ct_binding st" "ct_stage (dispatcher_ends st) = ct_stage st" "ct_dispatcher (dispatcher_ends st) = None"
  "ct_closed (dispatcher_ends st) = ct_closed st" "open_adapters (dispatcher_ends st) = open_adapters st - set_option (ct_dispatcher st)"
  by (auto simp: dispatcher_ends_def open_close split: option.splits)

lemma open_new: "open_adapters (st\<lparr>ct_adapters := ct_adapters st @ [b]\<rparr>) = open_adapters st \<union> (if b then {length (ct_adapters st)} else {})"
  by (auto simp: open_adapters_def nth_append less_Suc_eq)

lemma inv_ends:
  assumes "controller_inv cwd x st"
  shows "controller_inv cwd x (dispatcher_ends st)"
proof (cases "ct_dispatcher st")
  case None
  then show ?thesis using assms by (simp add: dispatcher_ends_def)
next
  case (Some a)
  then have "open_adapters (dispatcher_ends st) = set_option (stage_adapter (ct_stage st))" using assms by (auto simp: controller_inv_def)
  then show ?thesis using assms by (simp add: controller_inv_def)
qed

lemma bind_effect: "snd (bind_start cwd x v st) = st \<or> snd (bind_start cwd x v st) = st\<lparr>ct_stage := Creating_adapter v\<rparr> \<and> \<not> ct_closed st
    \<and> admissible cwd x (Some v) \<and> same_conversation (ct_binding st) (Some v)"
  by (simp add: bind_start_def validateRuntimeBinding_def split: option.split)

lemma same_None [simp]: "same_conversation b None"
  by (cases b) simp_all

lemma inv_bind:
  assumes "ct_stage st = Idle_op" and "controller_inv cwd x st"
  shows "controller_inv cwd x (snd (bind_start cwd x v st))"
  using bind_effect[of cwd x v st] assms by (elim disjE conjE) (simp_all add: controller_inv_def)

lemma inv_created:
  assumes "ct_stage st = Creating_adapter b" and "controller_inv cwd x st"
  shows "controller_inv cwd x (adapter_created b st)"
proof -
  have "length (ct_adapters st) \<notin> open_adapters st" by (simp add: open_adapters_def)
  with assms have "ct_dispatcher st \<noteq> Some (length (ct_adapters st))" by (auto simp: controller_inv_def)
  with assms show ?thesis by (cases "ct_closed st"; cases "ct_dispatcher st") (simp_all add: controller_inv_def adapter_created_def open_new insert_commute)
qed

lemma inv_replaced:
  assumes "ct_stage st = Replacing b a" and "controller_inv cwd x st"
  shows "controller_inv cwd x (replaced b a st)"
  using inv_ends[OF assms(2)] assms(1) by (simp add: controller_inv_def replaced_def)

lemma inv_attached:
  assumes "ct_stage st = Attaching b a" and "controller_inv cwd x st"
  shows "controller_inv cwd x (attached a st)" and "controller_inv cwd x (attach_failed a st)"
  using assms by (simp_all add: controller_inv_def attached_def attach_failed_def open_close)

lemma inv_quiet: "controller_inv cwd x st \<Longrightarrow> ct_stage st = Creating_adapter b \<Longrightarrow> controller_inv cwd x (st\<lparr>ct_stage := Idle_op\<rparr>)"
  "controller_inv cwd x st \<Longrightarrow> controller_inv cwd x (controller_close st)"
  by (simp_all add: controller_inv_def controller_close_def)

lemma inv_step: "controller_step cwd x st st' \<Longrightarrow> controller_inv cwd x st \<Longrightarrow> controller_inv cwd x st'"
  by (induction rule: controller_step.induct) (simp_all only: inv_bind inv_created inv_replaced inv_attached inv_ends inv_quiet)

lemma inv_run: "controller_run cwd x st \<Longrightarrow> controller_inv cwd x st"
proof (induction rule: controller_run.induct)
  case new
  show ?case by (simp add: controller_inv_def new_controller_def open_adapters_def)
qed (rule inv_step)

lemma binding_kept:
  assumes "controller_step cwd x st st'" and "controller_inv cwd x st" and "ct_binding st = Some b"
  shows "\<exists>b'. ct_binding st' = Some b' \<and> rb_runtime_id b' = rb_runtime_id b"
  using assms
proof (induction rule: controller_step.induct)
  case (bind st v)
  then show ?case using bind_effect[of cwd x v st] by auto
qed (auto simp: adapter_created_def replaced_def attached_def attach_failed_def controller_close_def controller_inv_def)

lemma bindings_kept:
  assumes "(controller_step cwd x)\<^sup>*\<^sup>* st st'" and "controller_inv cwd x st" and "ct_binding st = Some b"
  shows "\<exists>b'. ct_binding st' = Some b' \<and> rb_runtime_id b' = rb_runtime_id b"
  using assms(1)
proof (induction rule: rtranclp_induct)
  case base
  show ?case using assms(3) by simp
next
  case (step st1 st2)
  have "controller_inv cwd x st1" using step(1) assms(2) by (induction rule: rtranclp_induct) (simp_all add: inv_step)
  then show ?case using step binding_kept by metis
qed

lemma run_steps: "(controller_step cwd x)\<^sup>*\<^sup>* st st' \<Longrightarrow> controller_run cwd x st \<Longrightarrow> controller_run cwd x st'"
  by (induction rule: rtranclp_induct) (auto intro: controller_run.step)

fun shut :: "controller \<Rightarrow> bool" where
  "shut st \<longleftrightarrow> ct_closed st \<and> ct_stage st = Idle_op \<and> ct_dispatcher st = None"

lemma shut_step: "controller_step cwd x st st' \<Longrightarrow> shut st \<Longrightarrow> shut st'"
  by (induction rule: controller_step.induct) (simp_all add: bind_start_def controller_close_def)

lemma shut_steps: "(controller_step cwd x)\<^sup>*\<^sup>* st st' \<Longrightarrow> shut st \<Longrightarrow> shut st'"
  by (induction rule: rtranclp_induct) (simp_all only: shut_step)

text \<open>
  (C19) A connection serves one conversation: from the first binding on, whatever is asked, created, replaced,
  ended or closed, the connection is bound to the same runtime, by a binding that is valid for its client and
  directory; the adapters that are open are exactly the dispatcher's and that of the running call, so that none
  is left behind by a replacement or a failure; and once the controller is closed no adapter is opened again.
\<close>

theorem one_conversation:
  assumes "controller_run cwd x st" and "(controller_step cwd x)\<^sup>*\<^sup>* st st'" and "ct_binding st = Some b"
  shows "(\<exists>b'. ct_binding st' = Some b' \<and> rb_runtime_id b' = rb_runtime_id b \<and> validateRuntimeBinding cwd x b' = Inr b')
    \<and> open_adapters st' = set_option (ct_dispatcher st') \<union> set_option (stage_adapter (ct_stage st'))
    \<and> (shut st \<longrightarrow> shut st' \<and> open_adapters st' = {})"
proof -
  have inv: "controller_inv cwd x st'" using inv_run[OF run_steps[OF assms(2,1)]] .
  obtain b' where b': "ct_binding st' = Some b'" "rb_runtime_id b' = rb_runtime_id b"
    using bindings_kept[OF assms(2) inv_run[OF assms(1)] assms(3)] by blast
  have opened: "open_adapters st' = set_option (ct_dispatcher st') \<union> set_option (stage_adapter (ct_stage st'))"
    using inv by (simp add: controller_inv_def)
  have "validateRuntimeBinding cwd x b' = Inr b'" using inv b'(1) by (simp add: controller_inv_def)
  moreover have "shut st' \<and> open_adapters st' = {}" if "shut st"
    using shut_steps[OF assms(2) that] opened by simp
  ultimately show ?thesis using b' opened by blast
qed

definition sample_expected :: expected_runtime where
  "sample_expected = \<lparr>xr_client = Codex, xr_working_directory = ''/w''\<rparr>"

definition sample_controller :: controller where
  "sample_controller = attached 0 (replaced (thread_binding ''/w'' ''t1'') 0 (adapter_created (thread_binding ''/w'' ''t1'')
     (snd (bind_start ''/'' sample_expected (thread_binding ''/w'' ''t1'') new_controller))))"

lemma sample_asked: "snd (bind_start ''/'' sample_expected (thread_binding ''/w'' ''t1'') new_controller)
    = new_controller\<lparr>ct_stage := Creating_adapter (thread_binding ''/w'' ''t1'')\<rparr>"
  by code_simp

lemma sample_run: "controller_run ''/'' sample_expected sample_controller"
proof -
  let ?b = "thread_binding ''/w'' ''t1''"
  let ?s1 = "new_controller\<lparr>ct_stage := Creating_adapter ?b\<rparr>"
  have 1: "controller_run ''/'' sample_expected ?s1"
    using controller_run.step[OF controller_run.new controller_step.bind[of new_controller "''/''" sample_expected ?b]] unfolding sample_asked
    by (simp add: new_controller_def)
  have 2: "controller_run ''/'' sample_expected (adapter_created ?b ?s1)"
    by (rule controller_run.step[OF 1 controller_step.created]) simp
  have 3: "controller_run ''/'' sample_expected (replaced ?b 0 (adapter_created ?b ?s1))"
    by (rule controller_run.step[OF 2 controller_step.replace]) (simp add: adapter_created_def new_controller_def)
  show ?thesis unfolding sample_controller_def sample_asked
    by (rule controller_run.step[OF 3 controller_step.attach]) (simp add: replaced_def)
qed

text \<open>A bound connection is closed: the dispatcher's adapter is closed with it.\<close>

theorem one_conversation_witness:
  "\<exists>b'. ct_binding (dispatcher_ends (controller_close sample_controller)) = Some b' \<and> rb_runtime_id b' = ''t1''"
proof -
  have "(controller_step ''/'' sample_expected)\<^sup>*\<^sup>* sample_controller (dispatcher_ends (controller_close sample_controller))"
    by (rule converse_rtranclp_into_rtranclp[OF controller_step.closing r_into_rtranclp[of "controller_step ''/'' sample_expected", OF controller_step.ended]])
  moreover have "ct_binding sample_controller = Some (thread_binding ''/w'' ''t1'')" by code_simp
  ultimately have "\<exists>b'. ct_binding (dispatcher_ends (controller_close sample_controller)) = Some b'
      \<and> rb_runtime_id b' = rb_runtime_id (thread_binding ''/w'' ''t1'')"
    using one_conversation[OF sample_run] by blast
  then show ?thesis by (simp add: thread_binding_def)
qed

lemma unique_match: "search_threads pwd agent cwd matches xs = Inr (Some i) \<longleftrightarrow>
    matches @ map fst (filter (own_thread pwd agent cwd) xs) = [i] \<and> list_all (\<lambda>(i, a). \<not> ta_aborted a) xs" if "length matches \<le> 1"
  using that
proof (induction xs arbitrary: matches)
  case Nil
  then show ?case by (auto split: list.splits)
next
  case (Cons p xs)
  obtain j a where p: "p = (j, a)" by fastforce
  show ?case
  proof (cases "own_thread pwd agent cwd (j, a)")
    case True
    show ?thesis using Cons.IH[of "[j]"] True p Cons.prems by (cases matches) simp_all
  next
    case False
    then show ?thesis using Cons p by auto
  qed
qed

lemma nonempty_found: "nonempty v = Some s \<longleftrightarrow> v = Some s \<and> s \<noteq> []"
  by (auto simp: nonempty_def split: option.splits list.splits)

lemma loop_binds:
  assumes "snd (bootstrap_loop bind pwd agent cwd as) \<noteq> []"
  shows "\<exists>a\<in>set as. \<exists>i. findOwnCodexThread pwd agent cwd (ba_loaded a) (ba_answers a) = Inr (Some i)
      \<and> snd (bootstrap_loop bind pwd agent cwd as) = [thread_binding cwd i]
      \<and> (fst (bootstrap_loop bind pwd agent cwd as) = Inr True \<longleftrightarrow> (\<exists>r. bind (thread_binding cwd i) = Some r \<and> bound_ready i r))"
  using assms
proof (induction as)
  case (Cons a as)
  show ?case
  proof (cases "nonempty (case findOwnCodexThread pwd agent cwd (ba_loaded a) (ba_answers a) of Inr r \<Rightarrow> r | Inl _ \<Rightarrow> None)")
    case None
    then show ?thesis using Cons by (auto simp: Let_def split: if_splits)
  next
    case (Some i)
    then have "findOwnCodexThread pwd agent cwd (ba_loaded a) (ba_answers a) = Inr (Some i)"
      by (simp add: nonempty_found split: sum.splits)
    then show ?thesis using Some Cons.prems by (auto split: if_splits option.splits)
  qed
qed simp

text \<open>
  The bootstrap binds at most once, and only a thread that is the connection's own beyond doubt: one attempt
  listed at most 128 loaded threads, exactly one of which runs in the connection's directory and reaches this
  very agent with no other thread bound. It reports success only when the controller then says that this thread
  is bound and ready.
\<close>

lemma bootstrap_binds_own:
  assumes "snd (bootstrapCodexBinding bind pwd agent cwd attempts) \<noteq> []"
  shows "\<exists>n<30. \<exists>ids i l. ba_loaded (attempts n) = Some l \<and> Option.bind (jget l ''data'') str_array = Some ids \<and> length ids \<le> 128
      \<and> map fst (filter (own_thread pwd agent cwd) (zip ids (map (ba_answers (attempts n)) [0..<length ids]))) = [i]
      \<and> snd (bootstrapCodexBinding bind pwd agent cwd attempts) = [thread_binding cwd i]
      \<and> (fst (bootstrapCodexBinding bind pwd agent cwd attempts) = Inr True \<longleftrightarrow> (\<exists>r. bind (thread_binding cwd i) = Some r \<and> bound_ready i r))"
proof -
  obtain n i where n: "n < 30" and found: "findOwnCodexThread pwd agent cwd (ba_loaded (attempts n)) (ba_answers (attempts n)) = Inr (Some i)"
    and asked: "snd (bootstrapCodexBinding bind pwd agent cwd attempts) = [thread_binding cwd i]"
      "fst (bootstrapCodexBinding bind pwd agent cwd attempts) = Inr True \<longleftrightarrow> (\<exists>r. bind (thread_binding cwd i) = Some r \<and> bound_ready i r)"
    using loop_binds[of bind pwd agent cwd "map attempts [0..<30]"] assms unfolding bootstrapCodexBinding_def by auto
  show ?thesis
    using n found asked by (intro exI[of _ n]) (auto simp: findOwnCodexThread_def unique_match split: option.splits if_splits)
qed

definition sample_search :: bootstrap_attempt where
  "sample_search = \<lparr>ba_aborted = False, ba_loaded = Some (obj [(''data'', JArr [JStr ''t1'', JStr ''t2''])]),
     ba_answers = (\<lambda>n. if n = 0
        then \<lparr>ta_aborted = False, ta_read = Some (obj [(''thread'', obj [(''id'', JStr ''t1''), (''cwd'', JStr ''/w/'')])]),
              ta_status = Some (obj [(''structuredContent'', obj [(''status'', JStr ''ok''), (''agent'', JStr ''a1''), (''runtime'', JNull)])])\<rparr>
        else \<lparr>ta_aborted = False, ta_read = None, ta_status = None\<rparr>),
     ba_aborted_after = False\<rparr>"

lemma sample_found: "snd (bootstrapCodexBinding (\<lambda>b. Some (Bind_status True (Some b))) ''/'' ''a1'' ''/w'' (\<lambda>_. sample_search)) = [thread_binding ''/w'' ''t1'']"
  by code_simp

text \<open>
  The hook succeeds only when the thread itself said that it is bound and ready, and every request it made asked
  for the binding of that thread in its own directory.
\<close>

lemma hook_ready: "hook_loop attempts n = (Hook_ready, k) \<Longrightarrow> \<exists>a \<in> set attempts. \<exists>result. hk_result a = Some result \<and> hook_bound result"
  by (induction attempts n rule: hook_loop.induct) (auto split: if_splits option.splits)

lemma hook_binds_own:
  assumes "bindCodexHook uuid ev attempts = (Inr True, asked)"
  shows "hook_event_ok uuid ev \<and> (\<exists>a \<in> set attempts. \<exists>result. hk_result a = Some result \<and> hook_bound result)
    \<and> set asked \<subseteq> {thread_binding (he_cwd ev) (he_session_id ev)}"
  using assms hook_ready[of attempts 0] by (auto simp: bindCodexHook_def split: if_splits prod.splits)

end
