(* ===== verification/Schemas.thy ===== *)
theory Schemas
  imports Json
begin

text \<open>
  The schemas that tool arguments are parsed with, as the bound connections use them: \<open>sendMessageSchema\<close>,
  \<open>claimTasksSchema\<close>, \<open>acknowledgeTasksSchema\<close>, \<open>renewClaimSchema\<close>, \<open>receiveMessageSchema\<close> and
  \<open>queueStatusSchema\<close> under \<open>src/src/mcp-server/tools/\<close>, \<open>boundReceiveMessageSchema\<close> of
  \<open>src/src/experimental-wrapper/bridge.ts\<close>, the schemas of \<open>src/src/registered-shell/diagnostic-tools.ts\<close>, and
  \<open>boundSchema\<close> of \<open>opencode-plugin-factory.ts\<close>. A schema is a list of fields; parsing keeps the declared fields,
  fills in defaults, and drops every other member or, when the schema is strict, refuses it.
\<close>

section \<open>Parsing\<close>

datatype field_rule =
    Text_rule nat "nat option"          \<comment> \<open>least and greatest length\<close>
  | Whole_rule int int
  | Enum_rule "string list"
  | Record_rule
  | Flag_rule

datatype presence = Required | Optional | Default json

fun rule_ok :: "field_rule \<Rightarrow> json \<Rightarrow> bool" where
  "rule_ok (Text_rule lo hi) (JStr s) = (lo \<le> length s \<and> (case hi of None \<Rightarrow> True | Some n \<Rightarrow> length s \<le> n))"
| "rule_ok (Whole_rule lo hi) (JNum (JInt n)) = (lo \<le> n \<and> n \<le> hi)"
| "rule_ok (Enum_rule xs) (JStr s) = (s \<in> set xs)"
| "rule_ok Record_rule (JObj m) = True"
| "rule_ok Flag_rule (JBool b) = True"
| "rule_ok _ _ = False"

type_synonym field = "string \<times> presence \<times> field_rule"

record schema =
  sc_fields :: "field list"
  sc_strict :: bool

text \<open>The parsed member: \<open>None\<close> when it is refused, \<open>Some None\<close> when it is absent.\<close>

definition parse_field :: "presence \<Rightarrow> field_rule \<Rightarrow> json option \<Rightarrow> json option option" where
  "parse_field p r v =
     (case v of
        Some j \<Rightarrow> if rule_ok r j then Some (Some j) else None
      | None \<Rightarrow> (case p of Required \<Rightarrow> None | Optional \<Rightarrow> Some None | Default d \<Rightarrow> Some (Some d)))"

fun parse_fields :: "field list \<Rightarrow> (string, json) fmap \<Rightarrow> (string \<times> json) list option" where
  "parse_fields [] m = Some []"
| "parse_fields ((k, p, r) # fs) m =
     (case parse_field p r (fmlookup m k) of
        None \<Rightarrow> None
      | Some v \<Rightarrow> map_option (\<lambda>xs. opt_member k v @ xs) (parse_fields fs m))"

definition schema_parse :: "schema \<Rightarrow> (string, json) fmap \<Rightarrow> (string, json) fmap option" where
  "schema_parse sc m =
     (if sc_strict sc \<and> \<not> fBall (fmdom m) (\<lambda>k. k \<in> set (map fst (sc_fields sc))) then None
      else map_option fmap_of_list (parse_fields (sc_fields sc) m))"

definition omit :: "string \<Rightarrow> schema \<Rightarrow> schema" where
  "omit k sc = sc\<lparr>sc_fields := filter (\<lambda>f. fst f \<noteq> k) (sc_fields sc)\<rparr>"

section \<open>The schemas\<close>

definition optional_text :: "string \<Rightarrow> field" where
  "optional_text k = (k, Optional, Text_rule 0 None)"

definition sendMessageSchema :: schema where
  "sendMessageSchema = \<lparr>sc_fields =
     [optional_text ''session_id'', (''to'', Required, Text_rule 0 None), (''content'', Required, Text_rule 0 None),
      (''type'', Default (JStr ''task''), Enum_rule [''task'', ''result'', ''status'', ''error'', ''ping'']),
      (''metadata'', Optional, Record_rule), optional_text ''in_reply_to'', (''idempotency_key'', Optional, Text_rule 1 (Some 128))],
     sc_strict = False\<rparr>"

definition claimTasksSchema :: schema where
  "claimTasksSchema = \<lparr>sc_fields =
     [optional_text ''session_id'', (''max_batch'', Default (JNum (JInt 1)), Whole_rule 1 16),
      (''ttl_seconds'', Default (JNum (JInt 300)), Whole_rule 1 3600)], sc_strict = False\<rparr>"

definition acknowledgeTasksSchema :: schema where
  "acknowledgeTasksSchema = \<lparr>sc_fields = [optional_text ''session_id'', (''claim_id'', Required, Text_rule 1 None)], sc_strict = False\<rparr>"

definition renewClaimSchema :: schema where
  "renewClaimSchema = \<lparr>sc_fields =
     [optional_text ''session_id'', (''claim_id'', Required, Text_rule 1 None),
      (''ttl_seconds'', Default (JNum (JInt 300)), Whole_rule 1 3600)], sc_strict = False\<rparr>"

definition queueStatusSchema :: schema where
  "queueStatusSchema = \<lparr>sc_fields = [optional_text ''agent''], sc_strict = False\<rparr>"

definition receiveMessageSchema :: schema where
  "receiveMessageSchema = \<lparr>sc_fields =
     [optional_text ''session_id'', (''timeout'', Default (JNum (JInt 5)), Whole_rule 0 60)], sc_strict = False\<rparr>"

text \<open>\<open>extend\<close> replaces the rule of a declared member; a blocking read without end is not offered.\<close>

definition boundReceiveMessageSchema :: schema where
  "boundReceiveMessageSchema =
     (omit ''timeout'' (omit ''session_id'' receiveMessageSchema))\<lparr>sc_fields := [(''timeout'', Default (JNum (JInt 5)), Whole_rule 1 60)]\<rparr>"

definition boundSendMessageSchema :: schema where
  "boundSendMessageSchema = omit ''session_id'' sendMessageSchema"

definition kind_rule :: field_rule where
  "kind_rule = Enum_rule [''controller'', ''worker'', ''interactive'', ''unknown'']"

definition findAgentsSchema :: schema where
  "findAgentsSchema = \<lparr>sc_fields =
     [(''query'', Optional, Text_rule 0 (Some 200)), (''client'', Optional, Enum_rule [''codex'', ''pi'', ''opencode'']),
      (''working_directory'', Optional, Text_rule 0 (Some 4096)), (''kind'', Optional, kind_rule), (''online'', Optional, Flag_rule),
      (''activation_ready'', Optional, Flag_rule), (''limit'', Default (JNum (JInt 50)), Whole_rule 1 100)], sc_strict = True\<rparr>"

definition agentDetailsSchema :: schema where
  "agentDetailsSchema = \<lparr>sc_fields =
     [(''agent'', Optional, Text_rule 1 (Some 500)), (''probe'', Default (JBool False), Flag_rule)], sc_strict = True\<rparr>"

definition deliveryStatusSchema :: schema where
  "deliveryStatusSchema = agentDetailsSchema\<lparr>sc_fields := sc_fields agentDetailsSchema @ [(''message_id'', Required, Text_rule 1 (Some 200))]\<rparr>"

definition boundSchema :: "schema \<Rightarrow> schema" where
  "boundSchema sc = (omit ''session_id'' sc)\<lparr>sc_strict := True\<rparr>"

section \<open>What is parsed\<close>

lemma fields_declared: "parse_fields fs m = Some xs \<Longrightarrow> set (map fst xs) \<subseteq> set (map fst fs)"
proof (induction fs arbitrary: xs)
  case (Cons f fs)
  obtain k p r where f: "f = (k, p, r)" by (cases f)
  obtain v ys where "parse_fields fs m = Some ys" and xs: "xs = opt_member k v @ ys" using Cons.prems f by (auto split: option.splits)
  then have "set (map fst ys) \<subseteq> set (map fst fs)" by (simp only: Cons.IH)
  then show ?case using f xs by (auto simp: opt_member_def split: option.splits)
qed simp

lemma parsed_declared:
  assumes "schema_parse sc m = Some r"
  shows "fset (fmdom r) \<subseteq> set (map fst (sc_fields sc))"
proof -
  obtain xs where xs: "parse_fields (sc_fields sc) m = Some xs" and r: "r = fmap_of_list xs"
    using assms by (auto simp: schema_parse_def split: if_splits)
  have "fset (fmdom r) \<subseteq> set (map fst xs)" using fmdom_fmap_of_list[of xs] r by (simp add: fset_of_list.rep_eq)
  then show ?thesis using fields_declared[OF xs] by blast
qed

text \<open>Well-formed schemas name each member once and their defaults obey their own rules.\<close>

definition field_wf :: "field \<Rightarrow> bool" where
  "field_wf f = (case f of (k, Default d, r) \<Rightarrow> rule_ok r d | _ \<Rightarrow> True)"

definition schema_wf :: "schema \<Rightarrow> bool" where
  "schema_wf sc \<longleftrightarrow> distinct (map fst (sc_fields sc)) \<and> list_all field_wf (sc_fields sc)"

lemma parse_again: "parse_field p r v = Some w \<Longrightarrow> field_wf (k, p, r) \<Longrightarrow> parse_field p r w = Some w"
  by (auto simp: parse_field_def field_wf_def split: option.splits presence.splits if_splits)

lemma map_of_member: "map_of (opt_member k v @ xs) k = (case v of None \<Rightarrow> map_of xs k | Some j \<Rightarrow> Some j)"
  by (simp add: opt_member_def split: option.split)

lemma map_of_other: "k' \<noteq> k \<Longrightarrow> map_of (opt_member k v @ xs) k' = map_of xs k'"
  by (simp add: opt_member_def split: option.split)

lemma fields_cong: "(\<And>k. k \<in> set (map fst fs) \<Longrightarrow> fmlookup m k = fmlookup m' k) \<Longrightarrow> parse_fields fs m = parse_fields fs m'"
  by (induction fs) (auto split: option.splits)

lemma fields_again:
  assumes "parse_fields fs m = Some xs" and "distinct (map fst fs)" and "list_all field_wf fs"
  shows "parse_fields fs (fmap_of_list xs) = Some xs"
  using assms
proof (induction fs arbitrary: xs)
  case (Cons f fs)
  obtain k p r where f: "f = (k, p, r)" by (cases f)
  obtain v ys where v: "parse_field p r (fmlookup m k) = Some v" and ys: "parse_fields fs m = Some ys" and xs: "xs = opt_member k v @ ys"
    using Cons.prems(1) f by (auto split: option.splits)
  have k: "k \<notin> set (map fst fs)" using Cons.prems(2) f by simp
  then have "map_of ys k = None" using fields_declared[OF ys] by (auto simp: map_of_eq_None_iff)
  then have "fmlookup (fmap_of_list xs) k = v" unfolding xs fmlookup_of_list map_of_member by (simp split: option.split)
  moreover have "parse_field p r v = Some v" using parse_again[OF v] Cons.prems(3) f by auto
  moreover have "parse_fields fs (fmap_of_list xs) = parse_fields fs (fmap_of_list ys)"
    using k unfolding xs by (intro fields_cong) (metis fmlookup_of_list map_of_other)
  moreover have "parse_fields fs (fmap_of_list ys) = Some ys" using Cons ys by simp
  ultimately show ?case using f xs by simp
qed simp

lemma parse_idempotent:
  assumes "schema_wf sc" and "schema_parse sc m = Some r"
  shows "schema_parse sc r = Some r"
proof -
  obtain xs where xs: "parse_fields (sc_fields sc) m = Some xs" and r: "r = fmap_of_list xs"
    using assms(2) by (auto simp: schema_parse_def split: if_splits)
  have "fBall (fmdom r) (\<lambda>k. k \<in> set (map fst (sc_fields sc)))" using parsed_declared[OF assms(2)] by auto
  moreover have "parse_fields (sc_fields sc) r = Some xs" using fields_again[OF xs] assms(1) r by (simp add: schema_wf_def)
  ultimately show ?thesis using r by (simp add: schema_parse_def)
qed

text \<open>A member that was omitted never reaches the tool.\<close>

lemma omitted_absent: "schema_parse sc m = Some r \<Longrightarrow> k \<notin> set (map fst (sc_fields sc)) \<Longrightarrow> fmlookup r k = None"
  using parsed_declared[of sc m r] by (meson fmlookup_dom_iff not_None_eq subsetD)

end
