(* ===== verification/Opencode_Plugin.thy ===== *)
theory Opencode_Plugin
  imports Session_Owner Runtime_Adapters Schemas
begin

text \<open>
  The plug-in of OpenCode: \<open>src/src/registered-shell/opencode-plugin-factory.ts\<close>, its entry
  \<open>opencode-plugin.ts\<close>, and the backend of a session, \<open>opencode-backend.ts\<close>. What the host's client answers is a
  record of its answers, \<open>None\<close> for a call that fails; its session entries have the shape its client declares. A
  hook runs the owner of \<open>Session_Owner\<close>; a tool call asks for its session's entry, and is resumed when the entry is
  ready or has failed.
\<close>

section \<open>What the host says\<close>

definition record_of :: "json option \<Rightarrow> json option" where
  "record_of v = (case v of Some j \<Rightarrow> if is_object j then Some j else None | None \<Rightarrow> None)"

definition data_of :: "json option \<Rightarrow> json option" where
  "data_of v = (case Option.bind (record_of v) (\<lambda>j. jget j ''data'') of Some d \<Rightarrow> Some d | None \<Rightarrow> v)"

definition text_of :: "json option \<Rightarrow> string \<Rightarrow> string option" where
  "text_of v k = Option.bind (record_of v) (\<lambda>j. str_field j k)"

definition nativeSessionIdentity :: "json option \<Rightarrow> OpenCodeSessionIdentity option" where
  "nativeSessionIdentity v =
     (case (nonempty (text_of v ''id''), nonempty (text_of v ''directory'')) of
        (Some i, Some d) \<Rightarrow> Some \<lparr>oi_sessionID = i, oi_directory = d\<rparr>
      | _ \<Rightarrow> None)"

definition eventSessionIdentity :: "string \<Rightarrow> json option \<Rightarrow> OpenCodeSessionIdentity option" where
  "eventSessionIdentity type properties =
     (if type = ''session.created'' \<or> type = ''session.deleted''
      then nativeSessionIdentity (record_of (Option.bind (record_of properties) (\<lambda>j. jget j ''info'')))
      else None)"

text \<open>An idle session is absent from the map; \<open>None\<close> where the code throws.\<close>

definition session_status :: "json option \<Rightarrow> string \<Rightarrow> OpenCodeSessionStatus option" where
  "session_status v runtimeID =
     (case record_of (data_of v) of
        None \<Rightarrow> None
      | Some ob \<Rightarrow>
          (case record_of (jget ob runtimeID) of
             None \<Rightarrow> Some Idle_session
           | Some entry \<Rightarrow>
               let t = str_field entry ''type'' in
               if t = Some ''idle'' then Some Idle_session else if t = Some ''busy'' then Some Busy_session
               else if t = Some ''retry'' then Some Retry_session else None))"

definition history_entry :: "json \<Rightarrow> OpenCodeHistoryEntry" where
  "history_entry j =
     \<lparr>he_info = map_option (\<lambda>i. \<lparr>hi_id = str_field i ''id'', hi_role = str_field i ''role'', hi_sessionID = str_field i ''sessionID''\<rparr>) (jget j ''info''),
      he_parts = (case jget j ''parts'' of Some (JArr ps) \<Rightarrow> Some (map (\<lambda>p. (str_field p ''type'', str_field p ''text'')) ps) | _ \<Rightarrow> None)\<rparr>"

definition session_history :: "json option \<Rightarrow> OpenCodeHistoryEntry list option" where
  "session_history v = (case data_of v of Some (JArr es) \<Rightarrow> Some (map history_entry es) | _ \<Rightarrow> None)"

definition toolOutput :: "runtime \<Rightarrow> json \<Rightarrow> string" where
  "toolOutput E v = (case v of JStr s \<Rightarrow> s | _ \<Rightarrow> JSON_stringify E v)"

record native_client =
  nc_get :: "json option"
  nc_status :: "json option"
  nc_messages :: "json option"
  nc_promptAsync :: bool

definition read_identity :: "OpenCodeSessionIdentity \<Rightarrow> json option \<Rightarrow> OpenCodeIdentity option" where
  "read_identity i v =
     (if text_of (data_of v) ''id'' = Some (oi_sessionID i) \<and> text_of (data_of v) ''directory'' = Some (oi_directory i)
      then Some \<lparr>oi_runtime_id = oi_sessionID i, oi_working_directory = oi_directory i, oi_epoch = None\<rparr> else None)"

definition createOpenCodeRuntimePort :: "native_client \<Rightarrow> OpenCodeSessionIdentity \<Rightarrow> OpenCodeRuntimePort" where
  "createOpenCodeRuntimePort c i =
     \<lparr>po_readIdentity = (case nc_get c of None \<Rightarrow> None | Some v \<Rightarrow> read_identity i (Some v)),
      po_status = (case nc_status c of None \<Rightarrow> None | Some v \<Rightarrow> session_status (Some v) (oi_sessionID i)),
      po_history = (case nc_messages c of None \<Rightarrow> None | Some v \<Rightarrow> session_history (Some v)),
      po_promptAsync = nc_promptAsync c\<rparr>"

section \<open>The plug-in\<close>

text \<open>The tools: the exposed name, the name at the backend and the schema.\<close>

definition no_arguments :: "bool \<Rightarrow> schema" where
  "no_arguments strict = \<lparr>sc_fields = [], sc_strict = strict\<rparr>"

definition plugin_tools :: "(string \<times> string \<times> schema) list" where
  "plugin_tools =
     [(''gptqueue_claim_tasks'', ''claim_tasks'', boundSchema claimTasksSchema),
      (''gptqueue_acknowledge_tasks'', ''acknowledge_tasks'', boundSchema acknowledgeTasksSchema),
      (''gptqueue_renew_claim'', ''renew_claim'', boundSchema renewClaimSchema),
      (''gptqueue_send_message'', ''send_message'', boundSchema sendMessageSchema),
      (''gptqueue_receive_message'', ''receive_message'', boundReceiveMessageSchema),
      (''gptqueue_get_queue_status'', ''get_queue_status'', queueStatusSchema),
      (''gptqueue_list_agents'', ''list_agents'', no_arguments True),
      (''gptqueue_get_runtime_status'', ''get_runtime_status'', no_arguments False),
      (''gptqueue_find_agents'', ''find_agents'', findAgentsSchema),
      (''gptqueue_get_agent_details'', ''get_agent_details'', agentDetailsSchema),
      (''gptqueue_get_delivery_status'', ''get_delivery_status'', deliveryStatusSchema)]"

text \<open>A tool call: it asks for the entry of its session, and is resumed with it.\<close>

definition tool_asks :: "OpenCodeSessionIdentity \<Rightarrow> owner \<Rightarrow> (exn + nat) \<times> owner" where
  "tool_asks ctx st = getOrCreate ctx st"

record backend_call =
  bc_entry :: nat
  bc_tool :: string
  bc_arguments :: "(string, json) fmap"

definition tool_resumes :: "string \<Rightarrow> (string, json) fmap \<Rightarrow> nat \<Rightarrow> owner \<Rightarrow> exn + backend_call" where
  "tool_resumes name args e st =
     (case map_of plugin_tools name of
        None \<Rightarrow> Inl (JsError ''unknown tool'')
      | Some (backend, sc) \<Rightarrow>
          if \<not> se_ready (entry_at st e) then Inl (JsError ''session unavailable'')
          else (case schema_parse sc args of
                  None \<Rightarrow> Inl (JsError ''ZodError'')
                | Some parsed \<Rightarrow>
                    (case handle_callTool e st of
                       Inl x \<Rightarrow> Inl x
                     | Inr b \<Rightarrow> Inr \<lparr>bc_entry = b, bc_tool = backend, bc_arguments = parsed\<rparr>)))"

definition ensure :: "OpenCodeSessionIdentity \<Rightarrow> owner \<Rightarrow> owner" where
  "ensure i st = snd (getOrCreate i st)"

definition on_event :: "string \<Rightarrow> string \<Rightarrow> json option \<Rightarrow> owner \<Rightarrow> owner" where
  "on_event directory type properties st =
     (if type = ''server.instance.disposed''
      then (if text_of properties ''directory'' = Some directory then dispose st else st)
      else case eventSessionIdentity type properties of
             None \<Rightarrow> st
           | Some i \<Rightarrow> if type = ''session.deleted'' then snd (owner_close (oi_sessionID i) (Some (oi_directory i)) st) else ensure i st)"

definition on_chat_message :: "string \<Rightarrow> string \<Rightarrow> owner \<Rightarrow> owner" where
  "on_chat_message directory sid st = ensure \<lparr>oi_sessionID = sid, oi_directory = directory\<rparr> st"

definition on_system_transform :: "string \<Rightarrow> string option \<Rightarrow> owner \<Rightarrow> owner" where
  "on_system_transform directory sid st =
     (case nonempty sid of Some s \<Rightarrow> ensure \<lparr>oi_sessionID = s, oi_directory = directory\<rparr> st | None \<Rightarrow> st)"

text \<open>The entry module: where the URL comes from.\<close>

definition plugin_redis_url :: "json option \<Rightarrow> (string \<Rightarrow> string option) \<Rightarrow> exn + string" where
  "plugin_redis_url raw env =
     (case nonempty (case raw of Some (JStr s) \<Rightarrow> Some s
                               | _ \<Rightarrow> (case env ''GPTQUEUE_REDIS_URL'' of Some u \<Rightarrow> Some u | None \<Rightarrow> env ''REDIS_URL'')) of
        Some u \<Rightarrow> Inr u
      | None \<Rightarrow> Inl (JsError ''requires redisUrl''))"

section \<open>The backend of a session\<close>

definition opencodeAgentName :: "string \<Rightarrow> string" where
  "opencodeAgentName sessionID = ''gptqueue-opencode-'' @ sessionID"

definition opencode_binding :: "OpenCodeSessionIdentity \<Rightarrow> string option \<Rightarrow> RuntimeIdentity" where
  "opencode_binding i epoch =
     \<lparr>id_client = ''opencode'', id_runtime_id = oi_sessionID i, id_epoch = (case epoch of Some e \<Rightarrow> e | None \<Rightarrow> oi_sessionID i),
      id_working_directory = oi_directory i\<rparr>"

datatype backend_part = P_session | P_runtime | P_server | P_client | P_dispatcher | P_redis

datatype backend_stage = S_register | S_runtime | S_server | S_server_connect | S_client_connect | S_dispatcher

record backend =
  bk_registered :: bool
  bk_runtime :: bool
  bk_server :: bool
  bk_client :: bool
  bk_dispatcher :: bool

definition no_backend :: backend where
  "no_backend = \<lparr>bk_registered = False, bk_runtime = False, bk_server = False, bk_client = False, bk_dispatcher = False\<rparr>"

text \<open>Closing what is open, in this order; the result is what was closed and whether each of it succeeded.\<close>

definition backend_cleanup :: "(backend_part \<Rightarrow> bool) \<Rightarrow> backend \<Rightarrow> backend_part list \<times> bool" where
  "backend_cleanup broken b =
     (let closed = (if bk_dispatcher b then [P_dispatcher] else []) @ (if bk_server b then [P_server] else [])
        @ (if bk_client b then [P_client] else []) @ (if bk_registered b then [P_session] else []) @ [P_redis]
      in (closed, \<not> list_ex broken closed))"

text \<open>The stages of the start: what each leaves open when it is entered and when it is over.\<close>

definition backend_stages :: "(backend_stage \<times> (backend \<Rightarrow> backend) \<times> (backend \<Rightarrow> backend)) list" where
  "backend_stages =
     [(S_register, id, \<lambda>b. b\<lparr>bk_registered := True\<rparr>), (S_runtime, id, \<lambda>b. b\<lparr>bk_runtime := True\<rparr>), (S_server, id, \<lambda>b. b\<lparr>bk_server := True\<rparr>),
      (S_server_connect, id, id), (S_client_connect, \<lambda>b. b\<lparr>bk_client := True\<rparr>, id), (S_dispatcher, id, \<lambda>b. b\<lparr>bk_dispatcher := True\<rparr>)]"

fun run_stages :: "(backend_stage \<Rightarrow> bool) \<Rightarrow> (backend_stage \<times> (backend \<Rightarrow> backend) \<times> (backend \<Rightarrow> backend)) list \<Rightarrow> backend \<Rightarrow> bool \<times> backend" where
  "run_stages broken [] b = (True, b)"
| "run_stages broken ((s, enter, done) # rest) b = (if broken s then (False, enter b) else run_stages broken rest (done (enter b)))"

text \<open>The failure of a start names what went wrong in the clean-up too.\<close>

definition start_error :: "bool \<Rightarrow> bool \<Rightarrow> exn" where
  "start_error cleaned runtime_closed =
     (if \<not> cleaned \<or> \<not> runtime_closed then JsError ''OpenCode backend startup failed'' else JsError ''startup'')"

definition createOpenCodeBackend :: "(backend_stage \<Rightarrow> bool) \<Rightarrow> (backend_part \<Rightarrow> bool) \<Rightarrow> OpenCodeSessionIdentity \<Rightarrow> (exn + backend) \<times> backend_part list" where
  "createOpenCodeBackend broken close_fails i =
     (case validateIdentity i of
        Inl _ \<Rightarrow> (Inl (JsError ''OpenCode backend requires a bounded sessionID and absolute directory''), [])
      | Inr _ \<Rightarrow>
          (case run_stages broken backend_stages no_backend of
             (True, b) \<Rightarrow> (Inr b, [])
           | (False, b) \<Rightarrow>
               let lone = bk_runtime b \<and> \<not> bk_dispatcher b; (closed, cleaned) = backend_cleanup close_fails b in
               (Inl (start_error cleaned (\<not> (lone \<and> close_fails P_runtime))), (if lone then [P_runtime] else []) @ closed)))"

definition createOpenCodeBackendFactory :: "(backend_stage \<Rightarrow> bool) \<Rightarrow> (backend_part \<Rightarrow> bool) \<Rightarrow> bool \<Rightarrow> OpenCodeSessionIdentity
    \<Rightarrow> (exn + backend) \<times> backend_part list" where
  "createOpenCodeBackendFactory broken close_fails port_ok i =
     (if \<not> port_ok then (Inl (JsError ''runtime port''), []) else createOpenCodeBackend broken close_fails i)"

text \<open>What is open: a dispatcher closes the adapter it runs.\<close>

definition parts_open :: "backend \<Rightarrow> backend_part set" where
  "parts_open b = (if bk_registered b then {P_session} else {}) \<union> (if bk_runtime b \<and> \<not> bk_dispatcher b then {P_runtime} else {})
     \<union> (if bk_server b then {P_server} else {}) \<union> (if bk_client b then {P_client} else {}) \<union> (if bk_dispatcher b then {P_dispatcher} else {}) \<union> {P_redis}"

lemma cleanup_closes: "set (fst (backend_cleanup broken b)) = parts_open b - {P_runtime} \<and> distinct (fst (backend_cleanup broken b))"
  by (auto simp: backend_cleanup_def parts_open_def Let_def)

text \<open>
  A start that fails leaves nothing open: whatever had been opened when a stage failed is closed exactly once,
  however many of the closings fail; and closing a backend that started does the same.
\<close>

lemma failed_start_leaves_nothing:
  assumes "createOpenCodeBackend broken close_fails i = (Inl x, closed)" and "validateIdentity i = Inr i"
  shows "\<exists>b. run_stages broken backend_stages no_backend = (False, b) \<and> set closed = parts_open b \<and> distinct closed"
proof -
  obtain ok b where run: "run_stages broken backend_stages no_backend = (ok, b)" by fastforce
  then have ok: "\<not> ok" using assms by (auto simp: createOpenCodeBackend_def)
  have "closed = (if bk_runtime b \<and> \<not> bk_dispatcher b then [P_runtime] else []) @ fst (backend_cleanup close_fails b)"
    using assms run ok by (auto simp: createOpenCodeBackend_def Let_def split: prod.splits)
  moreover have "P_runtime \<notin> set (fst (backend_cleanup close_fails b))" using cleanup_closes by blast
  moreover have "P_runtime \<in> parts_open b \<longleftrightarrow> bk_runtime b \<and> \<not> bk_dispatcher b" by (simp add: parts_open_def)
  ultimately show ?thesis using run ok cleanup_closes[of close_fails b] by (intro exI[of _ b]) auto
qed

lemma started_backend_closes:
  assumes "createOpenCodeBackend broken close_fails i = (Inr b, closed)"
  shows "closed = [] \<and> bk_dispatcher b \<and> set (fst (backend_cleanup close_fails b)) = parts_open b"
proof -
  have "\<exists>j. validateIdentity i = Inr j" and run: "run_stages broken backend_stages no_backend = (True, b)" and c: "closed = []"
    using assms by (auto simp: createOpenCodeBackend_def Let_def split: sum.splits prod.splits bool.splits)
  have "bk_dispatcher b" using run by (auto simp: backend_stages_def split: if_splits)
  then show ?thesis using c cleanup_closes[of close_fails b] by (auto simp: parts_open_def)
qed

section \<open>Routing\<close>

text \<open>Steps of the plug-in: hooks and tool calls of the host, and what backends and waiting calls do.\<close>

inductive plugin_step :: "string \<Rightarrow> owner \<Rightarrow> owner \<Rightarrow> bool" for directory where
  event: "plugin_step directory st (on_event directory type properties st)"
| chat: "plugin_step directory st (on_chat_message directory sid st)"
| system: "plugin_step directory st (on_system_transform directory s st)"
| tool: "plugin_step directory st (snd (tool_asks ctx st))"
| disposed: "plugin_step directory st (dispose st)"
| work: "work_step st st' \<Longrightarrow> plugin_step directory st st'"

definition plugin_run :: "string \<Rightarrow> owner \<Rightarrow> bool" where
  "plugin_run directory st \<longleftrightarrow> (plugin_step directory)\<^sup>*\<^sup>* new_owner st"

lemma step_owner: "plugin_step directory st st' \<Longrightarrow> owner_run st \<Longrightarrow> owner_run st'"
proof (induction rule: plugin_step.induct)
  case (event st type properties)
  then show ?case by (auto simp: on_event_def ensure_def split: option.split intro: owner_run.intros(2,3,5))
next
  case (system st s)
  then show ?case by (auto simp: on_system_transform_def ensure_def split: option.split intro: owner_run.intros(2))
next
  case (work st st')
  then show ?case by (blast intro: owner_run.works)
qed (simp_all add: on_chat_message_def ensure_def tool_asks_def owner_run.intros(2,5))

lemma steps_owner: "(plugin_step directory)\<^sup>*\<^sup>* st st' \<Longrightarrow> owner_run st \<Longrightarrow> owner_run st'"
  by (induction rule: rtranclp_induct) (auto dest: step_owner)

lemma tools_unbound: "map_of plugin_tools name = Some (backend, sc) \<Longrightarrow> ''session_id'' \<notin> set (map fst (sc_fields sc))"
  by (auto simp: plugin_tools_def boundSchema_def omit_def no_arguments_def boundReceiveMessageSchema_def queueStatusSchema_def optional_text_def
      findAgentsSchema_def agentDetailsSchema_def deliveryStatusSchema_def split: if_splits)

text \<open>Entries stay, and their identities never change.\<close>

definition keeps_identities :: "owner \<Rightarrow> owner \<Rightarrow> bool" where
  "keeps_identities st st' \<longleftrightarrow> length (ow_heap st) \<le> length (ow_heap st') \<and> (\<forall>i < length (ow_heap st). se_identity (entry_at st' i) = se_identity (entry_at st i))"

lemma keeps_refl [simp]: "keeps_identities st st"
  by (simp add: keeps_identities_def)

lemma keeps_trans: "keeps_identities a b \<Longrightarrow> keeps_identities b c \<Longrightarrow> keeps_identities a c"
  by (auto simp: keeps_identities_def)

lemma keeps_heap: "ow_heap st' = (ow_heap st)[e := y] \<Longrightarrow> se_identity y = se_identity (entry_at st e) \<Longrightarrow> keeps_identities st st'"
proof -
  assume st': "ow_heap st' = (ow_heap st)[e := y]" and y: "se_identity y = se_identity (entry_at st e)"
  have "se_identity (entry_at st' i) = se_identity (entry_at st i)" if "i < length (ow_heap st)" for i
    using that y by (cases "e = i") (simp_all add: entry_at_def st')
  then show ?thesis by (simp add: keeps_identities_def st')
qed

lemma keeps_set [simp]: "keeps_identities st (set_phase e p st)"
  by (rule keeps_heap[of _ _ e "(entry_at st e)\<lparr>se_phase := p\<rparr>"]) (simp_all add: set_phase_def)

lemma keeps_forget [simp]: "keeps_identities st (forget e st') = keeps_identities st st'"
  by (simp add: keeps_identities_def)

lemma keeps_end [simp]: "keeps_identities st (end_entry e how st)"
  by (simp add: end_entry_def)

lemma keeps_create: "keeps_identities st (snd (getOrCreate i st))"
  by (auto simp: getOrCreate_def keeps_identities_def entry_at_def nth_append split: sum.split option.split)

lemma keeps_close: "keeps_identities st (snd (owner_close sid d st))"
proof (cases "map_of (ow_entries st) sid")
  case (Some e)
  then show ?thesis
    using keeps_heap[of "snd (owner_close sid d st)" st e "(entry_at st e)\<lparr>se_cancelled := True\<rparr>"] by (auto simp: owner_close_def)
qed (simp add: owner_close_def)

lemma keeps_fold: "keeps_identities st (fold (\<lambda>sid s. snd (owner_close sid None s)) sids st)"
  by (induction sids arbitrary: st) (auto intro: keeps_trans[OF keeps_close])

lemma keeps_dispose: "keeps_identities st (dispose st)"
  using keeps_trans[of st "st\<lparr>ow_disposed := True\<rparr>", OF _ keeps_fold] by (simp add: dispose_def) (simp add: keeps_identities_def entry_at_def)

lemma keeps_work: "work_step st st' \<Longrightarrow> keeps_identities st st'"
proof (induction rule: work_step.induct)
  case (created st e)
  show ?case
    using keeps_heap[of "factory_resolves e st" st e "(entry_at st e)\<lparr>se_ready := True, se_phase := Live\<rparr>"] by (auto simp: factory_resolves_def)
next
  case (finished e st how)
  show ?case by (simp add: closer_ends_def) (simp add: keeps_identities_def entry_at_def)
qed (simp_all add: factory_rejects_def late_closed_def backend_closed_def closer_resumes_def handle_close_def)

lemma keeps_step: "plugin_step directory st st' \<Longrightarrow> keeps_identities st st'"
  by (induction rule: plugin_step.induct)
    (auto simp: on_event_def on_chat_message_def on_system_transform_def ensure_def tool_asks_def split: option.split
      intro: keeps_create keeps_close keeps_dispose keeps_work)

lemma keeps_steps: "(plugin_step directory)\<^sup>*\<^sup>* st st' \<Longrightarrow> keeps_identities st st'"
  by (induction rule: rtranclp_induct) (auto intro: keeps_trans keeps_step)

text \<open>
  (C17) A tool call reaches the backend of its own session. Whatever happens between the moment the call asks for
  its session and the moment it is resumed, if the call reaches a backend at all then it is the live backend of
  the session and directory that the host named, the only one of that session, and the arguments it passes carry
  no session identifier, whatever arguments the model supplied.
\<close>

theorem routes_to_own_session:
  assumes "plugin_run directory st" and "tool_asks ctx st = (Inr e, st1)" and "(plugin_step directory)\<^sup>*\<^sup>* st1 st2"
    and "tool_resumes name args e st2 = Inr call"
  shows "se_identity (entry_at st2 (bc_entry call)) = ctx \<and> in_phase st2 (bc_entry call) Live \<and> fmlookup (bc_arguments call) ''session_id'' = None
    \<and> (\<forall>j. active st2 j \<and> entry_session st2 j = oi_sessionID ctx \<longrightarrow> j = bc_entry call)"
proof -
  have run: "owner_run st" using assms(1) steps_owner[OF _ owner_run.new] by (simp add: plugin_run_def)
  then have run2: "owner_run st2" using assms(2,3) steps_owner[of directory st1 st2] owner_run.asked[of st ctx] by (simp add: tool_asks_def)
  have e: "active st1 e" "se_identity (entry_at st1 e) = ctx"
    using created_entry[OF owner_run_inv[OF run], of ctx e st1] assms(2) by (simp_all add: tool_asks_def entry_session_def)
  then have e2: "e < length (ow_heap st2)" "se_identity (entry_at st2 e) = ctx"
    using keeps_steps[OF assms(3)] by (auto simp: keeps_identities_def active_def)
  obtain backend sc where t: "map_of plugin_tools name = Some (backend, sc)" and args: "schema_parse sc args = Some (bc_arguments call)"
    and called: "bc_entry call = e" and live: "se_phase (entry_at st2 e) = Live"
    using assms(4) by (auto simp: tool_resumes_def handle_callTool_def split: option.splits if_splits)
  have "active st2 e" using e2(1) live by (simp add: active_def)
  moreover have "entry_session st2 e = oi_sessionID ctx" using e2(2) by (simp add: entry_session_def)
  moreover have "map_inv st2" using owner_run_inv[OF run2] by (simp add: owner_inv_def)
  ultimately have "j = e" if "active st2 j" "entry_session st2 j = oi_sessionID ctx" for j using map_unique[of st2 j e] that by simp
  then show ?thesis using e2 live omitted_absent[OF args tools_unbound[OF t]] unfolding called by blast
qed

text \<open>
  Only a deletion or a disposal retires a backend: any other event, idle ones included, leaves every entry as it
  is, and no call waiting to close one.
\<close>

lemma other_events_retire_nothing:
  assumes "type \<noteq> ''session.deleted''" and "type \<noteq> ''server.instance.disposed''" and "e < length (ow_heap st)"
  shows "entry_at (on_event directory type properties st) e = entry_at st e
    \<and> ow_closers (on_event directory type properties st) = ow_closers st \<and> ow_disposed (on_event directory type properties st) = ow_disposed st"
  using assms by (auto simp: on_event_def ensure_def getOrCreate_def entry_at_def nth_append split: option.split sum.split)

text \<open>The adapter created for a session is bound to that session: its identity check passes for the port of the same session.\<close>

lemma port_matches_binding:
  assumes "po_readIdentity (createOpenCodeRuntimePort c i) = Some identity"
  shows "identityMatches cwd (opencode_binding i epoch) identity
    \<and> createOpenCodeRuntime cwd (opencode_binding i epoch) (po_readIdentity (createOpenCodeRuntimePort c i)) = Inr ()"
  using assms by (auto simp: createOpenCodeRuntimePort_def read_identity_def identityMatches_def opencode_binding_def createOpenCodeRuntime_def split: option.splits if_splits)

section \<open>Witness\<close>

definition plugin_demo :: owner where
  "plugin_demo = snd (tool_asks demo_session new_owner)"

lemma plugin_demo_state: "tool_asks demo_session new_owner = (Inr 0, plugin_demo)"
  "factory_resolves 0 plugin_demo = \<lparr>ow_heap = [\<lparr>se_identity = demo_session, se_cancelled = False, se_ready = True, se_phase = Live\<rparr>],
     ow_entries = [(''s'', 0)], ow_disposed = False, ow_closers = []\<rparr>"
  by code_simp+

lemma plugin_demo_steps: "(plugin_step ''/w'')\<^sup>*\<^sup>* plugin_demo (factory_resolves 0 plugin_demo)"
proof -
  have "in_phase plugin_demo 0 Creating" by code_simp
  then show ?thesis by (blast intro: r_into_rtranclp plugin_step.work work_step.created)
qed

lemma plugin_demo_call: "tool_resumes ''gptqueue_list_agents'' fmempty 0 (factory_resolves 0 plugin_demo) = Inr \<lparr>bc_entry = 0, bc_tool = ''list_agents'', bc_arguments = fmempty\<rparr>"
  unfolding plugin_demo_state by code_simp

theorem routes_to_own_session_witness: "se_identity (entry_at (factory_resolves 0 plugin_demo) 0) = demo_session"
  using routes_to_own_session[OF _ plugin_demo_state(1) plugin_demo_steps plugin_demo_call] by (simp add: plugin_run_def)

end
