(* ===== verification/Pi_Extension.thy ===== *)
theory Pi_Extension
  imports Runtime_Adapters Continuity
begin

text \<open>
  The extension of Pi, \<open>src/src/registered-shell/pi-extension.ts\<close>, with the names of \<open>tool-names.ts\<close>. The extension
  owns one connection to a sidecar process. Connections are cells that are open or closed; adapters are known by
  their position in the list of bindings they were created for. Pi awaits each handler before it calls the next;
  what the sidecar and Pi answer during a handler is a record of their answers. A connection that is made after
  its deadline is closed by the code that waited for it, so a deadline leaves no connection.
\<close>

section \<open>The catalog of tools\<close>

definition GPTQUEUE_TOOLS :: "string list" where
  "GPTQUEUE_TOOLS = [''send_message'', ''receive_message'', ''list_agents'', ''get_queue_status'']"

definition RUNTIME_TOOL_NAMES :: "string list" where
  "RUNTIME_TOOL_NAMES = [''claim_tasks'', ''acknowledge_tasks'', ''renew_claim'', ''bind_runtime'', ''get_runtime_status'']"

definition DIAGNOSTIC_TOOL_NAMES :: "string list" where
  "DIAGNOSTIC_TOOL_NAMES = [''find_agents'', ''get_agent_details'', ''get_delivery_status'', ''set_agent_profile'']"

definition SHELL_TOOL_NAMES :: "string list" where
  "SHELL_TOOL_NAMES = RUNTIME_TOOL_NAMES @ DIAGNOSTIC_TOOL_NAMES"

record CatalogTool =
  ca_name :: "string option"
  ca_description :: "string option"
  ca_inputSchema :: "json option"

record BoundTool =
  bt_name :: string
  bt_description :: "string option"
  bt_inputSchema :: json

definition expected_tools :: "bool \<Rightarrow> string list" where
  "expected_tools runtimeEnabled = (if runtimeEnabled then GPTQUEUE_TOOLS @ RUNTIME_TOOL_NAMES else GPTQUEUE_TOOLS)"

definition allowed_tools :: "bool \<Rightarrow> string list" where
  "allowed_tools runtimeEnabled = (if runtimeEnabled then GPTQUEUE_TOOLS @ SHELL_TOOL_NAMES else GPTQUEUE_TOOLS)"

definition schema_admitted :: "json option \<Rightarrow> bool" where
  "schema_admitted v =
     (case v of
        Some (JObj m) \<Rightarrow> fmlookup m ''type'' = Some (JStr ''object'')
          \<and> (case fmlookup m ''properties'' of Some ps \<Rightarrow> jget ps ''session_id'' = None | None \<Rightarrow> True)
      | _ \<Rightarrow> False)"

definition bound_tool :: "CatalogTool list \<Rightarrow> string \<Rightarrow> BoundTool option" where
  "bound_tool tools name =
     Option.bind (find (\<lambda>t. ca_name t = Some name) tools) (\<lambda>t.
       if schema_admitted (ca_inputSchema t)
       then map_option (\<lambda>s. \<lparr>bt_name = name, bt_description = ca_description t, bt_inputSchema = s\<rparr>) (ca_inputSchema t) else None)"

fun all_some :: "'a option list \<Rightarrow> 'a list option" where
  "all_some [] = Some []"
| "all_some (None # xs) = None"
| "all_some (Some x # xs) = map_option (\<lambda>ys. x # ys) (all_some xs)"

text \<open>\<open>None\<close> where the code throws.\<close>

definition validateCatalog :: "CatalogTool list \<Rightarrow> bool \<Rightarrow> BoundTool list option" where
  "validateCatalog tools runtimeEnabled =
     (let names = map ca_name tools; allowed = allowed_tools runtimeEnabled in
      if \<not> distinct names \<or> list_ex (\<lambda>n. case n of None \<Rightarrow> True | Some s \<Rightarrow> s \<notin> set allowed) names
         \<or> list_ex (\<lambda>s. Some s \<notin> set names) (expected_tools runtimeEnabled) then None
      else all_some (map (bound_tool tools) (filter (\<lambda>s. Some s \<in> set names) allowed)))"

section \<open>The extension\<close>

record PiContext =
  pc_cwd :: string
  pc_sessionId :: string

record pi_ext =
  px_client :: "nat option"
  px_runtime :: "nat option"
  px_binding :: "RuntimeBinding option"
  px_context :: "PiContext option"
  px_instructions :: string
  px_registered :: "string list"
  px_clients :: "bool list"                  \<comment> \<open>whether it is open\<close>
  px_adapters :: "RuntimeBinding list"
  px_exited :: bool

definition new_extension :: pi_ext where
  "new_extension = \<lparr>px_client = None, px_runtime = None, px_binding = None, px_context = None, px_instructions = [], px_registered = [],
     px_clients = [], px_adapters = [], px_exited = False\<rparr>"

text \<open>The answers during one handler.\<close>

record pi_host =
  ho_make :: bool
  ho_tools :: "CatalogTool list option"
  ho_instructions :: "string option"
  ho_handler :: bool
  ho_bind :: "(bool \<times> json) option"         \<comment> \<open>\<open>isError\<close> and the structured content\<close>
  ho_epoch :: string
  ho_close :: bool
  ho_sendMessage :: bool
  ho_active :: "string list"
  ho_active_after :: "string list"

text \<open>\<open>close\<close>: the connection is closed, or destroyed when closing it hangs, in which case the handler fails.\<close>

definition close_session :: "pi_ext \<Rightarrow> pi_ext" where
  "close_session st =
     st\<lparr>px_runtime := None, px_binding := None, px_client := None,
        px_clients := (case px_client st of None \<Rightarrow> px_clients st | Some c \<Rightarrow> (px_clients st)[c := False])\<rparr>"

definition fatal :: "pi_ext \<Rightarrow> pi_ext" where
  "fatal st = (close_session st)\<lparr>px_exited := True\<rparr>"

definition make_client :: "pi_host \<Rightarrow> pi_ext \<Rightarrow> pi_ext option" where
  "make_client h st =
     (if px_client st \<noteq> None then Some st
      else if ho_make h then Some (st\<lparr>px_client := Some (length (px_clients st)), px_clients := px_clients st @ [True]\<rparr>) else None)"

definition pi_connect :: "bool \<Rightarrow> pi_host \<Rightarrow> pi_ext \<Rightarrow> BoundTool list option \<times> pi_ext" where
  "pi_connect re h st =
     (case make_client h st of
        None \<Rightarrow> (None, st)
      | Some st1 \<Rightarrow>
          (case Option.bind (ho_tools h) (\<lambda>ts. validateCatalog ts re) of
             None \<Rightarrow> (None, st1)
           | Some catalog \<Rightarrow>
               let ins = (case ho_instructions h of None \<Rightarrow> [] | Some s \<Rightarrow> s) in
               (if trim ins = [] then None else Some catalog, st1\<lparr>px_instructions := ins\<rparr>)))"

definition registerCatalog :: "BoundTool list \<Rightarrow> pi_ext \<Rightarrow> pi_ext" where
  "registerCatalog catalog st =
     fold (\<lambda>d s. if bt_name d \<in> set (px_registered s) then s else s\<lparr>px_registered := px_registered s @ [bt_name d]\<rparr>) catalog st"

definition pi_binding :: "PiContext \<Rightarrow> string \<Rightarrow> RuntimeBinding" where
  "pi_binding ctx epoch = \<lparr>rb_client = Pi, rb_runtime_id = pc_sessionId ctx, rb_epoch = epoch, rb_working_directory = pc_cwd ctx\<rparr>"

definition bind_adapter :: "pi_host \<Rightarrow> PiContext \<Rightarrow> pi_ext \<Rightarrow> pi_ext" where
  "bind_adapter h ctx st =
     (let b = pi_binding ctx (ho_epoch h) in
      st\<lparr>px_binding := Some b, px_runtime := Some (length (px_adapters st)), px_adapters := px_adapters st @ [b]\<rparr>)"

definition bind_accepted :: "pi_host \<Rightarrow> bool" where
  "bind_accepted h = (case ho_bind h of None \<Rightarrow> False | Some (isError, content) \<Rightarrow> \<not> isError \<and> jget content ''activation_ready'' = Some (JBool True))"

definition startRuntime :: "bool \<Rightarrow> pi_host \<Rightarrow> PiContext \<Rightarrow> pi_ext \<Rightarrow> bool \<times> pi_ext" where
  "startRuntime re h ctx st0 =
     (let st = st0\<lparr>px_context := Some ctx\<rparr> in
      if \<not> re then (True, st)
      else if pc_cwd ctx = [] \<or> \<not> is_absolute (pc_cwd ctx) \<or> pc_sessionId ctx = [] \<or> \<not> ho_sendMessage h then (False, st)
      else if map_option rb_runtime_id (px_binding st) = Some (pc_sessionId ctx) \<and> px_runtime st \<noteq> None \<and> px_client st \<noteq> None then (True, st)
      else if px_binding st \<noteq> None \<and> \<not> ho_close h then (False, close_session st)
      else case pi_connect re h (if px_binding st \<noteq> None then close_session st else st) of
             (None, st1) \<Rightarrow> (False, st1)
           | (Some catalog, st1) \<Rightarrow>
               let st2 = registerCatalog catalog st1 in
               if \<not> ho_handler h then (False, st2) else (bind_accepted h, bind_adapter h ctx st2))"

definition tools_active :: "bool \<Rightarrow> pi_host \<Rightarrow> bool" where
  "tools_active re h =
     (let active = (if list_all (\<lambda>n. n \<in> set (ho_active h)) (expected_tools re) then ho_active h else ho_active_after h)
      in list_all (\<lambda>n. n \<in> set active) (expected_tools re))"

text \<open>The prompt that is handed back, or \<open>None\<close> when the process exits. The second connection check has answers of its own.\<close>

definition before_agent_start :: "bool \<Rightarrow> pi_host \<Rightarrow> pi_host \<Rightarrow> string \<Rightarrow> pi_ext \<Rightarrow> string option \<times> pi_ext" where
  "before_agent_start re h h' prompt st =
     (let (ok, st1) = (if \<not> re then (True, st)
                       else case px_context st of
                              None \<Rightarrow> (False, st)
                            | Some ctx \<Rightarrow> if px_runtime st = None then startRuntime re h ctx st else (True, st)) in
      if \<not> ok then (None, fatal st1)
      else case pi_connect re h' st1 of
             (None, st2) \<Rightarrow> (None, fatal st2)
           | (Some _, st2) \<Rightarrow> if tools_active re h' then (Some (prompt @ [CHR 0x0A, CHR 0x0A] @ px_instructions st2), st2) else (None, fatal st2))"

definition session_start :: "bool \<Rightarrow> pi_host \<Rightarrow> PiContext \<Rightarrow> pi_ext \<Rightarrow> pi_ext" where
  "session_start re h ctx st = (case startRuntime re h ctx st of (ok, st1) \<Rightarrow> if ok then st1 else fatal st1)"

text \<open>The start of the extension without a runtime.\<close>

definition extension_start :: "bool \<Rightarrow> pi_host \<Rightarrow> pi_ext \<Rightarrow> pi_ext" where
  "extension_start re h st =
     (if re then st
      else case pi_connect re h st of (None, st1) \<Rightarrow> fatal st1 | (Some catalog, st1) \<Rightarrow> registerCatalog catalog st1)"

text \<open>A tool that was registered: the connection it uses, or the error.\<close>

definition tool_execute :: "(bool \<times> (bool \<times> string) list) \<Rightarrow> pi_ext \<Rightarrow> exn + nat \<times> string list" where
  "tool_execute = (\<lambda>(isError, content) st.
     case px_client st of
       None \<Rightarrow> Inl (JsError ''Pi GPTQueue session is not connected'')
     | Some c \<Rightarrow> let texts = map snd (filter fst content) in
                 if isError then Inl (JsError (if concat texts = [] \<and> length texts \<le> 1 then ''GPTQueue tool failed'' else ''tool error'')) else Inr (c, texts))"

text \<open>A request to activate, by the adapter whose handler receives it.\<close>

definition activation_accepted :: "nat \<Rightarrow> RuntimeBinding \<Rightarrow> pi_ext \<Rightarrow> bool" where
  "activation_accepted a incoming st \<longleftrightarrow>
     (let own = px_adapters st ! a in
      rb_runtime_id incoming = rb_runtime_id own \<and> rb_epoch incoming = rb_epoch own \<and> rb_client incoming = Pi
      \<and> rb_working_directory incoming = rb_working_directory own \<and> px_runtime st = Some a)"

definition identity_of :: "RuntimeBinding \<Rightarrow> RuntimeIdentity" where
  "identity_of b = \<lparr>id_client = client_text (rb_client b), id_runtime_id = rb_runtime_id b, id_epoch = rb_epoch b, id_working_directory = rb_working_directory b\<rparr>"

text \<open>The entries appended when an agent's turn ends, or \<open>None\<close> where the code throws.\<close>

definition completion_entry :: "string \<Rightarrow> string \<Rightarrow> json" where
  "completion_entry runtime operation =
     obj [(''type'', JStr ''custom''), (''customType'', JStr ''gptqueue-inbox-activation-completed''),
          (''data'', obj [(''operation_id'', JStr operation), (''runtime_id'', JStr runtime), (''turn_id'', JStr (''pi:'' @ operation)), (''status'', JStr ''completed'')])]"

definition message_operation :: "RuntimeBinding option \<Rightarrow> json \<Rightarrow> string option" where
  "message_operation b item =
     (let details = jget item ''details'' in
      if is_object item \<and> jget item ''role'' = Some (JStr ''custom'') \<and> jget item ''customType'' = Some (JStr ''gptqueue-inbox-activation'')
         \<and> Option.bind details (\<lambda>d. jget d ''runtime_id'') = map_option (\<lambda>x. JStr (rb_runtime_id x)) b
      then Option.bind details (\<lambda>d. str_field d ''operation_id'') else None)"

definition agent_end :: "json list \<Rightarrow> pi_ext \<Rightarrow> json list option" where
  "agent_end messages st =
     (let ops = List.map_filter (message_operation (px_binding st)) messages in
      case px_binding st of
        None \<Rightarrow> if ops = [] then Some [] else None
      | Some b \<Rightarrow> Some (map (completion_entry (rb_runtime_id b)) ops))"

inductive pi_step :: "bool \<Rightarrow> pi_ext \<Rightarrow> pi_ext \<Rightarrow> bool" for re where
  starts: "\<not> px_exited st \<Longrightarrow> pi_step re st (extension_start re h st)"
| turn: "\<not> px_exited st \<Longrightarrow> pi_step re st (snd (before_agent_start re h h' prompt st))"
| session: "\<not> px_exited st \<Longrightarrow> re \<Longrightarrow> pi_step re st (session_start re h ctx st)"
| switch: "\<not> px_exited st \<Longrightarrow> pi_step re st (close_session st)"

definition pi_run :: "bool \<Rightarrow> pi_ext \<Rightarrow> bool" where
  "pi_run re st \<longleftrightarrow> (pi_step re)\<^sup>*\<^sup>* new_extension st"

section \<open>The catalog is exact\<close>

lemma all_some_map: "all_some (map f xs) = Some ys \<longleftrightarrow> list_all2 (\<lambda>x y. f x = Some y) xs ys"
proof (induction xs arbitrary: ys)
  case (Cons x xs)
  then show ?case by (cases "f x"; cases ys) auto
qed auto

lemma bound_names: "list_all2 (\<lambda>x y. bound_tool tools x = Some y) xs bs \<Longrightarrow> map bt_name bs = xs"
  by (induction rule: list_all2_induct) (auto simp: bound_tool_def bind_eq_Some_conv split: if_splits)

lemma bound_tool_name: "bound_tool tools n = Some b \<Longrightarrow> bt_name b = n \<and> schema_admitted (Some (bt_inputSchema b))"
  by (auto simp: bound_tool_def bind_eq_Some_conv split: if_splits)

lemma catalog_exact:
  assumes "validateCatalog tools re = Some bs"
  shows "map bt_name bs = filter (\<lambda>s. Some s \<in> set (map ca_name tools)) (allowed_tools re)
    \<and> set (map ca_name tools) = Some ` set (map bt_name bs) \<and> set (expected_tools re) \<subseteq> set (map bt_name bs)
    \<and> (\<forall>b \<in> set bs. schema_admitted (Some (bt_inputSchema b)))"
proof -
  let ?names = "map ca_name tools"
  let ?xs = "filter (\<lambda>s. Some s \<in> set ?names) (allowed_tools re)"
  have ok: "list_all (\<lambda>n. \<exists>s. n = Some s \<and> s \<in> set (allowed_tools re)) ?names" "list_all (\<lambda>s. Some s \<in> set ?names) (expected_tools re)"
    and bs: "list_all2 (\<lambda>x y. bound_tool tools x = Some y) ?xs bs"
    using assms by (auto simp: validateCatalog_def Let_def all_some_map list_all_iff list_ex_iff split: if_splits option.splits)
  have names: "map bt_name bs = ?xs" by (rule bound_names[OF bs])
  have "\<forall>b \<in> set bs. schema_admitted (Some (bt_inputSchema b))"
    using bs by (auto simp: list_all2_conv_all_nth in_set_conv_nth dest!: bound_tool_name)
  moreover have "set ?names = Some ` set ?xs"
  proof (intro equalityI subsetI)
    fix n assume n: "n \<in> set ?names"
    then obtain s where "n = Some s" "s \<in> set (allowed_tools re)" using ok(1) unfolding list_all_iff by blast
    then show "n \<in> Some ` set ?xs" using n by (simp only: set_filter) blast
  qed auto
  moreover have "set (expected_tools re) \<subseteq> set ?xs"
    using ok(2) by (auto simp: list_all_iff expected_tools_def allowed_tools_def SHELL_TOOL_NAMES_def)
  ultimately show ?thesis using names by simp
qed

section \<open>One sidecar\<close>

definition open_clients :: "pi_ext \<Rightarrow> nat set" where
  "open_clients st = {c. c < length (px_clients st) \<and> px_clients st ! c}"

fun adapter_ok :: "nat option \<Rightarrow> RuntimeBinding option \<Rightarrow> RuntimeBinding list \<Rightarrow> nat option \<Rightarrow> bool" where
  "adapter_ok None b as c \<longleftrightarrow> b = None"
| "adapter_ok (Some a) b as c \<longleftrightarrow> a < length as \<and> b = Some (as ! a) \<and> c \<noteq> None"

lemma adapter_ok_client: "adapter_ok r b as c \<Longrightarrow> c' \<noteq> None \<Longrightarrow> adapter_ok r b as c'"
  by (cases r) auto

definition pi_inv :: "pi_ext \<Rightarrow> bool" where
  "pi_inv st \<longleftrightarrow> open_clients st = set_option (px_client st)
     \<and> adapter_ok (px_runtime st) (px_binding st) (px_adapters st) (px_client st)
     \<and> list_all (\<lambda>b. rb_client b = Pi) (px_adapters st) \<and> (px_exited st \<longrightarrow> px_client st = None \<and> px_runtime st = None)"

lemma pi_close_fields [simp]: "px_client (close_session st) = None" "px_runtime (close_session st) = None" "px_binding (close_session st) = None"
  "px_adapters (close_session st) = px_adapters st" "px_exited (close_session st) = px_exited st"
  "open_clients (close_session st) = open_clients st - set_option (px_client st)"
proof -
  have "{c. c < length xs \<and> xs[i := False] ! c} = {c. c < length xs \<and> xs ! c} - {i}" for i and xs :: "bool list"
  proof -
    have "xs[i := False] ! c \<longleftrightarrow> xs ! c \<and> c \<noteq> i" if "c < length xs" for c using that by (cases "c = i") simp_all
    then show ?thesis by auto
  qed
  then show "open_clients (close_session st) = open_clients st - set_option (px_client st)"
    by (cases "px_client st") (simp_all add: close_session_def open_clients_def)
qed (simp_all add: close_session_def)

lemma fields_kept [simp]: "open_clients (st\<lparr>px_exited := x\<rparr>) = open_clients st" "open_clients (st\<lparr>px_context := c\<rparr>) = open_clients st"
  "open_clients (st\<lparr>px_instructions := i\<rparr>) = open_clients st" "open_clients (st\<lparr>px_registered := r\<rparr>) = open_clients st"
  "open_clients (bind_adapter h ctx st) = open_clients st"
  by (simp_all add: open_clients_def bind_adapter_def Let_def)

lemma pi_inv_close: "pi_inv st \<Longrightarrow> pi_inv (close_session st)"
  by (simp add: pi_inv_def)

lemma inv_fatal: "pi_inv st \<Longrightarrow> pi_inv (fatal st)"
  by (simp add: pi_inv_def fatal_def)

lemma register_fields [simp]: "px_client (registerCatalog cat st) = px_client st" "px_runtime (registerCatalog cat st) = px_runtime st"
  "px_binding (registerCatalog cat st) = px_binding st" "px_adapters (registerCatalog cat st) = px_adapters st"
  "px_exited (registerCatalog cat st) = px_exited st" "px_clients (registerCatalog cat st) = px_clients st"
  by (induction cat arbitrary: st) (simp_all add: registerCatalog_def)

lemma inv_register: "pi_inv (registerCatalog cat st) = pi_inv st"
  by (simp add: pi_inv_def open_clients_def)

lemma make_fields: "make_client h st = Some st1 \<Longrightarrow> px_runtime st1 = px_runtime st \<and> px_binding st1 = px_binding st \<and> px_adapters st1 = px_adapters st
    \<and> px_exited st1 = px_exited st \<and> px_client st1 \<noteq> None"
  by (auto simp: make_client_def split: if_splits)

lemma make_open: "make_client h st = Some st1 \<Longrightarrow> open_clients st = set_option (px_client st) \<Longrightarrow> open_clients st1 = set_option (px_client st1)"
  by (auto simp: make_client_def open_clients_def nth_append less_Suc_eq split: if_splits)

lemma connect_effect:
  assumes "pi_inv st" and "\<not> px_exited st" and "pi_connect re h st = (r, st1)"
  shows "pi_inv st1 \<and> \<not> px_exited st1 \<and> px_binding st1 = px_binding st \<and> px_runtime st1 = px_runtime st \<and> (r \<noteq> None \<longrightarrow> px_client st1 \<noteq> None)"
proof (cases "make_client h st")
  case None
  then show ?thesis using assms by (auto simp: pi_connect_def)
next
  case (Some st')
  have "pi_inv st'" using assms(1,2) make_fields[OF Some] make_open[OF Some] adapter_ok_client[of "px_runtime st" "px_binding st" "px_adapters st" "px_client st"]
    by (simp add: pi_inv_def)
  then have "pi_inv (st'\<lparr>px_instructions := i\<rparr>)" for i by (simp add: pi_inv_def)
  then show ?thesis
    using assms \<open>pi_inv st'\<close> make_fields[OF Some] Some by (auto simp: pi_connect_def Let_def split: option.splits if_splits)
qed

lemma pi_inv_bind: "pi_inv st \<Longrightarrow> px_client st \<noteq> None \<Longrightarrow> \<not> px_exited st \<Longrightarrow> pi_inv (bind_adapter h ctx st)"
  unfolding pi_inv_def fields_kept by (simp add: bind_adapter_def pi_binding_def Let_def nth_append)

lemma inv_context: "pi_inv (st\<lparr>px_context := c\<rparr>) = pi_inv st"
  by (simp add: pi_inv_def)

lemma inv_startRuntime:
  assumes "pi_inv st" and "\<not> px_exited st" and "startRuntime re h ctx st = (ok, st')"
  shows "pi_inv st' \<and> \<not> px_exited st'"
proof -
  let ?s = "st\<lparr>px_context := Some ctx\<rparr>"
  let ?t = "if px_binding ?s \<noteq> None then close_session ?s else ?s"
  have s: "pi_inv ?s" "\<not> px_exited ?s" using assms by (simp_all add: inv_context)
  then have t: "pi_inv ?t" "\<not> px_exited ?t" by (simp_all add: pi_inv_close)
  obtain r st1 where c: "pi_connect re h ?t = (r, st1)" by fastforce
  note eff = connect_effect[OF t c]
  have fields: "px_exited (bind_adapter h ctx st2) = px_exited st2" for st2 by (simp add: bind_adapter_def Let_def)
  show ?thesis
    using assms(3) s eff c pi_inv_close[OF s(1)] pi_inv_bind[of "registerCatalog _ st1" h ctx]
    by (auto simp: startRuntime_def Let_def inv_register fields split: if_splits option.splits)
qed

lemma inv_turn:
  assumes "pi_inv st" and "\<not> px_exited st"
  shows "pi_inv (snd (before_agent_start re h h' prompt st))"
proof -
  obtain ok st1 where first: "(if \<not> re then (True, st) else case px_context st of None \<Rightarrow> (False, st)
      | Some ctx \<Rightarrow> if px_runtime st = None then startRuntime re h ctx st else (True, st)) = (ok, st1)" by fastforce
  then have st1: "pi_inv st1 \<and> \<not> px_exited st1"
    using assms inv_startRuntime[OF assms] by (auto split: if_splits option.splits)
  obtain r st2 where c: "pi_connect re h' st1 = (r, st2)" by fastforce
  then have "pi_inv st2" using connect_effect st1 by blast
  then show ?thesis
    using st1 c unfolding before_agent_start_def first by (auto simp: inv_fatal split: option.splits)
qed

lemma pi_inv_step: "pi_step re st st' \<Longrightarrow> pi_inv st \<Longrightarrow> pi_inv st'"
proof (induction rule: pi_step.induct)
  case (starts st h)
  obtain r st1 where c: "pi_connect re h st = (r, st1)" by fastforce
  then show ?case using starts connect_effect[OF _ _ c] by (auto simp: extension_start_def inv_fatal inv_register split: option.splits)
next
  case (session st h ctx)
  obtain ok st1 where c: "startRuntime re h ctx st = (ok, st1)" by fastforce
  then show ?case using session inv_startRuntime[OF _ _ c] by (simp add: session_start_def inv_fatal)
qed (simp_all add: inv_turn pi_inv_close)

lemma pi_inv_run: "pi_run re st \<Longrightarrow> pi_inv st"
  unfolding pi_run_def
proof (induction rule: rtranclp_induct)
  case base
  show ?case by (simp add: pi_inv_def new_extension_def open_clients_def)
qed (rule pi_inv_step)

text \<open>
  (C20) One sidecar, one binding. After any sequence of the host's events, whatever the sidecar and Pi answered,
  exactly the connection in use is open, so that neither a switch of the session nor a failure leaves a sidecar
  behind, and none is open once the process has exited; an adapter is in use only with a connection and with its
  own binding; and a request to activate is accepted only by the handler of that adapter, for that very binding.
\<close>

theorem one_sidecar:
  assumes "pi_run re st"
  shows "open_clients st = set_option (px_client st) \<and> (px_exited st \<longrightarrow> open_clients st = {})
    \<and> (activation_accepted a incoming st \<longrightarrow> px_client st \<noteq> None \<and> px_binding st = Some incoming)"
proof -
  note inv = pi_inv_run[OF assms]
  have "px_binding st = Some incoming \<and> px_client st \<noteq> None" if acc: "activation_accepted a incoming st"
  proof -
    have a: "px_runtime st = Some a" using acc by (simp add: activation_accepted_def Let_def)
    then have "a < length (px_adapters st)" and b: "px_binding st = Some (px_adapters st ! a)" "px_client st \<noteq> None" using inv by (simp_all add: pi_inv_def)
    then have "rb_client (px_adapters st ! a) = Pi" using inv by (simp add: pi_inv_def list_all_length)
    then have "incoming = px_adapters st ! a" using acc by (simp add: activation_accepted_def Let_def)
    then show ?thesis using b by simp
  qed
  then show ?thesis using inv by (auto simp: pi_inv_def)
qed

text \<open>
  The record of a completed turn is the one the adapter looks for: after the agent's turn has ended, a repeated
  activation of its operation is answered as completed without another prompt.
\<close>

lemma completion_recognised:
  assumes "px_binding st = Some b" and "agent_end messages st = Some es" and "e \<in> set es"
  shows "\<exists>operation. completed_entry (identity_of b) operation e = Some (''pi:'' @ operation)"
  using assms by (auto simp: agent_end_def Let_def completion_entry_def completed_entry_def identity_of_def obj_def str_field_def)

section \<open>Witness\<close>

definition catalog_tool :: "string \<Rightarrow> CatalogTool" where
  "catalog_tool n = \<lparr>ca_name = Some n, ca_description = None, ca_inputSchema = Some (obj [(''type'', JStr ''object'')])\<rparr>"

definition pi_host_demo :: pi_host where
  "pi_host_demo = \<lparr>ho_make = True, ho_tools = Some (map catalog_tool GPTQUEUE_TOOLS), ho_instructions = Some ''use the tools'', ho_handler = False,
     ho_bind = None, ho_epoch = [], ho_close = True, ho_sendMessage = False, ho_active = GPTQUEUE_TOOLS, ho_active_after = []\<rparr>"

definition pi_demo :: pi_ext where
  "pi_demo = extension_start False pi_host_demo new_extension"

lemma pi_demo_state: "px_client pi_demo = Some 0 \<and> px_registered pi_demo = GPTQUEUE_TOOLS"
  by code_simp

theorem one_sidecar_witness: "open_clients pi_demo = {0}"
proof -
  have "pi_run False pi_demo" unfolding pi_run_def pi_demo_def by (intro r_into_rtranclp pi_step.starts) (simp add: new_extension_def)
  then have "open_clients pi_demo = set_option (px_client pi_demo)" using one_sidecar by blast
  then show ?thesis by (simp add: pi_demo_state)
qed

end
