(* ===== verification/Shell_Server.thy ===== *)
theory Shell_Server
  imports Diagnostics Pi_Extension
begin

text \<open>
  The sidecar process of a shell, \<open>src/src/registered-shell/server.ts\<close>: its identity and command line, its start
  and its only cleanup. The URL parser is a parameter that gives protocol, host name, query, fragment and path, or
  \<open>None\<close> where it throws. What each awaited operation does is chosen by a record: it succeeds, or fails, which
  includes missing its deadline and being aborted; during the cleanup it may also never settle. The log of the
  process is left out here and modelled in theory Lifecycle_Log.
\<close>

section \<open>Identity and command line\<close>

record ShellIdentity =
  si_name :: string
  si_label :: string
  si_uuid :: string
  si_client :: RuntimeClient
  si_working_directory :: string

definition is_alnum :: "char \<Rightarrow> bool" where
  "is_alnum c \<longleftrightarrow> (let n = of_char c :: nat in 48 \<le> n \<and> n \<le> 57 \<or> 65 \<le> n \<and> n \<le> 90 \<or> 97 \<le> n \<and> n \<le> 122)"

definition safe_char :: "char \<Rightarrow> char" where
  "safe_char c = (if is_alnum c \<or> c = CHR ''_'' \<or> c = CHR ''-'' then c else CHR ''-'')"

definition or_default :: "string \<Rightarrow> string \<Rightarrow> string" where
  "or_default s d = (if s = [] then d else s)"

text \<open>The separator of the label is a middle dot, two bytes.\<close>

definition label_dot :: string where
  "label_dot = [CHR '' '', CHR 0xC2, CHR 0xB7, CHR '' '']"

definition shellIdentity :: "string \<Rightarrow> RuntimeClient \<Rightarrow> string \<Rightarrow> string \<Rightarrow> ShellIdentity" where
  "shellIdentity pwd client cwd uuid =
     (let wd = path_resolve pwd cwd; directory = or_default (path_basename wd) wd;
          safe = or_default (take 32 (map safe_char directory)) ''shell'' in
      \<lparr>si_name = ''gptqueue-shell-'' @ client_text client @ ''-'' @ safe @ ''-'' @ uuid,
       si_label = directory @ label_dot @ client_text client @ label_dot @ take 8 uuid,
       si_uuid = uuid, si_client = client, si_working_directory = wd\<rparr>)"

fun parsePairs :: "string list \<Rightarrow> (string \<times> string) list \<Rightarrow> (string \<times> string) list option" where
  "parsePairs [] values = Some values"
| "parsePairs [key] values = None"
| "parsePairs (key # v # rest) values =
     (if (key \<noteq> ''--client'' \<and> key \<noteq> ''--redis-url'') \<or> v = [] \<or> starts_with ''--'' v then None
      else if map_of values key \<noteq> None then None
      else parsePairs rest (values @ [(key, v)]))"

record url_parts =
  ur_protocol :: string
  ur_hostname :: string
  ur_search :: string
  ur_hash :: string
  ur_pathname :: string

definition database_path :: "string \<Rightarrow> bool" where
  "database_path p \<longleftrightarrow> (case or_default p ''/'' of [] \<Rightarrow> False | c # ds \<Rightarrow> c = CHR ''/'' \<and> list_all is_digit ds)"

definition redis_url_ok :: "(string \<Rightarrow> url_parts option) \<Rightarrow> string \<Rightarrow> bool" where
  "redis_url_ok URL u =
     (case URL u of
        None \<Rightarrow> False
      | Some p \<Rightarrow> (ur_protocol p = ''redis:'' \<or> ur_protocol p = ''rediss:'') \<and> ur_hostname p \<noteq> [] \<and> ur_search p = [] \<and> ur_hash p = []
          \<and> database_path (ur_pathname p))"

record RegisteredShellOptions =
  rs_client :: RuntimeClient
  rs_redisUrl :: string

fun shell_client :: "string option \<Rightarrow> RuntimeClient option" where
  "shell_client (Some c) = (if c = ''codex'' then Some Codex else if c = ''pi'' then Some Pi else None)"
| "shell_client None = None"

definition parseRegisteredShellArgs :: "(string \<Rightarrow> url_parts option) \<Rightarrow> string list \<Rightarrow> RegisteredShellOptions option" where
  "parseRegisteredShellArgs URL argv =
     (case parsePairs argv [] of
        None \<Rightarrow> None
      | Some values \<Rightarrow>
          (case (shell_client (map_of values ''--client''), nonempty (map_of values ''--redis-url'')) of
             (Some c, Some u) \<Rightarrow> if redis_url_ok URL u then Some \<lparr>rs_client = c, rs_redisUrl = u\<rparr> else None
           | _ \<Rightarrow> None))"

section \<open>The adapter of a Pi sidecar\<close>

text \<open>The outcome the host answered with, when it has the shape the code asks for.\<close>

definition parse_outcome :: "json \<Rightarrow> ActivationOutcome option" where
  "parse_outcome j =
     (case (str_field j ''status'', nonempty (str_field j ''turn_id'')) of
        (Some s, t) \<Rightarrow>
          if s = ''started'' then map_option Out_started t else if s = ''completed'' then map_option Out_completed t
          else if s = ''queued'' then Some Out_queued else if s = ''busy'' then Some Out_busy
          else if s = ''unavailable'' then Some Out_unavailable else if s = ''ambiguous'' then Some Out_ambiguous else None
      | _ \<Rightarrow> None)"

definition pi_proxy_activate :: "bool \<Rightarrow> json option \<Rightarrow> ActivationOutcome" where
  "pi_proxy_activate server reply =
     (if \<not> server then Out_unavailable
      else case Option.bind reply parse_outcome of Some out \<Rightarrow> out | None \<Rightarrow> Out_ambiguous)"

section \<open>Start and cleanup\<close>

definition published_tools :: "string list" where
  "published_tools =
     [''send_message'', ''receive_message'', ''list_agents'', ''get_queue_status'', ''claim_tasks'', ''acknowledge_tasks'', ''renew_claim'',
      ''bind_runtime'', ''get_runtime_status'', ''find_agents'', ''get_agent_details'', ''get_delivery_status'', ''set_agent_profile'']"

text \<open>The completed registration; the stored value is an object, as registration writes it.\<close>

definition published_registration :: "json \<Rightarrow> json option" where
  "published_registration reg =
     (case reg of
        JObj m \<Rightarrow> Some (JObj (fmupd ''metadata''
          (JObj (fmupd ''tool_names'' (JArr (map JStr published_tools)) (fmupd ''protocol_version'' (JNum (JInt 2)) (record_or_empty (fmlookup m ''metadata''))))) m))
      | _ \<Rightarrow> None)"

datatype settles = Succeeds | Fails | Hangs

record cleanup_outcomes =
  cu_runtime :: settles
  cu_server :: settles
  cu_session :: settles

datatype shell_action = Act_register string | Act_publish string | Act_connect | Act_bootstrap
  | Act_runtime_close | Act_server_close | Act_session_close | Act_disconnect

text \<open>
  One cleanup: closing the runtime comes first; then the transport and the session are retired independently of
  each other; whatever happens, the connection is cut at the end. The result is whether it was complete.
\<close>

definition cleanup_body :: "cleanup_outcomes \<Rightarrow> bool \<Rightarrow> bool \<Rightarrow> bool \<times> shell_action list" where
  "cleanup_body cu server registered =
     (if cu_runtime cu \<noteq> Succeeds then (False, [Act_runtime_close])
      else ((server \<longrightarrow> cu_server cu = Succeeds) \<and> (registered \<longrightarrow> cu_session cu = Succeeds),
            [Act_runtime_close] @ (if server then [Act_server_close] else []) @ (if registered then [Act_session_close] else [])))"

definition shell_cleanup :: "cleanup_outcomes \<Rightarrow> bool \<Rightarrow> bool \<Rightarrow> bool \<times> shell_action list" where
  "shell_cleanup cu server registered = (case cleanup_body cu server registered of (ok, acts) \<Rightarrow> (ok, acts @ [Act_disconnect]))"

record start_outcomes =
  so_aborted :: bool                  \<comment> \<open>before anything\<close>
  so_register :: bool
  so_aborted_registered :: bool       \<comment> \<open>when registration has completed\<close>
  so_session :: bool                  \<comment> \<open>whether it gave a session\<close>
  so_entry :: "string option"         \<comment> \<open>the stored registration\<close>
  so_publish :: bool
  so_connect :: bool
  so_aborted_connected :: bool

text \<open>What has been done when a stage fails: the actions, whether registration completed and whether there is a server.\<close>

definition start_body :: "runtime \<Rightarrow> start_outcomes \<Rightarrow> RuntimeClient \<Rightarrow> string \<Rightarrow> bool \<times> bool \<times> bool \<times> shell_action list" where
  "start_body E so client name =
     (if \<not> so_register so then (False, False, False, [Act_register name])
      else if so_aborted_registered so \<or> \<not> so_session so then (False, True, False, [Act_register name])
      else case Option.bind (Option.bind (nonempty (so_entry so)) (JSON_parse E)) published_registration of
             None \<Rightarrow> (False, True, True, [Act_register name])
           | Some value \<Rightarrow>
               let acts = [Act_register name, Act_publish (JSON_stringify E value)] in
               if \<not> so_publish so then (False, True, True, acts)
               else if \<not> so_connect so \<or> so_aborted_connected so then (False, True, True, acts @ [Act_connect])
               else (True, True, True, acts @ [Act_connect] @ (if client = Codex then [Act_bootstrap] else [])))"

text \<open>A start that fails before registration completed cuts the connection at once; every failed start runs the cleanup.\<close>

definition startRegisteredShell :: "runtime \<Rightarrow> start_outcomes \<Rightarrow> cleanup_outcomes \<Rightarrow> string \<Rightarrow> string \<Rightarrow> RegisteredShellOptions \<Rightarrow> string \<Rightarrow> bool \<times> shell_action list" where
  "startRegisteredShell E so cu pwd cwd opt uuid =
     (if so_aborted so then (False, [])
      else case start_body E so (rs_client opt) (si_name (shellIdentity pwd (rs_client opt) cwd uuid)) of
             (True, _, _, acts) \<Rightarrow> (True, acts)
           | (False, registered, server, acts) \<Rightarrow>
               (False, acts @ (if registered then [] else [Act_disconnect]) @ snd (shell_cleanup cu server registered)))"

section \<open>What a start guarantees\<close>

text \<open>
  The published tools are exactly those a Pi extension admits, and a published registration counts as published
  in the diagnostics, so that a bound shell is never reported as a legacy one.
\<close>

lemma published_catalog: "published_tools = allowed_tools True"
  by (simp add: published_tools_def allowed_tools_def GPTQUEUE_TOOLS_def SHELL_TOOL_NAMES_def RUNTIME_TOOL_NAMES_def DIAGNOSTIC_TOOL_NAMES_def)

lemma filter_texts: "List.map_filter (\<lambda>x. case x of JStr s \<Rightarrow> Some s | _ \<Rightarrow> None) (map JStr xs) = xs"
  by (induction xs) (simp_all add: List.map_filter_def)

lemma published_is_published:
  assumes "published_registration reg = Some value"
  shows "is_published E (record_or_empty (jget value ''metadata''))"
  using assms by (auto simp: published_registration_def is_published_def tool_names_def protocol_version_def filter_texts published_tools_def split: json.splits)

lemma cleanup_disconnects: "\<exists>acts. snd (shell_cleanup cu server registered) = acts @ [Act_disconnect]"
  by (simp add: shell_cleanup_def split: prod.split)

lemma cleanup_retires: "cu_runtime cu = Succeeds \<Longrightarrow> registered \<Longrightarrow> Act_session_close \<in> set (snd (shell_cleanup cu server registered))"
  by (simp add: shell_cleanup_def cleanup_body_def)

lemma body_stages:
  assumes "start_body E so client name = (ok, registered, server, acts)"
  shows "(registered \<longleftrightarrow> so_register so) \<and> hd acts = Act_register name \<and> acts \<noteq> [] \<and> (ok \<longrightarrow> Act_connect \<in> set acts)
    \<and> (Act_connect \<in> set acts \<longrightarrow> so_register so \<and> so_publish so \<and> (\<exists>reg value. published_registration reg = Some value
        \<and> take 2 acts = [Act_register name, Act_publish (JSON_stringify E value)] \<and> 2 \<le> length acts))
    \<and> Act_disconnect \<notin> set acts \<and> Act_session_close \<notin> set acts"
  using assms unfolding start_body_def Let_def
  by (auto split: if_splits option.splits simp: bind_eq_Some_conv) blast+

text \<open>
  (C21) Nothing is served before the registration is complete, and a failed start leaves nothing behind. The
  transport is connected only after the name was registered and a value that diagnostics take as published was
  written. A start that succeeds has done all of that; one that fails, at whatever stage, ends by cutting its
  connection to Redis, after closing the session it had registered whenever its runtime lets go, and whatever its
  transport does.
\<close>

theorem start_is_all_or_nothing:
  assumes "startRegisteredShell E so cu pwd cwd opt uuid = (ok, acts)"
  shows "(Act_connect \<in> set acts \<longrightarrow> so_register so \<and> so_publish so \<and> (\<exists>reg value. published_registration reg = Some value
        \<and> is_published E (record_or_empty (jget value ''metadata''))
        \<and> take 2 acts = [Act_register (si_name (shellIdentity pwd (rs_client opt) cwd uuid)), Act_publish (JSON_stringify E value)]))
    \<and> (ok \<longrightarrow> Act_connect \<in> set acts \<and> Act_disconnect \<notin> set acts \<and> Act_session_close \<notin> set acts)
    \<and> (\<not> ok \<and> acts \<noteq> [] \<longrightarrow> last acts = Act_disconnect \<and> (so_register so \<and> cu_runtime cu = Succeeds \<longrightarrow> Act_session_close \<in> set acts))"
proof (cases "so_aborted so")
  case True
  then show ?thesis using assms by (simp add: startRegisteredShell_def)
next
  case False
  let ?name = "si_name (shellIdentity pwd (rs_client opt) cwd uuid)"
  obtain ok' registered server acts' where body: "start_body E so (rs_client opt) ?name = (ok', registered, server, acts')" by (metis prod_cases4)
  note st = body_stages[OF body]
  let ?undo = "(if registered then [] else [Act_disconnect]) @ snd (shell_cleanup cu server registered)"
  have acts: "ok = ok'" "acts = (if ok then acts' else acts' @ ?undo)" using assms False body by (auto simp: startRegisteredShell_def split: bool.splits)
  have noconn: "Act_connect \<notin> set ?undo" by (simp add: shell_cleanup_def cleanup_body_def)
  have take: "take 2 acts = take 2 acts'" if "2 \<le> length acts'" using acts that by simp
  have "so_register so \<and> so_publish so \<and> (\<exists>reg value. published_registration reg = Some value \<and> is_published E (record_or_empty (jget value ''metadata''))
        \<and> take 2 acts = [Act_register ?name, Act_publish (JSON_stringify E value)])" if "Act_connect \<in> set acts"
  proof -
    have "Act_connect \<in> set acts'" using that acts noconn by (auto split: if_splits)
    then obtain reg val where "so_register so" "so_publish so" "published_registration reg = Some val"
      "take 2 acts' = [Act_register ?name, Act_publish (JSON_stringify E val)]" "2 \<le> length acts'" using st by blast
    then show ?thesis using take published_is_published by metis
  qed
  moreover have "Act_connect \<in> set acts \<and> Act_disconnect \<notin> set acts \<and> Act_session_close \<notin> set acts" if ok using acts st that by simp
  moreover have "last acts = Act_disconnect" if "\<not> ok"
  proof -
    obtain xs where "snd (shell_cleanup cu server registered) = xs @ [Act_disconnect]" using cleanup_disconnects by blast
    then show ?thesis using acts that by simp
  qed
  moreover have "Act_session_close \<in> set acts" if "\<not> ok" "so_register so" "cu_runtime cu = Succeeds"
    using acts that st cleanup_retires[of cu registered server] by simp
  ultimately show ?thesis by blast
qed

text \<open>
  A runtime that never lets go is the one thing that keeps the session from being retired: the cleanup runs into
  its deadline, and the session remains until its lease expires.
\<close>

lemma hanging_runtime_leaves_session:
  assumes "cu_runtime cu = Hangs"
  shows "fst (shell_cleanup cu server registered) = False \<and> Act_session_close \<notin> set (snd (shell_cleanup cu server registered))"
  using assms by (simp add: shell_cleanup_def cleanup_body_def)

text \<open>A shell's name is its own: different identifiers give different names, whatever client and directory.\<close>

lemma shell_names_differ:
  assumes "length uuid = length uuid'" and "uuid \<noteq> uuid'"
  shows "si_name (shellIdentity pwd c d uuid) \<noteq> si_name (shellIdentity pwd' c' d' uuid')"
proof
  assume "si_name (shellIdentity pwd c d uuid) = si_name (shellIdentity pwd' c' d' uuid')"
  then have "\<exists>a b. a @ uuid = b @ uuid'" unfolding shellIdentity_def Let_def by (simp only: ShellIdentity.simps) (metis append.assoc)
  then show False using assms append_eq_append_conv[of uuid uuid'] by auto
qed

text \<open>Options are given as pairs, each once, in any order.\<close>

lemma shell_args_order: "parseRegisteredShellArgs URL [''--client'', c, ''--redis-url'', u] = parseRegisteredShellArgs URL [''--redis-url'', u, ''--client'', c]"
  by (simp add: parseRegisteredShellArgs_def)

section \<open>Witness\<close>

definition shell_demo :: start_outcomes where
  "shell_demo = \<lparr>so_aborted = False, so_register = True, so_aborted_registered = False, so_session = True, so_entry = None, so_publish = True,
     so_connect = True, so_aborted_connected = False\<rparr>"

definition cleanup_demo :: cleanup_outcomes where
  "cleanup_demo = \<lparr>cu_runtime = Succeeds, cu_server = Hangs, cu_session = Succeeds\<rparr>"

definition options_demo :: RegisteredShellOptions where
  "options_demo = \<lparr>rs_client = Pi, rs_redisUrl = ''redis://h/1''\<rparr>"

lemma shell_demo_run: "\<exists>acts. startRegisteredShell std_env shell_demo cleanup_demo ''/'' ''/w'' options_demo ''u'' = (False, Act_register (si_name (shellIdentity ''/'' Pi ''/w'' ''u'')) # acts)"
  by (simp add: startRegisteredShell_def start_body_def shell_demo_def nonempty_def options_demo_def)

text \<open>The stored registration has disappeared and the transport hangs: the session is closed all the same.\<close>

theorem start_is_all_or_nothing_witness:
  "Act_session_close \<in> set (snd (startRegisteredShell std_env shell_demo cleanup_demo ''/'' ''/w'' options_demo ''u''))"
proof -
  obtain acts where run: "startRegisteredShell std_env shell_demo cleanup_demo ''/'' ''/w'' options_demo ''u'' = (False, Act_register (si_name (shellIdentity ''/'' Pi ''/w'' ''u'')) # acts)"
    using shell_demo_run by blast
  have "so_register shell_demo" "cu_runtime cleanup_demo = Succeeds" by (simp_all add: shell_demo_def cleanup_demo_def)
  then show ?thesis using start_is_all_or_nothing[OF run] unfolding run by simp
qed

end
