(* ===== verification/Bound_Tools.thy ===== *)
theory Bound_Tools
  imports Tool_Props Continuity_Props Activation Schemas
begin

text \<open>
  The tools of a connection that is bound to its identity: \<open>registerBoundTools\<close> of
  \<open>src/src/experimental-wrapper/bridge.ts\<close>, \<open>src/src/registered-shell/runtime-tools.ts\<close>, and the restoring of the
  conversation's mailbox in \<open>runtime-mailbox.ts\<close>. Each tool runs the modelled handler without a session
  identifier of the caller; a tool that throws answers with an error. The arguments are those the protocol
  library has parsed with the tool's schema, which the tool parses again.
\<close>

section \<open>Sending\<close>

definition arg_text :: "(string, json) fmap \<Rightarrow> string \<Rightarrow> string option" where
  "arg_text m k = (case fmlookup m k of Some (JStr s) \<Rightarrow> Some s | _ \<Rightarrow> None)"

definition arg_int :: "(string, json) fmap \<Rightarrow> string \<Rightarrow> int" where
  "arg_int m k = (case fmlookup m k of Some (JNum (JInt n)) \<Rightarrow> n | _ \<Rightarrow> 0)"

definition message_type_of :: "string option \<Rightarrow> message_type" where
  "message_type_of t = (case find (\<lambda>x. Some (type_name x) = t) [Task, Result, Status, Error_reply, Ping] of Some x \<Rightarrow> x | None \<Rightarrow> Task)"

definition send_params :: "(string, json) fmap \<Rightarrow> SendParams" where
  "send_params m =
     \<lparr>sm_session_id = arg_text m ''session_id'', sm_to = or_empty (arg_text m ''to''), sm_content = or_empty (arg_text m ''content''),
      sm_type = message_type_of (arg_text m ''type''), sm_metadata = fmlookup m ''metadata'', sm_in_reply_to = arg_text m ''in_reply_to'',
      sm_idempotency_key = arg_text m ''idempotency_key''\<rparr>"

definition parse_args :: "schema \<Rightarrow> (string, json) fmap \<Rightarrow> ('s, (string, json) fmap) comp" where
  "parse_args sc args = (case schema_parse sc args of None \<Rightarrow> throw (JsError ''ZodError'') | Some m \<Rightarrow> ret m)"

definition OUTBOUND_SECONDS :: int where
  "OUTBOUND_SECONDS = 86400"

definition mark_outbound :: "('z client_world_scheme, unit) comp" where
  "mark_outbound = bindM requireRegistered (\<lambda>name. atomic (SET (outboundActivity_key name) ''1'' (Ex OUTBOUND_SECONDS)))"

definition is_reply :: "message_type \<Rightarrow> bool" where
  "is_reply t \<longleftrightarrow> t = Result \<or> t = Error_reply"

definition trace_reply :: "string \<Rightarrow> SendParams \<Rightarrow> SendPayload tool_result \<Rightarrow> ('z client_world_scheme, unit) comp" where
  "trace_reply ts p r =
     (case r of
        Inr payload \<Rightarrow>
          if sp_status payload = Sent \<and> is_reply (sm_type p)
          then bindM requireRegistered (\<lambda>name. trace_event name Reply_sent ts [(''message_id'', Some (sp_message_id payload)), (''in_reply_to'', sm_in_reply_to p)])
          else ret ()
      | Inl _ \<Rightarrow> ret ())"

definition bound_send :: "host \<Rightarrow> runtime \<Rightarrow> os \<Rightarrow> send_draws \<Rightarrow> string \<Rightarrow> (string, json) fmap \<Rightarrow> ('z tool_world_scheme, SendPayload tool_result) comp" where
  "bound_send H E Os sd ts args =
     thenM mark_outbound
    (bindM (parse_args boundSendMessageSchema args) (\<lambda>m.
     bindM (sendMessage_tool H E Os sd (send_params m)) (\<lambda>r.
     thenM (trace_reply ts (send_params m) r) (ret r))))"

section \<open>Consuming\<close>

text \<open>A request that is already aborted, or a connection that is shutting down, receives nothing.\<close>

definition receiveBoundMessage :: "runtime \<Rightarrow> string \<Rightarrow> bool \<Rightarrow> ('z client_world_scheme, json option tool_result) comp" where
  "receiveBoundMessage E now aborted = (if aborted then throw (JsError ''AbortError'') else receiveMessage_tool E now None)"

definition bound_receive :: "runtime \<Rightarrow> string \<Rightarrow> bool \<Rightarrow> (string, json) fmap \<Rightarrow> ('z client_world_scheme, json option tool_result) comp" where
  "bound_receive E now aborted args = thenM (parse_args boundReceiveMessageSchema args) (receiveBoundMessage E now aborted)"

text \<open>What a claim shows: the private session is left out.\<close>

record PublicClaim =
  pu_claim_id :: string
  pu_actor_id :: string
  pu_claimed_at :: string
  pu_expires_at :: string
  pu_tasks :: "string list"

definition public_claim :: "TaskClaim \<Rightarrow> PublicClaim" where
  "public_claim c = \<lparr>pu_claim_id = tc_claim_id c, pu_actor_id = tc_actor_id c, pu_claimed_at = tc_claimed_at c, pu_expires_at = tc_expires_at c, pu_tasks = tc_tasks c\<rparr>"

definition trace_claimed :: "runtime \<Rightarrow> string \<Rightarrow> string \<Rightarrow> string \<Rightarrow> ('z client_world_scheme, unit) comp" where
  "trace_claimed E ts claim_id raw =
     (case Option.bind (JSON_parse E raw) (\<lambda>t. str_field t ''id'') of
        Some i \<Rightarrow> bindM requireRegistered (\<lambda>name. trace_event name Task_claimed ts [(''claim_id'', Some claim_id), (''message_id'', Some i)])
      | None \<Rightarrow> ret ())"

definition bound_claim :: "runtime \<Rightarrow> string \<Rightarrow> string \<Rightarrow> string \<Rightarrow> (string, json) fmap \<Rightarrow> ('z client_world_scheme, PublicClaim option tool_result) comp" where
  "bound_claim E uuid now ts args =
     bindM (parse_args (boundSchema claimTasksSchema) args) (\<lambda>m.
     bindM (claimTasks_tool E uuid now None (arg_int m ''max_batch'') (arg_int m ''ttl_seconds'')) (\<lambda>r.
     case r of
       Inr (Some c) \<Rightarrow> thenM (mapM (trace_claimed E ts (tc_claim_id c)) (tc_tasks c)) (ret (Inr (Some (public_claim c))))
     | Inr None \<Rightarrow> ret (Inr None)
     | Inl e \<Rightarrow> ret (Inl e)))"

definition bound_acknowledge :: "runtime \<Rightarrow> string \<Rightarrow> string \<Rightarrow> (string, json) fmap \<Rightarrow> ('z client_world_scheme, nat tool_result) comp" where
  "bound_acknowledge E now ts args =
     bindM (parse_args (boundSchema acknowledgeTasksSchema) args) (\<lambda>m.
     bindM (acknowledgeTasks_tool E now None (or_empty (arg_text m ''claim_id''))) (\<lambda>r.
     thenM (case r of
              Inr _ \<Rightarrow> bindM requireRegistered (\<lambda>name. trace_event name Task_acknowledged ts [(''claim_id'', arg_text args ''claim_id'')])
            | Inl _ \<Rightarrow> ret ()) (ret r)))"

definition bound_renew :: "runtime \<Rightarrow> string \<Rightarrow> (string, json) fmap \<Rightarrow> ('z client_world_scheme, (string \<times> string) tool_result) comp" where
  "bound_renew E now args =
     bindM (parse_args (boundSchema renewClaimSchema) args) (\<lambda>m.
     renewClaim_tool E now None (or_empty (arg_text m ''claim_id'')) (arg_int m ''ttl_seconds''))"

text \<open>\<open>safeToolCall\<close>: whatever is thrown becomes an answer.\<close>

definition safeToolCall :: "('s, 'a) comp \<Rightarrow> ('s, exn + 'a) comp" where
  "safeToolCall c = catchM (bindM c (\<lambda>a. ret (Inr a))) (\<lambda>x. ret (Inl x))"

section \<open>Creating the bound server\<close>

definition createBoundMcpServer :: "string \<Rightarrow> ('z client_world_scheme, unit) comp" where
  "createBoundMcpServer name =
     bindM (getM agentName) (\<lambda>registered.
     bindM (getM sessionId) (\<lambda>sid.
     if registered = None \<or> nonempty sid = None then throw (JsError ''Cannot start bridge before GPTQueue registration succeeds.'')
     else if registered \<noteq> Some name then throw (JsError ''Bridge identity does not match the registered session.'')
     else ret ()))"

section \<open>The mailbox of a conversation\<close>

definition mapping_schema :: schema where
  "mapping_schema = \<lparr>sc_fields = [(''agent'', Required, Text_rule 1 None), (''working_directory'', Required, Text_rule 0 None)], sc_strict = True\<rparr>"

definition stored_mapping :: "runtime \<Rightarrow> string \<Rightarrow> (string \<times> string) option" where
  "stored_mapping E raw =
     (case JSON_parse E raw of
        Some (JObj m) \<Rightarrow> map_option (\<lambda>r. (or_empty (arg_text r ''agent''), or_empty (arg_text r ''working_directory''))) (schema_parse mapping_schema m)
      | _ \<Rightarrow> None)"

definition restoreRuntimeMailbox :: "runtime \<Rightarrow> string \<Rightarrow> RuntimeBinding \<Rightarrow> ('z client_world_scheme, string) comp" where
  "restoreRuntimeMailbox E cwd b =
     (if \<not> runtimeBindingSchema b then throw (JsError ''ZodError'')
      else bindM requireRegistered (\<lambda>source.
           let key = runtimeMailboxKey E b in
           thenM (atomic (SET_NX key (mapping_text E source (rb_working_directory b)) NoTtl))
          (bindM (atomic (GET key)) (\<lambda>raw.
           case nonempty raw of
             None \<Rightarrow> throw (JsError ''Runtime mailbox mapping unavailable'')
           | Some text \<Rightarrow>
               (case stored_mapping E text of
                  None \<Rightarrow> throw (JsError ''Runtime mailbox mapping does not match binding'')
                | Some (agent, wd) \<Rightarrow>
                    if path_resolve cwd wd \<noteq> path_resolve cwd (rb_working_directory b) then throw (JsError ''Runtime mailbox mapping does not match binding'')
                    else thenM (if agent \<noteq> source then adoptIdentity E source agent key text (Some (rb_runtime_id b)) else ret ()) requireRegistered)))))"

section \<open>A conversation that has spoken keeps its name\<close>

lemma required_name: "requireRegistered w = (Inr name, w') \<Longrightarrow> w' = w \<and> agentName w = Some name \<and> name \<noteq> []"
  by (auto simp: requireRegistered_def getM_run ret_run throw_run elim!: bindM_cases split: option.splits list.splits)

lemma mark_outbound_run:
  assumes "agentName w = Some name" and "name \<noteq> []"
  shows "mark_outbound w = (Inr (), after_step w (upd (outboundActivity_key name) (Some (RString ''1'')) (Ex OUTBOUND_SECONDS) (next_db w)))"
proof -
  have "requireRegistered w = (Inr name, w)" using assms by (cases name) (simp_all add: requireRegistered_def bindM_ok getM_run ret_run)
  then show ?thesis by (simp add: mark_outbound_def bindM_ok atomic_run SET_def modifyM_run)
qed

text \<open>Whatever a send does, it only adds to the history.\<close>

abbreviation grows :: "('z world_scheme, 'a) comp \<Rightarrow> bool" where
  "grows \<equiv> each_step anything"

lemma grows_atomic: "grows (atomic c)"
  by (rule each_step_atomic) simp

lemma grows_spares: "relates (spares P) c \<Longrightarrow> grows c"
  unfolding relates_def by (metis spares_any spares_def)

lemma grows_launch: "grows (modifyM (\<lambda>w. w\<lparr>launches := f w\<rparr>))"
  by (rule each_step_modifyM) simp

lemma grows_loops: "grows (send_loop n E bound m)" "grows (sendIdempotent_loop n E bound dedupe m)"
  by (induction n) (auto intro!: stepping.relates_intros grows_atomic)

lemma grows_required: "grows (requireRegistered :: ('z client_world_scheme, _) comp)"
  by (auto simp: requireRegistered_def intro!: stepping.relates_intros split: option.splits list.splits)

lemma grows_push: "grows (push_message E p m :: ('z client_world_scheme, _) comp)"
  by (auto simp: push_message_def sendMessage_def sendMessageIdempotent_def send_def sendIdempotent_def
      intro!: stepping.relates_intros grows_required grows_loops split: option.split)

lemma grows_wake: "grows (maybeWake H E Os uuid now resolved :: ('z tool_world_scheme, _) comp)"
  by (auto simp: maybeWake_def wakeOfflineLaunchable_def shipLaunch_def dispatchLaunch_def
      intro!: stepping.relates_intros grows_launch grows_spares[OF spares_decision] grows_spares[OF spares_wake(3)] grows_spares[OF spares_wake(4)]
      split: option.split sum.split spawn_result.split LaunchOutcome.split AcquireOutcome.split)

lemma grows_send: "grows (sendMessage_tool H E Os sd p :: ('z tool_world_scheme, _) comp)"
  by (auto simp: sendMessage_tool_def
      intro!: stepping.relates_intros grows_push grows_wake grows_spares[OF spares_resolve] grows_spares[OF spares_binding(1)] grows_spares[OF spares_binding(2)]
      split: sum.split prod.split)

lemma grows_reply: "grows (trace_reply ts p r :: ('z client_world_scheme, _) comp)"
  by (auto simp: trace_reply_def trace_event_def intro!: stepping.relates_intros grows_required grows_atomic split: sum.split)

lemma marked_not_adopted:
  assumes "entries d2 (outboundActivity_key a) = Some (RString ''1'')" and "expiry d2 (outboundActivity_key a) = Some t" and "clock d2 < t"
  shows "fst (adopt_script E mk a target sid expected rid d2) \<noteq> Inr 1"
proof
  assume adopted: "fst (adopt_script E mk a target sid expected rid d2) = Inr 1"
  have alive: "live d2 (outboundActivity_key a) \<noteq> None" using assms by (simp add: live_def)
  obtain g d where g: "adoption_guard E mk a target sid expected d2 = (g, d)" by fastforce
  then have "\<exists>x. g = Inr x" using adopted by (cases g) (simp_all add: adopt_script_def bindM_err)
  then obtain x where x: "g = Inr x" by blast
  show False
  proof (cases x)
    case (Inl refusal)
    then have "refusal = 1" using adopted g x by (simp add: adopt_script_def bindM_ok ret_run)
    moreover have "refusal < 0" using g x Inl
      by (auto simp: adoption_guard_def ret_run split: if_splits elim!: bindM_Inr_E)
    ultimately show False by simp
  next
    case (Inr reg)
    then have "adoptable E d2 mk a target sid expected" using guard_passed(1)[of E mk a target sid expected d2 reg d] g x by simp
    then show False using alive by (simp add: adoptable_def at_rest_def)
  qed
qed

text \<open>
  (C16) A conversation that has spoken keeps its name. The first step of a bound send, before the message or
  anything else is written, marks the sender as active; and for a day from then on, as long as nobody takes the
  mark away, no adoption moves the sender's session to another name, whatever its target and mapping: replies to
  what was sent find the mailbox they were addressed to.
\<close>

theorem spoken_name_not_adopted:
  assumes "agentName w = Some name" and "name \<noteq> []" and "bound_send H E Os sd ts args w = (r, w')"
  shows "\<exists>h d d1. history w' = h @ (d, d1) # history w \<and> str_at d1 (outboundActivity_key name) = Some ''1''
    \<and> (\<forall>d2 mk target sid expected rid. entries d2 (outboundActivity_key name) = entries d1 (outboundActivity_key name)
         \<and> expiry d2 (outboundActivity_key name) = expiry d1 (outboundActivity_key name) \<and> clock d2 < clock d1 + 86400 * 1000
         \<longrightarrow> fst (adopt_script E mk name target sid expected rid d2) \<noteq> Inr 1)"
proof -
  let ?k = "outboundActivity_key name" let ?d = "next_db w" let ?d1 = "upd ?k (Some (RString ''1'')) (Ex OUTBOUND_SECONDS) ?d"
  let ?rest = "bindM (parse_args boundSendMessageSchema args) (\<lambda>m. bindM (sendMessage_tool H E Os sd (send_params m)) (\<lambda>r. thenM (trace_reply ts (send_params m) r) (ret r)))"
  have "?rest (after_step w ?d1) = (r, w')"
    using assms(3) mark_outbound_run[OF assms(1,2)] by (simp add: bound_send_def thenM_ok)
  moreover have "grows ?rest"
    by (auto simp: parse_args_def intro!: stepping.relates_intros grows_send grows_reply split: option.split)
  ultimately have "stepping anything (after_step w ?d1) w'" by (rule relatesD[rotated])
  then obtain h where h: "history w' = h @ (?d, ?d1) # history w" using stepping_history by fastforce
  have d1: "entries ?d1 ?k = Some (RString ''1'')" "expiry ?d1 ?k = Some (clock ?d1 + 86400 * 1000)"
    by (simp_all add: upd_def OUTBOUND_SECONDS_def)
  have "str_at ?d1 ?k = Some ''1''" by (simp add: view_simps OUTBOUND_SECONDS_def)
  moreover have "fst (adopt_script E mk name target sid expected rid d2) \<noteq> Inr 1"
    if "entries d2 ?k = entries ?d1 ?k" "expiry d2 ?k = expiry ?d1 ?k" "clock d2 < clock ?d1 + 86400 * 1000" for d2 mk target sid expected rid
    by (rule marked_not_adopted[of _ _ "clock ?d1 + 86400 * 1000"]) (use that d1 in simp_all)
  ultimately show ?thesis using h by blast
qed

theorem spoken_name_not_adopted_witness:
  "\<exists>h d d1. history (snd (bound_send (demo_host []) std_env demo_os demo_send_draws ''t'' fmempty demo_tool_world)) = h @ (d, d1) # history demo_tool_world
     \<and> str_at d1 (outboundActivity_key ''alice'') = Some ''1''"
proof -
  obtain r w' where run: "bound_send (demo_host []) std_env demo_os demo_send_draws ''t'' fmempty demo_tool_world = (r, w')" by fastforce
  have name: "agentName demo_tool_world = Some ''alice''" by (simp add: demo_tool_world_def)
  show ?thesis using spoken_name_not_adopted[OF name _ run] run by auto
qed

section \<open>The name a conversation comes back to\<close>

lemma adopted_name:
  assumes "adoptIdentity E source target key text rid w = (Inr u, w')"
  shows "agentName w' = Some target"
proof -
  obtain w1 where hb: "startHeartbeat (w1\<lparr>agentName := Some target\<rparr>) = (Inr u, w')"
    using assms by (auto simp: adoptIdentity_def getM_run modifyM_run throw_run elim!: bindM_cases thenM_cases split: option.splits if_splits)
  then show ?thesis using relatesD[OF identity_methods(6) hb] by (simp add: same_identity_def)
qed

text \<open>
  A bind that succeeds leaves the connection under the name the conversation's mapping gives: one of its steps
  found a mapping for the runtime, with the binding's directory, and the name returned is the mapping's.
\<close>

lemma restored_name:
  assumes "restoreRuntimeMailbox E cwd b w = (Inr name, w')"
  shows "agentName w' = Some name \<and> (\<exists>d raw wd. str_at d (runtimeMailboxKey E b) = Some raw \<and> stored_mapping E raw = Some (name, wd)
    \<and> path_resolve cwd wd = path_resolve cwd (rb_working_directory b))"
proof -
  let ?key = "runtimeMailboxKey E b"
  obtain source w1 u w2 raw w3 where req: "requireRegistered w = (Inr source, w1)"
    and nx: "atomic (SET_NX ?key (mapping_text E source (rb_working_directory b)) NoTtl) w1 = (Inr u, w2)"
    and get: "atomic (GET ?key) w2 = (Inr raw, w3)"
    and rest: "(case nonempty raw of None \<Rightarrow> throw (JsError ''Runtime mailbox mapping unavailable'')
       | Some text \<Rightarrow> (case stored_mapping E text of None \<Rightarrow> throw (JsError ''Runtime mailbox mapping does not match binding'')
          | Some (agent, wd) \<Rightarrow> if path_resolve cwd wd \<noteq> path_resolve cwd (rb_working_directory b) then throw (JsError ''Runtime mailbox mapping does not match binding'')
               else thenM (if agent \<noteq> source then adoptIdentity E source agent ?key text (Some (rb_runtime_id b)) else ret ()) requireRegistered)) w3 = (Inr name, w')"
    using assms by (auto simp: restoreRuntimeMailbox_def Let_def throw_run elim!: bindM_cases thenM_cases split: if_splits)
  have same: "agentName w3 = Some source"
    using required_name[OF req] relatesD[OF identity_atomic nx] relatesD[OF identity_atomic get] by (simp add: same_identity_def)
  obtain t where t: "raw = Some t" "nonempty raw = Some t" using rest
    by (cases "nonempty raw") (auto simp: throw_run nonempty_def split: option.splits list.splits)
  obtain agent wd where m: "stored_mapping E t = Some (agent, wd)" "path_resolve cwd wd = path_resolve cwd (rb_working_directory b)"
    and run: "thenM (if agent \<noteq> source then adoptIdentity E source agent ?key t (Some (rb_runtime_id b)) else ret ()) requireRegistered w3 = (Inr name, w')"
    using rest t by (auto simp: throw_run split: option.splits prod.splits if_splits)
  obtain v w4 where step: "(if agent \<noteq> source then adoptIdentity E source agent ?key t (Some (rb_runtime_id b)) else ret ()) w3 = (Inr v, w4)"
    and last: "requireRegistered w4 = (Inr name, w')" using run by (auto elim!: thenM_cases)
  have "agentName w4 = Some agent" using step adopted_name same by (auto simp: ret_run split: if_splits)
  then have "name = agent" "agentName w' = Some name" using required_name[OF last] by auto
  moreover have "str_at (next_db w2) ?key = Some t"
    using get t(1) by (auto simp: GET_def on_type_def getM_run elim!: atomic_E split: if_splits)
  ultimately show ?thesis using m by blast
qed

end
