(* ===== verification/Rollout_History.thy ===== *)
theory Rollout_History
  imports Runtime_Adapters Chunked
begin

text \<open>
  The history of a Codex thread, \<open>src/src/registered-shell/codex-history.ts\<close>: where the daemon cannot list the
  turns of a thread, they are projected from the transcript it names, read piece by piece as it grows. A piece of
  the file is a text of bytes. What is left of the pieces after a record that cannot be used is never read again,
  so a projection that has failed keeps nothing of it.
\<close>

section \<open>Projecting records\<close>

record Turn =
  tn_id :: string
  tn_status :: string
  tn_items :: "json list"

record projection =
  pj_pending :: string
  pj_verified :: bool
  pj_failed :: bool
  pj_turns :: "(string \<times> Turn) list"        \<comment> \<open>in the order of their first record\<close>

definition new_projection :: projection where
  "new_projection = \<lparr>pj_pending = [], pj_verified = False, pj_failed = False, pj_turns = []\<rparr>"

text \<open>\<open>===\<close> on members: objects are never the same.\<close>

definition strictly_equal :: "json option \<Rightarrow> json option \<Rightarrow> bool" where
  "strictly_equal a b \<longleftrightarrow> a = b \<and> (case a of Some j \<Rightarrow> \<not> is_object j | None \<Rightarrow> True)"

definition text_content :: "json \<Rightarrow> json" where
  "text_content v = (case v of JObj m \<Rightarrow> if fmlookup m ''type'' = Some (JStr ''Text'') then JObj (fmupd ''type'' (JStr ''text'') m) else v | _ \<Rightarrow> v)"

definition item_content :: "json \<Rightarrow> json list" where
  "item_content item = (case jget item ''content'' of Some (JArr vs) \<Rightarrow> map text_content vs | _ \<Rightarrow> [])"

fun join_texts :: "runtime \<Rightarrow> json list \<Rightarrow> string option" where
  "join_texts E [] = Some []"
| "join_texts E (v # vs) =
     (if jget v ''type'' = Some (JStr ''text'')
      then Option.bind (text_or_empty E (jget v ''text'')) (\<lambda>s. map_option (\<lambda>r. s @ r) (join_texts E vs))
      else join_texts E vs)"

definition lower_status :: "runtime \<Rightarrow> json option \<Rightarrow> string option" where
  "lower_status E v = map_option lower_text (case v of None \<Rightarrow> Some ''undefined'' | Some j \<Rightarrow> js_text E j)"

text \<open>The projected item, \<open>Some None\<close> for one of another type; \<open>None\<close> where the code throws.\<close>

definition projected_item :: "runtime \<Rightarrow> string \<Rightarrow> json \<Rightarrow> json option option" where
  "projected_item E i item =
     (let content = item_content item; t = str_field item ''type'' in
      Option.bind (join_texts E content) (\<lambda>txt.
      if t = Some ''UserMessage''
      then Some (Some (obj ([(''type'', JStr ''userMessage''), (''id'', JStr i), (''content'', JArr content)] @ opt_member ''clientId'' (jget item ''client_id''))))
      else if t = Some ''AgentMessage'' then Some (Some (obj [(''type'', JStr ''agentMessage''), (''id'', JStr i), (''text'', JStr txt)]))
      else if t = Some ''McpToolCall''
      then map_option (\<lambda>st. Some (obj ([(''type'', JStr ''mcpToolCall''), (''id'', JStr i)] @ opt_member ''server'' (jget item ''server'')
             @ opt_member ''tool'' (jget item ''tool'') @ [(''status'', JStr st)]))) (lower_status E (jget item ''status''))
      else Some None))"

definition last_128 :: "'a list \<Rightarrow> 'a list" where
  "last_128 xs = drop (length xs - 128) xs"

definition add_item :: "json \<Rightarrow> string \<Rightarrow> Turn \<Rightarrow> Turn" where
  "add_item item i t = t\<lparr>tn_items := last_128 (filter (\<lambda>v. jget v ''id'' \<noteq> Some (JStr i)) (tn_items t) @ [item])\<rparr>"

text \<open>The turn after an event: \<open>Some None\<close> for an event that is passed over.\<close>

definition turn_after :: "runtime \<Rightarrow> json \<Rightarrow> Turn \<Rightarrow> Turn option option" where
  "turn_after E payload t =
     (let k = str_field payload ''type'' in
      if k = Some ''task_started'' then Some (Some (t\<lparr>tn_status := ''inProgress''\<rparr>))
      else if k = Some ''task_complete'' then Some (Some (t\<lparr>tn_status := (if js_truthy (jget payload ''error'') then ''failed'' else ''completed'')\<rparr>))
      else if k = Some ''turn_aborted'' then Some (Some (t\<lparr>tn_status := ''interrupted''\<rparr>))
      else if k = Some ''item_completed''
      then (case Option.bind (jget payload ''item'') (\<lambda>item. map_option (Pair item) (str_field item ''id'')) of
              None \<Rightarrow> Some (Some t)
            | Some (item, i) \<Rightarrow> map_option (\<lambda>p. Some (case p of None \<Rightarrow> t | Some it \<Rightarrow> add_item it i t)) (projected_item E i item))
      else Some None)"

definition set_turn :: "string \<Rightarrow> Turn \<Rightarrow> (string \<times> Turn) list \<Rightarrow> (string \<times> Turn) list" where
  "set_turn i t ts = (let ts' = AList.update i t ts in if 256 < length ts' then tl ts' else ts')"

definition fail_projection :: "projection \<Rightarrow> projection" where
  "fail_projection st = st\<lparr>pj_failed := True, pj_pending := []\<rparr>"

definition known_turn :: "string \<Rightarrow> projection \<Rightarrow> Turn" where
  "known_turn i st = (case map_of (pj_turns st) i of Some t \<Rightarrow> t | None \<Rightarrow> \<lparr>tn_id = i, tn_status = ''inProgress'', tn_items = []\<rparr>)"

definition consume_event :: "runtime \<Rightarrow> json \<Rightarrow> json \<Rightarrow> json \<Rightarrow> projection \<Rightarrow> projection" where
  "consume_event E thread rec payload st =
     (case (if jget rec ''type'' = Some (JStr ''event_msg'') then str_field payload ''turn_id'' else None) of
        None \<Rightarrow> st
      | Some i \<Rightarrow>
          if jget payload ''thread_id'' \<noteq> None \<and> \<not> strictly_equal (jget payload ''thread_id'') (jget thread ''id'') then fail_projection st
          else (case turn_after E payload (known_turn i st) of
                  None \<Rightarrow> fail_projection st
                | Some None \<Rightarrow> st
                | Some (Some t) \<Rightarrow> st\<lparr>pj_turns := set_turn i t (pj_turns st)\<rparr>))"

definition consume :: "runtime \<Rightarrow> json \<Rightarrow> string \<Rightarrow> projection \<Rightarrow> projection" where
  "consume E thread raw st =
     (case JSON_parse E raw of
        None \<Rightarrow> fail_projection st
      | Some JNull \<Rightarrow> fail_projection st
      | Some rec \<Rightarrow>
          if \<not> js_truthy (jget rec ''payload'') then st
          else let payload = the (jget rec ''payload'') in
            if pj_verified st then consume_event E thread rec payload st
            else if jget rec ''type'' \<noteq> Some (JStr ''session_meta'') \<or> \<not> strictly_equal (jget payload ''id'') (jget thread ''id'')
                 \<or> \<not> strictly_equal (jget payload ''cwd'') (jget thread ''cwd'')
            then fail_projection st else st\<lparr>pj_verified := True\<rparr>)"

section \<open>Reading\<close>

definition newline :: char where
  "newline = CHR 0x0A"

lemma consume_pending: "pj_pending (consume E thread raw st) = pj_pending st \<or> pj_pending (consume E thread raw st) = []"
  by (auto simp: consume_def consume_event_def known_turn_def fail_projection_def Let_def split: option.split json.split)

text \<open>The complete lines of what is pending.\<close>

function drain :: "runtime \<Rightarrow> json \<Rightarrow> projection \<Rightarrow> projection" where
  "drain E thread st =
     (if newline \<notin> set (pj_pending st) then st
      else let line = takeWhile (\<lambda>c. c \<noteq> newline) (pj_pending st);
               st' = st\<lparr>pj_pending := tl (dropWhile (\<lambda>c. c \<noteq> newline) (pj_pending st))\<rparr> in
           drain E thread (if line = [] then st' else consume E thread line st'))"
  by pat_completeness auto
termination
proof (relation "measure (\<lambda>(E, thread, st). length (pj_pending st))")
  fix E thread and st :: projection and line st'
  assume n: "\<not> newline \<notin> set (pj_pending st)" and st': "st' = st\<lparr>pj_pending := tl (dropWhile (\<lambda>c. c \<noteq> newline) (pj_pending st))\<rparr>"
  have "dropWhile (\<lambda>c. c \<noteq> newline) (pj_pending st) \<noteq> []" using n by auto
  then have "length (tl (dropWhile (\<lambda>c. c \<noteq> newline) (pj_pending st))) < length (pj_pending st)"
    by (metis Nitpick.size_list_simp(2) le_imp_less_Suc length_dropWhile_le lessI less_le_trans)
  then have "length (pj_pending st') < length (pj_pending st)" using st' by simp
  then show "((E, thread, if line = [] then st' else consume E thread line st'), E, thread, st) \<in> measure (\<lambda>(E, thread, st). length (pj_pending st))"
    using consume_pending[of E thread line st'] by auto
qed simp

declare drain.simps [simp del]

definition MAX_RECORD :: nat where
  "MAX_RECORD = 32 * 1024 * 1024"

definition feed :: "runtime \<Rightarrow> json \<Rightarrow> string \<Rightarrow> projection \<Rightarrow> projection" where
  "feed E thread bytes st = (if pj_failed st then st else drain E thread (st\<lparr>pj_pending := pj_pending st @ bytes\<rparr>))"

record rollout =
  ro_path :: string
  ro_offset :: nat
  ro_invalid :: bool
  ro_projection :: projection

definition new_rollout :: rollout where
  "new_rollout = \<lparr>ro_path = [], ro_offset = 0, ro_invalid = False, ro_projection = new_projection\<rparr>"

text \<open>The loop over the file: how much each read returns is given, at most 64 KiB and at most what is left; 0 ends it.\<close>

fun read_loop :: "runtime \<Rightarrow> json \<Rightarrow> string \<Rightarrow> nat list \<Rightarrow> rollout \<Rightarrow> rollout" where
  "read_loop E thread file [] r = r"
| "read_loop E thread file (n # ns) r =
     (let k = min n (min (64 * 1024) (length file - ro_offset r)) in
      if length file \<le> ro_offset r \<or> k = 0 \<or> ro_invalid r then r
      else let p = feed E thread (take k (drop (ro_offset r) file)) (ro_projection r) in
           read_loop E thread file ns
             (r\<lparr>ro_offset := ro_offset r + k, ro_projection := p, ro_invalid := pj_failed p \<or> MAX_RECORD < length (pj_pending p)\<rparr>))"

definition turn_json :: "Turn \<Rightarrow> json" where
  "turn_json t = obj [(''id'', JStr (tn_id t)), (''status'', JStr (tn_status t)), (''items'', JArr (tn_items t))]"

definition with_turns :: "json \<Rightarrow> projection \<Rightarrow> json" where
  "with_turns thread p = (case thread of JObj m \<Rightarrow> JObj (fmupd ''turns'' (JArr (map (\<lambda>x. turn_json (snd x)) (pj_turns p))) m) | j \<Rightarrow> j)"

text \<open>
  One read of the transcript that the thread names. The file is \<open>None\<close> when it cannot be opened, which leaves the
  reader as it is; \<open>Some None\<close> when it is no regular file.
\<close>

definition rollout_read :: "runtime \<Rightarrow> json \<Rightarrow> string option option \<Rightarrow> nat list \<Rightarrow> rollout \<Rightarrow> (exn + json) \<times> rollout" where
  "rollout_read E thread file sizes r0 =
     (case str_field thread ''path'' of
        None \<Rightarrow> (Inl (JsError ''Codex transcript path unavailable''), r0)
      | Some p \<Rightarrow>
          if \<not> is_absolute p then (Inl (JsError ''Codex transcript path unavailable''), r0)
          else let r = (if ro_path r0 = p then r0 else new_rollout\<lparr>ro_path := p\<rparr>) in
          if ro_invalid r then (Inl (JsError ''Invalid Codex transcript requires a new runtime reader''), r)
          else (case file of
                  None \<Rightarrow> (Inl (JsError ''open''), r)
                | Some None \<Rightarrow> (Inl (JsError ''Codex transcript changed unexpectedly''), r\<lparr>ro_invalid := True\<rparr>)
                | Some (Some bytes) \<Rightarrow>
                    if length bytes < ro_offset r then (Inl (JsError ''Codex transcript changed unexpectedly''), r\<lparr>ro_invalid := True\<rparr>)
                    else let r' = read_loop E thread bytes sizes r in
                      if ro_invalid r' then (Inl (JsError ''Invalid Codex transcript record''), r')
                      else if \<not> pj_verified (ro_projection r') then (Inl (JsError ''Codex transcript identity is not ready''), r'\<lparr>ro_invalid := True\<rparr>)
                      else (Inr (with_turns thread (ro_projection r')), r')))"

record thread_reader =
  th_historySupported :: bool
  th_rollout :: rollout

text \<open>Reading a thread: the two answers of the daemon (an error is its text), and the transcript.\<close>

definition thread_read :: "runtime \<Rightarrow> string \<Rightarrow> string + json \<Rightarrow> string + json \<Rightarrow> string option option \<Rightarrow> nat list \<Rightarrow> thread_reader \<Rightarrow> (exn + json) \<times> thread_reader" where
  "thread_read E threadId full brief file sizes th =
     (let older = (\<lambda>th. case brief of
             Inl e \<Rightarrow> (Inl (JsError e), th)
           | Inr result \<Rightarrow>
               (case jget result ''thread'' of
                  None \<Rightarrow> (Inl (JsError ''Codex returned a different thread''), th)
                | Some thread \<Rightarrow>
                    if str_field thread ''id'' \<noteq> Some threadId then (Inl (JsError ''Codex returned a different thread''), th)
                    else (case rollout_read E thread file sizes (th_rollout th) of (x, r) \<Rightarrow> (x, th\<lparr>th_rollout := r\<rparr>)))) in
      if \<not> th_historySupported th then older th
      else case full of
             Inr result \<Rightarrow> (Inr (case jget result ''thread'' of None \<Rightarrow> result | Some JNull \<Rightarrow> result | Some t \<Rightarrow> t), th)
           | Inl e \<Rightarrow> if contains_text ''list_turns is not supported'' e then older (th\<lparr>th_historySupported := False\<rparr>) else (Inl (JsError e), th))"

section \<open>However the transcript is read\<close>

text \<open>The projection byte by byte.\<close>

definition feed_byte :: "runtime \<Rightarrow> json \<Rightarrow> char \<Rightarrow> projection \<Rightarrow> projection" where
  "feed_byte E thread c st =
     (if pj_failed st then st
      else if c \<noteq> newline then st\<lparr>pj_pending := pj_pending st @ [c]\<rparr>
      else if pj_pending st = [] then st else consume E thread (pj_pending st) (st\<lparr>pj_pending := []\<rparr>))"

lemma fold_line: "newline \<notin> set cs \<Longrightarrow> \<not> pj_failed st \<Longrightarrow> fold (feed_byte E thread) cs st = st\<lparr>pj_pending := pj_pending st @ cs\<rparr>"
  by (induction cs arbitrary: st) (auto simp: feed_byte_def)

lemma fold_failed: "pj_failed st \<Longrightarrow> fold (feed_byte E thread) cs st = st"
  by (induction cs) (simp_all add: feed_byte_def)

text \<open>What a record does does not depend on what is pending, and a failure leaves nothing pending.\<close>

lemma consume_with:
  "\<not> pj_failed st \<Longrightarrow> consume E thread raw (st\<lparr>pj_pending := p\<rparr>) =
     (let st' = consume E thread raw (st\<lparr>pj_pending := []\<rparr>) in if pj_failed st' then st' else st'\<lparr>pj_pending := p\<rparr>)"
  by (auto simp: consume_def consume_event_def known_turn_def fail_projection_def Let_def split: option.split json.split)

lemma consume_empty: "\<not> pj_failed st \<Longrightarrow> pj_pending (consume E thread raw (st\<lparr>pj_pending := []\<rparr>)) = []"
  using consume_pending[of E thread raw "st\<lparr>pj_pending := []\<rparr>"] by auto

lemma line_split: "newline \<in> set p \<Longrightarrow> p = takeWhile (\<lambda>c. c \<noteq> newline) p @ newline # tl (dropWhile (\<lambda>c. c \<noteq> newline) p)"
proof -
  assume "newline \<in> set p"
  then have "dropWhile (\<lambda>c. c \<noteq> newline) p \<noteq> []" "hd (dropWhile (\<lambda>c. c \<noteq> newline) p) = newline"
    using hd_dropWhile[of "\<lambda>c. c \<noteq> newline" p] by auto
  then show ?thesis by (metis list.collapse takeWhile_dropWhile_id)
qed

lemma drain_fold: "\<not> pj_failed st \<Longrightarrow> drain E thread st = fold (feed_byte E thread) (pj_pending st) (st\<lparr>pj_pending := []\<rparr>)"
proof (induction E thread st rule: drain.induct)
  case (1 E thread st)
  let ?p = "pj_pending st"
  show ?case
  proof (cases "newline \<in> set ?p")
    case False
    then show ?thesis using 1(2) fold_line[of ?p "st\<lparr>pj_pending := []\<rparr>"] by (simp add: drain.simps)
  next
    case True
    let ?line = "takeWhile (\<lambda>c. c \<noteq> newline) ?p" let ?rest = "tl (dropWhile (\<lambda>c. c \<noteq> newline) ?p)"
    let ?c = "if ?line = [] then st\<lparr>pj_pending := []\<rparr> else consume E thread ?line (st\<lparr>pj_pending := []\<rparr>)"
    let ?next = "if ?line = [] then st\<lparr>pj_pending := ?rest\<rparr> else consume E thread ?line (st\<lparr>pj_pending := ?rest\<rparr>)"
    have nxt: "?next = (if pj_failed ?c then ?c else ?c\<lparr>pj_pending := ?rest\<rparr>)"
      using 1(2) consume_with[of st E thread ?line ?rest] by (simp add: Let_def)
    have c: "pj_pending ?c = []" using consume_empty[OF 1(2)] by simp
    have "newline \<notin> set ?line" by (auto dest: set_takeWhileD)
    then have bytes: "fold (feed_byte E thread) (?line @ newline # ?rest) (st\<lparr>pj_pending := []\<rparr>) = fold (feed_byte E thread) ?rest ?c"
      using 1(2) fold_line[of ?line "st\<lparr>pj_pending := []\<rparr>"] by (simp add: feed_byte_def)
    have "drain E thread st = drain E thread ?next" using True by (subst drain.simps) (simp add: Let_def)
    also have "\<dots> = fold (feed_byte E thread) ?rest ?c"
    proof (cases "pj_failed ?c")
      case f: True
      then have "drain E thread ?next = ?c" using nxt c by (simp add: drain.simps)
      then show ?thesis using f by (simp add: fold_failed)
    next
      case f: False
      then have "\<not> pj_failed ?next" "pj_pending ?next = ?rest" "?next\<lparr>pj_pending := []\<rparr> = ?c" using nxt c by simp_all
      then show ?thesis using "1.IH"[of ?line "st\<lparr>pj_pending := ?rest\<rparr>"] True by simp
    qed
    also have "\<dots> = fold (feed_byte E thread) ?p (st\<lparr>pj_pending := []\<rparr>)" using bytes line_split[OF True] by simp
    finally show ?thesis .
  qed
qed

definition lines_drained :: "projection \<Rightarrow> bool" where
  "lines_drained st \<longleftrightarrow> newline \<notin> set (pj_pending st)"

lemma feed_bytes: "lines_drained st \<Longrightarrow> feed E thread bytes st = fold (feed_byte E thread) bytes st"
proof (cases "pj_failed st")
  case False
  assume "lines_drained st"
  then have "fold (feed_byte E thread) (pj_pending st) (st\<lparr>pj_pending := []\<rparr>) = st"
    using False fold_line[of "pj_pending st" "st\<lparr>pj_pending := []\<rparr>"] by (simp add: lines_drained_def)
  then show ?thesis using False drain_fold[of "st\<lparr>pj_pending := pj_pending st @ bytes\<rparr>"] by (simp add: feed_def)
qed (simp add: feed_def fold_failed)

lemma byte_drained: "lines_drained st \<Longrightarrow> lines_drained (feed_byte E thread c st)"
  using consume_pending[of E thread "pj_pending st" "st\<lparr>pj_pending := []\<rparr>"] by (auto simp: feed_byte_def lines_drained_def)

lemma bytes_drained: "lines_drained st \<Longrightarrow> lines_drained (fold (feed_byte E thread) bytes st)"
  by (induction bytes arbitrary: st) (simp_all add: byte_drained)

interpretation transcript: chunked_reader "feed E thread" lines_drained for E thread
  by unfold_locales (simp_all add: feed_bytes bytes_drained)

text \<open>
  The turns a reader shows depend on the transcript alone: a reader of this file that has read up to some offset,
  in whatever reads and calls, holds the projection of exactly that part, and so the one a new reader would have.
\<close>

definition reader_inv :: "runtime \<Rightarrow> json \<Rightarrow> string \<Rightarrow> rollout \<Rightarrow> bool" where
  "reader_inv E thread file r \<longleftrightarrow> ro_offset r \<le> length file \<and> ro_projection r = feed E thread (take (ro_offset r) file) new_projection"

lemma new_drained: "lines_drained new_projection"
  by (simp add: lines_drained_def new_projection_def)

lemma loop_inv: "reader_inv E thread file r \<Longrightarrow> reader_inv E thread file (read_loop E thread file ns r)"
proof (induction ns arbitrary: r)
  case (Cons n ns)
  let ?k = "min n (min (64 * 1024) (length file - ro_offset r))"
  let ?p = "feed E thread (take ?k (drop (ro_offset r) file)) (ro_projection r)"
  let ?r = "r\<lparr>ro_offset := ro_offset r + ?k, ro_projection := ?p, ro_invalid := pj_failed ?p \<or> MAX_RECORD < length (pj_pending ?p)\<rparr>"
  have "take (ro_offset r + ?k) file = take (ro_offset r) file @ take ?k (drop (ro_offset r) file)" by (simp add: take_add)
  then have "reader_inv E thread file ?r"
    using Cons.prems transcript.feed_append[OF new_drained, of E thread "take (ro_offset r) file" "take ?k (drop (ro_offset r) file)"]
    by (auto simp: reader_inv_def)
  then show ?case using Cons by (simp add: Let_def)
qed simp

lemma grown_file: "reader_inv E thread file r \<Longrightarrow> reader_inv E thread (file @ grown) r"
  by (simp add: reader_inv_def)

text \<open>At most 256 turns of at most 128 items are kept.\<close>

definition bounded_turns :: "projection \<Rightarrow> bool" where
  "bounded_turns st \<longleftrightarrow> length (pj_turns st) \<le> 256 \<and> list_all (\<lambda>(i, t). length (tn_items t) \<le> 128) (pj_turns st)"

lemma update_length: "length (AList.update k v xs) \<le> Suc (length xs)"
  by (induction xs) auto

lemma list_all_update: "P (k, v) \<Longrightarrow> list_all P xs \<Longrightarrow> list_all P (AList.update k v xs)"
  by (induction xs) (auto split: if_splits)

lemma turn_items: "turn_after E payload t = Some (Some t') \<Longrightarrow> length (tn_items t) \<le> 128 \<Longrightarrow> length (tn_items t') \<le> 128"
  by (auto simp: turn_after_def Let_def add_item_def last_128_def split: if_splits option.splits)

lemma bounded_consume: "bounded_turns st \<Longrightarrow> bounded_turns (consume E thread raw st)"
proof -
  assume b: "bounded_turns st"
  have set: "bounded_turns (st\<lparr>pj_turns := set_turn i t (pj_turns st)\<rparr>)" if "length (tn_items t) \<le> 128" for i t
  proof -
    have "list_all (\<lambda>(i, t). length (tn_items t) \<le> 128) (AList.update i t (pj_turns st))" using b that by (simp add: bounded_turns_def list_all_update)
    moreover have "length (AList.update i t (pj_turns st)) \<le> 257" using b update_length[of i t "pj_turns st"] by (simp add: bounded_turns_def)
    ultimately show ?thesis by (cases "AList.update i t (pj_turns st)") (auto simp: bounded_turns_def set_turn_def Let_def)
  qed
  have old: "length (tn_items (known_turn i st)) \<le> 128" for i
    using b by (auto simp: known_turn_def bounded_turns_def list_all_iff split: option.split dest: map_of_SomeD)
  have fail: "bounded_turns (fail_projection st)" using b by (simp add: bounded_turns_def fail_projection_def)
  have "bounded_turns (consume_event E thread rec payload st)" for rec payload
    using b fail set turn_items[OF _ old] by (auto simp: consume_event_def split: option.split)
  moreover have "bounded_turns (st\<lparr>pj_verified := True\<rparr>)" using b by (simp add: bounded_turns_def)
  ultimately show ?thesis using b fail by (auto simp: consume_def Let_def split: option.split json.split)
qed

lemma bounded_history: "bounded_turns (feed E thread bytes new_projection)"
proof -
  have pend: "bounded_turns (st\<lparr>pj_pending := p\<rparr>) = bounded_turns st" for st p by (simp add: bounded_turns_def)
  have "bounded_turns (feed_byte E thread c st)" if "bounded_turns st" for c st
    using that bounded_consume[of "st\<lparr>pj_pending := []\<rparr>"] by (simp add: feed_byte_def pend)
  then have "bounded_turns (fold (feed_byte E thread) bytes st)" if "bounded_turns st" for st
    using that by (induction bytes arbitrary: st) simp_all
  then show ?thesis by (simp add: feed_bytes[OF new_drained]) (simp add: bounded_turns_def new_projection_def)
qed

text \<open>Reads of a transcript that grows between them.\<close>

definition read_grown :: "runtime \<Rightarrow> json \<Rightarrow> string \<times> nat list \<Rightarrow> string \<times> rollout \<Rightarrow> string \<times> rollout" where
  "read_grown E thread = (\<lambda>(grown, ns) (file, r). (file @ grown, read_loop E thread (file @ grown) ns r))"

lemma grown_inv: "reader_inv E thread bs r \<Longrightarrow> fold (read_grown E thread) steps (bs, r) = (bs', r') \<Longrightarrow> reader_inv E thread bs' r'"
proof (induction steps arbitrary: bs r)
  case (Cons step steps)
  obtain grown ns where step: "step = (grown, ns)" by fastforce
  have "reader_inv E thread (bs @ grown) (read_loop E thread (bs @ grown) ns r)" using Cons.prems(1) by (intro loop_inv grown_file)
  then show ?case using Cons.IH Cons.prems(2) by (simp add: step read_grown_def)
qed simp

text \<open>
  (C40) The history shown is that of the transcript. However a transcript grows between reads and however much each
  read returns, a reader holds exactly the projection of the part it has read, the one a new reader would have
  after reading that part at once; and it never holds more than 256 turns, nor more than 128 items of one.
\<close>

theorem history_of_transcript:
  assumes "fold (read_grown E thread) steps ([], new_rollout) = (bs, r)"
  shows "ro_offset r \<le> length bs \<and> ro_projection r = feed E thread (take (ro_offset r) bs) new_projection
    \<and> length (pj_turns (ro_projection r)) \<le> 256 \<and> (\<forall>i t. (i, t) \<in> set (pj_turns (ro_projection r)) \<longrightarrow> length (tn_items t) \<le> 128)"
proof -
  have "reader_inv E thread [] new_rollout"
    by (simp add: reader_inv_def new_rollout_def transcript.feed_Nil[OF new_drained])
  then have inv: "reader_inv E thread bs r" using grown_inv assms by blast
  moreover have "bounded_turns (ro_projection r)" using inv bounded_history by (simp add: reader_inv_def)
  ultimately show ?thesis by (auto simp: reader_inv_def bounded_turns_def list_all_iff)
qed

theorem history_of_transcript_witness:
  "ro_projection (snd (fold (read_grown std_env (obj [])) [(''ab'', [1]), (''c'', [1, 5])] ([], new_rollout))) = feed std_env (obj []) ''abc'' new_projection"
proof -
  obtain bs r where run: "fold (read_grown std_env (obj [])) [(''ab'', [1]), (''c'', [1, 5])] ([], new_rollout) = (bs, r)" by fastforce
  have whole: "bs = ''abc''" "ro_offset r = 3"
    using run by (auto simp: read_grown_def new_rollout_def new_projection_def Let_def feed_def drain.simps newline_def MAX_RECORD_def)
  show ?thesis using history_of_transcript[OF run] unfolding run by (simp add: whole)
qed

end
