(* ===== verification/Tool_Registry.thy ===== *)
theory Tool_Registry
  imports Tools Continuity_Props Custody_Refinement
begin

text \<open>
  The tools that the main server registers, \<open>registerTools\<close> of \<open>src/src/transports/setup-tools.ts\<close>, with the hint
  by which clients decide whether a call needs approval, and what the read-only ones do to the store.
\<close>

section \<open>The registered tools\<close>

datatype safety_hint = Read_only | Writable | Destructive | Idempotent_write

definition registered_tools :: "(string \<times> safety_hint) list" where
  "registered_tools =
     [(''register_agent'', Writable), (''send_message'', Writable), (''receive_message'', Writable), (''list_agents'', Read_only),
      (''get_queue_status'', Read_only), (''close_session'', Idempotent_write), (''unregister_agent'', Destructive), (''custody_claim'', Writable),
      (''custody_release'', Writable), (''custody_status'', Read_only), (''actor_register'', Writable), (''actor_status'', Read_only),
      (''claim_tasks'', Writable), (''acknowledge_tasks'', Writable), (''renew_claim'', Writable), (''dlq_status'', Read_only), (''dlq_requeue'', Writable)]"

definition readOnlyHint :: "safety_hint \<Rightarrow> bool" where
  "readOnlyHint h \<longleftrightarrow> h = Read_only"

lemma tools_distinct: "distinct (map fst registered_tools)"
  by (simp add: registered_tools_def)

section \<open>Tools that only read\<close>

abbreviation only_reads :: "('z world_scheme, 'a) comp \<Rightarrow> bool" where
  "only_reads \<equiv> each_step (\<lambda>d d'. d' = d)"

lemma only_reads_atomic: "reads c \<Longrightarrow> only_reads (atomic c)"
  by (rule each_step_atomic) (auto dest: relatesD)

lemma reads_more: "reads (HGETALL k)" "reads (MGET ks)" "reads (TTL k)"
  by (auto simp: relates_def command_defs on_type_def getM_run split: if_splits)

lemma only_reads_mapM: "(\<And>x. only_reads (f x)) \<Longrightarrow> only_reads (mapM f xs)"
  by (induction xs) (auto intro!: stepping.relates_intros)

lemma only_reads_status: "only_reads (status_of names)"
  by (induction names) (auto intro!: stepping.relates_intros only_reads_atomic reads_commands)

lemma queue_status_reads: "only_reads (getQueueStatus_tool agent)"
  by (auto simp: getQueueStatus_tool_def getQueueStatus_def mailbox_status_def
      intro!: stepping.relates_intros only_reads_status only_reads_atomic reads_more split: option.split list.split)

lemma list_agents_reads: "only_reads (listAgents_tool E)"
  by (auto simp: listAgents_tool_def listAgents_def getPresenceMany_def Let_def
      intro!: stepping.relates_intros only_reads_mapM only_reads_atomic reads_more reads_commands)

text \<open>A lapsed lease is forfeited by a call that is annotated as read-only.\<close>

lemma custody_status_writes:
  "\<exists>w'. custody_status std_env ''/w'' (iso_from_ms 61000) (quiet_world demo_db) = (Inr (Inr (Some (expire_spec std_env (iso_from_ms 61000) demo_record))), w')
     \<and> custody_at std_env (redis w') ''/w'' \<noteq> custody_at std_env demo_db ''/w''"
proof -
  have held: "state demo_record = Held" by (simp add: demo_record_def)
  have "\<exists>w'. custody_status std_env ''/w'' (iso_from_ms 61000) (quiet_world demo_db) = (Inr (Inr (Some (expire_spec std_env (iso_from_ms 61000) demo_record))), w')
     \<and> custody_at std_env (redis w') ''/w'' = Some (expire_spec std_env (iso_from_ms 61000) demo_record)"
    by (rule std.status_overwrites[OF demo_db_ok demo_lapsed(1) _ _ demo_db_ok held]) (simp_all add: quiet_world_def next_db_def)
  moreover have "expire_spec std_env (iso_from_ms 61000) demo_record \<noteq> demo_record"
    using demo_lapsed(1) by (auto simp: expire_spec_def demo_record_def)
  ultimately show ?thesis using demo_db_ok(2) by auto
qed

text \<open>
  What the read-only hint promises. Listing agents and asking for queue depths change nothing, at any of
  their steps and whatever other clients do; the status of a worktree is announced with the same hint, but a call
  of it can replace the stored record of a lapsed hold.
\<close>

lemma read_only_hints:
  "map (map_of registered_tools) [''list_agents'', ''get_queue_status'', ''custody_status''] = replicate 3 (Some Read_only)
   \<and> only_reads (listAgents_tool E :: ('z client_world_scheme, _) comp) \<and> only_reads (getQueueStatus_tool agent :: ('z client_world_scheme, _) comp)
   \<and> (\<exists>w r w'. custodyStatus_tool std_env (iso_from_ms 61000) (Some ''/w'') (w :: world) = (r, w') \<and> quiet w \<and> custody_at std_env (redis w') ''/w'' \<noteq> custody_at std_env (redis w) ''/w'')"
proof -
  obtain w' where w': "custody_status std_env ''/w'' (iso_from_ms 61000) (quiet_world demo_db) = (Inr (Inr (Some (expire_spec std_env (iso_from_ms 61000) demo_record))), w')"
    "custody_at std_env (redis w') ''/w'' \<noteq> custody_at std_env demo_db ''/w''" using custody_status_writes by blast
  have "\<exists>r. custodyStatus_tool std_env (iso_from_ms 61000) (Some ''/w'') (quiet_world demo_db) = (r, w')"
    by (simp add: custodyStatus_tool_def bindM_def w'(1) ret_run)
  then have "\<exists>w r w'. custodyStatus_tool std_env (iso_from_ms 61000) (Some ''/w'') (w :: world) = (r, w') \<and> quiet w
      \<and> custody_at std_env (redis w') ''/w'' \<noteq> custody_at std_env (redis w) ''/w''"
    using w'(2) by (metis quiet_quiet_world)
  moreover have "map (map_of registered_tools) [''list_agents'', ''get_queue_status'', ''custody_status''] = replicate 3 (Some Read_only)"
    by (simp add: registered_tools_def numeral_3_eq_3)
  ultimately show ?thesis using queue_status_reads list_agents_reads by blast
qed

end
