(* ===== verification/Doctor.thy ===== *)
theory Doctor
  imports Tool_Registry Diagnostics Launch_Policy
begin

text \<open>
  The operator's command \<open>src/scripts/gptqueue-doctor.mjs\<close>, which composes the reports, the probe of a runtime and
  the two halves of a takeover, and checks the configuration of Codex. The file system and the environment are the
  record \<open>host\<close>; the answer of a probed runtime and whether the file of a plan could be created are parameters. An
  agent that a runtime reports and that is no string is used by its text.
\<close>

section \<open>Command line\<close>

definition doctor_commands :: "string list" where
  "doctor_commands = [''agent'', ''find'', ''delivery'', ''connection'', ''config'', ''continuity-plan'', ''continuity-apply'']"

type_synonym doctor_options = "(string \<times> string) list"

fun option_pairs :: "string list \<Rightarrow> doctor_options \<Rightarrow> doctor_options option" where
  "option_pairs [] acc = Some acc"
| "option_pairs [key] acc = None"
| "option_pairs (key # v # rest) acc =
     (if \<not> starts_with ''--'' key \<or> map_of acc key \<noteq> None then None else option_pairs rest (acc @ [(key, v)]))"

definition required :: "doctor_options \<Rightarrow> string \<Rightarrow> ('s, string) comp" where
  "required options name = (case nonempty (map_of options name) of Some v \<Rightarrow> ret v | None \<Rightarrow> throw (JsError ''Required''))"

section \<open>The configuration of Codex\<close>

text \<open>\<open>/^\s*\[([^\]]+)\]\s*$/\<close>\<close>

definition table_header :: "string \<Rightarrow> string option" where
  "table_header line =
     (case dropWhile is_space line of
        [] \<Rightarrow> None
      | c # rest \<Rightarrow>
          let inner = takeWhile (\<lambda>x. x \<noteq> CHR '']'') rest; after = drop (length inner) rest in
          if c = CHR ''['' \<and> inner \<noteq> [] \<and> after \<noteq> [] \<and> list_all is_space (tl after) then Some (''['' @ trim inner @ '']'') else None)"

text \<open>The lines with the table each stands in, and the text of one table.\<close>

fun in_tables :: "string \<Rightarrow> string list \<Rightarrow> (string \<times> string) list" where
  "in_tables current [] = []"
| "in_tables current (line # rest) =
     (case table_header line of
        Some h \<Rightarrow> (h, line) # in_tables h rest
      | None \<Rightarrow> (current, line) # in_tables current rest)"

fun split_lines :: "string \<Rightarrow> string list" where
  "split_lines [] = [[]]"
| "split_lines (c # cs) =
     (case split_lines cs of
        [] \<Rightarrow> [[c]]
      | x # xs \<Rightarrow> if c = CHR 0x0A then [] # x # xs else (c # x) # xs)"

fun join_lines :: "string list \<Rightarrow> string" where
  "join_lines [] = []"
| "join_lines [x] = x"
| "join_lines (x # xs) = x @ CHR 0x0A # join_lines xs"

definition section_text :: "string \<Rightarrow> string \<Rightarrow> string" where
  "section_text config table = join_lines (map snd (filter (\<lambda>(t, _). t = table) (in_tables [] (split_lines config))))"

text \<open>\<open>/^key\s*=\s*value/m\<close>: the white space may span lines, and a line starts after either line terminator.\<close>

definition after_prefix :: "string \<Rightarrow> string \<Rightarrow> string option" where
  "after_prefix p s = (if starts_with p s then Some (drop (length p) s) else None)"

definition assigns_here :: "string \<Rightarrow> string \<Rightarrow> string \<Rightarrow> bool" where
  "assigns_here key v s =
     (case after_prefix key s of
        None \<Rightarrow> False
      | Some t \<Rightarrow> (case after_prefix ''='' (dropWhile is_space t) of None \<Rightarrow> False | Some u \<Rightarrow> starts_with v (dropWhile is_space u)))"

fun assigns_from :: "bool \<Rightarrow> string \<Rightarrow> string \<Rightarrow> string \<Rightarrow> bool" where
  "assigns_from start key v [] = (start \<and> assigns_here key v [])"
| "assigns_from start key v (c # cs) = (start \<and> assigns_here key v (c # cs) \<or> assigns_from (c = CHR 0x0A \<or> c = CHR 0x0D) key v cs)"

definition assigns :: "string \<Rightarrow> string \<Rightarrow> string \<Rightarrow> bool" where
  "assigns key v s = assigns_from True key v s"

definition quoted :: "string \<Rightarrow> string" where
  "quoted s = CHR 0x22 # s @ [CHR 0x22]"

record config_report =
  cf_tier :: string
  cf_home :: string
  cf_checks :: "(string \<times> bool) list"

definition base_checks :: "string \<Rightarrow> (string \<times> bool) list" where
  "base_checks config =
     [(''sandbox_mode='' @ quoted ''workspace-write'', assigns ''sandbox_mode'' (quoted ''workspace-write'') (section_text config [])),
      (''[sandbox_workspace_write] network_access=true'', assigns ''network_access'' ''true'' (section_text config ''[sandbox_workspace_write]'')),
      (''mcp_servers.'' @ quoted ''gptqueue-shared'' @ ''.default_tools_approval_mode='' @ quoted ''approve'',
       assigns ''default_tools_approval_mode'' (quoted ''approve'') (section_text config (''[mcp_servers.'' @ quoted ''gptqueue-shared'' @ '']'')))]"

definition tier_checks :: "string \<Rightarrow> string \<Rightarrow> (string \<times> bool) list" where
  "tier_checks tier profile =
     (tier @ '': approval_policy='' @ quoted ''never'', assigns ''approval_policy'' (quoted ''never'') profile)
     # (if tier = ''sandbox-max'' then [(tier @ '': sandbox_mode='' @ quoted ''danger-full-access'', assigns ''sandbox_mode'' (quoted ''danger-full-access'') profile)] else [])"

definition read_text :: "host \<Rightarrow> string \<Rightarrow> ('s, string) comp" where
  "read_text H p = (case h_readFile H p of Io s \<Rightarrow> ret s | Enoent \<Rightarrow> throw (JsError ''not found'') | Io_failed \<Rightarrow> throw (JsError ''unreadable''))"

definition lint_config :: "host \<Rightarrow> doctor_options \<Rightarrow> ('s, config_report) comp" where
  "lint_config H options =
     (let home = (case nonempty (h_env H ''CODEX_HOME'') of Some d \<Rightarrow> d | None \<Rightarrow> path_join [h_homedir H, ''.codex'']);
          tier = (case map_of options ''--tier'' of Some t \<Rightarrow> t | None \<Rightarrow> ''base'') in
      if tier \<notin> {''base'', ''sandbox-auto'', ''sandbox-max''} then throw (JsError ''Unknown tier'')
      else bindM (read_text H (path_join [home, ''config.toml''])) (\<lambda>config.
           bindM (if tier = ''base'' then ret []
                  else bindM (read_text H (path_join [home, tier @ ''.config.toml''])) (\<lambda>profile. ret (tier_checks tier profile))) (\<lambda>more_checks.
           ret \<lparr>cf_tier = tier, cf_home = home, cf_checks = base_checks config @ more_checks\<rparr>)))"

definition baseline_met :: "config_report \<Rightarrow> bool" where
  "baseline_met r = list_all snd (cf_checks r)"

section \<open>The commands\<close>

record connection_report =
  cr_available :: bool
  cr_thread :: string
  cr_identity_verified :: bool
  cr_expected_matches :: "bool option"
  cr_binding_matches :: "bool option"
  cr_activation_ready :: bool
  cr_details :: "DiagnosticsDetails option"

text \<open>\<open>status?.agent\<close>, and the agent that the report is about; an empty text counts as none.\<close>

definition status_agent :: "json option \<Rightarrow> json option" where
  "status_agent status = Option.bind status (\<lambda>s. jget s ''agent'')"

definition reported_agent :: "runtime \<Rightarrow> doctor_options \<Rightarrow> json option \<Rightarrow> ('s, string option) comp" where
  "reported_agent E options status =
     (case status_agent status of
        None \<Rightarrow> ret (nonempty (map_of options ''--agent''))
      | Some JNull \<Rightarrow> ret (nonempty (map_of options ''--agent''))
      | Some v \<Rightarrow>
          if \<not> js_truthy (Some v) then ret None
          else case js_text E v of Some t \<Rightarrow> ret (Some t) | None \<Rightarrow> throw (JsError ''TypeError''))"

definition known_binding :: "runtime \<Rightarrow> string option \<Rightarrow> KnownBinding option" where
  "known_binding E raw =
     Option.bind (nonempty raw) (\<lambda>s. Option.bind (JSON_parse E s) (\<lambda>j.
     case (str_field j ''runtime_id'', str_field j ''epoch'') of (Some r, Some e) \<Rightarrow> Some \<lparr>kb_runtime_id = r, kb_epoch = e\<rparr> | _ \<Rightarrow> None))"

definition read_binding :: "runtime \<Rightarrow> string option \<Rightarrow> ('z world_scheme, KnownBinding option) comp" where
  "read_binding E agent =
     (case agent of
        None \<Rightarrow> ret None
      | Some a \<Rightarrow> catchM (bindM (atomic (GET (runtimeBinding_key a))) (\<lambda>raw. ret (known_binding E raw))) (\<lambda>_. ret None))"

definition probe_connection :: "runtime \<Rightarrow> string \<Rightarrow> (string \<Rightarrow> (bool \<times> json option) option) \<Rightarrow> doctor_options \<Rightarrow> ('z world_scheme, connection_report) comp" where
  "probe_connection E at request options =
     bindM (required options ''--thread-id'') (\<lambda>thread.
     case request thread of
       None \<Rightarrow> throw (JsError ''request failed'')
     | Some (isError, status) \<Rightarrow>
         bindM (reported_agent E options status) (\<lambda>agent.
         bindM (read_binding E agent) (\<lambda>binding.
         bindM (case agent of Some a \<Rightarrow> bindM (details E at a) (\<lambda>d. ret (Some d)) | None \<Rightarrow> ret None) (\<lambda>found.
         ret \<lparr>cr_available = (\<not> isError), cr_thread = thread,
              cr_identity_verified = (case status_agent status of Some (JStr _) \<Rightarrow> True | _ \<Rightarrow> False),
              cr_expected_matches = (case nonempty (map_of options ''--agent'') of
                  Some a \<Rightarrow> if js_truthy (status_agent status) then Some (status_agent status = Some (JStr a)) else None
                | None \<Rightarrow> None),
              cr_binding_matches = bindingAgrees status binding,
              cr_activation_ready = probeActivationReady isError status (map_of options ''--agent'') binding,
              cr_details = found\<rparr>))))"

definition client_named :: "string \<Rightarrow> RuntimeClient option" where
  "client_named s = (if s = ''codex'' then Some Codex else if s = ''pi'' then Some Pi else None)"

definition plan_continuity :: "runtime \<Rightarrow> host \<Rightarrow> string \<Rightarrow> bool \<Rightarrow> doctor_options \<Rightarrow> ('z world_scheme, ContinuityPlan) comp" where
  "plan_continuity E H ns created options =
     bindM (required options ''--client'') (\<lambda>client.
     bindM (required options ''--runtime-id'') (\<lambda>runtime_id.
     bindM (case map_of options ''--epoch'' of Some e \<Rightarrow> ret e | None \<Rightarrow> required options ''--runtime-id'') (\<lambda>epoch.
     bindM (required options ''--cwd'') (\<lambda>cwd.
     bindM (required options ''--agent'') (\<lambda>target.
     case client_named client of
       None \<Rightarrow> throw (JsError ''ZodError'')
     | Some c \<Rightarrow>
         bindM (prepareContinuity E (h_cwd H) ns \<lparr>rb_client = c, rb_runtime_id = runtime_id, rb_epoch = epoch, rb_working_directory = cwd\<rparr> target
                  (map_of options ''--legacy'' = Some ''yes'')) (\<lambda>plan.
         bindM (required options ''--out'') (\<lambda>_.
         if created then ret plan else throw (JsError ''EEXIST'')))))))) "

text \<open>The plan that a file holds: the members of the two schemas and no others, each of its type.\<close>

definition nullable_text :: "json option \<Rightarrow> string option option" where
  "nullable_text v = (case v of Some JNull \<Rightarrow> Some None | Some (JStr s) \<Rightarrow> Some (Some s) | _ \<Rightarrow> None)"

definition has_members :: "string list \<Rightarrow> json \<Rightarrow> bool" where
  "has_members ks j = (case j of JObj m \<Rightarrow> fmdom' m \<subseteq> set ks | _ \<Rightarrow> False)"

definition binding_of_json :: "json \<Rightarrow> RuntimeBinding option" where
  "binding_of_json j =
     (if \<not> has_members [''client'', ''runtime_id'', ''epoch'', ''working_directory''] j then None
      else case (Option.bind (str_field j ''client'') client_named, str_field j ''runtime_id'', str_field j ''epoch'', str_field j ''working_directory'') of
             (Some c, Some r, Some e, Some wd) \<Rightarrow> Some \<lparr>rb_client = c, rb_runtime_id = r, rb_epoch = e, rb_working_directory = wd\<rparr>
           | _ \<Rightarrow> None)"

definition plan_of_json :: "json \<Rightarrow> ContinuityPlan option" where
  "plan_of_json j =
     (if \<not> has_members [''binding'', ''source'', ''target'', ''mappingKey'', ''expectedMapping'', ''namespace'', ''sourceFingerprint'',
            ''targetFingerprint'', ''legacy_adoption''] j then None
      else case (Option.bind (jget j ''binding'') binding_of_json, nullable_text (jget j ''source''), str_field j ''target'', str_field j ''mappingKey'',
                 nullable_text (jget j ''expectedMapping''), str_field j ''namespace'', str_field j ''sourceFingerprint'',
                 str_field j ''targetFingerprint'', jget j ''legacy_adoption'') of
             (Some b, Some src, Some t, Some k, Some m, Some ns, Some sf, Some tf, Some (JBool l)) \<Rightarrow>
               Some \<lparr>cp_binding = b, cp_source = src, cp_target = t, cp_mappingKey = k, cp_expectedMapping = m, cp_namespace = ns,
                     cp_sourceFingerprint = sf, cp_targetFingerprint = tf, cp_legacy_adoption = l\<rparr>
           | _ \<Rightarrow> None)"

definition apply_plan :: "runtime \<Rightarrow> host \<Rightarrow> string \<Rightarrow> doctor_options \<Rightarrow> ('z world_scheme, applied) comp" where
  "apply_plan E H ns options =
     (if map_of options ''--apply'' \<noteq> Some ''yes'' then throw (JsError ''Operator approval required'')
      else bindM (required options ''--plan'') (\<lambda>path.
           bindM (read_text H path) (\<lambda>text.
           case Option.bind (JSON_parse E text) plan_of_json of
             Some plan \<Rightarrow> applyContinuity E (h_cwd H) ns plan
           | None \<Rightarrow> throw (JsError ''ZodError''))))"

datatype doctor_report = Agent_report DiagnosticsDetails | Find_report FindResult | Delivery_report DeliveryDiagnostics
  | Connection_report connection_report | Config_lint config_report | Plan_report ContinuityPlan | Apply_report applied

abbreviation reportM :: "('s, 'a) comp \<Rightarrow> ('a \<Rightarrow> doctor_report) \<Rightarrow> ('s, doctor_report) comp" where
  "reportM m f \<equiv> bindM m (\<lambda>x. ret (f x))"

record doctor_env =
  de_host :: host
  de_at :: string
  de_now :: int
  de_namespace :: string
  de_request :: "string \<Rightarrow> (bool \<times> json option) option"
  de_created :: bool

definition run_command :: "runtime \<Rightarrow> doctor_env \<Rightarrow> string \<Rightarrow> doctor_options \<Rightarrow> ('z world_scheme, doctor_report) comp" where
  "run_command E D command options =
     (if command = ''config''
      then (if list_ex (\<lambda>(k, _). k \<noteq> ''--tier'') options then throw (JsError ''Unknown option(s)'')
            else reportM (lint_config (de_host D) options) Config_lint)
      else thenM (required options ''--redis-url'')
       (if command = ''agent'' then bindM (required options ''--agent'') (\<lambda>a. reportM (details E (de_at D) a) Agent_report)
        else if command = ''find''
        then reportM (find_agents E (h_cwd (de_host D)) (de_at D)
               \<lparr>ff_query = map_of options ''--query'', ff_client = None, ff_cwd = None, ff_working_directory = map_of options ''--cwd'',
                ff_kind = None, ff_activation_ready = None, ff_online = None, ff_limit = None\<rparr>) Find_report
        else if command = ''delivery''
        then bindM (required options ''--agent'') (\<lambda>a. bindM (required options ''--message-id'') (\<lambda>m.
             reportM (delivery_evidence E (de_at D) (de_now D) a m) Delivery_report))
        else if command = ''connection'' then reportM (probe_connection E (de_at D) (de_request D) options) Connection_report
        else if command = ''continuity-plan''
        then reportM (plan_continuity E (de_host D) (de_namespace D) (de_created D) options) Plan_report
        else reportM (apply_plan E (de_host D) (de_namespace D) options) Apply_report))"

fun exit_code :: "doctor_report \<Rightarrow> nat" where
  "exit_code (Config_lint r) = (if baseline_met r then 0 else 1)"
| "exit_code _ = 0"

definition doctor :: "runtime \<Rightarrow> doctor_env \<Rightarrow> string list \<Rightarrow> ('z world_scheme, nat \<times> doctor_report option) comp" where
  "doctor E D argv =
     (case argv of
        [] \<Rightarrow> ret (1, None)
      | command # args \<Rightarrow>
          if command \<notin> set doctor_commands then ret (if command = ''--help'' then 0 else 1, None)
          else catchM
            (case option_pairs args [] of
               None \<Rightarrow> throw (JsError ''Expected unique option/value pairs'')
             | Some options \<Rightarrow> bindM (run_command E D command options) (\<lambda>r. ret (exit_code r, Some r)))
            (\<lambda>_. ret (2, None)))"

section \<open>What the doctor guarantees\<close>

lemma relates_if: "(b \<Longrightarrow> relates R m) \<Longrightarrow> (\<not> b \<Longrightarrow> relates R k) \<Longrightarrow> relates R (if b then m else k)"
  by simp

lemma reads_ranges: "reads (LRANGE_first k n)" "reads (ZRANGE_all k)" "reads (HMGET k fs)" "reads (XREVRANGE_last k n)"
  by (auto simp: relates_def command_defs XREVRANGE_last_def on_type_def getM_run split: if_splits)

lemmas only_reads_intros = stepping.relates_intros only_reads_mapM only_reads_atomic reads_commands reads_more reads_ranges

lemma required_reads: "only_reads (required options k)" "only_reads (read_text H p)"
  by (auto simp: required_def read_text_def intro: stepping.relates_intros split: option.split io.split)

lemma online_reads: "only_reads (isOnline a)"
  by (auto simp: isOnline_def getPresence_def getPresenceMany_def intro!: only_reads_intros)

lemma details_reads: "only_reads (details E at a)"
  by (auto simp: details_def read_report_def Let_def intro!: only_reads_intros online_reads)

lemma find_reads: "only_reads (find_agents E cwd at f)"
  by (auto simp: find_agents_def matches_name_def Let_def intro!: only_reads_intros online_reads details_reads split: prod.split)

lemma delivery_reads: "only_reads (delivery_evidence E at now a m)"
  by (auto simp: delivery_evidence_def Let_def intro!: only_reads_intros split: sum.split)

lemma probe_reads: "only_reads (probe_connection E at request options)"
  by (auto simp: probe_connection_def reported_agent_def read_binding_def
      intro!: only_reads_intros required_reads details_reads split: option.split json.split)

lemma prepare_reads: "only_reads (prepareContinuity E cwd ns b target legacy)"
  by (auto simp: prepareContinuity_def planned_mapping_def Let_def intro!: only_reads_intros split: option.split)

lemma plan_reads: "only_reads (plan_continuity E H ns created options)"
  by (auto simp: plan_continuity_def intro!: only_reads_intros required_reads prepare_reads split: option.split)

lemma lint_reads: "only_reads (lint_config H options)"
  by (auto simp: lint_config_def Let_def intro!: only_reads_intros required_reads)

text \<open>
  The doctor reads unless it is told otherwise: whatever other clients do, no step of it changes the store unless the
  command is \<open>continuity-apply\<close> with the approval of the operator.
\<close>

lemma doctor_reads_by_default:
  assumes "\<And>args options. argv = ''continuity-apply'' # args \<Longrightarrow> option_pairs args [] = Some options \<Longrightarrow> map_of options ''--apply'' \<noteq> Some ''yes''"
  shows "only_reads (doctor E D argv)"
proof -
  have applied: "only_reads (apply_plan E H ns options)" if "map_of options ''--apply'' \<noteq> Some ''yes''" for H ns options
    using that by (simp add: apply_plan_def stepping.relates_pure)
  have "only_reads (run_command E D command options)"
    if a: "command = ''continuity-apply'' \<Longrightarrow> map_of options ''--apply'' \<noteq> Some ''yes''" and c: "command \<in> set doctor_commands" for command options
  proof -
    have "command = ''continuity-apply''" if "command \<noteq> ''config''" "command \<noteq> ''agent''" "command \<noteq> ''find''" "command \<noteq> ''delivery''"
      "command \<noteq> ''connection''" "command \<noteq> ''continuity-plan''" using c that unfolding doctor_commands_def by simp
    then show ?thesis unfolding run_command_def
      by (intro relates_if stepping.relates_intros required_reads details_reads find_reads delivery_reads probe_reads plan_reads lint_reads applied a)
  qed
  then show ?thesis using assms
    by (auto simp: doctor_def intro!: stepping.relates_intros split: list.split option.split)
qed

text \<open>The command line is admitted exactly when it is made of pairs with distinct names that start with two dashes.\<close>

lemma option_pairs_append: "distinct (map fst (acc @ ps)) \<Longrightarrow> list_all (\<lambda>p. starts_with ''--'' (fst p)) ps \<Longrightarrow>
    option_pairs (concat (map (\<lambda>(k, v). [k, v]) ps)) acc = Some (acc @ ps)"
proof (induction ps arbitrary: acc)
  case (Cons p ps)
  obtain k v where p: "p = (k, v)" by fastforce
  have "map_of acc k = None" using Cons.prems(1) p by (auto simp: map_of_eq_None_iff)
  then show ?case using Cons p by simp
qed simp

lemma options_read_back: "distinct (map fst ps) \<Longrightarrow> list_all (\<lambda>p. starts_with ''--'' (fst p)) ps \<Longrightarrow> option_pairs (concat (map (\<lambda>(k, v). [k, v]) ps)) [] = Some ps"
  using option_pairs_append[of "[]" ps] by simp

lemma option_pairs_only: "option_pairs args acc = Some ps \<Longrightarrow> distinct (map fst acc) \<Longrightarrow>
    distinct (map fst ps) \<and> (\<exists>qs. ps = acc @ qs \<and> list_all (\<lambda>p. starts_with ''--'' (fst p)) qs \<and> args = concat (map (\<lambda>(k, v). [k, v]) qs))"
proof (induction args acc arbitrary: ps rule: option_pairs.induct)
  case (3 key v rest acc)
  then have k: "starts_with ''--'' key" "key \<notin> fst ` set acc" "option_pairs rest (acc @ [(key, v)]) = Some ps"
    by (auto split: if_splits simp: map_of_eq_None_iff)
  with 3 obtain qs where "distinct (map fst ps)" "ps = (acc @ [(key, v)]) @ qs" "list_all (\<lambda>p. starts_with ''--'' (fst p)) qs" "rest = concat (map (\<lambda>(k, v). [k, v]) qs)"
    by (auto split: if_splits)
  then show ?case using k by (intro conjI exI[of _ "(key, v) # qs"]) simp_all
qed simp_all

text \<open>
  The check of the configuration scopes each key to its table: a key that stands in another table, or after
  a table header where it belongs before the first, is not met.
\<close>

lemma scoped_keys:
  "assigns ''network_access'' ''true'' (section_text (''[sandbox_workspace_write]'' @ CHR 0x0A # ''network_access = true'') ''[sandbox_workspace_write]'')"
  "\<not> assigns ''network_access'' ''true'' (section_text (''[other]'' @ CHR 0x0A # ''network_access = true'') ''[sandbox_workspace_write]'')"
  "\<not> assigns ''sandbox_mode'' (quoted ''workspace-write'') (section_text (''[other]'' @ CHR 0x0A # ''sandbox_mode = '' @ quoted ''workspace-write'') [])"
  by code_simp+

text \<open>A value is only compared up to the end of the expected text, so longer words pass.\<close>

lemma longer_value_passes: "assigns ''network_access'' ''true'' ''network_access = true_if_asked''"
  by code_simp

end
