(* ===== verification/Stored_Reads.thy ===== *)
theory Stored_Reads
  imports Json
begin

text \<open>
  What a store says of a value it cannot read, \<open>src/src/core/stored-read.ts\<close>. Texts are bytes, so that their
  length is the byte length that is reported.
\<close>

definition join_comma :: "string list \<Rightarrow> string" where
  "join_comma xs = (case xs of [] \<Rightarrow> [] | x # rest \<Rightarrow> x @ concat (map ((@) '', '') rest))"

definition describeStored :: "runtime \<Rightarrow> string \<Rightarrow> string option \<Rightarrow> string" where
  "describeStored E raw failing =
     join_comma ([show_nat (length raw) @ '' bytes'', ''sha256:'' @ take 12 (sha256_hex E raw)]
       @ (case failing of None \<Rightarrow> [] | Some f \<Rightarrow> [''failing: '' @ f]))"

definition firstNonStringField :: "runtime \<Rightarrow> string \<Rightarrow> string list \<Rightarrow> string option" where
  "firstNonStringField E raw names =
     (case JSON_parse E raw of
        None \<Rightarrow> Some ''JSON''
      | Some (JObj m) \<Rightarrow> find (\<lambda>f. str_field (JObj m) f = None) names
      | Some _ \<Rightarrow> Some ''(root)'')"

text \<open>The description shows the length, twelve digits of the hash and the failing member, and nothing else of the value.\<close>

lemma describes_no_content:
  "length a = length b \<Longrightarrow> take 12 (sha256_hex E a) = take 12 (sha256_hex E b) \<Longrightarrow> describeStored E a f = describeStored E b f"
  by (simp add: describeStored_def)

text \<open>No member is named exactly when the value is an object whose listed members are all strings.\<close>

lemma no_failing_field:
  "firstNonStringField E raw names = None \<longleftrightarrow> (\<exists>m. JSON_parse E raw = Some (JObj m) \<and> (\<forall>f \<in> set names. str_field (JObj m) f \<noteq> None))"
  by (auto simp: firstNonStringField_def find_None_iff split: option.splits json.splits)

lemma failing_field_first:
  assumes "JSON_parse E raw = Some (JObj m)" "firstNonStringField E raw names = Some f"
  shows "\<exists>before after. names = before @ f # after \<and> str_field (JObj m) f = None \<and> (\<forall>g \<in> set before. str_field (JObj m) g \<noteq> None)"
proof -
  have "find P xs = Some x \<Longrightarrow> \<exists>before after. xs = before @ x # after \<and> P x \<and> (\<forall>y \<in> set before. \<not> P y)" for P xs and x :: string
  proof (induction xs)
    case (Cons y ys)
    show ?case
    proof (cases "P y")
      case True
      then show ?thesis using Cons.prems by (intro exI[of _ "[]"] exI[of _ ys]) simp
    next
      case False
      with Cons obtain b a where "ys = b @ x # a" "P x" "\<forall>z \<in> set b. \<not> P z" by auto
      with False show ?thesis by (intro exI[of _ "y # b"] exI[of _ a]) simp
    qed
  qed simp
  from this[of "\<lambda>f. str_field (JObj m) f = None" names f] show ?thesis using assms by (simp add: firstNonStringField_def)
qed

end
