(* ===== verification/Standalone_Server.thy ===== *)
theory Standalone_Server
  imports Client_Props
begin

text \<open>
  The server that a client starts for itself, \<open>src/src/mcp-server/index.ts\<close>: the name it registers, and the
  shutdown that signals, the end of its input and the end of the protocol connection all lead to. Whether the
  connections answer their farewell in time is a parameter.
\<close>

section \<open>Start and shutdown\<close>

definition initialName :: "string option \<Rightarrow> string option \<Rightarrow> string option" where
  "initialName argument env = (case nonempty argument of Some n \<Rightarrow> Some n | None \<Rightarrow> nonempty env)"

definition standalone_start :: "runtime \<Rightarrow> draws \<Rightarrow> string option \<Rightarrow> string option \<Rightarrow> ('z client_world_scheme, unit) comp" where
  "standalone_start E dr argument env =
     (case initialName argument env of
        None \<Rightarrow> ret ()
      | Some name \<Rightarrow> thenM (register_client E dr ''both'' name None None) (ret ()))"

record standalone_world = client_world +
  shuttingDown :: bool
  exitedWith :: "nat option"

datatype shutdown_trigger = SIGINT | SIGTERM | Stdin_end | Stdin_close | Connection_closed

definition standalone_shutdown :: "bool \<Rightarrow> shutdown_trigger \<Rightarrow> ('z standalone_world_scheme, unit) comp" where
  "standalone_shutdown in_time trigger =
     bindM (getM shuttingDown) (\<lambda>already.
     if already then ret ()
     else thenM (modifyM (\<lambda>w. w\<lparr>shuttingDown := True\<rparr>))
         (thenM (shutdown in_time) (modifyM (\<lambda>w. w\<lparr>exitedWith := Some 0\<rparr>))))"

section \<open>No orphan\<close>

text \<open>A server that nothing keeps alive: no timer renews its heartbeat or its lease, and its connections are closed.\<close>

definition at_peace :: "'z standalone_world_scheme \<Rightarrow> bool" where
  "at_peace w \<longleftrightarrow> heartbeatFor w = None \<and> refreshSessionId w = None \<and> receivesClosed w \<and> (connectionsForcedClosed w \<or> \<not> connectionsOpen w)"

lemmas shutdown_defs = standalone_shutdown_def shutdown_def stopHeartbeat_def stopLeaseRefresh_def closeReceives_def forceDisconnect_def

lemma first_trigger_ends:
  assumes "\<not> shuttingDown w"
  obtains w' where "standalone_shutdown in_time trigger w = (Inr (), w')" "at_peace w'" "shuttingDown w'" "exitedWith w' = Some 0"
    "redis w' = redis w" "history w' = history w"
proof -
  let ?p = "standalone_shutdown in_time trigger w"
  have "fst ?p = Inr () \<and> at_peace (snd ?p) \<and> shuttingDown (snd ?p) \<and> exitedWith (snd ?p) = Some 0 \<and> redis (snd ?p) = redis w \<and> history (snd ?p) = history w"
    using assms by (auto simp: shutdown_defs at_peace_def bindM_def thenM_def getM_run modifyM_run ret_run)
  with that[of "snd ?p"] show thesis by (metis prod.collapse)
qed

lemma later_trigger_idle: "shuttingDown w \<Longrightarrow> standalone_shutdown in_time trigger w = (Inr (), w)"
  by (simp add: standalone_shutdown_def run_simps)

text \<open>
  Whatever ends first, and however many of the triggers follow, the server shuts down once, keeps renewing nothing
  and exits with success. It leaves its registration to lapse with its lease.
\<close>

lemma triggers_end_once:
  assumes "\<not> shuttingDown w"
  obtains w' where "standalone_shutdown s t w = (Inr (), w')" "at_peace w'" "exitedWith w' = Some 0" "redis w' = redis w"
    "\<And>more_triggers. fold (\<lambda>(s, t) v. snd (standalone_shutdown s t v)) more_triggers w' = w'"
proof -
  obtain w' where w': "standalone_shutdown s t w = (Inr (), w')" "at_peace w'" "shuttingDown w'" "exitedWith w' = Some 0" "redis w' = redis w"
    using first_trigger_ends[OF assms, of s t] by metis
  have "fold (\<lambda>(s, t) v. snd (standalone_shutdown s t v)) ts w' = w'" for ts
    using w'(3) by (induction ts) (auto simp: later_trigger_idle)
  with w' show thesis by (intro that)
qed

lemma unnamed_registers_nothing: "nonempty argument = None \<Longrightarrow> nonempty env = None \<Longrightarrow> standalone_start E dr argument env w = (Inr (), w)"
  by (simp add: standalone_start_def initialName_def run_simps)

end
