(* ===== verification/Lifecycle_Log.thy ===== *)
theory Lifecycle_Log
  imports Diagnostics Launch_Policy
begin

text \<open>
  The logs of the sidecar and of the start-up hook, \<open>src/src/registered-shell/lifecycle-log.ts\<close>. A log prints
  each record on the error stream and queues it for a file that the first write creates; the writes run one after the
  other behind the program. The events of the model are the calls of the program and the turns of the queued writes,
  with what the file system answers: whether the file could be created, and how many bytes a failing write
  left behind. Times that the code rounds are parameters, rounded. What is handed to the error stream counts as
  printed, whether or not the stream takes it.
\<close>

section \<open>Records and paths\<close>

datatype LifecycleEvent = Startup_started | Registration_complete | Transport_connected | Mcp_initialized | Startup_failed
  | Shutdown_started | Shutdown_complete | Shutdown_failed | Native_binding_started | Native_binding_ready | Native_binding_unavailable

fun event_text :: "LifecycleEvent \<Rightarrow> string" where
  "event_text Startup_started = ''startup_started''"
| "event_text Registration_complete = ''registration_complete''"
| "event_text Transport_connected = ''transport_connected''"
| "event_text Mcp_initialized = ''mcp_initialized''"
| "event_text Startup_failed = ''startup_failed''"
| "event_text Shutdown_started = ''shutdown_started''"
| "event_text Shutdown_complete = ''shutdown_complete''"
| "event_text Shutdown_failed = ''shutdown_failed''"
| "event_text Native_binding_started = ''native_binding_started''"
| "event_text Native_binding_ready = ''native_binding_ready''"
| "event_text Native_binding_unavailable = ''native_binding_unavailable''"

record LifecycleLog =
  le_event :: LifecycleEvent
  le_phase :: "string option"
  le_duration_ms :: "js_number option"
  le_code :: "string option"
  le_reason :: "string option"
  le_session_id :: "string option"

definition state_dir :: "host \<Rightarrow> string" where
  "state_dir H =
     (case h_env H ''XDG_STATE_HOME'' of
        Some d \<Rightarrow> if is_absolute d then path_join [d, ''gptqueue'', ''logs''] else path_join [h_homedir H, ''.local'', ''state'', ''gptqueue'', ''logs'']
      | None \<Rightarrow> path_join [h_homedir H, ''.local'', ''state'', ''gptqueue'', ''logs''])"

definition defaultLogDir :: "host \<Rightarrow> string" where
  "defaultLogDir H =
     (case map_option trim (h_env H ''GPTQ_LOG_DIR'') of
        Some configured \<Rightarrow> if configured \<noteq> [] \<and> is_absolute configured then configured else state_dir H
      | None \<Rightarrow> state_dir H)"

text \<open>The code of a failure, from the message of an \<open>Error\<close> or from any other value that was thrown.\<close>

definition safeLifecycleCode :: "string option \<Rightarrow> string" where
  "safeLifecycleCode message =
     (case message of
        None \<Rightarrow> ''unknown_error''
      | Some m \<Rightarrow>
          if contains_text ''timed out'' (lower_text m) then ''timeout''
          else if contains_text ''abort'' (lower_text m) then ''aborted'' else ''operation_failed'')"

definition text_if :: "string \<Rightarrow> string option \<Rightarrow> (string \<times> json) list" where
  "text_if k v = opt_member k (map_option JStr (nonempty v))"

definition lifecycle_record :: "string \<Rightarrow> string \<Rightarrow> int \<Rightarrow> string \<Rightarrow> js_number \<Rightarrow> LifecycleLog \<Rightarrow> json" where
  "lifecycle_record agentName client pid now elapsed entry = obj
     ([(''schema_version'', JNum (JInt 1)), (''timestamp'', JStr now), (''event'', JStr (event_text (le_event entry))),
       (''client'', JStr client), (''pid'', JNum (JInt pid)), (''agent_name'', JStr agentName)]
      @ text_if ''session_id'' (le_session_id entry) @ [(''elapsed_ms'', JNum elapsed)] @ text_if ''phase'' (le_phase entry)
      @ opt_member ''duration_ms'' (map_option JNum (le_duration_ms entry)) @ text_if ''code'' (le_code entry) @ text_if ''reason'' (le_reason entry))"

definition lifecycle_path :: "host \<Rightarrow> string \<Rightarrow> string" where
  "lifecycle_path H agentName = path_join [defaultLogDir H, agentName @ ''.jsonl'']"

text \<open>The fields of a hook record are spread last and so take the place of members of the same name.\<close>

definition hook_record :: "string \<Rightarrow> string \<Rightarrow> string \<Rightarrow> int \<Rightarrow> string \<Rightarrow> string \<Rightarrow> (string \<times> json option) list \<Rightarrow> json" where
  "hook_record client sessionId hookEvent pid now event extra = obj
     (concat (map (\<lambda>(k, v). opt_member k v) extra)
      @ [(''schema_version'', JNum (JInt 1)), (''timestamp'', JStr now), (''event'', JStr event), (''client'', JStr client),
         (''pid'', JNum (JInt pid)), (''session_id'', JStr sessionId), (''hook_event'', JStr hookEvent)])"

definition safe_session :: "string \<Rightarrow> string" where
  "safe_session s = (if length s = 36 \<and> list_all (\<lambda>c. hex_char c \<or> c = CHR ''-'') s then s else ''unparsed'')"

definition hook_path :: "host \<Rightarrow> string option \<Rightarrow> string \<Rightarrow> string \<Rightarrow> string \<Rightarrow> string \<Rightarrow> string" where
  "hook_path H dir client sessionId now random =
     (let stamp = map (\<lambda>c. if c = CHR '':'' \<or> c = CHR ''.'' then CHR ''-'' else c) now in
      path_join [case dir of Some d \<Rightarrow> d | None \<Rightarrow> defaultLogDir H,
        ''hook-'' @ client @ ''-'' @ safe_session sessionId @ ''-'' @ stamp @ ''-'' @ random @ ''.jsonl''])"

section \<open>The log\<close>

text \<open>The file holds what was written to it; once it could not be created it is never tried again.\<close>

datatype log_file = Unopened | Opened string | Unavailable

datatype stderr_entry = Printed string | Logging_failed

record log_state =
  lf_stderr :: "stderr_entry list"
  lf_queue :: "string list"
  lf_file :: log_file
  lf_warning :: bool
  lf_closing :: bool
  lf_finished :: bool
  lf_released :: bool

definition new_log :: log_state where
  "new_log = \<lparr>lf_stderr = [], lf_queue = [], lf_file = Unopened, lf_warning = False, lf_closing = False, lf_finished = False, lf_released = False\<rparr>"

definition log_warn :: "log_state \<Rightarrow> log_state" where
  "log_warn st = (if lf_warning st then st else st\<lparr>lf_warning := True, lf_stderr := lf_stderr st @ [Logging_failed]\<rparr>)"

definition log_emit :: "string \<Rightarrow> log_state \<Rightarrow> log_state" where
  "log_emit line st =
     (let st' = st\<lparr>lf_stderr := lf_stderr st @ [Printed line]\<rparr> in
      if lf_closing st \<or> lf_warning st then st' else st'\<lparr>lf_queue := lf_queue st @ [line]\<rparr>)"

definition lifecycle_emit :: "runtime \<Rightarrow> string \<Rightarrow> string \<Rightarrow> int \<Rightarrow> string \<Rightarrow> js_number \<Rightarrow> LifecycleLog \<Rightarrow> log_state \<Rightarrow> log_state" where
  "lifecycle_emit E agentName client pid now elapsed entry = log_emit (JSON_stringify E (lifecycle_record agentName client pid now elapsed entry))"

definition hook_emit :: "runtime \<Rightarrow> string \<Rightarrow> string \<Rightarrow> string \<Rightarrow> int \<Rightarrow> string \<Rightarrow> string \<Rightarrow> (string \<times> json option) list \<Rightarrow> log_state \<Rightarrow> log_state" where
  "hook_emit E client sessionId hookEvent pid now event extra = log_emit (JSON_stringify E (hook_record client sessionId hookEvent pid now event extra))"

definition as_line :: "string \<Rightarrow> string" where
  "as_line l = l @ [CHR 0x0A]"

definition ensureFile :: "bool \<Rightarrow> log_file \<Rightarrow> log_file" where
  "ensureFile created f = (if f = Unopened then (if created then Opened [] else Unavailable) else f)"

text \<open>The turn of a queued write; \<open>Some n\<close> is a write that fails after \<open>n\<close> bytes.\<close>

definition write_turn :: "bool \<Rightarrow> nat option \<Rightarrow> log_state \<Rightarrow> log_state" where
  "write_turn created failed_after st =
     (case lf_queue st of
        [] \<Rightarrow> st
      | line # rest \<Rightarrow>
          (let st' = st\<lparr>lf_queue := rest, lf_file := ensureFile created (lf_file st)\<rparr> in
           case lf_file st' of
             Opened content \<Rightarrow>
               (case failed_after of
                  None \<Rightarrow> st'\<lparr>lf_file := Opened (content @ as_line line)\<rparr>
                | Some n \<Rightarrow> log_warn (st'\<lparr>lf_file := Opened (content @ take n (as_line line))\<rparr>))
           | _ \<Rightarrow> log_warn st'))"

definition log_close :: "log_state \<Rightarrow> log_state" where
  "log_close st = st\<lparr>lf_closing := True\<rparr>"

text \<open>What the closing does once the writes have run; the handle is closed even where syncing it fails, and \<open>synced\<close> says that both calls succeed.\<close>

definition closing_turn :: "bool \<Rightarrow> log_state \<Rightarrow> log_state" where
  "closing_turn synced st =
     (if \<not> lf_closing st \<or> lf_finished st \<or> lf_queue st \<noteq> [] then st
      else case lf_file st of
             Unopened \<Rightarrow> st\<lparr>lf_finished := True\<rparr>
           | Unavailable \<Rightarrow> log_warn (st\<lparr>lf_finished := True\<rparr>)
           | Opened _ \<Rightarrow> let st' = st\<lparr>lf_finished := True, lf_released := True\<rparr> in if synced then st' else log_warn st')"

datatype log_event = Emit string | Write_turn bool "nat option" | Close_log | Closing_turn bool

fun log_step :: "log_event \<Rightarrow> log_state \<Rightarrow> log_state" where
  "log_step (Emit line) st = log_emit line st"
| "log_step (Write_turn created failed_after) st = write_turn created failed_after st"
| "log_step Close_log st = log_close st"
| "log_step (Closing_turn synced) st = closing_turn synced st"

abbreviation log_run :: "log_event list \<Rightarrow> log_state" where
  "log_run evs \<equiv> fold log_step evs new_log"

section \<open>What the log guarantees\<close>

lemmas log_ops = log_emit_def write_turn_def log_close_def closing_turn_def log_warn_def ensureFile_def Let_def

fun emitted :: "log_event \<Rightarrow> string list" where
  "emitted (Emit line) = [line]"
| "emitted _ = []"

definition before_close :: "log_event list \<Rightarrow> string list" where
  "before_close evs = concat (map emitted (takeWhile (\<lambda>e. e \<noteq> Close_log) evs))"

lemma before_close_snoc: "before_close (evs @ [e]) = before_close evs @ (if Close_log \<in> set evs then [] else emitted e)"
proof (cases "Close_log \<in> set evs")
  case True
  then show ?thesis by (simp add: before_close_def takeWhile_append1[of Close_log])
next
  case False
  have "takeWhile (\<lambda>e. e \<noteq> Close_log) (evs @ [e]) = evs @ takeWhile (\<lambda>e. e \<noteq> Close_log) [e]" using False by (intro takeWhile_append2) auto
  moreover have all: "takeWhile (\<lambda>e. e \<noteq> Close_log) evs = evs" using False by (auto simp: takeWhile_eq_all_conv)
  ultimately show ?thesis using False unfolding before_close_def all by (cases e) simp_all
qed

fun harmless :: "log_event \<Rightarrow> bool" where
  "harmless (Write_turn created failed_after) = (created \<and> failed_after = None)"
| "harmless _ = True"

fun file_text :: "log_file \<Rightarrow> string" where
  "file_text (Opened s) = s"
| "file_text _ = []"

definition as_file :: "string list \<Rightarrow> string" where
  "as_file ls = concat (map as_line ls)"

lemma closing_iff: "lf_closing (log_run evs) \<longleftrightarrow> Close_log \<in> set evs"
proof (induction evs rule: rev_induct)
  case (snoc e evs)
  then show ?case by (cases e) (auto simp: log_ops split: list.splits log_file.splits option.splits)
qed (simp add: new_log_def)

text \<open>Logging changes nothing on the error stream: every record is printed, in order, and one complaint at most.\<close>

lemma stderr_step:
  "lf_stderr (log_step e st) = lf_stderr st @ map Printed (emitted e) @ (if lf_warning (log_step e st) \<and> \<not> lf_warning st then [Logging_failed] else [])"
  "lf_warning st \<Longrightarrow> lf_warning (log_step e st)"
  by (cases e; simp add: log_ops split: list.split log_file.split option.split)+

lemma stderr_complete:
  "filter (\<lambda>x. x \<noteq> Logging_failed) (lf_stderr (log_run evs)) = map Printed (concat (map emitted evs))
   \<and> length (filter (\<lambda>x. x = Logging_failed) (lf_stderr (log_run evs))) = (if lf_warning (log_run evs) then 1 else 0)"
proof (induction evs rule: rev_induct)
  case (snoc e evs)
  have "filter (\<lambda>x. x \<noteq> Logging_failed) (map Printed ls) = map Printed ls" "filter (\<lambda>x. x = Logging_failed) (map Printed ls) = []" for ls
    by (induction ls) simp_all
  then show ?case using snoc stderr_step(2)[of "log_run evs" e] by (simp add: stderr_step(1))
qed (simp add: new_log_def)

text \<open>
  Where the file system does its part, the file and what is still queued are the records emitted before the log was
  closed; a closing that has ended has written them all and has closed the file it opened.
\<close>

lemma log_inv:
  assumes "list_all harmless evs"
  shows "file_text (lf_file (log_run evs)) @ as_file (lf_queue (log_run evs)) = as_file (before_close evs)
    \<and> lf_file (log_run evs) \<noteq> Unavailable \<and> (lf_warning (log_run evs) \<longrightarrow> lf_closing (log_run evs))"
  using assms
proof (induction evs rule: rev_induct)
  case (snoc e evs)
  then show ?case using closing_iff[of evs]
    by (cases e) (auto simp: log_ops before_close_snoc as_file_def split: list.splits log_file.splits option.splits if_splits)
qed (simp add: new_log_def before_close_def as_file_def)

lemma released_finished: "lf_released (log_run evs) \<Longrightarrow> lf_finished (log_run evs)"
proof (induction evs rule: rev_induct)
  case (snoc e evs)
  then show ?case by (cases e) (auto simp: log_ops split: list.splits log_file.splits option.splits if_splits)
qed (simp add: new_log_def)

lemma finished_closed: "lf_finished (log_run evs) \<Longrightarrow> lf_queue (log_run evs) = [] \<and> lf_closing (log_run evs)
    \<and> (lf_released (log_run evs) \<longleftrightarrow> (\<exists>s. lf_file (log_run evs) = Opened s))"
proof (induction evs rule: rev_induct)
  case (snoc e evs)
  then show ?case using released_finished[of evs] by (cases e) (auto simp: log_ops split: list.splits log_file.splits option.splits if_splits)
qed (simp add: new_log_def)

lemma log_complete:
  assumes "list_all harmless evs" "lf_finished (log_run evs)"
  shows "file_text (lf_file (log_run evs)) = as_file (before_close evs)"
  using log_inv[OF assms(1)] finished_closed[OF assms(2)] by (simp add: as_file_def)

text \<open>Once it has ended, a closed log keeps its file whatever is emitted later.\<close>

lemma finished_step: "lf_finished st \<and> lf_queue st = [] \<and> lf_closing st \<Longrightarrow>
    lf_file (log_step e st) = lf_file st \<and> lf_finished (log_step e st) \<and> lf_queue (log_step e st) = [] \<and> lf_closing (log_step e st)"
  by (cases e) (auto simp: log_ops)

lemma finished_keeps_file:
  assumes "lf_finished (log_run evs)"
  shows "lf_file (log_run (evs @ later)) = lf_file (log_run evs)"
proof (induction later rule: rev_induct)
  case (snoc e later)
  have "lf_finished (log_run (evs @ later))" for later
  proof (induction later rule: rev_induct)
    case (snoc e later)
    then show ?case using finished_closed[of "evs @ later"] finished_step[of "log_run (evs @ later)" e] by simp
  qed (simp add: assms)
  then show ?case using snoc finished_closed[of "evs @ later"] finished_step[of "log_run (evs @ later)" e] by simp
qed simp

lemma log_complete_witness:
  "file_text (lf_file (log_run [Emit ''a'', Emit ''b'', Write_turn True None, Close_log, Emit ''c'', Write_turn True None, Closing_turn True])) = as_file [''a'', ''b'']"
  using log_complete[of "[Emit ''a'', Emit ''b'', Write_turn True None, Close_log, Emit ''c'', Write_turn True None, Closing_turn True]"]
  by (simp add: log_ops new_log_def before_close_def)

text \<open>
  Records that were queued before a failure are still written after it, so a write that failed half way leaves a line
  that is no record.
\<close>

lemma partial_line_kept:
  "file_text (lf_file (log_run [Emit ''{1}'', Emit ''{2}'', Write_turn True (Some 2), Write_turn True None])) = ''{1'' @ as_line ''{2}''"
  by (simp add: log_ops new_log_def as_line_def)

end
