(* ===== verification/Inbox_Waiter.thy ===== *)
theory Inbox_Waiter
  imports Prelude
begin

text \<open>
  Waiting for the inbox of an agent, \<open>createWaiter\<close> and \<open>wait\<close> of \<open>src/src/core/inbox-events.ts\<close>: a waiter keeps
  one blocking connection across its waits. Connections are numbered in the order in which they are duplicated from
  the client; those that are ready are the live ones. What a wait meets is a record: a signal that has been aborted
  before the wait or while it connects, a connection that cannot be made, and the reply of the blocking read, which
  fails when the connection breaks or the signal aborts it. A waiter is used as its dispatcher uses it, one wait at a
  time; between two waits its connection may break.
\<close>

section \<open>The waiter\<close>

text \<open>The reply of \<open>XREAD\<close>: streams with their entries, each with its identifier, or nothing after the time.\<close>

type_synonym xread_reply = "(string \<times> (string \<times> string list) list) list option"

definition last_id :: "xread_reply \<Rightarrow> string option" where
  "last_id r = (case r of Some ((_, entries) # _) \<Rightarrow> if entries = [] then None else Some (fst (last entries)) | _ \<Rightarrow> None)"

record waiter =
  wt_connection :: "nat option"
  wt_live :: "nat set"
  wt_next :: nat

record wait_outcome =
  wo_aborted :: bool
  wo_connects :: bool
  wo_aborted_connecting :: bool
  wo_reply :: "xread_reply option"

definition createWaiter :: waiter where
  "createWaiter = \<lparr>wt_connection = None, wt_live = {}, wt_next = 0\<rparr>"

definition disconnect_live :: "nat \<Rightarrow> waiter \<Rightarrow> waiter" where
  "disconnect_live c w = w\<lparr>wt_live := wt_live w - {c}\<rparr>"

definition drop_current :: "waiter \<Rightarrow> waiter" where
  "drop_current w = (case wt_connection w of Some c \<Rightarrow> disconnect_live c w | None \<Rightarrow> w)"

definition connect_next :: "bool \<Rightarrow> waiter \<Rightarrow> nat option \<times> waiter" where
  "connect_next connects w =
     (let w' = drop_current w; n = wt_next w; w'' = w'\<lparr>wt_connection := Some n, wt_next := Suc n\<rparr> in
      if connects then (Some n, w''\<lparr>wt_live := insert n (wt_live w'')\<rparr>) else (None, w''))"

definition fresh :: "bool \<Rightarrow> waiter \<Rightarrow> nat option \<times> waiter" where
  "fresh connects w =
     (case wt_connection w of
        Some c \<Rightarrow> if c \<in> wt_live w then (Some c, w) else connect_next connects w
      | None \<Rightarrow> connect_next connects w)"

definition waiter_wait :: "wait_outcome \<Rightarrow> waiter \<Rightarrow> (exn + string option) \<times> waiter" where
  "waiter_wait oc w =
     (if wo_aborted oc then (Inl (JsError ''AbortError''), w)
      else case fresh (wo_connects oc) w of
             (None, w') \<Rightarrow> (Inl (JsError ''Connection is closed.''), w')
           | (Some current, w') \<Rightarrow>
               if wo_aborted_connecting oc then (Inl (JsError ''AbortError''), disconnect_live current w')
               else case wo_reply oc of
                      None \<Rightarrow> (Inl (JsError ''Connection is closed.''), disconnect_live current w')
                    | Some reply \<Rightarrow> (Inr (last_id reply), w'))"

definition waiter_close :: "waiter \<Rightarrow> waiter" where
  "waiter_close w = (drop_current w)\<lparr>wt_connection := None\<rparr>"

text \<open>A single wait makes its own connection and ends it however it returns.\<close>

definition inbox_wait :: "wait_outcome \<Rightarrow> waiter \<Rightarrow> (exn + string option) \<times> waiter" where
  "inbox_wait oc w =
     (if wo_aborted oc then (Inl (JsError ''AbortError''), w)
      else let c = wt_next w; w' = w\<lparr>wt_next := Suc c\<rparr> in
           if \<not> wo_connects oc then (Inl (JsError ''Connection is closed.''), disconnect_live c w')
           else let w'' = w'\<lparr>wt_live := insert c (wt_live w')\<rparr> in
                if wo_aborted_connecting oc then (Inl (JsError ''AbortError''), disconnect_live c w'')
                else case wo_reply oc of
                       None \<Rightarrow> (Inl (JsError ''Connection is closed.''), disconnect_live c w'')
                     | Some reply \<Rightarrow> (Inr (last_id reply), disconnect_live c w''))"

section \<open>Its connections\<close>

datatype waiter_event = Waits wait_outcome | Breaks nat | Closes | Waits_once wait_outcome

fun waiter_next :: "waiter_event \<Rightarrow> waiter \<Rightarrow> waiter" where
  "waiter_next (Waits oc) w = snd (waiter_wait oc w)"
| "waiter_next (Breaks c) w = disconnect_live c w"
| "waiter_next Closes w = waiter_close w"
| "waiter_next (Waits_once oc) w = snd (inbox_wait oc w)"

definition waiter_init :: "waiter \<Rightarrow> bool" where
  "waiter_init w \<longleftrightarrow> w = createWaiter"

definition waiter_step :: "waiter \<Rightarrow> waiter_event \<Rightarrow> waiter \<Rightarrow> bool" where
  "waiter_step w e w' \<longleftrightarrow> w' = waiter_next e w"

text \<open>No connection lives but the one the waiter holds, and none is numbered that has not been made.\<close>

definition sole_connection :: "waiter \<Rightarrow> bool" where
  "sole_connection w \<longleftrightarrow> wt_live w \<subseteq> set_option (wt_connection w) \<and> (\<forall>c \<in> set_option (wt_connection w). c < wt_next w)"

lemmas waiter_defs = waiter_wait_def waiter_close_def inbox_wait_def fresh_def connect_next_def drop_current_def disconnect_live_def Let_def

lemma sole_next: "sole_connection w \<Longrightarrow> sole_connection (waiter_next e w)"
  by (cases e) (auto simp: sole_connection_def waiter_defs split: option.splits if_splits)

interpretation waits: invariant_system waiter_init waiter_step sole_connection
  by unfold_locales (auto simp: waiter_init_def waiter_step_def createWaiter_def sole_connection_def sole_next[unfolded sole_connection_def])

lemma waiter_holds_one: "reach waiter_init waiter_step w \<Longrightarrow> card (wt_live w) \<le> 1 \<and> wt_live (waiter_close w) = {}"
proof -
  assume "reach waiter_init waiter_step w"
  then have sub: "wt_live w \<subseteq> set_option (wt_connection w)" using waits.reach_inv by (auto simp: sole_connection_def)
  then have "card (wt_live w) \<le> card (set_option (wt_connection w))" by (intro card_mono) simp_all
  also have "\<dots> \<le> 1" by (cases "wt_connection w") simp_all
  finally show ?thesis using sub by (auto simp: waiter_defs split: option.splits)
qed

text \<open>A wait that returns leaves its connection for the next one; a wait that fails leaves none.\<close>

lemma wait_reuses:
  assumes "waiter_wait oc w = (Inr x, w')" and "\<not> wo_aborted oc'"
  shows "fresh b w' = (wt_connection w', w') \<and> wt_connection w' \<noteq> None \<and> (wt_connection w \<noteq> None \<and> the (wt_connection w) \<in> wt_live w \<longrightarrow> w' = w)"
  using assms by (auto simp: waiter_defs split: option.splits if_splits)

lemma failed_wait_leaves_none:
  assumes "sole_connection w" "waiter_wait oc w = (Inl e, w')" "\<not> wo_aborted oc"
  shows "wt_live w' = {}"
  using assms by (auto simp: sole_connection_def waiter_defs split: option.splits if_splits)

lemma single_wait_leaves_none: "sole_connection w \<Longrightarrow> wt_live (snd (inbox_wait oc w)) = wt_live w"
  by (auto simp: sole_connection_def waiter_defs split: option.splits)

text \<open>The answer is the newest of the entries the read returned.\<close>

lemma last_id_newest: "last_id (Some [(stream, entries @ [(i, fs)])]) = Some i"
  by (simp add: last_id_def)

end
