(* ===== verification/Spec2Isabelle.thy ===== *)
theory Spec2Isabelle
  imports Identity_Claim Activation_Props Custody_Refinement Task_System Wake_Lease Launch_Policy Actor_Directory Session_Props Client_Props Continuity_Props Tool_Props
    Adapter_Props Socket_Props Server_Props Wrapper_Props Pty_Wrapper Session_Owner Diagnostics_Props Runtime_Controller Opencode_Plugin Pi_Extension
    Shell_Server Bound_Tools Rollout_History Tool_Registry Doctor Stored_Reads Standalone_Server Lifecycle_Log Inbox_Waiter
begin

text \<open>
  A verification development for gptqueue: a message queue for agents on top of Redis, served over the
  Model Context Protocol. Agents register a name and hold a session under a lease; senders push messages to
  bounded mailboxes; consumers either receive a message outright or claim a batch of tasks that they later
  acknowledge; durable actors are launched when a message arrives while they are offline; and worktrees
  change hands under a custody protocol. The state is in Redis, the decisions are in TypeScript and in Lua
  scripts that Redis runs atomically.

  \<^bold>\<open>How the program is modelled.\<close>
  \<^item> \<open>Prelude\<close>: computations with a state and exceptions (\<open>bindM\<close>, \<open>thenM\<close>, \<open>catchM\<close>), and the interface
    \<open>invariant_system\<close> of a transition system with an inductive invariant.
  \<^item> \<open>Redis\<close>: the database as typed keys with expiry under a server clock; a command on a key of another type
    fails. A Lua script is a computation on the database and keeps what it wrote before it failed. A method
    of a store is a sequence of atomic steps on a world that records them (\<open>history\<close>); between two steps
    \<open>interfere\<close> changes the database in any way, so that a statement about a method holds under any
    interleaving unless it assumes that the world is \<open>quiet\<close>.
  \<^item> \<open>Json\<close>, \<open>Iso_Time\<close>, \<open>Lua\<close>, \<open>Node_Path\<close>: the values and library functions of the two languages. The JSON
    printers and parsers, \<open>Date.parse\<close>, the hash and the conversion of numbers are the fields of the record
    \<open>runtime\<close>; what the program relies on is the interface \<open>js_runtime\<close>, up to a nesting of 32, and
    \<open>Json_Text\<close> interprets it with a printer and a parser written out. The file system, the environment and
    the calls that signal and spawn processes are the records \<open>host\<close> and \<open>os\<close>. Instants and identifiers
    that the code draws are parameters.
  \<^item> An exception is the left of a result; an error that a method returns is a code of its own type. The
    texts of messages are left out.

  \<^bold>\<open>The components.\<close>
  \<^item> \<open>Keys\<close> (\<open>core/keys.ts\<close>): the names of the keys, apart from each other by injectivity lemmas.
  \<^item> \<open>Custody_Model\<close>, \<open>Custody_Store\<close>, \<open>Custody_Refinement\<close> (\<open>core/custody-model.ts\<close>, \<open>core/custody-store.ts\<close>,
    \<open>lua/custody-conditional-set.lua\<close>): the pure transitions with their well-formedness invariant, the store,
    and the abstract map of worktrees that claim and release implement when they run undisturbed. Under
    interference a claim succeeds by one write over a record that was free to take.
  \<^item> \<open>Conditional_Set\<close>: the contract of a conditional hash write, interpreted by the scripts of the custody
    store and of the actor directory.
  \<^item> \<open>Mailbox_Store\<close>, \<open>Mailbox_Props\<close> (\<open>core/mailbox-store.ts\<close>, \<open>lua/bounded-push*.lua\<close>,
    \<open>lua/migrate-messages.lua\<close>): bounded push, idempotent send, receive, migration.
  \<^item> \<open>Task_Claims\<close>, \<open>Task_Delivery\<close>, \<open>Task_Recovery\<close>, \<open>Task_Props\<close>, \<open>Task_System\<close> (\<open>core/task-claim-store.ts\<close>,
    \<open>lua/claims-*.lua\<close>): claims, renewal, recovery, dead letters. The invariant \<open>claims_ok\<close> ties the claims to
    their index; \<open>triage\<close> specifies recovery; \<open>Task_System\<close> runs every script in any order and shows that no
    task is lost.
  \<^item> \<open>Wake_Lease\<close> (\<open>core/wake-lease.ts\<close>, \<open>lua/wake-lease-*.lua\<close>): at most one activation of an actor in flight.
  \<^item> \<open>Launch_Policy\<close> (\<open>core/launch-policy.ts\<close>): the operator's allowlist, and exactly what the checks
    of the code admit, stated without them; two spellings of inline code that they miss are shown to pass.
  \<^item> \<open>Actor_Presence\<close>, \<open>Actor_Directory\<close> (\<open>core/actor-presence.ts\<close>, \<open>core/actor-directory.ts\<close>): admission of
    profiles, presence, and the directory whose records only their owner replaces.
  \<^item> \<open>Session_Store\<close>, \<open>Session_Props\<close> (\<open>core/session-store.ts\<close>): sessions, leases, the registry with its
    provisional writes.
  \<^item> \<open>Agent_Discovery\<close>, \<open>Continuity\<close>, \<open>Continuity_Props\<close> (\<open>core/agent-discovery.ts\<close>, \<open>core/occupancy-guard.ts\<close>,
    \<open>core/mailbox-continuity.ts\<close>): the public view of registrations and the takeover of a mailbox.
  \<^item> \<open>Redis_Client\<close>, \<open>Client_Props\<close> (\<open>mcp-server/redis-client.ts\<close>): the client that composes the stores, with
    registration, rename, reconnection and unregistration, whose effect is stated exactly.
  \<^item> \<open>Wake_Tools\<close>, \<open>Tools\<close>, \<open>Tool_Props\<close> (\<open>mcp-server/launcher.ts\<close>, \<open>mcp-server/tools\<close>): every tool handler,
    and the wake that follows a send.
  \<^item> \<open>World_Steps\<close>, \<open>Untouched\<close>: relations that hold across the steps of a method, with the interface
    \<open>world_relation\<close>, scripts that leave a key alone, and bounds on the number of steps, from which this theory
    derives how many round trips the sends, the custody store, the directory and the client take at most.
  \<^item> \<open>Diagnostics\<close>, \<open>Diagnostics_Props\<close> (\<open>core/agent-diagnostics.ts\<close>, \<open>core/doctor-probe.ts\<close>,
    \<open>registered-shell/diagnostic-tools.ts\<close>): the reports. Finding agents by the cheap
    reads is filtering the full details where every registration can be read.
  \<^item> \<open>Schemas\<close>, \<open>Bound_Tools\<close> (the argument schemas of the tools, the bound tools of
    \<open>experimental-wrapper/bridge.ts\<close>, \<open>registered-shell/runtime-tools.ts\<close>, \<open>runtime-mailbox.ts\<close>): the tools of a
    connection bound to its identity. A name in the arguments is not adopted, whatever the caller says.
  \<^item> \<open>Tool_Registry\<close> (\<open>transports/setup-tools.ts\<close>): the tools the main server offers and their hints.
  \<^item> \<open>Session_Servers\<close>, \<open>Server_Props\<close> (\<open>transports/http.ts\<close>, \<open>experimental-wrapper/bridge.ts\<close>): which requests
    are admitted, the table of sessions and its sweep. A request without the token changes nothing; the limit on
    sessions holds up to the initializations that overlap.
  \<^item> \<open>Standalone_Server\<close> (\<open>mcp-server/index.ts\<close>): the registration at the start, and the one shutdown that every
    signal leads to. \<open>Stored_Reads\<close> (\<open>core/stored-read.ts\<close>): what a store says of a value it cannot read.
  \<^item> \<open>Inbox_Waiter\<close> (\<open>core/inbox-events.ts\<close>): waiting for events, with no more than one live connection.
  \<^item> \<open>Doctor\<close> (\<open>scripts/gptqueue-doctor.mjs\<close>): the operator's command over the reports and the takeover. It changes
    nothing in the store unless it is told to apply a plan.

  \<^bold>\<open>The wrappers around agent programs.\<close>
  \<^item> \<open>Identity_Claim\<close> (\<open>experimental-wrapper/identity-claim.ts\<close>): the exclusive claim of a name by a token.
  \<^item> \<open>Wrapper_Config\<close>, \<open>Wrapper_Run\<close>, \<open>Wrapper_Props\<close> (\<open>experimental-wrapper/config.ts\<close>, \<open>index.ts\<close>, \<open>pi-tools.ts\<close>):
    the command line and one run from its claim to its exit status, with every failure on the way.
  \<^item> \<open>Pty_Wrapper\<close> (\<open>pty-wrapper\<close>): the command line, the detector of idle programs and the loop that tells a
    program of its messages. A notice is typed whole, and only into a program that has been quiet.
  \<^item> \<open>Activation\<close>, \<open>Activation_Props\<close> (\<open>core/inbox-events.ts\<close>, \<open>registered-shell/activation-store.ts\<close>,
    \<open>inbox-dispatcher.ts\<close>, \<open>runtime.ts\<close>): the binding of a runtime, the records of its operations, and the
    dispatcher round by round under interference. It writes only while it owns the binding.
  \<^item> \<open>Runtime_Adapters\<close>, \<open>Adapter_Props\<close> (\<open>opencode-runtime.ts\<close>, \<open>codex-runtime.ts\<close>, \<open>pi-runtime.ts\<close>): the adapters
    that the dispatcher submits to. The interface between them says what an adapter may answer, and every
    adapter interprets it; the two that remember operations submit each at most once,
    and so does the dispatcher while its record of an operation lives.
  \<^item> \<open>Chunked\<close>: the interface \<open>chunked_reader\<close> of a reader whose result does not depend on how its input is cut,
    interpreted by the two theories that follow.
  \<^item> \<open>Codex_Socket\<close>, \<open>Socket_Props\<close> (\<open>codex-socket.ts\<close>): frames, the handshake, requests and their answers.
  \<^item> \<open>Rollout_History\<close> (\<open>codex-history.ts\<close>): the turns of a thread, read from its transcript piece by piece.
  \<^item> \<open>Session_Owner\<close>, \<open>Opencode_Plugin\<close> (\<open>opencode-sessions.ts\<close>, \<open>opencode-backend.ts\<close>,
    \<open>opencode-plugin-factory.ts\<close>, \<open>opencode-plugin.ts\<close>): one backend per session, and the plug-in that routes a call
    to the backend of the session it came from.
  \<^item> \<open>Runtime_Controller\<close> (\<open>runtime-controller.ts\<close>, \<open>codex-bootstrap.ts\<close>, \<open>codex-hook.ts\<close>): the controller that
    binds a connection to a conversation, and the search for the conversation of a Codex process.
  \<^item> \<open>Pi_Extension\<close> (\<open>pi-extension.ts\<close>, \<open>tool-names.ts\<close>): the extension as events on its state; no more than one
    sidecar runs at a time.
  \<^item> \<open>Shell_Server\<close> (\<open>server.ts\<close>): the sidecar of a shell, which starts as a whole or leaves nothing behind.
  \<^item> \<open>Lifecycle_Log\<close> (\<open>lifecycle-log.ts\<close>): the queue of writes behind a log. Where the file system does its part, a
    closed log holds every record that was emitted before; a failing one complains once.

  \<^bold>\<open>Bounds.\<close> A send makes ten attempts, a custody claim and a directory registration two; a Codex
  bootstrap makes thirty attempts over at most 128 loaded threads; a transcript keeps 256 turns of 128 items
  and rejects a record above 32 MiB; the mark of an idempotent send lives a day. These are the constants of the
  code. A recovery is specified for fewer than \<open>2 ^ 61\<close> tasks, below which the counters it keeps are exact.
  Integers that the code checks against a range are integers; no other number is rounded. A blocking receive is
  the attempt that finds a message or none. A loop that a deadline ends, such as that of the Codex hook, runs over the
  list of what its rounds find, of any length. Texts are bytes.

  \<^bold>\<open>Not modelled.\<close> The listening sockets, the protocol sessions and the shutdown inside \<open>transports/http.ts\<close> and
  \<open>experimental-wrapper/bridge.ts\<close>; the texts of messages and of console output; the registration of tools with the
  protocol library and their descriptions; the operating-system calls that spawn sidecars, whose outcome is a
  parameter; and the scripts \<open>scripts/verify-*.mjs\<close>, which drive live services to test them.
\<close>

section \<open>Round trips\<close>

text \<open>
  Every operation that retries, or that composes several stores, takes a bounded number of atomic steps
  whatever the other clients do.
\<close>

lemma within_iso_after: "within 0 (iso_after E now s)"
  by (simp add: iso_after_def toISOString_def within_pure split: option.splits)

lemma within_send_loop: "within n (send_loop n E bound m)"
proof (induction n)
  case (Suc n)
  show ?case unfolding send_loop.simps
    by (rule within_bindM[where a = 1 and b = n]) (auto intro: within_atomic within_pure Suc)
qed (simp add: within_pure)

lemma within_sendIdempotent_loop: "within n (sendIdempotent_loop n E bound k m)"
proof (induction n)
  case (Suc n)
  show ?case unfolding sendIdempotent_loop.simps
    by (rule within_bindM[where a = 1 and b = n]) (auto intro: within_atomic within_pure Suc split: push_status.splits prod.splits)
qed (simp add: within_pure)

lemma within_custody_parts:
  "within 1 (readRecord E p)" "within 1 (lazyExpire E r now)" "within 1 (claim_decide E i lease r)" "within 1 (release_decide E j h r)"
  "within 1 (claim_persist E i r ev ex)"
proof -
  show "within 1 (readRecord E p)"
    unfolding readRecord_def by (rule within_bindM[where a = 1 and b = 0]) (auto intro: within_atomic within_pure)
  have set: "within 1 (conditionalSet E p v s c)" for p v s c by (simp add: conditionalSet_def within_atomic)
  show "within 1 (lazyExpire E r now)"
    unfolding lazyExpire_def by (auto intro!: within_thenM[OF set, where b = 0] within_pure split: sum.splits)
  have p: "within 1 (claim_persist E i r ev ex)" for r ev ex
    unfolding claim_persist_def by (auto intro!: within_bindM[OF set, where b = 0] within_pure split: sum.splits)
  then show "within 1 (claim_persist E i r ev ex)" .
  show "within 1 (claim_decide E i lease r)" unfolding claim_decide_def by (auto intro: p within_pure simp del: One_nat_def)
  show "within 1 (release_decide E j h r)"
    unfolding release_decide_def by (auto intro!: within_bindM[OF set, where b = 0] within_pure split: sum.splits option.splits)
qed

lemma within_claim_attempt: "within 3 (claim_attempt E i lease)"
proof -
  have "within 2 (bindM (lazyExpire E r (ci_now i)) (claim_decide E i lease))" for r
    by (rule within_bindM[OF within_custody_parts(2) within_custody_parts(3)]) simp
  moreover have "within 2 (claim_persist E i r ev ex)" for r ev ex by (rule within_mono[OF within_custody_parts(5)]) simp
  ultimately show ?thesis
    unfolding claim_attempt_def by (intro within_bindM[OF within_custody_parts(1), where b = 2]) (auto intro: within_pure split: StoredRead.splits option.splits)
qed

lemma within_release_attempt: "within 3 (release_attempt E i h)"
proof -
  have "within 2 (bindM (lazyExpire E r (ri_now i)) (release_decide E i h))" for r
    by (rule within_bindM[OF within_custody_parts(2) within_custody_parts(4)]) simp
  then show ?thesis
    unfolding release_attempt_def by (intro within_bindM[OF within_custody_parts(1), where b = 2]) (auto intro: within_pure split: StoredRead.splits option.splits)
qed

lemma within_exhausted: "within 1 (claim_exhausted E i)" "within 1 (release_exhausted E j)"
  unfolding claim_exhausted_def release_exhausted_def
  by (rule within_bindM[OF within_custody_parts(1), where b = 0]; auto intro: within_pure split: StoredRead.splits option.splits)+

lemma within_claim_loop: "within (3 * n + 1) (claim_loop n E i lease)"
proof (induction n)
  case (Suc n)
  show ?case unfolding claim_loop.simps
    by (rule within_bindM[OF within_claim_attempt, where b = "3 * n + 1"]) (auto intro: within_pure Suc split: option.splits simp del: One_nat_def add_Suc_right)
qed (simp add: within_exhausted[simplified])

lemma within_release_loop: "within (3 * n + 1) (release_loop n E i h)"
proof (induction n)
  case (Suc n)
  show ?case unfolding release_loop.simps
    by (rule within_bindM[OF within_release_attempt, where b = "3 * n + 1"]) (auto intro: within_pure Suc split: option.splits simp del: One_nat_def add_Suc_right)
qed (simp add: within_exhausted[simplified])

lemma within_actor_parts: "within 1 (actor_readRecord E a)" "within 1 (register_exhausted E a)" "within 2 (register_attempt E a r)"
proof -
  show read: "within 1 (actor_readRecord E a)"
    unfolding actor_readRecord_def by (rule within_bindM[where a = 1 and b = 0]) (auto intro: within_atomic within_pure)
  show "within 1 (register_exhausted E a)"
    unfolding register_exhausted_def by (rule within_bindM[OF read, where b = 0]) (auto intro: within_pure)
  have set: "within 1 (bindM (atomic c) (\<lambda>p. ret (f p)))" for c f by (rule within_bindM[where a = 1 and b = 0]) (auto intro: within_atomic within_pure)
  show "within 2 (register_attempt E a r)"
    unfolding register_attempt_def
    by (rule within_bindM[OF read, where b = 1]) (auto intro: within_pure set split: StoredRead.splits option.splits simp del: One_nat_def)
qed

lemma within_register_loop: "within (2 * n + 1) (register_loop n E a r)"
proof (induction n)
  case (Suc n)
  show ?case unfolding register_loop.simps
    by (rule within_bindM[OF within_actor_parts(3), where b = "2 * n + 1"]) (auto intro: within_pure Suc split: option.splits simp del: One_nat_def add_Suc_right)
qed (simp add: within_actor_parts[simplified])

lemma within_modifyM: "(\<And>w. history (f w) = history w) \<Longrightarrow> within n (modifyM f)"
  by (simp add: within_def modifyM_run)

lemma within_catch_pure: "within n m \<Longrightarrow> (\<And>e. within 0 (h e)) \<Longrightarrow> within n (catchM m h)"
  by (rule within_catchM[where a = n and b = 0]) auto

lemma within_client_parts:
  "within 4 (createSession E uuid now name role desc tr :: ('z client_world_scheme, _) comp)"
  "within 3 (closeSession sid :: ('z client_world_scheme, _) comp)" "within 1 (startHeartbeat :: ('z client_world_scheme, _) comp)"
  "within 2 (transfer_mailbox E now old name :: ('z client_world_scheme, _) comp)" "within 1 (startLeaseRefresh now sid :: ('z client_world_scheme, _) comp)"
  "within 2 (ensureMailbox bound now name :: ('z client_world_scheme, _) comp)" "within 0 (stopHeartbeat :: ('z client_world_scheme, _) comp)"
proof -
  show stop: "within 0 (stopHeartbeat :: ('z client_world_scheme, _) comp)" unfolding stopHeartbeat_def by (rule within_modifyM) simp
  have sl: "within 0 (stopLeaseRefresh :: ('z client_world_scheme, _) comp)" unfolding stopLeaseRefresh_def by (rule within_modifyM) simp
  have rq: "within 0 (requireRegistered :: ('z client_world_scheme, _) comp)"
    unfolding requireRegistered_def by (rule within_bindM[where a = 0 and b = 0]) (auto intro: within_pure split: option.splits list.splits)
  have beat: "within 1 (beat n :: ('z client_world_scheme, _) comp)" for n
    unfolding beat_def by (rule within_catch_pure) (auto intro: within_atomic within_pure)
  show "within 1 (startHeartbeat :: ('z client_world_scheme, _) comp)"
    unfolding startHeartbeat_def
    by (rule within_thenM[OF stop, where b = 1], rule within_bindM[OF rq, where b = 1], rule within_thenM[OF beat, where b = 0])
      (auto intro: within_modifyM)
  show "within 4 (createSession E uuid now name role desc tr :: ('z client_world_scheme, _) comp)"
    unfolding createSession_def pruneExpiredSessions_def Let_def
    by (rule within_thenM[where a = 1 and b = 3], rule within_atomic, simp, rule within_thenM[where a = 1 and b = 2], rule within_atomic, simp,
        rule within_thenM[where a = 2 and b = 0], rule within_catchM[where a = 1 and b = 1], rule within_atomic, simp,
        rule within_thenM[where a = 1 and b = 0], rule within_catch_pure, rule within_atomic) (auto intro: within_pure)
  show "within 3 (closeSession sid :: ('z client_world_scheme, _) comp)"
  proof -
    have "within 2 ((case x of Some (c # cs) \<Rightarrow> thenM (atomic (thenM (DEL (session_key sid)) (DEL (lease_key sid))))
        (thenM (atomic (SREM (agentSessions_key (c # cs)) sid)) (ret (Some (c # cs)))) | _ \<Rightarrow> ret None) :: ('z client_world_scheme, _) comp)" for x
      by (auto intro!: within_thenM[where a = 1 and b = 1] within_thenM[where a = 1 and b = 0 and n = 1] within_atomic within_pure
          split: option.splits list.splits simp del: One_nat_def)
    then show ?thesis unfolding closeSession_def
      by (intro within_bindM[where a = 0 and b = 3 and n = 3] within_thenM[where a = 0 and b = 3] within_bindM[where a = 1 and b = 2 and n = 3] within_atomic within_pure)
        (auto intro: sl within_pure)
  qed
  show "within 1 (startLeaseRefresh now sid :: ('z client_world_scheme, _) comp)"
    unfolding startLeaseRefresh_def refreshLease_def
    by (rule within_thenM[OF sl, where b = 1], rule within_thenM[where a = 0 and b = 1], rule within_modifyM, simp,
        rule within_thenM[where a = 1 and b = 0], rule within_catch_pure, rule within_atomic) (auto intro: within_pure)
  show "within 2 (ensureMailbox bound now name :: ('z client_world_scheme, _) comp)"
    unfolding ensureMailbox_def by (rule within_bindM[where a = 1 and b = 1]) (auto intro: within_atomic within_pure)
  have rec: "within 1 (recoverExpired E old now :: ('z client_world_scheme, _) comp)"
    unfolding recoverExpired_def
    by (auto intro!: within_pure within_bindM[where a = 1 and b = 0] within_atomic split: option.splits simp del: One_nat_def)
  have mig: "within 1 (migrateMessages old name ci b :: ('z client_world_scheme, _) comp)" for ci b
    unfolding migrateMessages_def by (rule within_bindM[where a = 1 and b = 0]) (auto intro: within_pure within_atomic)
  show "within 2 (transfer_mailbox E now old name :: ('z client_world_scheme, _) comp)"
    unfolding transfer_mailbox_def
    by (rule within_bindM[OF rec, where b = 1]) (auto intro!: within_pure within_thenM[OF mig, where b = 0] split: sum.splits simp del: One_nat_def)
qed

lemma within_rollback: "within 5 (rollback_rename session name e :: ('z client_world_scheme, _) comp)"
proof -
  have close: "within 3 (catchM (thenM (closeSession sid) (ret True)) (\<lambda>_. ret False) :: ('z client_world_scheme, _) comp)" for sid
    by (rule within_catch_pure, rule within_thenM[OF within_client_parts(2), where b = 0]) (auto intro: within_pure)
  have undo: "within 1 (catchM (thenM (undoRegistryWrite n v) (ret True)) (\<lambda>_. ret False) :: ('z client_world_scheme, _) comp)" for n v
    unfolding undoRegistryWrite_def by (rule within_catch_pure, rule within_thenM[where a = 1 and b = 0]) (auto intro: within_pure within_atomic)
  show ?thesis unfolding rollback_rename_def
    by (rule within_bindM[OF close, where b = 2], rule within_bindM[OF undo, where b = 1], rule within_thenM[OF within_client_parts(3), where b = 0])
      (auto intro: within_pure)
qed

lemma within_rename: "within 12 (rename_to E dr s old name session :: ('z client_world_scheme, _) comp)"
proof -
  have retire: "within 5 (retire_name s old :: ('z client_world_scheme, _) comp)"
    unfolding retire_name_def
    by (rule within_thenM[where a = 3 and b = 2], rule within_catch_pure[OF within_client_parts(2)], rule within_pure,
        rule within_thenM[where a = 1 and b = 1], rule within_catch_pure, rule within_atomic, simp, rule within_pure, rule within_catch_pure, rule within_atomic)
      (auto intro: within_pure)
  have tr: "within 7 (catchM (transfer_mailbox E now old name) (rollback_rename session name) :: ('z client_world_scheme, _) comp)" for now
    by (rule within_catchM[OF within_client_parts(4) within_rollback]) simp
  show ?thesis unfolding rename_to_def by (rule within_thenM[OF tr retire]) simp
qed

lemma within_complete: "within 5 (complete_registration E dr role name desc md session :: ('z client_world_scheme, _) comp)"
  unfolding complete_registration_def publishRegistration_def
  by (rule within_bindM[where a = 0 and b = 5], rule within_pure, rule within_thenM[where a = 0 and b = 5], rule within_modifyM, simp,
      rule within_thenM[where a = 1 and b = 4], rule within_atomic, simp, rule within_thenM[OF within_client_parts(6), where b = 2],
      rule within_thenM[OF within_client_parts(5), where b = 1], rule within_thenM[OF within_client_parts(3), where b = 0])
    (auto intro: within_pure)

lemma within_register: "within 22 (register_client E dr role name desc md :: ('z client_world_scheme, _) comp)"
proof -
  have hb: "within 1 (thenM (if b then startHeartbeat else ret ()) (throw e) :: ('z client_world_scheme, 'a) comp)" for b e
    by (rule within_thenM[where a = 1 and b = 0]) (auto intro: within_pure within_client_parts(3) simp del: One_nat_def)
  have create: "within 5 (catchM (createSession E i n name role desc None) (\<lambda>e. thenM (if b then startHeartbeat else ret ()) (throw e)) :: ('z client_world_scheme, _) comp)" for i n b
    by (rule within_catchM[OF within_client_parts(1) hb]) simp
  have ren: "within 12 (if b then rename_to E dr s old name session else ret () :: ('z client_world_scheme, _) comp)" for b s old session
    by (simp add: within_rename within_pure)
  show ?thesis unfolding register_client_def Let_def
    by (rule within_bindM[where a = 0 and b = 22], rule within_pure, rule within_bindM[where a = 0 and b = 22], rule within_pure,
        rule within_thenM[where a = 0 and b = 22], simp add: within_pure within_client_parts(7), rule within_bindM[OF create, where b = 17],
        rule within_thenM[OF ren within_complete]) simp_all
qed

lemma within_status: "within 2 (custody_status E path now)" "within (length es) (status_list E now es :: ('z world_scheme, _) comp)"
proof -
  show "within 2 (custody_status E path now)"
    unfolding custody_status_def
    by (rule within_bindM[OF within_custody_parts(1), where b = 1])
      (auto intro!: within_pure within_bindM[OF within_custody_parts(2), where b = 0] split: StoredRead.splits option.splits simp del: One_nat_def)
  show "within (length es) (status_list E now es :: ('z world_scheme, _) comp)"
  proof (induction es)
    case (Cons e es)
    have "within (length es) (status_list E now es :: ('z world_scheme, _) comp)" "within (length (e # es)) (status_list E now es :: ('z world_scheme, _) comp)" using Cons by (auto intro: within_mono)
    then show ?case
      by (auto intro!: within_pure within_bindM[OF within_custody_parts(2), where b = "length es"] within_bindM[where a = "length es" and b = 0 and n = "length es"]
          split: StoredRead.splits option.splits simp del: One_nat_def)
  qed (simp add: within_pure)
qed

lemma within_unregister: "within 1 (unregister E :: ('z client_world_scheme, _) comp)"
proof -
  have sl: "within 0 (stopLeaseRefresh :: ('z client_world_scheme, _) comp)" unfolding stopLeaseRefresh_def by (rule within_modifyM) simp
  have rq: "within 0 (requireRegistered :: ('z client_world_scheme, _) comp)"
    unfolding requireRegistered_def by (rule within_bindM[where a = 0 and b = 0]) (auto intro: within_pure split: option.splits list.splits)
  show ?thesis unfolding unregister_def
    by (rule within_bindM[OF rq, where b = 1], rule within_thenM[OF within_client_parts(7), where b = 1], rule within_thenM[OF sl, where b = 1],
        rule within_bindM[where a = 0 and b = 1], rule within_pure, rule within_thenM[where a = 1 and b = 0], rule within_atomic)
      (auto intro: within_modifyM)
qed

text \<open>
  (C30) These operations do not retry for ever. Whatever the other clients do between its steps, a send gives up
  after ten attempts, an idempotent one too; claiming or releasing custody of a worktree takes at most seven
  round trips, reading the status of one at most two, and expiring the records of a listing at most one for each
  record; registering an actor takes at most five, a whole registration with rename, rollback and retirement at
  most twenty-two, and unregistering one.
\<close>

theorem retries_bounded:
  "within 10 (send E bound m :: ('z world_scheme, _) comp) \<and> within 10 (sendIdempotent E bound m sender key :: ('z world_scheme, _) comp) \<and>
   within 7 (custody_claim E i :: ('z world_scheme, _) comp) \<and> within 7 (custody_release E j :: ('z world_scheme, _) comp) \<and>
   within 2 (custody_status E path now :: ('z world_scheme, _) comp) \<and> within (length es) (status_list E now es :: ('z world_scheme, _) comp) \<and>
   within 5 (register H E a :: ('z world_scheme, _) comp) \<and>
   within 22 (register_client E dr role name desc md :: ('z client_world_scheme, _) comp) \<and>
   within 1 (unregister E :: ('z client_world_scheme, _) comp)"
proof (intro conjI)
  show "within 10 (send E bound m :: ('z world_scheme, _) comp)" unfolding send_def by (rule within_send_loop)
  show "within 10 (sendIdempotent E bound m sender key :: ('z world_scheme, _) comp)" unfolding sendIdempotent_def by (rule within_sendIdempotent_loop)
  show "within 7 (custody_claim E i :: ('z world_scheme, _) comp)"
    unfolding custody_claim_def by (rule within_bindM[OF within_iso_after within_claim_loop]) simp
  show "within 7 (custody_release E j :: ('z world_scheme, _) comp)"
    unfolding custody_release_def using within_release_loop[of 2 E j] by (auto intro: within_pure split: sum.splits)
  show "within 2 (custody_status E path now :: ('z world_scheme, _) comp)" "within (length es) (status_list E now es :: ('z world_scheme, _) comp)"
    by (rule within_status)+
  show "within 5 (register H E a :: ('z world_scheme, _) comp)"
    unfolding register_def using within_register_loop[of 2 E] by (auto intro: within_pure split: sum.splits)
  show "within 22 (register_client E dr role name desc md :: ('z client_world_scheme, _) comp)" by (rule within_register)
  show "within 1 (unregister E :: ('z client_world_scheme, _) comp)" by (rule within_unregister)
qed

end
